(* ===== verification/Flywheel_Prelude.thy ===== *)
theory Flywheel_Prelude
  imports Main "HOL-Library.Word" "HOL-Library.Char_ord" "HOL-Library.List_Lexorder"
begin

text \<open>
  Shared vocabulary of the development: machine integers at their Rust widths with the
  saturating and checked operations the code uses, big-endian byte strings and their
  order, the lexicographic facts behind key-range scans, and the action type that models
  an effectful, fallible Rust method (\<open>async fn f(&self) -> Result<A, E>\<close>) as a
  state-passing function.
\<close>

unbundle bit_operations_syntax

section \<open>Collections and types\<close>

named_theorems sat_simps \<open>what saturating and checked arithmetic computes, over nat\<close>
named_theorems act_simps \<open>unfolding of actions\<close>
named_theorems act_keeps \<open>actions that keep a state predicate\<close>

type_synonym u8 = "8 word"
type_synonym u16 = "16 word"
type_synonym u32 = "32 word"
type_synonym u64 = "64 word"
type_synonym bytes = "u8 list"

section \<open>Saturating and checked arithmetic\<close>

text \<open>Rust's \<open>saturating_add\<close>, \<open>saturating_sub\<close> and \<open>checked_add\<close> on unsigned integers.\<close>

definition saturating_add :: "'a::len word \<Rightarrow> 'a word \<Rightarrow> 'a word" where
  "saturating_add x y = (if unat x + unat y < 2 ^ LENGTH('a) then x + y else - 1)"

definition saturating_sub :: "'a::len word \<Rightarrow> 'a word \<Rightarrow> 'a word" where
  "saturating_sub x y = (if y \<le> x then x - y else 0)"

definition checked_add :: "'a::len word \<Rightarrow> 'a word \<Rightarrow> 'a word option" where
  "checked_add x y = (if unat x + unat y < 2 ^ LENGTH('a) then Some (x + y) else None)"

lemma unat_max_word: "unat (- 1 :: 'a::len word) = 2 ^ LENGTH('a) - 1"
  by (simp add: unsigned_minus_1_eq_mask mask_eq_exp_minus_1)

lemma unat_add_no_overflow:
  fixes x y :: "'a::len word"
  shows "unat x + unat y < 2 ^ LENGTH('a) \<Longrightarrow> unat (x + y) = unat x + unat y"
  by (simp add: unat_add_lem [THEN iffD1])

lemma unat_saturating_add [sat_simps]:
  fixes x y :: "'a::len word"
  shows "unat (saturating_add x y) = min (unat x + unat y) (2 ^ LENGTH('a) - 1)"
  by (simp add: saturating_add_def unat_add_no_overflow unat_max_word)

lemma unat_saturating_sub [sat_simps]:
  fixes x y :: "'a::len word"
  shows "unat (saturating_sub x y) = unat x - unat y"
  by (auto simp: saturating_sub_def unat_sub word_le_nat_alt)

lemma checked_add_Some [sat_simps]:
  fixes x y :: "'a::len word"
  shows "checked_add x y = Some z \<longleftrightarrow>
    unat x + unat y < 2 ^ LENGTH('a) \<and> z = x + y"
  by (auto simp: checked_add_def)

lemma checked_add_unat:
  fixes x y :: "'a::len word"
  shows "checked_add x y = Some z \<Longrightarrow> unat z = unat x + unat y"
  by (auto simp: checked_add_def unat_add_no_overflow split: if_splits)

lemma unat_bound: "unat (x :: 'a::len word) < 2 ^ LENGTH('a)"
  by (rule unsigned_less)

lemma u64_less: "unat (x :: u64) < 18446744073709551616"
  using unat_bound [of x] by simp

lemmas u64_le_nat = word_le_nat_alt [where 'a = 64]
lemmas u64_less_nat = word_less_nat_alt [where 'a = 64]

section \<open>Big-endian byte strings\<close>

text \<open>
  \<open>to_be_bytes\<close> of an unsigned integer of \<open>n\<close> bytes: the base-256 digits, most
  significant first. \<open>from_be_bytes\<close> reads them back.
\<close>

fun be_digits :: "nat \<Rightarrow> nat \<Rightarrow> nat list" where
  "be_digits 0 v = []"
| "be_digits (Suc n) v = be_digits n (v div 256) @ [v mod 256]"

definition be_bytes :: "nat \<Rightarrow> nat \<Rightarrow> bytes" where
  "be_bytes n v = map of_nat (be_digits n v)"

definition be_value :: "bytes \<Rightarrow> nat" where
  "be_value bs = foldl (\<lambda>acc b. acc * 256 + unat b) 0 bs"

definition u64_to_be_bytes :: "u64 \<Rightarrow> bytes" where
  "u64_to_be_bytes x = be_bytes 8 (unat x)"

definition u64_from_be_bytes :: "bytes \<Rightarrow> u64" where
  "u64_from_be_bytes bs = of_nat (be_value bs)"

definition u16_to_be_bytes :: "u16 \<Rightarrow> bytes" where
  "u16_to_be_bytes x = be_bytes 2 (unat x)"

lemma length_be_digits [simp]: "length (be_digits n v) = n"
  by (induction n arbitrary: v) auto

lemma length_be_bytes [simp]: "length (be_bytes n v) = n"
  by (simp add: be_bytes_def)

lemma length_u64_to_be_bytes [simp]: "length (u64_to_be_bytes x) = 8"
  by (simp add: u64_to_be_bytes_def)

lemma length_u16_to_be_bytes [simp]: "length (u16_to_be_bytes x) = 2"
  by (simp add: u16_to_be_bytes_def)

lemma be_bytes_Suc: "be_bytes (Suc n) v = be_bytes n (v div 256) @ [of_nat (v mod 256)]"
  by (simp add: be_bytes_def)

lemma be_value_snoc: "be_value (bs @ [b]) = be_value bs * 256 + unat b"
  by (simp add: be_value_def)

lemma unat_byte_of_nat: "unat (of_nat (v mod 256) :: u8) = v mod 256"
  by (simp add: unat_of_nat)

lemma be_value_be_bytes: "v < 256 ^ n \<Longrightarrow> be_value (be_bytes n v) = v"
proof (induction n arbitrary: v)
  case 0
  then show ?case by (simp add: be_bytes_def be_value_def)
next
  case (Suc n)
  then have "v div 256 < 256 ^ n"
    by (simp add: less_mult_imp_div_less mult.commute)
  then show ?case
    by (simp add: be_bytes_Suc be_value_snoc Suc.IH unat_byte_of_nat)
qed

lemma u64_be_roundtrip [simp]: "u64_from_be_bytes (u64_to_be_bytes x) = x"
proof -
  have "unat x < 256 ^ 8" using u64_less [of x] by simp
  then show ?thesis
    by (simp add: u64_from_be_bytes_def u64_to_be_bytes_def be_value_be_bytes)
qed

lemma u16_be_inject: "u16_to_be_bytes x = u16_to_be_bytes y \<longleftrightarrow> x = y"
proof -
  have "unat z < 256 ^ 2" for z :: u16 using unat_bound [of z] by simp
  then have "be_value (u16_to_be_bytes z) = unat z" for z
    by (simp add: u16_to_be_bytes_def be_value_be_bytes)
  then show ?thesis by (metis word_unat_eq_iff)
qed

section \<open>The byte-wise order\<close>

text \<open>
  \<^theory_text>\<open>List_Lexorder\<close> orders lists lexicographically, which is Rust's order on byte
  slices and on \<open>str\<close>, and the order of a RocksDB column family.
\<close>

lemma lex_snoc_less:
  fixes xs ys :: "'a::linorder list"
  shows "length xs = length ys \<Longrightarrow>
    xs @ [a] < ys @ [b] \<longleftrightarrow> xs < ys \<or> xs = ys \<and> a < b"
  by (induction xs ys rule: list_induct2) auto

lemma lex_append_same:
  fixes p :: "'a::linorder list"
  shows "p @ xs < p @ ys \<longleftrightarrow> xs < ys"
  by (induction p) auto

lemma lex_append_less:
  fixes xs ys :: "'a::linorder list"
  shows "length xs = length ys \<Longrightarrow> xs < ys \<Longrightarrow> xs @ us < ys @ vs"
  by (induction xs ys rule: list_induct2) auto

lemma digit_less_iff:
  fixes a b r t :: nat
  assumes "r < 256" and "t < 256"
  shows "a < b \<or> a = b \<and> r < t \<longleftrightarrow> a * 256 + r < b * 256 + t"
  using assms by (cases "a < b"; cases "a = b"; simp)

lemma div_mod_less_iff:
  "v div 256 < w div 256 \<or> v div 256 = w div 256 \<and> v mod 256 < w mod 256 \<longleftrightarrow> v < (w :: nat)"
  using digit_less_iff [of "v mod 256" "w mod 256" "v div 256" "w div 256"] by simp

lemma be_bytes_less_iff:
  "v < 256 ^ n \<Longrightarrow> w < 256 ^ n \<Longrightarrow> be_bytes n v < be_bytes n w \<longleftrightarrow> v < w"
proof (induction n arbitrary: v w)
  case 0
  then show ?case by (simp add: be_bytes_def)
next
  case (Suc n)
  let ?hv = "v div 256" and ?hw = "w div 256"
  have hi: "?hv < 256 ^ n" "?hw < 256 ^ n"
    using Suc.prems by (simp_all add: less_mult_imp_div_less mult.commute)
  have eq: "be_bytes n ?hv = be_bytes n ?hw \<longleftrightarrow> ?hv = ?hw"
    using hi be_value_be_bytes by metis
  have lo: "(of_nat (v mod 256) :: u8) < of_nat (w mod 256) \<longleftrightarrow> v mod 256 < w mod 256"
    by (simp add: word_less_nat_alt unat_byte_of_nat)
  have "be_bytes (Suc n) v < be_bytes (Suc n) w \<longleftrightarrow>
      ?hv < ?hw \<or> ?hv = ?hw \<and> v mod 256 < w mod 256"
    using lex_snoc_less [of "be_bytes n ?hv" "be_bytes n ?hw"] Suc.IH [OF hi] eq lo
    by (simp add: be_bytes_Suc)
  also have "\<dots> \<longleftrightarrow> v < w"
    by (rule div_mod_less_iff)
  finally show ?case .
qed

lemma u64_be_less_iff: "u64_to_be_bytes x < u64_to_be_bytes y \<longleftrightarrow> x < y"
proof -
  have "unat z < 256 ^ 8" for z :: u64 using u64_less [of z] by simp
  then show ?thesis
    by (simp add: u64_to_be_bytes_def be_bytes_less_iff word_less_nat_alt)
qed

lemma u64_be_inject: "u64_to_be_bytes x = u64_to_be_bytes y \<longleftrightarrow> x = y"
  by (metis u64_be_roundtrip)

text \<open>
  The half-open key range from a prefix to the prefix with its last byte incremented
  holds exactly the keys that start with the prefix, as long as the last byte can be
  incremented without a carry.
\<close>

lemma prefix_range_single:
  fixes b :: u8
  assumes "b < 255"
  shows "[b] \<le> k \<and> k < [b + 1] \<longleftrightarrow> take 1 k = [b]"
proof (cases k)
  case Nil
  then show ?thesis by simp
next
  case (Cons x xs)
  have nat: "unat (b + 1) = unat b + 1"
    using assms by (simp add: unat_add_no_overflow word_less_nat_alt)
  have "[b] \<le> k \<longleftrightarrow> b \<le> x" by (auto simp: Cons)
  moreover have "k < [b + 1] \<longleftrightarrow> x < b + 1" by (auto simp: Cons)
  moreover have "b \<le> x \<and> x < b + 1 \<longleftrightarrow> x = b"
    using nat by (auto simp: word_le_nat_alt word_less_nat_alt word_unat_eq_iff)
  ultimately show ?thesis by (simp add: Cons)
qed

lemma prefix_range:
  fixes p :: bytes
  assumes "b < 255"
  shows "p @ [b] \<le> k \<and> k < p @ [b + 1] \<longleftrightarrow> take (Suc (length p)) k = p @ [b]"
proof (induction p arbitrary: k)
  case Nil
  show ?case using prefix_range_single [OF assms] by simp
next
  case (Cons c p)
  show ?case
  proof (cases k)
    case Nil
    then show ?thesis by simp
  next
    case (Cons x xs)
    then show ?thesis
      using Cons.IH [of xs] by auto
  qed
qed

lemma take_prefix_iff: "take (length p) k = p \<longleftrightarrow> (\<exists>r. k = p @ r)"
  by (metis append_eq_conv_conj append_take_drop_id)

section \<open>Actions\<close>

text \<open>
  A method that reads and changes state and may fail is a function from the state to its
  \<open>Result\<close> and the state it leaves; the state is returned on the error path too, since a
  Rust method that returns \<open>Err\<close> keeps the effects it already had. \<open>and_then\<close> is the
  \<open>?\<close> operator, \<open>outcome\<close> a \<open>match\<close> on the result, \<open>map_err\<close> the error
  conversion that \<open>?\<close> performs through \<open>From\<close>.
\<close>

type_synonym ('s, 'e, 'a) act = "'s \<Rightarrow> ('e + 'a) \<times> 's"

definition ok :: "'a \<Rightarrow> ('s, 'e, 'a) act" where
  "ok x = (\<lambda>s. (Inr x, s))"

definition throw :: "'e \<Rightarrow> ('s, 'e, 'a) act" where
  "throw e = (\<lambda>s. (Inl e, s))"

definition and_then :: "('s, 'e, 'a) act \<Rightarrow> ('a \<Rightarrow> ('s, 'e, 'b) act) \<Rightarrow> ('s, 'e, 'b) act" where
  "and_then m f = (\<lambda>s. case m s of (Inl e, t) \<Rightarrow> (Inl e, t) | (Inr x, t) \<Rightarrow> f x t)"

definition outcome :: "('s, 'e, 'a) act \<Rightarrow> ('e + 'a \<Rightarrow> ('s, 'f, 'b) act) \<Rightarrow> ('s, 'f, 'b) act" where
  "outcome m f = (\<lambda>s. case m s of (r, t) \<Rightarrow> f r t)"

definition map_err :: "('e \<Rightarrow> 'f) \<Rightarrow> ('s, 'e, 'a) act \<Rightarrow> ('s, 'f, 'a) act" where
  "map_err g m = (\<lambda>s. case m s of (Inl e, t) \<Rightarrow> (Inl (g e), t) | (Inr x, t) \<Rightarrow> (Inr x, t))"

definition modify :: "('s \<Rightarrow> 's) \<Rightarrow> ('s, 'e, unit) act" where
  "modify f = (\<lambda>s. (Inr (), f s))"

definition lift_result :: "'e + 'a \<Rightarrow> ('s, 'e, 'a) act" where
  "lift_result r = (\<lambda>s. (r, s))"

lemmas act_defs = ok_def throw_def modify_def lift_result_def

lemma and_then_Inr [act_simps]: "m s = (Inr x, t) \<Longrightarrow> and_then m f s = f x t"
  by (simp add: and_then_def)

lemma and_then_Inl [act_simps]: "m s = (Inl e, t) \<Longrightarrow> and_then m f s = (Inl e, t)"
  by (simp add: and_then_def)

lemma and_then_ok [simp]: "and_then (ok x) f = f x"
  by (simp add: and_then_def ok_def)

lemma and_then_throw [simp]: "and_then (throw e) f = throw e"
  by (simp add: and_then_def throw_def)

lemma and_then_assoc: "and_then (and_then m f) g = and_then m (\<lambda>x. and_then (f x) g)"
  by (auto simp: and_then_def fun_eq_iff split: prod.splits sum.splits)

lemma and_then_E:
  assumes "and_then m f s = (r, u)"
  obtains (err) e where "m s = (Inl e, u)" and "r = Inl e"
    | (val) x t where "m s = (Inr x, t)" and "f x t = (r, u)"
  using assms by (cases "m s") (auto simp: and_then_def split: sum.splits)

lemma outcome_E:
  assumes "outcome m f s = (r, u)"
  obtains r' t where "m s = (r', t)" and "f r' t = (r, u)"
  using assms by (cases "m s") (auto simp: outcome_def)

lemma map_err_E:
  assumes "map_err g m s = (r, u)"
  obtains r' where "m s = (r', u)" and "r = (case r' of Inl e \<Rightarrow> Inl (g e) | Inr x \<Rightarrow> Inr x)"
  using assms by (cases "m s") (auto simp: map_err_def split: sum.splits)

text \<open>Whatever the result, the action leads from a state that satisfies \<open>P\<close> to one that does.\<close>

definition keeps :: "('s \<Rightarrow> bool) \<Rightarrow> ('s, 'e, 'a) act \<Rightarrow> bool" where
  "keeps P m \<longleftrightarrow> (\<forall>s. P s \<longrightarrow> P (snd (m s)))"

lemma keepsI: "(\<And>s r t. P s \<Longrightarrow> m s = (r, t) \<Longrightarrow> P t) \<Longrightarrow> keeps P m"
  by (auto simp: keeps_def) (metis prod.collapse)

lemma keepsD: "keeps P m \<Longrightarrow> P s \<Longrightarrow> m s = (r, t) \<Longrightarrow> P t"
  by (metis keeps_def snd_conv)

lemma keeps_ok [act_keeps]: "keeps P (ok x)"
  by (simp add: keeps_def ok_def)

lemma keeps_throw [act_keeps]: "keeps P (throw e)"
  by (simp add: keeps_def throw_def)

lemma keeps_lift_result [act_keeps]: "keeps P (lift_result r)"
  by (simp add: keeps_def lift_result_def)

lemma keeps_modify: "(\<And>s. P s \<Longrightarrow> P (f s)) \<Longrightarrow> keeps P (modify f)"
  by (simp add: keeps_def modify_def)

lemma keeps_and_then [act_keeps]:
  "keeps P m \<Longrightarrow> (\<And>x. keeps P (f x)) \<Longrightarrow> keeps P (and_then m f)"
  by (rule keepsI, erule and_then_E) (blast dest: keepsD)+

lemma keeps_outcome [act_keeps]:
  "keeps P m \<Longrightarrow> (\<And>x. keeps P (f x)) \<Longrightarrow> keeps P (outcome m f)"
  by (rule keepsI, erule outcome_E) (blast dest: keepsD)

lemma keeps_map_err [act_keeps]: "keeps P m \<Longrightarrow> keeps P (map_err g m)"
  by (rule keepsI, erule map_err_E) (blast dest: keepsD)

lemma keeps_if [act_keeps]: "keeps P m \<Longrightarrow> keeps P n \<Longrightarrow> keeps P (if b then m else n)"
  by simp

lemma keeps_case_option [act_keeps]:
  "keeps P n \<Longrightarrow> (\<And>x. keeps P (f x)) \<Longrightarrow> keeps P (case a of None \<Rightarrow> n | Some x \<Rightarrow> f x)"
  by (cases a) auto

lemma keeps_case_sum [act_keeps]:
  "(\<And>x. keeps P (g x)) \<Longrightarrow> (\<And>x. keeps P (f x)) \<Longrightarrow>
    keeps P (case a of Inl x \<Rightarrow> g x | Inr x \<Rightarrow> f x)"
  by (cases a) auto

end
