(* ===== verification/Domain.thy ===== *)
theory Domain
  imports Flywheel_Prelude
begin

text \<open>
  The data model: artifact and channel identities, metadata records, references and the
  error enums (\<open>src/artifact\<close>, \<open>src/channel\<close>, \<open>src/reference.rs\<close>,
  \<open>src/storage/metadata/mod.rs\<close>), with the parsing and printing of identities. The
  \<open>hex\<close>, \<open>ulid\<close> and \<open>sha2\<close> crates are not part of the repository: the functions the
  code calls are fields of the record \<open>crates\<close>, and what the code relies on is stated in
  \<open>hex_ok\<close>, \<open>ulid_ok\<close> and \<open>sha256_ok\<close>.
\<close>

section \<open>Text and bytes\<close>

text \<open>
  A Rust \<open>str\<close> is its UTF-8 bytes; a \<open>string\<close> here is a list of 8-bit characters, one
  per byte. \<open>str_bytes\<close> is \<open>str::as_bytes\<close>.
\<close>

definition str_bytes :: "string \<Rightarrow> bytes" where
  "str_bytes s = map (\<lambda>c. of_nat (of_char c)) s"

definition is_ascii_uppercase :: "char \<Rightarrow> bool" where
  "is_ascii_uppercase c \<longleftrightarrow> CHR ''A'' \<le> c \<and> c \<le> CHR ''Z''"

definition is_ascii_lowercase :: "char \<Rightarrow> bool" where
  "is_ascii_lowercase c \<longleftrightarrow> CHR ''a'' \<le> c \<and> c \<le> CHR ''z''"

definition is_ascii_digit :: "char \<Rightarrow> bool" where
  "is_ascii_digit c \<longleftrightarrow> CHR ''0'' \<le> c \<and> c \<le> CHR ''9''"

definition is_ascii_alphanumeric :: "char \<Rightarrow> bool" where
  "is_ascii_alphanumeric c \<longleftrightarrow> is_ascii_digit c \<or> is_ascii_lowercase c \<or> is_ascii_uppercase c"

definition to_ascii_lowercase :: "char \<Rightarrow> char" where
  "to_ascii_lowercase c = (if is_ascii_uppercase c then char_of (of_char c + 32 :: nat) else c)"

lemma unat_of_char [simp]: "unat (of_nat (of_char c) :: u8) = of_char c"
  by (simp add: unat_of_nat)

lemma of_char_u8_inject: "(of_nat (of_char c) :: u8) = of_nat (of_char d) \<longleftrightarrow> c = d"
  by (metis unat_of_char of_char_eq_iff)

lemma length_str_bytes [simp]: "length (str_bytes s) = length s"
  by (simp add: str_bytes_def)

lemma str_bytes_inject [simp]: "str_bytes s = str_bytes t \<longleftrightarrow> s = t"
proof -
  have "inj (\<lambda>c. of_nat (of_char c) :: u8)"
    by (rule injI) (simp add: of_char_u8_inject)
  then show ?thesis by (simp add: str_bytes_def inj_map_eq_map)
qed

section \<open>Fixed-size byte arrays\<close>

text \<open>
  The Rust type \<open>[u8; 32]\<close>, the representation of \<open>Digest\<close> and \<open>TokenDigest\<close>.
  \<open>array32\<close> makes an array of a slice of 32 bytes; the code applies it to such slices only.
\<close>

typedef bytes32 = "{bs :: bytes. length bs = 32}"
  morphisms bytes_of32 Abs_bytes32
  by (rule exI [of _ "replicate 32 0"]) simp

lemma Abs_bytes32_inverse_code [code abstype]: "Abs_bytes32 (bytes_of32 a) = a"
  by (rule bytes_of32_inverse)

definition array32 :: "bytes \<Rightarrow> bytes32" where
  "array32 bs = Abs_bytes32 (take 32 (bs @ replicate 32 0))"

lemma bytes_of_array32 [code abstract]:
  "bytes_of32 (array32 bs) = take 32 (bs @ replicate 32 0)"
  by (simp add: array32_def Abs_bytes32_inverse)

instantiation bytes32 :: equal
begin

definition equal_bytes32 :: "bytes32 \<Rightarrow> bytes32 \<Rightarrow> bool" where
  "equal_bytes32 a b \<longleftrightarrow> bytes_of32 a = bytes_of32 b"

instance
  by intro_classes (simp add: equal_bytes32_def bytes_of32_inject)

end

lemma length_bytes_of32 [simp]: "length (bytes_of32 a) = 32"
  using bytes_of32 [of a] by simp

lemma array32_bytes [simp]: "array32 (bytes_of32 a) = a"
  by (simp add: array32_def bytes_of32_inverse)

lemma bytes_array32: "length bs = 32 \<Longrightarrow> bytes_of32 (array32 bs) = bs"
  by (simp add: bytes_of_array32)

lemma bytes_of32_eq [simp]: "bytes_of32 a = bytes_of32 b \<longleftrightarrow> a = b"
  by (simp add: bytes_of32_inject)

section \<open>Identities and records\<close>

type_synonym Digest = bytes32

datatype ArtifactId = ArtifactId (digest: Digest)

datatype TokenDigest = TokenDigest bytes32

type_synonym Ulid = "128 word"

datatype ChannelId = ChannelId (ulid_of: Ulid)

definition default_channel :: ChannelId where
  "default_channel = ChannelId 0"

datatype StoredEncoding = Identity | Zstd

record ArtifactMetadata =
  content_len :: u64
  content_type :: "string option"
  created_at :: u64
  eligible_at :: u64
  stored_len :: u64
  encoding :: StoredEncoding

record ReferenceRecord =
  ref_artifact :: ArtifactId
  updated_at :: u64
  etag :: "string option"
  last_modified :: "string option"

datatype Access = Open | Token TokenDigest

definition is_protected :: "Access \<Rightarrow> bool" where
  "is_protected a = (case a of Token _ \<Rightarrow> True | Open \<Rightarrow> False)"

datatype Lifecycle = Active | Deleting

record ChannelRecord =
  channel_id :: ChannelId
  access :: Access
  expiry_seconds :: u64
  lifecycle :: Lifecycle
  channel_created_at :: u64

datatype Durability = Durable | BestEffort

record Candidate =
  cand_eligible_at :: u64
  cand_artifact :: ArtifactId

datatype Evicted = Removed u64 | Stale

subsection \<open>Errors\<close>

datatype IdentityError = UnsupportedAlgorithm | InvalidDigest

datatype RecordError = Empty | UnsupportedVersion u8 | Encode string | Decode string

datatype MetadataError =
    Store string
  | IncompatibleStore bytes
  | AlreadyExists
  | Record RecordError
  | Task string

datatype IoError = IoNotFound | IoAlreadyExists | IoOther string

datatype LocalError =
    Io IoError
  | Stream string
  | TooLarge
  | OutOfSpace
  | DigestMismatch
  | InvalidChannelDirectory string
  | LocalTask string

section \<open>The crates identities are built on\<close>

record crates =
  hex_encode :: "bytes \<Rightarrow> string"
  hex_decode :: "string \<Rightarrow> nat \<Rightarrow> bytes option"
  ulid_to_str :: "Ulid \<Rightarrow> string"
  ulid_from_string :: "string \<Rightarrow> Ulid option"
  sha256 :: "bytes \<Rightarrow> bytes"

text \<open>
  \<open>hex::encode\<close> prints two lowercase digits per byte and \<open>hex::decode_to_slice\<close> reads
  them back: it accepts digits of either case and exactly twice as many digits as the
  slice has bytes.
\<close>

definition hex_ok :: "crates \<Rightarrow> bool" where
  "hex_ok c \<longleftrightarrow>
     (\<forall>bs. hex_decode c (hex_encode c bs) (length bs) = Some bs)
   \<and> (\<forall>bs. list_all (\<lambda>x. is_ascii_digit x \<or> is_ascii_lowercase x) (hex_encode c bs))
   \<and> (\<forall>bs. length (hex_encode c bs) = 2 * length bs)
   \<and> (\<forall>s n bs. hex_decode c s n = Some bs \<longrightarrow>
        length bs = n \<and> hex_encode c bs = map to_ascii_lowercase s)"

text \<open>
  The canonical text of a ULID is 26 characters of Crockford's alphabet (digits and
  capital letters) and determines it; parsing accepts at least the canonical text.
\<close>

definition ulid_len :: nat where
  "ulid_len = 26"

definition ulid_ok :: "crates \<Rightarrow> bool" where
  "ulid_ok c \<longleftrightarrow>
     (\<forall>u. length (ulid_to_str c u) = ulid_len)
   \<and> (\<forall>u. list_all (\<lambda>x. is_ascii_digit x \<or> is_ascii_uppercase x) (ulid_to_str c u))
   \<and> (\<forall>u. ulid_from_string c (ulid_to_str c u) = Some u)"

definition sha256_ok :: "crates \<Rightarrow> bool" where
  "sha256_ok c \<longleftrightarrow> (\<forall>bs. length (sha256 c bs) = 32)"

section \<open>Parsing and printing\<close>

definition Digest_parse :: "crates \<Rightarrow> string \<Rightarrow> IdentityError + Digest" where
  "Digest_parse c value =
     (if list_ex is_ascii_uppercase value then Inl InvalidDigest
      else case hex_decode c value 32 of
             None \<Rightarrow> Inl InvalidDigest
           | Some bytes \<Rightarrow> Inr (array32 bytes))"

definition Digest_display :: "crates \<Rightarrow> Digest \<Rightarrow> string" where
  "Digest_display c d = hex_encode c (bytes_of32 d)"

definition ArtifactId_parse :: "crates \<Rightarrow> string \<Rightarrow> string \<Rightarrow> IdentityError + ArtifactId" where
  "ArtifactId_parse c algorithm value =
     (if algorithm \<noteq> ''sha256'' then Inl UnsupportedAlgorithm
      else case Digest_parse c value of Inl e \<Rightarrow> Inl e | Inr d \<Rightarrow> Inr (ArtifactId d))"

definition ArtifactId_display :: "crates \<Rightarrow> ArtifactId \<Rightarrow> string" where
  "ArtifactId_display c a = ''sha256:'' @ Digest_display c (digest a)"

definition ChannelId_as_key :: "crates \<Rightarrow> ChannelId \<Rightarrow> bytes" where
  "ChannelId_as_key c ch = str_bytes (ulid_to_str c (ulid_of ch))"

definition ChannelId_display :: "crates \<Rightarrow> ChannelId \<Rightarrow> string" where
  "ChannelId_display c ch = ulid_to_str c (ulid_of ch)"

definition ChannelId_from_str :: "crates \<Rightarrow> string \<Rightarrow> ChannelId option" where
  "ChannelId_from_str c value =
     (case ulid_from_string c value of
        None \<Rightarrow> None
      | Some parsed \<Rightarrow>
          (let channel = ChannelId parsed
           in if ChannelId_display c channel \<noteq> value then None else Some channel))"

definition Sha256_digest :: "crates \<Rightarrow> bytes \<Rightarrow> Digest" where
  "Sha256_digest c bs = array32 (sha256 c bs)"

definition ChannelToken_digest :: "crates \<Rightarrow> string \<Rightarrow> TokenDigest" where
  "ChannelToken_digest c token = TokenDigest (Sha256_digest c (str_bytes token))"

definition TokenDigest_verify :: "crates \<Rightarrow> TokenDigest \<Rightarrow> string \<Rightarrow> bool" where
  "TokenDigest_verify c d candidate \<longleftrightarrow> d = TokenDigest (Sha256_digest c (str_bytes candidate))"

definition max_reference_len :: nat where
  "max_reference_len = 512"

definition Reference_is_valid :: "string \<Rightarrow> bool" where
  "Reference_is_valid value \<longleftrightarrow>
     value \<noteq> [] \<and> length value \<le> max_reference_len
     \<and> list_all (\<lambda>b. is_ascii_alphanumeric b \<or> b \<in> set ''-_.~'') value"

definition Reference_parse :: "string \<Rightarrow> string option" where
  "Reference_parse value = (if \<not> Reference_is_valid value then None else Some value)"

section \<open>Facts about identities\<close>

lemma lower_not_upper: "is_ascii_digit x \<or> is_ascii_lowercase x \<Longrightarrow> \<not> is_ascii_uppercase x"
  by (auto simp: is_ascii_digit_def is_ascii_lowercase_def is_ascii_uppercase_def less_eq_char_def)

lemma map_lower_id: "\<not> list_ex is_ascii_uppercase s \<Longrightarrow> map to_ascii_lowercase s = s"
  by (induction s) (auto simp: to_ascii_lowercase_def)

lemma hex_encode_no_upper: "hex_ok c \<Longrightarrow> \<not> list_ex is_ascii_uppercase (hex_encode c bs)"
  unfolding hex_ok_def list_all_iff list_ex_iff using lower_not_upper by blast

lemma Digest_parse_iff:
  assumes "hex_ok c"
  shows "Digest_parse c s = Inr d \<longleftrightarrow> s = Digest_display c d"
proof
  assume "Digest_parse c s = Inr d"
  then obtain bs where up: "\<not> list_ex is_ascii_uppercase s"
    and bs: "hex_decode c s 32 = Some bs" and d: "d = array32 bs"
    by (auto simp: Digest_parse_def split: if_splits option.splits)
  from assms bs have "length bs = 32" and "hex_encode c bs = map to_ascii_lowercase s"
    by (auto simp: hex_ok_def)
  with up d show "s = Digest_display c d"
    by (simp add: Digest_display_def bytes_array32 map_lower_id)
next
  assume s: "s = Digest_display c d"
  have "hex_decode c s 32 = Some (bytes_of32 d)"
    using assms s unfolding hex_ok_def Digest_display_def by (metis length_bytes_of32)
  with hex_encode_no_upper [OF assms] show "Digest_parse c s = Inr d"
    by (simp add: Digest_parse_def s Digest_display_def)
qed

lemma as_key_length: "ulid_ok c \<Longrightarrow> length (ChannelId_as_key c ch) = ulid_len"
  by (simp add: ulid_ok_def ChannelId_as_key_def)

lemma ulid_str_inject: "ulid_ok c \<Longrightarrow> ulid_to_str c u = ulid_to_str c v \<longleftrightarrow> u = v"
  unfolding ulid_ok_def by (metis option.inject)

lemma as_key_inject: "ulid_ok c \<Longrightarrow> ChannelId_as_key c a = ChannelId_as_key c b \<longleftrightarrow> a = b"
  by (cases a; cases b) (simp add: ChannelId_as_key_def ulid_str_inject)

lemma as_key_byte_bound:
  assumes "ulid_ok c" and "b \<in> set (ChannelId_as_key c ch)"
  shows "b < 255"
proof -
  from assms obtain x where b: "b = of_nat (of_char x)"
    and x: "is_ascii_digit x \<or> is_ascii_uppercase x"
    by (auto simp: ulid_ok_def ChannelId_as_key_def str_bytes_def list_all_iff)
  have "(of_char x :: nat) \<le> 90"
    using x by (auto simp: is_ascii_digit_def is_ascii_uppercase_def less_eq_char_def)
  then show ?thesis by (simp add: b word_less_nat_alt unat_of_nat)
qed

end
