(* ===== verification/Http_Types.thy ===== *)
theory Http_Types
  imports Domain
begin

text \<open>
  The HTTP values the agent and the shard exchange: methods, headers as the ordered list of
  name and value pairs (names in lower case, as the \<open>http\<close> crate stores them), requests and
  responses whose bodies are the sequence of chunks, or transport errors, a stream yields.
  With them come the string functions of the standard library that request handling uses.
\<close>

datatype Method = GET | HEAD | PUT | POST | PATCH | DELETE | Other_method string

type_synonym StatusCode = nat
type_synonym headers = "(string \<times> bytes) list"
type_synonym body_stream = "(string + bytes) list"

record Request =
  req_method :: Method
  req_path :: string
  req_path_and_query :: "string option"
  req_headers :: headers
  req_body :: body_stream

record Response =
  resp_status :: StatusCode
  resp_headers :: headers
  resp_body :: body_stream

text \<open>What the HTTP client says of a send that got no response.\<close>

record SendError =
  is_connect :: bool
  is_timeout :: bool

definition status_response :: "StatusCode \<Rightarrow> Response" where
  "status_response s = \<lparr>resp_status = s, resp_headers = [], resp_body = []\<rparr>"

definition header_get :: "headers \<Rightarrow> string \<Rightarrow> bytes option" where
  "header_get hs name = map_of hs name"

text \<open>\<open>HeaderValue::to_str\<close> succeeds on visible ASCII and tabs.\<close>

definition header_str :: "bytes \<Rightarrow> string option" where
  "header_str bs =
     (if list_all (\<lambda>b. (32 \<le> unat b \<and> unat b < 127) \<or> unat b = 9) bs
      then Some (map (\<lambda>b. char_of (unat b)) bs) else None)"

definition digit_value :: "char \<Rightarrow> nat option" where
  "digit_value x = (if is_ascii_digit x then Some (of_char x - 48) else None)"

fun parse_digits :: "nat \<Rightarrow> string \<Rightarrow> nat option" where
  "parse_digits acc [] = Some acc"
| "parse_digits acc (x # xs) =
     (case digit_value x of
        None \<Rightarrow> None
      | Some d \<Rightarrow> if acc * 10 + d < 2 ^ 64 then parse_digits (acc * 10 + d) xs else None)"

text \<open>\<open>str::parse\<close> for 64-bit unsigned integers: an optional plus sign and at least one digit.\<close>

definition parse_unsigned :: "string \<Rightarrow> nat option" where
  "parse_unsigned s =
     (let ds = (case s of [] \<Rightarrow> [] | x # xs \<Rightarrow> if x = CHR ''+'' then xs else s)
      in if ds = [] then None else parse_digits 0 ds)"

fun split_on :: "char \<Rightarrow> string \<Rightarrow> string list" where
  "split_on sep [] = [[]]"
| "split_on sep (x # xs) =
     (if x = sep then [] # split_on sep xs
      else case split_on sep xs of [] \<Rightarrow> [[x]] | part # parts \<Rightarrow> (x # part) # parts)"

definition trim_start_matches :: "char \<Rightarrow> string \<Rightarrow> string" where
  "trim_start_matches x s = dropWhile ((=) x) s"

definition starts_with :: "string \<Rightarrow> string \<Rightarrow> bool" where
  "starts_with p s \<longleftrightarrow> take (length p) s = p"

lemma split_on_not_empty [simp]: "split_on sep s \<noteq> []"
  by (induction s) (auto split: list.splits)

end
