(* ===== verification/Negotiation.thy ===== *)
theory Negotiation
  imports Http_Types Complex_Main
begin

text \<open>
  Content negotiation of the package proxy (\<open>src/proxy/mod.rs\<close>): the representation of a
  Python index or an npm document chosen from an \<open>Accept\<close> header. Qualities are 32-bit floats;
  the model keeps the values a clamped quality can have, not-a-number included, which a
  header can name and which compares false with everything. Parsing a float is a parameter.
\<close>

section \<open>Qualities\<close>

datatype f32 = Num rat | PosInf | NegInf | NaN

fun f32_less :: "f32 \<Rightarrow> f32 \<Rightarrow> bool" where
  "f32_less NaN y = False"
| "f32_less x NaN = False"
| "f32_less (Num a) (Num b) = (a < b)"
| "f32_less NegInf y = (y \<noteq> NegInf)"
| "f32_less x PosInf = (x \<noteq> PosInf)"
| "f32_less PosInf y = False"
| "f32_less x NegInf = False"

definition f32_eq :: "f32 \<Rightarrow> f32 \<Rightarrow> bool" where
  "f32_eq x y \<longleftrightarrow> x \<noteq> NaN \<and> x = y"

definition f32_clamp :: "f32 \<Rightarrow> f32 \<Rightarrow> f32 \<Rightarrow> f32" where
  "f32_clamp x lo hi = (let x = (if f32_less x lo then lo else x) in if f32_less hi x then hi else x)"

section \<open>Media ranges\<close>

definition is_space :: "char \<Rightarrow> bool" where
  "is_space x \<longleftrightarrow> x = CHR '' '' \<or> (9 \<le> (of_char x :: nat) \<and> (of_char x :: nat) \<le> 13)"

definition trim :: "string \<Rightarrow> string" where
  "trim s = rev (dropWhile is_space (rev (dropWhile is_space s)))"

fun split_once :: "char \<Rightarrow> string \<Rightarrow> (string \<times> string) option" where
  "split_once sep [] = None"
| "split_once sep (x # xs) =
     (if x = sep then Some ([], xs) else map_option (\<lambda>(a, b). (x # a, b)) (split_once sep xs))"

definition eq_ignore_ascii_case :: "string \<Rightarrow> string \<Rightarrow> bool" where
  "eq_ignore_ascii_case s t \<longleftrightarrow> map to_ascii_lowercase s = map to_ascii_lowercase t"

fun find_map :: "('a \<Rightarrow> 'b option) \<Rightarrow> 'a list \<Rightarrow> 'b option" where
  "find_map f [] = None"
| "find_map f (x # xs) = (case f x of Some y \<Rightarrow> Some y | None \<Rightarrow> find_map f xs)"

definition quality_field :: "(string \<Rightarrow> f32 option) \<Rightarrow> string \<times> string \<Rightarrow> f32 option" where
  "quality_field parse_f32 = (\<lambda>(name, value). if eq_ignore_ascii_case (trim name) ''q'' then parse_f32 (trim value) else None)"

definition media_range :: "(string \<Rightarrow> f32 option) \<Rightarrow> string \<Rightarrow> string \<times> f32" where
  "media_range parse_f32 spec =
     (let fields = split_on CHR '';'' spec;
          media_type = map to_ascii_lowercase (trim (hd fields));
          named = List.map_filter (\<lambda>field. split_once CHR ''='' (trim field)) (tl fields);
          quality = (case find_map (quality_field parse_f32) named of None \<Rightarrow> Num 1 | Some q \<Rightarrow> q)
      in (media_type, f32_clamp quality (Num 0) (Num 1)))"

type_synonym offered = "(nat \<times> f32) option"

definition offer :: "nat \<Rightarrow> f32 \<Rightarrow> offered \<Rightarrow> offered" where
  "offer specificity quality candidate =
     (if (case candidate of
            None \<Rightarrow> True
          | Some (current_specificity, current_quality) \<Rightarrow>
              current_specificity < specificity
              \<or> (specificity = current_specificity \<and> f32_less current_quality quality))
      then Some (specificity, quality) else candidate)"

definition outranks :: "nat \<times> f32 \<Rightarrow> nat \<times> f32 \<Rightarrow> bool" where
  "outranks preferred other \<longleftrightarrow>
     f32_less (snd other) (snd preferred)
     \<or> (f32_eq (snd preferred) (snd other) \<and> 0 < fst preferred \<and> fst other \<le> fst preferred)"

definition acceptable :: "offered \<Rightarrow> offered" where
  "acceptable candidate = (case candidate of Some (s, q) \<Rightarrow> if f32_less (Num 0) q then candidate else None | None \<Rightarrow> None)"

section \<open>Python and npm\<close>

datatype PythonRepresentation = Html | Json

definition python_range :: "string \<times> f32 \<Rightarrow> offered \<times> offered \<Rightarrow> offered \<times> offered" where
  "python_range = (\<lambda>(media_type, quality) (html, json).
     if media_type \<in> {''application/vnd.pypi.simple.v1+json'', ''application/vnd.pypi.simple.latest+json''}
     then (html, offer 2 quality json)
     else if media_type \<in> {''application/vnd.pypi.simple.v1+html'', ''application/vnd.pypi.simple.latest+html'', ''text/html''}
     then (offer 2 quality html, json)
     else if media_type = ''application/*'' then (offer 1 quality html, offer 1 quality json)
     else if media_type = ''text/*'' then (offer 1 quality html, json)
     else if media_type = ''*/*'' then (offer 0 quality html, offer 0 quality json)
     else (html, json))"

definition blank_accept :: "string option \<Rightarrow> bool" where
  "blank_accept accept = (case accept of None \<Rightarrow> True | Some value \<Rightarrow> trim value = [])"

definition negotiate_python :: "(string \<Rightarrow> f32 option) \<Rightarrow> string option \<Rightarrow> PythonRepresentation option" where
  "negotiate_python parse_f32 accept =
     (if blank_accept accept then Some Html
      else
        let (html, json) = fold python_range (map (media_range parse_f32) (split_on CHR '','' (the accept))) (None, None)
        in case (acceptable html, acceptable json) of
             (None, None) \<Rightarrow> None
           | (Some _, None) \<Rightarrow> Some Html
           | (None, Some _) \<Rightarrow> Some Json
           | (Some html, Some json) \<Rightarrow> if outranks json html then Some Json else Some Html)"

definition npm_range :: "string \<times> f32 \<Rightarrow> offered \<times> offered \<Rightarrow> offered \<times> offered" where
  "npm_range = (\<lambda>(media_type, quality) (abbreviated, full).
     if media_type = ''application/vnd.npm.install-v1+json'' then (offer 2 quality abbreviated, full)
     else if media_type = ''application/json'' then (abbreviated, offer 2 quality full)
     else if media_type = ''application/*'' then (offer 1 quality abbreviated, offer 1 quality full)
     else if media_type = ''*/*'' then (offer 0 quality abbreviated, offer 0 quality full)
     else (abbreviated, full))"

definition negotiate_npm :: "(string \<Rightarrow> f32 option) \<Rightarrow> string option \<Rightarrow> bool option" where
  "negotiate_npm parse_f32 accept =
     (if blank_accept accept then Some False
      else
        let (abbreviated, full) = fold npm_range (map (media_range parse_f32) (split_on CHR '','' (the accept))) (None, None)
        in case (acceptable abbreviated, acceptable full) of
             (None, None) \<Rightarrow> None
           | (Some _, None) \<Rightarrow> Some True
           | (None, Some _) \<Rightarrow> Some False
           | (Some abbreviated, Some full) \<Rightarrow> Some (outranks abbreviated full))"

section \<open>Transformations\<close>

datatype Transform =
    No_transform
  | PythonHtml (html_prefix: string) (html_project_page: bool)
  | PythonJson (json_prefix: string) (json_project_page: bool)
  | NpmMetadata (npm_prefix: string) (npm_abbreviated: bool)

definition trim_matches :: "char \<Rightarrow> string \<Rightarrow> string" where
  "trim_matches x s = rev (dropWhile ((=) x) (rev (dropWhile ((=) x) s)))"

definition python_simple :: "(string \<Rightarrow> f32 option) \<Rightarrow> string \<Rightarrow> string \<Rightarrow> string option \<Rightarrow> Transform option" where
  "python_simple parse_f32 route_prefix path accept =
     (let is_project_page = (trim_matches CHR ''/'' path \<noteq> [])
      in case negotiate_python parse_f32 accept of
           None \<Rightarrow> None
         | Some Html \<Rightarrow> Some (PythonHtml route_prefix is_project_page)
         | Some Json \<Rightarrow> Some (PythonJson route_prefix is_project_page))"

definition npm_metadata :: "(string \<Rightarrow> f32 option) \<Rightarrow> string \<Rightarrow> string option \<Rightarrow> Transform option" where
  "npm_metadata parse_f32 route_prefix accept =
     map_option (\<lambda>abbreviated. NpmMetadata route_prefix abbreviated) (negotiate_npm parse_f32 accept)"

fun upstream_accept :: "Transform \<Rightarrow> string option" where
  "upstream_accept (PythonHtml _ _) = Some ''application/vnd.pypi.simple.v1+html''"
| "upstream_accept (PythonJson _ _) = Some ''application/vnd.pypi.simple.v1+json''"
| "upstream_accept (NpmMetadata _ True) = Some ''application/vnd.npm.install-v1+json''"
| "upstream_accept (NpmMetadata _ False) = Some ''application/json''"
| "upstream_accept No_transform = None"

fun cache_variant :: "Transform \<Rightarrow> string" where
  "cache_variant (PythonHtml _ _) = ''html''"
| "cache_variant (PythonJson _ _) = ''json''"
| "cache_variant (NpmMetadata _ True) = ''install-v1''"
| "cache_variant (NpmMetadata _ False) = ''full''"
| "cache_variant No_transform = ''''"

section \<open>The choice is one the client wants\<close>

text \<open>How specifically a media type names a representation.\<close>

fun python_names :: "PythonRepresentation \<Rightarrow> string \<Rightarrow> nat option" where
  "python_names Json m =
     (if m \<in> {''application/vnd.pypi.simple.v1+json'', ''application/vnd.pypi.simple.latest+json''} then Some 2
      else if m = ''application/*'' then Some 1 else if m = ''*/*'' then Some 0 else None)"
| "python_names Html m =
     (if m \<in> {''application/vnd.pypi.simple.v1+html'', ''application/vnd.pypi.simple.latest+html'', ''text/html''} then Some 2
      else if m = ''application/*'' \<or> m = ''text/*'' then Some 1 else if m = ''*/*'' then Some 0 else None)"

definition npm_names :: "bool \<Rightarrow> string \<Rightarrow> nat option" where
  "npm_names abbreviated m =
     (if m = (if abbreviated then ''application/vnd.npm.install-v1+json'' else ''application/json'') then Some 2
      else if m = ''application/*'' then Some 1 else if m = ''*/*'' then Some 0 else None)"

definition offers :: "(string \<Rightarrow> nat option) \<Rightarrow> (string \<times> f32) list \<Rightarrow> (nat \<times> f32) list" where
  "offers names rs = List.map_filter (\<lambda>(m, q). map_option (\<lambda>s. (s, q)) (names m)) rs"

text \<open>The most specific range that names it, at the best quality among those, has a positive quality.\<close>

definition wanted :: "(nat \<times> f32) list \<Rightarrow> bool" where
  "wanted os \<longleftrightarrow>
     (\<exists>s q. (s, q) \<in> set os \<and> f32_less (Num 0) q \<and> (\<forall>(s', q') \<in> set os. s' \<le> s \<and> (s' = s \<longrightarrow> \<not> f32_less q q')))"

lemma f32_less_trans: "f32_less x y \<Longrightarrow> f32_less y z \<Longrightarrow> f32_less x z"
  by (cases x; cases y; cases z) auto

lemma f32_less_irrefl [simp]: "\<not> f32_less x x"
  by (cases x) auto

lemma offered_best:
  "fold (\<lambda>(s, q). offer s q) os None = Some (s, q)
    \<Longrightarrow> (s, q) \<in> set os \<and> (\<forall>(s', q') \<in> set os. s' \<le> s \<and> (s' = s \<longrightarrow> \<not> f32_less q q'))"
proof (induction os arbitrary: s q rule: rev_induct)
  case (snoc x os)
  obtain s1 q1 where x: "x = (s1, q1)" by (cases x)
  show ?case
  proof (cases "fold (\<lambda>(s, q). offer s q) os None")
    case None
    have "os = []"
    proof (rule ccontr)
      assume "os \<noteq> []"
      then obtain ys y where "os = ys @ [y]" by (metis rev_exhaust)
      then show False using None by (cases y) (auto simp: offer_def split: option.splits if_splits prod.splits)
    qed
    with snoc.prems show ?thesis by (auto simp: x offer_def)
  next
    case (Some best)
    obtain s0 q0 where b: "best = (s0, q0)" by (cases best)
    note IH = snoc.IH [OF Some [unfolded b]]
    have step: "offer s1 q1 (Some (s0, q0)) = Some (s, q)" using snoc.prems Some x b by simp
    show ?thesis
    proof (cases "s0 < s1 \<or> (s1 = s0 \<and> f32_less q0 q1)")
      case True
      then have "s = s1" "q = q1" using step by (auto simp: offer_def)
      then show ?thesis using True IH by (auto simp: x dest: f32_less_trans)
    next
      case False
      then have "s = s0" "q = q0" using step by (auto simp: offer_def)
      then show ?thesis using False IH by (auto simp: x not_less)
    qed
  qed
qed simp

lemma acceptable_wanted:
  assumes "acceptable (fold (\<lambda>(s, q). offer s q) os None) = Some y"
  shows "wanted os"
proof -
  from assms obtain s q where "fold (\<lambda>(s, q). offer s q) os None = Some (s, q)" and "f32_less (Num 0) q"
    by (auto simp: acceptable_def split: option.splits if_splits)
  with offered_best show ?thesis unfolding wanted_def by blast
qed

lemma python_fold:
  "fold python_range rs (html, json) =
     (fold (\<lambda>(s, q). offer s q) (offers (python_names Html) rs) html,
      fold (\<lambda>(s, q). offer s q) (offers (python_names Json) rs) json)"
  by (induction rs arbitrary: html json) (auto simp: offers_def List.map_filter_simps python_range_def)

lemma npm_fold:
  "fold npm_range rs (abbreviated, full) =
     (fold (\<lambda>(s, q). offer s q) (offers (npm_names True) rs) abbreviated,
      fold (\<lambda>(s, q). offer s q) (offers (npm_names False) rs) full)"
  by (induction rs arbitrary: abbreviated full) (auto simp: offers_def List.map_filter_simps npm_range_def npm_names_def)

text \<open>
  Negotiation never serves what the client refused: for a header that is not blank, the
  representation chosen is named by some media range, and among the most specific ranges
  naming it the best quality is positive. This holds for every way of parsing qualities,
  and also for a quality that is not a number.
\<close>

theorem negotiation_honours_refusal:
  assumes "\<not> blank_accept accept"
  shows "(negotiate_python parse_f32 accept = Some rep
      \<longrightarrow> wanted (offers (python_names rep) (map (media_range parse_f32) (split_on CHR '','' (the accept)))))
    \<and> (negotiate_npm parse_f32 accept = Some abbreviated
      \<longrightarrow> wanted (offers (npm_names abbreviated) (map (media_range parse_f32) (split_on CHR '','' (the accept)))))"
  using assms
  by (auto simp: negotiate_python_def negotiate_npm_def python_fold npm_fold split: option.splits if_splits
      dest: acceptable_wanted)

definition demo_parse_f32 :: "string \<Rightarrow> f32 option" where
  "demo_parse_f32 s = (if s = ''0'' then Some (Num 0) else Some (Num (1 / 2)))"

theorem negotiation_honours_refusal_witness:
  "wanted (offers (npm_names False) (map (media_range demo_parse_f32)
     (split_on CHR '','' ''application/json,*/*;q=0'')))"
proof -
  have "negotiate_npm demo_parse_f32 (Some ''application/json,*/*;q=0'') = Some False"
    by (simp add: negotiate_npm_def blank_accept_def trim_def is_space_def media_range_def List.map_filter_simps
        quality_field_def eq_ignore_ascii_case_def to_ascii_lowercase_def is_ascii_uppercase_def demo_parse_f32_def
        f32_clamp_def npm_range_def offer_def acceptable_def outranks_def less_eq_char_def Let_def)
  then show ?thesis
    using negotiation_honours_refusal [of "Some ''application/json,*/*;q=0''" demo_parse_f32 Html False]
    by (simp add: blank_accept_def trim_def is_space_def)
qed

end
