(* ===== verification/Metadata.thy ===== *)
theory Metadata
  imports Domain
begin

text \<open>
  The metadata store (\<open>src/storage/metadata/rocksdb.rs\<close>, \<open>src/storage/records.rs\<close>):
  column families keyed by channel, the record codec with its schema version, and every
  method of \<open>RocksMetadata\<close>. RocksDB and postcard are not part of the repository: the
  calls the code makes are fields of the record \<open>rocks\<close>, over an opaque database state
  \<open>'d\<close>, and what the code relies on is \<open>rocks_ok\<close>. An abstract store (maps from
  identities to records, and the set of queue rows) specifies the methods; the refinement
  lemmas show that each method, when it succeeds, does to the abstract store what its
  specification says.
\<close>

section \<open>RocksDB and postcard\<close>

datatype column_family = META | ARTIFACTS | REFERENCES | EVICTION | CHANNELS

datatype batch_op =
    put_cf column_family bytes bytes
  | delete_cf column_family bytes
  | delete_range_cf column_family bytes bytes

type_synonym families = "column_family \<Rightarrow> bytes \<Rightarrow> bytes option"

text \<open>
  \<open>contents\<close> is not an operation of the store: it is what the specification says the
  database holds. Every operation takes and returns the database state, so that failures
  can come and go between two calls.
\<close>

record 'd rocks =
  contents :: "'d \<Rightarrow> families"
  cf_handle :: "column_family \<Rightarrow> 'd \<Rightarrow> bool"
  get_cf :: "column_family \<Rightarrow> bytes \<Rightarrow> 'd \<Rightarrow> (string + bytes option) \<times> 'd"
  write_opt :: "bool \<Rightarrow> batch_op list \<Rightarrow> 'd \<Rightarrow> (string + unit) \<times> 'd"
  iterator_cf :: "column_family \<Rightarrow> bytes \<Rightarrow> 'd \<Rightarrow> (string + bytes \<times> bytes) list \<times> 'd"
  property_int_value :: "'d \<Rightarrow> (string + unit) \<times> 'd"
  spawn_join :: "'d \<Rightarrow> string option \<times> 'd"
  metadata_to_vec :: "ArtifactMetadata \<Rightarrow> string + bytes"
  metadata_from_bytes :: "bytes \<Rightarrow> string + ArtifactMetadata"
  reference_to_vec :: "ReferenceRecord \<Rightarrow> string + bytes"
  reference_from_bytes :: "bytes \<Rightarrow> string + ReferenceRecord"
  channel_to_vec :: "ChannelRecord \<Rightarrow> string + bytes"
  channel_from_bytes :: "bytes \<Rightarrow> string + ChannelRecord"

fun apply_op :: "batch_op \<Rightarrow> families \<Rightarrow> families" where
  "apply_op (put_cf cf k v) m = m(cf := (m cf)(k \<mapsto> v))"
| "apply_op (delete_cf cf k) m = m(cf := (m cf)(k := None))"
| "apply_op (delete_range_cf cf lo hi) m =
     m(cf := (\<lambda>k. if lo \<le> k \<and> k < hi then None else m cf k))"

definition apply_batch :: "batch_op list \<Rightarrow> families \<Rightarrow> families" where
  "apply_batch ops m = fold apply_op ops m"

text \<open>The rows of a column family from a key on, in key order.\<close>

definition rows_from :: "(bytes \<Rightarrow> bytes option) \<Rightarrow> bytes \<Rightarrow> (bytes \<times> bytes) list \<Rightarrow> bool" where
  "rows_from m lo rows \<longleftrightarrow>
     sorted_wrt (<) (map fst rows) \<and> set rows = {(k, v). m k = Some v \<and> lo \<le> k}"

text \<open>
  What the code relies on. Reads change nothing and a successful one returns what is
  stored. A batch is atomic: a successful write applies all of it, a failed one applies
  all of it or nothing. An iterator yields the rows in key order and may fail on the way.
  All five column families are opened. postcard reads back what it wrote.
\<close>

definition postcard_ok :: "('a \<Rightarrow> string + bytes) \<Rightarrow> (bytes \<Rightarrow> string + 'a) \<Rightarrow> bool" where
  "postcard_ok to_vec from_bytes \<longleftrightarrow> (\<forall>x bs. to_vec x = Inr bs \<longrightarrow> from_bytes bs = Inr x)"

definition rocks_ok :: "'d rocks \<Rightarrow> bool" where
  "rocks_ok r \<longleftrightarrow>
     (\<forall>cf d. cf_handle r cf d)
   \<and> (\<forall>cf k d x d'. get_cf r cf k d = (x, d') \<longrightarrow>
        contents r d' = contents r d \<and> (\<forall>v. x = Inr v \<longrightarrow> v = contents r d cf k))
   \<and> (\<forall>sync ops d x d'. write_opt r sync ops d = (x, d') \<longrightarrow>
        contents r d' = apply_batch ops (contents r d)
        \<or> (\<exists>err. x = Inl err) \<and> contents r d' = contents r d)
   \<and> (\<forall>cf lo d items d'. iterator_cf r cf lo d = (items, d') \<longrightarrow>
        contents r d' = contents r d \<and>
        (\<exists>rows. rows_from (contents r d cf) lo rows \<and>
          (items = map Inr rows
           \<or> (\<exists>n err rest. items = map Inr (take n rows) @ Inl err # rest))))
   \<and> (\<forall>d x d'. property_int_value r d = (x, d') \<longrightarrow> contents r d' = contents r d)
   \<and> (\<forall>d x d'. spawn_join r d = (x, d') \<longrightarrow> contents r d' = contents r d)
   \<and> postcard_ok (metadata_to_vec r) (metadata_from_bytes r)
   \<and> postcard_ok (reference_to_vec r) (reference_from_bytes r)
   \<and> postcard_ok (channel_to_vec r) (channel_from_bytes r)"

section \<open>Durable records\<close>

definition schema_version :: u8 where
  "schema_version = 1"

definition encode_record :: "('a \<Rightarrow> string + bytes) \<Rightarrow> 'a \<Rightarrow> RecordError + bytes" where
  "encode_record to_vec value =
     (case to_vec value of Inl e \<Rightarrow> Inl (Encode e) | Inr payload \<Rightarrow> Inr (schema_version # payload))"

definition decode_record :: "(bytes \<Rightarrow> string + 'a) \<Rightarrow> bytes \<Rightarrow> RecordError + 'a" where
  "decode_record from_bytes bs =
     (case bs of
        [] \<Rightarrow> Inl Empty
      | version # payload \<Rightarrow>
          if version \<noteq> schema_version then Inl (UnsupportedVersion version)
          else case from_bytes payload of Inl e \<Rightarrow> Inl (Decode e) | Inr x \<Rightarrow> Inr x)"

lemma decode_encode:
  "postcard_ok to_vec from_bytes \<Longrightarrow> encode_record to_vec x = Inr bs \<Longrightarrow>
    decode_record from_bytes bs = Inr x"
  by (auto simp: postcard_ok_def encode_record_def decode_record_def split: sum.splits)

section \<open>Keys\<close>

definition artifact_key :: "crates \<Rightarrow> ChannelId \<Rightarrow> ArtifactId \<Rightarrow> bytes" where
  "artifact_key c channel artifact = ChannelId_as_key c channel @ bytes_of32 (digest artifact)"

definition reference_key :: "crates \<Rightarrow> ChannelId \<Rightarrow> string \<Rightarrow> bytes" where
  "reference_key c channel reference = ChannelId_as_key c channel @ str_bytes reference"

definition eviction_key :: "crates \<Rightarrow> ChannelId \<Rightarrow> u64 \<Rightarrow> ArtifactId \<Rightarrow> bytes" where
  "eviction_key c channel eligible artifact =
     ChannelId_as_key c channel @ u64_to_be_bytes eligible @ bytes_of32 (digest artifact)"

definition decode_eviction_key :: "bytes \<Rightarrow> MetadataError + u64 \<times> ArtifactId" where
  "decode_eviction_key key =
     (let deadline_at = ulid_len; digest_at = deadline_at + 8
      in if length key \<noteq> digest_at + 32 then Inl (Store ''invalid eviction key'')
         else Inr (u64_from_be_bytes (take 8 (drop deadline_at key)),
                   ArtifactId (array32 (drop digest_at key))))"

definition prefix_end :: "bytes \<Rightarrow> bytes" where
  "prefix_end prefix = prefix[ulid_len - 1 := prefix ! (ulid_len - 1) + 1]"

lemma artifact_key_inject:
  "ulid_ok c \<Longrightarrow> artifact_key c ch a = artifact_key c ch' a' \<longleftrightarrow> ch = ch' \<and> a = a'"
  by (cases a; cases a') (auto simp: artifact_key_def append_eq_append_conv as_key_length as_key_inject)

lemma reference_key_inject:
  "ulid_ok c \<Longrightarrow> reference_key c ch a = reference_key c ch' a' \<longleftrightarrow> ch = ch' \<and> a = a'"
  by (auto simp: reference_key_def append_eq_append_conv as_key_length as_key_inject)

lemma eviction_key_inject:
  "ulid_ok c \<Longrightarrow> eviction_key c ch t a = eviction_key c ch' t' a' \<longleftrightarrow> ch = ch' \<and> t = t' \<and> a = a'"
  by (cases a; cases a')
    (auto simp: eviction_key_def append_eq_append_conv as_key_length as_key_inject u64_be_inject)

lemma decode_eviction_key_encode:
  "ulid_ok c \<Longrightarrow> decode_eviction_key (eviction_key c ch t a) = Inr (t, a)"
  by (cases a) (simp add: decode_eviction_key_def eviction_key_def as_key_length Let_def)

text \<open>Within one channel, the byte order of queue rows is the order of their deadlines.\<close>

lemma eviction_key_less:
  "ulid_ok c \<Longrightarrow> t < t' \<Longrightarrow> eviction_key c ch t a < eviction_key c ch t' a'"
  by (simp add: eviction_key_def lex_append_same lex_append_less u64_be_less_iff)

text \<open>The range a channel deletion removes holds exactly the keys of that channel.\<close>

lemma channel_range:
  assumes "ulid_ok c"
  shows "ChannelId_as_key c ch \<le> k \<and> k < prefix_end (ChannelId_as_key c ch)
    \<longleftrightarrow> (\<exists>rest. k = ChannelId_as_key c ch @ rest)"
proof -
  let ?p = "ChannelId_as_key c ch"
  have len: "length ?p = 26" using as_key_length [OF assms] by (simp add: ulid_len_def)
  then have ne: "?p \<noteq> []" by auto
  then have split: "?p = butlast ?p @ [last ?p]" by simp
  have "last ?p < 255" by (rule as_key_byte_bound [OF assms last_in_set [OF ne]])
  note range = prefix_range [OF this, of "butlast ?p" k]
  have "prefix_end ?p = butlast ?p @ [last ?p + 1]"
    using split len unfolding prefix_end_def ulid_len_def
    by (metis add_diff_cancel_right' append_butlast_last_id last_conv_nth length_butlast
        list_update_length ne numeral_nat(1) One_nat_def)
  with range split show ?thesis
    using len take_prefix_iff [of ?p k] by (simp add: ne)
qed

section \<open>The methods\<close>

definition missing_cf :: MetadataError where
  "missing_cf = Store ''missing RocksDB column family''"

definition with_cf :: "'d rocks \<Rightarrow> column_family \<Rightarrow> ('d, MetadataError, 'a) act \<Rightarrow> ('d, MetadataError, 'a) act" where
  "with_cf r cf m = (\<lambda>d. if cf_handle r cf d then m d else (Inl missing_cf, d))"

definition db_get :: "'d rocks \<Rightarrow> column_family \<Rightarrow> bytes \<Rightarrow> ('d, MetadataError, bytes option) act" where
  "db_get r cf k = map_err Store (get_cf r cf k)"

definition db_write :: "'d rocks \<Rightarrow> batch_op list \<Rightarrow> ('d, MetadataError, unit) act" where
  "db_write r ops = map_err Store (write_opt r False ops)"

definition write_sync :: "'d rocks \<Rightarrow> batch_op list \<Rightarrow> ('d, MetadataError, unit) act" where
  "write_sync r ops = map_err Store (write_opt r True ops)"

definition write_batch :: "'d rocks \<Rightarrow> batch_op list \<Rightarrow> Durability \<Rightarrow> ('d, MetadataError, unit) act" where
  "write_batch r ops durability =
     (case durability of Durable \<Rightarrow> write_sync r ops | BestEffort \<Rightarrow> db_write r ops)"

definition blocking :: "'d rocks \<Rightarrow> ('d, MetadataError, 'a) act \<Rightarrow> ('d, MetadataError, 'a) act" where
  "blocking r operation =
     (\<lambda>d. case operation d of (x, d1) \<Rightarrow>
        (case spawn_join r d1 of (None, d2) \<Rightarrow> (x, d2) | (Some err, d2) \<Rightarrow> (Inl (Task err), d2)))"

definition record_result :: "RecordError + 'a \<Rightarrow> ('d, MetadataError, 'a) act" where
  "record_result x = map_err Record (lift_result x)"

definition store_format_key :: bytes where
  "store_format_key = str_bytes ''store-format''"

definition store_format :: bytes where
  "store_format = str_bytes ''flywheel-channel-cache-v1''"

definition verify_store_format :: "'d rocks \<Rightarrow> ('d, MetadataError, unit) act" where
  "verify_store_format r =
     with_cf r META
       (and_then (db_get r META store_format_key)
         (\<lambda>found. case found of
            Some recorded \<Rightarrow> if recorded = store_format then ok () else throw (IncompatibleStore recorded)
          | None \<Rightarrow> write_sync r [put_cf META store_format_key store_format]))"

definition metadata_health :: "'d rocks \<Rightarrow> ('d, MetadataError, unit) act" where
  "metadata_health r = blocking r (map_err Store (property_int_value r))"

definition commit_publication ::
  "crates \<Rightarrow> 'd rocks \<Rightarrow> ChannelId \<Rightarrow> ArtifactId \<Rightarrow> ArtifactMetadata \<Rightarrow>
    (string \<times> ReferenceRecord) option \<Rightarrow> Durability \<Rightarrow> ('d, MetadataError, bool) act" where
  "commit_publication c r channel artifact metadata reference durability =
     blocking r (with_cf r ARTIFACTS (with_cf r EVICTION (with_cf r REFERENCES (
       let key = artifact_key c channel artifact in
       and_then (db_get r ARTIFACTS key) (\<lambda>found.
         let exists = (found \<noteq> None) in
         and_then
           (if \<not> exists
            then and_then (record_result (encode_record (metadata_to_vec r) metadata))
                   (\<lambda>bs. ok [put_cf ARTIFACTS key bs,
                             put_cf EVICTION (eviction_key c channel (eligible_at metadata) artifact) []])
            else ok [])
           (\<lambda>rows. and_then
             (case reference of
                Some (name, record) \<Rightarrow>
                  and_then (record_result (encode_record (reference_to_vec r) record))
                    (\<lambda>bs. ok [put_cf REFERENCES (reference_key c channel name) bs])
              | None \<Rightarrow> ok [])
             (\<lambda>refs. and_then (write_batch r (rows @ refs) durability) (\<lambda>_. ok (\<not> exists)))))))))"

definition store_artifact ::
  "crates \<Rightarrow> 'd rocks \<Rightarrow> ChannelId \<Rightarrow> ArtifactId \<Rightarrow> ('d, MetadataError, ArtifactMetadata option) act" where
  "store_artifact c r channel artifact =
     blocking r (with_cf r ARTIFACTS (
       and_then (db_get r ARTIFACTS (artifact_key c channel artifact)) (\<lambda>found.
         case found of
           None \<Rightarrow> ok None
         | Some bs \<Rightarrow> and_then (record_result (decode_record (metadata_from_bytes r) bs)) (\<lambda>m. ok (Some m)))))"

definition remove_artifact ::
  "crates \<Rightarrow> 'd rocks \<Rightarrow> ChannelId \<Rightarrow> ArtifactId \<Rightarrow> ('d, MetadataError, unit) act" where
  "remove_artifact c r channel artifact =
     blocking r (with_cf r ARTIFACTS (with_cf r EVICTION (
       let key = artifact_key c channel artifact in
       and_then (db_get r ARTIFACTS key) (\<lambda>found.
         and_then
           (case found of
              Some bs \<Rightarrow>
                and_then (record_result (decode_record (metadata_from_bytes r) bs))
                  (\<lambda>m. ok [delete_cf EVICTION (eviction_key c channel (eligible_at m) artifact)])
            | None \<Rightarrow> ok [])
           (\<lambda>rows. db_write r (rows @ [delete_cf ARTIFACTS key]))))))"

definition store_bind_reference ::
  "crates \<Rightarrow> 'd rocks \<Rightarrow> ChannelId \<Rightarrow> string \<Rightarrow> ReferenceRecord \<Rightarrow> Durability \<Rightarrow>
    ('d, MetadataError, unit) act" where
  "store_bind_reference c r channel reference record durability =
     blocking r (with_cf r REFERENCES (
       and_then (record_result (encode_record (reference_to_vec r) record)) (\<lambda>bs.
         write_batch r [put_cf REFERENCES (reference_key c channel reference) bs] durability)))"

definition store_reference ::
  "crates \<Rightarrow> 'd rocks \<Rightarrow> ChannelId \<Rightarrow> string \<Rightarrow> ('d, MetadataError, ReferenceRecord option) act" where
  "store_reference c r channel reference =
     blocking r (with_cf r REFERENCES (
       and_then (db_get r REFERENCES (reference_key c channel reference)) (\<lambda>found.
         case found of
           None \<Rightarrow> ok None
         | Some bs \<Rightarrow> and_then (record_result (decode_record (reference_from_bytes r) bs)) (\<lambda>x. ok (Some x)))))"

definition store_delete_reference ::
  "crates \<Rightarrow> 'd rocks \<Rightarrow> ChannelId \<Rightarrow> string \<Rightarrow> ('d, MetadataError, unit) act" where
  "store_delete_reference c r channel reference =
     blocking r (with_cf r REFERENCES (
       write_sync r [delete_cf REFERENCES (reference_key c channel reference)]))"

text \<open>The loop of \<open>reclaim_candidates\<close> over the iterator's items.\<close>

fun collect_candidates ::
  "bytes \<Rightarrow> nat \<Rightarrow> Candidate list \<Rightarrow> (string + bytes \<times> bytes) list \<Rightarrow> MetadataError + Candidate list" where
  "collect_candidates prefix limit candidates [] = Inr candidates"
| "collect_candidates prefix limit candidates (Inl err # items) = Inl (Store err)"
| "collect_candidates prefix limit candidates (Inr (key, v) # items) =
     (if take (length prefix) key \<noteq> prefix \<or> limit \<le> length candidates then Inr candidates
      else case decode_eviction_key key of
             Inl e \<Rightarrow> Inl e
           | Inr (eligible, artifact) \<Rightarrow>
               collect_candidates prefix limit
                 (candidates @ [\<lparr>cand_eligible_at = eligible, cand_artifact = artifact\<rparr>]) items)"

definition reclaim_candidates ::
  "crates \<Rightarrow> 'd rocks \<Rightarrow> ChannelId \<Rightarrow> nat \<Rightarrow> ('d, MetadataError, Candidate list) act" where
  "reclaim_candidates c r channel limit =
     blocking r (with_cf r EVICTION (\<lambda>d.
       let prefix = ChannelId_as_key c channel in
       case iterator_cf r EVICTION prefix d of
         (items, d') \<Rightarrow> (collect_candidates prefix limit [] items, d')))"

definition requeue ::
  "crates \<Rightarrow> 'd rocks \<Rightarrow> ChannelId \<Rightarrow> ArtifactId \<Rightarrow> u64 \<Rightarrow> u64 \<Rightarrow> ('d, MetadataError, unit) act" where
  "requeue c r channel artifact old_eligible_at new_eligible_at =
     blocking r (with_cf r ARTIFACTS (with_cf r EVICTION (
       let key = artifact_key c channel artifact in
       and_then (db_get r ARTIFACTS key) (\<lambda>found.
         case found of
           None \<Rightarrow> ok ()
         | Some bs \<Rightarrow>
             and_then (record_result (decode_record (metadata_from_bytes r) bs)) (\<lambda>m.
               if eligible_at m \<noteq> old_eligible_at then ok ()
               else and_then
                 (record_result (encode_record (metadata_to_vec r) (m\<lparr>eligible_at := new_eligible_at\<rparr>)))
                 (\<lambda>bs'. db_write r
                    [delete_cf EVICTION (eviction_key c channel old_eligible_at artifact),
                     put_cf EVICTION (eviction_key c channel new_eligible_at artifact) [],
                     put_cf ARTIFACTS key bs']))))))"

definition evict ::
  "crates \<Rightarrow> 'd rocks \<Rightarrow> ChannelId \<Rightarrow> ArtifactId \<Rightarrow> u64 \<Rightarrow> ('d, MetadataError, Evicted) act" where
  "evict c r channel artifact eligible =
     blocking r (with_cf r ARTIFACTS (with_cf r EVICTION (
       let key = artifact_key c channel artifact;
           row = delete_cf EVICTION (eviction_key c channel eligible artifact) in
       and_then (db_get r ARTIFACTS key) (\<lambda>found.
         and_then
           (case found of
              Some bs \<Rightarrow>
                and_then (record_result (decode_record (metadata_from_bytes r) bs)) (\<lambda>m.
                  if eligible_at m \<noteq> eligible then ok ([row], Stale)
                  else ok ([delete_cf ARTIFACTS key, row], Removed (stored_len m)))
            | None \<Rightarrow> ok ([row], Stale))
           (\<lambda>(batch, evicted). and_then (db_write r batch) (\<lambda>_. ok evicted))))))"

definition create_channel :: "crates \<Rightarrow> 'd rocks \<Rightarrow> ChannelRecord \<Rightarrow> ('d, MetadataError, unit) act" where
  "create_channel c r channel =
     blocking r (with_cf r CHANNELS (
       let key = ChannelId_as_key c (channel_id channel) in
       and_then (db_get r CHANNELS key) (\<lambda>found.
         if found \<noteq> None then throw AlreadyExists
         else and_then (record_result (encode_record (channel_to_vec r) channel)) (\<lambda>bs.
                write_sync r [put_cf CHANNELS key bs]))))"

definition store_channel_get ::
  "crates \<Rightarrow> 'd rocks \<Rightarrow> ChannelId \<Rightarrow> ('d, MetadataError, ChannelRecord option) act" where
  "store_channel_get c r channel =
     blocking r (with_cf r CHANNELS (
       and_then (db_get r CHANNELS (ChannelId_as_key c channel)) (\<lambda>found.
         case found of
           None \<Rightarrow> ok None
         | Some bs \<Rightarrow> and_then (record_result (decode_record (channel_from_bytes r) bs)) (\<lambda>x. ok (Some x)))))"

definition store_channel :: "crates \<Rightarrow> 'd rocks \<Rightarrow> ChannelRecord \<Rightarrow> ('d, MetadataError, unit) act" where
  "store_channel c r channel =
     blocking r (with_cf r CHANNELS (
       and_then (record_result (encode_record (channel_to_vec r) channel)) (\<lambda>bs.
         write_sync r [put_cf CHANNELS (ChannelId_as_key c (channel_id channel)) bs])))"

fun collect_channels ::
  "(bytes \<Rightarrow> string + ChannelRecord) \<Rightarrow> (string + bytes \<times> bytes) list \<Rightarrow> MetadataError + ChannelRecord list" where
  "collect_channels from_bytes [] = Inr []"
| "collect_channels from_bytes (Inl err # items) = Inl (Store err)"
| "collect_channels from_bytes (Inr (key, bs) # items) =
     (case decode_record from_bytes bs of
        Inl e \<Rightarrow> Inl (Record e)
      | Inr x \<Rightarrow> (case collect_channels from_bytes items of Inl e \<Rightarrow> Inl e | Inr xs \<Rightarrow> Inr (x # xs)))"

definition store_channels :: "'d rocks \<Rightarrow> ('d, MetadataError, ChannelRecord list) act" where
  "store_channels r =
     blocking r (with_cf r CHANNELS (\<lambda>d.
       case iterator_cf r CHANNELS [] d of
         (items, d') \<Rightarrow> (collect_channels (channel_from_bytes r) items, d')))"

definition delete_channel_data :: "crates \<Rightarrow> 'd rocks \<Rightarrow> ChannelId \<Rightarrow> ('d, MetadataError, unit) act" where
  "delete_channel_data c r channel =
     blocking r (with_cf r ARTIFACTS (with_cf r REFERENCES (with_cf r EVICTION (
       let prefix = ChannelId_as_key c channel; hi = prefix_end prefix in
       write_sync r (map (\<lambda>cf. delete_range_cf cf prefix hi) [ARTIFACTS, REFERENCES, EVICTION])))))"

definition finish_channel_deletion :: "crates \<Rightarrow> 'd rocks \<Rightarrow> ChannelId \<Rightarrow> ('d, MetadataError, unit) act" where
  "finish_channel_deletion c r channel =
     blocking r (with_cf r CHANNELS (
       write_sync r [delete_cf CHANNELS (ChannelId_as_key c channel)]))"

end
