(* ===== verification/Metadata_Refinement.thy ===== *)
theory Metadata_Refinement
  imports Metadata
begin

text \<open>
  The abstract metadata store and the proof that every method of \<open>RocksMetadata\<close>
  implements its abstract operation atomically: a call that succeeds has exactly the
  specified effect, a call that fails has had that effect or none. The locale
  \<open>eviction_index\<close> is the contract the cache service relies on: the eviction queue
  holds one row per artifact, at the deadline the artifact's record carries.
\<close>

section \<open>The abstract store\<close>

record meta_store =
  artifacts :: "ChannelId \<times> ArtifactId \<Rightarrow> ArtifactMetadata option"
  references :: "ChannelId \<times> string \<Rightarrow> ReferenceRecord option"
  queue :: "(ChannelId \<times> u64 \<times> ArtifactId) set"
  channels :: "ChannelId \<Rightarrow> ChannelRecord option"

definition decoded :: "(bytes \<Rightarrow> string + 'a) \<Rightarrow> bytes option \<Rightarrow> 'a option" where
  "decoded from_bytes v =
     (case v of
        None \<Rightarrow> None
      | Some bs \<Rightarrow> (case decode_record from_bytes bs of Inl _ \<Rightarrow> None | Inr x \<Rightarrow> Some x))"

definition abs_artifacts where
  "abs_artifacts c r m = (\<lambda>(ch, a). decoded (metadata_from_bytes r) (m (artifact_key c ch a)))"

definition abs_references where
  "abs_references c r m = (\<lambda>(ch, n). decoded (reference_from_bytes r) (m (reference_key c ch n)))"

definition abs_queue where
  "abs_queue c m = {(ch, t, a). m (eviction_key c ch t a) \<noteq> None}"

definition abs_channels where
  "abs_channels c r m = (\<lambda>ch. decoded (channel_from_bytes r) (m (ChannelId_as_key c ch)))"

definition abs_store :: "crates \<Rightarrow> 'd rocks \<Rightarrow> families \<Rightarrow> meta_store" where
  "abs_store c r m =
     \<lparr>artifacts = abs_artifacts c r (m ARTIFACTS), references = abs_references c r (m REFERENCES),
      queue = abs_queue c (m EVICTION), channels = abs_channels c r (m CHANNELS)\<rparr>"

text \<open>
  A well-formed database: every row of the four column families was written under a key
  of the right form with a value that decodes, and a channel record is stored under its
  own identifier.
\<close>

definition decodes :: "(bytes \<Rightarrow> string + 'a) \<Rightarrow> bytes \<Rightarrow> bool" where
  "decodes from_bytes bs \<longleftrightarrow> (\<exists>x. decode_record from_bytes bs = Inr x)"

definition wf_db :: "crates \<Rightarrow> 'd rocks \<Rightarrow> families \<Rightarrow> bool" where
  "wf_db c r m \<longleftrightarrow>
     (\<forall>k v. m ARTIFACTS k = Some v \<longrightarrow>
        (\<exists>ch a. k = artifact_key c ch a) \<and> decodes (metadata_from_bytes r) v)
   \<and> (\<forall>k v. m REFERENCES k = Some v \<longrightarrow>
        (\<exists>ch n. k = reference_key c ch n) \<and> decodes (reference_from_bytes r) v)
   \<and> (\<forall>k v. m EVICTION k = Some v \<longrightarrow> (\<exists>ch t a. k = eviction_key c ch t a))
   \<and> (\<forall>k v. m CHANNELS k = Some v \<longrightarrow>
        (\<exists>x. decode_record (channel_from_bytes r) v = Inr x \<and> k = ChannelId_as_key c (channel_id x)))"

subsection \<open>Abstract operations\<close>

definition a_commit where
  "a_commit ch a md reference s =
     (let s' = (if artifacts s (ch, a) = None
                then s\<lparr>artifacts := (artifacts s)((ch, a) \<mapsto> md),
                       queue := insert (ch, eligible_at md, a) (queue s)\<rparr>
                else s)
      in case reference of
           None \<Rightarrow> s'
         | Some (n, x) \<Rightarrow> s'\<lparr>references := (references s')((ch, n) \<mapsto> x)\<rparr>)"

definition a_remove where
  "a_remove ch a s =
     s\<lparr>artifacts := (artifacts s)((ch, a) := None),
       queue := (case artifacts s (ch, a) of
                   None \<Rightarrow> queue s | Some md \<Rightarrow> queue s - {(ch, eligible_at md, a)})\<rparr>"

definition a_bind where
  "a_bind ch n x s = s\<lparr>references := (references s)((ch, n) \<mapsto> x)\<rparr>"

definition a_unbind where
  "a_unbind ch n s = s\<lparr>references := (references s)((ch, n) := None)\<rparr>"

definition a_requeue where
  "a_requeue ch a old new s =
     (case artifacts s (ch, a) of
        None \<Rightarrow> s
      | Some md \<Rightarrow>
          if eligible_at md \<noteq> old then s
          else s\<lparr>artifacts := (artifacts s)((ch, a) \<mapsto> md\<lparr>eligible_at := new\<rparr>),
                 queue := insert (ch, new, a) (queue s - {(ch, old, a)})\<rparr>)"

definition a_evicted where
  "a_evicted ch a t s =
     (case artifacts s (ch, a) of
        None \<Rightarrow> Stale
      | Some md \<Rightarrow> if eligible_at md \<noteq> t then Stale else Removed (stored_len md))"

definition a_evict where
  "a_evict ch a t s =
     (if a_evicted ch a t s = Stale then s\<lparr>queue := queue s - {(ch, t, a)}\<rparr>
      else s\<lparr>artifacts := (artifacts s)((ch, a) := None), queue := queue s - {(ch, t, a)}\<rparr>)"

definition a_put_channel where
  "a_put_channel x s = s\<lparr>channels := (channels s)(channel_id x \<mapsto> x)\<rparr>"

definition a_drop_channel where
  "a_drop_channel ch s = s\<lparr>channels := (channels s)(ch := None)\<rparr>"

definition a_delete_data where
  "a_delete_data ch s =
     s\<lparr>artifacts := (\<lambda>(ch', a). if ch' = ch then None else artifacts s (ch', a)),
       references := (\<lambda>(ch', n). if ch' = ch then None else references s (ch', n)),
       queue := {(ch', t, a). (ch', t, a) \<in> queue s \<and> ch' \<noteq> ch}\<rparr>"

section \<open>Rows and the abstract store\<close>

lemma abs_artifacts_upd [simp]:
  "ulid_ok c \<Longrightarrow> abs_artifacts c r (m(artifact_key c ch a := v))
    = (abs_artifacts c r m)((ch, a) := decoded (metadata_from_bytes r) v)"
  by (auto simp: abs_artifacts_def artifact_key_inject fun_eq_iff)

lemma abs_references_upd [simp]:
  "ulid_ok c \<Longrightarrow> abs_references c r (m(reference_key c ch n := v))
    = (abs_references c r m)((ch, n) := decoded (reference_from_bytes r) v)"
  by (auto simp: abs_references_def reference_key_inject fun_eq_iff)

lemma abs_queue_put [simp]:
  "ulid_ok c \<Longrightarrow> abs_queue c (m(eviction_key c ch t a \<mapsto> v)) = insert (ch, t, a) (abs_queue c m)"
  by (auto simp: abs_queue_def eviction_key_inject)

lemma abs_queue_del [simp]:
  "ulid_ok c \<Longrightarrow> abs_queue c (m(eviction_key c ch t a := None)) = abs_queue c m - {(ch, t, a)}"
  by (auto simp: abs_queue_def eviction_key_inject)

lemma abs_channels_upd [simp]:
  "ulid_ok c \<Longrightarrow> abs_channels c r (m(ChannelId_as_key c ch := v))
    = (abs_channels c r m)(ch := decoded (channel_from_bytes r) v)"
  by (auto simp: abs_channels_def as_key_inject fun_eq_iff)

lemma key_in_channel:
  assumes "ulid_ok c"
  shows "(\<exists>rest. ChannelId_as_key c ch' @ k = ChannelId_as_key c ch @ rest) \<longleftrightarrow> ch' = ch"
  using as_key_length [OF assms] as_key_inject [OF assms]
  by (metis append_eq_append_conv)

lemma in_range_artifact:
  "ulid_ok c \<Longrightarrow> ChannelId_as_key c ch \<le> artifact_key c ch' a
      \<and> artifact_key c ch' a < prefix_end (ChannelId_as_key c ch) \<longleftrightarrow> ch' = ch"
  by (simp only: channel_range artifact_key_def key_in_channel)

lemma in_range_reference:
  "ulid_ok c \<Longrightarrow> ChannelId_as_key c ch \<le> reference_key c ch' n
      \<and> reference_key c ch' n < prefix_end (ChannelId_as_key c ch) \<longleftrightarrow> ch' = ch"
  by (simp only: channel_range reference_key_def key_in_channel)

lemma in_range_eviction:
  "ulid_ok c \<Longrightarrow> ChannelId_as_key c ch \<le> eviction_key c ch' t a
      \<and> eviction_key c ch' t a < prefix_end (ChannelId_as_key c ch) \<longleftrightarrow> ch' = ch"
  by (simp only: channel_range eviction_key_def key_in_channel)

lemma abs_store_range:
  assumes "ulid_ok c"
  shows "abs_store c r (apply_batch
      (map (\<lambda>cf. delete_range_cf cf (ChannelId_as_key c ch) (prefix_end (ChannelId_as_key c ch)))
        [ARTIFACTS, REFERENCES, EVICTION]) m)
    = a_delete_data ch (abs_store c r m)"
  using in_range_artifact [OF assms] in_range_reference [OF assms] in_range_eviction [OF assms]
  by (auto simp: abs_store_def a_delete_data_def apply_batch_def abs_artifacts_def abs_references_def
      abs_queue_def fun_eq_iff decoded_def)

lemma decoded_encode [simp]:
  "postcard_ok to_vec from_bytes \<Longrightarrow> encode_record to_vec x = Inr bs \<Longrightarrow>
    decoded from_bytes (Some bs) = Some x"
  by (simp add: decoded_def decode_encode)

lemma decodes_encode [simp]:
  "postcard_ok to_vec from_bytes \<Longrightarrow> encode_record to_vec x = Inr bs \<Longrightarrow> decodes from_bytes bs"
  by (auto simp: decodes_def decode_encode)

lemma decoded_None [simp]: "decoded from_bytes None = None"
  by (simp add: decoded_def)

text \<open>A batch of rows of the right form keeps the database well-formed.\<close>

fun op_ok :: "crates \<Rightarrow> 'd rocks \<Rightarrow> batch_op \<Rightarrow> bool" where
  "op_ok c r (put_cf ARTIFACTS k v) \<longleftrightarrow>
     (\<exists>ch a. k = artifact_key c ch a) \<and> decodes (metadata_from_bytes r) v"
| "op_ok c r (put_cf REFERENCES k v) \<longleftrightarrow>
     (\<exists>ch n. k = reference_key c ch n) \<and> decodes (reference_from_bytes r) v"
| "op_ok c r (put_cf EVICTION k v) \<longleftrightarrow> (\<exists>ch t a. k = eviction_key c ch t a)"
| "op_ok c r (put_cf CHANNELS k v) \<longleftrightarrow>
     (\<exists>x. decode_record (channel_from_bytes r) v = Inr x \<and> k = ChannelId_as_key c (channel_id x))"
| "op_ok c r _ \<longleftrightarrow> True"

lemma wf_apply_op: "op_ok c r op \<Longrightarrow> wf_db c r m \<Longrightarrow> wf_db c r (apply_op op m)"
  by (induction c r op rule: op_ok.induct) (auto simp: wf_db_def)

lemma wf_apply_batch: "list_all (op_ok c r) ops \<Longrightarrow> wf_db c r m \<Longrightarrow> wf_db c r (apply_batch ops m)"
  unfolding apply_batch_def by (induction ops arbitrary: m) (auto intro: wf_apply_op)

section \<open>Atomic implementation\<close>

text \<open>
  \<open>implements_at c r M m f post\<close>: from a database with contents \<open>M\<close>, the method \<open>m\<close>
  keeps well-formedness; if it succeeds, the abstract store has changed by \<open>f\<close> and the
  result satisfies \<open>post\<close>; if it fails, the abstract store has changed by \<open>f\<close> or not at
  all.
\<close>

definition implements_at ::
  "crates \<Rightarrow> 'd rocks \<Rightarrow> families \<Rightarrow> ('d, MetadataError, 'a) act \<Rightarrow>
    (meta_store \<Rightarrow> meta_store) \<Rightarrow> (meta_store \<Rightarrow> 'a \<Rightarrow> bool) \<Rightarrow> bool" where
  "implements_at c r M m f post \<longleftrightarrow>
     (\<forall>d x d'. contents r d = M \<longrightarrow> m d = (x, d') \<longrightarrow>
        wf_db c r (contents r d')
        \<and> (case x of
             Inr y \<Rightarrow> abs_store c r (contents r d') = f (abs_store c r M) \<and> post (abs_store c r M) y
           | Inl e \<Rightarrow> abs_store c r (contents r d') = abs_store c r M
                     \<or> abs_store c r (contents r d') = f (abs_store c r M)))"

definition implements ::
  "crates \<Rightarrow> 'd rocks \<Rightarrow> ('d, MetadataError, 'a) act \<Rightarrow>
    (meta_store \<Rightarrow> meta_store) \<Rightarrow> (meta_store \<Rightarrow> 'a \<Rightarrow> bool) \<Rightarrow> bool" where
  "implements c r m f post \<longleftrightarrow> (\<forall>M. wf_db c r M \<longrightarrow> implements_at c r M m f post)"

named_theorems impl_rules \<open>how actions compose into an implementation\<close>

lemma with_cf_opened: "rocks_ok r \<Longrightarrow> with_cf r cf m = m"
  by (simp add: with_cf_def rocks_ok_def)

lemma rocks_read:
  "rocks_ok r \<Longrightarrow> get_cf r cf k d = (x, d') \<Longrightarrow>
    contents r d' = contents r d \<and> (\<forall>v. x = Inr v \<longrightarrow> v = contents r d cf k)"
  unfolding rocks_ok_def by (drule conjunct2, drule conjunct1) blast

lemma rocks_write:
  "rocks_ok r \<Longrightarrow> write_opt r sync ops d = (x, d') \<Longrightarrow>
    contents r d' = apply_batch ops (contents r d)
      \<or> (\<exists>err. x = Inl err) \<and> contents r d' = contents r d"
  unfolding rocks_ok_def by blast

lemma rocks_join: "rocks_ok r \<Longrightarrow> spawn_join r d = (x, d') \<Longrightarrow> contents r d' = contents r d"
  unfolding rocks_ok_def by blast

lemma rocks_iterate:
  "rocks_ok r \<Longrightarrow> iterator_cf r cf lo d = (items, d') \<Longrightarrow>
    contents r d' = contents r d \<and>
    (\<exists>rows. rows_from (contents r d cf) lo rows \<and>
      (items = map Inr rows \<or> (\<exists>n err rest. items = map Inr (take n rows) @ Inl err # rest)))"
  unfolding rocks_ok_def by blast

lemma rocks_postcard [simp]:
  "rocks_ok r \<Longrightarrow> postcard_ok (metadata_to_vec r) (metadata_from_bytes r)"
  "rocks_ok r \<Longrightarrow> postcard_ok (reference_to_vec r) (reference_from_bytes r)"
  "rocks_ok r \<Longrightarrow> postcard_ok (channel_to_vec r) (channel_from_bytes r)"
  by (simp_all add: rocks_ok_def)

lemma impl_blocking [impl_rules]:
  "rocks_ok r \<Longrightarrow> implements_at c r M m f post \<Longrightarrow> implements_at c r M (blocking r m) f post"
  unfolding implements_at_def
proof (intro allI impI)
  fix d x d'
  assume ok: "rocks_ok r" and M: "contents r d = M" and run: "blocking r m d = (x, d')"
    and impl: "\<forall>d x d'. contents r d = M \<longrightarrow> m d = (x, d') \<longrightarrow>
        wf_db c r (contents r d')
        \<and> (case x of
             Inr y \<Rightarrow> abs_store c r (contents r d') = f (abs_store c r M) \<and> post (abs_store c r M) y
           | Inl e \<Rightarrow> abs_store c r (contents r d') = abs_store c r M
                     \<or> abs_store c r (contents r d') = f (abs_store c r M))"
  obtain y d1 where m: "m d = (y, d1)" by fastforce
  obtain j d2 where j: "spawn_join r d1 = (j, d2)" by fastforce
  from run m j have "d' = d2" and x: "x = (case j of None \<Rightarrow> y | Some err \<Rightarrow> Inl (Task err))"
    by (auto simp: blocking_def split: option.splits)
  with rocks_join [OF ok j] have "contents r d' = contents r d1" by simp
  with impl [rule_format, OF M m] x
  show "wf_db c r (contents r d') \<and> (case x of
      Inr y \<Rightarrow> abs_store c r (contents r d') = f (abs_store c r M) \<and> post (abs_store c r M) y
    | Inl e \<Rightarrow> abs_store c r (contents r d') = abs_store c r M
        \<or> abs_store c r (contents r d') = f (abs_store c r M))"
    by (auto split: option.splits sum.splits)
qed

lemma impl_ok [impl_rules]:
  "wf_db c r M \<Longrightarrow> f (abs_store c r M) = abs_store c r M \<Longrightarrow> post (abs_store c r M) y \<Longrightarrow>
    implements_at c r M (ok y) f post"
  by (simp add: implements_at_def ok_def)

lemma impl_throw [impl_rules]: "wf_db c r M \<Longrightarrow> implements_at c r M (throw e) f post"
  by (simp add: implements_at_def throw_def)

lemma impl_get [impl_rules]:
  assumes "rocks_ok r" and "wf_db c r M" and "implements_at c r M (K (M cf k)) f post"
  shows "implements_at c r M (and_then (db_get r cf k) K) f post"
  unfolding implements_at_def
proof (intro allI impI)
  fix d x d'
  assume M: "contents r d = M" and run: "and_then (db_get r cf k) K d = (x, d')"
  obtain y d1 where get: "get_cf r cf k d = (y, d1)" by fastforce
  from rocks_read [OF assms(1) get] M
  have d1: "contents r d1 = M" and y: "\<And>v. y = Inr v \<Longrightarrow> v = M cf k" by auto
  show "wf_db c r (contents r d') \<and> (case x of
      Inr y \<Rightarrow> abs_store c r (contents r d') = f (abs_store c r M) \<and> post (abs_store c r M) y
    | Inl e \<Rightarrow> abs_store c r (contents r d') = abs_store c r M
        \<or> abs_store c r (contents r d') = f (abs_store c r M))"
  proof (cases y)
    case (Inl e)
    with run get d1 assms(2) show ?thesis
      by (auto simp: and_then_def db_get_def map_err_def)
  next
    case (Inr v)
    with run get y have "K (M cf k) d1 = (x, d')"
      by (auto simp: and_then_def db_get_def map_err_def)
    with assms(3) d1 show ?thesis by (simp add: implements_at_def)
  qed
qed

lemma impl_record [impl_rules]:
  assumes "wf_db c r M" and "\<And>y. res = Inr y \<Longrightarrow> implements_at c r M (K y) f post"
  shows "implements_at c r M (and_then (record_result res) K) f post"
proof (cases res)
  case (Inl e)
  then show ?thesis
    using assms(1) by (simp add: implements_at_def and_then_def record_result_def map_err_def lift_result_def)
next
  case (Inr y)
  then have "and_then (record_result res) K = K y"
    by (simp add: and_then_def record_result_def map_err_def lift_result_def fun_eq_iff)
  with assms(2) [OF Inr] show ?thesis by simp
qed

text \<open>Either of the two write calls, as the last effect of a method.\<close>

definition is_write :: "'d rocks \<Rightarrow> ('d, MetadataError, unit) act \<Rightarrow> batch_op list \<Rightarrow> bool" where
  "is_write r w ops \<longleftrightarrow> w = db_write r ops \<or> w = write_sync r ops"

lemma is_write_simps [simp]:
  "is_write r (db_write r ops) ops" "is_write r (write_sync r ops) ops"
  "is_write r (write_batch r ops durability) ops"
  by (auto simp: is_write_def write_batch_def split: Durability.splits)

lemma is_write_cases:
  assumes "rocks_ok r" and "is_write r w ops" and "w d = (x, d')"
  shows "contents r d' = apply_batch ops (contents r d)
    \<or> (\<exists>err. x = Inl err) \<and> contents r d' = contents r d"
  using assms(2,3) rocks_write [OF assms(1), of True ops d] rocks_write [OF assms(1), of False ops d]
  unfolding is_write_def db_write_def write_sync_def
  by (fastforce elim!: map_err_E split: sum.splits)

lemma impl_write_unit:
  assumes "rocks_ok r" and "is_write r w ops" and "wf_db c r M" and "list_all (op_ok c r) ops"
    and "abs_store c r (apply_batch ops M) = f (abs_store c r M)" and "post (abs_store c r M) ()"
  shows "implements_at c r M w f post"
  unfolding implements_at_def
proof (intro allI impI)
  fix d x d'
  assume "contents r d = M" and "w d = (x, d')"
  with is_write_cases [OF assms(1,2)] wf_apply_batch [OF assms(4,3)] assms(3,5,6)
  show "wf_db c r (contents r d') \<and> (case x of
      Inr y \<Rightarrow> abs_store c r (contents r d') = f (abs_store c r M) \<and> post (abs_store c r M) y
    | Inl e \<Rightarrow> abs_store c r (contents r d') = abs_store c r M
        \<or> abs_store c r (contents r d') = f (abs_store c r M))"
    by (fastforce split: sum.splits)
qed

lemma impl_write:
  assumes "rocks_ok r" and "is_write r w ops" and "wf_db c r M" and "list_all (op_ok c r) ops"
    and "abs_store c r (apply_batch ops M) = f (abs_store c r M)" and "post (abs_store c r M) y"
  shows "implements_at c r M (and_then w (\<lambda>_. ok y)) f post"
proof -
  have "implements_at c r M w f (\<lambda>_ _. True)"
    by (rule impl_write_unit [where ops = ops]) (use assms in simp_all)
  then show ?thesis
    using assms(6) unfolding implements_at_def
    by (fastforce elim!: and_then_E simp: ok_def)
qed

lemmas impl_writes [impl_rules] =
  impl_write_unit [OF _ is_write_simps(1)] impl_write_unit [OF _ is_write_simps(2)]
  impl_write_unit [OF _ is_write_simps(3)]
  impl_write [OF _ is_write_simps(1)] impl_write [OF _ is_write_simps(2)]
  impl_write [OF _ is_write_simps(3)]

section \<open>The methods implement the abstract operations\<close>

lemma abs_store_select [simp]:
  "artifacts (abs_store c r m) (ch, a) = decoded (metadata_from_bytes r) (m ARTIFACTS (artifact_key c ch a))"
  "references (abs_store c r m) (ch, n) = decoded (reference_from_bytes r) (m REFERENCES (reference_key c ch n))"
  "channels (abs_store c r m) ch = decoded (channel_from_bytes r) (m CHANNELS (ChannelId_as_key c ch))"
  by (simp_all add: abs_store_def abs_artifacts_def abs_references_def abs_channels_def)

lemma decoded_Some:
  "decode_record from_bytes bs = Inr x \<Longrightarrow> decoded from_bytes (Some bs) = Some x"
  by (simp add: decoded_def)

lemma implementsI: "(\<And>M. wf_db c r M \<Longrightarrow> implements_at c r M m f post) \<Longrightarrow> implements c r m f post"
  by (simp add: implements_def)

lemma put_op_ok [simp]:
  "rocks_ok r \<Longrightarrow> encode_record (metadata_to_vec r) md = Inr bs \<Longrightarrow>
    op_ok c r (put_cf ARTIFACTS (artifact_key c ch a) bs)"
  "rocks_ok r \<Longrightarrow> encode_record (reference_to_vec r) rr = Inr bs \<Longrightarrow>
    op_ok c r (put_cf REFERENCES (reference_key c ch n) bs)"
  "rocks_ok r \<Longrightarrow> encode_record (channel_to_vec r) x = Inr bs \<Longrightarrow>
    op_ok c r (put_cf CHANNELS (ChannelId_as_key c (channel_id x)) bs)"
  "op_ok c r (put_cf EVICTION (eviction_key c ch t a) v)"
  by (auto intro: decodes_encode [OF rocks_postcard(1)] decodes_encode [OF rocks_postcard(2)]
      dest!: decode_encode [OF rocks_postcard(3), rotated])

lemma delete_op_ok [simp]: "op_ok c r (delete_cf cf k)" "op_ok c r (delete_range_cf cf lo hi)"
  by simp_all

lemmas decoded_encodes [simp] =
  decoded_encode [OF rocks_postcard(1)] decoded_encode [OF rocks_postcard(2)]
  decoded_encode [OF rocks_postcard(3)]

text \<open>The effect of the batches on the abstract store, one operation at a time.\<close>

lemma abs_apply_op [simp]:
  "ulid_ok c \<Longrightarrow> abs_store c r (apply_op (put_cf ARTIFACTS (artifact_key c ch a) v) m)
    = (abs_store c r m)\<lparr>artifacts := (artifacts (abs_store c r m))
        ((ch, a) := decoded (metadata_from_bytes r) (Some v))\<rparr>"
  "ulid_ok c \<Longrightarrow> abs_store c r (apply_op (delete_cf ARTIFACTS (artifact_key c ch a)) m)
    = (abs_store c r m)\<lparr>artifacts := (artifacts (abs_store c r m))((ch, a) := None)\<rparr>"
  "ulid_ok c \<Longrightarrow> abs_store c r (apply_op (put_cf EVICTION (eviction_key c ch t a) v) m)
    = (abs_store c r m)\<lparr>queue := insert (ch, t, a) (queue (abs_store c r m))\<rparr>"
  "ulid_ok c \<Longrightarrow> abs_store c r (apply_op (delete_cf EVICTION (eviction_key c ch t a)) m)
    = (abs_store c r m)\<lparr>queue := queue (abs_store c r m) - {(ch, t, a)}\<rparr>"
  "ulid_ok c \<Longrightarrow> abs_store c r (apply_op (put_cf REFERENCES (reference_key c ch n) v) m)
    = (abs_store c r m)\<lparr>references := (references (abs_store c r m))
        ((ch, n) := decoded (reference_from_bytes r) (Some v))\<rparr>"
  "ulid_ok c \<Longrightarrow> abs_store c r (apply_op (delete_cf REFERENCES (reference_key c ch n)) m)
    = (abs_store c r m)\<lparr>references := (references (abs_store c r m))((ch, n) := None)\<rparr>"
  "ulid_ok c \<Longrightarrow> abs_store c r (apply_op (put_cf CHANNELS (ChannelId_as_key c ch) v) m)
    = (abs_store c r m)\<lparr>channels := (channels (abs_store c r m))
        (ch := decoded (channel_from_bytes r) (Some v))\<rparr>"
  "ulid_ok c \<Longrightarrow> abs_store c r (apply_op (delete_cf CHANNELS (ChannelId_as_key c ch)) m)
    = (abs_store c r m)\<lparr>channels := (channels (abs_store c r m))(ch := None)\<rparr>"
  by (simp_all add: abs_store_def)

lemma abs_apply_batch [simp]:
  "abs_store c r (apply_batch [] m) = abs_store c r m"
  "abs_store c r (apply_batch (op # ops) m) = abs_store c r (apply_batch ops (apply_op op m))"
  by (simp_all add: apply_batch_def)

declare apply_op.simps [simp del] op_ok.simps [simp del]

lemmas method_simps = with_cf_opened and_then_assoc Let_def

lemma wf_artifact_row:
  "wf_db c r M \<Longrightarrow> M ARTIFACTS k = Some bs \<Longrightarrow> \<exists>md. decode_record (metadata_from_bytes r) bs = Inr md"
  by (auto simp: wf_db_def decodes_def)

lemma impl_commit:
  assumes "ulid_ok c" and "rocks_ok r"
  shows "implements c r (commit_publication c r ch a md reference durability)
    (a_commit ch a md reference) (\<lambda>s new. new \<longleftrightarrow> artifacts s (ch, a) = None)"
proof (rule implementsI)
  fix M assume wf: "wf_db c r M"
  show "implements_at c r M (commit_publication c r ch a md reference durability)
    (a_commit ch a md reference) (\<lambda>s new. new \<longleftrightarrow> artifacts s (ch, a) = None)"
  proof (cases "M ARTIFACTS (artifact_key c ch a)")
    case None
    then show ?thesis
      unfolding commit_publication_def using assms wf
      by (cases reference)
        (auto simp: method_simps a_commit_def intro!: impl_blocking impl_get impl_record impl_writes)
  next
    case (Some bs)
    with wf_artifact_row [OF wf] obtain old where "decode_record (metadata_from_bytes r) bs = Inr old"
      by blast
    with Some show ?thesis
      unfolding commit_publication_def using assms wf
      by (cases reference)
        (auto simp: method_simps a_commit_def decoded_Some
          intro!: impl_blocking impl_get impl_record impl_writes)
  qed
qed

lemma impl_remove:
  assumes "ulid_ok c" and "rocks_ok r"
  shows "implements c r (remove_artifact c r ch a) (a_remove ch a) (\<lambda>_ _. True)"
  unfolding remove_artifact_def using assms
  by (intro implementsI)
    (auto simp: method_simps a_remove_def decoded_Some split: option.split
      intro!: impl_blocking impl_get impl_record impl_writes)

lemma impl_bind_reference:
  assumes "ulid_ok c" and "rocks_ok r"
  shows "implements c r (store_bind_reference c r ch n x durability) (a_bind ch n x) (\<lambda>_ _. True)"
  unfolding store_bind_reference_def a_bind_def using assms
  by (intro implementsI) (auto simp: method_simps intro!: impl_blocking impl_record impl_writes)

lemma impl_delete_reference:
  assumes "ulid_ok c" and "rocks_ok r"
  shows "implements c r (store_delete_reference c r ch n) (a_unbind ch n) (\<lambda>_ _. True)"
  unfolding store_delete_reference_def a_unbind_def using assms
  by (intro implementsI) (auto simp: method_simps intro!: impl_blocking impl_writes)

lemma impl_requeue:
  assumes "ulid_ok c" and "rocks_ok r"
  shows "implements c r (requeue c r ch a old new) (a_requeue ch a old new) (\<lambda>_ _. True)"
  unfolding requeue_def using assms
  by (intro implementsI)
    (auto simp: method_simps a_requeue_def decoded_Some split: option.split
      intro!: impl_blocking impl_get impl_record impl_writes impl_ok)

lemma impl_evict:
  assumes "ulid_ok c" and "rocks_ok r"
  shows "implements c r (evict c r ch a t) (a_evict ch a t) (\<lambda>s x. x = a_evicted ch a t s)"
  unfolding evict_def using assms
  by (intro implementsI)
    (auto simp: method_simps a_evict_def a_evicted_def decoded_Some split: option.split
      intro!: impl_blocking impl_get impl_record impl_writes)

lemma impl_artifact:
  assumes "ulid_ok c" and "rocks_ok r"
  shows "implements c r (store_artifact c r ch a) id (\<lambda>s x. x = artifacts s (ch, a))"
  unfolding store_artifact_def using assms
  by (intro implementsI)
    (auto simp: method_simps decoded_Some split: option.split
      intro!: impl_blocking impl_get impl_record impl_ok)

lemma impl_reference:
  assumes "ulid_ok c" and "rocks_ok r"
  shows "implements c r (store_reference c r ch n) id (\<lambda>s x. x = references s (ch, n))"
  unfolding store_reference_def using assms
  by (intro implementsI)
    (auto simp: method_simps decoded_Some split: option.split
      intro!: impl_blocking impl_get impl_record impl_ok)

lemma impl_channel_get:
  assumes "ulid_ok c" and "rocks_ok r"
  shows "implements c r (store_channel_get c r ch) id (\<lambda>s x. x = channels s ch)"
  unfolding store_channel_get_def using assms
  by (intro implementsI)
    (auto simp: method_simps decoded_Some split: option.split
      intro!: impl_blocking impl_get impl_record impl_ok)

lemma impl_store_channel:
  assumes "ulid_ok c" and "rocks_ok r"
  shows "implements c r (store_channel c r x) (a_put_channel x) (\<lambda>_ _. True)"
  unfolding store_channel_def a_put_channel_def using assms
  by (intro implementsI) (auto simp: method_simps intro!: impl_blocking impl_record impl_writes)

lemma impl_create_channel:
  assumes "ulid_ok c" and "rocks_ok r"
  shows "implements c r (create_channel c r x) (a_put_channel x) (\<lambda>s _. channels s (channel_id x) = None)"
  unfolding create_channel_def a_put_channel_def using assms
  by (intro implementsI)
    (auto simp: method_simps intro!: impl_blocking impl_get impl_throw impl_record impl_writes)

lemma impl_finish_deletion:
  assumes "ulid_ok c" and "rocks_ok r"
  shows "implements c r (finish_channel_deletion c r ch) (a_drop_channel ch) (\<lambda>_ _. True)"
  unfolding finish_channel_deletion_def a_drop_channel_def using assms
  by (intro implementsI) (auto simp: method_simps intro!: impl_blocking impl_writes)

lemma impl_delete_data:
  assumes "ulid_ok c" and "rocks_ok r"
  shows "implements c r (delete_channel_data c r ch) (a_delete_data ch) (\<lambda>_ _. True)"
  unfolding delete_channel_data_def using assms abs_store_range [OF assms(1)]
  by (intro implementsI)
    (auto simp: method_simps simp del: abs_apply_batch intro!: impl_blocking impl_writes)

section \<open>The iterating methods\<close>

definition is_row :: "bytes \<Rightarrow> Candidate \<Rightarrow> bool" where
  "is_row key x \<longleftrightarrow> decode_eviction_key key = Inr (cand_eligible_at x, cand_artifact x)"

definition candidate_of :: "bytes \<Rightarrow> Candidate" where
  "candidate_of key =
     (case decode_eviction_key key of
        Inr (t, a) \<Rightarrow> \<lparr>cand_eligible_at = t, cand_artifact = a\<rparr>
      | Inl _ \<Rightarrow> \<lparr>cand_eligible_at = 0, cand_artifact = ArtifactId (array32 [])\<rparr>)"

lemma collect_candidates_rows:
  assumes "\<forall>(k, v) \<in> set rows. \<exists>x. decode_eviction_key k = Inr x"
  shows "collect_candidates p limit acc (map Inr rows)
    = Inr (acc @ take (limit - length acc)
        (map (candidate_of \<circ> fst) (takeWhile (\<lambda>(k, v). take (length p) k = p) rows)))"
  using assms
proof (induction rows arbitrary: acc)
  case Nil
  then show ?case by simp
next
  case (Cons row rows)
  then show ?case
    by (cases row) (auto simp: candidate_of_def Suc_diff_Suc take_Cons' diff_Suc split: nat.splits)
qed

lemma collect_candidates_cut:
  "collect_candidates p limit acc (map Inr (take n rows) @ Inl err # rest) = Inr xs \<Longrightarrow>
    collect_candidates p limit acc (map Inr rows) = Inr xs"
proof (induction rows arbitrary: acc n)
  case Nil
  then show ?case by simp
next
  case (Cons row rows)
  then show ?case
    by (cases n; cases row) (auto split: if_splits sum.splits)
qed

lemma takeWhile_sorted:
  assumes "sorted_wrt (<) (map fst rows)" and "\<And>k v. (k, v) \<in> set rows \<Longrightarrow> P k \<longleftrightarrow> k < (hi :: bytes)"
  shows "takeWhile (\<lambda>(k, v). P k) rows = filter (\<lambda>(k, v). P k) rows"
  using assms
proof (induction rows)
  case Nil
  then show ?case by simp
next
  case (Cons row rows)
  obtain k v where row: "row = (k, v)" by fastforce
  show ?case
  proof (cases "P k")
    case True
    have "takeWhile (\<lambda>(k, v). P k) rows = filter (\<lambda>(k, v). P k) rows"
      by (rule Cons.IH) (use Cons.prems in auto)
    with True row show ?thesis by simp
  next
    case False
    with Cons.prems row have "\<not> k < hi" by auto
    with Cons.prems row have "\<forall>(k', v') \<in> set rows. \<not> P k'"
      by (fastforce dest: order.strict_trans)
    then have "filter (\<lambda>(k, v). P k) rows = []" by (auto simp: filter_empty_conv)
    with False row show ?thesis by simp
  qed
qed

text \<open>
  \<open>oldest_rows ch limit\<close>: the result is an initial part, of at most \<open>limit\<close> entries, of
  the channel's queue rows in the order of their deadlines.
\<close>

definition oldest_rows :: "ChannelId \<Rightarrow> nat \<Rightarrow> meta_store \<Rightarrow> Candidate list \<Rightarrow> bool" where
  "oldest_rows ch limit s xs \<longleftrightarrow>
     (\<exists>ys. xs = take limit ys \<and> sorted (map cand_eligible_at ys) \<and> distinct ys
        \<and> set ys = {\<lparr>cand_eligible_at = t, cand_artifact = a\<rparr> | t a. (ch, t, a) \<in> queue s})"

lemma candidate_of_key [simp]:
  "ulid_ok c \<Longrightarrow> candidate_of (eviction_key c ch t a) = \<lparr>cand_eligible_at = t, cand_artifact = a\<rparr>"
  by (simp add: candidate_of_def decode_eviction_key_encode)

text \<open>The rows the loop takes are all the rows of the channel.\<close>

definition channel_part :: "bytes \<Rightarrow> (bytes \<times> bytes) list \<Rightarrow> (bytes \<times> bytes) list" where
  "channel_part p rows = takeWhile (\<lambda>(k, v). take (length p) k = p) rows"

lemma channel_part_filter:
  assumes "ulid_ok c" and "rows_from m (ChannelId_as_key c ch) rows"
  shows "channel_part (ChannelId_as_key c ch) rows
    = filter (\<lambda>(k, v). take (length (ChannelId_as_key c ch)) k = ChannelId_as_key c ch) rows"
  unfolding channel_part_def
proof (rule takeWhile_sorted [where hi = "prefix_end (ChannelId_as_key c ch)"])
  show "sorted_wrt (<) (map fst rows)" using assms(2) by (simp add: rows_from_def)
next
  fix k v assume "(k, v) \<in> set rows"
  then show "take (length (ChannelId_as_key c ch)) k = ChannelId_as_key c ch
      \<longleftrightarrow> k < prefix_end (ChannelId_as_key c ch)"
    using assms(2) channel_range [OF assms(1), of ch k] take_prefix_iff [of "ChannelId_as_key c ch" k]
    by (auto simp: rows_from_def)
qed

lemma channel_part_rows:
  assumes c: "ulid_ok c" and wf: "wf_db c r M"
    and rows: "rows_from (M EVICTION) (ChannelId_as_key c ch) rows"
  shows "(k, v) \<in> set (channel_part (ChannelId_as_key c ch) rows)
    \<longleftrightarrow> (\<exists>t a. k = eviction_key c ch t a \<and> M EVICTION k = Some v)" (is "?l \<longleftrightarrow> ?r")
proof -
  let ?p = "ChannelId_as_key c ch"
  have l: "?l \<longleftrightarrow> M EVICTION k = Some v \<and> ?p \<le> k \<and> k < prefix_end ?p"
    using rows channel_range [OF c, of ch k] take_prefix_iff [of ?p k]
    by (auto simp: channel_part_filter [OF c rows] rows_from_def)
  show ?thesis
  proof
    assume ?l
    with l wf obtain ch' t a where k: "k = eviction_key c ch' t a"
      unfolding wf_db_def by blast
    with \<open>?l\<close> l in_range_eviction [OF c, of ch ch' t a] show ?r by auto
  next
    assume ?r
    then show ?l using l in_range_eviction [OF c, of ch ch] by auto
  qed
qed

lemma channel_part_sorted:
  assumes c: "ulid_ok c" and wf: "wf_db c r M"
    and rows: "rows_from (M EVICTION) (ChannelId_as_key c ch) rows"
  shows "sorted_wrt (\<lambda>x y. cand_eligible_at x \<le> cand_eligible_at y \<and> x \<noteq> y)
    (map (candidate_of \<circ> fst) (channel_part (ChannelId_as_key c ch) rows))"
  unfolding sorted_wrt_map
proof (rule sorted_wrt_mono_rel [where P = "\<lambda>x y. fst x < fst y"])
  fix x y assume xy: "x \<in> set (channel_part (ChannelId_as_key c ch) rows)"
    "y \<in> set (channel_part (ChannelId_as_key c ch) rows)" and less: "fst x < fst y"
  then obtain t a t' a' where "fst x = eviction_key c ch t a" "fst y = eviction_key c ch t' a'"
    using channel_part_rows [OF c wf rows] by (metis prod.collapse)
  with less show "cand_eligible_at ((candidate_of \<circ> fst) x) \<le> cand_eligible_at ((candidate_of \<circ> fst) y)
      \<and> (candidate_of \<circ> fst) x \<noteq> (candidate_of \<circ> fst) y"
    using eviction_key_less [OF c, of t' t ch a' a] c by (auto simp: not_less [symmetric])
next
  show "sorted_wrt (\<lambda>x y. fst x < fst y) (channel_part (ChannelId_as_key c ch) rows)"
    using rows by (simp add: channel_part_filter [OF c rows] rows_from_def sorted_wrt_map sorted_wrt_filter)
qed

lemma sorted_wrt_distinct: "sorted_wrt (\<lambda>x y. R x y \<and> x \<noteq> y) xs \<Longrightarrow> distinct xs"
  by (induction xs) auto

lemma channel_part_oldest:
  assumes c: "ulid_ok c" and wf: "wf_db c r M"
    and rows: "rows_from (M EVICTION) (ChannelId_as_key c ch) rows"
  shows "oldest_rows ch limit (abs_store c r M)
    (take limit (map (candidate_of \<circ> fst) (channel_part (ChannelId_as_key c ch) rows)))"
proof -
  let ?ys = "map (candidate_of \<circ> fst) (channel_part (ChannelId_as_key c ch) rows)"
  let ?r = "{\<lparr>cand_eligible_at = t, cand_artifact = a\<rparr> | t a. (ch, t, a) \<in> queue (abs_store c r M)}"
  note pw = channel_part_sorted [OF assms]
  have "distinct ?ys" by (rule sorted_wrt_distinct [OF pw])
  moreover have "sorted (map cand_eligible_at ?ys)"
    unfolding sorted_map by (rule sorted_wrt_mono_rel [OF _ pw]) simp
  moreover have "set ?ys = ?r"
  proof
    show "set ?ys \<subseteq> ?r"
      using channel_part_rows [OF assms] c by (fastforce simp: abs_store_def abs_queue_def)
    show "?r \<subseteq> set ?ys"
    proof
      fix x assume "x \<in> ?r"
      then obtain t a v where x: "x = \<lparr>cand_eligible_at = t, cand_artifact = a\<rparr>"
        and "M EVICTION (eviction_key c ch t a) = Some v"
        by (auto simp: abs_store_def abs_queue_def)
      then have "(eviction_key c ch t a, v) \<in> set (channel_part (ChannelId_as_key c ch) rows)"
        using channel_part_rows [OF assms] by blast
      then have "(candidate_of \<circ> fst) (eviction_key c ch t a, v) \<in> set ?ys"
        by (simp only: set_map imageI)
      then show "x \<in> set ?ys" by (simp add: x c)
    qed
  qed
  ultimately show ?thesis unfolding oldest_rows_def by blast
qed

lemma wf_eviction_row: "wf_db c r M \<Longrightarrow> M EVICTION k = Some v \<Longrightarrow> \<exists>ch t a. k = eviction_key c ch t a"
  by (simp add: wf_db_def)

lemma impl_candidates:
  assumes c: "ulid_ok c" and r: "rocks_ok r"
  shows "implements c r (reclaim_candidates c r ch limit) id (oldest_rows ch limit)"
  unfolding reclaim_candidates_def Let_def with_cf_opened [OF r]
proof (intro implementsI impl_blocking [OF r])
  fix M assume wf: "wf_db c r M"
  let ?p = "ChannelId_as_key c ch"
  show "implements_at c r M (\<lambda>d. case iterator_cf r EVICTION ?p d of
      (items, d') \<Rightarrow> (collect_candidates ?p limit [] items, d')) id (oldest_rows ch limit)"
    unfolding implements_at_def
  proof (intro allI impI)
    fix d x d'
    assume M: "contents r d = M" and run: "(case iterator_cf r EVICTION ?p d of
      (items, d') \<Rightarrow> (collect_candidates ?p limit [] items, d')) = (x, d')"
    obtain items where it: "iterator_cf r EVICTION ?p d = (items, d')"
      and x: "x = collect_candidates ?p limit [] items"
      using run by (auto split: prod.splits)
    from rocks_iterate [OF r it] M obtain rows where d': "contents r d' = M"
      and rows: "rows_from (M EVICTION) ?p rows"
      and items: "items = map Inr rows \<or> (\<exists>n err rest. items = map Inr (take n rows) @ Inl err # rest)"
      by auto
    have "\<forall>(k, v) \<in> set rows. \<exists>x. decode_eviction_key k = Inr x"
      using rows by (auto simp: rows_from_def decode_eviction_key_encode [OF c] dest!: wf_eviction_row [OF wf])
    from collect_candidates_rows [OF this, of ?p limit "[]"]
    have "x = Inr xs \<Longrightarrow> xs = take limit (map (candidate_of \<circ> fst) (channel_part ?p rows))" for xs
      using items x collect_candidates_cut [of ?p limit "[]"] by (auto simp: channel_part_def)
    with channel_part_oldest [OF c wf rows] d' wf
    show "wf_db c r (contents r d') \<and> (case x of
        Inr y \<Rightarrow> abs_store c r (contents r d') = id (abs_store c r M) \<and> oldest_rows ch limit (abs_store c r M) y
      | Inl e \<Rightarrow> abs_store c r (contents r d') = abs_store c r M
          \<or> abs_store c r (contents r d') = id (abs_store c r M))"
      by (auto split: sum.splits)
  qed
qed

lemma collect_channels_rows:
  "collect_channels from_bytes (map Inr rows) = Inr xs \<Longrightarrow>
    list_all2 (\<lambda>(k, v) x. decode_record from_bytes v = Inr x) rows xs"
  by (induction rows arbitrary: xs) (auto split: sum.splits)

lemma collect_channels_cut:
  "collect_channels from_bytes (map Inr rows @ Inl err # rest) \<noteq> Inr xs"
proof (induction rows arbitrary: xs)
  case (Cons row rows)
  then show ?case by (cases row) (auto split: sum.splits)
qed simp

definition all_channels :: "meta_store \<Rightarrow> ChannelRecord list \<Rightarrow> bool" where
  "all_channels s xs \<longleftrightarrow>
     distinct (map channel_id xs) \<and> (\<forall>ch. channels s ch = map_of (map (\<lambda>x. (channel_id x, x)) xs) ch)"

lemma channel_keys:
  assumes wf: "wf_db c r M" and rows: "rows_from (M CHANNELS) [] rows"
    and dec: "list_all2 (\<lambda>(k, v) x. decode_record (channel_from_bytes r) v = Inr x) rows xs"
  shows "map (ChannelId_as_key c \<circ> channel_id) xs = map fst rows"
proof -
  have "\<forall>(k, v) \<in> set rows. \<exists>x. decode_record (channel_from_bytes r) v = Inr x
      \<and> k = ChannelId_as_key c (channel_id x)"
    using rows wf unfolding rows_from_def wf_db_def by simp
  with dec show ?thesis
    by (induction rows xs rule: list_all2_induct) auto
qed

lemma channel_rows_all:
  assumes c: "ulid_ok c" and wf: "wf_db c r M" and rows: "rows_from (M CHANNELS) [] rows"
    and dec: "list_all2 (\<lambda>(k, v) x. decode_record (channel_from_bytes r) v = Inr x) rows xs"
  shows "all_channels (abs_store c r M) xs"
  unfolding all_channels_def
proof (intro conjI allI)
  note keys = channel_keys [OF wf rows dec]
  have dk: "distinct (map fst rows)"
    using rows by (simp add: rows_from_def strict_sorted_iff)
  then show ids: "distinct (map channel_id xs)"
    unfolding keys [symmetric] by (metis distinct_map list.map_comp)
  fix ch
  show "channels (abs_store c r M) ch = map_of (map (\<lambda>x. (channel_id x, x)) xs) ch"
  proof (cases "\<exists>x \<in> set xs. channel_id x = ch")
    case True
    then obtain i where i: "i < length xs" "channel_id (xs ! i) = ch" by (metis in_set_conv_nth)
    have len: "length rows = length xs" by (rule list_all2_lengthD [OF dec])
    obtain k v where row: "rows ! i = (k, v)" by fastforce
    with i len have mem: "(k, v) \<in> set rows" by (metis nth_mem)
    have x: "decode_record (channel_from_bytes r) v = Inr (xs ! i)"
      using list_all2_nthD2 [OF dec i(1)] row by simp
    from keys have "map (ChannelId_as_key c \<circ> channel_id) xs ! i = map fst rows ! i" by simp
    with i row len have "k = ChannelId_as_key c ch" by simp
    with mem x rows have "channels (abs_store c r M) ch = Some (xs ! i)"
      by (auto simp: rows_from_def decoded_def)
    moreover have "map_of (map (\<lambda>x. (channel_id x, x)) xs) ch = Some (xs ! i)"
      by (rule map_of_is_SomeI) (use i ids in \<open>auto simp: comp_def image_iff intro!: bexI [of _ "xs ! i"]\<close>)
    ultimately show ?thesis by simp
  next
    case False
    then have "ChannelId_as_key c ch \<notin> set (map fst rows)"
      unfolding keys [symmetric] using as_key_inject [OF c] by auto
    with rows have "M CHANNELS (ChannelId_as_key c ch) = None"
      by (force simp: rows_from_def)
    moreover have "map_of (map (\<lambda>x. (channel_id x, x)) xs) ch = None"
      using False by (auto simp: map_of_eq_None_iff)
    ultimately show ?thesis by simp
  qed
qed

lemma impl_channels:
  assumes c: "ulid_ok c" and r: "rocks_ok r"
  shows "implements c r (store_channels r) id all_channels"
  unfolding store_channels_def with_cf_opened [OF r]
proof (intro implementsI impl_blocking [OF r])
  fix M assume wf: "wf_db c r M"
  show "implements_at c r M (\<lambda>d. case iterator_cf r CHANNELS [] d of
      (items, d') \<Rightarrow> (collect_channels (channel_from_bytes r) items, d')) id all_channels"
    unfolding implements_at_def
  proof (intro allI impI)
    fix d x d'
    assume M: "contents r d = M" and run: "(case iterator_cf r CHANNELS [] d of
      (items, d') \<Rightarrow> (collect_channels (channel_from_bytes r) items, d')) = (x, d')"
    obtain items where it: "iterator_cf r CHANNELS [] d = (items, d')"
      and x: "x = collect_channels (channel_from_bytes r) items"
      using run by (auto split: prod.splits)
    from rocks_iterate [OF r it] M obtain rows where d': "contents r d' = M"
      and rows: "rows_from (M CHANNELS) [] rows"
      and items: "items = map Inr rows \<or> (\<exists>n err rest. items = map Inr (take n rows) @ Inl err # rest)"
      by auto
    have "x = Inr xs \<Longrightarrow> all_channels (abs_store c r M) xs" for xs
      using items x collect_channels_cut collect_channels_rows channel_rows_all [OF c wf rows] by metis
    with d' wf show "wf_db c r (contents r d') \<and> (case x of
        Inr y \<Rightarrow> abs_store c r (contents r d') = id (abs_store c r M) \<and> all_channels (abs_store c r M) y
      | Inl e \<Rightarrow> abs_store c r (contents r d') = abs_store c r M
          \<or> abs_store c r (contents r d') = id (abs_store c r M))"
      by (auto split: sum.splits)
  qed
qed

end
