(* ===== verification/Reference_Crates.thy ===== *)
theory Reference_Crates
  imports Domain
begin

text \<open>
  A concrete instance of the crates identities are built on. It is used only where a
  property is applied to a concrete input: hexadecimal and Crockford base-32 text are
  implemented in full, and a fixed 32-byte folding stands in for SHA-256.
\<close>

section \<open>Hexadecimal\<close>

definition hex_digit :: "nat \<Rightarrow> char" where
  "hex_digit n = ''0123456789abcdef'' ! n"

definition hex_value :: "char \<Rightarrow> nat option" where
  "hex_value = map_of (zip ''0123456789abcdefABCDEF'' ([0..<16] @ [10..<16]))"

fun demo_hex_encode :: "bytes \<Rightarrow> string" where
  "demo_hex_encode [] = []"
| "demo_hex_encode (b # bs) = hex_digit (unat b div 16) # hex_digit (unat b mod 16) # demo_hex_encode bs"

fun unhex :: "string \<Rightarrow> bytes option" where
  "unhex [] = Some []"
| "unhex [a] = None"
| "unhex (a # b # s) =
     (case (hex_value a, hex_value b, unhex s) of
        (Some x, Some y, Some bs) \<Rightarrow> Some (of_nat (16 * x + y) # bs)
      | _ \<Rightarrow> None)"

definition demo_hex_decode :: "string \<Rightarrow> nat \<Rightarrow> bytes option" where
  "demo_hex_decode s n = (if length s = 2 * n then unhex s else None)"

lemma hex_value_Some: "hex_value a = Some x \<Longrightarrow> x < 16 \<and> hex_digit x = to_ascii_lowercase a"
  unfolding hex_value_def
  by (drule map_of_SomeD)
    (auto simp: upt_rec hex_digit_def to_ascii_lowercase_def is_ascii_uppercase_def less_eq_char_def
      char_of_def bit_0)

lemma hex_digit_all:
  "list_all (\<lambda>n. hex_value (hex_digit n) = Some n
     \<and> (is_ascii_digit (hex_digit n) \<or> is_ascii_lowercase (hex_digit n))) [0..<16]"
  by (simp add: hex_value_def hex_digit_def upt_rec is_ascii_digit_def is_ascii_lowercase_def
      less_eq_char_def)

lemma hex_digit_value: "n < 16 \<Longrightarrow> hex_value (hex_digit n) = Some n"
  using hex_digit_all by (simp add: list_all_iff)

lemma hex_digit_class: "n < 16 \<Longrightarrow> is_ascii_digit (hex_digit n) \<or> is_ascii_lowercase (hex_digit n)"
  using hex_digit_all by (simp add: list_all_iff)

lemma byte_div_16: "unat (b :: u8) div 16 < 16"
  using unat_bound [of b] by simp

lemma unhex_encode: "unhex (demo_hex_encode bs) = Some bs"
  by (induction bs) (simp_all add: hex_digit_value byte_div_16)

lemma encode_unhex: "unhex s = Some bs \<Longrightarrow>
    2 * length bs = length s \<and> demo_hex_encode bs = map to_ascii_lowercase s"
proof (induction s arbitrary: bs rule: unhex.induct)
  case (3 a b s)
  from "3.prems" obtain x y cs where
      h: "hex_value a = Some x" "hex_value b = Some y" "unhex s = Some cs"
    and bs: "bs = of_nat (16 * x + y) # cs"
    by (auto split: option.splits)
  from hex_value_Some [OF h(1)] hex_value_Some [OF h(2)]
  have x: "x < 16" "hex_digit x = to_ascii_lowercase a"
    and y: "y < 16" "hex_digit y = to_ascii_lowercase b" by auto
  then have "unat (of_nat (16 * x + y) :: u8) = 16 * x + y"
    by (simp only: unat_of_nat) simp
  with "3.IH" [OF h(3)] x y bs show ?case by simp
qed auto

lemma length_demo_hex: "length (demo_hex_encode bs) = 2 * length bs"
  by (induction bs) auto

lemma demo_hex_class: "list_all (\<lambda>x. is_ascii_digit x \<or> is_ascii_lowercase x) (demo_hex_encode bs)"
  by (induction bs) (auto simp: hex_digit_class byte_div_16)

section \<open>Crockford base 32\<close>

definition crockford :: string where
  "crockford = ''0123456789ABCDEFGHJKMNPQRSTVWXYZ''"

fun base32 :: "nat \<Rightarrow> nat \<Rightarrow> string" where
  "base32 0 v = []"
| "base32 (Suc n) v = base32 n (v div 32) @ [crockford ! (v mod 32)]"

definition base32_digit :: "char \<Rightarrow> nat" where
  "base32_digit x = (case map_of (zip crockford [0..<32]) x of None \<Rightarrow> 0 | Some n \<Rightarrow> n)"

definition base32_value :: "string \<Rightarrow> nat" where
  "base32_value s = foldl (\<lambda>acc x. acc * 32 + base32_digit x) 0 s"

lemma crockford_digit: "n < 32 \<Longrightarrow> base32_digit (crockford ! n) = n"
proof -
  assume n: "n < 32"
  have "list_all (\<lambda>n. base32_digit (crockford ! n) = n) [0..<32]"
    by (simp add: base32_digit_def crockford_def upt_rec)
  with n show ?thesis by (simp add: list_all_iff)
qed

lemma crockford_class: "n < 32 \<Longrightarrow> is_ascii_digit (crockford ! n) \<or> is_ascii_uppercase (crockford ! n)"
proof -
  assume n: "n < 32"
  have "list_all (\<lambda>n. is_ascii_digit (crockford ! n) \<or> is_ascii_uppercase (crockford ! n)) [0..<32]"
    by (simp add: crockford_def upt_rec is_ascii_digit_def is_ascii_uppercase_def less_eq_char_def)
  with n show ?thesis by (simp add: list_all_iff)
qed

lemma length_base32 [simp]: "length (base32 n v) = n"
  by (induction n arbitrary: v) auto

lemma base32_class: "list_all (\<lambda>x. is_ascii_digit x \<or> is_ascii_uppercase x) (base32 n v)"
  by (induction n arbitrary: v) (auto simp: crockford_class)

lemma base32_value: "v < 32 ^ n \<Longrightarrow> base32_value (base32 n v) = v"
proof (induction n arbitrary: v)
  case 0
  then show ?case by (simp add: base32_value_def)
next
  case (Suc n)
  then have "v div 32 < 32 ^ n"
    by (simp add: less_mult_imp_div_less mult.commute)
  then show ?case
    using Suc.IH [of "v div 32"] by (simp add: base32_value_def crockford_digit)
qed

section \<open>The instance\<close>

definition demo_fold :: "bytes \<Rightarrow> u8" where
  "demo_fold bs = foldl (\<lambda>acc b. acc * 31 + b + 1) 0 bs"

definition demo_crates :: crates where
  "demo_crates =
     \<lparr>hex_encode = demo_hex_encode, hex_decode = demo_hex_decode,
      ulid_to_str = (\<lambda>u. base32 26 (unat u)),
      ulid_from_string = (\<lambda>s. Some (of_nat (base32_value s))),
      sha256 = (\<lambda>bs. replicate 31 0 @ [demo_fold bs])\<rparr>"

lemma demo_hex_ok: "hex_ok demo_crates"
  by (auto simp: hex_ok_def demo_crates_def demo_hex_decode_def unhex_encode length_demo_hex
      demo_hex_class split: if_splits dest: encode_unhex)

lemma demo_ulid_ok: "ulid_ok demo_crates"
proof -
  have "unat u < 32 ^ 26" for u :: Ulid using unat_bound [of u] by simp
  then show ?thesis
    by (simp add: ulid_ok_def demo_crates_def ulid_len_def base32_class base32_value)
qed

lemma demo_sha256_ok: "sha256_ok demo_crates"
  by (simp add: sha256_ok_def demo_crates_def)

end
