(* ===== verification/Reference_Store.thy ===== *)
theory Reference_Store
  imports Metadata Reference_Crates
begin

text \<open>
  A concrete instance of the database: a list of rows, with fixed-width record codecs for
  the records without optional text. It is used only where a property is applied to a
  concrete input.
\<close>

type_synonym demo_db = "(column_family \<times> bytes \<times> bytes) list"

definition demo_contents :: "demo_db \<Rightarrow> families" where
  "demo_contents d cf k = map_of (map (\<lambda>(f, k', v). ((f, k'), v)) d) (cf, k)"

fun demo_op :: "batch_op \<Rightarrow> demo_db \<Rightarrow> demo_db" where
  "demo_op (put_cf cf k v) d = (cf, k, v) # d"
| "demo_op (delete_cf cf k) d = filter (\<lambda>(f, k', v). \<not> (f = cf \<and> k' = k)) d"
| "demo_op (delete_range_cf cf lo hi) d = filter (\<lambda>(f, k, v). \<not> (f = cf \<and> lo \<le> k \<and> k < hi)) d"

definition demo_keys :: "column_family \<Rightarrow> bytes \<Rightarrow> demo_db \<Rightarrow> bytes list" where
  "demo_keys cf lo d =
     sort (remdups (map (\<lambda>(f, k, v). k) (filter (\<lambda>(f, k, v). f = cf \<and> lo \<le> k) d)))"

definition demo_rows :: "column_family \<Rightarrow> bytes \<Rightarrow> demo_db \<Rightarrow> (bytes \<times> bytes) list" where
  "demo_rows cf lo d = map (\<lambda>k. (k, the (demo_contents d cf k))) (demo_keys cf lo d)"

definition demo_metadata_to_vec :: "ArtifactMetadata \<Rightarrow> string + bytes" where
  "demo_metadata_to_vec m =
     (if content_type m \<noteq> None then Inl ''unsupported''
      else Inr (u64_to_be_bytes (content_len m) @ u64_to_be_bytes (created_at m) @
        u64_to_be_bytes (eligible_at m) @ u64_to_be_bytes (stored_len m) @
        [case encoding m of Identity \<Rightarrow> 0 | Zstd \<Rightarrow> 1]))"

definition u64_at :: "nat \<Rightarrow> bytes \<Rightarrow> u64" where
  "u64_at i bs = u64_from_be_bytes (take 8 (drop i bs))"

definition demo_metadata_from_bytes :: "bytes \<Rightarrow> string + ArtifactMetadata" where
  "demo_metadata_from_bytes bs =
     (if length bs \<noteq> 33 then Inl ''truncated''
      else Inr \<lparr>content_len = u64_at 0 bs, content_type = None, created_at = u64_at 8 bs,
                eligible_at = u64_at 16 bs, stored_len = u64_at 24 bs,
                encoding = (if bs ! 32 = 0 then Identity else Zstd)\<rparr>)"

definition demo_reference_to_vec :: "ReferenceRecord \<Rightarrow> string + bytes" where
  "demo_reference_to_vec x =
     (if etag x \<noteq> None \<or> last_modified x \<noteq> None then Inl ''unsupported''
      else Inr (u64_to_be_bytes (updated_at x) @ bytes_of32 (digest (ref_artifact x))))"

definition demo_reference_from_bytes :: "bytes \<Rightarrow> string + ReferenceRecord" where
  "demo_reference_from_bytes bs =
     (if length bs \<noteq> 40 then Inl ''truncated''
      else Inr \<lparr>ref_artifact = ArtifactId (array32 (drop 8 bs)), updated_at = u64_at 0 bs,
                etag = None, last_modified = None\<rparr>)"

definition demo_channel_to_vec :: "ChannelRecord \<Rightarrow> string + bytes" where
  "demo_channel_to_vec x =
     Inr (be_bytes 16 (unat (ulid_of (channel_id x))) @ u64_to_be_bytes (expiry_seconds x) @
       u64_to_be_bytes (channel_created_at x) @
       [case lifecycle x of Active \<Rightarrow> 0 | Deleting \<Rightarrow> 1] @
       (case access x of Open \<Rightarrow> [] | Token (TokenDigest b) \<Rightarrow> bytes_of32 b))"

definition demo_channel_from_bytes :: "bytes \<Rightarrow> string + ChannelRecord" where
  "demo_channel_from_bytes bs =
     Inr \<lparr>channel_id = ChannelId (of_nat (be_value (take 16 bs))),
          access = (if drop 33 bs = [] then Open else Token (TokenDigest (array32 (drop 33 bs)))),
          expiry_seconds = u64_at 16 bs,
          lifecycle = (if bs ! 32 = 0 then Active else Deleting),
          channel_created_at = u64_at 24 bs\<rparr>"

definition demo_rocks :: "demo_db rocks" where
  "demo_rocks =
     \<lparr>contents = demo_contents,
      cf_handle = (\<lambda>cf d. True),
      get_cf = (\<lambda>cf k d. (Inr (demo_contents d cf k), d)),
      write_opt = (\<lambda>sync ops d. (Inr (), fold demo_op ops d)),
      iterator_cf = (\<lambda>cf lo d. (map Inr (demo_rows cf lo d), d)),
      property_int_value = (\<lambda>d. (Inr (), d)),
      spawn_join = (\<lambda>d. (None, d)),
      metadata_to_vec = demo_metadata_to_vec, metadata_from_bytes = demo_metadata_from_bytes,
      reference_to_vec = demo_reference_to_vec, reference_from_bytes = demo_reference_from_bytes,
      channel_to_vec = demo_channel_to_vec, channel_from_bytes = demo_channel_from_bytes\<rparr>"

lemma demo_contents_op: "demo_contents (demo_op op d) = apply_op op (demo_contents d)"
proof (cases op)
  case (put_cf cf k v)
  then show ?thesis by (auto simp: demo_contents_def fun_eq_iff)
next
  case (delete_cf cf k)
  then show ?thesis by (induction d) (auto simp: demo_contents_def fun_eq_iff)
next
  case (delete_range_cf cf lo hi)
  then show ?thesis by (induction d) (auto simp: demo_contents_def fun_eq_iff)
qed

lemma demo_contents_batch: "demo_contents (fold demo_op ops d) = apply_batch ops (demo_contents d)"
  unfolding apply_batch_def by (induction ops arbitrary: d) (auto simp: demo_contents_op)

lemma demo_keys_set: "k \<in> set (demo_keys cf lo d) \<longleftrightarrow> lo \<le> k \<and> demo_contents d cf k \<noteq> None"
  by (force simp: demo_keys_def demo_contents_def map_of_eq_None_iff)

lemma demo_rows_ok: "rows_from (demo_contents d cf) lo (demo_rows cf lo d)"
proof -
  have "sorted_wrt (<) (demo_keys cf lo d)"
    by (simp add: demo_keys_def strict_sorted_iff)
  then have "sorted_wrt (<) (map fst (demo_rows cf lo d))"
    by (simp add: demo_rows_def comp_def)
  moreover have "set (demo_rows cf lo d) = {(k, v). demo_contents d cf k = Some v \<and> lo \<le> k}"
    using demo_keys_set by (force simp: demo_rows_def)
  ultimately show ?thesis by (simp add: rows_from_def)
qed

lemma u64_at_append [simp]:
  "u64_at 0 (u64_to_be_bytes x @ bs) = x"
  "n \<ge> 8 \<Longrightarrow> u64_at n (u64_to_be_bytes x @ bs) = u64_at (n - 8) bs"
  by (simp_all add: u64_at_def)

lemma demo_metadata_ok: "postcard_ok demo_metadata_to_vec demo_metadata_from_bytes"
  by (auto simp: postcard_ok_def demo_metadata_to_vec_def demo_metadata_from_bytes_def nth_append
      split: StoredEncoding.splits if_splits)

lemma demo_reference_ok: "postcard_ok demo_reference_to_vec demo_reference_from_bytes"
  by (auto simp: postcard_ok_def demo_reference_to_vec_def demo_reference_from_bytes_def split: if_splits)

lemma demo_channel_ok: "postcard_ok demo_channel_to_vec demo_channel_from_bytes"
proof -
  have skip: "u64_at (n + 16) (be_bytes 16 v @ bs) = u64_at n bs" for n v bs
    by (simp add: u64_at_def)
  have "unat (u :: Ulid) < 256 ^ 16" for u
    using unat_bound [of u] by simp
  then have "be_value (be_bytes 16 (unat (u :: Ulid))) = unat u" for u
    by (rule be_value_be_bytes)
  moreover have "bytes_of32 b \<noteq> []" for b
    using length_bytes_of32 [of b] by fastforce
  ultimately show ?thesis
    using skip [of 0] skip [of 8]
    by (auto simp: postcard_ok_def demo_channel_to_vec_def demo_channel_from_bytes_def nth_append
        split: Lifecycle.splits Access.splits TokenDigest.splits)
qed

lemma demo_rocks_ok: "rocks_ok demo_rocks"
  using demo_rows_ok demo_metadata_ok demo_reference_ok demo_channel_ok
  by (auto simp: rocks_ok_def demo_rocks_def demo_contents_batch)

end
