(* ===== verification/Metadata_Contract.thy ===== *)
theory Metadata_Contract
  imports Metadata_Refinement Reference_Store
begin

text \<open>
  What the cache and channel services rely on of the metadata store, as the locale
  \<open>metadata_store\<close>, its interpretation on \<open>RocksMetadata\<close>, and the properties of the
  store: methods are atomic, the eviction queue indexes the artifacts, a channel deletion
  takes the channel's rows and no others.
\<close>

section \<open>The contract\<close>

text \<open>
  \<open>effect valid view m f post\<close>: from a state in \<open>valid\<close> the method \<open>m\<close> leads to a state in
  \<open>valid\<close>; a success changes the view by \<open>f\<close> and returns what \<open>post\<close> says; a failure
  changes it by \<open>f\<close> or not at all.
\<close>

definition effect ::
  "('s \<Rightarrow> bool) \<Rightarrow> ('s \<Rightarrow> 'v) \<Rightarrow> ('s, 'e, 'a) act \<Rightarrow> ('v \<Rightarrow> 'v) \<Rightarrow> ('v \<Rightarrow> 'a \<Rightarrow> bool) \<Rightarrow> bool" where
  "effect valid view m f post \<longleftrightarrow>
     (\<forall>s x s'. valid s \<longrightarrow> m s = (x, s') \<longrightarrow>
        valid s' \<and> (case x of
          Inr y \<Rightarrow> view s' = f (view s) \<and> post (view s) y
        | Inl e \<Rightarrow> view s' = view s \<or> view s' = f (view s)))"

lemma effect_Inr:
  "effect valid view m f post \<Longrightarrow> valid s \<Longrightarrow> m s = (Inr y, s') \<Longrightarrow>
    valid s' \<and> view s' = f (view s) \<and> post (view s) y"
  by (fastforce simp: effect_def)

lemma effect_Inl:
  "effect valid view m f post \<Longrightarrow> valid s \<Longrightarrow> m s = (Inl e, s') \<Longrightarrow>
    valid s' \<and> (view s' = view s \<or> view s' = f (view s))"
  by (fastforce simp: effect_def)

lemma effect_keeps:
  assumes "effect valid view m f post" and "\<And>v. P v \<Longrightarrow> P (f v)"
  shows "keeps (\<lambda>s. valid s \<and> P (view s)) m"
proof (rule keepsI)
  fix s x t assume "valid s \<and> P (view s)" and "m s = (x, t)"
  with assms show "valid t \<and> P (view t)"
    by (cases x) (auto dest: effect_Inr effect_Inl)
qed

text \<open>The eviction queue holds one row per artifact, at the deadline its record carries.\<close>

definition indexed :: "meta_store \<Rightarrow> bool" where
  "indexed s \<longleftrightarrow>
     queue s = {(ch, t, a). \<exists>md. artifacts s (ch, a) = Some md \<and> eligible_at md = t}"

lemma indexed_commit: "indexed s \<Longrightarrow> indexed (a_commit ch a md rf s)"
  by (auto simp: indexed_def a_commit_def Let_def split: option.splits)

lemma indexed_remove: "indexed s \<Longrightarrow> indexed (a_remove ch a s)"
  by (auto simp: indexed_def a_remove_def split: option.splits)

lemma indexed_requeue: "indexed s \<Longrightarrow> indexed (a_requeue ch a old new s)"
  by (auto simp: indexed_def a_requeue_def split: option.splits)

lemma indexed_evict: "indexed s \<Longrightarrow> indexed (a_evict ch a t s)"
  by (auto simp: indexed_def a_evict_def a_evicted_def split: option.splits if_splits)

lemma indexed_delete_data: "indexed s \<Longrightarrow> indexed (a_delete_data ch s)"
  by (auto simp: indexed_def a_delete_data_def)

lemma indexed_same:
  "indexed (a_bind ch n x s) \<longleftrightarrow> indexed s" "indexed (a_unbind ch n s) \<longleftrightarrow> indexed s"
  "indexed (a_put_channel rec s) \<longleftrightarrow> indexed s" "indexed (a_drop_channel ch s) \<longleftrightarrow> indexed s"
  by (simp_all add: indexed_def a_bind_def a_unbind_def a_put_channel_def a_drop_channel_def)

lemmas indexed_rules = indexed_commit indexed_remove indexed_requeue indexed_evict indexed_delete_data

locale metadata_store =
  fixes valid :: "'s \<Rightarrow> bool" and view :: "'s \<Rightarrow> meta_store"
    and commit :: "ChannelId \<Rightarrow> ArtifactId \<Rightarrow> ArtifactMetadata \<Rightarrow> (string \<times> ReferenceRecord) option \<Rightarrow>
      Durability \<Rightarrow> ('s, MetadataError, bool) act"
    and get_artifact :: "ChannelId \<Rightarrow> ArtifactId \<Rightarrow> ('s, MetadataError, ArtifactMetadata option) act"
    and remove :: "ChannelId \<Rightarrow> ArtifactId \<Rightarrow> ('s, MetadataError, unit) act"
    and bind_ref :: "ChannelId \<Rightarrow> string \<Rightarrow> ReferenceRecord \<Rightarrow> Durability \<Rightarrow> ('s, MetadataError, unit) act"
    and get_ref :: "ChannelId \<Rightarrow> string \<Rightarrow> ('s, MetadataError, ReferenceRecord option) act"
    and unbind_ref :: "ChannelId \<Rightarrow> string \<Rightarrow> ('s, MetadataError, unit) act"
    and oldest :: "ChannelId \<Rightarrow> nat \<Rightarrow> ('s, MetadataError, Candidate list) act"
    and move :: "ChannelId \<Rightarrow> ArtifactId \<Rightarrow> u64 \<Rightarrow> u64 \<Rightarrow> ('s, MetadataError, unit) act"
    and drop_row :: "ChannelId \<Rightarrow> ArtifactId \<Rightarrow> u64 \<Rightarrow> ('s, MetadataError, Evicted) act"
    and purge :: "ChannelId \<Rightarrow> ('s, MetadataError, unit) act"
  assumes commit: "effect valid view (commit ch a md rf dur) (a_commit ch a md rf)
      (\<lambda>s new. new \<longleftrightarrow> artifacts s (ch, a) = None)"
    and get_artifact: "effect valid view (get_artifact ch a) id (\<lambda>s x. x = artifacts s (ch, a))"
    and remove: "effect valid view (remove ch a) (a_remove ch a) (\<lambda>_ _. True)"
    and bind_ref: "effect valid view (bind_ref ch n x dur) (a_bind ch n x) (\<lambda>_ _. True)"
    and get_ref: "effect valid view (get_ref ch n) id (\<lambda>s x. x = references s (ch, n))"
    and unbind_ref: "effect valid view (unbind_ref ch n) (a_unbind ch n) (\<lambda>_ _. True)"
    and oldest: "effect valid view (oldest ch limit) id (oldest_rows ch limit)"
    and move: "effect valid view (move ch a old new) (a_requeue ch a old new) (\<lambda>_ _. True)"
    and drop_row: "effect valid view (drop_row ch a t) (a_evict ch a t) (\<lambda>s x. x = a_evicted ch a t s)"
    and purge: "effect valid view (purge ch) (a_delete_data ch) (\<lambda>_ _. True)"
begin

abbreviation good :: "'s \<Rightarrow> bool" where
  "good s \<equiv> valid s \<and> indexed (view s)"

lemma keeps_good:
  "keeps good (commit ch a md rf dur)" "keeps good (get_artifact ch a)" "keeps good (remove ch a)"
  "keeps good (bind_ref ch n x dur)" "keeps good (get_ref ch n)" "keeps good (unbind_ref ch n)"
  "keeps good (oldest ch limit)" "keeps good (move ch a old new)" "keeps good (drop_row ch a t)"
  "keeps good (purge ch)"
  using effect_keeps [OF commit] effect_keeps [OF get_artifact] effect_keeps [OF remove]
    effect_keeps [OF bind_ref] effect_keeps [OF get_ref] effect_keeps [OF unbind_ref]
    effect_keeps [OF oldest] effect_keeps [OF move] effect_keeps [OF drop_row] effect_keeps [OF purge]
  by (simp_all add: indexed_rules indexed_same)

text \<open>What was committed is what a later lookup finds, unless an older record was there.\<close>

lemma commit_lookup:
  assumes "valid s" and "commit ch a md rf dur s = (Inr new, s1)" and "get_artifact ch a s1 = (Inr x, s2)"
  shows "x = Some (if new then md else the (artifacts (view s) (ch, a)))"
proof -
  from effect_Inr [OF commit assms(1,2)] have s1: "valid s1" "view s1 = a_commit ch a md rf (view s)"
    and new: "new \<longleftrightarrow> artifacts (view s) (ch, a) = None" by auto
  from effect_Inr [OF get_artifact s1(1) assms(3)] s1(2)
  have "x = artifacts (a_commit ch a md rf (view s)) (ch, a)" by simp
  with new show ?thesis by (auto simp: a_commit_def Let_def split: option.splits)
qed

text \<open>
  Every candidate offered for eviction is a live artifact at its current deadline, and an
  eviction of it removes that artifact and reports its stored length.
\<close>

lemma candidate_live:
  assumes "good s" and "oldest ch limit s = (Inr xs, s1)" and "x \<in> set xs"
  shows "\<exists>md. artifacts (view s1) (ch, cand_artifact x) = Some md \<and> eligible_at md = cand_eligible_at x"
proof -
  from assms(1) have "valid s" by simp
  from effect_Inr [OF oldest this assms(2)] have "view s1 = view s"
    and "oldest_rows ch limit (view s) xs" by auto
  with assms(3) obtain t a where "x = \<lparr>cand_eligible_at = t, cand_artifact = a\<rparr>"
    and "(ch, t, a) \<in> queue (view s1)"
    by (fastforce simp: oldest_rows_def dest: in_set_takeD)
  with assms(1) \<open>view s1 = view s\<close> show ?thesis by (auto simp: indexed_def)
qed

lemma evict_candidate:
  assumes "good s" and "oldest ch limit s = (Inr xs, s1)" and "x \<in> set xs"
    and "drop_row ch (cand_artifact x) (cand_eligible_at x) s1 = (Inr y, s2)"
  shows "\<exists>md. artifacts (view s1) (ch, cand_artifact x) = Some md \<and> y = Removed (stored_len md)
    \<and> artifacts (view s2) (ch, cand_artifact x) = None"
proof -
  from candidate_live [OF assms(1-3)] obtain md
    where md: "artifacts (view s1) (ch, cand_artifact x) = Some md" "eligible_at md = cand_eligible_at x"
    by blast
  have "valid s1" using keepsD [OF keeps_good(7) assms(1,2)] by simp
  from effect_Inr [OF drop_row this assms(4)] md show ?thesis
    by (auto simp: a_evicted_def a_evict_def)
qed

end

section \<open>RocksMetadata provides it\<close>

definition db_inv :: "crates \<Rightarrow> 'd rocks \<Rightarrow> 'd \<Rightarrow> bool" where
  "db_inv c r d \<longleftrightarrow> ulid_ok c \<and> rocks_ok r \<and> wf_db c r (contents r d)"

definition db_view :: "crates \<Rightarrow> 'd rocks \<Rightarrow> 'd \<Rightarrow> meta_store" where
  "db_view c r d = abs_store c r (contents r d)"

lemma effect_implements:
  assumes "ulid_ok c \<Longrightarrow> rocks_ok r \<Longrightarrow> implements c r m f post"
  shows "effect (db_inv c r) (db_view c r) m f post"
  unfolding effect_def
proof (intro allI impI)
  fix s x s' assume valid: "db_inv c r s" and run: "m s = (x, s')"
  with assms have "implements_at c r (contents r s) m f post"
    by (simp add: db_inv_def implements_def)
  with valid run show "db_inv c r s' \<and> (case x of
      Inr y \<Rightarrow> db_view c r s' = f (db_view c r s) \<and> post (db_view c r s) y
    | Inl e \<Rightarrow> db_view c r s' = db_view c r s \<or> db_view c r s' = f (db_view c r s))"
    by (cases x) (auto simp: implements_at_def db_inv_def db_view_def)
qed

interpretation rocksdb: metadata_store
  "db_inv c r" "db_view c r" "commit_publication c r" "store_artifact c r" "remove_artifact c r"
  "store_bind_reference c r" "store_reference c r" "store_delete_reference c r"
  "reclaim_candidates c r" "requeue c r" "evict c r" "delete_channel_data c r"
  for c :: crates and r :: "'d rocks"
  by unfold_locales
    (rule effect_implements; (rule impl_commit | rule impl_artifact | rule impl_remove
      | rule impl_bind_reference | rule impl_reference | rule impl_delete_reference
      | rule impl_candidates | rule impl_requeue | rule impl_evict | rule impl_delete_data); assumption)+

lemma effect_channels:
  "effect (db_inv c r) (db_view c r) (create_channel c r x) (a_put_channel x)
    (\<lambda>s _. channels s (channel_id x) = None)"
  "effect (db_inv c r) (db_view c r) (store_channel c r x) (a_put_channel x) (\<lambda>_ _. True)"
  "effect (db_inv c r) (db_view c r) (store_channel_get c r ch) id (\<lambda>s y. y = channels s ch)"
  "effect (db_inv c r) (db_view c r) (store_channels r) id all_channels"
  "effect (db_inv c r) (db_view c r) (finish_channel_deletion c r ch) (a_drop_channel ch) (\<lambda>_ _. True)"
  by (rule effect_implements; (rule impl_create_channel | rule impl_store_channel
      | rule impl_channel_get | rule impl_channels | rule impl_finish_deletion); assumption)+

section \<open>Properties\<close>

text \<open>Any method call, on any arguments, with any outcome.\<close>

inductive store_step :: "crates \<Rightarrow> 'd rocks \<Rightarrow> 'd \<Rightarrow> 'd \<Rightarrow> bool" for c r where
  commit_publication: "commit_publication c r ch a md rf dur d = (x, d') \<Longrightarrow> store_step c r d d'"
| store_artifact: "store_artifact c r ch a d = (x, d') \<Longrightarrow> store_step c r d d'"
| remove_artifact: "remove_artifact c r ch a d = (x, d') \<Longrightarrow> store_step c r d d'"
| bind_reference: "store_bind_reference c r ch n rec dur d = (x, d') \<Longrightarrow> store_step c r d d'"
| reference: "store_reference c r ch n d = (x, d') \<Longrightarrow> store_step c r d d'"
| delete_reference: "store_delete_reference c r ch n d = (x, d') \<Longrightarrow> store_step c r d d'"
| reclaim_candidates: "reclaim_candidates c r ch limit d = (x, d') \<Longrightarrow> store_step c r d d'"
| requeue: "requeue c r ch a old new d = (x, d') \<Longrightarrow> store_step c r d d'"
| evict: "evict c r ch a t d = (x, d') \<Longrightarrow> store_step c r d d'"
| create_channel: "create_channel c r chan d = (x, d') \<Longrightarrow> store_step c r d d'"
| store_channel: "store_channel c r chan d = (x, d') \<Longrightarrow> store_step c r d d'"
| channel: "store_channel_get c r ch d = (x, d') \<Longrightarrow> store_step c r d d'"
| channels: "store_channels r d = (x, d') \<Longrightarrow> store_step c r d d'"
| delete_channel_data: "delete_channel_data c r ch d = (x, d') \<Longrightarrow> store_step c r d d'"
| finish_channel_deletion: "finish_channel_deletion c r ch d = (x, d') \<Longrightarrow> store_step c r d d'"
| verify_store_format: "verify_store_format r d = (x, d') \<Longrightarrow> store_step c r d d'"

definition db_good :: "crates \<Rightarrow> 'd rocks \<Rightarrow> 'd \<Rightarrow> bool" where
  "db_good c r d \<longleftrightarrow> db_inv c r d \<and> indexed (db_view c r d)"

lemmas rocksdb_keeps = rocksdb.keeps_good [folded db_good_def]

lemma channels_keep:
  "keeps (db_good c r) (create_channel c r chan)" "keeps (db_good c r) (store_channel c r chan)"
  "keeps (db_good c r) (store_channel_get c r ch)" "keeps (db_good c r) (store_channels r)"
  "keeps (db_good c r) (finish_channel_deletion c r ch)"
  unfolding db_good_def
  using effect_channels [THEN effect_keeps, of indexed] by (simp_all add: indexed_same)

text \<open>Verifying the format writes to no family the services read.\<close>

lemma verify_contents:
  assumes r: "rocks_ok r" and run: "verify_store_format r d = (x, d')"
  shows "cf \<noteq> META \<Longrightarrow> contents r d' cf = contents r d cf"
proof -
  assume cf: "cf \<noteq> META"
  obtain y d1 where g: "get_cf r META store_format_key d = (y, d1)" by fastforce
  obtain z d2 where w: "write_opt r True [put_cf META store_format_key store_format] d1 = (z, d2)" by fastforce
  have "contents r d1 cf = contents r d cf" using rocks_read [OF r g] by simp
  moreover have "contents r d2 cf = contents r d1 cf" using rocks_write [OF r w] cf by (auto simp: apply_batch_def)
  moreover have "d' = d \<or> d' = d1 \<or> d' = d2"
    using run g w
    by (auto simp: verify_store_format_def with_cf_def db_get_def map_err_def and_then_def write_sync_def ok_def throw_def
        split: if_splits sum.splits option.splits)
  ultimately show ?thesis by auto
qed

lemma verify_keeps: "keeps (db_good c r) (verify_store_format r)"
proof (rule keepsI)
  fix d x d' assume d: "db_good c r d" and run: "verify_store_format r d = (x, d')"
  from d have "rocks_ok r" by (simp add: db_good_def db_inv_def)
  note same = verify_contents [OF this run]
  then have "wf_db c r (contents r d') = wf_db c r (contents r d)" "abs_store c r (contents r d') = abs_store c r (contents r d)"
    by (simp_all add: wf_db_def abs_store_def)
  with d show "db_good c r d'" by (simp add: db_good_def db_inv_def db_view_def)
qed

lemma store_step_good: "store_step c r d d' \<Longrightarrow> db_good c r d \<Longrightarrow> db_good c r d'"
  by (induction rule: store_step.induct) (blast dest: keepsD [OF rocksdb_keeps(1)] keepsD [OF rocksdb_keeps(2)]
    keepsD [OF rocksdb_keeps(3)] keepsD [OF rocksdb_keeps(4)] keepsD [OF rocksdb_keeps(5)]
    keepsD [OF rocksdb_keeps(6)] keepsD [OF rocksdb_keeps(7)] keepsD [OF rocksdb_keeps(8)]
    keepsD [OF rocksdb_keeps(9)] keepsD [OF rocksdb_keeps(10)] keepsD [OF channels_keep(1)]
    keepsD [OF channels_keep(2)] keepsD [OF channels_keep(3)] keepsD [OF channels_keep(4)]
    keepsD [OF channels_keep(5)] keepsD [OF verify_keeps])+

lemma store_steps_good: "(store_step c r)\<^sup>*\<^sup>* d d' \<Longrightarrow> db_good c r d \<Longrightarrow> db_good c r d'"
  by (induction rule: rtranclp_induct) (auto intro: store_step_good)

lemma empty_db_good:
  assumes "ulid_ok c" and "rocks_ok r" and "contents r d = (\<lambda>_ _. None)"
  shows "db_good c r d"
  using assms by (simp add: db_good_def db_inv_def db_view_def wf_db_def indexed_def abs_store_def
      abs_queue_def abs_artifacts_def)

text \<open>
  C7. Whatever sequence of store methods has run since the database was empty, and however
  each of them ended, the eviction queue holds a row for an artifact and a deadline exactly
  when the artifact's record is stored and carries that deadline: no artifact escapes
  reclaim, and no row refers to an artifact that is gone.
\<close>

theorem eviction_queue_indexes_artifacts:
  assumes "ulid_ok c" and "rocks_ok r" and "contents r d\<^sub>0 = (\<lambda>_ _. None)"
    and "(store_step c r)\<^sup>*\<^sup>* d\<^sub>0 d"
  shows "contents r d EVICTION (eviction_key c ch t a) \<noteq> None \<longleftrightarrow>
    (\<exists>bs md. contents r d ARTIFACTS (artifact_key c ch a) = Some bs
       \<and> decode_record (metadata_from_bytes r) bs = Inr md \<and> eligible_at md = t)"
proof -
  have "db_good c r d"
    by (rule store_steps_good [OF assms(4) empty_db_good [OF assms(1-3)]])
  then have "(ch, t, a) \<in> queue (db_view c r d) \<longleftrightarrow>
      (\<exists>md. artifacts (db_view c r d) (ch, a) = Some md \<and> eligible_at md = t)"
    by (auto simp: db_good_def indexed_def)
  then show ?thesis
    by (auto simp: db_view_def abs_store_def abs_queue_def abs_artifacts_def decoded_def
        split: option.splits sum.splits)
qed

definition demo_artifact :: ArtifactId where
  "demo_artifact = ArtifactId (array32 [1, 2, 3])"

definition demo_metadata :: ArtifactMetadata where
  "demo_metadata = \<lparr>content_len = 3, content_type = None, created_at = 40, eligible_at = 100,
     stored_len = 3, encoding = Identity\<rparr>"

definition demo_published :: demo_db where
  "demo_published = snd (commit_publication demo_crates demo_rocks default_channel demo_artifact
     demo_metadata None Durable [])"

lemma demo_published_rows:
  "demo_published =
     [(EVICTION, eviction_key demo_crates default_channel 100 demo_artifact, []),
      (ARTIFACTS, artifact_key demo_crates default_channel demo_artifact,
        1 # (case demo_metadata_to_vec demo_metadata of Inr bs \<Rightarrow> bs | Inl _ \<Rightarrow> []))]"
  by (simp add: demo_published_def commit_publication_def blocking_def with_cf_def db_get_def
      map_err_def and_then_def demo_rocks_def demo_contents_def record_result_def lift_result_def
      encode_record_def schema_version_def ok_def write_batch_def write_sync_def
      demo_metadata_to_vec_def demo_metadata_def Let_def)

lemma demo_published_reached: "(store_step demo_crates demo_rocks)\<^sup>*\<^sup>* [] demo_published"
  unfolding demo_published_def
  by (rule r_into_rtranclp, rule store_step.commit_publication) (rule surjective_pairing)

lemma demo_empty: "contents demo_rocks [] = (\<lambda>_ _. None)"
  by (simp add: demo_rocks_def demo_contents_def fun_eq_iff)

lemma demo_published_good: "db_good demo_crates demo_rocks demo_published"
  by (rule store_steps_good [OF demo_published_reached
        empty_db_good [OF demo_ulid_ok demo_rocks_ok demo_empty]])

theorem eviction_queue_indexes_artifacts_witness:
  "\<exists>bs md. demo_contents demo_published ARTIFACTS (artifact_key demo_crates default_channel demo_artifact) = Some bs
     \<and> decode_record demo_metadata_from_bytes bs = Inr md \<and> eligible_at md = 100"
proof -
  have "demo_contents demo_published EVICTION (eviction_key demo_crates default_channel 100 demo_artifact) \<noteq> None"
    by (simp add: demo_published_rows demo_contents_def)
  then show ?thesis
    using eviction_queue_indexes_artifacts [OF demo_ulid_ok demo_rocks_ok demo_empty
        demo_published_reached, of default_channel 100 demo_artifact]
    by (simp add: demo_rocks_def)
qed

text \<open>
  C5. A publication is one atomic step: if the commit succeeds, a lookup that succeeds
  afterwards returns the metadata just committed when the commit reported the artifact
  as new, and the metadata stored before otherwise (an existing artifact is never
  overwritten); the reference bound by the same batch resolves to the record it was given.
  If the commit fails, the abstract store is the one before it or the fully committed one.
\<close>

theorem commit_publication_atomic:
  assumes "db_inv c r d" and "commit_publication c r ch a md (Some (name, record)) dur d = (x, d1)"
  shows "(case x of
      Inr new \<Rightarrow> (new \<longleftrightarrow> artifacts (db_view c r d) (ch, a) = None)
        \<and> (\<forall>y d2. store_artifact c r ch a d1 = (Inr y, d2) \<longrightarrow>
             y = (if new then Some md else artifacts (db_view c r d) (ch, a)))
        \<and> (\<forall>y d2. store_reference c r ch name d1 = (Inr y, d2) \<longrightarrow> y = Some record)
    | Inl e \<Rightarrow> db_view c r d1 \<in> {db_view c r d, a_commit ch a md (Some (name, record)) (db_view c r d)})"
proof (cases x)
  case (Inl e)
  with effect_Inl [OF rocksdb.commit assms(1)] assms(2) show ?thesis by auto
next
  case (Inr new)
  with assms(2) have run: "commit_publication c r ch a md (Some (name, record)) dur d = (Inr new, d1)" by simp
  from effect_Inr [OF rocksdb.commit assms(1) run]
  have d1: "db_inv c r d1" "db_view c r d1 = a_commit ch a md (Some (name, record)) (db_view c r d)"
    and new: "new \<longleftrightarrow> artifacts (db_view c r d) (ch, a) = None" by auto
  have "y = Some record" if "store_reference c r ch name d1 = (Inr y, d2)" for y d2
    using effect_Inr [OF rocksdb.get_ref d1(1) that] d1(2) by (simp add: a_commit_def Let_def)
  moreover have "y = (if new then Some md else artifacts (db_view c r d) (ch, a))"
    if "store_artifact c r ch a d1 = (Inr y, d2)" for y d2
    using rocksdb.commit_lookup [OF assms(1) run that] new by auto
  ultimately show ?thesis using Inr new by simp
qed

definition demo_record :: ReferenceRecord where
  "demo_record = \<lparr>ref_artifact = demo_artifact, updated_at = 7, etag = None, last_modified = None\<rparr>"

theorem commit_publication_atomic_witness:
  "\<exists>d1. commit_publication demo_crates demo_rocks default_channel demo_artifact
      (demo_metadata\<lparr>eligible_at := 5\<rparr>) (Some (''latest'', demo_record)) Durable demo_published = (Inr False, d1)
    \<and> (\<forall>y d2. store_artifact demo_crates demo_rocks default_channel demo_artifact d1 = (Inr y, d2) \<longrightarrow>
         y = artifacts (db_view demo_crates demo_rocks demo_published) (default_channel, demo_artifact))
    \<and> (\<forall>y d2. store_reference demo_crates demo_rocks default_channel ''latest'' d1 = (Inr y, d2) \<longrightarrow>
         y = Some demo_record)"
proof -
  let ?run = "commit_publication demo_crates demo_rocks default_channel demo_artifact
      (demo_metadata\<lparr>eligible_at := 5\<rparr>) (Some (''latest'', demo_record)) Durable demo_published"
  have "fst ?run = Inr False"
    by (simp add: commit_publication_def blocking_def with_cf_def db_get_def map_err_def and_then_def
        demo_rocks_def demo_contents_def demo_published_rows record_result_def lift_result_def
        encode_record_def ok_def write_batch_def write_sync_def demo_reference_to_vec_def
        demo_record_def Let_def)
  then have run: "?run = (Inr False, snd ?run)" by (metis prod.collapse)
  have "db_inv demo_crates demo_rocks demo_published"
    using demo_published_good by (simp add: db_good_def)
  from commit_publication_atomic [OF this run] run show ?thesis by auto
qed

text \<open>
  Reclaim candidates are the oldest: a successful \<open>reclaim_candidates\<close> returns at most
  \<open>limit\<close> candidates in the order of their deadlines; each is the deadline and identity of
  a stored artifact of this channel; and an artifact of the channel that was not returned
  has a deadline at least as late as every one that was, and can only be missing when the
  limit was reached.
\<close>

theorem reclaim_candidates_oldest_first:
  assumes "db_good c r d" and "reclaim_candidates c r ch limit d = (Inr xs, d1)"
  shows "length xs \<le> limit \<and> sorted (map cand_eligible_at xs)
    \<and> (\<forall>x \<in> set xs. \<exists>md. artifacts (db_view c r d) (ch, cand_artifact x) = Some md
         \<and> eligible_at md = cand_eligible_at x)
    \<and> (\<forall>a md. artifacts (db_view c r d) (ch, a) = Some md \<longrightarrow> a \<notin> cand_artifact ` set xs \<longrightarrow>
         length xs = limit \<and> (\<forall>x \<in> set xs. cand_eligible_at x \<le> eligible_at md))"
proof (intro conjI)
  have good: "db_inv c r d" and ix: "indexed (db_view c r d)"
    using assms(1) by (auto simp: db_good_def)
  from effect_Inr [OF rocksdb.oldest good assms(2)] obtain ys where xs: "xs = take limit ys"
    and sorted: "sorted (map cand_eligible_at ys)"
    and ys: "set ys = {\<lparr>cand_eligible_at = t, cand_artifact = a\<rparr> | t a. (ch, t, a) \<in> queue (db_view c r d)}"
    and view: "db_view c r d1 = db_view c r d"
    by (auto simp: oldest_rows_def)
  show "length xs \<le> limit" by (simp add: xs)
  show "sorted (map cand_eligible_at xs)" using sorted by (simp add: xs take_map [symmetric] sorted_wrt_take)
  show "\<forall>x \<in> set xs. \<exists>md. artifacts (db_view c r d) (ch, cand_artifact x) = Some md
      \<and> eligible_at md = cand_eligible_at x"
    using rocksdb.candidate_live [OF _ assms(2)] good ix view by simp
  show "\<forall>a md. artifacts (db_view c r d) (ch, a) = Some md \<longrightarrow> a \<notin> cand_artifact ` set xs \<longrightarrow>
      length xs = limit \<and> (\<forall>x \<in> set xs. cand_eligible_at x \<le> eligible_at md)"
  proof (intro allI impI)
    fix a md
    assume a: "artifacts (db_view c r d) (ch, a) = Some md" "a \<notin> cand_artifact ` set xs"
    let ?x = "\<lparr>cand_eligible_at = eligible_at md, cand_artifact = a\<rparr>"
    have "?x \<in> set ys" using ix a(1) by (auto simp: ys indexed_def)
    moreover have "?x \<notin> set (take limit ys)" using a(2) xs by force
    ultimately have x: "?x \<in> set (drop limit ys)"
      by (metis Un_iff append_take_drop_id set_append)
    then have "limit < length ys" by (cases "limit < length ys") auto
    moreover have "cand_eligible_at y \<le> eligible_at md" if "y \<in> set xs" for y
      using sorted x that unfolding xs
      by (metis (no_types, lifting) Candidate.select_convs(1) append_take_drop_id map_append
          sorted_append image_eqI list.set_map)
    ultimately show "length xs = limit \<and> (\<forall>x \<in> set xs. cand_eligible_at x \<le> eligible_at md)"
      by (simp add: xs)
  qed
qed

lemma demo_candidates:
  "reclaim_candidates demo_crates demo_rocks default_channel 8 demo_published
    = (Inr [\<lparr>cand_eligible_at = 100, cand_artifact = demo_artifact\<rparr>], demo_published)"
proof -
  let ?k = "eviction_key demo_crates default_channel 100 demo_artifact"
  let ?p = "ChannelId_as_key demo_crates default_channel"
  have "?p \<le> ?k"
    using in_range_eviction [OF demo_ulid_ok, of default_channel default_channel 100 demo_artifact] by simp
  then have "demo_rows EVICTION ?p demo_published = [(?k, [])]"
    by (simp add: demo_rows_def demo_keys_def demo_published_rows demo_contents_def)
  moreover have "take (length ?p) ?k = ?p" by (simp add: eviction_key_def)
  ultimately show ?thesis
    by (simp add: reclaim_candidates_def blocking_def with_cf_def demo_rocks_def Let_def
        decode_eviction_key_encode [OF demo_ulid_ok])
qed

theorem reclaim_candidates_oldest_first_witness:
  "\<exists>md. artifacts (db_view demo_crates demo_rocks demo_published) (default_channel, demo_artifact) = Some md
     \<and> eligible_at md = 100"
  using reclaim_candidates_oldest_first [OF demo_published_good demo_candidates] by simp

text \<open>
  Deleting a channel's data removes every artifact record, reference and queue row of
  that channel and none of another channel: the key range from the channel's prefix to the
  incremented prefix is exactly the channel's rows. A failed deletion has removed all of
  them or nothing.
\<close>

lemma delete_channel_data_isolated:
  assumes "db_inv c r d" and "delete_channel_data c r ch d = (x, d1)"
  shows "(x = Inr () \<longrightarrow> db_view c r d1 = a_delete_data ch (db_view c r d))
    \<and> db_view c r d1 \<in> {db_view c r d, a_delete_data ch (db_view c r d)}
    \<and> (\<forall>ch' a. ch' \<noteq> ch \<longrightarrow> artifacts (db_view c r d1) (ch', a) = artifacts (db_view c r d) (ch', a))
    \<and> (\<forall>ch' n. ch' \<noteq> ch \<longrightarrow> references (db_view c r d1) (ch', n) = references (db_view c r d) (ch', n))
    \<and> channels (db_view c r d1) = channels (db_view c r d)"
proof -
  have "(x = Inr () \<longrightarrow> db_view c r d1 = a_delete_data ch (db_view c r d))
    \<and> db_view c r d1 \<in> {db_view c r d, a_delete_data ch (db_view c r d)}"
    using effect_Inr [OF rocksdb.purge assms(1)] effect_Inl [OF rocksdb.purge assms(1)] assms(2)
    by (cases x) auto
  then show ?thesis by (auto simp: a_delete_data_def)
qed

text \<open>
  The byte order of the queue rows of one channel is the order of their deadlines, with
  the artifact's digest deciding between equal ones, and a queue key reads back as the
  deadline and the artifact it was built from.
\<close>

theorem eviction_key_order_roundtrip:
  assumes "ulid_ok c"
  shows "(eviction_key c ch t a < eviction_key c ch t' a' \<longleftrightarrow>
      t < t' \<or> t = t' \<and> bytes_of32 (digest a) < bytes_of32 (digest a'))
    \<and> decode_eviction_key (eviction_key c ch t a) = Inr (t, a)"
proof -
  have "eviction_key c ch t a < eviction_key c ch t' a' \<longleftrightarrow>
      t < t' \<or> t = t' \<and> bytes_of32 (digest a) < bytes_of32 (digest a')"
  proof (cases t t' rule: linorder_cases)
    case equal
    then show ?thesis by (simp add: eviction_key_def lex_append_same)
  qed (use eviction_key_less [OF assms, of t t' ch a a'] eviction_key_less [OF assms, of t' t ch a' a]
      in \<open>auto dest: order.asym\<close>)
  then show ?thesis using decode_eviction_key_encode [OF assms] by simp
qed

theorem eviction_key_order_roundtrip_witness:
  "eviction_key demo_crates default_channel 255 demo_artifact
     < eviction_key demo_crates default_channel 256 (ArtifactId (array32 []))"
  using eviction_key_order_roundtrip [OF demo_ulid_ok, of default_channel 255 demo_artifact 256
      "ArtifactId (array32 [])"] by simp

end
