(* ===== verification/Space.thy ===== *)
theory Space
  imports Flywheel_Prelude "HOL-Library.Multiset"
begin

text \<open>
  The free-space ledger (\<open>src/cache/space.rs\<close>) and the \<open>Reserver\<close> interface it
  implements (\<open>src/storage/local/mod.rs\<close>). The mutex-guarded \<open>State\<close> is a record; every
  method is one function on the ledger. A free-space observation (\<open>statvfs\<close>) is an
  argument of \<open>refresh\<close>. The interface is the locale \<open>reserver\<close>; its laws are
  discharged for the ledger, and the step relation \<open>ledger_step\<close> interleaves any number
  of reservation holders with refreshes and mode queries.
\<close>

section \<open>The ledger\<close>

record SpacePolicy =
  low_watermark :: u64
  high_watermark :: u64
  emergency_headroom :: u64

datatype Mode = Normal | Reclaiming

record SpaceState =
  free_observed :: u64
  reserved :: u64
  committed_since :: u64
  degraded :: bool
  reclaiming :: bool

record SpaceLedger =
  policy :: SpacePolicy
  state :: SpaceState

record SpaceSnapshot =
  snap_free_observed :: u64
  snap_reserved :: u64
  snap_committed_since :: u64

definition refresh :: "u64 option \<Rightarrow> SpaceLedger \<Rightarrow> SpaceLedger" where
  "refresh observation l =
     (case observation of
        Some free \<Rightarrow> l\<lparr>state := (state l)\<lparr>free_observed := free, committed_since := 0, degraded := False\<rparr>\<rparr>
      | None \<Rightarrow> l\<lparr>state := (state l)\<lparr>degraded := True\<rparr>\<rparr>)"

definition SpaceLedger_new :: "u64 option \<Rightarrow> SpacePolicy \<Rightarrow> SpaceLedger" where
  "SpaceLedger_new observation p =
     refresh observation
       \<lparr>policy = p,
        state = \<lparr>free_observed = 0, reserved = 0, committed_since = 0, degraded = True,
                 reclaiming = False\<rparr>\<rparr>"

definition available_locked :: "SpaceLedger \<Rightarrow> u64" where
  "available_locked l =
     (let spoken_for =
            saturating_add (saturating_add (reserved (state l)) (committed_since (state l)))
              (emergency_headroom (policy l))
      in saturating_sub (free_observed (state l)) spoken_for)"

definition mode :: "SpaceLedger \<Rightarrow> Mode \<times> SpaceLedger" where
  "mode l =
     (let available = available_locked l
      in if reclaiming (state l)
         then if high_watermark (policy l) \<le> available
              then (Normal, l\<lparr>state := (state l)\<lparr>reclaiming := False\<rparr>\<rparr>)
              else (Reclaiming, l)
         else if available < low_watermark (policy l)
              then (Reclaiming, l\<lparr>state := (state l)\<lparr>reclaiming := True\<rparr>\<rparr>)
              else (Normal, l))"

definition ledger_degraded :: "SpaceLedger \<Rightarrow> bool" where
  "ledger_degraded l = degraded (state l)"

definition snapshot :: "SpaceLedger \<Rightarrow> SpaceSnapshot" where
  "snapshot l =
     \<lparr>snap_free_observed = free_observed (state l), snap_reserved = reserved (state l),
      snap_committed_since = committed_since (state l)\<rparr>"

definition ledger_try_reserve :: "u64 \<Rightarrow> SpaceLedger \<Rightarrow> bool \<times> SpaceLedger" where
  "ledger_try_reserve bytes l =
     (if degraded (state l) then (False, l)
      else if available_locked l < bytes then (False, l)
      else (True, l\<lparr>state := (state l)\<lparr>reserved := saturating_add (reserved (state l)) bytes\<rparr>\<rparr>))"

definition ledger_release :: "u64 \<Rightarrow> SpaceLedger \<Rightarrow> SpaceLedger" where
  "ledger_release bytes l =
     l\<lparr>state := (state l)\<lparr>reserved := saturating_sub (reserved (state l)) bytes\<rparr>\<rparr>"

definition ledger_commit :: "u64 \<Rightarrow> SpaceLedger \<Rightarrow> SpaceLedger" where
  "ledger_commit bytes l =
     l\<lparr>state := (state l)\<lparr>reserved := saturating_sub (reserved (state l)) bytes,
                          committed_since := saturating_add (committed_since (state l)) bytes\<rparr>\<rparr>"

text \<open>The trait object \<open>Arc<dyn Reserver>\<close> staging holds, and the ledger as one.\<close>

record 'l Reserver =
  try_reserve :: "u64 \<Rightarrow> 'l \<Rightarrow> bool \<times> 'l"
  release :: "u64 \<Rightarrow> 'l \<Rightarrow> 'l"
  commit :: "u64 \<Rightarrow> 'l \<Rightarrow> 'l"

definition ledger_reserver :: "SpaceLedger Reserver" where
  "ledger_reserver =
     \<lparr>try_reserve = ledger_try_reserve, release = ledger_release, commit = ledger_commit\<rparr>"

section \<open>The reservation interface\<close>

text \<open>
  What a client of \<open>Reserver\<close> relies on. \<open>held\<close> is the capacity reserved and not yet
  settled, \<open>spent\<close> the capacity committed since the last observation, \<open>lawful\<close> the
  provider's invariant.
\<close>

locale reserver =
  fixes R :: "'l Reserver"
    and held :: "'l \<Rightarrow> nat"
    and spent :: "'l \<Rightarrow> nat"
    and lawful :: "'l \<Rightarrow> bool"
  assumes reserve_granted: "lawful l \<Longrightarrow> try_reserve R b l = (True, l') \<Longrightarrow>
      lawful l' \<and> held l' = held l + unat b \<and> spent l' = spent l"
    and reserve_refused: "try_reserve R b l = (False, l') \<Longrightarrow> l' = l"
    and release_law: "lawful l \<Longrightarrow> unat b \<le> held l \<Longrightarrow>
      lawful (release R b l) \<and> held (release R b l) = held l - unat b
        \<and> spent (release R b l) = spent l"
    and commit_law: "lawful l \<Longrightarrow> unat b \<le> held l \<Longrightarrow>
      lawful (commit R b l) \<and> held (commit R b l) = held l - unat b
        \<and> spent (commit R b l) = spent l + unat b"
    and held_bound: "lawful l \<Longrightarrow> held l < 2 ^ 64"
begin

text \<open>Settling a granted reservation puts \<open>held\<close> back, whichever way it is settled.\<close>

lemma settle_release:
  assumes "lawful l" and "try_reserve R b l = (True, l')"
  shows "lawful (release R b l') \<and> held (release R b l') = held l \<and> spent (release R b l') = spent l"
proof -
  from reserve_granted [OF assms] have *: "lawful l'" "held l' = held l + unat b" "spent l' = spent l"
    by blast+
  then have "unat b \<le> held l'" by simp
  with release_law [OF *(1) this] * show ?thesis by simp
qed

text \<open>The bytes held and the bytes spent together are conserved by a commit.\<close>

lemma commit_conserves:
  assumes "lawful l" and "unat b \<le> held l"
  shows "held (commit R b l) + spent (commit R b l) = held l + spent l"
  using commit_law [OF assms] assms(2) by simp

end

section \<open>The ledger implements the interface\<close>

definition ledger_held :: "SpaceLedger \<Rightarrow> nat" where
  "ledger_held l = unat (reserved (state l))"

definition ledger_spent :: "SpaceLedger \<Rightarrow> nat" where
  "ledger_spent l = unat (committed_since (state l))"

text \<open>
  The ledger's invariant: reserved and committed bytes together fit in 64 bits, so the
  saturating operations never saturate.
\<close>

definition ledger_lawful :: "SpaceLedger \<Rightarrow> bool" where
  "ledger_lawful l \<longleftrightarrow> ledger_held l + ledger_spent l < 2 ^ 64"

lemmas ledger_view = ledger_held_def ledger_spent_def ledger_lawful_def

lemma ledger_lawful_new: "ledger_lawful (SpaceLedger_new obs p)"
  by (cases obs) (simp_all add: SpaceLedger_new_def refresh_def ledger_view)

lemma available_locked_nat:
  "unat (available_locked l) =
     unat (free_observed (state l)) -
       min (min (ledger_held l + ledger_spent l) (2 ^ 64 - 1)
             + unat (emergency_headroom (policy l))) (2 ^ 64 - 1)"
  by (simp add: available_locked_def ledger_view sat_simps)

lemma available_leI:
  assumes "bytes \<le> available_locked l" and "0 < unat bytes"
  shows "ledger_held l + ledger_spent l + unat (emergency_headroom (policy l)) + unat bytes
    \<le> unat (free_observed (state l))"
proof -
  have "unat (free_observed (state l)) < 2 ^ 64" using u64_less by simp
  with assms show ?thesis
    by (simp add: u64_le_nat available_locked_nat)
qed

lemma ledger_try_reserve_True:
  assumes "ledger_lawful l" and "ledger_try_reserve b l = (True, l')"
  shows "ledger_lawful l' \<and> ledger_held l' = ledger_held l + unat b
    \<and> ledger_spent l' = ledger_spent l"
proof (cases "unat b = 0")
  case True
  then have "b = 0" by (simp add: unat_eq_0)
  with assms show ?thesis
    by (auto simp: ledger_try_reserve_def ledger_view sat_simps split: if_splits)
next
  case False
  from assms(2) have le: "b \<le> available_locked l"
    and l': "l' = l\<lparr>state := (state l)\<lparr>reserved := saturating_add (reserved (state l)) b\<rparr>\<rparr>"
    by (auto simp: ledger_try_reserve_def split: if_splits)
  have "ledger_held l + ledger_spent l + unat b < 2 ^ 64"
    using available_leI [OF le] False u64_less [of "free_observed (state l)"] by simp
  then show ?thesis
    by (simp add: l' ledger_view sat_simps)
qed

lemma ledger_try_reserve_False: "ledger_try_reserve b l = (False, l') \<Longrightarrow> l' = l"
  by (auto simp: ledger_try_reserve_def split: if_splits)

lemma ledger_release_view:
  "ledger_lawful l \<Longrightarrow> unat b \<le> ledger_held l \<Longrightarrow>
    ledger_lawful (ledger_release b l) \<and> ledger_held (ledger_release b l) = ledger_held l - unat b
      \<and> ledger_spent (ledger_release b l) = ledger_spent l"
  by (simp add: ledger_release_def ledger_view sat_simps)

lemma ledger_commit_view:
  "ledger_lawful l \<Longrightarrow> unat b \<le> ledger_held l \<Longrightarrow>
    ledger_lawful (ledger_commit b l) \<and> ledger_held (ledger_commit b l) = ledger_held l - unat b
      \<and> ledger_spent (ledger_commit b l) = ledger_spent l + unat b"
  by (simp add: ledger_commit_def ledger_view sat_simps)

lemma ledger_held_bound: "ledger_held l < 18446744073709551616"
  using u64_less [of "reserved (state l)"] by (simp add: ledger_held_def)

interpretation ledger: reserver ledger_reserver ledger_held ledger_spent ledger_lawful
  by unfold_locales
    (simp_all add: ledger_reserver_def ledger_try_reserve_True ledger_try_reserve_False
      ledger_release_view ledger_commit_view ledger_held_bound)

section \<open>Reservation holders, refreshes and the disk\<close>

text \<open>
  The ledger shared by any number of reservation holders. \<open>grants\<close> are the reservations
  granted and not yet settled, \<open>disk_free\<close> is the free space the filesystem really has
  and \<open>sampled\<close> an observation \<open>refresh\<close> has read and not yet stored:
  \<open>refresh\<close> calls \<open>free_bytes\<close> before it takes the mutex, so the two halves are two
  steps. A holder settles by committing the bytes it wrote and releasing the rest, as
  \<open>Reservation::commit\<close> does; releasing everything is the case of no bytes written.
  Other programs and the deletion of bodies may change the free space to any value at any
  time, which \<open>undisturbed\<close> records, and the first observation may fail like any other.
\<close>

record ledger_sys =
  sys_ledger :: SpaceLedger
  grants :: "u64 multiset"
  disk_free :: u64
  sampled :: "u64 option"
  undisturbed :: bool

definition ledger_init :: "u64 \<Rightarrow> SpacePolicy \<Rightarrow> ledger_sys" where
  "ledger_init free p =
     \<lparr>sys_ledger = SpaceLedger_new (Some free) p, grants = {#}, disk_free = free, sampled = None,
      undisturbed = True\<rparr>"

inductive ledger_step :: "ledger_sys \<Rightarrow> ledger_sys \<Rightarrow> bool" where
  grant: "ledger_try_reserve b (sys_ledger s) = (True, l) \<Longrightarrow>
    ledger_step s (s\<lparr>sys_ledger := l, grants := add_mset b (grants s)\<rparr>)"
| refuse: "ledger_try_reserve b (sys_ledger s) = (False, l) \<Longrightarrow>
    ledger_step s (s\<lparr>sys_ledger := l\<rparr>)"
| settle: "b \<in># grants s \<Longrightarrow> c \<le> b \<Longrightarrow> c \<le> disk_free s \<Longrightarrow>
    ledger_step s (s\<lparr>sys_ledger := ledger_release (b - c) (ledger_commit c (sys_ledger s)),
      grants := grants s - {#b#}, disk_free := disk_free s - c\<rparr>)"
| disturb: "ledger_step s (s\<lparr>disk_free := free, undisturbed := False\<rparr>)"
| sample: "ledger_step s (s\<lparr>sampled := Some (disk_free s)\<rparr>)"
| store_sample: "sampled s = Some free \<Longrightarrow>
    ledger_step s (s\<lparr>sys_ledger := refresh (Some free) (sys_ledger s), sampled := None\<rparr>)"
| sample_failed: "ledger_step s (s\<lparr>sys_ledger := refresh None (sys_ledger s)\<rparr>)"
| query_mode: "mode (sys_ledger s) = (m, l) \<Longrightarrow> ledger_step s (s\<lparr>sys_ledger := l\<rparr>)"

inductive ledger_reachable :: "ledger_sys \<Rightarrow> bool" where
  start: "ledger_reachable (ledger_init free p)"
| start_blind: "ledger_reachable ((ledger_init free p)\<lparr>sys_ledger := SpaceLedger_new None p\<rparr>)"
| step: "ledger_reachable s \<Longrightarrow> ledger_step s t \<Longrightarrow> ledger_reachable t"

definition grants_total :: "ledger_sys \<Rightarrow> nat" where
  "grants_total s = (\<Sum>b\<in>#grants s. unat b)"

definition ledger_inv :: "ledger_sys \<Rightarrow> bool" where
  "ledger_inv s \<longleftrightarrow> ledger_lawful (sys_ledger s) \<and> ledger_held (sys_ledger s) = grants_total s"

lemma grants_total_remove:
  "b \<in># grants s \<Longrightarrow> grants_total s = unat b + (\<Sum>x\<in>#grants s - {#b#}. unat x)"
  unfolding grants_total_def by (metis insert_DiffM msed_map_invL sum_mset.insert image_mset_add_mset)

lemma refresh_lawful:
  "ledger_lawful l \<Longrightarrow> ledger_lawful (refresh obs l) \<and> ledger_held (refresh obs l) = ledger_held l"
  by (cases obs) (simp_all add: refresh_def ledger_view)

lemma mode_lawful:
  "mode l = (m, l') \<Longrightarrow> ledger_held l' = ledger_held l \<and> ledger_spent l' = ledger_spent l"
  by (auto simp: mode_def Let_def ledger_view split: if_splits)

lemma settle_inv:
  assumes inv: "ledger_inv s" and b: "b \<in># grants s" and "c \<le> b"
  shows "ledger_lawful (ledger_release (b - c) (ledger_commit c (sys_ledger s)))
    \<and> ledger_held (ledger_release (b - c) (ledger_commit c (sys_ledger s)))
        = (\<Sum>x\<in>#grants s - {#b#}. unat x)"
proof -
  have bc: "unat c + unat (b - c) = unat b"
    using \<open>c \<le> b\<close> by (simp add: u64_le_nat unat_sub)
  have held: "ledger_held (sys_ledger s) = unat b + (\<Sum>x\<in>#grants s - {#b#}. unat x)"
    using inv grants_total_remove [OF b] by (simp add: ledger_inv_def)
  have com: "ledger_lawful (ledger_commit c (sys_ledger s))"
    "ledger_held (ledger_commit c (sys_ledger s)) = ledger_held (sys_ledger s) - unat c"
    using ledger_commit_view [of "sys_ledger s" c] inv held bc by (auto simp: ledger_inv_def)
  then show ?thesis
    using ledger_release_view [of "ledger_commit c (sys_ledger s)" "b - c"] held bc by simp
qed

lemma ledger_step_inv: "ledger_step s t \<Longrightarrow> ledger_inv s \<Longrightarrow> ledger_inv t"
proof (induction rule: ledger_step.induct)
  case (grant b s l)
  then show ?case
    using ledger_try_reserve_True [of "sys_ledger s" b l] by (simp add: ledger_inv_def grants_total_def)
next
  case (refuse b s l)
  then show ?case
    using ledger_try_reserve_False [of b "sys_ledger s" l] by simp
next
  case (settle b s c)
  then show ?case
    using settle_inv [of s b c] by (simp add: ledger_inv_def grants_total_def)
next
  case (query_mode s m l)
  then show ?case
    using mode_lawful [of "sys_ledger s" m l] by (simp add: ledger_inv_def ledger_lawful_def grants_total_def)
qed (simp_all add: ledger_inv_def grants_total_def refresh_lawful)

lemma ledger_held_new: "ledger_held (SpaceLedger_new obs p) = 0"
  by (cases obs) (simp_all add: SpaceLedger_new_def refresh_def ledger_view)

lemma ledger_reachable_inv: "ledger_reachable s \<Longrightarrow> ledger_inv s"
proof (induction rule: ledger_reachable.induct)
  case (start free p)
  show ?case
    by (simp add: ledger_init_def ledger_inv_def grants_total_def ledger_lawful_new ledger_held_new)
next
  case (start_blind free p)
  show ?case
    by (simp add: ledger_init_def ledger_inv_def grants_total_def ledger_lawful_new ledger_held_new)
qed (rule ledger_step_inv)

section \<open>Properties\<close>

text \<open>
  C29. In every interleaving of reservation holders, settlements, refreshes, mode
  queries and changes of the free space by others, the ledger's \<open>reserved\<close> counter is exactly the sum of the reservations
  granted and not yet settled: capacity is neither leaked nor handed back twice, and the
  saturating operations never saturate.
\<close>

theorem reserved_is_outstanding:
  assumes "ledger_reachable s"
  shows "unat (reserved (state (sys_ledger s))) = grants_total s
    \<and> unat (reserved (state (sys_ledger s))) + unat (committed_since (state (sys_ledger s))) < 2 ^ 64"
  using ledger_reachable_inv [OF assms] by (simp add: ledger_inv_def ledger_view)

abbreviation demo_policy :: SpacePolicy where
  "demo_policy \<equiv> \<lparr>low_watermark = 10, high_watermark = 20, emergency_headroom = 5\<rparr>"

lemma demo_grant_step:
  "ledger_step (ledger_init 100 demo_policy)
     ((ledger_init 100 demo_policy)
        \<lparr>sys_ledger := snd (ledger_try_reserve 10 (sys_ledger (ledger_init 100 demo_policy))),
         grants := {#10#}\<rparr>)"
proof -
  have "ledger_try_reserve 10 (sys_ledger (ledger_init 100 demo_policy))
      = (True, snd (ledger_try_reserve 10 (sys_ledger (ledger_init 100 demo_policy))))"
    by (simp add: ledger_try_reserve_def ledger_init_def SpaceLedger_new_def refresh_def
        available_locked_def saturating_add_def saturating_sub_def)
  from ledger_step.grant [OF this] show ?thesis by (simp add: ledger_init_def)
qed

lemmas demo_grant_reachable = ledger_reachable.step [OF ledger_reachable.start demo_grant_step]

theorem reserved_is_outstanding_witness:
  "grants_total ((ledger_init 100 demo_policy)
     \<lparr>sys_ledger := snd (ledger_try_reserve 10 (sys_ledger (ledger_init 100 demo_policy))),
      grants := {#10#}\<rparr>) = 10
   \<and> unat (reserved (state (snd (ledger_try_reserve 10 (sys_ledger (ledger_init 100 demo_policy)))))) = 10"
  using reserved_is_outstanding [OF demo_grant_reachable] by (simp add: grants_total_def)

text \<open>
  A granted reservation is safe: whatever has happened before, the new reservation,
  all outstanding ones, the bytes committed since the observation and the emergency
  headroom together fit in the observed free space, in unbounded arithmetic.
\<close>

theorem grant_within_observed_free:
  assumes "ledger_reachable s" and "ledger_try_reserve b (sys_ledger s) = (True, l)" and "b \<noteq> 0"
  shows "grants_total s + unat b + unat (committed_since (state (sys_ledger s)))
      + unat (emergency_headroom (policy (sys_ledger s)))
    \<le> unat (free_observed (state (sys_ledger s)))
    \<and> \<not> degraded (state (sys_ledger s))"
proof -
  from assms(2) have "b \<le> available_locked (sys_ledger s)" and "\<not> degraded (state (sys_ledger s))"
    by (auto simp: ledger_try_reserve_def split: if_splits)
  moreover have "0 < unat b" using assms(3) by (simp add: unat_gt_0)
  ultimately show ?thesis
    using available_leI [of b "sys_ledger s"] ledger_reachable_inv [OF assms(1)]
    by (simp add: ledger_inv_def ledger_spent_def)
qed

theorem grant_within_observed_free_witness:
  "grants_total (ledger_init 100 demo_policy) + unat (10 :: u64) \<le> 95"
proof -
  have "ledger_try_reserve 10 (sys_ledger (ledger_init 100 demo_policy))
      = (True, snd (ledger_try_reserve 10 (sys_ledger (ledger_init 100 demo_policy))))"
    by (simp add: ledger_try_reserve_def ledger_init_def SpaceLedger_new_def refresh_def
        available_locked_def saturating_add_def saturating_sub_def)
  from grant_within_observed_free [OF ledger_reachable.start this] show ?thesis
    by (simp add: ledger_init_def SpaceLedger_new_def refresh_def)
qed

text \<open>
  Mode hysteresis: with the watermarks in the order configuration validation
  enforces, the reported mode is \<open>Reclaiming\<close> below the low watermark, \<open>Normal\<close> from
  the high watermark on, and between the two it is the mode reported last; the query
  changes nothing but that memory.
\<close>

lemma mode_hysteresis:
  assumes "low_watermark (policy l) \<le> high_watermark (policy l)"
  shows "fst (mode l) =
      (if available_locked l < low_watermark (policy l) then Reclaiming
       else if high_watermark (policy l) \<le> available_locked l then Normal
       else if reclaiming (state l) then Reclaiming else Normal)
    \<and> snd (mode l) = l\<lparr>state := (state l)\<lparr>reclaiming := (fst (mode l) = Reclaiming)\<rparr>\<rparr>"
proof -
  have "\<not> (available_locked l < low_watermark (policy l) \<and> high_watermark (policy l) \<le> available_locked l)"
    using assms by (auto simp: word_le_nat_alt word_less_nat_alt)
  moreover have "\<not> high_watermark (policy l) \<le> available_locked l" if "available_locked l < low_watermark (policy l)"
    using assms that by (auto simp: word_le_nat_alt word_less_nat_alt)
  ultimately show ?thesis
    by (auto simp: mode_def Let_def)
qed

text \<open>
  The observation in \<open>refresh\<close> is read before the ledger's mutex is taken, so a
  commit that lands in between is lost: there is a run, with nobody else writing to the
  disk, in which the ledger believes more space is free than the disk has, with no
  committed byte left on its books to make up for it (the comment on \<open>refresh\<close> says this
  cannot happen).
\<close>

theorem refresh_race_overestimates:
  "\<exists>s. ledger_reachable s \<and> undisturbed s \<and> sampled s = None \<and> \<not> degraded (state (sys_ledger s))
    \<and> unat (disk_free s) + unat (committed_since (state (sys_ledger s)))
        < unat (free_observed (state (sys_ledger s)))"
proof -
  let ?s1 = "(ledger_init 100 demo_policy)
     \<lparr>sys_ledger := snd (ledger_try_reserve 10 (sys_ledger (ledger_init 100 demo_policy))),
      grants := {#10#}\<rparr>"
  let ?s2 = "?s1\<lparr>sampled := Some (disk_free ?s1)\<rparr>"
  let ?s3 = "?s2\<lparr>sys_ledger := ledger_release (10 - 10) (ledger_commit 10 (sys_ledger ?s2)),
      grants := grants ?s2 - {#10#}, disk_free := disk_free ?s2 - 10\<rparr>"
  let ?s4 = "?s3\<lparr>sys_ledger := refresh (Some 100) (sys_ledger ?s3), sampled := None\<rparr>"
  have "ledger_reachable ?s2"
    by (rule ledger_reachable.step [OF demo_grant_reachable ledger_step.sample])
  moreover have "ledger_step ?s2 ?s3"
    by (rule ledger_step.settle) (simp_all add: ledger_init_def)
  moreover have "ledger_step ?s3 ?s4"
    by (rule ledger_step.store_sample) (simp add: ledger_init_def)
  ultimately have "ledger_reachable ?s4"
    by (blast intro: ledger_reachable.step)
  moreover have "unat (disk_free ?s4) + unat (committed_since (state (sys_ledger ?s4)))
      < unat (free_observed (state (sys_ledger ?s4)))"
    by (simp add: ledger_init_def refresh_def)
  moreover have "undisturbed ?s4 \<and> sampled ?s4 = None \<and> \<not> degraded (state (sys_ledger ?s4))"
    by (simp add: refresh_def ledger_init_def)
  ultimately show ?thesis by blast
qed

end
