(* ===== verification/Local_Files.thy ===== *)
theory Local_Files
  imports Domain Space
begin

text \<open>
  Artifact bodies on disk (\<open>src/storage/local/artifact_files.rs\<close>): reservations that are
  held across staging and publication, staging of a stream into a temporary file, the
  rename into the content-addressed path, removal, and the recovery scans. The file
  system and the zstd encoder are not part of the repository: the calls the code makes
  are fields of the record \<open>fs\<close> over an opaque state \<open>'f\<close>, and what the code relies on is
  \<open>fs_ok\<close>.
\<close>

section \<open>The file system\<close>

type_synonym Path = "string list"

datatype FileType = RegularFile | Directory | OtherType

text \<open>
  \<open>files\<close>, \<open>dirs\<close>, \<open>accepted\<close>, \<open>data_synced\<close> and \<open>entry_synced\<close> are not operations: they
  say what the file system holds, which bytes an open writer has taken, and which files
  and directory entries have been flushed. An opened file stands for the bytes a reader of
  the handle gets; bodies are never written in place. \<open>zstd_frame\<close> is what the encoder leaves in a
  file it wrote and \<open>zstd_decode\<close> what a decoder makes of it.
\<close>

record 'f fs =
  files :: "'f \<Rightarrow> Path \<Rightarrow> bytes option"
  dirs :: "'f \<Rightarrow> Path \<Rightarrow> bool"
  accepted :: "'f \<Rightarrow> Path \<Rightarrow> bytes"
  data_synced :: "'f \<Rightarrow> Path set"
  entry_synced :: "'f \<Rightarrow> Path set"
  create_dir_all :: "Path \<Rightarrow> ('f, IoError, unit) act"
  create_new :: "Path \<Rightarrow> ('f, IoError, unit) act"
  file_write_all :: "Path \<Rightarrow> bytes \<Rightarrow> ('f, IoError, unit) act"
  file_flush :: "Path \<Rightarrow> ('f, IoError, unit) act"
  encoder_write_all :: "Path \<Rightarrow> bytes \<Rightarrow> ('f, IoError, unit) act"
  encoder_shutdown :: "Path \<Rightarrow> ('f, IoError, unit) act"
  file_len :: "Path \<Rightarrow> ('f, IoError, u64) act"
  file_sync_all :: "Path \<Rightarrow> ('f, IoError, unit) act"
  try_exists :: "Path \<Rightarrow> ('f, IoError, bool) act"
  remove_file :: "Path \<Rightarrow> ('f, IoError, unit) act"
  rename :: "Path \<Rightarrow> Path \<Rightarrow> ('f, IoError, unit) act"
  sync_directory :: "Path \<Rightarrow> ('f, LocalError, unit) act"
  metadata_is_dir :: "Path \<Rightarrow> ('f, IoError, bool) act"
  read_dir :: "Path \<Rightarrow> ('f, IoError, (IoError + string) list) act"
  file_type :: "Path \<Rightarrow> ('f, IoError, FileType) act"
  open_file :: "Path \<Rightarrow> ('f, IoError, bytes) act"
  remove_dir_all :: "Path \<Rightarrow> ('f, IoError, unit) act"
  ulid_new :: "'f \<Rightarrow> Ulid \<times> 'f"
  zstd_frame :: "bytes \<Rightarrow> bytes"
  zstd_decode :: "bytes \<Rightarrow> bytes option"

record ('f, 'l) local_world =
  disk :: 'f
  space :: 'l

definition on_disk :: "('f, 'e, 'a) act \<Rightarrow> (('f, 'l, 'm) local_world_scheme, 'e, 'a) act" where
  "on_disk m = (\<lambda>w. case m (disk w) of (x, f) \<Rightarrow> (x, w\<lparr>disk := f\<rparr>))"

definition io :: "('f, IoError, 'a) act \<Rightarrow> (('f, 'l, 'm) local_world_scheme, LocalError, 'a) act" where
  "io m = map_err Io (on_disk m)"

section \<open>Reservations\<close>

record ArtifactFiles =
  root :: Path
  reservation_extent :: u64

datatype ReservationState = Vacant | Temporary Path | Published

record Reservation =
  outstanding :: u64
  reservation_state :: ReservationState

text \<open>A \<open>PendingSettlement\<close> is the number of bytes it still has to settle.\<close>

type_synonym PendingSettlement = u64

definition on_space :: "('l \<Rightarrow> 'l) \<Rightarrow> ('f, 'l, 'm) local_world_scheme \<Rightarrow> ('f, 'l, 'm) local_world_scheme" where
  "on_space g w = w\<lparr>space := g (space w)\<rparr>"

definition settlement_release where
  "settlement_release R settlement w = on_space (release R settlement) w"

definition settlement_commit where
  "settlement_commit R settlement w = on_space (commit R settlement) w"

definition settlement_drop where
  "settlement_drop R settlement w = (if settlement > 0 then on_space (commit R settlement) w else w)"

definition settle_removal where
  "settle_removal R result settlement w =
     (case result of
        Inr _ \<Rightarrow> settlement_release R settlement w
      | Inl IoNotFound \<Rightarrow> settlement_release R settlement w
      | Inl _ \<Rightarrow> settlement_commit R settlement w)"

text \<open>
  The spawned task may run to its end, or be cancelled by the shutdown of the runtime
  before the removal or between the removal and its settlement; without a runtime the
  settlement commits at once.
\<close>

datatype task_fate = NoRuntime | RunsToEnd | CancelledBefore | CancelledAfter

definition schedule_removal where
  "schedule_removal F R fate path settlement w =
     (case fate of
        NoRuntime \<Rightarrow> settlement_commit R settlement w
      | RunsToEnd \<Rightarrow> (case on_disk (remove_file F path) w of
                       (result, w') \<Rightarrow> settle_removal R result settlement w')
      | CancelledBefore \<Rightarrow> settlement_drop R settlement w
      | CancelledAfter \<Rightarrow> (case on_disk (remove_file F path) w of
                            (_, w') \<Rightarrow> settlement_drop R settlement w'))"

definition Reservation_new :: Reservation where
  "Reservation_new = \<lparr>outstanding = 0, reservation_state = Vacant\<rparr>"

definition reserve ::
  "'l Reserver \<Rightarrow> u64 \<Rightarrow> Reservation \<Rightarrow> ('f, 'l, 'm) local_world_scheme \<Rightarrow>
    bool \<times> Reservation \<times> ('f, 'l, 'm) local_world_scheme" where
  "reserve R bs res w =
     (if bs = 0 then (True, res\<lparr>outstanding := saturating_add (outstanding res) bs\<rparr>, w)
      else case try_reserve R bs (space w) of
        (True, l) \<Rightarrow> (True, res\<lparr>outstanding := saturating_add (outstanding res) bs\<rparr>, w\<lparr>space := l\<rparr>)
      | (False, l) \<Rightarrow> (False, res, w\<lparr>space := l\<rparr>))"

definition reservation_commit where
  "reservation_commit R bs res w =
     (let committed = min bs (outstanding res);
          w1 = on_space (commit R committed) w;
          slack = outstanding res - committed
      in if slack > 0 then on_space (release R slack) w1 else w1)"

definition discard where
  "discard F R res w =
     (let settlement = outstanding res in
      case reservation_state res of
        Vacant \<Rightarrow> settlement_release R settlement w
      | Temporary path \<Rightarrow> (case on_disk (remove_file F path) w of
                            (result, w') \<Rightarrow> settle_removal R result settlement w')
      | Published \<Rightarrow> settlement_commit R settlement w)"

definition is_temporary :: "ReservationState \<Rightarrow> bool" where
  "is_temporary s = (case s of Temporary _ \<Rightarrow> True | _ \<Rightarrow> False)"

definition reservation_drop where
  "reservation_drop F R fate res w =
     (if outstanding res = 0 \<and> \<not> is_temporary (reservation_state res) then w
      else
        let settlement = outstanding res in
        case reservation_state res of
          Vacant \<Rightarrow> settlement_release R settlement w
        | Published \<Rightarrow> settlement_commit R settlement w
        | Temporary path \<Rightarrow> schedule_removal F R fate path settlement w)"

section \<open>Staging\<close>

record StagedArtifact =
  staged_path :: Path
  staged_digest :: Digest
  staged_len :: u64
  staged_stored_len :: u64
  staged_encoding :: StoredEncoding
  staged_reservation :: Reservation

datatype FilePublication = Created Reservation | Existing Reservation

datatype 's StageOutcome = Ready StagedArtifact | Rejected 's

datatype StageWriter = IdentityWriter Path | ZstdWriter Path

definition StageWriter_new :: "Path \<Rightarrow> StoredEncoding \<Rightarrow> StageWriter" where
  "StageWriter_new file enc = (case enc of Identity \<Rightarrow> IdentityWriter file | Zstd \<Rightarrow> ZstdWriter file)"

definition writer_write_all :: "'f fs \<Rightarrow> StageWriter \<Rightarrow> bytes \<Rightarrow> ('f, IoError, unit) act" where
  "writer_write_all F writer chunk =
     (case writer of
        IdentityWriter file \<Rightarrow> file_write_all F file chunk
      | ZstdWriter file \<Rightarrow> encoder_write_all F file chunk)"

definition writer_finish :: "'f fs \<Rightarrow> StageWriter \<Rightarrow> ('f, IoError, Path) act" where
  "writer_finish F writer =
     (case writer of
        IdentityWriter file \<Rightarrow> and_then (file_flush F file) (\<lambda>_. ok file)
      | ZstdWriter file \<Rightarrow> and_then (encoder_shutdown F file) (\<lambda>_. ok file))"

definition ArtifactFiles_open ::
  "'f fs \<Rightarrow> Path \<Rightarrow> u64 \<Rightarrow> (('f, 'l, 'm) local_world_scheme, LocalError, ArtifactFiles) act" where
  "ArtifactFiles_open F dir extent =
     and_then (io (create_dir_all F dir)) (\<lambda>_. ok \<lparr>root = dir, reservation_extent = max extent 1\<rparr>)"

definition channel_dir :: "crates \<Rightarrow> ArtifactFiles \<Rightarrow> ChannelId \<Rightarrow> Path" where
  "channel_dir c A channel = root A @ [ChannelId_display c channel]"

definition artifact_path :: "crates \<Rightarrow> ArtifactFiles \<Rightarrow> ChannelId \<Rightarrow> ArtifactId \<Rightarrow> Path" where
  "artifact_path c A channel artifact =
     (let d = Digest_display c (digest artifact)
      in channel_dir c A channel @ [''sha256'', take 2 d, take 2 (drop 2 d), d])"

text \<open>
  The state of a staging operation is its reservation, borrowed mutably, and the world.
\<close>

type_synonym ('f, 'l, 'm) staging = "Reservation \<times> ('f, 'l, 'm) local_world_scheme"

definition on_world :: "('w, 'e, 'a) act \<Rightarrow> ('r \<times> 'w, 'e, 'a) act" where
  "on_world m = (\<lambda>(res, w). case m w of (x, w') \<Rightarrow> (x, res, w'))"

definition mark :: "ReservationState \<Rightarrow> (('f, 'l, 'm) staging, LocalError, unit) act" where
  "mark s = modify (\<lambda>(res, w). (res\<lparr>reservation_state := s\<rparr>, w))"

definition reserve_or_fail :: "'l Reserver \<Rightarrow> u64 \<Rightarrow> (('f, 'l, 'm) staging, LocalError, unit) act" where
  "reserve_or_fail R bs =
     (\<lambda>(res, w). case reserve R bs res w of
        (True, res', w') \<Rightarrow> (Inr (), res', w')
      | (False, res', w') \<Rightarrow> (Inl OutOfSpace, res', w'))"

lemma saturating_extends:
  assumes "extent \<noteq> 0" and "outstanding res < len"
  shows "unat len - unat (saturating_add (outstanding res) extent) < unat len - unat (outstanding res)"
proof -
  have "0 < unat extent" using assms(1) by (simp add: unat_gt_0)
  moreover have "unat (outstanding res) < unat len" using assms(2) by (simp add: word_less_nat_alt)
  moreover have "unat len < 2 ^ 64" using u64_less [of len] by simp
  ultimately show ?thesis
    using unat_saturating_add [of "outstanding res" extent] by auto
qed

text \<open>
  The inner loop extends the reservation by one extent at a time until it covers \<open>len\<close>.
  An extent of zero would let it run forever; \<open>ArtifactFiles_open\<close> makes the extent at
  least one, so the first branch is never taken for an opened store.
\<close>

function reserve_until :: "'l Reserver \<Rightarrow> u64 \<Rightarrow> u64 \<Rightarrow> (('f, 'l, 'm) staging, LocalError, unit) act" where
  "reserve_until R extent len (res, w) =
     (if extent = 0 then (Inl OutOfSpace, res, w)
      else if len > outstanding res then
        (case reserve R extent res w of
           (True, res', w') \<Rightarrow> reserve_until R extent len (res', w')
         | (False, res', w') \<Rightarrow> (Inl OutOfSpace, res', w'))
      else (Inr (), res, w))"
  by pat_completeness auto
termination
  by (relation "measure (\<lambda>(R, extent, len, res, w). unat len - unat (outstanding res))")
    (auto simp: reserve_def saturating_extends split: if_splits prod.splits bool.splits)

declare reserve_until.simps [simp del]

fun stage_chunks ::
  "'f fs \<Rightarrow> 'l Reserver \<Rightarrow> u64 \<Rightarrow> StageWriter \<Rightarrow> u64 \<Rightarrow> bytes \<Rightarrow> u64 \<Rightarrow> (string + bytes) list \<Rightarrow>
    (('f, 'l, 'm) staging, LocalError, bytes \<times> u64) act" where
  "stage_chunks F R extent writer max_bytes hasher len [] = ok (hasher, len)"
| "stage_chunks F R extent writer max_bytes hasher len (Inl error # stream) = throw (Stream error)"
| "stage_chunks F R extent writer max_bytes hasher len (Inr chunk # stream) =
     (case checked_add len (of_nat (length chunk)) of
        None \<Rightarrow> throw TooLarge
      | Some len' \<Rightarrow>
          if len' > max_bytes then throw TooLarge
          else and_then (reserve_until R extent len') (\<lambda>_.
               and_then (on_world (io (writer_write_all F writer chunk))) (\<lambda>_.
               stage_chunks F R extent writer max_bytes (hasher @ chunk) len' stream)))"

definition temporary_path :: "crates \<Rightarrow> ArtifactFiles \<Rightarrow> ChannelId \<Rightarrow> Ulid \<Rightarrow> Path" where
  "temporary_path c A channel u = channel_dir c A channel @ [''tmp'', ulid_to_str c u @ ''.part'']"

definition fresh_ulid :: "'f fs \<Rightarrow> (('f, 'l, 'm) local_world_scheme, LocalError, Ulid) act" where
  "fresh_ulid F = on_disk (\<lambda>f. case ulid_new F f of (u, f') \<Rightarrow> (Inr u, f'))"

definition stored_length ::
  "'f fs \<Rightarrow> StoredEncoding \<Rightarrow> u64 \<Rightarrow> Path \<Rightarrow> (('f, 'l, 'm) staging, LocalError, u64) act" where
  "stored_length F enc len file =
     (case enc of Identity \<Rightarrow> ok len | Zstd \<Rightarrow> on_world (io (file_len F file)))"

definition cover_stored :: "'l Reserver \<Rightarrow> u64 \<Rightarrow> (('f, 'l, 'm) staging, LocalError, unit) act" where
  "cover_stored R stored =
     (\<lambda>(res, w). if stored > outstanding res
                then reserve_or_fail R (stored - outstanding res) (res, w)
                else (Inr (), res, w))"

definition sync_body :: "'f fs \<Rightarrow> Durability \<Rightarrow> Path \<Rightarrow> (('f, 'l, 'm) staging, LocalError, unit) act" where
  "sync_body F durability file =
     (if durability = Durable then on_world (io (file_sync_all F file)) else ok ())"

definition stage_reserved ::
  "crates \<Rightarrow> 'f fs \<Rightarrow> 'l Reserver \<Rightarrow> ArtifactFiles \<Rightarrow> ChannelId \<Rightarrow> (string + bytes) list \<Rightarrow> u64 \<Rightarrow>
    Durability \<Rightarrow> StoredEncoding \<Rightarrow>
    (('f, 'l, 'm) staging, LocalError, Path \<times> Digest \<times> u64 \<times> u64) act" where
  "stage_reserved c F R A channel stream max_bytes durability enc =
     and_then (on_world (io (create_dir_all F (channel_dir c A channel @ [''tmp''])))) (\<lambda>_.
     and_then (on_world (fresh_ulid F)) (\<lambda>u.
     let path = temporary_path c A channel u in
     and_then (mark (Temporary path)) (\<lambda>_.
     and_then (on_world (io (create_new F path))) (\<lambda>_.
     let writer = StageWriter_new path enc in
     and_then (stage_chunks F R (reservation_extent A) writer max_bytes [] 0 stream) (\<lambda>(hasher, len).
     and_then (on_world (io (writer_finish F writer))) (\<lambda>file.
     and_then (stored_length F enc len file) (\<lambda>stored_len.
     and_then (cover_stored R stored_len) (\<lambda>_.
     and_then (sync_body F durability file) (\<lambda>_.
     ok (path, Sha256_digest c hasher, len, stored_len))))))))))"

definition stage ::
  "crates \<Rightarrow> 'f fs \<Rightarrow> 'l Reserver \<Rightarrow> ArtifactFiles \<Rightarrow> ChannelId \<Rightarrow> (string + bytes) list \<Rightarrow> u64 \<Rightarrow>
    u64 option \<Rightarrow> Durability \<Rightarrow> StoredEncoding \<Rightarrow>
    (('f, 'l, 'm) local_world_scheme, LocalError, (string + bytes) list StageOutcome) act" where
  "stage c F R A channel stream max_bytes content_length durability enc =
     (\<lambda>w. let initial = (case content_length of
                         Some declared \<Rightarrow> min declared max_bytes | None \<Rightarrow> reservation_extent A)
          in case reserve R initial Reservation_new w of
               (False, _, w1) \<Rightarrow> (Inr (Rejected stream), w1)
             | (True, res, w1) \<Rightarrow>
                 (case stage_reserved c F R A channel stream max_bytes durability enc (res, w1) of
                    (Inl error, res', w2) \<Rightarrow> (Inl error, discard F R res' w2)
                  | (Inr (path, d, len, stored), res', w2) \<Rightarrow>
                      (Inr (Ready \<lparr>staged_path = path, staged_digest = d, staged_len = len,
                                   staged_stored_len = stored, staged_encoding = enc,
                                   staged_reservation = res'\<rparr>), w2)))"

section \<open>Publication\<close>

definition sync_parent :: "'f fs \<Rightarrow> Durability \<Rightarrow> Path \<Rightarrow> (('f, 'l, 'm) staging, LocalError, unit) act" where
  "sync_parent F durability parent =
     (if durability = Durable then on_world (on_disk (sync_directory F parent)) else ok ())"

definition publish_reserved ::
  "crates \<Rightarrow> 'f fs \<Rightarrow> ArtifactFiles \<Rightarrow> ChannelId \<Rightarrow> ArtifactId \<Rightarrow> Path \<Rightarrow> Digest \<Rightarrow> Durability \<Rightarrow>
    (('f, 'l, 'm) staging, LocalError, bool) act" where
  "publish_reserved c F A channel artifact staged d durability =
     (if d \<noteq> digest artifact then throw DigestMismatch
      else
        let final_path = artifact_path c A channel artifact; parent = butlast final_path;
            already_published =
              and_then (on_world (io (remove_file F staged))) (\<lambda>_.
              and_then (mark Vacant) (\<lambda>_. ok False))
        in
        and_then (on_world (io (create_dir_all F parent))) (\<lambda>_.
        and_then (on_world (io (try_exists F final_path))) (\<lambda>present.
        if present then already_published
        else outcome (on_world (on_disk (rename F staged final_path))) (\<lambda>renamed.
          case renamed of
            Inl IoAlreadyExists \<Rightarrow> already_published
          | Inl error \<Rightarrow> throw (Io error)
          | Inr _ \<Rightarrow>
              and_then (mark Published) (\<lambda>_.
              and_then (sync_parent F durability parent) (\<lambda>_. ok True))))))"

definition publish_file ::
  "crates \<Rightarrow> 'f fs \<Rightarrow> 'l Reserver \<Rightarrow> ArtifactFiles \<Rightarrow> ChannelId \<Rightarrow> ArtifactId \<Rightarrow> StagedArtifact \<Rightarrow>
    Durability \<Rightarrow> (('f, 'l, 'm) local_world_scheme, LocalError, FilePublication) act" where
  "publish_file c F R A channel artifact staged durability =
     (\<lambda>w. case publish_reserved c F A channel artifact (staged_path staged) (staged_digest staged)
               durability (staged_reservation staged, w) of
             (Inl error, res, w') \<Rightarrow> (Inl error, discard F R res w')
           | (Inr created, res, w') \<Rightarrow> (Inr (if created then Created res else Existing res), w'))"

section \<open>Removal and recovery\<close>

definition files_health :: "'f fs \<Rightarrow> ArtifactFiles \<Rightarrow> (('f, 'l, 'm) local_world_scheme, LocalError, unit) act" where
  "files_health F A =
     and_then (io (metadata_is_dir F (root A))) (\<lambda>is_dir.
       if \<not> is_dir then throw (Io (IoOther ''artifact root is not a directory'')) else ok ())"

definition ignore_not_found :: "('w, IoError, unit) act \<Rightarrow> ('w, LocalError, unit) act" where
  "ignore_not_found m =
     outcome m (\<lambda>result. case result of
         Inr _ \<Rightarrow> ok () | Inl IoNotFound \<Rightarrow> ok () | Inl error \<Rightarrow> throw (Io error))"

definition remove_body ::
  "crates \<Rightarrow> 'f fs \<Rightarrow> ArtifactFiles \<Rightarrow> ChannelId \<Rightarrow> ArtifactId \<Rightarrow>
    (('f, 'l, 'm) local_world_scheme, LocalError, unit) act" where
  "remove_body c F A channel artifact =
     ignore_not_found (on_disk (remove_file F (artifact_path c A channel artifact)))"

definition remove_channel ::
  "crates \<Rightarrow> 'f fs \<Rightarrow> ArtifactFiles \<Rightarrow> ChannelId \<Rightarrow> (('f, 'l, 'm) local_world_scheme, LocalError, unit) act" where
  "remove_channel c F A channel =
     ignore_not_found (on_disk (remove_dir_all F (root A @ [ChannelId_display c channel])))"

text \<open>\<open>read_dir\<close> with the code's treatment of a missing directory.\<close>

definition read_dir_or ::
  "'f fs \<Rightarrow> Path \<Rightarrow> 'a \<Rightarrow> ((IoError + string) list \<Rightarrow> (('f, 'l, 'm) local_world_scheme, LocalError, 'a) act) \<Rightarrow>
    (('f, 'l, 'm) local_world_scheme, LocalError, 'a) act" where
  "read_dir_or F path missing body =
     outcome (on_disk (read_dir F path)) (\<lambda>result. case result of
         Inr entries \<Rightarrow> body entries
       | Inl IoNotFound \<Rightarrow> ok missing
       | Inl error \<Rightarrow> throw (Io error))"

fun remove_plain_files ::
  "'f fs \<Rightarrow> Path \<Rightarrow> (IoError + string) list \<Rightarrow> (('f, 'l, 'm) local_world_scheme, LocalError, unit) act" where
  "remove_plain_files F directory [] = ok ()"
| "remove_plain_files F directory (Inl error # entries) = throw (Io error)"
| "remove_plain_files F directory (Inr name # entries) =
     and_then (io (file_type F (directory @ [name]))) (\<lambda>kind.
     and_then (if kind = RegularFile then io (remove_file F (directory @ [name])) else ok ()) (\<lambda>_.
     remove_plain_files F directory entries))"

fun clean_channels ::
  "'f fs \<Rightarrow> ArtifactFiles \<Rightarrow> (IoError + string) list \<Rightarrow> (('f, 'l, 'm) local_world_scheme, LocalError, unit) act" where
  "clean_channels F A [] = ok ()"
| "clean_channels F A (Inl error # entries) = throw (Io error)"
| "clean_channels F A (Inr name # entries) =
     (let directory = root A @ [name, ''tmp''] in
      and_then (read_dir_or F directory () (remove_plain_files F directory)) (\<lambda>_.
      clean_channels F A entries))"

definition remove_temporary_files ::
  "'f fs \<Rightarrow> ArtifactFiles \<Rightarrow> (('f, 'l, 'm) local_world_scheme, LocalError, unit) act" where
  "remove_temporary_files F A = read_dir_or F (root A) () (clean_channels F A)"

text \<open>
  The three nested loops of \<open>scan_channel_files\<close>. Each returns the artifacts found so far
  and whether the function has returned because the limit was reached.
\<close>

type_synonym found = "(ChannelId \<times> ArtifactId) list"

fun scan_files ::
  "crates \<Rightarrow> 'f fs \<Rightarrow> ChannelId \<Rightarrow> nat \<Rightarrow> Path \<Rightarrow> found \<Rightarrow> (IoError + string) list \<Rightarrow>
    (('f, 'l, 'm) local_world_scheme, LocalError, found \<times> bool) act" where
  "scan_files c F channel limit directory found [] = ok (found, False)"
| "scan_files c F channel limit directory found (Inl error # entries) = throw (Io error)"
| "scan_files c F channel limit directory found (Inr name # entries) =
     (if length found \<ge> limit then ok (found, True)
      else and_then (io (file_type F (directory @ [name]))) (\<lambda>kind.
        if kind \<noteq> RegularFile then scan_files c F channel limit directory found entries
        else scan_files c F channel limit directory
               (case ArtifactId_parse c ''sha256'' name of
                  Inr artifact \<Rightarrow> found @ [(channel, artifact)] | Inl _ \<Rightarrow> found) entries))"

fun scan_subprefixes ::
  "crates \<Rightarrow> 'f fs \<Rightarrow> ChannelId \<Rightarrow> nat \<Rightarrow> Path \<Rightarrow> found \<Rightarrow> (IoError + string) list \<Rightarrow>
    (('f, 'l, 'm) local_world_scheme, LocalError, found \<times> bool) act" where
  "scan_subprefixes c F channel limit directory found [] = ok (found, False)"
| "scan_subprefixes c F channel limit directory found (Inl error # entries) = throw (Io error)"
| "scan_subprefixes c F channel limit directory found (Inr name # entries) =
     (if length found \<ge> limit then ok (found, True)
      else and_then (io (file_type F (directory @ [name]))) (\<lambda>kind.
        if kind \<noteq> Directory then scan_subprefixes c F channel limit directory found entries
        else and_then (io (read_dir F (directory @ [name]))) (\<lambda>inner.
             and_then (scan_files c F channel limit (directory @ [name]) found inner) (\<lambda>(found', stop).
             if stop then ok (found', True)
             else scan_subprefixes c F channel limit directory found' entries))))"

fun scan_prefixes ::
  "crates \<Rightarrow> 'f fs \<Rightarrow> ChannelId \<Rightarrow> nat \<Rightarrow> Path \<Rightarrow> found \<Rightarrow> (IoError + string) list \<Rightarrow>
    (('f, 'l, 'm) local_world_scheme, LocalError, found \<times> bool) act" where
  "scan_prefixes c F channel limit directory found [] = ok (found, False)"
| "scan_prefixes c F channel limit directory found (Inl error # entries) = throw (Io error)"
| "scan_prefixes c F channel limit directory found (Inr name # entries) =
     (if length found \<ge> limit then ok (found, True)
      else and_then (io (file_type F (directory @ [name]))) (\<lambda>kind.
        if kind \<noteq> Directory then scan_prefixes c F channel limit directory found entries
        else and_then (io (read_dir F (directory @ [name]))) (\<lambda>inner.
             and_then (scan_subprefixes c F channel limit (directory @ [name]) found inner) (\<lambda>(found', stop).
             if stop then ok (found', True)
             else scan_prefixes c F channel limit directory found' entries))))"

definition scan_channel_files ::
  "crates \<Rightarrow> 'f fs \<Rightarrow> ChannelId \<Rightarrow> Path \<Rightarrow> nat \<Rightarrow> found \<Rightarrow>
    (('f, 'l, 'm) local_world_scheme, LocalError, found) act" where
  "scan_channel_files c F channel sha256_dir limit found =
     read_dir_or F sha256_dir found (\<lambda>entries.
       and_then (scan_prefixes c F channel limit sha256_dir found entries) (\<lambda>(found', _). ok found'))"

fun scan_channels ::
  "crates \<Rightarrow> 'f fs \<Rightarrow> ArtifactFiles \<Rightarrow> nat \<Rightarrow> found \<Rightarrow> (IoError + string) list \<Rightarrow>
    (('f, 'l, 'm) local_world_scheme, LocalError, found) act" where
  "scan_channels c F A limit found [] = ok found"
| "scan_channels c F A limit found (Inl error # entries) = throw (Io error)"
| "scan_channels c F A limit found (Inr name # entries) =
     (if length found \<ge> limit then ok found
      else and_then (io (file_type F (root A @ [name]))) (\<lambda>kind.
        if kind \<noteq> Directory then scan_channels c F A limit found entries
        else case ChannelId_from_str c name of
               None \<Rightarrow> throw (InvalidChannelDirectory name)
             | Some channel \<Rightarrow>
                 and_then (scan_channel_files c F channel (root A @ [name, ''sha256'']) limit found)
                   (\<lambda>found'. scan_channels c F A limit found' entries)))"

definition orphan_scan ::
  "crates \<Rightarrow> 'f fs \<Rightarrow> ArtifactFiles \<Rightarrow> nat \<Rightarrow> (('f, 'l, 'm) local_world_scheme, LocalError, found) act" where
  "orphan_scan c F A limit = read_dir_or F (root A) [] (scan_channels c F A limit [])"

end
