(* ===== verification/Staging.thy ===== *)
theory Staging
  imports Local_Files
begin

text \<open>
  What staging and publication of bodies guarantee: capacity is conserved on every path,
  it is released only when the temporary file is gone, a staged file holds the body its
  digest names, and a publication leaves the content-addressed path with such a body.
  Client lemmas about capacity are proved in the locale \<open>reserver\<close>; they reach the code's
  ledger through its interpretation.
\<close>

section \<open>What the code relies on of the file system\<close>

definition frame :: "'f fs \<Rightarrow> Path set \<Rightarrow> ('f, 'e, 'a) act \<Rightarrow> bool" where
  "frame F P m \<longleftrightarrow> (\<forall>f x f'. m f = (x, f') \<longrightarrow> (\<forall>q. q \<notin> P \<longrightarrow> files F f' q = files F f q))"

text \<open>
  An operation touches only the files it names. A writer hands what it accepted to the
  file when it is flushed, a zstd writer as one frame. \<open>remove_file\<close> and \<open>rename\<close> are
  atomic, and a failure of either leaves the files as they were.
\<close>

definition writers_ok :: "'f fs \<Rightarrow> bool" where
  "writers_ok F \<longleftrightarrow>
     (\<forall>p f f'. create_new F p f = (Inr (), f') \<longrightarrow> accepted F f' p = [])
   \<and> (\<forall>p b f f'. file_write_all F p b f = (Inr (), f') \<longrightarrow> accepted F f' p = accepted F f p @ b)
   \<and> (\<forall>p b f f'. encoder_write_all F p b f = (Inr (), f') \<longrightarrow> accepted F f' p = accepted F f p @ b)
   \<and> (\<forall>p f f'. file_flush F p f = (Inr (), f') \<longrightarrow> files F f' p = Some (accepted F f p))
   \<and> (\<forall>p f f'. encoder_shutdown F p f = (Inr (), f') \<longrightarrow> files F f' p = Some (zstd_frame F (accepted F f p)))
   \<and> (\<forall>p f n f'. file_len F p f = (Inr n, f') \<longrightarrow> (\<forall>bs. files F f p = Some bs \<longrightarrow> n = of_nat (length bs)))
   \<and> (\<forall>b. zstd_decode F (zstd_frame F b) = Some b)"

definition frames_ok :: "'f fs \<Rightarrow> bool" where
  "frames_ok F \<longleftrightarrow>
     (\<forall>p. frame F {} (create_dir_all F p) \<and> frame F {p} (create_new F p)
        \<and> (\<forall>b. frame F {p} (file_write_all F p b)) \<and> frame F {p} (file_flush F p)
        \<and> (\<forall>b. frame F {p} (encoder_write_all F p b)) \<and> frame F {p} (encoder_shutdown F p)
        \<and> frame F {} (file_len F p) \<and> frame F {} (file_sync_all F p) \<and> frame F {} (try_exists F p)
        \<and> frame F {p} (remove_file F p) \<and> (\<forall>q. frame F {p, q} (rename F p q))
        \<and> frame F {} (sync_directory F p) \<and> frame F {} (metadata_is_dir F p)
        \<and> frame F {} (read_dir F p) \<and> frame F {} (file_type F p) \<and> frame F {} (open_file F p)
        \<and> frame F {q. \<exists>rest. q = p @ rest} (remove_dir_all F p))
   \<and> (\<forall>f u f'. ulid_new F f = (u, f') \<longrightarrow> files F f' = files F f)"

definition moves_ok :: "'f fs \<Rightarrow> bool" where
  "moves_ok F \<longleftrightarrow>
     (\<forall>p f f'. remove_file F p f = (Inr (), f') \<longrightarrow> files F f' p = None)
   \<and> (\<forall>p f f'. remove_file F p f = (Inl IoNotFound, f') \<longrightarrow> files F f p = None)
   \<and> (\<forall>p f e f'. remove_file F p f = (Inl e, f') \<longrightarrow> files F f' p = files F f p)
   \<and> (\<forall>p q f f'. rename F p q f = (Inr (), f') \<longrightarrow>
        files F f p \<noteq> None \<and> files F f' q = files F f p \<and> (p \<noteq> q \<longrightarrow> files F f' p = None))
   \<and> (\<forall>p q f e f'. rename F p q f = (Inl e, f') \<longrightarrow> files F f' p = files F f p \<and> files F f' q = files F f q)
   \<and> (\<forall>p q f f'. rename F p q f = (Inl IoAlreadyExists, f') \<longrightarrow> files F f q \<noteq> None \<or> dirs F f q)
   \<and> (\<forall>p f b f'. try_exists F p f = (Inr b, f') \<longrightarrow> (b \<longleftrightarrow> files F f p \<noteq> None \<or> dirs F f p))
   \<and> (\<forall>p f bs f'. open_file F p f = (Inr bs, f') \<longrightarrow> files F f p = Some bs)
   \<and> (\<forall>p f f'. open_file F p f = (Inl IoNotFound, f') \<longrightarrow> files F f p = None)
   \<and> (\<forall>p f x f' q. remove_dir_all F p f = (x, f') \<longrightarrow> files F f' q = files F f q \<or> files F f' q = None)
   \<and> (\<forall>p f f' rest. remove_dir_all F p f = (Inr (), f') \<longrightarrow> files F f' (p @ rest) = None)
   \<and> (\<forall>p f f' rest. remove_dir_all F p f = (Inl IoNotFound, f') \<longrightarrow> files F f' (p @ rest) = None)"

text \<open>Only \<open>create_dir_all\<close> makes directories, and only the one it names and those above it.\<close>

definition makes_no_dir :: "'f fs \<Rightarrow> ('f, 'e, 'a) act \<Rightarrow> bool" where
  "makes_no_dir F m \<longleftrightarrow> (\<forall>f x f' q. m f = (x, f') \<longrightarrow> dirs F f' q \<longrightarrow> dirs F f q)"

definition dirs_ok :: "'f fs \<Rightarrow> bool" where
  "dirs_ok F \<longleftrightarrow>
     (\<forall>p f x f' q. create_dir_all F p f = (x, f') \<longrightarrow> dirs F f' q \<longrightarrow> dirs F f q \<or> (\<exists>rest. p = q @ rest))
   \<and> (\<forall>p. makes_no_dir F (create_new F p) \<and> (\<forall>b. makes_no_dir F (file_write_all F p b)) \<and> makes_no_dir F (file_flush F p)
        \<and> (\<forall>b. makes_no_dir F (encoder_write_all F p b)) \<and> makes_no_dir F (encoder_shutdown F p)
        \<and> makes_no_dir F (file_len F p) \<and> makes_no_dir F (file_sync_all F p) \<and> makes_no_dir F (try_exists F p))
   \<and> (\<forall>f u f' q. ulid_new F f = (u, f') \<longrightarrow> dirs F f' q \<longrightarrow> dirs F f q)"

definition fs_ok :: "'f fs \<Rightarrow> bool" where
  "fs_ok F \<longleftrightarrow> writers_ok F \<and> frames_ok F \<and> moves_ok F \<and> dirs_ok F"

text \<open>Flushing to stable storage, for the durable contract.\<close>

definition sync_ok :: "'f fs \<Rightarrow> bool" where
  "sync_ok F \<longleftrightarrow>
     (\<forall>p f f'. file_sync_all F p f = (Inr (), f') \<longrightarrow> p \<in> data_synced F f')
   \<and> (\<forall>p f x f'. create_dir_all F p f = (x, f') \<longrightarrow> data_synced F f \<subseteq> data_synced F f')
   \<and> (\<forall>p f x f'. try_exists F p f = (x, f') \<longrightarrow> data_synced F f \<subseteq> data_synced F f')
   \<and> (\<forall>p q f f'. rename F p q f = (Inr (), f') \<longrightarrow> p \<in> data_synced F f \<longrightarrow> q \<in> data_synced F f')
   \<and> (\<forall>p f f'. sync_directory F p f = (Inr (), f') \<longrightarrow>
        data_synced F f \<subseteq> data_synced F f' \<and> (\<forall>n. p @ [n] \<in> entry_synced F f'))"

section \<open>Lifting\<close>

lemma on_world_E:
  assumes "on_world m (res, w) = (x, res', w')"
  obtains "res' = res" and "m w = (x, w')"
  using assms by (auto simp: on_world_def split: prod.splits)

lemma on_disk_E:
  assumes "on_disk m w = (x, w')"
  obtains f' where "m (disk w) = (x, f')" and "w' = w\<lparr>disk := f'\<rparr>"
  using assms by (auto simp: on_disk_def split: prod.splits)

lemma io_E:
  assumes "io m w = (x, w')"
  obtains y f' where "m (disk w) = (y, f')" and "w' = w\<lparr>disk := f'\<rparr>"
    and "x = (case y of Inl e \<Rightarrow> Inl (Io e) | Inr v \<Rightarrow> Inr v)"
  using assms unfolding io_def by (elim map_err_E on_disk_E) blast

lemma io_Inr_E:
  assumes "io m w = (Inr v, w')"
  obtains f' where "m (disk w) = (Inr v, f')" and "w' = w\<lparr>disk := f'\<rparr>"
  using io_E [OF assms] by (metis Inl_Inr_False sum.case_eq_if sum.collapse(2) sum.inject(2))

lemma io_step: "m (disk w) = (Inr v, f) \<Longrightarrow> on_world (io m) (res, w) = (Inr v, res, w\<lparr>disk := f\<rparr>)"
  by (simp add: on_world_def io_def on_disk_def map_err_def)

lemma disk_step: "m (disk w) = (x, f) \<Longrightarrow> on_world (on_disk m) (res, w) = (x, res, w\<lparr>disk := f\<rparr>)"
  by (simp add: on_world_def on_disk_def)

lemma mark_step: "mark s (res, w) = (Inr (), res\<lparr>reservation_state := s\<rparr>, w)"
  by (simp add: mark_def modify_def)

lemma mark_then: "and_then (mark s) K (res, w) = K () (res\<lparr>reservation_state := s\<rparr>, w)"
  by (simp add: and_then_def mark_step)

lemma io_then: "m (disk w) = (Inr v, f) \<Longrightarrow> and_then (on_world (io m)) K (res, w) = K v (res, w\<lparr>disk := f\<rparr>)"
  by (simp add: and_then_def io_step)

section \<open>Capacity\<close>

lemma saturating_add_0: "saturating_add x 0 = (x :: u64)"
  using u64_less [of x] by (simp add: saturating_add_def)

lemma keeps_on_world: "(\<And>res. keeps (\<lambda>w. P (res, w)) m) \<Longrightarrow> keeps P (on_world m)"
  by (rule keepsI) (metis keepsD on_world_E surj_pair)

lemma keeps_on_disk: "(\<And>w f. P (w\<lparr>disk := f\<rparr>) \<longleftrightarrow> P w) \<Longrightarrow> keeps P (on_disk m)"
  by (rule keepsI) (auto elim: on_disk_E)

lemma keeps_io: "(\<And>w f. P (w\<lparr>disk := f\<rparr>) \<longleftrightarrow> P w) \<Longrightarrow> keeps P (io m)"
  unfolding io_def by (intro keeps_map_err keeps_on_disk)

context reserver
begin

text \<open>
  \<open>covers base (res, w)\<close>: the ledger holds \<open>base\<close> bytes for others and exactly the
  outstanding bytes of this reservation.
\<close>

definition covers :: "nat \<Rightarrow> Reservation \<times> ('f, 'l, 'm) local_world_scheme \<Rightarrow> bool" where
  "covers base = (\<lambda>(res, w). lawful (space w) \<and> held (space w) = base + unat (outstanding res))"

lemma covers_disk [simp]: "covers base (res, w\<lparr>disk := f\<rparr>) \<longleftrightarrow> covers base (res, w)"
  by (simp add: covers_def)

lemma covers_state [simp]: "covers base (res\<lparr>reservation_state := s\<rparr>, w) \<longleftrightarrow> covers base (res, w)"
  by (simp add: covers_def)

lemma covers_reserve:
  assumes "covers base (res, w)" and "reserve R b res w = (granted, res', w')"
  shows "covers base (res', w') \<and> (\<not> granted \<longrightarrow> res' = res)
    \<and> (granted \<longrightarrow> unat (outstanding res') = unat (outstanding res) + unat b)"
proof (cases "granted \<and> b \<noteq> 0")
  case True
  with assms(2) obtain l where l: "try_reserve R b (space w) = (True, l)" and w': "w' = w\<lparr>space := l\<rparr>"
    and res': "res' = res\<lparr>outstanding := saturating_add (outstanding res) b\<rparr>"
    by (auto simp: reserve_def split: prod.splits bool.splits)
  from assms(1) have "lawful (space w)" by (simp add: covers_def)
  from reserve_granted [OF this l] have l': "lawful l" "held l = held (space w) + unat b" by auto
  from held_bound [OF l'(1)] l'(2) assms(1)
  have "unat (outstanding res) + unat b < 2 ^ 64" by (simp add: covers_def)
  then have "unat (saturating_add (outstanding res) b) = unat (outstanding res) + unat b"
    by (simp add: unat_saturating_add)
  with True l' res' w' assms(1) show ?thesis by (simp add: covers_def)
next
  case False
  with assms show ?thesis
    by (auto simp: reserve_def covers_def saturating_add_0
        dest: reserve_refused split: prod.splits bool.splits if_splits)
qed

lemma covers_reserve_until_run:
  "R' = R \<Longrightarrow> covers base s \<Longrightarrow> reserve_until R' extent len s = (x, t) \<Longrightarrow>
    covers base t \<and> reservation_state (fst t) = reservation_state (fst s)
    \<and> (x = Inr () \<longrightarrow> extent \<noteq> 0 \<longrightarrow> len \<le> outstanding (fst t))"
proof (induction R' extent len s rule: reserve_until.induct)
  case (1 R' extent len res w)
  obtain granted res' w' where r: "reserve R' extent res w = (granted, res', w')"
    by (metis prod_cases3)
  have st: "reservation_state res' = reservation_state res"
    using r by (auto simp: reserve_def split: if_splits prod.splits bool.splits)
  consider "extent = 0" | "extent \<noteq> 0" "\<not> len > outstanding res"
    | "extent \<noteq> 0" "len > outstanding res" "\<not> granted" | "extent \<noteq> 0" "len > outstanding res" granted
    by blast
  then show ?case
  proof cases
    case 3
    with r "1.prems" st covers_reserve [of base res w extent granted res' w'] show ?thesis
      by (auto simp: reserve_until.simps)
  next
    case 4
    with r "1.prems" covers_reserve [of base res w extent granted res' w']
    have "covers base (res', w')" and "reserve_until R' extent len (res', w') = (x, t)"
      by (simp_all add: reserve_until.simps [of R extent len res w])
    with "1.IH" [OF 4(1,2) r [symmetric] _ _ "1.prems"(1)] 4(3) r st show ?thesis by simp
  qed (use "1.prems" in \<open>auto simp: reserve_until.simps\<close>)
qed

lemma covers_reserve_until: "keeps (covers base) (reserve_until R extent len)"
  by (rule keepsI) (blast dest: covers_reserve_until_run [OF refl])

lemma covers_io [act_keeps]: "keeps (covers base) (on_world (io m))" "keeps (covers base) (on_world (on_disk n))"
  by (auto intro!: keeps_on_world keeps_io keeps_on_disk)

lemma covers_mark [act_keeps]: "keeps (covers base) (mark s)"
  unfolding mark_def by (rule keeps_modify) auto

lemma covers_reserve_or_fail: "keeps (covers base) (reserve_or_fail R b)"
  by (rule keepsI) (auto simp: reserve_or_fail_def split: prod.splits bool.splits dest: covers_reserve)

lemma covers_stage_chunks: "keeps (covers base) (stage_chunks F R extent writer max_bytes h len stream)"
proof (induction stream arbitrary: h len)
  case (Cons item stream)
  then show ?case
    by (cases item) (auto intro!: act_keeps covers_reserve_until simp: keeps_throw split: option.split)
qed (simp add: keeps_ok)

lemma covers_cover_stored: "keeps (covers base) (cover_stored R stored)"
  by (rule keepsI) (auto simp: cover_stored_def split: if_splits dest: keepsD [OF covers_reserve_or_fail])

lemma covers_stage_reserved:
  "keeps (covers base) (stage_reserved c F R A ch stream max_bytes durability enc)"
  unfolding stage_reserved_def Let_def fresh_ulid_def stored_length_def sync_body_def
  by (auto intro!: act_keeps covers_stage_chunks covers_cover_stored split: StoredEncoding.split)

text \<open>After the check against the encoded size the reservation covers the stored bytes.\<close>

lemma cover_stored_enough:
  assumes "covers base (res, w)" and "cover_stored R stored (res, w) = (Inr (), res', w')"
  shows "stored \<le> outstanding res'"
proof (cases "stored > outstanding res")
  case True
  then have "unat (stored - outstanding res) = unat stored - unat (outstanding res)"
    and "unat (outstanding res) < unat stored"
    using unat_sub [OF less_imp_le [OF True]] by (simp_all add: word_less_nat_alt)
  with True assms show ?thesis
    using covers_reserve [OF assms(1), of "stored - outstanding res" True res' w']
    by (auto simp: cover_stored_def reserve_or_fail_def word_le_nat_alt split: prod.splits bool.splits)
next
  case False
  with assms(2) show ?thesis by (simp add: cover_stored_def)
qed

lemma covers_publish_reserved: "keeps (covers base) (publish_reserved c F A ch a staged d durability)"
  unfolding publish_reserved_def sync_parent_def Let_def
  by (auto intro!: act_keeps split: IoError.split sum.split unit.split)

text \<open>Every way of ending a reservation puts the ledger back to what it holds for others.\<close>

lemma covers_settled:
  assumes "covers base (res, w)"
  shows "lawful (release R (outstanding res) (space w)) \<and> held (release R (outstanding res) (space w)) = base
      \<and> spent (release R (outstanding res) (space w)) = spent (space w)"
    and "lawful (commit R (outstanding res) (space w)) \<and> held (commit R (outstanding res) (space w)) = base
      \<and> spent (commit R (outstanding res) (space w)) = spent (space w) + unat (outstanding res)"
  using assms release_law [of "space w" "outstanding res"] commit_law [of "space w" "outstanding res"]
  by (auto simp: covers_def)

lemma discard_settles:
  assumes "covers base (res, w)"
  shows "lawful (space (discard F R res w)) \<and> held (space (discard F R res w)) = base"
  using covers_settled [OF assms]
  by (auto simp: discard_def Let_def settlement_release_def settlement_commit_def on_space_def
      settle_removal_def on_disk_def split: ReservationState.split prod.split sum.split IoError.split unit.split)

lemma drop_settles:
  assumes "covers base (res, w)"
  shows "lawful (space (reservation_drop F R fate res w)) \<and> held (space (reservation_drop F R fate res w)) = base"
proof (cases "outstanding res = 0")
  case True
  with assms covers_settled [OF assms] show ?thesis
    by (auto simp: reservation_drop_def covers_def Let_def settlement_release_def settlement_commit_def
        settlement_drop_def schedule_removal_def on_space_def settle_removal_def on_disk_def
        split: ReservationState.split prod.split sum.split IoError.split unit.split task_fate.split)
next
  case False
  with covers_settled [OF assms] show ?thesis
    by (auto simp: reservation_drop_def Let_def settlement_release_def settlement_commit_def
        settlement_drop_def schedule_removal_def on_space_def settle_removal_def on_disk_def word_neq_0_conv
        split: ReservationState.split prod.split sum.split IoError.split unit.split task_fate.split)
qed

lemma commit_settles:
  assumes "covers base (res, w)"
  shows "lawful (space (reservation_commit R b res w)) \<and> held (space (reservation_commit R b res w)) = base
    \<and> spent (space (reservation_commit R b res w)) = spent (space w) + unat (min b (outstanding res))"
proof -
  let ?m = "min b (outstanding res)"
  have m: "?m \<le> outstanding res" by simp
  then have nat: "unat (outstanding res - ?m) = unat (outstanding res) - unat ?m" "unat ?m \<le> unat (outstanding res)"
    by (simp_all add: unat_sub word_le_nat_alt)
  from assms nat commit_law [of "space w" ?m]
  have c: "lawful (commit R ?m (space w))" "held (commit R ?m (space w)) = base + unat (outstanding res - ?m)"
    "spent (commit R ?m (space w)) = spent (space w) + unat ?m"
    by (auto simp: covers_def)
  with release_law [OF c(1), of "outstanding res - ?m"]
  show ?thesis
    by (auto simp: reservation_commit_def Let_def on_space_def word_gt_0)
qed

lemma stage_covers:
  assumes "lawful (space w)"
    and "stage c F R A ch stream max_bytes content_length durability enc w = (x, w')"
  shows "case x of
      Inr (Ready st) \<Rightarrow> covers (held (space w)) (staged_reservation st, w')
    | _ \<Rightarrow> lawful (space w') \<and> held (space w') = held (space w)"
proof -
  let ?initial = "case content_length of Some d \<Rightarrow> min d max_bytes | None \<Rightarrow> reservation_extent A"
  obtain granted res w1 where r: "reserve R ?initial Reservation_new w = (granted, res, w1)"
    by (metis prod_cases3)
  have "covers (held (space w)) (Reservation_new, w)"
    using assms(1) by (simp add: covers_def Reservation_new_def)
  from covers_reserve [OF this r] have cov: "covers (held (space w)) (res, w1)"
    and refused: "\<not> granted \<Longrightarrow> res = Reservation_new" by auto
  show ?thesis
  proof (cases granted)
    case False
    with assms(2) r refused cov show ?thesis
      by (auto simp: stage_def Let_def covers_def Reservation_new_def)
  next
    case True
    obtain y res' w2 where s: "stage_reserved c F R A ch stream max_bytes durability enc (res, w1) = (y, res', w2)"
      by (metis prod_cases3)
    from keepsD [OF covers_stage_reserved cov s] have "covers (held (space w)) (res', w2)" .
    with discard_settles [OF this] assms(2) r s True show ?thesis
      by (auto simp: stage_def Let_def split: sum.splits prod.splits)
  qed
qed

lemma publish_covers:
  assumes "covers base (staged_reservation st, w)"
    and "publish_file c F R A ch a st durability w = (x, w')"
  shows "case x of
      Inr (Created res) \<Rightarrow> covers base (res, w') | Inr (Existing res) \<Rightarrow> covers base (res, w')
    | Inl e \<Rightarrow> lawful (space w') \<and> held (space w') = base"
proof -
  obtain y res w1 where p: "publish_reserved c F A ch a (staged_path st) (staged_digest st) durability
      (staged_reservation st, w) = (y, res, w1)"
    by (metis prod_cases3)
  from keepsD [OF covers_publish_reserved assms(1) p] have "covers base (res, w1)" .
  with discard_settles [OF this] assms(2) p show ?thesis
    by (auto simp: publish_file_def split: sum.splits if_splits)
qed

end

section \<open>Contents\<close>

definition encoded :: "'f fs \<Rightarrow> StoredEncoding \<Rightarrow> bytes \<Rightarrow> bytes" where
  "encoded F enc body = (case enc of Identity \<Rightarrow> body | Zstd \<Rightarrow> zstd_frame F body)"

fun writer_file :: "StageWriter \<Rightarrow> Path" where
  "writer_file (IdentityWriter file) = file" | "writer_file (ZstdWriter file) = file"

text \<open>The body of a stream all of whose items arrived.\<close>

definition stream_body :: "(string + bytes) list \<Rightarrow> bytes" where
  "stream_body stream = concat (map projr stream)"

text \<open>No chunk is longer than a Rust slice can be.\<close>

definition chunks_fit :: "(string + bytes) list \<Rightarrow> bool" where
  "chunks_fit stream \<longleftrightarrow> (\<forall>chunk. Inr chunk \<in> set stream \<longrightarrow> length chunk < 2 ^ 64)"

lemma frameD: "frame F P m \<Longrightarrow> m f = (x, f') \<Longrightarrow> q \<notin> P \<Longrightarrow> files F f' q = files F f q"
  by (simp add: frame_def)

lemma fs_okD: "fs_ok F \<Longrightarrow> writers_ok F" "fs_ok F \<Longrightarrow> frames_ok F" "fs_ok F \<Longrightarrow> moves_ok F"
  by (simp_all add: fs_ok_def)

lemma frames:
  assumes "fs_ok F"
  shows "frame F {} (create_dir_all F p)" "frame F {p} (create_new F p)"
    "frame F {p} (file_write_all F p b)" "frame F {p} (file_flush F p)"
    "frame F {p} (encoder_write_all F p b)" "frame F {p} (encoder_shutdown F p)"
    "frame F {} (file_len F p)" "frame F {} (file_sync_all F p)" "frame F {} (try_exists F p)"
    "frame F {p} (remove_file F p)" "frame F {p, q} (rename F p q)" "frame F {} (sync_directory F p)"
    "frame F {} (metadata_is_dir F p)" "frame F {} (read_dir F p)" "frame F {} (file_type F p)"
    "frame F {q. \<exists>rest. q = p @ rest} (remove_dir_all F p)" "frame F {} (open_file F p)"
  using fs_okD(2) [OF assms] by (simp_all add: frames_ok_def)

lemma files_same: "frame F {} m \<Longrightarrow> m f = (x, f') \<Longrightarrow> files F f' = files F f"
  by (auto simp: frame_def)

lemma frame_writer: "fs_ok F \<Longrightarrow> frame F {writer_file wr} (writer_write_all F wr chunk)"
  by (cases wr) (simp_all add: writer_write_all_def frames)

lemma frame_finish: "fs_ok F \<Longrightarrow> frame F {writer_file wr} (writer_finish F wr)"
  using frames(4,6) [of F]
  by (cases wr) (auto simp: writer_finish_def frame_def ok_def elim!: and_then_E)

lemma writer_accepts:
  "fs_ok F \<Longrightarrow> writer_write_all F wr chunk f = (Inr (), f') \<Longrightarrow>
    accepted F f' (writer_file wr) = accepted F f (writer_file wr) @ chunk"
  using fs_okD(1) [of F] by (cases wr) (auto simp: writer_write_all_def writers_ok_def)

lemma finish_writes:
  assumes "fs_ok F" and "writer_finish F (StageWriter_new p enc) f = (Inr file, f')"
  shows "file = p \<and> files F f' p = Some (encoded F enc (accepted F f p))"
  using assms(2) fs_okD(1) [OF assms(1)]
  by (cases enc) (auto simp: writer_finish_def StageWriter_new_def writers_ok_def encoded_def ok_def
      elim!: and_then_E)

lemma reserve_until_world:
  "reserve_until R extent len s = (x, t) \<Longrightarrow> disk (snd t) = disk (snd s)
    \<and> reservation_state (fst t) = reservation_state (fst s)"
proof (induction R extent len s arbitrary: x t rule: reserve_until.induct)
  case (1 R extent len res w)
  obtain granted res' w' where r: "reserve R extent res w = (granted, res', w')"
    by (metis prod_cases3)
  then have "disk w' = disk w" "reservation_state res' = reservation_state res"
    by (auto simp: reserve_def split: if_splits prod.splits bool.splits)
  with r "1.prems" "1.IH" [OF _ _ r [symmetric]] show ?case
    by (cases granted) (auto simp: reserve_until.simps [of R extent len res w] split: if_splits)
qed

lemma stage_chunks_body:
  assumes "fs_ok F" and "chunks_fit stream"
    and "stage_chunks F R extent wr max_bytes h len stream (res, w) = (Inr (h', len'), res', w')"
  shows "(\<forall>item \<in> set stream. \<not> isl item) \<and> h' = h @ stream_body stream
    \<and> accepted F (disk w') (writer_file wr) = accepted F (disk w) (writer_file wr) @ stream_body stream
    \<and> unat len' = unat len + length (stream_body stream)
    \<and> (stream \<noteq> [] \<longrightarrow> len' \<le> max_bytes)
    \<and> (\<forall>q. q \<noteq> writer_file wr \<longrightarrow> files F (disk w') q = files F (disk w) q)"
  using assms(2,3)
proof (induction stream arbitrary: h len res w)
  case Nil
  then show ?case by (simp add: ok_def stream_body_def)
next
  case (Cons item stream)
  obtain chunk len1 where item: "item = Inr chunk"
    and add: "checked_add len (of_nat (length chunk)) = Some len1" and max: "\<not> max_bytes < len1"
    using Cons.prems(2) by (cases item) (auto simp: throw_def split: option.splits if_splits)
  have fit: "chunks_fit stream" and "length chunk < 2 ^ 64"
    using Cons.prems(1) item by (auto simp: chunks_fit_def)
  then have "unat len1 = unat len + length chunk"
    using checked_add_unat [OF add] by (simp add: unat_of_nat)
  obtain res1 w1 f2 where u: "reserve_until R extent len1 (res, w) = (Inr (), res1, w1)"
    and wr: "writer_write_all F wr chunk (disk w1) = (Inr (), f2)"
    and more: "stage_chunks F R extent wr max_bytes (h @ chunk) len1 stream (res1, w1\<lparr>disk := f2\<rparr>)
      = (Inr (h', len'), res', w')"
    using Cons.prems(2) item add max by (auto elim!: and_then_E on_world_E io_Inr_E)
  have d1: "disk w1 = disk w" using reserve_until_world [OF u] by simp
  from Cons.IH [OF fit more] writer_accepts [OF assms(1) wr] frameD [OF frame_writer [OF assms(1)] wr]
    d1 item max \<open>unat len1 = _\<close>
  show ?case
    using Cons.IH [OF fit more] by (cases stream) (auto simp: stream_body_def not_less word_le_nat_alt)
qed

text \<open>What is known of a staged artifact.\<close>

definition staged_ok :: "crates \<Rightarrow> 'f fs \<Rightarrow> ArtifactFiles \<Rightarrow> 'f \<Rightarrow> bytes \<Rightarrow> StagedArtifact \<Rightarrow> bool" where
  "staged_ok c F A f body st \<longleftrightarrow>
     files F f (staged_path st) = Some (encoded F (staged_encoding st) body)
   \<and> staged_digest st = Sha256_digest c body \<and> unat (staged_len st) = length body
   \<and> staged_stored_len st = of_nat (length (encoded F (staged_encoding st) body))
   \<and> reservation_state (staged_reservation st) = Temporary (staged_path st)
   \<and> (\<exists>ch u. staged_path st = temporary_path c A ch u)"

lemma stage_chunks_state:
  "stage_chunks F R extent wr max_bytes h len stream (res, w) = (x, res', w') \<Longrightarrow>
    reservation_state res' = reservation_state res"
proof (induction stream arbitrary: h len res w)
  case (Cons item stream)
  then show ?case
    by (cases item) (fastforce simp: throw_def dest: reserve_until_world split: option.splits if_splits
        elim!: and_then_E on_world_E)+
qed (simp add: ok_def)

lemma fresh_ulid_E:
  assumes "fs_ok F" and "fresh_ulid F w = (x, w')"
  obtains u f' where "x = Inr u" and "w' = w\<lparr>disk := f'\<rparr>" and "files F f' = files F (disk w)"
  using assms fs_okD(2) [OF assms(1)]
  by (auto simp: fresh_ulid_def on_disk_def frames_ok_def split: prod.splits)

lemma cover_stored_E:
  assumes "cover_stored R stored (res, w) = (x, res', w')"
  obtains "disk w' = disk w" and "reservation_state res' = reservation_state res"
  using assms by (auto simp: cover_stored_def reserve_or_fail_def reserve_def split: if_splits prod.splits bool.splits)

lemma file_len_spec:
  assumes "fs_ok F" and "file_len F p f = (Inr n, f')" and "files F f p = Some bs"
  shows "n = of_nat (length bs) \<and> files F f' = files F f"
proof -
  have "\<forall>p f n f'. file_len F p f = (Inr n, f') \<longrightarrow> (\<forall>bs. files F f p = Some bs \<longrightarrow> n = of_nat (length bs))"
    using fs_okD(1) [OF assms(1)] unfolding writers_ok_def by (elim conjE)
  with assms(2,3) have "n = of_nat (length bs)" by blast
  with files_same [OF frames(7) [OF assms(1)] assms(2)] show ?thesis by simp
qed

lemma stored_length_spec:
  assumes "fs_ok F" and "stored_length F enc len p (res, w) = (Inr stored, res', w')"
    and "files F (disk w) p = Some (encoded F enc body)" and "len = of_nat (length body)"
  shows "res' = res \<and> files F (disk w') = files F (disk w) \<and> stored = of_nat (length (encoded F enc body))"
  using assms(2-4) file_len_spec [OF assms(1), of p "disk w"]
  by (cases enc) (auto simp: stored_length_def ok_def encoded_def elim!: on_world_E io_Inr_E)

lemma stage_reserved_E:
  assumes "stage_reserved c F R A ch stream max_bytes durability enc (res, w)
      = (Inr (p, d, len, stored), res', w')"
  obtains f1 w2 u f3 h res4 w4 f5 fl res6 w6 res7 w7 where
    "create_dir_all F (channel_dir c A ch @ [''tmp'']) (disk w) = (Inr (), f1)"
    and "fresh_ulid F (w\<lparr>disk := f1\<rparr>) = (Inr u, w2)" and "p = temporary_path c A ch u"
    and "create_new F p (disk w2) = (Inr (), f3)"
    and "stage_chunks F R (reservation_extent A) (StageWriter_new p enc) max_bytes [] 0 stream
      (res\<lparr>reservation_state := Temporary p\<rparr>, w2\<lparr>disk := f3\<rparr>) = (Inr (h, len), res4, w4)"
    and "writer_finish F (StageWriter_new p enc) (disk w4) = (Inr fl, f5)"
    and "stored_length F enc len fl (res4, w4\<lparr>disk := f5\<rparr>) = (Inr stored, res6, w6)"
    and "cover_stored R stored (res6, w6) = (Inr (), res7, w7)"
    and "sync_body F durability fl (res7, w7) = (Inr (), res', w')" and "d = Sha256_digest c h"
  using assms unfolding stage_reserved_def Let_def
  by (auto simp: mark_def modify_def ok_def elim!: and_then_E on_world_E io_Inr_E)

lemma stage_reserved_body:
  assumes F: "fs_ok F" and fit: "chunks_fit stream"
    and run: "stage_reserved c F R A ch stream max_bytes durability enc (res, w)
      = (Inr (p, d, len, stored), res', w')"
  shows "(\<forall>item \<in> set stream. \<not> isl item) \<and> files F (disk w') p = Some (encoded F enc (stream_body stream))
    \<and> d = Sha256_digest c (stream_body stream) \<and> unat len = length (stream_body stream)
    \<and> stored = of_nat (length (encoded F enc (stream_body stream)))
    \<and> (stream \<noteq> [] \<longrightarrow> len \<le> max_bytes)
    \<and> reservation_state res' = Temporary p \<and> (\<exists>u. p = temporary_path c A ch u)
    \<and> (\<forall>q. q \<noteq> p \<longrightarrow> files F (disk w') q = files F (disk w) q)"
proof -
  from run obtain f1 w2 u f3 h res4 w4 f5 fl res6 w6 res7 w7 where
    dir: "create_dir_all F (channel_dir c A ch @ [''tmp'']) (disk w) = (Inr (), f1)"
    and ulid: "fresh_ulid F (w\<lparr>disk := f1\<rparr>) = (Inr u, w2)" and path: "p = temporary_path c A ch u"
    and create: "create_new F p (disk w2) = (Inr (), f3)"
    and chunks: "stage_chunks F R (reservation_extent A) (StageWriter_new p enc) max_bytes [] 0 stream
      (res\<lparr>reservation_state := Temporary p\<rparr>, w2\<lparr>disk := f3\<rparr>) = (Inr (h, len), res4, w4)"
    and fin: "writer_finish F (StageWriter_new p enc) (disk w4) = (Inr fl, f5)"
    and size: "stored_length F enc len fl (res4, w4\<lparr>disk := f5\<rparr>) = (Inr stored, res6, w6)"
    and cover: "cover_stored R stored (res6, w6) = (Inr (), res7, w7)"
    and sync: "sync_body F durability fl (res7, w7) = (Inr (), res', w')" and d: "d = Sha256_digest c h"
    by (rule stage_reserved_E)
  from ulid obtain f2 where w2: "w2 = w\<lparr>disk := f2\<rparr>" and f2: "files F f2 = files F f1"
    by (auto elim!: fresh_ulid_E [OF F])
  have f1: "files F f1 = files F (disk w)" by (rule files_same [OF frames(1) [OF F] dir])
  have f3: "q \<noteq> p \<Longrightarrow> files F f3 q = files F (disk w) q" for q
    using frameD [OF frames(2) [OF F] create] f1 f2 w2 by simp
  have acc: "accepted F f3 p = []"
    using create fs_okD(1) [OF F] by (auto simp: writers_ok_def)
  have wf: "writer_file (StageWriter_new p enc) = p" by (cases enc) (simp_all add: StageWriter_new_def)
  note body = stage_chunks_body [OF F fit chunks, unfolded wf]
  have f5: "files F f5 p = Some (encoded F enc (stream_body stream))" "fl = p"
    using finish_writes [OF F fin] body acc by auto
  have f5q: "q \<noteq> p \<Longrightarrow> files F f5 q = files F (disk w) q" for q
    using frameD [OF frame_finish [OF F] fin] body f3 by (simp add: wf)
  have "unat len = length (stream_body stream)" using body by simp
  then have "len = of_nat (length (stream_body stream))" by (simp flip: \<open>unat len = _\<close>)
  with stored_length_spec [OF F size [unfolded f5(2)]] f5(1)
  have w6: "files F (disk w6) = files F f5" "res6 = res4" "stored = of_nat (length (encoded F enc (stream_body stream)))"
    by auto
  have res7: "disk w7 = disk w6" "reservation_state res7 = reservation_state res6"
    using cover by (auto elim!: cover_stored_E)
  have "files F (disk w') = files F (disk w7)" "reservation_state res' = reservation_state res7"
    using sync files_same [OF frames(8) [OF F]] by (auto simp: ok_def sync_body_def split: if_splits elim!: on_world_E io_Inr_E)
  with res7 w6 f5 f5q body d path stage_chunks_state [OF chunks] show ?thesis by auto
qed

section \<open>Publication\<close>

lemma length_artifact_path: "length (artifact_path c A ch a) = length (root A) + 5"
  by (simp add: artifact_path_def channel_dir_def Let_def)

lemma temporary_not_artifact: "temporary_path c A ch u \<noteq> artifact_path c A ch' a"
proof
  assume "temporary_path c A ch u = artifact_path c A ch' a"
  then have "length (temporary_path c A ch u) = length (root A) + 5" by (simp add: length_artifact_path)
  then show False by (simp add: temporary_path_def channel_dir_def)
qed

lemma display_inject:
  assumes "hex_ok c" and "Digest_display c d = Digest_display c d'"
  shows "d = d'"
  using Digest_parse_iff [OF assms(1)] assms(2) by (metis sum.inject(2))

lemma artifact_path_inject:
  assumes "hex_ok c" and "ulid_ok c" and "artifact_path c A ch a = artifact_path c A ch' a'"
  shows "ch = ch' \<and> a = a'"
proof -
  from assms(3) have "Digest_display c (digest a) = Digest_display c (digest a')"
    and "ChannelId_display c ch = ChannelId_display c ch'"
    by (simp_all add: artifact_path_def channel_dir_def Let_def)
  then show ?thesis
    using display_inject [OF assms(1)] ulid_str_inject [OF assms(2)]
    by (cases a; cases a'; cases ch; cases ch') (auto simp: ChannelId_display_def)
qed

text \<open>A file at the path of an artifact holds a body with the artifact's digest.\<close>

definition body_of :: "crates \<Rightarrow> 'f fs \<Rightarrow> ArtifactId \<Rightarrow> bytes \<Rightarrow> bool" where
  "body_of c F a bs \<longleftrightarrow> (\<exists>enc body. bs = encoded F enc body \<and> Sha256_digest c body = digest a)"

definition bodies_ok :: "crates \<Rightarrow> 'f fs \<Rightarrow> ArtifactFiles \<Rightarrow> 'f \<Rightarrow> bool" where
  "bodies_ok c F A f \<longleftrightarrow>
     (\<forall>ch a bs. files F f (artifact_path c A ch a) = Some bs \<longrightarrow> body_of c F a bs)"

lemma bodies_same: "files F f' = files F f \<Longrightarrow> bodies_ok c F A f' \<longleftrightarrow> bodies_ok c F A f"
  by (simp add: bodies_ok_def)

lemma bodies_fewer:
  "(\<And>q. files F f' q = files F f q \<or> files F f' q = None) \<Longrightarrow> bodies_ok c F A f \<Longrightarrow> bodies_ok c F A f'"
  unfolding bodies_ok_def by (metis option.distinct(1))

lemma remove_file_spec:
  assumes "fs_ok F" and "remove_file F p f = (x, f')"
  shows "(q \<noteq> p \<longrightarrow> files F f' q = files F f q)
    \<and> (x = Inr () \<longrightarrow> files F f' p = None) \<and> (x = Inl IoNotFound \<longrightarrow> files F f' p = None)
    \<and> (\<forall>e. x = Inl e \<longrightarrow> files F f' p = files F f p)"
  using frameD [OF frames(10) [OF assms(1)] assms(2)] fs_okD(3) [OF assms(1)] assms(2)
  by (auto simp: moves_ok_def)

lemma rename_spec:
  assumes "fs_ok F" and "rename F p q f = (x, f')"
  shows "(r \<noteq> p \<longrightarrow> r \<noteq> q \<longrightarrow> files F f' r = files F f r)
    \<and> (x = Inr () \<longrightarrow> files F f' q = files F f p \<and> (p \<noteq> q \<longrightarrow> files F f' p = None))
    \<and> (\<forall>e. x = Inl e \<longrightarrow> files F f' = files F f)"
proof -
  have "files F f' p = files F f p \<and> files F f' q = files F f q" if "x = Inl e" for e
    using that assms(2) fs_okD(3) [OF assms(1)] by (auto simp: moves_ok_def)
  then have "files F f' = files F f" if "x = Inl e" for e
    using that frameD [OF frames(11) [OF assms(1)] assms(2)] by (metis ext insertE singletonD)
  then show ?thesis
    using frameD [OF frames(11) [OF assms(1)] assms(2)] fs_okD(3) [OF assms(1)] assms(2)
    by (auto simp: moves_ok_def)
qed

text \<open>
  The effect of \<open>publish_reserved\<close> on the files: either nothing has happened to the final
  path and the staged file is where it was or gone, or the staged file has become the
  body and the reservation knows it.
\<close>

definition publish_effect ::
  "'f fs \<Rightarrow> Path \<Rightarrow> Path \<Rightarrow> 'f \<Rightarrow> 'f \<Rightarrow> ReservationState \<Rightarrow> ReservationState \<Rightarrow> LocalError + bool \<Rightarrow> bool" where
  "publish_effect F staged final f f' old new x \<longleftrightarrow>
     (\<forall>q. q \<noteq> staged \<longrightarrow> q \<noteq> final \<longrightarrow> files F f' q = files F f q)
   \<and> (if new = Published
      then files F f' final = files F f staged \<and> files F f' staged = None \<and> files F f final = None
      else files F f' final = files F f final)
   \<and> (case x of
        Inr True \<Rightarrow> new = Published
      | Inr False \<Rightarrow> new = Vacant \<and> files F f' staged = None
      | Inl e \<Rightarrow> new = Published \<or> new = old \<and> files F f' staged = files F f staged)"

lemma try_exists_spec:
  assumes "fs_ok F" and "try_exists F p f = (Inr b, f')"
  shows "b \<longleftrightarrow> files F f p \<noteq> None \<or> dirs F f p"
proof -
  have "\<forall>p f b f'. try_exists F p f = (Inr b, f') \<longrightarrow> (b \<longleftrightarrow> files F f p \<noteq> None \<or> dirs F f p)"
    using fs_okD(3) [OF assms(1)] unfolding moves_ok_def by (elim conjE)
  with assms(2) show ?thesis by blast
qed

lemma rename_exists_spec:
  assumes "fs_ok F" and "rename F p q f = (Inl IoAlreadyExists, f')"
  shows "files F f q \<noteq> None \<or> dirs F f q"
proof -
  have "\<forall>p q f f'. rename F p q f = (Inl IoAlreadyExists, f') \<longrightarrow> files F f q \<noteq> None \<or> dirs F f q"
    using fs_okD(3) [OF assms(1)] unfolding moves_ok_def by (elim conjE)
  with assms(2) show ?thesis by blast
qed

lemma open_file_spec:
  assumes "fs_ok F" and "open_file F p f = (x, f')"
  shows "files F f' = files F f \<and> (\<forall>bs. x = Inr bs \<longrightarrow> files F f p = Some bs)
    \<and> (x = Inl IoNotFound \<longrightarrow> files F f p = None)"
proof -
  have "\<forall>p f bs f'. open_file F p f = (Inr bs, f') \<longrightarrow> files F f p = Some bs"
    using fs_okD(3) [OF assms(1)] unfolding moves_ok_def by (elim conjE)
  moreover have "\<forall>p f f'. open_file F p f = (Inl IoNotFound, f') \<longrightarrow> files F f p = None"
    using fs_okD(3) [OF assms(1)] unfolding moves_ok_def by (elim conjE)
  ultimately show ?thesis using assms(2) files_same [OF frames(17) [OF assms(1)] assms(2)] by blast
qed

lemma remove_dir_spec:
  assumes "fs_ok F" and "remove_dir_all F p f = (x, f')"
  shows "(files F f' q = files F f q \<or> files F f' q = None)
    \<and> ((\<forall>rest. q \<noteq> p @ rest) \<longrightarrow> files F f' q = files F f q)
    \<and> (x = Inr () \<or> x = Inl IoNotFound \<longrightarrow> files F f' (p @ rest) = None)"
proof -
  have "\<forall>p f x f' q. remove_dir_all F p f = (x, f') \<longrightarrow> files F f' q = files F f q \<or> files F f' q = None"
    using fs_okD(3) [OF assms(1)] unfolding moves_ok_def by (elim conjE)
  moreover have "\<forall>p f f' rest. remove_dir_all F p f = (Inr (), f') \<longrightarrow> files F f' (p @ rest) = None"
    using fs_okD(3) [OF assms(1)] unfolding moves_ok_def by (elim conjE)
  moreover have "\<forall>p f f' rest. remove_dir_all F p f = (Inl IoNotFound, f') \<longrightarrow> files F f' (p @ rest) = None"
    using fs_okD(3) [OF assms(1)] unfolding moves_ok_def by (elim conjE)
  moreover have "(\<forall>rest. q \<noteq> p @ rest) \<longrightarrow> files F f' q = files F f q"
    using frameD [OF frames(16) [OF assms(1)] assms(2), of q] by auto
  ultimately show ?thesis using assms(2) by metis
qed

lemma publish_effect_cong:
  assumes "files F f = files F g"
  shows "publish_effect F staged final f f' old new x = publish_effect F staged final g f' old new x"
  unfolding publish_effect_def assms ..

lemma publish_effect_error:
  "old \<noteq> Published \<Longrightarrow> files F f' = files F f \<Longrightarrow> publish_effect F staged final f f' old old (Inl e)"
  by (simp add: publish_effect_def)

lemma already_published_effect:
  assumes F: "fs_ok F" and neq: "staged \<noteq> final" and old: "reservation_state res \<noteq> Published"
    and run: "and_then (on_world (io (remove_file F staged))) (\<lambda>_. and_then (mark Vacant) (\<lambda>_. ok False)) (res, w)
      = (x, res', w')"
  shows "publish_effect F staged final (disk w) (disk w') (reservation_state res) (reservation_state res') x
    \<and> x \<noteq> Inr True"
proof -
  obtain y f1 where rm: "remove_file F staged (disk w) = (y, f1)" by fastforce
  with run show ?thesis
    using remove_file_spec [OF F rm] neq old
    by (cases y) (auto simp: publish_effect_def mark_def modify_def ok_def and_then_def on_world_def io_def
        on_disk_def map_err_def)
qed

lemma install_effect:
  assumes F: "fs_ok F" and neq: "staged \<noteq> final" and old: "reservation_state res \<noteq> Published"
    and none: "files F (disk w) final = None"
    and run: "outcome (on_world (on_disk (rename F staged final))) (\<lambda>renamed.
        case renamed of
          Inl IoAlreadyExists \<Rightarrow>
            and_then (on_world (io (remove_file F staged))) (\<lambda>_. and_then (mark Vacant) (\<lambda>_. ok False))
        | Inl error \<Rightarrow> throw (Io error)
        | Inr _ \<Rightarrow>
            and_then (mark Published) (\<lambda>_.
            and_then (sync_parent F durability parent) (\<lambda>_. ok True))) (res, w) = (x, res', w')"
  shows "publish_effect F staged final (disk w) (disk w') (reservation_state res) (reservation_state res') x
    \<and> (x = Inr False \<longrightarrow> dirs F (disk w) final)"
proof -
  obtain y f1 where rn: "rename F staged final (disk w) = (y, f1)" by fastforce
  note spec = rename_spec [OF F rn]
  show ?thesis
  proof (cases y)
    case (Inr u)
    obtain z f2 where sy: "sync_directory F parent f1 = (z, f2)" by fastforce
    have "files F f2 = files F f1" by (rule files_same [OF frames(12) [OF F] sy])
    moreover have "disk w' \<in> {f1, f2} \<and> reservation_state res' = Published \<and> x \<noteq> Inr False"
    proof -
      let ?res = "res\<lparr>reservation_state := Published\<rparr>"
      have rn': "on_world (on_disk (rename F staged final)) (res, w) = (Inr (), res, w\<lparr>disk := f1\<rparr>)"
        using rn Inr by (simp add: disk_step)
      have sy': "on_world (on_disk (sync_directory F parent)) (?res, w\<lparr>disk := f1\<rparr>) = (z, ?res, w\<lparr>disk := f2\<rparr>)"
        using sy disk_step [of "sync_directory F parent" "w\<lparr>disk := f1\<rparr>" z f2 ?res] by simp
      from run have "and_then (sync_parent F durability parent)
          (\<lambda>_. ok True) (?res, w\<lparr>disk := f1\<rparr>) = (x, res', w')"
        by (simp add: outcome_def rn' mark_then)
      then show ?thesis
        using sy' by (cases "durability = Durable"; cases z) (auto simp: and_then_def ok_def sync_parent_def)
    qed
    ultimately have "files F (disk w') = files F f1" by auto
    with Inr spec neq none \<open>disk w' \<in> {f1, f2} \<and> _\<close> show ?thesis
      by (auto simp: publish_effect_def split: sum.split bool.split)
  next
    case (Inl e)
    with spec have f1: "files F f1 = files F (disk w)" by simp
    show ?thesis
    proof (cases "e = IoAlreadyExists")
      case True
      with Inl run rn have "and_then (on_world (io (remove_file F staged)))
          (\<lambda>_. and_then (mark Vacant) (\<lambda>_. ok False)) (res, w\<lparr>disk := f1\<rparr>) = (x, res', w')"
        by (simp add: outcome_def on_world_def on_disk_def)
      from already_published_effect [OF F neq old this] f1
      have "publish_effect F staged final (disk w) (disk w') (reservation_state res) (reservation_state res') x"
        using publish_effect_cong [of F f1 "disk w"] by simp
      moreover have "dirs F (disk w) final"
        using Inl True rn none rename_exists_spec [OF F, of staged final "disk w" f1] by simp
      ultimately show ?thesis by blast
    next
      case False
      with Inl run rn f1 old show ?thesis
        by (auto simp: outcome_def on_world_def on_disk_def throw_def publish_effect_error split: IoError.splits)
    qed
  qed
qed

lemma create_dir_dirs:
  assumes "fs_ok F" and "create_dir_all F p f = (x, f')" and "dirs F f' q"
  shows "dirs F f q \<or> (\<exists>rest. p = q @ rest)"
  using assms unfolding fs_ok_def dirs_ok_def by blast

lemma no_dirD: "makes_no_dir F m \<Longrightarrow> m f = (x, f') \<Longrightarrow> dirs F f' q \<Longrightarrow> dirs F f q"
  unfolding makes_no_dir_def by blast

lemma no_dirs:
  assumes "fs_ok F"
  shows "makes_no_dir F (create_new F p)" "makes_no_dir F (file_write_all F p b)" "makes_no_dir F (file_flush F p)"
    "makes_no_dir F (encoder_write_all F p b)" "makes_no_dir F (encoder_shutdown F p)" "makes_no_dir F (file_len F p)"
    "makes_no_dir F (file_sync_all F p)" "makes_no_dir F (try_exists F p)"
  using assms by (simp_all add: fs_ok_def dirs_ok_def)

lemma parent_not_below: "butlast (artifact_path c A ch a) \<noteq> artifact_path c A ch a @ rest"
  by (simp add: artifact_path_def Let_def butlast_append)

lemma publish_reserved_effect:
  assumes F: "fs_ok F" and neq: "staged \<noteq> artifact_path c A ch a"
    and old: "reservation_state res \<noteq> Published"
    and run: "publish_reserved c F A ch a staged d durability (res, w) = (x, res', w')"
  shows "publish_effect F staged (artifact_path c A ch a) (disk w) (disk w')
      (reservation_state res) (reservation_state res') x
    \<and> (\<forall>b. x = Inr b \<longrightarrow> d = digest a) \<and> (reservation_state res' \<noteq> reservation_state res \<longrightarrow> d = digest a)
    \<and> (x = Inr False \<longrightarrow> files F (disk w) (artifact_path c A ch a) \<noteq> None
         \<or> dirs F (disk w) (artifact_path c A ch a))"
proof (cases "d = digest a")
  case False
  with run old show ?thesis by (auto simp: publish_reserved_def throw_def publish_effect_error)
next
  case True
  let ?final = "artifact_path c A ch a"
  obtain y1 f1 where mk: "create_dir_all F (butlast ?final) (disk w) = (y1, f1)" by fastforce
  have f1: "files F f1 = files F (disk w)" by (rule files_same [OF frames(1) [OF F] mk])
  obtain y2 f2 where ex: "try_exists F ?final f1 = (y2, f2)" by fastforce
  have f2: "files F f2 = files F (disk w)" using files_same [OF frames(9) [OF F] ex] f1 by simp
  have d1: "dirs F (disk w) ?final" if "dirs F f1 ?final"
    using create_dir_dirs [OF F mk that] parent_not_below by metis
  have d2: "dirs F (disk w) ?final" if "dirs F f2 ?final"
    by (rule d1, rule no_dirD [OF no_dirs(8) [OF F] ex that])
  note unfolded = publish_reserved_def Let_def and_then_def on_world_def io_def on_disk_def map_err_def
  consider e where "y1 = Inl e" | e where "y1 = Inr ()" "y2 = Inl e" | "y1 = Inr ()" "y2 = Inr True"
    | "y1 = Inr ()" "y2 = Inr False"
    by (cases y1; cases y2; cases "projr y2") auto
  then show ?thesis
  proof cases
    case 1
    with run True mk f1 old show ?thesis by (auto simp: unfolded publish_effect_error)
  next
    case 2
    with run True mk ex f2 old show ?thesis by (auto simp: unfolded publish_effect_error)
  next
    case 3
    with run True mk ex have "and_then (on_world (io (remove_file F staged)))
        (\<lambda>_. and_then (mark Vacant) (\<lambda>_. ok False)) (res, w\<lparr>disk := f2\<rparr>) = (x, res', w')"
      by (simp add: publish_reserved_def Let_def io_then)
    from already_published_effect [OF F neq old this] f2
    have "publish_effect F staged ?final (disk w) (disk w') (reservation_state res) (reservation_state res') x"
      using publish_effect_cong [of F f2 "disk w"] by simp
    moreover have "files F (disk w) ?final \<noteq> None \<or> dirs F f1 ?final"
      using ex 3 f1 try_exists_spec [OF F, of ?final f1 True f2] by simp
    ultimately show ?thesis using True d1 by blast
  next
    case 4
    have none: "files F (disk (w\<lparr>disk := f2\<rparr>)) ?final = None"
      using ex 4 f1 f2 try_exists_spec [OF F, of ?final f1 False f2] by simp
    from run True mk ex 4 have run': "outcome (on_world (on_disk (rename F staged ?final))) (\<lambda>renamed.
        case renamed of
          Inl IoAlreadyExists \<Rightarrow>
            and_then (on_world (io (remove_file F staged))) (\<lambda>_. and_then (mark Vacant) (\<lambda>_. ok False))
        | Inl error \<Rightarrow> throw (Io error)
        | Inr _ \<Rightarrow>
            and_then (mark Published) (\<lambda>_.
            and_then (sync_parent F durability (butlast ?final)) (\<lambda>_. ok True))) (res, w\<lparr>disk := f2\<rparr>) = (x, res', w')"
      by (simp add: publish_reserved_def Let_def io_then
          io_then [where v = False and m = "try_exists F ?final" and w = "w\<lparr>disk := f1\<rparr>" and f = f2])
    from install_effect [OF F neq old none run'] f2 True d2 show ?thesis
      using publish_effect_cong [of F f2 "disk w"] by auto
  qed
qed

section \<open>The bodies on disk\<close>

text \<open>
  Nothing but a publication and the removals touches a file outside the temporary
  directories, whatever the outcome of an operation.
\<close>

definition is_temp :: "crates \<Rightarrow> ArtifactFiles \<Rightarrow> Path \<Rightarrow> bool" where
  "is_temp c A q \<longleftrightarrow> (\<exists>ch u. q = temporary_path c A ch u)"

definition others_kept ::
  "crates \<Rightarrow> 'f fs \<Rightarrow> ArtifactFiles \<Rightarrow> (Path \<Rightarrow> bytes option) \<Rightarrow> 'f \<Rightarrow> bool" where
  "others_kept c F A G f \<longleftrightarrow> (\<forall>q. \<not> is_temp c A q \<longrightarrow> files F f q = G q)"

fun temp_state :: "crates \<Rightarrow> ArtifactFiles \<Rightarrow> ReservationState \<Rightarrow> bool" where
  "temp_state c A (Temporary p) \<longleftrightarrow> is_temp c A p" | "temp_state c A _ \<longleftrightarrow> True"

definition staging_kept where
  "staging_kept c F A G = (\<lambda>(res, w). others_kept c F A G (disk w) \<and> temp_state c A (reservation_state res))"

lemma others_kept_frame:
  "frame F P m \<Longrightarrow> (\<And>q. q \<in> P \<Longrightarrow> is_temp c A q) \<Longrightarrow> m f = (x, f') \<Longrightarrow>
    others_kept c F A G f \<Longrightarrow> others_kept c F A G f'"
  unfolding others_kept_def frame_def by metis

lemma keeps_kept_io:
  assumes "frame F P m" and "\<And>q. q \<in> P \<Longrightarrow> is_temp c A q"
  shows "keeps (staging_kept c F A G) (on_world (io m))"
  by (rule keepsI)
    (auto simp: staging_kept_def elim!: on_world_E io_E intro: others_kept_frame [OF assms])

lemma keeps_kept_mark: "temp_state c A s \<Longrightarrow> keeps (staging_kept c F A G) (mark s)"
  unfolding mark_def by (rule keeps_modify) (auto simp: staging_kept_def)

lemma keeps_kept_reserve_until: "keeps (staging_kept c F A G) (reserve_until R extent len)"
  by (rule keepsI) (auto simp: staging_kept_def dest!: reserve_until_world)

lemma keeps_kept_cover: "keeps (staging_kept c F A G) (cover_stored R stored)"
  by (rule keepsI) (auto simp: staging_kept_def elim!: cover_stored_E)

lemma keeps_kept_chunks:
  assumes "fs_ok F" and "is_temp c A (writer_file wr)"
  shows "keeps (staging_kept c F A G) (stage_chunks F R extent wr max_bytes h len stream)"
proof (induction stream arbitrary: h len)
  case (Cons item stream)
  have "keeps (staging_kept c F A G) (on_world (io (writer_write_all F wr chunk)))" for chunk
    by (rule keeps_kept_io [OF frame_writer [OF assms(1)]]) (use assms(2) in simp)
  with Cons show ?case
    by (cases item)
      (auto intro!: keeps_and_then keeps_kept_reserve_until simp: keeps_throw split: option.split)
qed (simp add: keeps_ok)

lemma keeps_kept_ulid:
  assumes "fs_ok F"
  shows "keeps (staging_kept c F A G) (on_world (fresh_ulid F))"
  by (rule keepsI)
    (auto simp: staging_kept_def others_kept_def elim!: on_world_E fresh_ulid_E [OF assms])

lemma writer_file_new: "writer_file (StageWriter_new p enc) = p"
  by (cases enc) (simp_all add: StageWriter_new_def)

lemma finish_path: "writer_finish F (StageWriter_new p enc) f = (Inr file, f') \<Longrightarrow> file = p"
  by (cases enc) (auto simp: writer_finish_def StageWriter_new_def ok_def elim!: and_then_E)

lemma keeps_kept_stage_reserved:
  assumes F: "fs_ok F"
  shows "keeps (staging_kept c F A G) (stage_reserved c F R A ch stream max_bytes durability enc)"
proof -
  have temp: "is_temp c A (temporary_path c A ch u)" for u by (auto simp: is_temp_def)
  have "keeps (staging_kept c F A G) (on_world (io (create_new F (temporary_path c A ch u))))" for u
    by (rule keeps_kept_io [OF frames(2) [OF F]]) (simp add: temp)
  moreover have "keeps (staging_kept c F A G) (on_world (io (writer_finish F (StageWriter_new (temporary_path c A ch u) enc))))" for u
    by (rule keeps_kept_io [OF frame_finish [OF F]]) (simp add: temp writer_file_new)
  moreover have "keeps (staging_kept c F A G) (stage_chunks F R (reservation_extent A)
      (StageWriter_new (temporary_path c A ch u) enc) max_bytes [] 0 stream)" for u
    by (rule keeps_kept_chunks [OF F]) (simp add: temp writer_file_new)
  ultimately show ?thesis
    unfolding stage_reserved_def Let_def stored_length_def sync_body_def
    by (auto intro!: keeps_and_then keeps_ok keeps_if keeps_kept_mark keeps_kept_cover keeps_kept_ulid [OF F]
        keeps_kept_io [OF frames(1) [OF F]] keeps_kept_io [OF frames(7) [OF F]] keeps_kept_io [OF frames(8) [OF F]]
        simp: temp split: StoredEncoding.split)
qed

lemma disk_on_space [simp]: "disk (on_space g w) = disk w"
  by (simp add: on_space_def)

lemma disk_settled [simp]:
  "disk (settlement_release R b w) = disk w" "disk (settlement_commit R b w) = disk w"
  "disk (settle_removal R x b w) = disk w"
  by (auto simp: settlement_release_def settlement_commit_def settle_removal_def
      split: sum.split IoError.split unit.split)

lemma discard_kept:
  assumes "fs_ok F" and "staging_kept c F A G (res, w)"
  shows "others_kept c F A G (disk (discard F R res w))"
proof (cases "reservation_state res")
  case (Temporary p)
  obtain x f' where rm: "remove_file F p (disk w) = (x, f')" by fastforce
  have "others_kept c F A G f'"
    by (rule others_kept_frame [OF frames(10) [OF assms(1)] _ rm])
      (use assms(2) Temporary in \<open>auto simp: staging_kept_def\<close>)
  with Temporary rm show ?thesis by (simp add: discard_def Let_def on_disk_def)
qed (use assms(2) in \<open>simp_all add: discard_def Let_def staging_kept_def\<close>)

text \<open>Staging leaves every file outside the temporary directories alone.\<close>

lemma stage_keeps_bodies:
  assumes F: "fs_ok F"
    and run: "stage c F R A ch stream max_bytes content_length durability enc w = (x, w')"
  shows "others_kept c F A (files F (disk w)) (disk w')"
proof -
  let ?initial = "case content_length of Some d \<Rightarrow> min d max_bytes | None \<Rightarrow> reservation_extent A"
  obtain granted res w1 where r: "reserve R ?initial Reservation_new w = (granted, res, w1)"
    by (metis prod_cases3)
  then have w1: "disk w1 = disk w" "reservation_state res = Vacant"
    by (auto simp: reserve_def Reservation_new_def split: if_splits prod.splits bool.splits)
  show ?thesis
  proof (cases granted)
    case False
    with run r w1 show ?thesis by (auto simp: stage_def Let_def others_kept_def)
  next
    case True
    obtain y res' w2 where s: "stage_reserved c F R A ch stream max_bytes durability enc (res, w1) = (y, res', w2)"
      by (metis prod_cases3)
    have "staging_kept c F A (files F (disk w)) (res, w1)"
      using w1 by (simp add: staging_kept_def others_kept_def)
    from keepsD [OF keeps_kept_stage_reserved [OF F] this s]
    have kept: "staging_kept c F A (files F (disk w)) (res', w2)" .
    from discard_kept [OF F kept] kept run r s True show ?thesis
      by (auto simp: stage_def Let_def staging_kept_def split: sum.splits prod.splits)
  qed
qed

lemma artifact_not_temp: "\<not> is_temp c A (artifact_path c A ch a)"
  using temporary_not_artifact by (metis is_temp_def)

lemma bodies_others: "others_kept c F A (files F f) f' \<Longrightarrow> bodies_ok c F A f \<Longrightarrow> bodies_ok c F A f'"
  by (simp add: bodies_ok_def others_kept_def artifact_not_temp)

lemma stage_ready:
  assumes F: "fs_ok F" and fit: "chunks_fit stream"
    and run: "stage c F R A ch stream max_bytes content_length durability enc w = (Inr (Ready st), w')"
  shows "staged_ok c F A (disk w') (stream_body stream) st \<and> (\<forall>item \<in> set stream. \<not> isl item)
    \<and> staged_encoding st = enc \<and> (stream \<noteq> [] \<longrightarrow> staged_len st \<le> max_bytes)"
proof -
  let ?initial = "case content_length of Some d \<Rightarrow> min d max_bytes | None \<Rightarrow> reservation_extent A"
  obtain granted res w1 where r: "reserve R ?initial Reservation_new w = (granted, res, w1)"
    by (metis prod_cases3)
  obtain y res' w2 where s: "stage_reserved c F R A ch stream max_bytes durability enc (res, w1) = (y, res', w2)"
    by (metis prod_cases3)
  from run r s have "granted"
    by (auto simp: stage_def Let_def split: bool.splits)
  with run r s obtain p d len stored where y: "y = Inr (p, d, len, stored)" and w: "w' = w2"
    and st: "st = \<lparr>staged_path = p, staged_digest = d, staged_len = len, staged_stored_len = stored,
      staged_encoding = enc, staged_reservation = res'\<rparr>"
    by (auto simp: stage_def Let_def split: sum.splits prod.splits)
  from stage_reserved_body [OF F fit s [unfolded y]] st w show ?thesis
    by (auto simp: staged_ok_def)
qed

lemma publish_file_effect:
  assumes F: "fs_ok F" and st: "staged_ok c F A (disk w) body st"
    and run: "publish_file c F R A ch a st durability w = (x, w')"
  shows "(\<forall>q. q \<noteq> staged_path st \<longrightarrow> q \<noteq> artifact_path c A ch a \<longrightarrow> files F (disk w') q = files F (disk w) q)
    \<and> (case x of
        Inr (Created res) \<Rightarrow> Sha256_digest c body = digest a \<and> reservation_state res = Published
          \<and> files F (disk w) (artifact_path c A ch a) = None
          \<and> files F (disk w') (artifact_path c A ch a) = Some (encoded F (staged_encoding st) body)
          \<and> files F (disk w') (staged_path st) = None
      | Inr (Existing res) \<Rightarrow> Sha256_digest c body = digest a \<and> reservation_state res = Vacant
          \<and> (files F (disk w) (artifact_path c A ch a) \<noteq> None \<or> dirs F (disk w) (artifact_path c A ch a))
          \<and> files F (disk w') (artifact_path c A ch a) = files F (disk w) (artifact_path c A ch a)
          \<and> files F (disk w') (staged_path st) = None
      | Inl e \<Rightarrow> files F (disk w') (artifact_path c A ch a) = files F (disk w) (artifact_path c A ch a)
          \<or> Sha256_digest c body = digest a
            \<and> files F (disk w') (artifact_path c A ch a) = Some (encoded F (staged_encoding st) body))"
proof -
  let ?final = "artifact_path c A ch a" and ?staged = "staged_path st"
  have neq: "?staged \<noteq> ?final" using st temporary_not_artifact by (metis staged_ok_def)
  have temp: "reservation_state (staged_reservation st) = Temporary ?staged"
    using st by (simp add: staged_ok_def)
  then have old: "reservation_state (staged_reservation st) \<noteq> Published" by simp
  obtain y res w1 where p: "publish_reserved c F A ch a ?staged (staged_digest st) durability
      (staged_reservation st, w) = (y, res, w1)"
    by (metis prod_cases3)
  note eff = publish_reserved_effect [OF F neq old p]
  show ?thesis
  proof (cases y)
    case (Inr created)
    with run p eff st show ?thesis
      by (cases created) (auto simp: publish_file_def publish_effect_def staged_ok_def)
  next
    case (Inl e)
    with run p have x: "x = Inl e" "w' = discard F R res w1" by (auto simp: publish_file_def)
    show ?thesis
    proof (cases "reservation_state res = Published")
      case True
      with x have "disk w' = disk w1" by (simp add: discard_def Let_def)
      with True x Inl eff temp st show ?thesis by (auto simp: publish_effect_def staged_ok_def)
    next
      case False
      obtain z f2 where rm: "remove_file F ?staged (disk w1) = (z, f2)" by fastforce
      from False eff Inl temp have "reservation_state res = Temporary ?staged"
        by (auto simp: publish_effect_def)
      with x rm have "disk w' = f2" by (simp add: discard_def Let_def on_disk_def)
      with remove_file_spec [OF F rm] neq False Inl x eff temp show ?thesis
        by (auto simp: publish_effect_def)
    qed
  qed
qed

lemma publish_keeps_bodies:
  assumes F: "fs_ok F" and ids: "hex_ok c" "ulid_ok c" and st: "staged_ok c F A (disk w) body st"
    and run: "publish_file c F R A ch a st durability w = (x, w')" and bodies: "bodies_ok c F A (disk w)"
  shows "bodies_ok c F A (disk w')"
  unfolding bodies_ok_def
proof (intro allI impI)
  fix ch' a' bs
  assume bs: "files F (disk w') (artifact_path c A ch' a') = Some bs"
  have neq: "artifact_path c A ch' a' \<noteq> staged_path st"
    using st temporary_not_artifact by (metis staged_ok_def)
  note eff = publish_file_effect [OF F st run]
  show "body_of c F a' bs"
  proof (cases "artifact_path c A ch' a' = artifact_path c A ch a")
    case False
    with eff neq bs bodies show ?thesis by (simp add: bodies_ok_def)
  next
    case True
    then have a: "a' = a" "ch' = ch" using artifact_path_inject [OF ids] by auto
    with eff bs have "files F (disk w) (artifact_path c A ch a) = Some bs
        \<or> Sha256_digest c body = digest a \<and> bs = encoded F (staged_encoding st) body"
      by (auto split: sum.splits FilePublication.splits)
    with bodies a show ?thesis by (auto simp: bodies_ok_def body_of_def)
  qed
qed

lemma ignore_not_found_E:
  assumes "ignore_not_found (on_disk m) w = (x, w')"
  obtains y f' where "m (disk w) = (y, f')" and "w' = w\<lparr>disk := f'\<rparr>"
    and "x = (case y of Inr _ \<Rightarrow> Inr () | Inl IoNotFound \<Rightarrow> Inr () | Inl e \<Rightarrow> Inl (Io e))"
proof -
  obtain y f' where m: "m (disk w) = (y, f')" by fastforce
  have "w' = w\<lparr>disk := f'\<rparr>
      \<and> x = (case y of Inr _ \<Rightarrow> Inr () | Inl IoNotFound \<Rightarrow> Inr () | Inl e \<Rightarrow> Inl (Io e))"
    using assms m
    by (cases y) (auto simp: ignore_not_found_def outcome_def on_disk_def ok_def throw_def split: IoError.splits)
  with m that show thesis by blast
qed

lemma remove_body_effect:
  assumes "fs_ok F" and "remove_body c F A ch a w = (x, w')"
  shows "space w' = space w \<and> (\<forall>q. q \<noteq> artifact_path c A ch a \<longrightarrow> files F (disk w') q = files F (disk w) q)
    \<and> (x = Inr () \<longrightarrow> files F (disk w') (artifact_path c A ch a) = None)
    \<and> (\<forall>e. x = Inl e \<longrightarrow> files F (disk w') (artifact_path c A ch a) = files F (disk w) (artifact_path c A ch a))"
proof -
  from assms(2) obtain y f' where rm: "remove_file F (artifact_path c A ch a) (disk w) = (y, f')"
    and w': "w' = w\<lparr>disk := f'\<rparr>"
    and x: "x = (case y of Inr _ \<Rightarrow> Inr () | Inl IoNotFound \<Rightarrow> Inr () | Inl e \<Rightarrow> Inl (Io e))"
    unfolding remove_body_def by (rule ignore_not_found_E)
  from remove_file_spec [OF assms(1) rm] w' x show ?thesis
    by (auto split: sum.splits IoError.splits) metis
qed

section \<open>Capacity covers what is on disk\<close>

context reserver
begin

lemma stage_reserved_enough:
  assumes "covers base (res, w)"
    and run: "stage_reserved c F R A ch stream max_bytes durability enc (res, w)
      = (Inr (p, d, len, stored), res', w')"
  shows "stored \<le> outstanding res'"
proof -
  from run obtain f1 w2 u f3 h res4 w4 f5 fl res6 w6 res7 w7 where
    ulid: "fresh_ulid F (w\<lparr>disk := f1\<rparr>) = (Inr u, w2)"
    and chunks: "stage_chunks F R (reservation_extent A) (StageWriter_new p enc) max_bytes [] 0 stream
      (res\<lparr>reservation_state := Temporary p\<rparr>, w2\<lparr>disk := f3\<rparr>) = (Inr (h, len), res4, w4)"
    and size: "stored_length F enc len fl (res4, w4\<lparr>disk := f5\<rparr>) = (Inr stored, res6, w6)"
    and cover: "cover_stored R stored (res6, w6) = (Inr (), res7, w7)"
    and sync: "sync_body F durability fl (res7, w7) = (Inr (), res', w')"
    by (rule stage_reserved_E)
  from ulid assms(1) have "covers base (res\<lparr>reservation_state := Temporary p\<rparr>, w2\<lparr>disk := f3\<rparr>)"
    by (auto simp: fresh_ulid_def on_disk_def split: prod.splits)
  from keepsD [OF covers_stage_chunks this chunks] size have "covers base (res6, w6)"
    by (auto simp: stored_length_def ok_def split: StoredEncoding.splits elim!: on_world_E io_E)
  from cover_stored_enough [OF this cover] sync show ?thesis
    by (auto simp: sync_body_def ok_def split: if_splits elim!: on_world_E)
qed

lemma stage_enough:
  assumes "lawful (space w)"
    and run: "stage c F R A ch stream max_bytes content_length durability enc w = (Inr (Ready st), w')"
  shows "staged_stored_len st \<le> outstanding (staged_reservation st)"
proof -
  let ?initial = "case content_length of Some d \<Rightarrow> min d max_bytes | None \<Rightarrow> reservation_extent A"
  obtain granted res w1 where r: "reserve R ?initial Reservation_new w = (granted, res, w1)"
    by (metis prod_cases3)
  have "covers (held (space w)) (Reservation_new, w)"
    using assms(1) by (simp add: covers_def Reservation_new_def)
  from covers_reserve [OF this r] have cov: "covers (held (space w)) (res, w1)" by simp
  obtain y res' w2 where s: "stage_reserved c F R A ch stream max_bytes durability enc (res, w1) = (y, res', w2)"
    by (metis prod_cases3)
  from run r s stage_reserved_enough [OF cov] show ?thesis
    by (auto simp: stage_def Let_def split: bool.splits sum.splits)
qed

text \<open>
  Capacity is given back without being counted as used only when the temporary file is
  gone, or when there never was one.
\<close>

lemma settle_removal_spent:
  assumes "covers base (res, w)"
  shows "spent (space (settle_removal R x (outstanding res) w)) = spent (space w)
    \<longleftrightarrow> x = Inr () \<or> x = Inl IoNotFound \<or> outstanding res = 0"
  using covers_settled [OF assms]
  by (auto simp: settle_removal_def settlement_release_def settlement_commit_def on_space_def unat_eq_0
      split: sum.split IoError.split unit.split)

lemma discard_releases_only_gone:
  assumes F: "fs_ok F" and cov: "covers base (res, w)" and out: "outstanding res > 0"
    and temp: "reservation_state res = Temporary p"
    and free: "spent (space (discard F R res w)) = spent (space w)"
  shows "files F (disk (discard F R res w)) p = None"
proof -
  obtain x f' where rm: "remove_file F p (disk w) = (x, f')" by fastforce
  have cov': "covers base (res, w\<lparr>disk := f'\<rparr>)" using cov by simp
  have eq: "discard F R res w = settle_removal R x (outstanding res) (w\<lparr>disk := f'\<rparr>)"
    using rm temp by (simp add: discard_def Let_def on_disk_def)
  with settle_removal_spent [OF cov', of x] free out have "x = Inr () \<or> x = Inl IoNotFound" by auto
  with remove_file_spec [OF F rm] eq show ?thesis by auto
qed

lemma drop_releases_only_gone:
  assumes F: "fs_ok F" and cov: "covers base (res, w)" and out: "outstanding res > 0"
    and temp: "reservation_state res = Temporary p"
    and free: "spent (space (reservation_drop F R fate res w)) = spent (space w)"
  shows "files F (disk (reservation_drop F R fate res w)) p = None"
proof -
  obtain x f' where rm: "remove_file F p (disk w) = (x, f')" by fastforce
  have cov': "covers base (res, w\<lparr>disk := f'\<rparr>)" using cov by simp
  have pos: "unat (outstanding res) > 0" using out by (simp add: word_less_nat_alt)
  have eq: "reservation_drop F R fate res w = schedule_removal F R fate p (outstanding res) w"
    using temp out by (auto simp: reservation_drop_def Let_def)
  show ?thesis
  proof (cases fate)
    case RunsToEnd
    then have "reservation_drop F R fate res w = settle_removal R x (outstanding res) (w\<lparr>disk := f'\<rparr>)"
      using eq rm by (simp add: schedule_removal_def on_disk_def)
    with settle_removal_spent [OF cov', of x] free out remove_file_spec [OF F rm] show ?thesis by auto
  qed (use eq free pos out covers_settled [OF cov] rm in
      \<open>auto simp: schedule_removal_def settlement_commit_def settlement_drop_def on_space_def on_disk_def\<close>)
qed

end

section \<open>The rest of the state\<close>

text \<open>Local operations touch the disk and the ledger only.\<close>

definition more_kept :: "'m \<Rightarrow> 'r \<times> ('f, 'l, 'm) local_world_scheme \<Rightarrow> bool" where
  "more_kept m = (\<lambda>(res, w). local_world.more w = m)"

lemma more_io: "keeps (more_kept m) (on_world (io a))" "keeps (more_kept m) (on_world (on_disk b))"
  by (rule keepsI, auto simp: more_kept_def elim!: on_world_E io_E on_disk_E)+

lemma more_mark: "keeps (more_kept m) (mark s)"
  unfolding mark_def by (rule keeps_modify) (auto simp: more_kept_def)

lemma more_reserve: "reserve R b res w = (g, res', w') \<Longrightarrow> local_world.more w' = local_world.more w"
  by (auto simp: reserve_def split: if_splits prod.splits bool.splits)

lemma more_reserve_until_run:
  "reserve_until R extent len s = (x, t) \<Longrightarrow> more_kept m s \<Longrightarrow> more_kept m t"
proof (induction R extent len s arbitrary: x t rule: reserve_until.induct)
  case (1 R extent len res w)
  obtain granted res' w' where r: "reserve R extent res w = (granted, res', w')"
    by (metis prod_cases3)
  with more_reserve [OF r] "1.prems" "1.IH" [OF _ _ r [symmetric]] show ?case
    by (cases granted) (auto simp: more_kept_def reserve_until.simps [of R extent len res w] split: if_splits)
qed

lemma more_reserve_until: "keeps (more_kept m) (reserve_until R extent len)"
  by (rule keepsI) (blast dest: more_reserve_until_run)

lemma more_cover: "keeps (more_kept m) (cover_stored R stored)"
  by (rule keepsI)
    (auto simp: more_kept_def cover_stored_def reserve_or_fail_def split: if_splits prod.splits bool.splits
      dest!: more_reserve)

lemma more_chunks: "keeps (more_kept m) (stage_chunks F R extent wr max_bytes h len stream)"
proof (induction stream arbitrary: h len)
  case (Cons item stream)
  then show ?case
    by (cases item) (auto intro!: keeps_and_then more_io more_reserve_until simp: keeps_throw split: option.split)
qed (simp add: keeps_ok)

lemma more_stage_reserved: "keeps (more_kept m) (stage_reserved c F R A ch stream max_bytes durability enc)"
  unfolding stage_reserved_def Let_def stored_length_def sync_body_def fresh_ulid_def
  by (auto intro!: keeps_and_then keeps_ok more_io more_mark more_cover more_chunks split: StoredEncoding.split)

lemma more_publish_reserved: "keeps (more_kept m) (publish_reserved c F A ch a staged d durability)"
  unfolding publish_reserved_def sync_parent_def Let_def
  by (auto intro!: act_keeps more_io more_mark split: IoError.split sum.split)

lemma more_discard: "local_world.more (discard F R res w) = local_world.more w"
  by (auto simp: discard_def Let_def settlement_release_def settlement_commit_def settle_removal_def on_space_def
      on_disk_def split: ReservationState.split prod.split sum.split IoError.split)

lemma more_stage:
  assumes "stage c F R A ch stream max_bytes content_length durability enc w = (x, w')"
  shows "local_world.more w' = local_world.more w"
proof -
  let ?initial = "case content_length of Some d \<Rightarrow> min d max_bytes | None \<Rightarrow> reservation_extent A"
  obtain granted res w1 where r: "reserve R ?initial Reservation_new w = (granted, res, w1)"
    by (metis prod_cases3)
  obtain y res' w2 where s: "stage_reserved c F R A ch stream max_bytes durability enc (res, w1) = (y, res', w2)"
    by (metis prod_cases3)
  have "more_kept (local_world.more w) (res, w1)" using more_reserve [OF r] by (simp add: more_kept_def)
  from keepsD [OF more_stage_reserved this s] assms r s more_reserve [OF r] show ?thesis
    by (auto simp: stage_def Let_def more_kept_def more_discard split: bool.splits sum.splits prod.splits)
qed

lemma more_publish:
  assumes "publish_file c F R A ch a st durability w = (x, w')"
  shows "local_world.more w' = local_world.more w"
proof -
  obtain y res w1 where p: "publish_reserved c F A ch a (staged_path st) (staged_digest st) durability
      (staged_reservation st, w) = (y, res, w1)"
    by (metis prod_cases3)
  have "more_kept (local_world.more w) (staged_reservation st, w)" by (simp add: more_kept_def)
  from keepsD [OF more_publish_reserved this p] assms p show ?thesis
    by (auto simp: publish_file_def more_kept_def more_discard split: sum.splits)
qed

section \<open>Directories\<close>

text \<open>Staging makes no directory at the path of an artifact.\<close>

abbreviation no_dir_at :: "'f fs \<Rightarrow> Path \<Rightarrow> Reservation \<times> ('f, 'l, 'm) local_world_scheme \<Rightarrow> bool" where
  "no_dir_at F q \<equiv> \<lambda>(res, w). \<not> dirs F (disk w) q"

lemma keeps_no_dir: "makes_no_dir F m \<Longrightarrow> keeps (no_dir_at F q) (on_world (on_disk m))"
  by (rule keepsI) (auto simp: on_world_def on_disk_def dest: no_dirD split: prod.splits)

lemma keeps_no_dir_io: "makes_no_dir F m \<Longrightarrow> keeps (no_dir_at F q) (on_world (io m))"
  by (rule keepsI) (auto simp: on_world_def io_def map_err_def on_disk_def dest: no_dirD split: prod.splits sum.splits)

lemma no_dir_then:
  "makes_no_dir F m \<Longrightarrow> (\<And>x. makes_no_dir F (g x)) \<Longrightarrow> makes_no_dir F (and_then m g)" "makes_no_dir F (ok x)"
  unfolding makes_no_dir_def by (blast elim!: and_then_E) (simp add: ok_def)

lemma no_dir_writer:
  "fs_ok F \<Longrightarrow> makes_no_dir F (writer_write_all F wr b)" "fs_ok F \<Longrightarrow> makes_no_dir F (writer_finish F wr)"
  unfolding writer_write_all_def writer_finish_def by (cases wr; simp add: no_dirs no_dir_then)+

lemma reserve_disk: "reserve R bs res w = (b, res', w') \<Longrightarrow> disk w' = disk w"
  by (auto simp: reserve_def split: prod.splits if_splits bool.splits)

lemma keeps_no_dir_reserve:
  "keeps (no_dir_at F q) (reserve_or_fail R bs)" "keeps (no_dir_at F q) (reserve_until R extent len)"
  "keeps (no_dir_at F q) (cover_stored R stored)"
proof -
  show fail: "keeps (no_dir_at F q) (reserve_or_fail R bs)" for bs
    by (rule keepsI) (auto simp: reserve_or_fail_def dest: reserve_disk split: prod.splits bool.splits)
  show "keeps (no_dir_at F q) (cover_stored R stored)"
    by (rule keepsI) (auto simp: cover_stored_def split: if_splits dest: keepsD [OF fail, rotated])
  show "keeps (no_dir_at F q) (reserve_until R extent len)"
    by (rule keepsI) (auto dest!: reserve_until_world)
qed

lemma keeps_no_dir_chunks:
  "fs_ok F \<Longrightarrow> keeps (no_dir_at F q) (stage_chunks F R extent wr max_bytes hs len stream)"
  by (induction F R extent wr max_bytes hs len stream rule: stage_chunks.induct)
    (auto intro!: act_keeps keeps_no_dir_reserve keeps_no_dir_io no_dir_writer split: option.split)

lemma keeps_no_dir_tmp:
  "fs_ok F \<Longrightarrow> keeps (no_dir_at F (artifact_path c A ch a)) (on_world (io (create_dir_all F (channel_dir c A ch' @ [''tmp'']))))"
proof (rule keepsI)
  fix s x t
  assume F: "fs_ok F" and s: "no_dir_at F (artifact_path c A ch a) s"
    and run: "on_world (io (create_dir_all F (channel_dir c A ch' @ [''tmp'']))) s = (x, t)"
  obtain y f where mk: "create_dir_all F (channel_dir c A ch' @ [''tmp'']) (disk (snd s)) = (y, f)" by fastforce
  have "channel_dir c A ch' @ [''tmp''] \<noteq> artifact_path c A ch a @ rest" for rest
    by (simp add: artifact_path_def channel_dir_def Let_def)
  with create_dir_dirs [OF F mk] s have "\<not> dirs F f (artifact_path c A ch a)" by (auto split: prod.splits)
  with run mk show "no_dir_at F (artifact_path c A ch a) t"
    by (auto simp: on_world_def io_def map_err_def on_disk_def split: prod.splits sum.splits)
qed

lemma keeps_no_dir_mark: "keeps (no_dir_at F q) (mark s)"
  by (auto simp: keeps_def mark_def modify_def)

lemma stage_dirs:
  assumes F: "fs_ok F" and run: "stage c F R A ch stream max_bytes declared durability enc w = (Inr (Ready st), w')"
    and dir: "dirs F (disk w') (artifact_path c A ch' a)"
  shows "dirs F (disk w) (artifact_path c A ch' a)"
proof (rule ccontr)
  assume none: "\<not> dirs F (disk w) (artifact_path c A ch' a)"
  have ulid: "makes_no_dir F (\<lambda>f. case ulid_new F f of (u, f') \<Rightarrow> (Inr u, f'))"
    using F unfolding makes_no_dir_def fs_ok_def dirs_ok_def by (auto split: prod.splits)
  have "keeps (no_dir_at F (artifact_path c A ch' a)) (stage_reserved c F R A ch stream max_bytes durability enc)"
    unfolding stage_reserved_def fresh_ulid_def stored_length_def sync_body_def Let_def
    by (rule keeps_and_then, rule keeps_no_dir_tmp [OF F])
      (auto intro!: act_keeps keeps_no_dir keeps_no_dir_io keeps_no_dir_mark keeps_no_dir_chunks
        keeps_no_dir_reserve no_dir_writer no_dirs ulid F split: StoredEncoding.split prod.split)
  moreover obtain res w1 y res' where "reserve R (case declared of Some d \<Rightarrow> min d max_bytes | None \<Rightarrow> reservation_extent A)
      Reservation_new w = (True, res, w1)"
    and "stage_reserved c F R A ch stream max_bytes durability enc (res, w1) = (y, res', w')"
    using run by (auto simp: stage_def Let_def split: prod.splits bool.splits sum.splits)
  ultimately show False using none dir reserve_disk by (metis (no_types, lifting) case_prod_conv keepsD)
qed

end
