(* ===== verification/Recent_Use.thy ===== *)
theory Recent_Use
  imports Domain
begin

unbundle bit_operations_syntax

text \<open>
  The recency filter (\<open>src/cache/recent_use.rs\<close>): two Bloom filters of 64-bit words, of
  which one is active. \<open>DefaultHasher\<close> is a parameter \<open>h\<close>, the hash of a channel and a
  digest; the filters need no law of it. A \<open>usize\<close> is a natural number here: every value
  the code computes stays below the number of bits.
\<close>

section \<open>The filters\<close>

definition probes :: nat where
  "probes = 4"

record RecentUse =
  filters :: "u64 list list"
  filter_bits :: nat
  active_filter :: nat

type_synonym hasher = "ChannelId \<Rightarrow> bytes \<Rightarrow> u64"

definition new_words :: "nat \<Rightarrow> u64 list" where
  "new_words words = replicate words 0"

definition RecentUse_new :: "nat \<Rightarrow> RecentUse" where
  "RecentUse_new n =
     (let words = (n + 63) div 64
      in \<lparr>filters = [new_words words, new_words words], filter_bits = words * 64, active_filter = 0\<rparr>)"

definition positions :: "hasher \<Rightarrow> RecentUse \<Rightarrow> ChannelId \<Rightarrow> ArtifactId \<Rightarrow> nat list" where
  "positions h r channel artifact =
     (let seed = h channel (bytes_of32 (digest artifact));
          start = seed AND 0xffffffff;
          step = drop_bit 32 seed OR 1;
          n = of_nat (filter_bits r)
      in map (\<lambda>probe. unat ((start + step * of_nat probe) mod n)) [0..<probes])"

definition set_bit_at :: "nat \<Rightarrow> u64 list \<Rightarrow> u64 list" where
  "set_bit_at position ws = ws[position div 64 := ws ! (position div 64) OR push_bit (position mod 64) 1]"

definition mark_recent :: "hasher \<Rightarrow> ChannelId \<Rightarrow> ArtifactId \<Rightarrow> RecentUse \<Rightarrow> RecentUse" where
  "mark_recent h channel artifact r =
     (let i = active_filter r mod 2
      in r\<lparr>filters := (filters r)[i := fold set_bit_at (positions h r channel artifact) (filters r ! i)]\<rparr>)"

definition contains :: "RecentUse \<Rightarrow> nat \<Rightarrow> nat list \<Rightarrow> bool" where
  "contains r i ps =
     list_all (\<lambda>position. filters r ! i ! (position div 64) AND push_bit (position mod 64) 1 \<noteq> 0) ps"

definition seen :: "hasher \<Rightarrow> ChannelId \<Rightarrow> ArtifactId \<Rightarrow> RecentUse \<Rightarrow> bool" where
  "seen h channel artifact r =
     (let ps = positions h r channel artifact in contains r 0 ps \<or> contains r 1 ps)"

definition rotate_filters :: "RecentUse \<Rightarrow> RecentUse" where
  "rotate_filters r =
     (let next = 1 - active_filter r mod 2
      in r\<lparr>filters := (filters r)[next := map (\<lambda>_. 0) (filters r ! next)], active_filter := next\<rparr>)"

section \<open>Invariant\<close>

definition recent_ok :: "RecentUse \<Rightarrow> bool" where
  "recent_ok r \<longleftrightarrow>
     length (filters r) = 2 \<and> (\<forall>i < 2. length (filters r ! i) * 64 = filter_bits r)
   \<and> 0 < filter_bits r \<and> filter_bits r < 2 ^ 64 \<and> active_filter r < 2"

lemma recent_ok_new: "0 < n \<Longrightarrow> n < 2 ^ 63 \<Longrightarrow> recent_ok (RecentUse_new n)"
  by (auto simp: recent_ok_def RecentUse_new_def new_words_def Let_def less_2_cases_iff nth_Cons')

lemma positions_bound:
  assumes "recent_ok r" and "p \<in> set (positions h r ch a)"
  shows "p < filter_bits r"
proof -
  have n: "unat (of_nat (filter_bits r) :: u64) = filter_bits r" "0 < filter_bits r"
    using assms(1) by (auto simp: recent_ok_def unat_of_nat)
  from assms(2) obtain x :: u64 where "p = unat (x mod of_nat (filter_bits r))"
    by (auto simp: positions_def Let_def)
  then show ?thesis using n by (simp add: unat_mod)
qed

lemma positions_same: "filter_bits r' = filter_bits r \<Longrightarrow> positions h r' ch a = positions h r ch a"
  by (simp add: positions_def)

lemma length_set_bits [simp]: "length (fold set_bit_at ps ws) = length ws"
  by (induction ps arbitrary: ws) (simp_all add: set_bit_at_def)

lemma recent_ok_mark: "recent_ok r \<Longrightarrow> recent_ok (mark_recent h ch a r)"
  by (auto simp: recent_ok_def mark_recent_def Let_def nth_list_update)

lemma recent_ok_rotate: "recent_ok r \<Longrightarrow> recent_ok (rotate_filters r)"
  by (auto simp: recent_ok_def rotate_filters_def Let_def nth_list_update)

lemma bits_kept [simp]: "filter_bits (mark_recent h ch a r) = filter_bits r" "filter_bits (rotate_filters r) = filter_bits r"
  "active_filter (mark_recent h ch a r) = active_filter r"
  by (simp_all add: mark_recent_def rotate_filters_def Let_def)

section \<open>Bits\<close>

definition bit_at :: "u64 list \<Rightarrow> nat \<Rightarrow> bool" where
  "bit_at ws p = bit (ws ! (p div 64)) (p mod 64)"

lemma contains_bits: "contains r i ps \<longleftrightarrow> (\<forall>p \<in> set ps. bit_at (filters r ! i) p)"
  by (simp add: contains_def list_all_iff bit_at_def bit_iff_and_push_bit_not_eq_0)

lemma bit_at_set:
  assumes "p div 64 < length ws"
  shows "bit_at (set_bit_at p ws) q \<longleftrightarrow> bit_at ws q \<or> q = p"
proof (cases "q div 64 = p div 64")
  case True
  have "p mod 64 < LENGTH(64)" by simp
  with True assms show ?thesis
    by (auto simp: bit_at_def set_bit_at_def bit_simps) (metis div_mult_mod_eq)
next
  case False
  then show ?thesis by (auto simp: bit_at_def set_bit_at_def)
qed

lemma bit_at_fold:
  "(\<And>p. p \<in> set ps \<Longrightarrow> p div 64 < length ws) \<Longrightarrow>
    bit_at (fold set_bit_at ps ws) q \<longleftrightarrow> bit_at ws q \<or> q \<in> set ps"
proof (induction ps arbitrary: ws)
  case (Cons p ps)
  have "length (set_bit_at p ws) = length ws" by (simp add: set_bit_at_def)
  with Cons.IH [of "set_bit_at p ws"] Cons.prems bit_at_set [of p ws q] show ?case by auto
qed simp

lemma bit_at_mark:
  assumes "recent_ok r" and "i < 2"
  shows "bit_at (filters (mark_recent h ch a r) ! i) q \<longleftrightarrow>
    bit_at (filters r ! i) q \<or> i = active_filter r \<and> q \<in> set (positions h r ch a)"
proof -
  have act: "active_filter r < 2" "length (filters r) = 2" "length (filters r ! active_filter r) * 64 = filter_bits r"
    using assms(1) by (auto simp: recent_ok_def)
  have "p div 64 < length (filters r ! active_filter r)" if "p \<in> set (positions h r ch a)" for p
    using positions_bound [OF assms(1) that] act(3) by simp
  with act assms(2) show ?thesis
    using bit_at_fold [of "positions h r ch a" "filters r ! active_filter r" q]
    by (cases "i = active_filter r") (auto simp: mark_recent_def Let_def nth_list_update)
qed

section \<open>Marks\<close>

datatype recency_op = Mark ChannelId ArtifactId | Rotate

fun recency_step :: "hasher \<Rightarrow> recency_op \<Rightarrow> RecentUse \<Rightarrow> RecentUse" where
  "recency_step h (Mark ch a) r = mark_recent h ch a r"
| "recency_step h Rotate r = rotate_filters r"

lemma recent_ok_steps: "recent_ok r \<Longrightarrow> recent_ok (fold (recency_step h) ops r)"
proof (induction ops arbitrary: r)
  case (Cons op ops)
  then show ?case by (cases op) (simp_all add: recent_ok_mark recent_ok_rotate)
qed simp

lemma bits_steps [simp]: "filter_bits (fold (recency_step h) ops r) = filter_bits r"
proof (induction ops arbitrary: r)
  case (Cons op ops)
  then show ?case by (cases op) simp_all
qed simp

text \<open>\<open>holds r i ps\<close>: all probes are set in filter \<open>i\<close>.\<close>

definition holds :: "RecentUse \<Rightarrow> nat \<Rightarrow> nat list \<Rightarrow> bool" where
  "holds r i ps \<longleftrightarrow> i < 2 \<and> contains r i ps"

lemma holds_mark: "recent_ok r \<Longrightarrow> holds r i ps \<Longrightarrow> holds (mark_recent h ch a r) i ps"
  by (auto simp: holds_def contains_bits bit_at_mark)

lemma holds_rotate: "recent_ok r \<Longrightarrow> holds r (active_filter r) ps \<Longrightarrow>
    holds (rotate_filters r) (1 - active_filter (rotate_filters r)) ps"
  by (auto simp: holds_def contains_def rotate_filters_def recent_ok_def Let_def nth_list_update less_2_cases_iff)

lemma holds_marks:
  assumes "Rotate \<notin> set ops" and "recent_ok r" and "holds r i ps"
  shows "holds (fold (recency_step h) ops r) i ps \<and> active_filter (fold (recency_step h) ops r) = active_filter r"
  using assms
proof (induction ops arbitrary: r)
  case (Cons op ops)
  then show ?case by (cases op) (auto simp: holds_mark recent_ok_mark)
qed simp

lemma holds_seen:
  "holds r i (positions h r ch a) \<Longrightarrow> seen h ch a r"
  by (auto simp: holds_def seen_def Let_def less_2_cases_iff)

lemma mark_holds: "recent_ok r \<Longrightarrow> holds (mark_recent h ch a r) (active_filter r) (positions h r ch a)"
  by (auto simp: holds_def contains_bits bit_at_mark recent_ok_def)

text \<open>
  A mark is not forgotten early: after an artifact is marked, it is reported as seen
  through any further marks and up to one rotation.
\<close>

theorem mark_survives_one_rotation:
  assumes "recent_ok r" and "count_list ops Rotate \<le> 1"
  shows "seen h ch a (fold (recency_step h) ops (mark_recent h ch a r))"
proof -
  let ?ps = "positions h r ch a" and ?r = "mark_recent h ch a r"
  have ok: "recent_ok ?r" by (rule recent_ok_mark [OF assms(1)])
  have start: "holds ?r (active_filter ?r) ?ps" using mark_holds [OF assms(1)] by simp
  have "\<exists>i. holds (fold (recency_step h) ops ?r) i ?ps"
  proof (cases "Rotate \<in> set ops")
    case False
    from holds_marks [OF this ok start] show ?thesis by blast
  next
    case True
    then obtain xs ys where ops: "ops = xs @ Rotate # ys" and xs: "Rotate \<notin> set xs"
      by (meson split_list_first)
    with assms(2) have ys: "Rotate \<notin> set ys" by (auto simp: count_list_0_iff)
    let ?s = "fold (recency_step h) xs ?r"
    have s: "recent_ok ?s" "holds ?s (active_filter ?s) ?ps"
      using recent_ok_steps [OF ok] holds_marks [OF xs ok start] by auto
    from holds_marks [OF ys recent_ok_rotate [OF s(1)] holds_rotate [OF s]] show ?thesis
      by (auto simp: ops)
  qed
  then show ?thesis using holds_seen [of _ _ h ch a] positions_same [of _ r h ch a] by (metis bits_steps bits_kept(1))
qed

theorem mark_survives_one_rotation_witness:
  "seen (\<lambda>_ _. 77) default_channel (ArtifactId (array32 []))
     (fold (recency_step (\<lambda>_ _. 77)) [Mark (ChannelId 1) (ArtifactId (array32 [9])), Rotate]
       (mark_recent (\<lambda>_ _. 77) default_channel (ArtifactId (array32 [])) (RecentUse_new 100)))"
  by (rule mark_survives_one_rotation) (simp_all add: recent_ok_new)

text \<open>
  A mark is forgotten after two rotations: whatever the filters held, after two
  rotations with no mark in between nothing is reported as seen, so an artifact that is no
  longer read becomes evictable.
\<close>

lemma two_rotations_forget:
  assumes "recent_ok r"
  shows "\<not> seen h ch a (rotate_filters (rotate_filters r))"
proof -
  have act: "active_filter r = 0 \<or> active_filter r = 1" using assms by (auto simp: recent_ok_def)
  have zero: "\<forall>i < 2. \<forall>k < length (filters r ! i). filters (rotate_filters (rotate_filters r)) ! i ! k = 0"
    using assms act by (auto simp: rotate_filters_def recent_ok_def Let_def nth_list_update less_2_cases_iff)
  have "positions h r ch a \<noteq> []" by (simp add: positions_def probes_def Let_def)
  then obtain p where p: "p \<in> set (positions h r ch a)" by (cases "positions h r ch a") auto
  have "p div 64 < length (filters r ! i)" if "i < 2" for i
    using positions_bound [OF assms p] assms that by (simp add: recent_ok_def) (metis div_less_iff_less_mult zero_less_numeral)
  with zero p have "\<not> contains (rotate_filters (rotate_filters r)) i (positions h r ch a)" if "i < 2" for i
    using that by (auto simp: contains_def list_all_iff intro!: bexI [of _ p])
  then show ?thesis
    by (simp add: seen_def Let_def positions_same [of "rotate_filters (rotate_filters r)" r])
qed

end
