(* ===== verification/Node.thy ===== *)
theory Node
  imports Metadata_Contract Staging Recent_Use
begin

text \<open>
  The state of one cache node, shared by the channel service and the cache service, and
  the counters of \<open>src/telemetry.rs\<close> they update. The parts of the environment that are
  not in the repository or are drawn from outside (clock, free space, random identifiers
  and tokens, the hash function) are fields of the service's record, read through a
  counter of draws, so that every sequence of readings is covered.
\<close>

section \<open>Metrics\<close>

record Metrics =
  requests :: u64
  hits :: u64
  misses :: u64
  bytes_read :: u64
  bytes_written :: u64
  authorization_denials :: u64
  maintenance_reclaimed :: u64
  maintenance_requeued :: u64
  build_cache_bypasses :: u64
  raw_pressure_errors :: u64
  foreground_in_flight :: int
  foreground_rejections :: u64
  free_observed_bytes :: int
  reserved_bytes :: int
  committed_since_bytes :: int

definition saturating_i64 :: "u64 \<Rightarrow> int" where
  "saturating_i64 v = min (uint v) (2 ^ 63 - 1)"

definition metrics_hit :: "u64 \<Rightarrow> Metrics \<Rightarrow> Metrics" where
  "metrics_hit bs m = m\<lparr>hits := hits m + 1, bytes_read := bytes_read m + bs\<rparr>"

definition metrics_miss :: "Metrics \<Rightarrow> Metrics" where
  "metrics_miss m = m\<lparr>misses := misses m + 1\<rparr>"

definition metrics_written :: "u64 \<Rightarrow> Metrics \<Rightarrow> Metrics" where
  "metrics_written bs m = m\<lparr>bytes_written := bytes_written m + bs\<rparr>"

definition metrics_authorization_denial :: "Metrics \<Rightarrow> Metrics" where
  "metrics_authorization_denial m = m\<lparr>authorization_denials := authorization_denials m + 1\<rparr>"

definition metrics_reclaimed :: "u64 \<Rightarrow> Metrics \<Rightarrow> Metrics" where
  "metrics_reclaimed n m = m\<lparr>maintenance_reclaimed := maintenance_reclaimed m + n\<rparr>"

definition metrics_requeued :: "Metrics \<Rightarrow> Metrics" where
  "metrics_requeued m = m\<lparr>maintenance_requeued := maintenance_requeued m + 1\<rparr>"

definition metrics_build_cache_bypass :: "Metrics \<Rightarrow> Metrics" where
  "metrics_build_cache_bypass m = m\<lparr>build_cache_bypasses := build_cache_bypasses m + 1\<rparr>"

definition metrics_raw_pressure_error :: "Metrics \<Rightarrow> Metrics" where
  "metrics_raw_pressure_error m = m\<lparr>raw_pressure_errors := raw_pressure_errors m + 1\<rparr>"

definition metrics_foreground_acquired :: "Metrics \<Rightarrow> Metrics" where
  "metrics_foreground_acquired m = m\<lparr>foreground_in_flight := foreground_in_flight m + 1\<rparr>"

definition metrics_foreground_released :: "Metrics \<Rightarrow> Metrics" where
  "metrics_foreground_released m = m\<lparr>foreground_in_flight := foreground_in_flight m - 1\<rparr>"

definition metrics_foreground_rejected :: "Metrics \<Rightarrow> Metrics" where
  "metrics_foreground_rejected m = m\<lparr>foreground_rejections := foreground_rejections m + 1\<rparr>"

definition record_space :: "SpaceSnapshot \<Rightarrow> Metrics \<Rightarrow> Metrics" where
  "record_space s m =
     m\<lparr>free_observed_bytes := saturating_i64 (snap_free_observed s),
       reserved_bytes := saturating_i64 (snap_reserved s),
       committed_since_bytes := saturating_i64 (snap_committed_since s)\<rparr>"

section \<open>The node\<close>

record ('d, 'f) node = "('f, SpaceLedger) local_world" +
  db :: 'd
  recent :: RecentUse
  maintenance_cursor :: nat
  draws :: nat
  gates :: "ChannelId set"
  stats :: Metrics

record ('d, 'f) CacheService =
  ids :: crates
  meta :: "'d rocks"
  fsys :: "'f fs"
  hash :: hasher
  clock_at :: "nat \<Rightarrow> u64"
  free_at :: "nat \<Rightarrow> u64 option"
  ulid_at :: "nat \<Rightarrow> Ulid"
  token_at :: "nat \<Rightarrow> string"
  artifact_files :: ArtifactFiles
  max_upload_bytes :: u64
  reclaim_byte_limit :: u64
  orphan_scan_limit :: nat

datatype ChannelError =
    ChannelNotFound
  | Unauthorized
  | ChannelIsDeleting
  | DefaultChannel
  | InvalidDefault
  | ChannelStore MetadataError
  | ChannelLocal LocalError

datatype CacheError =
    CacheLocal LocalError
  | CacheMetadata MetadataError
  | MissingChannel
  | ChannelDeleting
  | SpaceUnavailable

definition on_db :: "('d, 'e, 'a) act \<Rightarrow> (('d, 'f) node, 'e, 'a) act" where
  "on_db m = (\<lambda>n. case m (db n) of (x, d) \<Rightarrow> (x, n\<lparr>db := d\<rparr>))"

definition draw :: "(nat \<Rightarrow> 'a) \<Rightarrow> (('d, 'f) node, 'e, 'a) act" where
  "draw source = (\<lambda>n. (Inr (source (draws n)), n\<lparr>draws := draws n + 1\<rparr>))"

definition count :: "(Metrics \<Rightarrow> Metrics) \<Rightarrow> (('d, 'f) node, 'e, unit) act" where
  "count f = modify (\<lambda>n. n\<lparr>stats := f (stats n)\<rparr>)"

end
