(* ===== verification/Cache_Service.thy ===== *)
theory Cache_Service
  imports Node
begin

text \<open>
  The cache service (\<open>src/cache/service.rs\<close>): publication of a staged body, lookup with
  self-healing, reference bindings, startup recovery and bounded maintenance. The stripe
  of an artifact and the gate of a channel are held across a final mutation; in a single
  call they change nothing but the registry of gates.
\<close>

section \<open>Data\<close>

record LocatedArtifact =
  located_file :: bytes
  located_metadata :: ArtifactMetadata

datatype PublicationTarget = ById ArtifactId | ContentAddressed "string option"

record PublishRequest =
  req_channel :: ChannelId
  req_target :: PublicationTarget
  req_content_type :: "string option"
  req_stream :: "(string + bytes) list"
  req_content_length :: "u64 option"
  req_durability :: Durability
  req_encoding :: StoredEncoding

datatype PublicationOutcome = PublicationCreated | PublicationExisting

record Publication =
  pub_artifact :: ArtifactId
  pub_outcome :: PublicationOutcome

datatype Admission = AdmissionPublished Publication | AdmissionRejected "(string + bytes) list"

record Commit =
  commit_content_type :: "string option"
  commit_reference :: "(string \<times> ReferenceRecord) option"
  commit_durability :: Durability

definition metadata_call :: "('d, MetadataError, 'a) act \<Rightarrow> (('d, 'f) node, CacheError, 'a) act" where
  "metadata_call m = map_err CacheMetadata (on_db m)"

definition files_call :: "(('d, 'f) node, LocalError, 'a) act \<Rightarrow> (('d, 'f) node, CacheError, 'a) act" where
  "files_call m = map_err CacheLocal m"

section \<open>Channels\<close>

definition service_expiry_seconds ::
  "('d, 'f) CacheService \<Rightarrow> ChannelId \<Rightarrow> (('d, 'f) node, CacheError, u64) act" where
  "service_expiry_seconds S channel =
     and_then (metadata_call (store_channel_get (ids S) (meta S) channel)) (\<lambda>found.
     case found of
       Some record \<Rightarrow> if lifecycle record = Active then ok (expiry_seconds record) else throw MissingChannel
     | None \<Rightarrow> throw MissingChannel)"

definition service_channels :: "('d, 'f) CacheService \<Rightarrow> (('d, 'f) node, CacheError, ChannelId list) act" where
  "service_channels S =
     and_then (metadata_call (store_channels (meta S))) (\<lambda>records.
     ok (map channel_id (filter (\<lambda>record. lifecycle record = Active) records)))"

definition channel_fence ::
  "('d, 'f) CacheService \<Rightarrow> ChannelId \<Rightarrow> (('d, 'f) node, CacheError, u64) act" where
  "channel_fence S channel =
     and_then (modify (\<lambda>n. n\<lparr>gates := insert channel (gates n)\<rparr>)) (\<lambda>_.
     and_then (metadata_call (store_channel_get (ids S) (meta S) channel)) (\<lambda>found.
     case found of
       Some record \<Rightarrow> if lifecycle record = Active then ok (expiry_seconds record) else throw ChannelDeleting
     | None \<Rightarrow> throw MissingChannel))"

section \<open>Publication\<close>

definition commit_staged ::
  "('d, 'f) CacheService \<Rightarrow> ChannelId \<Rightarrow> ArtifactId \<Rightarrow> StagedArtifact \<Rightarrow> Commit \<Rightarrow>
    (('d, 'f) node, CacheError, Publication) act" where
  "commit_staged S channel artifact staged cm =
     outcome (channel_fence S channel) (\<lambda>fence. case fence of
       Inl error \<Rightarrow>
         and_then (modify (discard (fsys S) ledger_reserver (staged_reservation staged))) (\<lambda>_. throw error)
     | Inr expiry \<Rightarrow>
         and_then (files_call (publish_file (ids S) (fsys S) ledger_reserver (artifact_files S)
             channel artifact staged (commit_durability cm))) (\<lambda>file_publication.
         let (reservation, committed_len) =
               (case file_publication of
                  Created reservation \<Rightarrow> (reservation, staged_stored_len staged)
                | Existing reservation \<Rightarrow> (reservation, 0)) in
         and_then (draw (clock_at S)) (\<lambda>now.
         outcome (on_db (commit_publication (ids S) (meta S) channel artifact
             \<lparr>content_len = staged_len staged, content_type = commit_content_type cm, created_at = now,
              eligible_at = saturating_add now expiry, stored_len = staged_stored_len staged,
              encoding = staged_encoding staged\<rparr>
             (commit_reference cm) (commit_durability cm))) (\<lambda>committed. case committed of
           Inl error \<Rightarrow>
             and_then (modify (discard (fsys S) ledger_reserver reservation)) (\<lambda>_. throw (CacheMetadata error))
         | Inr created \<Rightarrow>
             and_then (modify (reservation_commit ledger_reserver committed_len reservation)) (\<lambda>_.
             ok \<lparr>pub_artifact = artifact,
                 pub_outcome = (if created then PublicationCreated else PublicationExisting)\<rparr>)))))"

definition publish_or_reject ::
  "('d, 'f) CacheService \<Rightarrow> PublishRequest \<Rightarrow> (('d, 'f) node, CacheError, Admission) act" where
  "publish_or_reject S request =
     and_then (files_call (stage (ids S) (fsys S) ledger_reserver (artifact_files S) (req_channel request)
         (req_stream request) (max_upload_bytes S) (req_content_length request) (req_durability request)
         (req_encoding request))) (\<lambda>staging_result.
     case staging_result of
       Rejected stream \<Rightarrow> ok (AdmissionRejected stream)
     | Ready staged \<Rightarrow>
         and_then (count (metrics_written (staged_len staged))) (\<lambda>_.
         and_then
           (case req_target request of
              ById artifact \<Rightarrow> ok (artifact, None)
            | ContentAddressed reference \<Rightarrow>
                let artifact = ArtifactId (staged_digest staged) in
                (case reference of
                   None \<Rightarrow> ok (artifact, None)
                 | Some name \<Rightarrow>
                     and_then (draw (clock_at S)) (\<lambda>now.
                     ok (artifact, Some (name, \<lparr>ref_artifact = artifact, updated_at = now, etag = None,
                                                last_modified = None\<rparr>)))))
           (\<lambda>(artifact, reference).
             and_then (commit_staged S (req_channel request) artifact staged
                 \<lparr>commit_content_type = req_content_type request, commit_reference = reference,
                  commit_durability = req_durability request\<rparr>) (\<lambda>publication.
             ok (AdmissionPublished publication)))))"

definition service_publish ::
  "('d, 'f) CacheService \<Rightarrow> PublishRequest \<Rightarrow> (('d, 'f) node, CacheError, Publication) act" where
  "service_publish S request =
     and_then (publish_or_reject S request) (\<lambda>admission.
     case admission of
       AdmissionPublished publication \<Rightarrow> ok publication
     | AdmissionRejected _ \<Rightarrow> throw (CacheLocal OutOfSpace))"

section \<open>Lookup and references\<close>

definition locate_local ::
  "('d, 'f) CacheService \<Rightarrow> ChannelId \<Rightarrow> ArtifactId \<Rightarrow> (('d, 'f) node, CacheError, LocatedArtifact option) act" where
  "locate_local S channel artifact =
     and_then (metadata_call (store_artifact (ids S) (meta S) channel artifact)) (\<lambda>found.
     case found of
       None \<Rightarrow> ok None
     | Some metadata \<Rightarrow>
         outcome (on_disk (open_file (fsys S) (artifact_path (ids S) (artifact_files S) channel artifact)))
           (\<lambda>opened. case opened of
             Inr file \<Rightarrow> ok (Some \<lparr>located_file = file, located_metadata = metadata\<rparr>)
           | Inl IoNotFound \<Rightarrow>
               and_then (metadata_call (remove_artifact (ids S) (meta S) channel artifact)) (\<lambda>_. ok None)
           | Inl error \<Rightarrow> throw (CacheLocal (Io error))))"

definition locate ::
  "('d, 'f) CacheService \<Rightarrow> ChannelId \<Rightarrow> ArtifactId \<Rightarrow> (('d, 'f) node, CacheError, LocatedArtifact option) act" where
  "locate S channel artifact =
     and_then (locate_local S channel artifact) (\<lambda>found.
     case found of
       Some located \<Rightarrow>
         and_then (modify (\<lambda>n. n\<lparr>recent := mark_recent (hash S) channel artifact (recent n)\<rparr>)) (\<lambda>_.
         and_then (count (metrics_hit (content_len (located_metadata located)))) (\<lambda>_. ok (Some located)))
     | None \<Rightarrow> and_then (count metrics_miss) (\<lambda>_. ok None))"

definition bind_reference_with_validators ::
  "('d, 'f) CacheService \<Rightarrow> ChannelId \<Rightarrow> string \<Rightarrow> ArtifactId \<Rightarrow> string option \<Rightarrow> string option \<Rightarrow> Durability \<Rightarrow>
    (('d, 'f) node, CacheError, unit) act" where
  "bind_reference_with_validators S channel reference artifact tag modified durability =
     and_then (channel_fence S channel) (\<lambda>_.
     and_then (draw (clock_at S)) (\<lambda>now.
     metadata_call (store_bind_reference (ids S) (meta S) channel reference
       \<lparr>ref_artifact = artifact, updated_at = now, etag = tag, last_modified = modified\<rparr> durability)))"

definition bind_reference ::
  "('d, 'f) CacheService \<Rightarrow> ChannelId \<Rightarrow> string \<Rightarrow> ArtifactId \<Rightarrow> (('d, 'f) node, CacheError, unit) act" where
  "bind_reference S channel reference artifact =
     bind_reference_with_validators S channel reference artifact None None Durable"

definition resolve_reference ::
  "('d, 'f) CacheService \<Rightarrow> ChannelId \<Rightarrow> string \<Rightarrow> (('d, 'f) node, CacheError, ReferenceRecord option) act" where
  "resolve_reference S channel reference = metadata_call (store_reference (ids S) (meta S) channel reference)"

definition delete_reference ::
  "('d, 'f) CacheService \<Rightarrow> ChannelId \<Rightarrow> string \<Rightarrow> (('d, 'f) node, CacheError, unit) act" where
  "delete_reference S channel reference =
     and_then (channel_fence S channel) (\<lambda>_.
     metadata_call (store_delete_reference (ids S) (meta S) channel reference))"

section \<open>Recovery and maintenance\<close>

fun reconcile_each ::
  "('d, 'f) CacheService \<Rightarrow> found \<Rightarrow> (('d, 'f) node, CacheError, unit) act" where
  "reconcile_each S [] = ok ()"
| "reconcile_each S ((channel, artifact) # rest) =
     and_then (metadata_call (store_artifact (ids S) (meta S) channel artifact)) (\<lambda>found.
     if found \<noteq> None then reconcile_each S rest
     else
       and_then (metadata_call (store_artifact (ids S) (meta S) channel artifact)) (\<lambda>again.
       and_then
         (if again = None
          then files_call (remove_body (ids S) (fsys S) (artifact_files S) channel artifact)
          else ok ())
         (\<lambda>_. reconcile_each S rest)))"

definition reconcile :: "('d, 'f) CacheService \<Rightarrow> (('d, 'f) node, CacheError, unit) act" where
  "reconcile S =
     and_then (files_call (remove_temporary_files (fsys S) (artifact_files S))) (\<lambda>_.
     and_then (files_call (orphan_scan (ids S) (fsys S) (artifact_files S) (orphan_scan_limit S)))
       (reconcile_each S))"

definition ready :: "('d, 'f) CacheService \<Rightarrow> (('d, 'f) node, CacheError, unit) act" where
  "ready S =
     and_then (metadata_call (metadata_health (meta S))) (\<lambda>_.
     and_then (files_call (files_health (fsys S) (artifact_files S))) (\<lambda>_.
     \<lambda>n. if ledger_degraded (space n) then (Inl SpaceUnavailable, n) else (Inr (), n)))"

text \<open>What a maintenance pass has left to spend and has reclaimed so far.\<close>

record Budget =
  remaining_candidates :: nat
  remaining_bytes :: u64
  reclaimed :: nat

definition exhausted :: "Budget \<Rightarrow> bool" where
  "exhausted b \<longleftrightarrow> remaining_candidates b = 0 \<or> remaining_bytes b = 0"

definition evict_one ::
  "('d, 'f) CacheService \<Rightarrow> ChannelId \<Rightarrow> Candidate \<Rightarrow> Budget \<Rightarrow> (('d, 'f) node, CacheError, Budget) act" where
  "evict_one S channel candidate b =
     and_then (metadata_call (store_artifact (ids S) (meta S) channel (cand_artifact candidate))) (\<lambda>found.
     and_then
       (case found of
          Some metadata \<Rightarrow>
            if eligible_at metadata = cand_eligible_at candidate
            then files_call (remove_body (ids S) (fsys S) (artifact_files S) channel (cand_artifact candidate))
            else ok ()
        | None \<Rightarrow> ok ())
       (\<lambda>_.
     and_then (metadata_call (evict (ids S) (meta S) channel (cand_artifact candidate)
         (cand_eligible_at candidate))) (\<lambda>evicted.
     case evicted of
       Removed stored \<Rightarrow>
         ok (b\<lparr>remaining_bytes := saturating_sub (remaining_bytes b) stored, reclaimed := reclaimed b + 1\<rparr>)
     | Stale \<Rightarrow> ok b)))"

text \<open>
  The loop over the candidates of one channel. The flag says whether the whole pass ends
  (\<open>break 'channels\<close>) or only this channel.
\<close>

fun reclaim_channel ::
  "('d, 'f) CacheService \<Rightarrow> Mode \<Rightarrow> u64 \<Rightarrow> ChannelId \<Rightarrow> u64 \<Rightarrow> Candidate list \<Rightarrow> Budget \<Rightarrow>
    (('d, 'f) node, CacheError, bool \<times> Budget) act" where
  "reclaim_channel S md now channel expiry [] b = ok (False, b)"
| "reclaim_channel S md now channel expiry (candidate # rest) b =
     (if exhausted b then ok (True, b)
      else
        let due = (cand_eligible_at candidate \<le> now) in
        if md = Normal \<and> \<not> due then ok (False, b)
        else
          let b' = b\<lparr>remaining_candidates := remaining_candidates b - 1\<rparr> in
          (\<lambda>n.
            (if md = Normal \<and> seen (hash S) channel (cand_artifact candidate) (recent n)
             then
               and_then (metadata_call (requeue (ids S) (meta S) channel (cand_artifact candidate)
                   (cand_eligible_at candidate) (saturating_add now expiry))) (\<lambda>_.
               and_then (count metrics_requeued) (\<lambda>_.
               reclaim_channel S md now channel expiry rest b'))
             else
               and_then (evict_one S channel candidate b') (\<lambda>b''.
               reclaim_channel S md now channel expiry rest b'')) n))"

fun reclaim_channels ::
  "('d, 'f) CacheService \<Rightarrow> Mode \<Rightarrow> u64 \<Rightarrow> ChannelId list \<Rightarrow> Budget \<Rightarrow> (('d, 'f) node, CacheError, Budget) act" where
  "reclaim_channels S md now [] b = ok b"
| "reclaim_channels S md now (channel # rest) b =
     (if exhausted b then ok b
      else
        and_then (service_expiry_seconds S channel) (\<lambda>expiry.
        and_then (metadata_call (reclaim_candidates (ids S) (meta S) channel (remaining_candidates b)))
          (\<lambda>candidates.
        and_then (reclaim_channel S md now channel expiry candidates b) (\<lambda>(stop, b').
        if stop then ok b' else reclaim_channels S md now rest b'))))"

definition refresh_space :: "('d, 'f) CacheService \<Rightarrow> (('d, 'f) node, CacheError, unit) act" where
  "refresh_space S = and_then (draw (free_at S)) (\<lambda>observation. modify (on_space (refresh observation)))"

definition space_mode :: "(('d, 'f) node, CacheError, Mode) act" where
  "space_mode = (\<lambda>n. case mode (space n) of (md, l) \<Rightarrow> (Inr md, n\<lparr>space := l\<rparr>))"

text \<open>\<open>fetch_add\<close> on the cursor, which wraps around, and the rotation it selects.\<close>

definition rotate_channels :: "ChannelId list \<Rightarrow> (('d, 'f) node, CacheError, ChannelId list) act" where
  "rotate_channels chs =
     (if chs = [] then ok chs
      else (\<lambda>n. (Inr (rotate (maintenance_cursor n mod length chs) chs),
                 n\<lparr>maintenance_cursor := (maintenance_cursor n + 1) mod 2 ^ 64\<rparr>)))"

definition run_maintenance_once ::
  "('d, 'f) CacheService \<Rightarrow> nat \<Rightarrow> (('d, 'f) node, CacheError, nat) act" where
  "run_maintenance_once S limit =
     and_then (refresh_space S) (\<lambda>_.
     and_then (modify (\<lambda>n. n\<lparr>stats := record_space (snapshot (space n)) (stats n)\<rparr>)) (\<lambda>_.
     and_then space_mode (\<lambda>md.
     and_then (draw (clock_at S)) (\<lambda>now.
     and_then (service_channels S) (\<lambda>found.
     and_then (rotate_channels found) (\<lambda>chs.
     and_then (reclaim_channels S md now chs
         \<lparr>remaining_candidates = limit, remaining_bytes = reclaim_byte_limit S, reclaimed = 0\<rparr>) (\<lambda>b.
     and_then (count (metrics_reclaimed (of_nat (reclaimed b)))) (\<lambda>_.
     ok (reclaimed b)))))))))"

definition is_reclaiming :: "(('d, 'f) node, CacheError, bool) act" where
  "is_reclaiming = and_then space_mode (\<lambda>md. ok (md = Reclaiming))"

definition rotate_recency :: "(('d, 'f) node, CacheError, unit) act" where
  "rotate_recency = modify (\<lambda>n. n\<lparr>recent := rotate_filters (recent n)\<rparr>)"

end
