(* ===== verification/Proxy.thy ===== *)
theory Proxy
  imports Negotiation Cache_Service
begin

text \<open>
  The package proxy (\<open>src/proxy/mod.rs\<close>): upstream URLs restricted to allowed origins,
  redirects followed by hand, conditional revalidation against the cache, and the rewriting
  of links in package indexes. The URL, base64, JSON and HTML crates and the HTTP client are
  parameters; the client acts on a state of its own.
\<close>

section \<open>Crates\<close>

datatype Url = Url (as_str: string)

text \<open>Every opaque origin is different from every other origin.\<close>

datatype Origin = Opaque nat | Tuple string string nat

datatype Value =
    Null
  | Bool bool
  | Number string
  | String string
  | Array "Value list"
  | Object "(string \<times> Value) list"

type_synonym attributes = "(string \<times> string) list"

record web_crates =
  url_parse :: "string \<Rightarrow> string + Url"
  url_join :: "Url \<Rightarrow> string \<Rightarrow> string + Url"
  url_origin :: "Url \<Rightarrow> Origin"
  url_scheme :: "Url \<Rightarrow> string"
  url_username :: "Url \<Rightarrow> string"
  url_password :: "Url \<Rightarrow> string option"
  url_path :: "Url \<Rightarrow> string"
  url_set_path :: "Url \<Rightarrow> string \<Rightarrow> Url"
  url_fragment :: "Url \<Rightarrow> string option"
  url_without_fragment :: "Url \<Rightarrow> Url"
  url_make_relative :: "Url \<Rightarrow> Url \<Rightarrow> string option"
  base64_encode :: "bytes \<Rightarrow> string"
  base64_decode :: "string \<Rightarrow> bytes option"
  json_from_slice :: "bytes \<Rightarrow> string + Value"
  json_to_vec :: "Value \<Rightarrow> string + bytes"
  decode_html_entities :: "string \<Rightarrow> string"
  rewrite_links :: "(attributes \<Rightarrow> attributes) \<Rightarrow> string \<Rightarrow> string + string"

text \<open>\<open>std::str::from_utf8\<close>: well-formed sequences of one to four bytes.\<close>

definition continuation :: "nat \<Rightarrow> bool" where
  "continuation b \<longleftrightarrow> 128 \<le> b \<and> b < 192"

fun utf8_valid :: "nat list \<Rightarrow> bool" where
  "utf8_valid [] = True"
| "utf8_valid (a # rest) =
     (if a < 128 then utf8_valid rest
      else case rest of
        b # rest2 \<Rightarrow>
          if 194 \<le> a \<and> a < 224 then continuation b \<and> utf8_valid rest2
          else (case rest2 of
            d # rest3 \<Rightarrow>
              if 224 \<le> a \<and> a < 240
              then (if a = 224 then 160 \<le> b \<and> b < 192 else if a = 237 then 128 \<le> b \<and> b < 160 else continuation b)
                   \<and> continuation d \<and> utf8_valid rest3
              else (case rest3 of
                e # rest4 \<Rightarrow>
                  240 \<le> a \<and> a < 245
                  \<and> (if a = 240 then 144 \<le> b \<and> b < 192 else if a = 244 then 128 \<le> b \<and> b < 144 else continuation b)
                  \<and> continuation d \<and> continuation e \<and> utf8_valid rest4
              | [] \<Rightarrow> False)
          | [] \<Rightarrow> False)
      | [] \<Rightarrow> False)"

definition from_utf8 :: "bytes \<Rightarrow> string option" where
  "from_utf8 bs = (if utf8_valid (map unat bs) then Some (map (\<lambda>b. char_of (unat b)) bs) else None)"

section \<open>Service\<close>

datatype Protocol = Go | Python | Npm | CargoIndex | CargoCrate

datatype ProxyOutcome =
    Artifact ArtifactId
  | CachedMetadata bytes "string option"
  | Upstream StatusCode bytes "string option"
  | UpstreamStream StatusCode body_stream "string option"

datatype ProxyError =
    Busy
  | InvalidEncodedUrl
  | DisallowedOrigin
  | UrlError string
  | HttpSend SendError
  | HttpBody string
  | Unavailable string
  | Malformed string
  | ProxyCache CacheError

record UpstreamBases =
  base_go :: Url
  base_python :: Url
  base_npm :: Url
  base_cargo_index :: Url
  base_cargo_crate :: Url

record AllowedOrigins =
  allowed_go :: "Origin set"
  allowed_python :: "Origin set"
  allowed_npm :: "Origin set"
  allowed_cargo_index :: "Origin set"
  allowed_cargo_crate :: "Origin set"

record ('d, 'f) ProxyService =
  cache :: "('d, 'f) CacheService"
  web :: web_crates
  bases :: UpstreamBases
  allowed :: AllowedOrigins
  ttl :: u64
  permit_limit :: nat

text \<open>What the proxy acts on: the shard, the client's state, free permits, and per key the requests that hold its lock.\<close>

record ('d, 'f, 'w) proxy_world =
  shard_node :: "('d, 'f) node"
  upstream_web :: 'w
  permits :: nat
  flights :: "string \<rightharpoonup> nat"

record ProxyConfig =
  go_upstream :: string
  python_upstream :: string
  npm_upstream :: string
  cargo_index_upstream :: string
  cargo_crate_upstream :: string
  proxy_revalidation_seconds :: u64
  proxy_concurrency :: nat
  proxy_allowed_origins :: "string list"

definition redirect_hop_limit :: nat where
  "redirect_hop_limit = 5"

definition python_download_origins :: "string list" where
  "python_download_origins = [''https://files.pythonhosted.org'']"

fun for_protocol :: "AllowedOrigins \<Rightarrow> Protocol \<Rightarrow> Origin set" where
  "for_protocol a Go = allowed_go a"
| "for_protocol a Python = allowed_python a"
| "for_protocol a Npm = allowed_npm a"
| "for_protocol a CargoIndex = allowed_cargo_index a"
| "for_protocol a CargoCrate = allowed_cargo_crate a"

definition bind_sum :: "'e + 'a \<Rightarrow> ('a \<Rightarrow> 'e + 'b) \<Rightarrow> 'e + 'b" where
  "bind_sum x f = (case x of Inl e \<Rightarrow> Inl e | Inr a \<Rightarrow> f a)"

fun parse_origins :: "web_crates \<Rightarrow> string list \<Rightarrow> string + Origin list" where
  "parse_origins W [] = Inr []"
| "parse_origins W (entry # entries) =
     bind_sum (url_parse W entry) (\<lambda>u. bind_sum (parse_origins W entries) (\<lambda>os. Inr (url_origin W u # os)))"

definition origin_set :: "web_crates \<Rightarrow> Url \<Rightarrow> Origin list \<Rightarrow> string list \<Rightarrow> string + Origin set" where
  "origin_set W base shared defaults =
     bind_sum (parse_origins W defaults) (\<lambda>extra. Inr ({url_origin W base} \<union> set shared \<union> set extra))"

definition ProxyService_new ::
  "('d, 'f) CacheService \<Rightarrow> web_crates \<Rightarrow> ProxyConfig \<Rightarrow> string + ('d, 'f) ProxyService" where
  "ProxyService_new S W config =
     bind_sum (url_parse W (go_upstream config)) (\<lambda>go.
     bind_sum (url_parse W (python_upstream config)) (\<lambda>python.
     bind_sum (url_parse W (npm_upstream config)) (\<lambda>npm.
     bind_sum (url_parse W (cargo_index_upstream config)) (\<lambda>cargo_index.
     bind_sum (url_parse W (cargo_crate_upstream config)) (\<lambda>cargo_crate.
     bind_sum (parse_origins W (proxy_allowed_origins config)) (\<lambda>shared.
     bind_sum (origin_set W go shared []) (\<lambda>ago.
     bind_sum (origin_set W python shared python_download_origins) (\<lambda>apython.
     bind_sum (origin_set W npm shared []) (\<lambda>anpm.
     bind_sum (origin_set W cargo_index shared []) (\<lambda>aindex.
     bind_sum (origin_set W cargo_crate shared []) (\<lambda>acrate.
     Inr \<lparr>cache = S, web = W,
          bases = \<lparr>base_go = go, base_python = python, base_npm = npm, base_cargo_index = cargo_index,
                   base_cargo_crate = cargo_crate\<rparr>,
          allowed = \<lparr>allowed_go = ago, allowed_python = apython, allowed_npm = anpm, allowed_cargo_index = aindex,
                     allowed_cargo_crate = acrate\<rparr>,
          ttl = proxy_revalidation_seconds config, permit_limit = proxy_concurrency config\<rparr>)))))))))))"

text \<open>
  Whether a set of origins contains the origin of a URL. An opaque origin equals no other, not
  even the one computed again from the same URL, so no set contains it.
\<close>

definition contains_origin :: "web_crates \<Rightarrow> Origin set \<Rightarrow> Url \<Rightarrow> bool" where
  "contains_origin W origins u =
     (case url_origin W u of Opaque _ \<Rightarrow> False | Tuple scheme host port \<Rightarrow> Tuple scheme host port \<in> origins)"

definition check_origin :: "('d, 'f) ProxyService \<Rightarrow> Protocol \<Rightarrow> Url \<Rightarrow> ProxyError + unit" where
  "check_origin P protocol u =
     (if contains_origin (web P) (for_protocol (allowed P) protocol) u then Inr () else Inl DisallowedOrigin)"

fun base_of :: "UpstreamBases \<Rightarrow> Protocol \<Rightarrow> Url" where
  "base_of b Go = base_go b"
| "base_of b Python = base_python b"
| "base_of b Npm = base_npm b"
| "base_of b CargoIndex = base_cargo_index b"
| "base_of b CargoCrate = base_cargo_crate b"

definition url_error :: "string + 'a \<Rightarrow> ProxyError + 'a" where
  "url_error x = (case x of Inl e \<Rightarrow> Inl (UrlError e) | Inr a \<Rightarrow> Inr a)"

definition upstream_url :: "('d, 'f) ProxyService \<Rightarrow> Protocol \<Rightarrow> string \<Rightarrow> ProxyError + Url" where
  "upstream_url P protocol path =
     bind_sum (url_error (url_join (web P) (base_of (bases P) protocol) path)) (\<lambda>u.
     bind_sum (check_origin P protocol u) (\<lambda>_. Inr u))"

section \<open>Rewriting\<close>

definition routed_download_url :: "web_crates \<Rightarrow> string \<Rightarrow> string \<Rightarrow> Url \<Rightarrow> string" where
  "routed_download_url W route_prefix route upstream =
     (let encoded = base64_encode W (str_bytes (as_str (url_without_fragment W upstream)));
          routed = route_prefix @ route @ ''/'' @ encoded
      in case url_fragment W upstream of None \<Rightarrow> routed | Some fragment \<Rightarrow> routed @ ''#'' @ fragment)"

definition attribute :: "string \<Rightarrow> attributes \<Rightarrow> string option" where
  "attribute name attrs = map_of attrs name"

definition set_attribute :: "string \<Rightarrow> string \<Rightarrow> attributes \<Rightarrow> attributes" where
  "set_attribute name value attrs =
     (if name \<in> fst ` set attrs then map (\<lambda>(k, v). if k = name then (k, value) else (k, v)) attrs
      else attrs @ [(name, value)])"

text \<open>\<open>trim_start_matches\<close> with a string pattern.\<close>

function trim_dot_slash :: "string \<Rightarrow> string" where
  "trim_dot_slash s = (if starts_with ''./'' s then trim_dot_slash (drop 2 s) else s)"
  by pat_completeness auto
termination
proof (relation "measure length")
  fix s assume "starts_with ''./'' s"
  then have "s \<noteq> []" by (auto simp: starts_with_def)
  then show "(drop 2 s, s) \<in> measure length" by simp
qed simp

declare trim_dot_slash.simps [simp del]

text \<open>The handler of one link element: \<open>href\<close> first, then \<open>data-provenance\<close>.\<close>

definition routed_href :: "('d, 'f) ProxyService \<Rightarrow> Url \<Rightarrow> string \<Rightarrow> bool \<Rightarrow> Url \<Rightarrow> string option" where
  "routed_href P upstream route_prefix is_project_page u =
     (if is_project_page
      then (case check_origin P Python u of
              Inr _ \<Rightarrow> Some (routed_download_url (web P) route_prefix ''/proxy/python/files'' u)
            | Inl _ \<Rightarrow> None)
      else (case url_make_relative (web P) upstream u of
              Some relative \<Rightarrow>
                if starts_with ''../'' relative then None
                else Some (route_prefix @ ''/proxy/python/simple/'' @ trim_dot_slash relative)
            | None \<Rightarrow> None))"

definition rewrite_anchor :: "('d, 'f) ProxyService \<Rightarrow> Url \<Rightarrow> string \<Rightarrow> bool \<Rightarrow> attributes \<Rightarrow> attributes" where
  "rewrite_anchor P upstream route_prefix is_project_page attrs =
     (let joined = (\<lambda>name attrs. case attribute name attrs of
            None \<Rightarrow> None
          | Some v \<Rightarrow> (case url_join (web P) upstream (decode_html_entities (web P) v) of Inr u \<Rightarrow> Some u | Inl _ \<Rightarrow> None));
          attrs =
            (case Option.bind (joined ''href'' attrs) (routed_href P upstream route_prefix is_project_page) of
               Some routed \<Rightarrow> set_attribute ''href'' routed attrs
             | None \<Rightarrow> attrs)
      in if is_project_page
         then (case joined ''data-provenance'' attrs of
                 Some u \<Rightarrow>
                   (case check_origin P Python u of
                      Inr _ \<Rightarrow>
                        set_attribute ''data-provenance''
                          (routed_download_url (web P) route_prefix ''/proxy/python/files'' u) attrs
                    | Inl _ \<Rightarrow> attrs)
               | None \<Rightarrow> attrs)
         else attrs)"

definition rewrite_python :: "('d, 'f) ProxyService \<Rightarrow> Url \<Rightarrow> string \<Rightarrow> bool \<Rightarrow> bytes \<Rightarrow> ProxyError + bytes" where
  "rewrite_python P upstream route_prefix is_project_page bs =
     (case from_utf8 bs of
        None \<Rightarrow> Inl (Malformed ''Python simple response is not UTF-8'')
      | Some html \<Rightarrow>
          (case rewrite_links (web P) (rewrite_anchor P upstream route_prefix is_project_page) html of
             Inr out \<Rightarrow> Inr (str_bytes out)
           | Inl error \<Rightarrow> Inl (Malformed (''invalid Python HTML: '' @ error))))"

fun json_get :: "string \<Rightarrow> Value \<Rightarrow> Value option" where
  "json_get name (Object entries) = map_of entries name"
| "json_get name v = None"

fun json_set :: "string \<Rightarrow> Value \<Rightarrow> Value \<Rightarrow> Value" where
  "json_set name x (Object entries) = Object (map (\<lambda>(k, v). if k = name then (k, x) else (k, v)) entries)"
| "json_set name x v = v"

definition rewrite_file_field :: "('d, 'f) ProxyService \<Rightarrow> Url \<Rightarrow> string \<Rightarrow> string \<Rightarrow> Value \<Rightarrow> Value" where
  "rewrite_file_field P upstream route_prefix field v =
     (case json_get field v of
        Some (String candidate) \<Rightarrow>
          (case url_join (web P) upstream candidate of
             Inr u \<Rightarrow>
               (case check_origin P Python u of
                  Inr _ \<Rightarrow> json_set field (String (routed_download_url (web P) route_prefix ''/proxy/python/files'' u)) v
                | Inl _ \<Rightarrow> v)
           | Inl _ \<Rightarrow> v)
      | _ \<Rightarrow> v)"

definition rewrite_python_json :: "('d, 'f) ProxyService \<Rightarrow> Url \<Rightarrow> string \<Rightarrow> bool \<Rightarrow> bytes \<Rightarrow> ProxyError + bytes" where
  "rewrite_python_json P upstream route_prefix is_project_page bs =
     (case json_from_slice (web P) bs of
        Inl error \<Rightarrow> Inl (Malformed (''invalid Python metadata: '' @ error))
      | Inr metadata \<Rightarrow>
          (let metadata =
             (case json_get ''files'' metadata of
                Some (Array listed) \<Rightarrow>
                  if is_project_page
                  then json_set ''files'' (Array (map (\<lambda>v. fold (rewrite_file_field P upstream route_prefix)
                         [''url'', ''provenance''] v) listed)) metadata
                  else metadata
              | _ \<Rightarrow> metadata)
           in case json_to_vec (web P) metadata of
                Inr out \<Rightarrow> Inr out
              | Inl error \<Rightarrow> Inl (Malformed error)))"

definition routed_tarball :: "web_crates \<Rightarrow> Url \<Rightarrow> string \<Rightarrow> Origin set \<Rightarrow> Value \<Rightarrow> Value" where
  "routed_tarball W upstream route_prefix origins v =
     (case v of
        String candidate \<Rightarrow>
          (case url_join W upstream candidate of
             Inr u \<Rightarrow>
               if contains_origin W origins u
               then String (route_prefix @ ''/proxy/npm/-/tarball/'' @ base64_encode W (str_bytes (as_str u)))
               else v
           | Inl _ \<Rightarrow> v)
      | _ \<Rightarrow> v)"

function rewrite_tarballs :: "web_crates \<Rightarrow> Url \<Rightarrow> string \<Rightarrow> Origin set \<Rightarrow> Value \<Rightarrow> Value" where
  "rewrite_tarballs W upstream route_prefix origins v =
     (case v of
        Object entries \<Rightarrow>
          Object (map (\<lambda>(name, x).
            if name = ''tarball'' then (name, routed_tarball W upstream route_prefix origins x)
            else (name, rewrite_tarballs W upstream route_prefix origins x)) entries)
      | Array values \<Rightarrow> Array (map (rewrite_tarballs W upstream route_prefix origins) values)
      | _ \<Rightarrow> v)"
  by pat_completeness auto
termination
  by (relation "measure (\<lambda>(_, _, _, _, v). size v)")
    (auto simp: less_Suc_eq_le size_list_estimation' elim!: size_list_estimation')

declare rewrite_tarballs.simps [simp del]

definition rewrite_npm :: "web_crates \<Rightarrow> Url \<Rightarrow> string \<Rightarrow> bytes \<Rightarrow> Origin set \<Rightarrow> ProxyError + bytes" where
  "rewrite_npm W upstream route_prefix bs origins =
     (case json_from_slice W bs of
        Inl error \<Rightarrow> Inl (Malformed (''invalid npm metadata: '' @ error))
      | Inr metadata \<Rightarrow>
          (case json_to_vec W (rewrite_tarballs W upstream route_prefix origins metadata) of
             Inr out \<Rightarrow> Inr out
           | Inl error \<Rightarrow> Inl (Malformed error)))"

fun rewrite_metadata :: "('d, 'f) ProxyService \<Rightarrow> Url \<Rightarrow> Transform \<Rightarrow> bytes \<Rightarrow> ProxyError + bytes" where
  "rewrite_metadata P upstream No_transform bs = Inr bs"
| "rewrite_metadata P upstream (PythonHtml route_prefix page) bs = rewrite_python P upstream route_prefix page bs"
| "rewrite_metadata P upstream (PythonJson route_prefix page) bs = rewrite_python_json P upstream route_prefix page bs"
| "rewrite_metadata P upstream (NpmMetadata route_prefix _) bs =
     rewrite_npm (web P) upstream route_prefix bs (allowed_npm (allowed P))"

section \<open>Sending\<close>

type_synonym 'w getter = "Url \<Rightarrow> headers \<Rightarrow> 'w \<Rightarrow> (SendError + Response) \<times> 'w"
type_synonym ('d, 'f, 'w, 'a) proxy_act = "(('d, 'f, 'w) proxy_world, ProxyError, 'a) act"

definition is_redirect :: "StatusCode \<Rightarrow> bool" where
  "is_redirect s \<longleftrightarrow> s \<in> {301, 302, 303, 307, 308}"

definition is_server_error :: "StatusCode \<Rightarrow> bool" where
  "is_server_error s \<longleftrightarrow> 500 \<le> s \<and> s < 600"

definition is_success :: "StatusCode \<Rightarrow> bool" where
  "is_success s \<longleftrightarrow> 200 \<le> s \<and> s < 300"

definition conditional_headers :: "string option \<Rightarrow> ReferenceRecord option \<Rightarrow> headers" where
  "conditional_headers accept current =
     (case accept of None \<Rightarrow> [] | Some v \<Rightarrow> [(''accept'', str_bytes v)])
     @ (case current of
          None \<Rightarrow> []
        | Some rec \<Rightarrow>
            (case etag rec of None \<Rightarrow> [] | Some v \<Rightarrow> [(''if-none-match'', str_bytes v)])
            @ (case last_modified rec of None \<Rightarrow> [] | Some v \<Rightarrow> [(''if-modified-since'', str_bytes v)]))"

text \<open>The attempts on one hop, from attempt \<open>attempt\<close> of three on.\<close>

function attempts :: "'w getter \<Rightarrow> Url \<Rightarrow> headers \<Rightarrow> nat \<Rightarrow> ('d, 'f, 'w, Response) proxy_act" where
  "attempts get target hs attempt =
     (if attempt < 3 then
        (\<lambda>w. case get target hs (upstream_web w) of
           (Inr candidate, v) \<Rightarrow>
             if is_server_error (resp_status candidate) \<and> attempt < 2
             then attempts get target hs (attempt + 1) (w\<lparr>upstream_web := v\<rparr>)
             else (Inr candidate, w\<lparr>upstream_web := v\<rparr>)
         | (Inl error, v) \<Rightarrow>
             if attempt < 2 \<and> (is_connect error \<or> is_timeout error)
             then attempts get target hs (attempt + 1) (w\<lparr>upstream_web := v\<rparr>)
             else (Inl (HttpSend error), w\<lparr>upstream_web := v\<rparr>))
      else throw (Unavailable ''upstream retry budget exhausted''))"
  by pat_completeness auto
termination
  by (relation "measure (\<lambda>(_, _, _, attempt). 3 - attempt)") auto

declare attempts.simps [simp del]

text \<open>The hops that are left, the current one included.\<close>

fun follow :: "('d, 'f) ProxyService \<Rightarrow> 'w getter \<Rightarrow> Protocol \<Rightarrow> headers \<Rightarrow> nat \<Rightarrow> Url \<Rightarrow> ('d, 'f, 'w, Response) proxy_act" where
  "follow P get protocol hs 0 target = throw (Unavailable ''upstream redirect limit exceeded'')"
| "follow P get protocol hs (Suc hops) target =
     and_then (attempts get target hs 0) (\<lambda>response.
     if \<not> is_redirect (resp_status response) then ok response
     else
       case Option.bind (header_get (resp_headers response) ''location'') header_str of
         None \<Rightarrow> throw (Unavailable ''redirect without a Location header'')
       | Some location \<Rightarrow>
           and_then (lift_result (url_error (url_join (web P) target location))) (\<lambda>next_url.
           and_then (lift_result (check_origin P protocol next_url)) (\<lambda>_.
           follow P get protocol hs hops next_url)))"

definition send_validated ::
  "('d, 'f) ProxyService \<Rightarrow> 'w getter \<Rightarrow> Protocol \<Rightarrow> Url \<Rightarrow> ReferenceRecord option \<Rightarrow> string option \<Rightarrow>
    ('d, 'f, 'w, Response) proxy_act" where
  "send_validated P get protocol u current accept =
     follow P get protocol (conditional_headers accept current) (redirect_hop_limit + 1) u"

section \<open>Fetching\<close>

definition cache_call :: "(('d, 'f) node, CacheError, 'a) act \<Rightarrow> ('d, 'f, 'w, 'a) proxy_act" where
  "cache_call m = (\<lambda>w. case m (shard_node w) of
     (Inl e, n) \<Rightarrow> (Inl (ProxyCache e), w\<lparr>shard_node := n\<rparr>)
   | (Inr x, n) \<Rightarrow> (Inr x, w\<lparr>shard_node := n\<rparr>))"

definition proxy_now :: "('d, 'f) ProxyService \<Rightarrow> ('d, 'f, 'w, u64) proxy_act" where
  "proxy_now P = cache_call (draw (clock_at (cache P)))"

definition protocol_name :: "Protocol \<Rightarrow> string" where
  "protocol_name protocol =
     (case protocol of Go \<Rightarrow> ''go'' | Python \<Rightarrow> ''python'' | Npm \<Rightarrow> ''npm''
      | CargoIndex \<Rightarrow> ''cargo-index'' | CargoCrate \<Rightarrow> ''cargo-crate'')"

definition proxy_reference :: "crates \<Rightarrow> Protocol \<Rightarrow> Url \<Rightarrow> string \<Rightarrow> string" where
  "proxy_reference c protocol u variant =
     (let s = str_bytes (as_str u)
      in ''proxy:'' @ protocol_name protocol @ '':''
         @ hex_encode c (sha256 c (u64_to_be_bytes (of_nat (length s)) @ s @ str_bytes variant)))"

definition cached_outcome ::
  "('d, 'f) ProxyService \<Rightarrow> ChannelId \<Rightarrow> ArtifactId \<Rightarrow> Url \<Rightarrow> Transform \<Rightarrow> ('d, 'f, 'w, ProxyOutcome option) proxy_act" where
  "cached_outcome P channel artifact upstream transform =
     (if transform = No_transform then ok (Some (Artifact artifact))
      else
        and_then (cache_call (locate (cache P) channel artifact)) (\<lambda>found.
        case found of
          None \<Rightarrow> ok None
        | Some located \<Rightarrow>
            if encoding (located_metadata located) \<noteq> Identity
            then throw (Malformed ''cached package metadata has an unsupported encoding'')
            else
              and_then (lift_result (rewrite_metadata P upstream transform (located_file located))) (\<lambda>body.
              ok (Some (CachedMetadata body (content_type (located_metadata located)))))))"

definition fresh_outcome ::
  "('d, 'f) ProxyService \<Rightarrow> ChannelId \<Rightarrow> ReferenceRecord option \<Rightarrow> Url \<Rightarrow> Transform \<Rightarrow>
    ('d, 'f, 'w, ProxyOutcome option) proxy_act" where
  "fresh_outcome P channel rec upstream transform =
     (case rec of
        None \<Rightarrow> ok None
      | Some r \<Rightarrow>
          and_then (proxy_now P) (\<lambda>now.
          if saturating_sub now (updated_at r) < ttl P
          then cached_outcome P channel (ref_artifact r) upstream transform
          else ok None))"

definition revalidated ::
  "('d, 'f) ProxyService \<Rightarrow> ChannelId \<Rightarrow> string \<Rightarrow> ReferenceRecord option \<Rightarrow> Url \<Rightarrow> Transform \<Rightarrow>
    ('d, 'f, 'w, ProxyOutcome) proxy_act" where
  "revalidated P channel reference current upstream transform =
     (case current of
        None \<Rightarrow> throw (Unavailable ''upstream returned 304 without a cached value'')
      | Some r \<Rightarrow>
          and_then (cache_call (bind_reference_with_validators (cache P) channel reference (ref_artifact r) (etag r)
              (last_modified r) BestEffort)) (\<lambda>_.
          and_then (cached_outcome P channel (ref_artifact r) upstream transform) (\<lambda>found.
          case found of
            Some outc \<Rightarrow> ok outc
          | None \<Rightarrow> throw (Unavailable ''upstream returned 304 for a missing cached body''))))"

record MetadataPublication =
  mp_reference :: string
  mp_content_type :: "string option"
  mp_etag :: "string option"
  mp_last_modified :: "string option"
  mp_raw :: bytes
  mp_rewritten :: bytes

definition serve_metadata ::
  "('d, 'f) ProxyService \<Rightarrow> ChannelId \<Rightarrow> MetadataPublication \<Rightarrow> ('d, 'f, 'w, ProxyOutcome) proxy_act" where
  "serve_metadata P channel mp =
     outcome (cache_call (service_publish (cache P)
         \<lparr>req_channel = channel, req_target = ContentAddressed None, req_content_type = mp_content_type mp,
          req_stream = [Inr (mp_raw mp)], req_content_length = Some (of_nat (length (mp_raw mp))),
          req_durability = BestEffort, req_encoding = Identity\<rparr>)) (\<lambda>published.
     case published of
       Inr publication \<Rightarrow>
         and_then (cache_call (bind_reference_with_validators (cache P) channel (mp_reference mp)
             (pub_artifact publication) (mp_etag mp) (mp_last_modified mp) BestEffort)) (\<lambda>_.
         ok (CachedMetadata (mp_rewritten mp) (mp_content_type mp)))
     | Inl (ProxyCache (CacheLocal OutOfSpace)) \<Rightarrow> ok (Upstream 200 (mp_rewritten mp) (mp_content_type mp))
     | Inl error \<Rightarrow> throw error)"

definition content_length :: "headers \<Rightarrow> u64 option" where
  "content_length hs =
     Option.bind (Option.bind (header_get hs ''content-length'') header_str) (\<lambda>s. map_option of_nat (parse_unsigned s))"

definition header_string :: "headers \<Rightarrow> string \<Rightarrow> string option" where
  "header_string hs name = Option.bind (header_get hs name) header_str"

text \<open>\<open>Response::bytes\<close>: the whole body, or the first error of its stream.\<close>

fun collect_body :: "body_stream \<Rightarrow> ProxyError + bytes" where
  "collect_body [] = Inr []"
| "collect_body (Inl error # rest) = Inl (HttpBody error)"
| "collect_body (Inr chunk # rest) = bind_sum (collect_body rest) (\<lambda>bs. Inr (chunk @ bs))"

definition store_response ::
  "('d, 'f) ProxyService \<Rightarrow> ChannelId \<Rightarrow> string \<Rightarrow> Url \<Rightarrow> Transform \<Rightarrow> Response \<Rightarrow> ('d, 'f, 'w, ProxyOutcome) proxy_act" where
  "store_response P channel reference u transform response =
     (let hs = resp_headers response; ctype = header_string hs ''content-type'';
          tag = header_string hs ''etag''; modified = header_string hs ''last-modified''
      in if \<not> is_success (resp_status response)
         then and_then (lift_result (collect_body (resp_body response))) (\<lambda>body.
              ok (Upstream (resp_status response) body ctype))
         else if transform = No_transform
         then
           and_then (cache_call (publish_or_reject (cache P)
               \<lparr>req_channel = channel, req_target = ContentAddressed None, req_content_type = ctype,
                req_stream = resp_body response, req_content_length = content_length hs,
                req_durability = BestEffort, req_encoding = Identity\<rparr>)) (\<lambda>admission.
           case admission of
             AdmissionPublished publication \<Rightarrow>
               and_then (cache_call (bind_reference_with_validators (cache P) channel reference
                   (pub_artifact publication) tag modified BestEffort)) (\<lambda>_.
               ok (Artifact (pub_artifact publication)))
           | AdmissionRejected stream \<Rightarrow> ok (UpstreamStream (resp_status response) stream ctype))
         else
           and_then (lift_result (collect_body (resp_body response))) (\<lambda>raw.
           and_then (lift_result (rewrite_metadata P u transform raw)) (\<lambda>rewritten.
           serve_metadata P channel
             \<lparr>mp_reference = reference, mp_content_type = ctype, mp_etag = tag, mp_last_modified = modified,
              mp_raw = raw, mp_rewritten = rewritten\<rparr>)))"

text \<open>
  A request enters its key's entry with one more clone of the lock. When its flight is
  dropped the entry goes if no other request has a clone (the strong count is then two: the
  map's and this one); then the clone itself is dropped.
\<close>

definition enter_flight :: "string \<Rightarrow> (string \<rightharpoonup> nat) \<Rightarrow> (string \<rightharpoonup> nat)" where
  "enter_flight key fl = fl(key \<mapsto> (case fl key of None \<Rightarrow> 1 | Some clones \<Rightarrow> clones + 1))"

definition drop_flight :: "string \<Rightarrow> (string \<rightharpoonup> nat) \<Rightarrow> (string \<rightharpoonup> nat)" where
  "drop_flight key fl =
     (case fl key of
        None \<Rightarrow> fl
      | Some clones \<Rightarrow> if clones + 1 \<le> 2 then fl(key := None) else fl(key \<mapsto> clones - 1))"

definition in_flight :: "string \<Rightarrow> ('d, 'f, 'w, 'a) proxy_act \<Rightarrow> ('d, 'f, 'w, 'a) proxy_act" where
  "in_flight key m = (\<lambda>w.
     case m (w\<lparr>flights := enter_flight key (flights w)\<rparr>) of (x, w') \<Rightarrow> (x, w'\<lparr>flights := drop_flight key (flights w')\<rparr>))"

definition with_permit :: "('d, 'f, 'w, 'a) proxy_act \<Rightarrow> ('d, 'f, 'w, 'a) proxy_act" where
  "with_permit m = (\<lambda>w.
     if permits w = 0 then (Inl Busy, w)
     else case m (w\<lparr>permits := permits w - 1\<rparr>) of (x, w') \<Rightarrow> (x, w'\<lparr>permits := permits w' + 1\<rparr>))"

definition fetch_url ::
  "('d, 'f) ProxyService \<Rightarrow> 'w getter \<Rightarrow> ChannelId \<Rightarrow> Protocol \<Rightarrow> Url \<Rightarrow> Transform \<Rightarrow> ('d, 'f, 'w, ProxyOutcome) proxy_act" where
  "fetch_url P get channel protocol u transform =
     (let reference = proxy_reference (ids (cache P)) protocol u (cache_variant transform)
      in
        and_then (cache_call (resolve_reference (cache P) channel reference)) (\<lambda>cached.
        and_then (fresh_outcome P channel cached u transform) (\<lambda>fresh.
        case fresh of
          Some outc \<Rightarrow> ok outc
        | None \<Rightarrow>
            in_flight (ChannelId_display (ids (cache P)) channel @ '':'' @ reference)
              (and_then (cache_call (resolve_reference (cache P) channel reference)) (\<lambda>current.
               and_then (fresh_outcome P channel current u transform) (\<lambda>again.
               case again of
                 Some outc \<Rightarrow> ok outc
               | None \<Rightarrow>
                   with_permit
                     (and_then (send_validated P get protocol u current (upstream_accept transform)) (\<lambda>response.
                      if resp_status response = 304
                      then revalidated P channel reference current u transform
                      else store_response P channel reference u transform response))))))))"

definition fetch ::
  "('d, 'f) ProxyService \<Rightarrow> 'w getter \<Rightarrow> ChannelId \<Rightarrow> Protocol \<Rightarrow> string \<Rightarrow> Transform \<Rightarrow> ('d, 'f, 'w, ProxyOutcome) proxy_act" where
  "fetch P get channel protocol path transform =
     and_then (lift_result (upstream_url P protocol path)) (\<lambda>u. fetch_url P get channel protocol u transform)"

definition decoded_url :: "('d, 'f) ProxyService \<Rightarrow> string \<Rightarrow> string \<Rightarrow> ProxyError + Url" where
  "decoded_url P enc sfx =
     (case Option.bind (base64_decode (web P) enc) from_utf8 of
        None \<Rightarrow> Inl InvalidEncodedUrl
      | Some value \<Rightarrow>
          bind_sum (url_error (url_parse (web P) value)) (\<lambda>u.
          if url_scheme (web P) u \<notin> {''http'', ''https''} \<or> url_username (web P) u \<noteq> [] \<or> url_password (web P) u \<noteq> None
          then Inl InvalidEncodedUrl
          else Inr (if sfx \<noteq> [] then url_set_path (web P) u (url_path (web P) u @ sfx) else u)))"

definition fetch_encoded_url ::
  "('d, 'f) ProxyService \<Rightarrow> 'w getter \<Rightarrow> ChannelId \<Rightarrow> Protocol \<Rightarrow> string \<Rightarrow> string \<Rightarrow> ('d, 'f, 'w, ProxyOutcome) proxy_act" where
  "fetch_encoded_url P get channel protocol enc sfx =
     and_then (lift_result (decoded_url P enc sfx)) (\<lambda>u.
     and_then (lift_result (check_origin P protocol u)) (\<lambda>_.
     fetch_url P get channel protocol u No_transform))"

end
