(* ===== verification/Channels.thy ===== *)
theory Channels
  imports Node
begin

text \<open>
  The channel service (\<open>src/channel/service.rs\<close>): registration, authorization, expiry
  updates and deletion. A lifecycle gate is an entry of \<open>gates\<close>; taking and releasing one
  has no effect on the state of a single call. The interleavings the gates exist for are
  not modelled: every call is one action.
\<close>

record IssuedChannel =
  issued_record :: ChannelRecord
  issued_token :: "string option"

definition store_call :: "('d, MetadataError, 'a) act \<Rightarrow> (('d, 'f) node, ChannelError, 'a) act" where
  "store_call m = map_err ChannelStore (on_db m)"

definition gate :: "ChannelId \<Rightarrow> (('d, 'f) node, 'e, unit) act" where
  "gate channel = modify (\<lambda>n. n\<lparr>gates := insert channel (gates n)\<rparr>)"

definition forget :: "ChannelId \<Rightarrow> (('d, 'f) node, 'e, unit) act" where
  "forget channel = modify (\<lambda>n. n\<lparr>gates := gates n - {channel}\<rparr>)"

definition authorize_record :: "crates \<Rightarrow> ChannelRecord \<Rightarrow> string option \<Rightarrow> ChannelError + unit" where
  "authorize_record c record credential =
     (case access record of
        Open \<Rightarrow> Inr ()
      | Token d \<Rightarrow>
          (case credential of
             Some candidate \<Rightarrow> if TokenDigest_verify c d candidate then Inr () else Inl Unauthorized
           | None \<Rightarrow> Inl Unauthorized))"

definition authorize ::
  "('d, 'f) CacheService \<Rightarrow> ChannelId \<Rightarrow> string option \<Rightarrow> (('d, 'f) node, ChannelError, ChannelRecord) act" where
  "authorize S channel credential =
     and_then (store_call (store_channel_get (ids S) (meta S) channel)) (\<lambda>found.
     case found of
       None \<Rightarrow> throw ChannelNotFound
     | Some record \<Rightarrow>
         and_then (lift_result (authorize_record (ids S) record credential)) (\<lambda>_.
         if lifecycle record \<noteq> Active then throw ChannelIsDeleting else ok record))"

definition authorize_with_lease ::
  "('d, 'f) CacheService \<Rightarrow> ChannelId \<Rightarrow> string option \<Rightarrow> (('d, 'f) node, ChannelError, ChannelRecord) act" where
  "authorize_with_lease S channel credential =
     and_then (authorize S channel credential) (\<lambda>_.
     and_then (gate channel) (\<lambda>_. authorize S channel credential))"

definition ensure_default :: "('d, 'f) CacheService \<Rightarrow> u64 \<Rightarrow> (('d, 'f) node, ChannelError, unit) act" where
  "ensure_default S expiry =
     and_then
       (and_then (store_call (store_channel_get (ids S) (meta S) default_channel)) (\<lambda>found.
        case found of
          Some record \<Rightarrow> ok record
        | None \<Rightarrow>
            and_then (draw (clock_at S)) (\<lambda>now.
            let record = \<lparr>channel_id = default_channel, access = Open, expiry_seconds = expiry,
                          lifecycle = Active, channel_created_at = now\<rparr> in
            outcome (on_db (create_channel (ids S) (meta S) record)) (\<lambda>created.
              case created of
                Inr _ \<Rightarrow> ok record
              | Inl AlreadyExists \<Rightarrow>
                  and_then (store_call (store_channel_get (ids S) (meta S) default_channel)) (\<lambda>again.
                    case again of Some record \<Rightarrow> ok record | None \<Rightarrow> throw InvalidDefault)
              | Inl error \<Rightarrow> throw (ChannelStore error)))))
       (\<lambda>record. if access record \<noteq> Open \<or> lifecycle record \<noteq> Active then throw InvalidDefault
                 else gate default_channel)"

definition register ::
  "('d, 'f) CacheService \<Rightarrow> bool \<Rightarrow> u64 \<Rightarrow> (('d, 'f) node, ChannelError, IssuedChannel) act" where
  "register S protected expiry =
     and_then (if protected then and_then (draw (token_at S)) (\<lambda>t. ok (Some t)) else ok None) (\<lambda>token.
     and_then (draw (ulid_at S)) (\<lambda>u.
     and_then (draw (clock_at S)) (\<lambda>now.
     let record = \<lparr>channel_id = ChannelId u,
                   access = (case token of None \<Rightarrow> Open | Some t \<Rightarrow> Token (ChannelToken_digest (ids S) t)),
                   expiry_seconds = expiry, lifecycle = Active, channel_created_at = now\<rparr> in
     and_then (store_call (create_channel (ids S) (meta S) record)) (\<lambda>_.
     and_then (gate (channel_id record)) (\<lambda>_.
     ok \<lparr>issued_record = record, issued_token = token\<rparr>)))))"

text \<open>The lease's record is updated in place, before the store is asked to keep it.\<close>

definition update_expiry ::
  "('d, 'f) CacheService \<Rightarrow> ChannelRecord \<Rightarrow> u64 \<Rightarrow> (('d, 'f) node, ChannelError, ChannelRecord) act" where
  "update_expiry S lease expiry =
     (let lease' = lease\<lparr>expiry_seconds := expiry\<rparr> in
      and_then (store_call (store_channel (ids S) (meta S) lease')) (\<lambda>_. ok lease'))"

definition finish_deletion :: "('d, 'f) CacheService \<Rightarrow> ChannelId \<Rightarrow> (('d, 'f) node, ChannelError, unit) act" where
  "finish_deletion S channel =
     and_then (store_call (delete_channel_data (ids S) (meta S) channel)) (\<lambda>_.
     and_then (map_err ChannelLocal (remove_channel (ids S) (fsys S) (artifact_files S) channel)) (\<lambda>_.
     and_then (store_call (finish_channel_deletion (ids S) (meta S) channel)) (\<lambda>_.
     forget channel)))"

definition delete_channel ::
  "('d, 'f) CacheService \<Rightarrow> ChannelId \<Rightarrow> string option \<Rightarrow> (('d, 'f) node, ChannelError, unit) act" where
  "delete_channel S channel credential =
     (if channel = default_channel then throw DefaultChannel
      else
        and_then (authorize_with_lease S channel credential) (\<lambda>lease.
        and_then (store_call (store_channel (ids S) (meta S) (lease\<lparr>lifecycle := Deleting\<rparr>))) (\<lambda>_.
        and_then (gate channel) (\<lambda>_. finish_deletion S channel))))"

fun finish_all :: "('d, 'f) CacheService \<Rightarrow> ChannelRecord list \<Rightarrow> (('d, 'f) node, ChannelError, unit) act" where
  "finish_all S [] = ok ()"
| "finish_all S (record # records) =
     and_then (gate (channel_id record)) (\<lambda>_.
     and_then (finish_deletion S (channel_id record)) (\<lambda>_. finish_all S records))"

definition resume_deletions :: "('d, 'f) CacheService \<Rightarrow> (('d, 'f) node, ChannelError, unit) act" where
  "resume_deletions S =
     and_then (store_call (store_channels (meta S))) (\<lambda>records.
     finish_all S (filter (\<lambda>record. lifecycle record = Deleting) records))"

end
