(* ===== verification/Service_Invariant.thy ===== *)
theory Service_Invariant
  imports Cache_Service Channels
begin

text \<open>
  The invariant of a cache node and its preservation by every operation of the cache and
  channel services, whatever the outcome: the database is well-formed and its eviction
  queue indexes the artifacts, every file at an artifact's path holds a body with that
  artifact's digest, the ledger is lawful and holds no more than before, and the recency
  filters have their shape.
\<close>

definition env_ok :: "('d, 'f) CacheService \<Rightarrow> bool" where
  "env_ok S \<longleftrightarrow> fs_ok (fsys S) \<and> hex_ok (ids S) \<and> ulid_ok (ids S) \<and> rocks_ok (meta S)"

definition stored_ok :: "('d, 'f) CacheService \<Rightarrow> ('d, 'f) node \<Rightarrow> bool" where
  "stored_ok S n \<longleftrightarrow>
     db_good (ids S) (meta S) (db n) \<and> bodies_ok (ids S) (fsys S) (artifact_files S) (disk n) \<and> recent_ok (recent n)"

definition node_ok :: "('d, 'f) CacheService \<Rightarrow> nat \<Rightarrow> ('d, 'f) node \<Rightarrow> bool" where
  "node_ok S k n \<longleftrightarrow> stored_ok S n \<and> ledger_lawful (space n) \<and> ledger_held (space n) = k"

section \<open>Lifting\<close>

lemma on_db_E:
  assumes "on_db m n = (x, n')"
  obtains d where "m (db n) = (x, d)" and "n' = n\<lparr>db := d\<rparr>"
  using assms by (auto simp: on_db_def split: prod.splits)

lemma keeps_on_db:
  assumes "keeps (db_good (ids S) (meta S)) m"
  shows "keeps (node_ok S k) (on_db m)"
  by (rule keepsI) (auto simp: node_ok_def stored_ok_def elim!: on_db_E dest: keepsD [OF assms])

lemma keeps_metadata_call:
  "keeps (db_good (ids S) (meta S)) m \<Longrightarrow> keeps (node_ok S k) (metadata_call m)"
  unfolding metadata_call_def by (intro keeps_map_err keeps_on_db)

lemma keeps_store_call:
  "keeps (db_good (ids S) (meta S)) m \<Longrightarrow> keeps (node_ok S k) (store_call m)"
  unfolding store_call_def by (intro keeps_map_err keeps_on_db)

lemma keeps_draw: "keeps (node_ok S k) (draw source)"
  by (simp add: keeps_def draw_def node_ok_def stored_ok_def)

lemma keeps_count: "keeps (node_ok S k) (count f)"
  unfolding count_def by (rule keeps_modify) (simp add: node_ok_def stored_ok_def)

lemma keeps_gate: "keeps (node_ok S k) (gate ch)" "keeps (node_ok S k) (forget ch)"
  unfolding gate_def forget_def by (rule keeps_modify, simp add: node_ok_def stored_ok_def)+

lemma keeps_gate_insert: "keeps (node_ok S k) (modify (\<lambda>n. n\<lparr>gates := f (gates n)\<rparr>))"
  by (rule keeps_modify) (simp add: node_ok_def stored_ok_def)

lemma keeps_recent:
  "(\<And>r. recent_ok r \<Longrightarrow> recent_ok (f r)) \<Longrightarrow> keeps (node_ok S k) (modify (\<lambda>n. n\<lparr>recent := f (recent n)\<rparr>))"
  by (rule keeps_modify) (simp add: node_ok_def stored_ok_def)

lemma keeps_fewer_files:
  assumes "\<And>f x f' q. m f = (x, f') \<Longrightarrow> files (fsys S) f' q = files (fsys S) f q \<or> files (fsys S) f' q = None"
  shows "keeps (node_ok S k) (on_disk m)"
proof (rule keepsI)
  fix n x n' assume n: "node_ok S k n" and run: "on_disk m n = (x, n')"
  from run obtain f' where m: "m (disk n) = (x, f')" and n': "n' = n\<lparr>disk := f'\<rparr>" by (rule on_disk_E)
  have "bodies_ok (ids S) (fsys S) (artifact_files S) f'"
    by (rule bodies_fewer [OF assms [OF m]]) (use n in \<open>simp add: node_ok_def stored_ok_def\<close>)
  with n n' show "node_ok S k n'" by (simp add: node_ok_def stored_ok_def)
qed

lemma keeps_same_files: "frame (fsys S) {} m \<Longrightarrow> keeps (node_ok S k) (on_disk m)"
  by (rule keeps_fewer_files) (simp add: frame_def)

lemma keeps_remove_file: "fs_ok (fsys S) \<Longrightarrow> keeps (node_ok S k) (on_disk (remove_file (fsys S) p))"
  by (rule keeps_fewer_files) (metis Inl_Inr_False old.unit.exhaust remove_file_spec sum.exhaust)

lemmas db_keeps = rocksdb_keeps channels_keep

lemma health_same:
  assumes r: "rocks_ok r" and run: "metadata_health r d = (x, d')"
  shows "contents r d' = contents r d"
proof -
  obtain y d1 where p: "property_int_value r d = (y, d1)" by fastforce
  obtain j d2 where j: "spawn_join r d1 = (j, d2)" by fastforce
  have "contents r d1 = contents r d" using r p unfolding rocks_ok_def by blast
  moreover have "contents r d2 = contents r d1" by (rule rocks_join [OF r j])
  moreover have "d' = d2"
    using run p j by (auto simp: metadata_health_def blocking_def map_err_def split: sum.splits option.splits)
  ultimately show ?thesis by simp
qed

lemma keeps_health: "rocks_ok (meta S) \<Longrightarrow> keeps (db_good (ids S) (meta S)) (metadata_health (meta S))"
  by (rule keepsI) (simp add: db_good_def db_inv_def db_view_def health_same)

lemma keeps_remove_dir: "fs_ok (fsys S) \<Longrightarrow> keeps (node_ok S k) (on_disk (remove_dir_all (fsys S) p))"
  by (rule keeps_fewer_files) (metis remove_dir_spec)

lemma keeps_ignore_not_found: "keeps P m \<Longrightarrow> keeps P (ignore_not_found m)"
  unfolding ignore_not_found_def by (intro keeps_outcome) (auto intro!: act_keeps split: sum.split IoError.split)

lemma keeps_remove_body: "fs_ok (fsys S) \<Longrightarrow> keeps (node_ok S k) (remove_body c (fsys S) A ch a)"
  unfolding remove_body_def by (intro keeps_ignore_not_found keeps_remove_file)

lemma keeps_remove_channel: "fs_ok (fsys S) \<Longrightarrow> keeps (node_ok S k) (remove_channel c (fsys S) A ch)"
  unfolding remove_channel_def by (intro keeps_ignore_not_found keeps_remove_dir)

lemma keeps_files_call: "keeps P m \<Longrightarrow> keeps P (files_call m)"
  unfolding files_call_def by (rule keeps_map_err)

lemma keeps_io_same: "frame (fsys S) {} m \<Longrightarrow> keeps (node_ok S k) (io m)"
  unfolding io_def by (intro keeps_map_err keeps_same_files)

lemma keeps_io_remove: "fs_ok (fsys S) \<Longrightarrow> keeps (node_ok S k) (io (remove_file (fsys S) p))"
  unfolding io_def by (intro keeps_map_err keeps_remove_file)

text \<open>The directory walks, for any predicate that listing a directory and reading a file's type keep.\<close>

definition walkable :: "(('f, 'l, 'm) local_world_scheme \<Rightarrow> bool) \<Rightarrow> 'f fs \<Rightarrow> bool" where
  "walkable P F \<longleftrightarrow>
     (\<forall>p. keeps P (on_disk (file_type F p)) \<and> keeps P (on_disk (read_dir F p)))"

lemma walkable_io:
  assumes "walkable P F"
  shows "keeps P (io (file_type F p))" "keeps P (io (read_dir F p))" "keeps P (on_disk (read_dir F p))"
  using assms by (simp_all add: walkable_def io_def keeps_map_err)

lemma keeps_read_dir_or:
  "walkable P F \<Longrightarrow> (\<And>entries. keeps P (body entries)) \<Longrightarrow> keeps P (read_dir_or F p missing body)"
  unfolding read_dir_or_def
  by (intro keeps_outcome walkable_io) (auto intro!: act_keeps split: sum.split IoError.split)

lemma keeps_remove_plain:
  "walkable P F \<Longrightarrow> (\<And>name. keeps P (io (remove_file F (p @ [name])))) \<Longrightarrow> keeps P (remove_plain_files F p entries)"
proof (induction entries)
  case (Cons entry entries)
  then show ?case
    by (cases entry) (auto intro!: keeps_and_then walkable_io keeps_throw keeps_ok)
qed (simp add: keeps_ok)

lemma keeps_clean:
  "walkable P F \<Longrightarrow> (\<And>ch name. keeps P (io (remove_file F ((root A @ [ch, ''tmp'']) @ [name])))) \<Longrightarrow>
    keeps P (clean_channels F A entries)"
proof (induction entries)
  case (Cons entry entries)
  have "keeps P (remove_plain_files F (root A @ [ch, ''tmp'']) xs)" for ch xs
    by (intro keeps_remove_plain Cons.prems)
  with Cons show ?case
    by (cases entry) (auto intro!: keeps_and_then keeps_read_dir_or keeps_throw simp: Let_def)
qed (simp add: keeps_ok)

lemma keeps_temporary:
  "walkable P F \<Longrightarrow> (\<And>ch name. keeps P (io (remove_file F ((root A @ [ch, ''tmp'']) @ [name])))) \<Longrightarrow>
    keeps P (remove_temporary_files F A)"
  unfolding remove_temporary_files_def by (intro keeps_read_dir_or keeps_clean)

lemma keeps_scan_files: "walkable P F \<Longrightarrow> keeps P (scan_files c F ch limit p found entries)"
proof (induction entries arbitrary: found)
  case (Cons entry entries)
  then show ?case
    by (cases entry) (auto intro!: keeps_and_then walkable_io keeps_throw keeps_ok split: sum.split)
qed (simp add: keeps_ok)

lemma keeps_scan_subprefixes: "walkable P F \<Longrightarrow> keeps P (scan_subprefixes c F ch limit p found entries)"
proof (induction entries arbitrary: found)
  case (Cons entry entries)
  then show ?case
    by (cases entry)
      (auto intro!: keeps_and_then walkable_io keeps_throw keeps_ok keeps_scan_files split: prod.split)
qed (simp add: keeps_ok)

lemma keeps_scan_prefixes: "walkable P F \<Longrightarrow> keeps P (scan_prefixes c F ch limit p found entries)"
proof (induction entries arbitrary: found)
  case (Cons entry entries)
  then show ?case
    by (cases entry)
      (auto intro!: keeps_and_then walkable_io keeps_throw keeps_ok keeps_scan_subprefixes split: prod.split)
qed (simp add: keeps_ok)

lemma keeps_scan_channels: "walkable P F \<Longrightarrow> keeps P (scan_channels c F A limit found entries)"
proof (induction entries arbitrary: found)
  case (Cons entry entries)
  have "keeps P (scan_channel_files c F ch p limit found)" for ch p found
    unfolding scan_channel_files_def
    by (intro keeps_read_dir_or Cons.prems keeps_and_then keeps_scan_prefixes) (auto intro: keeps_ok)
  with Cons show ?case
    by (cases entry) (auto intro!: keeps_and_then walkable_io keeps_throw keeps_ok split: option.split)
qed (simp add: keeps_ok)

lemma keeps_orphan_scan: "walkable P F \<Longrightarrow> keeps P (orphan_scan c F A limit)"
  unfolding orphan_scan_def by (intro keeps_read_dir_or keeps_scan_channels)

lemma walkable_node: "fs_ok (fsys S) \<Longrightarrow> walkable (node_ok S k) (fsys S)"
  unfolding walkable_def by (intro allI conjI keeps_same_files frames)

end
