(* ===== verification/Reference_Disk.thy ===== *)
theory Reference_Disk
  imports Staging Reference_Crates
begin

text \<open>
  A concrete file system: association lists of files and directories, writers that keep
  what they accepted until they are flushed, and an encoder whose frame is a two-byte
  header followed by the body. It is used only where a property is applied to a concrete
  input.
\<close>

record demo_disk =
  d_files :: "(Path \<times> bytes) list"
  d_dirs :: "Path list"
  d_accepted :: "(Path \<times> bytes) list"
  d_data :: "Path list"
  d_entries :: "Path list"
  d_next :: nat

definition d_acc :: "demo_disk \<Rightarrow> Path \<Rightarrow> bytes" where
  "d_acc f p = (case map_of (d_accepted f) p of None \<Rightarrow> [] | Some bs \<Rightarrow> bs)"

definition d_put :: "Path \<Rightarrow> bytes \<Rightarrow> demo_disk \<Rightarrow> demo_disk" where
  "d_put p bs f = f\<lparr>d_files := (p, bs) # d_files f\<rparr>"

definition d_accept :: "Path \<Rightarrow> bytes \<Rightarrow> demo_disk \<Rightarrow> demo_disk" where
  "d_accept p bs f = f\<lparr>d_accepted := (p, bs) # d_accepted f\<rparr>"

definition d_drop :: "(Path \<Rightarrow> bool) \<Rightarrow> demo_disk \<Rightarrow> demo_disk" where
  "d_drop P f = f\<lparr>d_files := filter (\<lambda>(q, bs). \<not> P q) (d_files f)\<rparr>"

definition below :: "Path \<Rightarrow> Path \<Rightarrow> bool" where
  "below p q \<longleftrightarrow> take (length p) q = p"

definition d_children :: "Path \<Rightarrow> demo_disk \<Rightarrow> string list" where
  "d_children p f =
     remdups (map (\<lambda>q. q ! length p) (filter (\<lambda>q. below p q \<and> length q > length p)
       (map fst (d_files f) @ d_dirs f)))"

definition demo_frame :: "bytes \<Rightarrow> bytes" where
  "demo_frame bs = 40 # 181 # bs"

definition demo_fs :: "demo_disk fs" where
  "demo_fs =
     \<lparr>files = (\<lambda>f. map_of (d_files f)), dirs = (\<lambda>f p. p \<in> set (d_dirs f)), accepted = d_acc,
      data_synced = (\<lambda>f. set (d_data f)), entry_synced = (\<lambda>f. {p. butlast p \<in> set (d_entries f)}),
      create_dir_all = (\<lambda>p f. (Inr (), f\<lparr>d_dirs := p # d_dirs f\<rparr>)),
      create_new = (\<lambda>p f. if map_of (d_files f) p \<noteq> None then (Inl IoAlreadyExists, f)
                          else (Inr (), d_accept p [] (d_put p [] f))),
      file_write_all = (\<lambda>p bs f. (Inr (), d_accept p (d_acc f p @ bs) f)),
      file_flush = (\<lambda>p f. (Inr (), d_put p (d_acc f p) f)),
      encoder_write_all = (\<lambda>p bs f. (Inr (), d_accept p (d_acc f p @ bs) f)),
      encoder_shutdown = (\<lambda>p f. (Inr (), d_put p (demo_frame (d_acc f p)) f)),
      file_len = (\<lambda>p f. case map_of (d_files f) p of
                          None \<Rightarrow> (Inl IoNotFound, f) | Some bs \<Rightarrow> (Inr (of_nat (length bs)), f)),
      file_sync_all = (\<lambda>p f. (Inr (), f\<lparr>d_data := p # d_data f\<rparr>)),
      try_exists = (\<lambda>p f. (Inr (map_of (d_files f) p \<noteq> None \<or> p \<in> set (d_dirs f)), f)),
      remove_file = (\<lambda>p f. if map_of (d_files f) p = None then (Inl IoNotFound, f)
                           else (Inr (), d_drop (\<lambda>q. q = p) f)),
      rename = (\<lambda>p q f. case map_of (d_files f) p of
                          None \<Rightarrow> (Inl IoNotFound, f)
                        | Some bs \<Rightarrow> (Inr (), (d_put q bs (d_drop (\<lambda>r. r = p) f))
                                       \<lparr>d_data := (if p \<in> set (d_data f) then q # d_data f else d_data f)\<rparr>)),
      sync_directory = (\<lambda>p f. (Inr (), f\<lparr>d_entries := p # d_entries f\<rparr>)),
      metadata_is_dir = (\<lambda>p f. (Inr (p \<in> set (d_dirs f)), f)),
      read_dir = (\<lambda>p f. (Inr (map Inr (d_children p f)), f)),
      file_type = (\<lambda>p f. (Inr (if map_of (d_files f) p \<noteq> None then RegularFile else Directory), f)),
      open_file = (\<lambda>p f. case map_of (d_files f) p of None \<Rightarrow> (Inl IoNotFound, f) | Some bs \<Rightarrow> (Inr bs, f)),
      remove_dir_all = (\<lambda>p f. (Inr (), d_drop (below p) f)),
      ulid_new = (\<lambda>f. (of_nat (d_next f), f\<lparr>d_next := d_next f + 1\<rparr>)),
      zstd_frame = demo_frame,
      zstd_decode = (\<lambda>bs. if take 2 bs = [40, 181] then Some (drop 2 bs) else None)\<rparr>"

lemma demo_fs_select [simp]:
  "files demo_fs = (\<lambda>f. map_of (d_files f))"
  "dirs demo_fs = (\<lambda>f p. p \<in> set (d_dirs f))"
  "accepted demo_fs = d_acc"
  "data_synced demo_fs = (\<lambda>f. set (d_data f))"
  "entry_synced demo_fs = (\<lambda>f. {p. butlast p \<in> set (d_entries f)})"
  "create_dir_all demo_fs = (\<lambda>p f. (Inr (), f\<lparr>d_dirs := p # d_dirs f\<rparr>))"
  "create_new demo_fs = (\<lambda>p f. if map_of (d_files f) p \<noteq> None then (Inl IoAlreadyExists, f) else (Inr (), d_accept p [] (d_put p [] f)))"
  "file_write_all demo_fs = (\<lambda>p bs f. (Inr (), d_accept p (d_acc f p @ bs) f))"
  "file_flush demo_fs = (\<lambda>p f. (Inr (), d_put p (d_acc f p) f))"
  "encoder_write_all demo_fs = (\<lambda>p bs f. (Inr (), d_accept p (d_acc f p @ bs) f))"
  "encoder_shutdown demo_fs = (\<lambda>p f. (Inr (), d_put p (demo_frame (d_acc f p)) f))"
  "file_len demo_fs = (\<lambda>p f. case map_of (d_files f) p of None \<Rightarrow> (Inl IoNotFound, f) | Some bs \<Rightarrow> (Inr (of_nat (length bs)), f))"
  "file_sync_all demo_fs = (\<lambda>p f. (Inr (), f\<lparr>d_data := p # d_data f\<rparr>))"
  "try_exists demo_fs = (\<lambda>p f. (Inr (map_of (d_files f) p \<noteq> None \<or> p \<in> set (d_dirs f)), f))"
  "remove_file demo_fs = (\<lambda>p f. if map_of (d_files f) p = None then (Inl IoNotFound, f) else (Inr (), d_drop (\<lambda>q. q = p) f))"
  "rename demo_fs = (\<lambda>p q f. case map_of (d_files f) p of None \<Rightarrow> (Inl IoNotFound, f) | Some bs \<Rightarrow> (Inr (), (d_put q bs (d_drop (\<lambda>r. r = p) f)) \<lparr>d_data := (if p \<in> set (d_data f) then q # d_data f else d_data f)\<rparr>))"
  "sync_directory demo_fs = (\<lambda>p f. (Inr (), f\<lparr>d_entries := p # d_entries f\<rparr>))"
  "metadata_is_dir demo_fs = (\<lambda>p f. (Inr (p \<in> set (d_dirs f)), f))"
  "read_dir demo_fs = (\<lambda>p f. (Inr (map Inr (d_children p f)), f))"
  "file_type demo_fs = (\<lambda>p f. (Inr (if map_of (d_files f) p \<noteq> None then RegularFile else Directory), f))"
  "open_file demo_fs = (\<lambda>p f. case map_of (d_files f) p of None \<Rightarrow> (Inl IoNotFound, f) | Some bs \<Rightarrow> (Inr bs, f))"
  "remove_dir_all demo_fs = (\<lambda>p f. (Inr (), d_drop (below p) f))"
  "ulid_new demo_fs = (\<lambda>f. (of_nat (d_next f), f\<lparr>d_next := d_next f + 1\<rparr>))"
  "zstd_frame demo_fs = demo_frame"
  "zstd_decode demo_fs = (\<lambda>bs. if take 2 bs = [40, 181] then Some (drop 2 bs) else None)"
  by (simp_all add: demo_fs_def)

lemma map_of_drop: "map_of (filter (\<lambda>(q, bs). \<not> P q) xs) r = (if P r then None else map_of xs r)"
  by (induction xs) auto

lemmas demo_disk_defs = d_acc_def d_put_def d_accept_def d_drop_def map_of_drop

lemma demo_writers_ok: "writers_ok demo_fs"
  unfolding writers_ok_def
  by (intro conjI allI impI) (auto simp: demo_disk_defs demo_frame_def split: if_splits option.splits)

lemma below_append [simp]: "below p (p @ rest)"
  by (simp add: below_def)

lemma below_D: "below p q \<Longrightarrow> \<exists>rest. q = p @ rest"
  unfolding below_def by (simp add: take_prefix_iff)

lemma demo_frames_ok: "frames_ok demo_fs"
  unfolding frames_ok_def frame_def
  by (intro conjI allI impI) (auto simp: demo_disk_defs split: if_splits option.splits dest: below_D)

lemma demo_moves_ok: "moves_ok demo_fs"
  unfolding moves_ok_def
  by (intro conjI allI impI) (auto simp: demo_disk_defs split: if_splits option.splits dest: below_D)

lemma demo_dirs_ok: "dirs_ok demo_fs"
  unfolding dirs_ok_def makes_no_dir_def
  by (intro conjI allI impI) (auto simp: demo_disk_defs split: if_splits option.splits)

lemma demo_fs_ok: "fs_ok demo_fs"
  by (simp add: fs_ok_def demo_writers_ok demo_frames_ok demo_moves_ok demo_dirs_ok)

lemma demo_sync_ok: "sync_ok demo_fs"
  unfolding sync_ok_def
  by (intro conjI allI impI) (auto simp: demo_disk_defs split: option.splits if_splits)

definition demo_root :: ArtifactFiles where
  "demo_root = \<lparr>root = [''cache''], reservation_extent = 4096\<rparr>"

definition demo_world :: "(demo_disk, SpaceLedger) local_world" where
  "demo_world =
     \<lparr>disk = \<lparr>d_files = [], d_dirs = [], d_accepted = [], d_data = [], d_entries = [], d_next = 0\<rparr>,
      space = SpaceLedger_new (Some 1000000) 
        \<lparr>low_watermark = 2000, high_watermark = 3000, emergency_headroom = 1000\<rparr>\<rparr>"

end
