(* ===== verification/Service_Steps.thy ===== *)
theory Service_Steps
  imports Service_Invariant Reference_Disk Reference_Store
begin

text \<open>
  Every operation of the two services preserves the node's invariant, a step relation of
  all operations on all arguments with all outcomes, and what holds in every state it
  reaches.
\<close>

section \<open>Operations that do not stage\<close>

lemma keeps_fence: "keeps (node_ok S k) (channel_fence S ch)"
  unfolding channel_fence_def
  by (intro keeps_and_then keeps_gate_insert keeps_metadata_call db_keeps)
    (auto intro!: act_keeps split: option.split)

lemma keeps_expiry: "keeps (node_ok S k) (service_expiry_seconds S ch)"
  unfolding service_expiry_seconds_def
  by (intro keeps_and_then keeps_metadata_call db_keeps) (auto intro!: act_keeps split: option.split)

lemma keeps_locate_local: "env_ok S \<Longrightarrow> keeps (node_ok S k) (locate_local S ch a)"
  unfolding locate_local_def env_ok_def
  by (intro keeps_and_then keeps_metadata_call db_keeps)
    (auto intro!: act_keeps keeps_same_files frames keeps_metadata_call db_keeps
      split: option.split sum.split IoError.split)

lemma keeps_locate: "env_ok S \<Longrightarrow> keeps (node_ok S k) (locate S ch a)"
  unfolding locate_def
  by (intro keeps_and_then keeps_locate_local)
    (auto intro!: keeps_and_then keeps_ok keeps_count keeps_recent recent_ok_mark split: option.split)

lemma keeps_bind: "keeps (node_ok S k) (bind_reference_with_validators S ch n a e l dur)"
  unfolding bind_reference_with_validators_def
  by (intro keeps_and_then keeps_fence keeps_draw keeps_metadata_call db_keeps)

lemma keeps_resolve: "keeps (node_ok S k) (resolve_reference S ch n)"
  unfolding resolve_reference_def by (intro keeps_metadata_call db_keeps)

lemma keeps_delete_ref: "keeps (node_ok S k) (delete_reference S ch n)"
  unfolding delete_reference_def by (intro keeps_and_then keeps_fence keeps_metadata_call db_keeps)

lemma keeps_reconcile_each: "env_ok S \<Longrightarrow> keeps (node_ok S k) (reconcile_each S found)"
proof (induction found)
  case (Cons x found)
  have "keeps (node_ok S k) (metadata_call (store_artifact (ids S) (meta S) ch a))" for ch a
    by (intro keeps_metadata_call db_keeps)
  moreover have "keeps (node_ok S k) (files_call (remove_body (ids S) (fsys S) (artifact_files S) ch a))" for ch a
    using Cons.prems by (intro keeps_files_call keeps_remove_body) (simp add: env_ok_def)
  ultimately show ?case
    using Cons by (cases x) (auto intro!: keeps_and_then keeps_ok)
qed (simp add: keeps_ok)

lemma keeps_reconcile: "env_ok S \<Longrightarrow> keeps (node_ok S k) (reconcile S)"
  unfolding reconcile_def
  by (intro keeps_and_then keeps_files_call keeps_temporary keeps_orphan_scan keeps_reconcile_each walkable_node
      keeps_io_remove) (simp_all add: env_ok_def)

lemma keeps_look: "keeps P (\<lambda>n. if Q n then (x, n) else (y, n))"
  by (simp add: keeps_def)

lemma keeps_choice: "keeps P m \<Longrightarrow> keeps P m' \<Longrightarrow> keeps P (\<lambda>n. (if Q n then m else m') n)"
  by (simp add: keeps_def)

lemma keeps_ready:
  assumes "env_ok S"
  shows "keeps (node_ok S k) (ready S)"
proof -
  have "keeps (node_ok S k) (files_health (fsys S) (artifact_files S))"
    unfolding files_health_def
    by (intro keeps_and_then keeps_io_same frames) (use assms in \<open>auto simp: env_ok_def intro!: act_keeps\<close>)
  then show ?thesis
    unfolding ready_def
    by (intro keeps_and_then keeps_metadata_call keeps_health keeps_files_call keeps_look)
      (use assms in \<open>simp add: env_ok_def\<close>)
qed

lemma keeps_evict_one: "env_ok S \<Longrightarrow> keeps (node_ok S k) (evict_one S ch cand b)"
  unfolding evict_one_def env_ok_def
  by (intro keeps_and_then keeps_metadata_call db_keeps)
    (auto intro!: keeps_ok keeps_files_call keeps_remove_body split: option.split Evicted.split)

lemma keeps_reclaim_channel: "env_ok S \<Longrightarrow> keeps (node_ok S k) (reclaim_channel S md now ch expiry cands b)"
proof (induction cands arbitrary: b)
  case (Cons cand cands)
  have requeue: "keeps (node_ok S k) (and_then (metadata_call (requeue (ids S) (meta S) ch a old new))
      (\<lambda>_. and_then (count f) (\<lambda>_. reclaim_channel S md now ch expiry cands b')))" for a old new f b'
    by (intro keeps_and_then keeps_metadata_call db_keeps keeps_count Cons.IH Cons.prems)
  have evict: "keeps (node_ok S k) (and_then (evict_one S ch cand b') (\<lambda>b''. reclaim_channel S md now ch expiry cands b''))" for b'
    by (intro keeps_and_then keeps_evict_one Cons.IH Cons.prems)
  show ?case
    unfolding reclaim_channel.simps Let_def
    by (intro keeps_if keeps_ok keeps_choice requeue evict)
qed (simp add: keeps_ok)

lemma keeps_reclaim_channels: "env_ok S \<Longrightarrow> keeps (node_ok S k) (reclaim_channels S md now chs b)"
proof (induction chs arbitrary: b)
  case (Cons ch chs)
  then show ?case
    by (auto intro!: keeps_and_then keeps_ok keeps_expiry keeps_metadata_call db_keeps keeps_reclaim_channel
        split: prod.split)
qed (simp add: keeps_ok)

lemma keeps_refresh: "keeps (node_ok S k) (refresh_space S)"
  unfolding refresh_space_def
  by (intro keeps_and_then keeps_draw keeps_modify)
    (auto simp: node_ok_def stored_ok_def on_space_def refresh_def ledger_view split: option.split)

lemma keeps_mode: "keeps (node_ok S k) space_mode"
  by (rule keepsI)
    (auto simp: space_mode_def mode_def node_ok_def stored_ok_def ledger_view Let_def
      split: prod.splits if_splits)

lemma keeps_maintenance: "env_ok S \<Longrightarrow> keeps (node_ok S k) (run_maintenance_once S limit)"
proof -
  assume env: "env_ok S"
  have "keeps (node_ok S k) (rotate_channels chs)" for chs
    by (auto simp: rotate_channels_def keeps_ok) (simp add: keeps_def node_ok_def stored_ok_def)
  moreover have "keeps (node_ok S k) (modify (\<lambda>n. n\<lparr>stats := f n\<rparr>))" for f
    by (rule keeps_modify) (simp add: node_ok_def stored_ok_def)
  moreover have "keeps (node_ok S k) (service_channels S)"
    unfolding service_channels_def by (intro keeps_and_then keeps_metadata_call db_keeps keeps_ok)
  ultimately show ?thesis
    unfolding run_maintenance_once_def
    by (intro keeps_and_then keeps_refresh keeps_mode keeps_draw keeps_reclaim_channels keeps_count keeps_ok env)
qed

lemma keeps_authorize: "keeps (node_ok S k) (authorize S ch cred)"
  unfolding authorize_def
  by (intro keeps_and_then keeps_store_call db_keeps)
    (auto intro!: act_keeps split: option.split)

lemma keeps_lease: "keeps (node_ok S k) (authorize_with_lease S ch cred)"
  unfolding authorize_with_lease_def by (intro keeps_and_then keeps_authorize keeps_gate)

lemma keeps_default: "keeps (node_ok S k) (ensure_default S expiry)"
  unfolding ensure_default_def Let_def
  by (auto intro!: keeps_and_then keeps_outcome keeps_store_call keeps_on_db db_keeps keeps_draw keeps_ok
      keeps_throw keeps_gate split: option.split sum.split MetadataError.split)

lemma keeps_register: "keeps (node_ok S k) (register S prot expiry)"
  unfolding register_def Let_def
  by (auto intro!: keeps_and_then keeps_store_call db_keeps keeps_draw keeps_ok keeps_gate)

lemma keeps_update_expiry: "keeps (node_ok S k) (update_expiry S lease expiry)"
  unfolding update_expiry_def Let_def by (intro keeps_and_then keeps_store_call db_keeps keeps_ok)

lemma keeps_finish: "env_ok S \<Longrightarrow> keeps (node_ok S k) (finish_deletion S ch)"
  unfolding finish_deletion_def
  by (intro keeps_and_then keeps_store_call db_keeps keeps_map_err keeps_remove_channel keeps_gate)
    (simp add: env_ok_def)

lemma keeps_delete_channel: "env_ok S \<Longrightarrow> keeps (node_ok S k) (delete_channel S ch cred)"
  unfolding delete_channel_def
  by (intro keeps_if keeps_throw keeps_and_then keeps_lease keeps_store_call db_keeps keeps_gate keeps_finish)

lemma keeps_finish_all: "env_ok S \<Longrightarrow> keeps (node_ok S k) (finish_all S records)"
  by (induction records) (auto intro!: keeps_and_then keeps_ok keeps_gate keeps_finish)

lemma keeps_resume: "env_ok S \<Longrightarrow> keeps (node_ok S k) (resume_deletions S)"
  unfolding resume_deletions_def by (intro keeps_and_then keeps_store_call db_keeps keeps_finish_all)

section \<open>Publication\<close>

text \<open>A node that holds a staged artifact on top of \<open>k\<close> bytes for others.\<close>

definition staging_ok :: "('d, 'f) CacheService \<Rightarrow> nat \<Rightarrow> bytes \<Rightarrow> StagedArtifact \<Rightarrow> ('d, 'f) node \<Rightarrow> bool" where
  "staging_ok S k body st n \<longleftrightarrow>
     stored_ok S n \<and> staged_ok (ids S) (fsys S) (artifact_files S) (disk n) body st
   \<and> ledger.covers k (staged_reservation st, n)"

lemma keeps_staging_db:
  assumes "keeps (db_good (ids S) (meta S)) m"
  shows "keeps (staging_ok S k body st) (on_db m)"
  by (rule keepsI)
    (auto simp: staging_ok_def stored_ok_def ledger.covers_def elim!: on_db_E dest: keepsD [OF assms])

lemma keeps_staging_fence: "keeps (staging_ok S k body st) (channel_fence S ch)"
proof -
  have "keeps (staging_ok S k body st) (modify (\<lambda>n. n\<lparr>gates := f (gates n)\<rparr>))" for f
    by (rule keeps_modify) (simp add: staging_ok_def stored_ok_def ledger.covers_def)
  then show ?thesis
    unfolding channel_fence_def metadata_call_def
    by (intro keeps_and_then keeps_map_err keeps_staging_db db_keeps) (auto intro!: act_keeps split: option.split)
qed

lemma discard_staging:
  assumes "env_ok S" and "staging_ok S k body st n"
  shows "node_ok S k (discard (fsys S) ledger_reserver (staged_reservation st) n)"
proof -
  let ?n = "discard (fsys S) ledger_reserver (staged_reservation st) n"
  have F: "fs_ok (fsys S)" using assms(1) by (simp add: env_ok_def)
  have same: "db ?n = db n" "recent ?n = recent n"
    by (auto simp: discard_def Let_def settlement_release_def settlement_commit_def settle_removal_def on_space_def
        on_disk_def split: ReservationState.split prod.split sum.split IoError.split)
  have "staging_kept (ids S) (fsys S) (artifact_files S) (files (fsys S) (disk n)) (staged_reservation st, n)"
    using assms(2) by (auto simp: staging_kept_def others_kept_def staging_ok_def staged_ok_def is_temp_def)
  from bodies_others [OF discard_kept [OF F this]] assms(2) same
    ledger.discard_settles [of k "staged_reservation st" n "fsys S"]
  show ?thesis by (auto simp: node_ok_def stored_ok_def staging_ok_def)
qed

text \<open>A settled reservation that owns no temporary file leaves the stored state alone.\<close>

lemma discard_settled:
  assumes "stored_ok S n" and "ledger.covers k (res, n)" and "reservation_state res = Vacant \<or> reservation_state res = Published"
  shows "node_ok S k (discard (fsys S) ledger_reserver res n)"
    and "node_ok S k (reservation_commit ledger_reserver b res n)"
  using assms ledger.discard_settles [OF assms(2), of "fsys S"] ledger.commit_settles [OF assms(2), of b]
  by (auto simp: node_ok_def stored_ok_def discard_def Let_def settlement_release_def settlement_commit_def
      on_space_def reservation_commit_def)

lemma node_more:
  "local_world.more (n' :: ('d, 'f) node) = local_world.more n \<Longrightarrow>
    db n' = db n \<and> recent n' = recent n \<and> stats n' = stats n \<and> gates n' = gates n"
  by (cases n; cases n') simp

lemma publish_staging:
  assumes env: "env_ok S" and st: "staging_ok S k body st n"
    and run: "publish_file (ids S) (fsys S) ledger_reserver (artifact_files S) ch a st dur n = (x, n')"
  shows "case x of
      Inr (Created res) \<Rightarrow> stored_ok S n' \<and> ledger.covers k (res, n') \<and> reservation_state res = Published
    | Inr (Existing res) \<Rightarrow> stored_ok S n' \<and> ledger.covers k (res, n') \<and> reservation_state res = Vacant
    | Inl e \<Rightarrow> node_ok S k n'"
proof -
  have F: "fs_ok (fsys S)" and c: "hex_ok (ids S)" "ulid_ok (ids S)" using env by (simp_all add: env_ok_def)
  from st have so: "staged_ok (ids S) (fsys S) (artifact_files S) (disk n) body st"
    and cov: "ledger.covers k (staged_reservation st, n)" and stored: "stored_ok S n"
    by (simp_all add: staging_ok_def)
  from node_more [OF more_publish [OF run]] have "db n' = db n" "recent n' = recent n" by auto
  with publish_keeps_bodies [OF F c so run] stored have "stored_ok S n'" by (simp add: stored_ok_def)
  with ledger.publish_covers [OF cov run] publish_file_effect [OF F so run] show ?thesis
    by (auto simp: node_ok_def split: sum.splits FilePublication.splits)
qed

text \<open>The ways through \<open>commit_staged\<close>, and the record it commits.\<close>

definition publication_reservation :: "FilePublication \<Rightarrow> Reservation" where
  "publication_reservation fp = (case fp of Created r \<Rightarrow> r | Existing r \<Rightarrow> r)"

definition committed_metadata :: "StagedArtifact \<Rightarrow> Commit \<Rightarrow> u64 \<Rightarrow> u64 \<Rightarrow> ArtifactMetadata" where
  "committed_metadata st cm now expiry =
     \<lparr>content_len = staged_len st, content_type = commit_content_type cm, created_at = now,
      eligible_at = saturating_add now expiry, stored_len = staged_stored_len st, encoding = staged_encoding st\<rparr>"

lemma commit_staged_E:
  assumes run: "commit_staged S ch a st cm n = (x, n')"
  obtains (fenced) e n1 where "channel_fence S ch n = (Inl e, n1)" and "x = Inl e"
      and "n' = discard (fsys S) ledger_reserver (staged_reservation st) n1"
    | (unpublished) expiry n1 e where "channel_fence S ch n = (Inr expiry, n1)" and "x = Inl (CacheLocal e)"
      and "publish_file (ids S) (fsys S) ledger_reserver (artifact_files S) ch a st (commit_durability cm) n1 = (Inl e, n')"
    | (refused) expiry n1 fp n2 e d where "channel_fence S ch n = (Inr expiry, n1)" and "x = Inl (CacheMetadata e)"
      and "publish_file (ids S) (fsys S) ledger_reserver (artifact_files S) ch a st (commit_durability cm) n1 = (Inr fp, n2)"
      and "commit_publication (ids S) (meta S) ch a (committed_metadata st cm (clock_at S (draws n2)) expiry)
        (commit_reference cm) (commit_durability cm) (db n2) = (Inl e, d)"
      and "n' = discard (fsys S) ledger_reserver (publication_reservation fp) (n2\<lparr>draws := draws n2 + 1, db := d\<rparr>)"
    | (committed) expiry n1 fp n2 created d b where "channel_fence S ch n = (Inr expiry, n1)"
      and "x = Inr \<lparr>pub_artifact = a, pub_outcome = (if created then PublicationCreated else PublicationExisting)\<rparr>"
      and "publish_file (ids S) (fsys S) ledger_reserver (artifact_files S) ch a st (commit_durability cm) n1 = (Inr fp, n2)"
      and "commit_publication (ids S) (meta S) ch a (committed_metadata st cm (clock_at S (draws n2)) expiry)
        (commit_reference cm) (commit_durability cm) (db n2) = (Inr created, d)"
      and "n' = reservation_commit ledger_reserver b (publication_reservation fp) (n2\<lparr>draws := draws n2 + 1, db := d\<rparr>)"
proof -
  obtain fence n1 where f: "channel_fence S ch n = (fence, n1)" by fastforce
  obtain y n2 where p: "publish_file (ids S) (fsys S) ledger_reserver (artifact_files S) ch a st
      (commit_durability cm) n1 = (y, n2)" by fastforce
  show thesis
  proof (cases fence)
    case (Inl e)
    with run f fenced show thesis by (simp add: commit_staged_def outcome_def and_then_def modify_def throw_def)
  next
    case (Inr expiry)
    note f = f [unfolded Inr]
    show thesis
    proof (cases y)
      case (Inl e)
      with run f p have "x = Inl (CacheLocal e) \<and> n2 = n'"
        by (simp add: commit_staged_def outcome_def and_then_def files_call_def map_err_def)
      with unpublished [OF f] p Inl show thesis by simp
    next
      case y: (Inr fp)
      note p = p [unfolded y]
      obtain z d where q: "commit_publication (ids S) (meta S) ch a
          (committed_metadata st cm (clock_at S (draws n2)) expiry) (commit_reference cm) (commit_durability cm)
          (db n2) = (z, d)" by fastforce
      define b where "b = (case fp of Created _ \<Rightarrow> staged_stored_len st | Existing _ \<Rightarrow> 0)"
      have "(x, n') = (case z of
          Inl e \<Rightarrow> (Inl (CacheMetadata e), discard (fsys S) ledger_reserver (publication_reservation fp)
            (n2\<lparr>draws := draws n2 + 1, db := d\<rparr>))
        | Inr created \<Rightarrow> (Inr \<lparr>pub_artifact = a, pub_outcome = (if created then PublicationCreated else PublicationExisting)\<rparr>,
            reservation_commit ledger_reserver b (publication_reservation fp) (n2\<lparr>draws := draws n2 + 1, db := d\<rparr>)))"
        using run f p q by (cases fp; cases z)
          (auto simp: commit_staged_def outcome_def and_then_def files_call_def map_err_def draw_def on_db_def
            modify_def throw_def ok_def committed_metadata_def publication_reservation_def b_def)
      with refused [OF f _ p] committed [OF f _ p] q show thesis by (cases z) auto
    qed
  qed
qed

lemma commit_staged_keeps:
  assumes env: "env_ok S" and st: "staging_ok S k body st n" and run: "commit_staged S ch a st cm n = (x, n')"
  shows "node_ok S k n'"
proof -
  have fence: "staging_ok S k body st n1" if "channel_fence S ch n = (f, n1)" for f n1
    by (rule keepsD [OF keeps_staging_fence st that])
  have settled: "node_ok S k (discard (fsys S) ledger_reserver (publication_reservation fp) (n2\<lparr>draws := i, db := d\<rparr>))
      \<and> node_ok S k (reservation_commit ledger_reserver b (publication_reservation fp) (n2\<lparr>draws := i, db := d\<rparr>))"
    if "staging_ok S k body st n1"
      and "publish_file (ids S) (fsys S) ledger_reserver (artifact_files S) ch a st (commit_durability cm) n1 = (Inr fp, n2)"
      and "commit_publication (ids S) (meta S) ch a md (commit_reference cm) (commit_durability cm) (db n2) = (z, d)"
    for n1 n2 fp md z d i b
  proof -
    from publish_staging [OF env that(1,2)] have good: "stored_ok S n2" "ledger.covers k (publication_reservation fp, n2)"
        "reservation_state (publication_reservation fp) = Vacant \<or> reservation_state (publication_reservation fp) = Published"
      by (auto simp: publication_reservation_def split: FilePublication.splits)
    have "db_good (ids S) (meta S) d"
      by (rule keepsD [OF db_keeps(1) _ that(3)]) (use good in \<open>simp add: stored_ok_def\<close>)
    with good have "stored_ok S (n2\<lparr>draws := i, db := d\<rparr>)" "ledger.covers k (publication_reservation fp, n2\<lparr>draws := i, db := d\<rparr>)"
      by (auto simp: stored_ok_def ledger.covers_def)
    from discard_settled [OF this good(3)] show ?thesis by blast
  qed
  from run show ?thesis
  proof (cases rule: commit_staged_E)
    case fenced
    with discard_staging [OF env fence] show ?thesis by simp
  next
    case unpublished
    with publish_staging [OF env fence] show ?thesis by fastforce
  next
    case refused
    with settled [OF fence] show ?thesis by blast
  next
    case committed
    with settled [OF fence] show ?thesis by blast
  qed
qed

lemma stage_staging:
  assumes env: "env_ok S" and n: "node_ok S k n" and fit: "chunks_fit stream"
    and run: "stage (ids S) (fsys S) ledger_reserver (artifact_files S) ch stream max_bytes len dur enc n = (x, n')"
  shows "case x of Inr (Ready st) \<Rightarrow> staging_ok S k (stream_body stream) st n' | _ \<Rightarrow> node_ok S k n'"
proof -
  have F: "fs_ok (fsys S)" using env by (simp add: env_ok_def)
  from node_more [OF more_stage [OF run]] have "db n' = db n" "recent n' = recent n" by auto
  with bodies_others [OF stage_keeps_bodies [OF F run]] n have stored: "stored_ok S n'"
    by (simp add: node_ok_def stored_ok_def)
  have "ledger_lawful (space n)" "ledger_held (space n) = k" using n by (simp_all add: node_ok_def)
  with ledger.stage_covers [OF _ run] have led: "case x of Inr (Ready st) \<Rightarrow> ledger.covers k (staged_reservation st, n')
      | _ \<Rightarrow> ledger_lawful (space n') \<and> ledger_held (space n') = k"
    by (auto split: sum.splits StageOutcome.splits)
  show ?thesis
  proof (cases "\<exists>st. x = Inr (Ready st)")
    case True
    then obtain st where x: "x = Inr (Ready st)" ..
    from stage_ready [OF F fit run [unfolded x]] led stored x show ?thesis by (simp add: staging_ok_def)
  next
    case False
    with led stored show ?thesis by (auto simp: node_ok_def split: sum.splits StageOutcome.splits)
  qed
qed

lemma staging_frame:
  "staging_ok S k body st n \<Longrightarrow> staging_ok S k body st (n\<lparr>stats := m\<rparr>)"
  "staging_ok S k body st n \<Longrightarrow> staging_ok S k body st (n\<lparr>draws := i\<rparr>)"
  by (simp_all add: staging_ok_def stored_ok_def ledger.covers_def)

text \<open>Once a body is staged, the rest of a publication is one call of \<open>commit_staged\<close>.\<close>

definition publication_target ::
  "('d, 'f) CacheService \<Rightarrow> PublishRequest \<Rightarrow> StagedArtifact \<Rightarrow>
    (('d, 'f) node, CacheError, ArtifactId \<times> (string \<times> ReferenceRecord) option) act" where
  "publication_target S request st =
     (case req_target request of
        ById artifact \<Rightarrow> ok (artifact, None)
      | ContentAddressed reference \<Rightarrow>
          let artifact = ArtifactId (staged_digest st) in
          (case reference of
             None \<Rightarrow> ok (artifact, None)
           | Some name \<Rightarrow>
               and_then (draw (clock_at S)) (\<lambda>now.
               ok (artifact, Some (name, \<lparr>ref_artifact = artifact, updated_at = now, etag = None,
                                          last_modified = None\<rparr>)))))"

definition after_staging ::
  "('d, 'f) CacheService \<Rightarrow> PublishRequest \<Rightarrow> StagedArtifact \<Rightarrow> (('d, 'f) node, CacheError, Admission) act" where
  "after_staging S request st =
     and_then (count (metrics_written (staged_len st))) (\<lambda>_.
     and_then (publication_target S request st) (\<lambda>(artifact, reference).
     and_then (commit_staged S (req_channel request) artifact st
         \<lparr>commit_content_type = req_content_type request, commit_reference = reference,
          commit_durability = req_durability request\<rparr>) (\<lambda>publication.
     ok (AdmissionPublished publication))))"

definition target_artifact :: "PublishRequest \<Rightarrow> StagedArtifact \<Rightarrow> ArtifactId" where
  "target_artifact request st =
     (case req_target request of ById a \<Rightarrow> a | ContentAddressed _ \<Rightarrow> ArtifactId (staged_digest st))"

definition target_reference :: "PublishRequest \<Rightarrow> StagedArtifact \<Rightarrow> (string \<times> ReferenceRecord) option \<Rightarrow> bool" where
  "target_reference request st reference \<longleftrightarrow>
     (case req_target request of
        ContentAddressed (Some name) \<Rightarrow> (\<exists>record. reference = Some (name, record)
          \<and> ref_artifact record = ArtifactId (staged_digest st))
      | _ \<Rightarrow> reference = None)"

lemma publication_target_runs:
  "\<exists>reference i. publication_target S request st n = (Inr (target_artifact request st, reference), n\<lparr>draws := i\<rparr>)
     \<and> target_reference request st reference"
proof -
  have same: "n = n\<lparr>draws := draws n\<rparr>" by simp
  have ex: "\<exists>i. n = n\<lparr>draws := i\<rparr>" using same by blast
  have "\<exists>i. n\<lparr>draws := j\<rparr> = n\<lparr>draws := i\<rparr>" for j by blast
  with ex show ?thesis
    by (cases "req_target request" rule: PublicationTarget.exhaust;
        cases "case req_target request of ContentAddressed r \<Rightarrow> r | _ \<Rightarrow> None")
      (simp_all add: publication_target_def target_artifact_def target_reference_def ok_def draw_def and_then_def Let_def)
qed

lemma publish_or_reject_staged:
  "publish_or_reject S request =
     and_then (files_call (stage (ids S) (fsys S) ledger_reserver (artifact_files S) (req_channel request)
         (req_stream request) (max_upload_bytes S) (req_content_length request) (req_durability request)
         (req_encoding request))) (\<lambda>r. case r of
       Rejected stream \<Rightarrow> ok (AdmissionRejected stream) | Ready st \<Rightarrow> after_staging S request st)"
  unfolding publish_or_reject_def after_staging_def publication_target_def by (rule refl)

lemma after_staging_E:
  assumes "after_staging S request st n = (x, n')"
  obtains i reference y where
    "commit_staged S (req_channel request) (target_artifact request st) st
       \<lparr>commit_content_type = req_content_type request, commit_reference = reference,
        commit_durability = req_durability request\<rparr>
       (n\<lparr>stats := metrics_written (staged_len st) (stats n), draws := i\<rparr>) = (y, n')"
    and "x = (case y of Inl e \<Rightarrow> Inl e | Inr publication \<Rightarrow> Inr (AdmissionPublished publication))"
    and "target_reference request st reference"
proof -
  let ?m = "n\<lparr>stats := metrics_written (staged_len st) (stats n)\<rparr>"
  from publication_target_runs [of S request st ?m] obtain reference i
    where t: "publication_target S request st ?m = (Inr (target_artifact request st, reference), ?m\<lparr>draws := i\<rparr>)"
      and r: "target_reference request st reference" by blast
  obtain y n1 where c: "commit_staged S (req_channel request) (target_artifact request st) st
       \<lparr>commit_content_type = req_content_type request, commit_reference = reference,
        commit_durability = req_durability request\<rparr> (?m\<lparr>draws := i\<rparr>) = (y, n1)" by fastforce
  have start: "count (metrics_written (staged_len st)) n = (Inr (), ?m)"
    by (simp add: count_def modify_def)
  from assms c have "n1 = n' \<and> x = (case y of Inl e \<Rightarrow> Inl e | Inr publication \<Rightarrow> Inr (AdmissionPublished publication))"
    unfolding after_staging_def and_then_Inr [of "count (metrics_written (staged_len st))", OF start] and_then_Inr [of "publication_target S request st", OF t]
    by (cases y) (auto simp: and_then_def ok_def)
  with that [OF _ _ r] c show thesis by simp
qed

lemma keeps_publish_or_reject:
  assumes env: "env_ok S" and fit: "chunks_fit (req_stream request)"
  shows "keeps (node_ok S k) (publish_or_reject S request)"
proof (rule keepsI)
  fix n x n' assume n: "node_ok S k n" and run: "publish_or_reject S request n = (x, n')"
  obtain y n1 where st: "stage (ids S) (fsys S) ledger_reserver (artifact_files S) (req_channel request)
      (req_stream request) (max_upload_bytes S) (req_content_length request) (req_durability request)
      (req_encoding request) n = (y, n1)" by fastforce
  note staged = stage_staging [OF env n fit st]
  show "node_ok S k n'"
  proof (cases "\<exists>st. y = Inr (Ready st)")
    case False
    with staged run st show ?thesis
      by (auto simp: publish_or_reject_staged files_call_def map_err_def and_then_def ok_def
          split: sum.splits StageOutcome.splits)
  next
    case True
    then obtain st' where y: "y = Inr (Ready st')" ..
    with run st have "after_staging S request st' n1 = (x, n')"
      by (simp add: publish_or_reject_staged files_call_def map_err_def and_then_def)
    then show ?thesis
      by (rule after_staging_E) (rule commit_staged_keeps [OF env], rule staging_frame, rule staging_frame,
          use staged y in simp_all)
  qed
qed

lemma keeps_publish: "env_ok S \<Longrightarrow> chunks_fit (req_stream request) \<Longrightarrow> keeps (node_ok S k) (service_publish S request)"
  unfolding service_publish_def
  by (intro keeps_and_then keeps_publish_or_reject) (auto intro!: act_keeps split: Admission.split)

end
