(* ===== verification/Maintenance.thy ===== *)
theory Maintenance
  imports Service_Steps
begin

text \<open>
  What a maintenance pass of the cache service may do (\<open>run_maintenance_once\<close> of
  \<open>src/cache/service.rs\<close>), on every outcome: the artifacts it takes away, the order in
  which a body and its record go, and the budget it spends.
\<close>

section \<open>Following the metadata of a node\<close>

abbreviation view :: "('d, 'f) CacheService \<Rightarrow> ('d, 'f) node \<Rightarrow> meta_store" where
  "view S n \<equiv> db_view (ids S) (meta S) (db n)"

abbreviation valid :: "('d, 'f) CacheService \<Rightarrow> ('d, 'f) node \<Rightarrow> bool" where
  "valid S n \<equiv> db_inv (ids S) (meta S) (db n)"

abbreviation body_at :: "('d, 'f) CacheService \<Rightarrow> ('d, 'f) node \<Rightarrow> ChannelId \<Rightarrow> ArtifactId \<Rightarrow> bytes option" where
  "body_at S n ch a \<equiv> files (fsys S) (disk n) (artifact_path (ids S) (artifact_files S) ch a)"

lemma metadata_call_E:
  assumes "metadata_call m n = (x, n')"
  obtains y d where "m (db n) = (y, d)" and "n' = n\<lparr>db := d\<rparr>" and "x = (case y of Inl e \<Rightarrow> Inl (CacheMetadata e) | Inr v \<Rightarrow> Inr v)"
  using assms unfolding metadata_call_def by (elim map_err_E on_db_E) blast

lemma metadata_call_effect:
  assumes "effect (db_inv (ids S) (meta S)) (db_view (ids S) (meta S)) m f post" and "valid S n"
    and "metadata_call m n = (x, n')"
  shows "\<exists>d. n' = n\<lparr>db := d\<rparr> \<and> valid S n' \<and> (case x of
      Inr y \<Rightarrow> view S n' = f (view S n) \<and> post (view S n) y
    | Inl e \<Rightarrow> view S n' = view S n \<or> view S n' = f (view S n))"
  using assms(3)
proof (rule metadata_call_E)
  fix y d assume run: "m (db n) = (y, d)" "n' = n\<lparr>db := d\<rparr>" and x: "x = (case y of Inl e \<Rightarrow> Inl (CacheMetadata e) | Inr v \<Rightarrow> Inr v)"
  with effect_Inr [OF assms(1,2)] effect_Inl [OF assms(1,2)] show ?thesis by (cases y) auto
qed

lemma keeps_view:
  assumes "effect (db_inv (ids S) (meta S)) (db_view (ids S) (meta S)) m f post"
    and "\<And>n. P n \<Longrightarrow> valid S n"
    and "\<And>n d. P n \<Longrightarrow> valid S (n\<lparr>db := d\<rparr>) \<Longrightarrow> view S (n\<lparr>db := d\<rparr>) = view S n \<or> view S (n\<lparr>db := d\<rparr>) = f (view S n)
      \<Longrightarrow> P (n\<lparr>db := d\<rparr>)"
  shows "keeps P (metadata_call m)"
proof (rule keepsI)
  fix n x n' assume n: "P n" and run: "metadata_call m n = (x, n')"
  from metadata_call_effect [OF assms(1) assms(2) [OF n] run] assms(3) [OF n] show "P n'"
    by (cases x) auto
qed

lemma keeps_lookup:
  assumes "effect (db_inv (ids S) (meta S)) (db_view (ids S) (meta S)) m id post"
    and "\<And>n. P n \<Longrightarrow> valid S n"
    and "\<And>n d. P n \<Longrightarrow> valid S (n\<lparr>db := d\<rparr>) \<Longrightarrow> view S (n\<lparr>db := d\<rparr>) = view S n \<Longrightarrow> P (n\<lparr>db := d\<rparr>)"
  shows "keeps P (metadata_call m)"
  by (rule keeps_view [OF assms(1,2)]) (auto intro: assms(3))

lemmas store_effects = rocksdb.commit rocksdb.get_artifact rocksdb.remove rocksdb.bind_ref rocksdb.get_ref
  rocksdb.unbind_ref rocksdb.oldest rocksdb.move rocksdb.drop_row rocksdb.purge effect_channels

section \<open>What a pass keeps\<close>

text \<open>
  The fate of one artifact between two nodes: its record is untouched, or it is recently
  used and only its deadline moved, or it is gone, and then, in \<open>Normal\<close> mode, it was past
  its deadline and not recently used.
\<close>

definition fate ::
  "('d, 'f) CacheService \<Rightarrow> Mode \<Rightarrow> u64 \<Rightarrow> RecentUse \<Rightarrow> ChannelId \<Rightarrow> ArtifactId \<Rightarrow>
    ArtifactMetadata option \<Rightarrow> ArtifactMetadata option \<Rightarrow> bool" where
  "fate S md now use ch a before after \<longleftrightarrow>
     (case before of
        None \<Rightarrow> after = None
      | Some x \<Rightarrow>
          (case after of
             Some y \<Rightarrow> y = x \<or> md = Normal \<and> seen (hash S) ch a use \<and> (\<exists>t. y = x\<lparr>eligible_at := t\<rparr>)
           | None \<Rightarrow> md = Normal \<longrightarrow> eligible_at x \<le> now \<and> \<not> seen (hash S) ch a use))"

definition pass_kept ::
  "('d, 'f) CacheService \<Rightarrow> Mode \<Rightarrow> u64 \<Rightarrow> ('d, 'f) node \<Rightarrow> ('d, 'f) node \<Rightarrow> bool" where
  "pass_kept S md now n0 n \<longleftrightarrow>
     valid S n \<and> recent n = recent n0
   \<and> references (view S n) = references (view S n0) \<and> channels (view S n) = channels (view S n0)
   \<and> (\<forall>ch a. fate S md now (recent n0) ch a (artifacts (view S n0) (ch, a)) (artifacts (view S n) (ch, a)))
   \<and> (\<forall>q. files (fsys S) (disk n) q = files (fsys S) (disk n0) q
        \<or> files (fsys S) (disk n) q = None
          \<and> (\<exists>ch a. q = artifact_path (ids S) (artifact_files S) ch a \<and> artifacts (view S n0) (ch, a) \<noteq> None))
   \<and> (\<forall>ch a. artifacts (view S n) (ch, a) = None \<longrightarrow> body_at S n ch a \<noteq> None \<longrightarrow> artifacts (view S n0) (ch, a) = None)"

lemma fate_refl: "fate S md now use ch a x x"
  by (auto simp: fate_def split: option.split)

lemma pass_kept_refl: "valid S n \<Longrightarrow> pass_kept S md now n n"
  by (auto simp: pass_kept_def fate_refl)

lemma pass_kept_cong:
  "pass_kept S md now n0 n \<Longrightarrow> valid S n' \<Longrightarrow> view S n' = view S n \<Longrightarrow> recent n' = recent n \<Longrightarrow> disk n' = disk n \<Longrightarrow>
    pass_kept S md now n0 n'"
  by (simp add: pass_kept_def)

lemma pass_kept_valid: "pass_kept S md now n0 n \<Longrightarrow> valid S n"
  by (simp add: pass_kept_def)

lemma keeps_pass_lookup:
  "effect (db_inv (ids S) (meta S)) (db_view (ids S) (meta S)) m id post \<Longrightarrow>
    keeps (pass_kept S md now n0) (metadata_call m)"
  by (erule keeps_lookup) (auto intro: pass_kept_valid pass_kept_cong)

text \<open>A recently used candidate moves in the queue and nothing else happens.\<close>

lemma fate_requeue:
  assumes "fate S md now use ch a x (Some y)" and "md = Normal" and "seen (hash S) ch a use"
  shows "fate S md now use ch a x (Some (y\<lparr>eligible_at := t\<rparr>))"
  using assms by (auto simp: fate_def split: option.splits)

lemma keeps_pass_requeue:
  assumes "md = Normal" and "seen (hash S) ch a (recent n0)"
  shows "keeps (pass_kept S md now n0) (metadata_call (requeue (ids S) (meta S) ch a old new))"
proof (rule keeps_view [OF rocksdb.move])
  fix n d
  assume n: "pass_kept S md now n0 n" and v: "valid S (n\<lparr>db := d\<rparr>)"
    and w: "view S (n\<lparr>db := d\<rparr>) = view S n \<or> view S (n\<lparr>db := d\<rparr>) = a_requeue ch a old new (view S n)"
  show "pass_kept S md now n0 (n\<lparr>db := d\<rparr>)"
  proof (cases "view S (n\<lparr>db := d\<rparr>) = view S n")
    case True
    with n v show ?thesis by (auto intro: pass_kept_cong)
  next
    case False
    have "fate S md now (recent n0) ch a (artifacts (view S n0) (ch, a)) (Some (y\<lparr>eligible_at := new\<rparr>))"
      if "artifacts (view S n) (ch, a) = Some y" for y
      using n that by (intro fate_requeue assms) (metis pass_kept_def)
    with False w n v show ?thesis
      by (auto simp: pass_kept_def a_requeue_def split: option.splits if_splits)
  qed
qed (rule pass_kept_valid)

text \<open>
  An eviction: the body goes before the record, so a state in between has a record without
  a body, never a body without a record.
\<close>

definition evictable :: "('d, 'f) CacheService \<Rightarrow> Mode \<Rightarrow> u64 \<Rightarrow> RecentUse \<Rightarrow> ChannelId \<Rightarrow> Candidate \<Rightarrow> bool" where
  "evictable S md now use ch cand \<longleftrightarrow>
     (md = Normal \<longrightarrow> cand_eligible_at cand \<le> now \<and> \<not> seen (hash S) ch (cand_artifact cand) use)"

lemma fate_evict:
  assumes "fate S md now use ch (cand_artifact cand) x (Some y)" and "evictable S md now use ch cand"
    and "eligible_at y = cand_eligible_at cand"
  shows "fate S md now use ch (cand_artifact cand) x None \<and> x \<noteq> None"
  using assms by (auto simp: fate_def evictable_def split: option.splits)

definition about_to_evict where
  "about_to_evict S md now n0 ch cand n \<longleftrightarrow>
     pass_kept S md now n0 n
   \<and> (\<forall>y. artifacts (view S n) (ch, cand_artifact cand) = Some y \<longrightarrow> eligible_at y = cand_eligible_at cand \<longrightarrow>
        body_at S n ch (cand_artifact cand) = None)"

lemma evict_keeps_pass:
  assumes n: "about_to_evict S md now n0 ch cand n" and e: "evictable S md now (recent n0) ch cand"
    and run: "metadata_call (evict (ids S) (meta S) ch (cand_artifact cand) (cand_eligible_at cand)) n = (x, n')"
  shows "pass_kept S md now n0 n'"
proof -
  let ?a = "cand_artifact cand" and ?t = "cand_eligible_at cand"
  have k: "pass_kept S md now n0 n" using n by (simp add: about_to_evict_def)
  from metadata_call_effect [OF rocksdb.drop_row pass_kept_valid [OF k] run] obtain d
    where n': "n' = n\<lparr>db := d\<rparr>" and v: "valid S n'"
      and w: "view S n' = view S n \<or> view S n' = a_evict ch ?a ?t (view S n)"
    by (cases x) auto
  show ?thesis
  proof (cases "view S n' = view S n")
    case True
    with k v n' show ?thesis by (auto intro: pass_kept_cong)
  next
    case False
    with w have w': "view S n' = a_evict ch ?a ?t (view S n)" by simp
    show ?thesis
    proof (cases "a_evicted ch ?a ?t (view S n) = Stale")
      case True
      with w' k v n' show ?thesis by (auto simp: pass_kept_def a_evict_def)
    next
      case gone: False
      then obtain y where y: "artifacts (view S n) (ch, ?a) = Some y" "eligible_at y = ?t"
        by (auto simp: a_evicted_def split: option.splits if_splits)
      have "fate S md now (recent n0) ch ?a (artifacts (view S n0) (ch, ?a)) (artifacts (view S n) (ch, ?a))"
        using k by (simp add: pass_kept_def)
      from fate_evict [OF this [unfolded y(1)] e y(2)]
      have f: "fate S md now (recent n0) ch ?a (artifacts (view S n0) (ch, ?a)) None" by simp
      have "body_at S n ch ?a = None" using n y by (auto simp: about_to_evict_def)
      with w' gone k v n' f show ?thesis by (auto simp: pass_kept_def a_evict_def)
    qed
  qed
qed

lemma remove_body_node:
  assumes "fs_ok (fsys S)" and "files_call (remove_body (ids S) (fsys S) (artifact_files S) ch a) n = (x, n')"
  shows "\<exists>f. n' = n\<lparr>disk := f\<rparr> \<and> (\<forall>q. q \<noteq> artifact_path (ids S) (artifact_files S) ch a \<longrightarrow>
      files (fsys S) f q = files (fsys S) (disk n) q)
    \<and> (body_at S n' ch a = None \<or> body_at S n' ch a = body_at S n ch a) \<and> (\<not> isl x \<longrightarrow> body_at S n' ch a = None)"
proof -
  from assms(2) obtain y where y: "remove_body (ids S) (fsys S) (artifact_files S) ch a n = (y, n')"
    and x: "isl x = isl y" unfolding files_call_def by (elim map_err_E) (auto split: sum.splits)
  from y obtain f where "n' = n\<lparr>disk := f\<rparr>"
    unfolding remove_body_def by (elim ignore_not_found_E)
  with remove_body_effect [OF assms(1) y] x show ?thesis by (cases y) auto
qed

text \<open>The first half of an eviction: the body of a candidate whose record is current is unlinked.\<close>

definition unlink where
  "unlink S ch cand found =
     (case found of
        Some metadata \<Rightarrow>
          if eligible_at metadata = cand_eligible_at cand
          then files_call (remove_body (ids S) (fsys S) (artifact_files S) ch (cand_artifact cand))
          else ok ()
      | None \<Rightarrow> ok ())"

lemma unlink_current:
  assumes env: "env_ok S" and e: "evictable S md now (recent n0) ch cand" and n: "pass_kept S md now n0 n"
    and y: "artifacts (view S n) (ch, cand_artifact cand) = Some y" "eligible_at y = cand_eligible_at cand"
    and run: "files_call (remove_body (ids S) (fsys S) (artifact_files S) ch (cand_artifact cand)) n = (z, n')"
  shows "pass_kept S md now n0 n' \<and> (\<not> isl z \<longrightarrow> body_at S n' ch (cand_artifact cand) = None)"
proof -
  let ?a = "cand_artifact cand"
  have F: "fs_ok (fsys S)" and ids: "hex_ok (ids S)" "ulid_ok (ids S)" using env by (simp_all add: env_ok_def)
  from remove_body_node [OF F run] obtain f where f: "n' = n\<lparr>disk := f\<rparr>"
    "\<And>q. q \<noteq> artifact_path (ids S) (artifact_files S) ch ?a \<Longrightarrow> files (fsys S) f q = files (fsys S) (disk n) q"
    "body_at S n' ch ?a = None \<or> body_at S n' ch ?a = body_at S n ch ?a" "\<not> isl z \<Longrightarrow> body_at S n' ch ?a = None"
    by blast
  have "fate S md now (recent n0) ch ?a (artifacts (view S n0) (ch, ?a)) (Some y)"
    using n y by (metis pass_kept_def)
  from fate_evict [OF this e y(2)] have old: "artifacts (view S n0) (ch, ?a) \<noteq> None" by simp
  have "pass_kept S md now n0 n'"
    unfolding pass_kept_def
  proof (intro conjI allI impI)
    fix q
    show "files (fsys S) (disk n') q = files (fsys S) (disk n0) q \<or> files (fsys S) (disk n') q = None
        \<and> (\<exists>ch a. q = artifact_path (ids S) (artifact_files S) ch a \<and> artifacts (view S n0) (ch, a) \<noteq> None)"
      using n f old by (cases "q = artifact_path (ids S) (artifact_files S) ch ?a") (auto simp: pass_kept_def)
  next
    fix ch' a' assume gone: "artifacts (view S n') (ch', a') = None" "body_at S n' ch' a' \<noteq> None"
    with f y have "\<not> (ch' = ch \<and> a' = ?a)" by auto
    then have "artifact_path (ids S) (artifact_files S) ch' a' \<noteq> artifact_path (ids S) (artifact_files S) ch ?a"
      using artifact_path_inject [OF ids] by blast
    with n f gone show "artifacts (view S n0) (ch', a') = None" by (simp add: pass_kept_def)
  qed (use n f in \<open>auto simp: pass_kept_def\<close>)
  with f(4) show ?thesis by simp
qed

lemma unlink_keeps:
  assumes env: "env_ok S" and e: "evictable S md now (recent n0) ch cand" and n: "pass_kept S md now n0 n"
    and found: "found = artifacts (view S n) (ch, cand_artifact cand)" and run: "unlink S ch cand found n = (z, n')"
  shows "pass_kept S md now n0 n' \<and> (\<not> isl z \<longrightarrow> about_to_evict S md now n0 ch cand n')"
proof (cases "\<exists>y. found = Some y \<and> eligible_at y = cand_eligible_at cand")
  case False
  with run n found show ?thesis
    by (auto simp: unlink_def ok_def about_to_evict_def split: option.splits if_splits)
next
  case True
  then obtain y where y: "found = Some y" "eligible_at y = cand_eligible_at cand" by blast
  with run have "files_call (remove_body (ids S) (fsys S) (artifact_files S) ch (cand_artifact cand)) n = (z, n')"
    by (simp add: unlink_def)
  from unlink_current [OF env e n _ y(2) this] y found show ?thesis by (simp add: about_to_evict_def)
qed

lemma evict_one_keeps:
  assumes env: "env_ok S" and e: "evictable S md now (recent n0) ch cand"
  shows "keeps (pass_kept S md now n0) (evict_one S ch cand b)"
proof (rule keepsI)
  fix n x n' assume n: "pass_kept S md now n0 n" and run: "evict_one S ch cand b n = (x, n')"
  let ?a = "cand_artifact cand" and ?t = "cand_eligible_at cand"
  obtain found n1 where g: "metadata_call (store_artifact (ids S) (meta S) ch ?a) n = (found, n1)" by fastforce
  from metadata_call_effect [OF rocksdb.get_artifact pass_kept_valid [OF n] g]
  have v1: "\<And>y. found = Inr y \<Longrightarrow> y = artifacts (view S n1) (ch, ?a)" by auto
  have n1: "pass_kept S md now n0 n1" by (rule keepsD [OF keeps_pass_lookup [OF rocksdb.get_artifact] n g])
  show "pass_kept S md now n0 n'"
  proof (cases found)
    case (Inl err)
    with run g n1 show ?thesis by (simp add: evict_one_def and_then_def)
  next
    case (Inr found')
    obtain z n2 where r: "unlink S ch cand found' n1 = (z, n2)" by fastforce
    note n2 = unlink_keeps [OF env e n1 v1 [OF Inr] r]
    obtain w n3 where ev: "metadata_call (evict (ids S) (meta S) ch ?a ?t) n2 = (w, n3)" by fastforce
    have "n' = n2 \<and> isl z \<or> n' = n3 \<and> \<not> isl z"
      using run g Inr r ev
      by (cases z; cases w)
        (auto simp: evict_one_def and_then_def unlink_def [symmetric] ok_def split: Evicted.splits)
    with n2 evict_keeps_pass [OF _ e ev] show ?thesis by auto
  qed
qed

section \<open>A whole pass\<close>

definition budget_ok :: "nat \<Rightarrow> Budget \<Rightarrow> bool" where
  "budget_ok limit b \<longleftrightarrow> reclaimed b + remaining_candidates b \<le> limit"

lemma evict_one_budget:
  assumes "evict_one S ch cand b n = (Inr b', n')"
  shows "remaining_candidates b' = remaining_candidates b \<and> reclaimed b' \<le> reclaimed b + 1"
  using assms unfolding evict_one_def
  by (elim and_then_E) (auto simp: ok_def split: Evicted.splits)

lemma reclaim_channel_budget:
  "reclaim_channel S md now ch expiry cands b n = (Inr (stop, b'), n') \<Longrightarrow> budget_ok limit b \<Longrightarrow> budget_ok limit b'"
proof (induction cands arbitrary: b n)
  case Nil
  then show ?case by (simp add: ok_def)
next
  case (Cons cand cands)
  let ?b = "b\<lparr>remaining_candidates := remaining_candidates b - 1\<rparr>"
  show ?case
  proof (cases "exhausted b \<or> md = Normal \<and> \<not> cand_eligible_at cand \<le> now")
    case True
    with Cons.prems show ?thesis by (auto simp: ok_def Let_def split: if_splits)
  next
    case False
    then have pos: "remaining_candidates b > 0" by (simp add: exhausted_def)
    from False Cons.prems(1) consider
        (requeue) n1 where "reclaim_channel S md now ch expiry cands ?b n1 = (Inr (stop, b'), n')"
      | (evict) b'' n1 n2 where "evict_one S ch cand ?b n1 = (Inr b'', n2)"
          "reclaim_channel S md now ch expiry cands b'' n2 = (Inr (stop, b'), n')"
      by (auto simp: Let_def split: if_splits elim!: and_then_E)
    then show ?thesis
    proof cases
      case requeue
      with Cons.IH Cons.prems(2) pos show ?thesis by (auto simp: budget_ok_def)
    next
      case evict
      with evict_one_budget [OF evict(1)] Cons.prems(2) pos have "budget_ok limit b''"
        by (auto simp: budget_ok_def)
      with Cons.IH evict(2) show ?thesis by blast
    qed
  qed
qed

lemma keeps_pass_choice:
  assumes "md = Normal \<and> seen (hash S) ch a (recent n0) \<Longrightarrow> keeps (pass_kept S md now n0) A"
    and "\<not> (md = Normal \<and> seen (hash S) ch a (recent n0)) \<Longrightarrow> keeps (pass_kept S md now n0) B"
  shows "keeps (pass_kept S md now n0) (\<lambda>n. (if md = Normal \<and> seen (hash S) ch a (recent n) then A else B) n)"
proof (rule keepsI)
  fix n x n'
  assume n: "pass_kept S md now n0 n"
    and run: "(if md = Normal \<and> seen (hash S) ch a (recent n) then A else B) n = (x, n')"
  have "recent n = recent n0" using n by (simp add: pass_kept_def)
  with run keepsD [OF assms(1) n] keepsD [OF assms(2) n] show "pass_kept S md now n0 n'"
    by (auto split: if_splits)
qed

lemma keeps_pass_count: "keeps (pass_kept S md now n0) (count f)"
  unfolding count_def by (rule keeps_modify) (auto simp: pass_kept_def)

lemma reclaim_channel_keeps:
  assumes env: "env_ok S"
  shows "keeps (pass_kept S md now n0) (reclaim_channel S md now ch expiry cands b)"
proof (induction cands arbitrary: b)
  case (Cons cand cands)
  show ?case
  proof (cases "exhausted b \<or> md = Normal \<and> \<not> cand_eligible_at cand \<le> now")
    case True
    then show ?thesis by (auto simp: Let_def intro!: keeps_ok)
  next
    case False
    have "keeps (pass_kept S md now n0) (evict_one S ch cand b')"
      if "\<not> (md = Normal \<and> seen (hash S) ch (cand_artifact cand) (recent n0))" for b'
      using False that by (intro evict_one_keeps env) (auto simp: evictable_def)
    moreover from False have go: "\<not> exhausted b" "\<not> (md = Normal \<and> \<not> cand_eligible_at cand \<le> now)" by auto
    ultimately show ?thesis
      unfolding reclaim_channel.simps Let_def if_not_P [OF go(1)] if_not_P [OF go(2)]
      by (intro keeps_pass_choice keeps_and_then keeps_pass_requeue keeps_pass_count Cons.IH) auto
  qed
qed (simp add: keeps_ok)

lemma keeps_pass_expiry: "keeps (pass_kept S md now n0) (service_expiry_seconds S ch)"
  unfolding service_expiry_seconds_def
  by (intro keeps_and_then keeps_pass_lookup [OF effect_channels(3)]) (auto intro!: act_keeps split: option.split)

lemma reclaim_channels_keeps:
  assumes env: "env_ok S"
  shows "keeps (pass_kept S md now n0) (reclaim_channels S md now chs b)"
proof (induction chs arbitrary: b)
  case (Cons ch chs)
  show ?case
    unfolding reclaim_channels.simps
    by (intro keeps_if keeps_ok keeps_and_then keeps_pass_expiry keeps_pass_lookup [OF rocksdb.oldest]
        reclaim_channel_keeps env)
      (auto intro!: keeps_ok Cons.IH split: prod.split)
qed (simp add: keeps_ok)

lemma reclaim_channels_budget:
  "reclaim_channels S md now chs b n = (Inr b', n') \<Longrightarrow> budget_ok limit b \<Longrightarrow> budget_ok limit b'"
proof (induction chs arbitrary: b n)
  case (Cons ch chs)
  show ?case
  proof (cases "exhausted b")
    case True
    with Cons.prems show ?thesis by (simp add: ok_def)
  next
    case False
    with Cons.prems(1) obtain expiry cands stop b'' n1 n2
      where run: "reclaim_channel S md now ch expiry cands b n1 = (Inr (stop, b''), n2)"
        and rest: "(if stop then ok b'' else reclaim_channels S md now chs b'') n2 = (Inr b', n')"
      by (auto elim!: and_then_E)
    from reclaim_channel_budget [OF run Cons.prems(2)] rest Cons.IH show ?thesis
      by (auto simp: ok_def split: if_splits)
  qed
qed (simp add: ok_def)

text \<open>
  The mode and the time of a pass: the mode after the refresh of the ledger, and the clock
  read right after it.
\<close>

definition pass_mode :: "('d, 'f) CacheService \<Rightarrow> ('d, 'f) node \<Rightarrow> Mode" where
  "pass_mode S n = fst (mode (refresh (free_at S (draws n)) (space n)))"

definition pass_now :: "('d, 'f) CacheService \<Rightarrow> ('d, 'f) node \<Rightarrow> u64" where
  "pass_now S n = clock_at S (draws n + 1)"

lemma pass_start:
  "\<exists>n1. db n1 = db n \<and> recent n1 = recent n \<and> disk n1 = disk n
    \<and> and_then (refresh_space S) (\<lambda>_.
       and_then (modify (\<lambda>n. n\<lparr>stats := record_space (snapshot (space n)) (stats n)\<rparr>)) (\<lambda>_.
       and_then space_mode (\<lambda>md. and_then (draw (clock_at S)) (\<lambda>now. K md now)))) n
      = K (pass_mode S n) (pass_now S n) n1"
proof -
  obtain md l where m: "mode (refresh (free_at S (draws n)) (space n)) = (md, l)" by fastforce
  show ?thesis
    by (rule exI [of _ "n\<lparr>stats := record_space (snapshot (refresh (free_at S (draws n)) (space n))) (stats n),
          space := l, draws := draws n + 2\<rparr>"])
      (simp add: refresh_space_def space_mode_def and_then_def draw_def modify_def on_space_def pass_mode_def
        pass_now_def m)
qed

theorem maintenance_kept:
  assumes env: "env_ok S" and n: "valid S n" and run: "run_maintenance_once S limit n = (x, n')"
  shows "pass_kept S (pass_mode S n) (pass_now S n) n n' \<and> (\<forall>k. x = Inr k \<longrightarrow> k \<le> limit)"
proof -
  let ?K = "pass_kept S (pass_mode S n) (pass_now S n) n"
  let ?b = "\<lparr>remaining_candidates = limit, remaining_bytes = reclaim_byte_limit S, reclaimed = 0\<rparr>"
  from run obtain n1 where same: "db n1 = db n" "recent n1 = recent n" "disk n1 = disk n"
    and rest: "and_then (service_channels S) (\<lambda>found. and_then (rotate_channels found) (\<lambda>chs.
       and_then (reclaim_channels S (pass_mode S n) (pass_now S n) chs ?b) (\<lambda>b.
       and_then (count (metrics_reclaimed (of_nat (reclaimed b)))) (\<lambda>_. ok (reclaimed b))))) n1 = (x, n')"
    unfolding run_maintenance_once_def
    using pass_start [of n S "\<lambda>md now. and_then (service_channels S) (\<lambda>found. and_then (rotate_channels found) (\<lambda>chs.
       and_then (reclaim_channels S md now chs ?b) (\<lambda>b.
       and_then (count (metrics_reclaimed (of_nat (reclaimed b)))) (\<lambda>_. ok (reclaimed b)))))"]
    by auto
  have n1: "?K n1" by (rule pass_kept_cong [OF pass_kept_refl [OF n]]) (use same n in auto)
  have "keeps ?K (rotate_channels chs)" for chs
    by (auto simp: rotate_channels_def keeps_ok) (auto simp: keeps_def pass_kept_def)
  moreover have "keeps ?K (service_channels S)"
    unfolding service_channels_def by (intro keeps_and_then keeps_pass_lookup [OF effect_channels(4)] keeps_ok)
  ultimately have "keeps ?K (and_then (service_channels S) (\<lambda>found. and_then (rotate_channels found) (\<lambda>chs.
       and_then (reclaim_channels S (pass_mode S n) (pass_now S n) chs ?b) (\<lambda>b.
       and_then (count (metrics_reclaimed (of_nat (reclaimed b)))) (\<lambda>_. ok (reclaimed b))))))"
    by (intro keeps_and_then reclaim_channels_keeps env keeps_pass_count keeps_ok)
  from keepsD [OF this n1 rest] have "?K n'" .
  moreover have "k \<le> limit" if x: "x = Inr k" for k
  proof -
    from rest x obtain chs b n2 n3 where "reclaim_channels S (pass_mode S n) (pass_now S n) chs ?b n2 = (Inr b, n3)"
      and k: "k = reclaimed b"
      by (auto simp: ok_def count_def modify_def elim!: and_then_E)
    from reclaim_channels_budget [OF this(1), of limit] k show ?thesis by (simp add: budget_ok_def)
  qed
  ultimately show ?thesis by simp
qed

end
