(* ===== verification/Publication.thy ===== *)
theory Publication
  imports Maintenance
begin

text \<open>
  What a publication and a lookup of the cache service do to the node
  (\<open>publish\<close>, \<open>locate\<close> of \<open>src/cache/service.rs\<close>): the record and the body a successful
  publication leaves, and the four ways a lookup ends.
\<close>

section \<open>Publication\<close>

lemma fence_effect:
  assumes "valid S n" and "channel_fence S ch n = (x, n')"
  shows "valid S n' \<and> view S n' = view S n \<and> disk n' = disk n \<and> draws n' = draws n \<and> space n' = space n
    \<and> recent n' = recent n \<and> stats n' = stats n
    \<and> (\<forall>expiry. x = Inr expiry \<longrightarrow>
         (\<exists>record. channels (view S n) ch = Some record \<and> lifecycle record = Active \<and> expiry_seconds record = expiry))"
proof -
  obtain y n1 where r: "metadata_call (store_channel_get (ids S) (meta S) ch) (n\<lparr>gates := insert ch (gates n)\<rparr>) = (y, n1)"
    by fastforce
  from metadata_call_effect [OF effect_channels(3) _ r] assms(1) obtain d
    where "n1 = n\<lparr>gates := insert ch (gates n), db := d\<rparr>" "valid S n1" "view S n1 = view S n"
      "\<And>v. y = Inr v \<Longrightarrow> v = channels (view S n) ch"
    by (cases y) auto
  with assms(2) r show ?thesis
    by (auto simp: channel_fence_def and_then_def modify_def ok_def throw_def split: sum.splits option.splits if_splits)
qed

lemma disk_commit [simp]: "disk (reservation_commit R b res w) = disk w"
  by (simp add: reservation_commit_def Let_def on_space_def)

lemma db_commit [simp]: "db (reservation_commit R b res w) = db w"
  by (simp add: reservation_commit_def Let_def on_space_def)

text \<open>The record, the references and the body after a successful publication.\<close>

definition published ::
  "('d, 'f) CacheService \<Rightarrow> ChannelId \<Rightarrow> ArtifactId \<Rightarrow> StoredEncoding \<Rightarrow> string option \<Rightarrow> bytes \<Rightarrow>
    (string \<times> ReferenceRecord) option \<Rightarrow> ('d, 'f) node \<Rightarrow> ('d, 'f) node \<Rightarrow> bool" where
  "published S ch a enc ct body reference n n' \<longleftrightarrow>
     Sha256_digest (ids S) body = digest a
   \<and> (\<exists>md record. channels (view S n) ch = Some record \<and> lifecycle record = Active
        \<and> view S n' = a_commit ch a md reference (view S n)
        \<and> unat (content_len md) = length body \<and> content_type md = ct \<and> encoding md = enc
        \<and> stored_len md = of_nat (length (encoded (fsys S) enc body))
        \<and> eligible_at md = saturating_add (created_at md) (expiry_seconds record))
   \<and> (if body_at S n ch a = None \<and> \<not> dirs (fsys S) (disk n) (artifact_path (ids S) (artifact_files S) ch a)
      then body_at S n' ch a = Some (encoded (fsys S) enc body)
      else body_at S n ch a \<noteq> None \<longrightarrow> body_at S n' ch a = body_at S n ch a)"

lemma commit_staged_publishes:
  assumes env: "env_ok S" and st: "staging_ok S k body st n"
    and run: "commit_staged S ch a st cm n = (Inr pub, n')"
  shows "published S ch a (staged_encoding st) (commit_content_type cm) body (commit_reference cm) n n'
    \<and> pub_artifact pub = a \<and> (pub_outcome pub = PublicationCreated \<longleftrightarrow> artifacts (view S n) (ch, a) = None)"
  using run
proof (cases rule: commit_staged_E)
  case (committed expiry n1 fp n2 created d b)
  have F: "fs_ok (fsys S)" using env by (simp add: env_ok_def)
  have n: "valid S n" using st by (simp add: staging_ok_def stored_ok_def db_good_def)
  from fence_effect [OF n committed(1)] obtain rec where n1: "valid S n1" "view S n1 = view S n" "disk n1 = disk n"
    and chan: "channels (view S n) ch = Some rec" "lifecycle rec = Active" "expiry_seconds rec = expiry"
    by auto
  have so: "staged_ok (ids S) (fsys S) (artifact_files S) (disk n1) body st" using st n1 by (simp add: staging_ok_def)
  have n2: "db n2 = db n1" using node_more [OF more_publish [OF committed(3)]] by simp
  have "valid S n2" using n1 n2 by simp
  from effect_Inr [OF rocksdb.commit this committed(4)] n1 n2
  have w: "view S n' = a_commit ch a (committed_metadata st cm (clock_at S (draws n2)) expiry) (commit_reference cm) (view S n)"
    and created: "created \<longleftrightarrow> artifacts (view S n) (ch, a) = None"
    by (simp_all add: committed(5))
  have "disk n' = disk n2" by (simp add: committed(5))
  with publish_file_effect [OF F so committed(3)] n1
  have body: "Sha256_digest (ids S) body = digest a"
    "if body_at S n ch a = None \<and> \<not> dirs (fsys S) (disk n) (artifact_path (ids S) (artifact_files S) ch a)
      then body_at S n' ch a = Some (encoded (fsys S) (staged_encoding st) body)
      else body_at S n ch a \<noteq> None \<longrightarrow> body_at S n' ch a = body_at S n ch a"
    by (auto split: FilePublication.splits)
  from w body chan so have "published S ch a (staged_encoding st) (commit_content_type cm) body (commit_reference cm) n n'"
    unfolding published_def
    by (intro conjI exI [of _ "committed_metadata st cm (clock_at S (draws n2)) expiry"] exI [of _ rec])
      (simp_all add: committed_metadata_def staged_ok_def)
  with committed(2) created show ?thesis by auto
qed auto

lemma publish_success_E:
  assumes env: "env_ok S" and n: "node_ok S k n" and fit: "chunks_fit (req_stream request)"
    and run: "publish_or_reject S request n = (Inr (AdmissionPublished pub), n')"
  obtains reference where "published S (req_channel request) (pub_artifact pub) (req_encoding request)
      (req_content_type request) (stream_body (req_stream request)) reference n n'"
    and "pub_outcome pub = PublicationCreated \<longleftrightarrow> artifacts (view S n) (req_channel request, pub_artifact pub) = None"
    and "case req_target request of
        ById a \<Rightarrow> pub_artifact pub = a \<and> reference = None
      | ContentAddressed None \<Rightarrow> reference = None
      | ContentAddressed (Some name) \<Rightarrow> \<exists>record. reference = Some (name, record) \<and> ref_artifact record = pub_artifact pub"
proof -
  obtain y n1 where s: "stage (ids S) (fsys S) ledger_reserver (artifact_files S) (req_channel request)
      (req_stream request) (max_upload_bytes S) (req_content_length request) (req_durability request)
      (req_encoding request) n = (y, n1)" by fastforce
  from run s obtain st where y: "y = Inr (Ready st)" and after: "after_staging S request st n1 = (Inr (AdmissionPublished pub), n')"
    by (auto simp: publish_or_reject_staged files_call_def map_err_def and_then_def ok_def
        split: sum.splits StageOutcome.splits)
  have F: "fs_ok (fsys S)" using env by (simp add: env_ok_def)
  from stage_staging [OF env n fit s] y have st: "staging_ok S k (stream_body (req_stream request)) st n1" by simp
  from stage_ready [OF F fit s [unfolded y]] have enc: "staged_encoding st = req_encoding request" by simp
  have same: "db n1 = db n" using node_more [OF more_stage [OF s]] by simp
  have files: "body_at S n1 ch a = body_at S n ch a" for ch a
    using stage_keeps_bodies [OF F s] artifact_not_temp by (auto simp: others_kept_def)
  have dirs: "dirs (fsys S) (disk n1) (artifact_path (ids S) (artifact_files S) ch a) \<Longrightarrow>
      dirs (fsys S) (disk n) (artifact_path (ids S) (artifact_files S) ch a)" for ch a
    by (rule stage_dirs [OF F s [unfolded y]])
  from after show thesis
  proof (rule after_staging_E)
    fix i reference z
    assume c: "commit_staged S (req_channel request) (target_artifact request st) st
       \<lparr>commit_content_type = req_content_type request, commit_reference = reference,
        commit_durability = req_durability request\<rparr>
       (n1\<lparr>stats := metrics_written (staged_len st) (stats n1), draws := i\<rparr>) = (z, n')"
      and z: "Inr (AdmissionPublished pub) = (case z of Inl e \<Rightarrow> Inl e | Inr publication \<Rightarrow> Inr (AdmissionPublished publication))"
      and t: "target_reference request st reference"
    from z have z': "z = Inr pub" by (simp split: sum.splits)
    from commit_staged_publishes [OF env staging_frame(2) [OF staging_frame(1) [OF st]] c [unfolded z']]
    have p: "published S (req_channel request) (target_artifact request st) (staged_encoding st)
        (req_content_type request) (stream_body (req_stream request)) reference n n'"
      and a: "pub_artifact pub = target_artifact request st"
      and out: "pub_outcome pub = PublicationCreated \<longleftrightarrow> artifacts (view S n) (req_channel request, target_artifact request st) = None"
      using same files dirs [of "req_channel request" "target_artifact request st"] by (auto simp: published_def split: if_splits)
    show thesis
      by (rule that [of reference]) (use p a out t enc in \<open>auto simp: target_artifact_def target_reference_def
          split: PublicationTarget.splits option.splits\<close>)
  qed
qed

section \<open>Lookup\<close>

lemma locate_local_effect:
  assumes env: "env_ok S" and n: "valid S n" and run: "locate_local S ch a n = (x, n')"
  shows "valid S n' \<and> files (fsys S) (disk n') = files (fsys S) (disk n) \<and> recent n' = recent n \<and> stats n' = stats n
    \<and> (case x of
        Inr (Some l) \<Rightarrow> view S n' = view S n \<and> artifacts (view S n) (ch, a) = Some (located_metadata l)
          \<and> body_at S n ch a = Some (located_file l)
      | Inr None \<Rightarrow>
          (if artifacts (view S n) (ch, a) = None then view S n' = view S n
           else body_at S n ch a = None \<and> view S n' = a_remove ch a (view S n))
      | Inl e \<Rightarrow> view S n' = view S n \<or> body_at S n ch a = None \<and> view S n' = a_remove ch a (view S n))"
proof -
  have F: "fs_ok (fsys S)" using env by (simp add: env_ok_def)
  obtain found n1 where g: "metadata_call (store_artifact (ids S) (meta S) ch a) n = (found, n1)" by fastforce
  from metadata_call_effect [OF rocksdb.get_artifact n g] obtain d
    where n1: "n1 = n\<lparr>db := d\<rparr>" "valid S n1" "view S n1 = view S n"
      and found: "\<And>y. found = Inr y \<Longrightarrow> y = artifacts (view S n) (ch, a)"
    by (cases found) auto
  show ?thesis
  proof (cases "\<exists>md. found = Inr (Some md)")
    case False
    with run g n1 found show ?thesis
      by (auto simp: locate_local_def and_then_def ok_def split: sum.splits option.splits)
  next
    case True
    then obtain md where md: "found = Inr (Some md)" by blast
    obtain opened f where op: "open_file (fsys S) (artifact_path (ids S) (artifact_files S) ch a) (disk n) = (opened, f)" by fastforce
    note spec = open_file_spec [OF F op]
    obtain z n2 where rm: "metadata_call (remove_artifact (ids S) (meta S) ch a) (n1\<lparr>disk := f\<rparr>) = (z, n2)" by fastforce
    from metadata_call_effect [OF rocksdb.remove _ rm] n1 obtain d'
      where n2: "n2 = n1\<lparr>disk := f, db := d'\<rparr>" "valid S n2"
        "case z of Inr _ \<Rightarrow> view S n2 = a_remove ch a (view S n) | Inl _ \<Rightarrow> view S n2 = view S n \<or> view S n2 = a_remove ch a (view S n)"
      by (cases z) auto
    from run g md op rm n1 have "(x, n') = (case opened of
        Inr bs \<Rightarrow> (Inr (Some \<lparr>located_file = bs, located_metadata = md\<rparr>), n1\<lparr>disk := f\<rparr>)
      | Inl IoNotFound \<Rightarrow> (case z of Inr _ \<Rightarrow> Inr None | Inl e \<Rightarrow> Inl e, n2)
      | Inl e \<Rightarrow> (Inl (CacheLocal (Io e)), n1\<lparr>disk := f\<rparr>))"
      by (auto simp: locate_local_def and_then_def outcome_def on_disk_def ok_def throw_def
          split: sum.splits IoError.splits prod.splits)
    with spec n1 n2 found [OF md] show ?thesis
      by (cases opened) (auto split: IoError.splits sum.splits)
  qed
qed

end
