(* ===== verification/Lifecycle_Effects.thy ===== *)
theory Lifecycle_Effects
  imports Publication
begin

text \<open>
  Deletion of channels (\<open>src/channel/service.rs\<close>) and startup recovery
  (\<open>reconcile\<close> of \<open>src/cache/service.rs\<close>): what they take away and what they leave, on
  every outcome.
\<close>

section \<open>Deletion\<close>

lemma store_call_E:
  assumes "store_call m n = (x, n')"
  obtains y d where "m (db n) = (y, d)" and "n' = n\<lparr>db := d\<rparr>" and "x = (case y of Inl e \<Rightarrow> Inl (ChannelStore e) | Inr v \<Rightarrow> Inr v)"
  using assms unfolding store_call_def by (elim map_err_E on_db_E) blast

lemma store_call_effect:
  assumes "effect (db_inv (ids S) (meta S)) (db_view (ids S) (meta S)) m f post" and "valid S n"
    and "store_call m n = (x, n')"
  shows "\<exists>d. n' = n\<lparr>db := d\<rparr> \<and> valid S n' \<and> (case x of
      Inr y \<Rightarrow> view S n' = f (view S n) \<and> post (view S n) y
    | Inl e \<Rightarrow> view S n' = view S n \<or> view S n' = f (view S n))"
  using assms(3)
proof (rule store_call_E)
  fix y d assume run: "m (db n) = (y, d)" "n' = n\<lparr>db := d\<rparr>" and x: "x = (case y of Inl e \<Rightarrow> Inl (ChannelStore e) | Inr v \<Rightarrow> Inr v)"
  with effect_Inr [OF assms(1,2)] effect_Inl [OF assms(1,2)] show ?thesis by (cases y) auto
qed

text \<open>Nothing is left of a channel: no record, no artifact, no reference, no file in its directory.\<close>

definition data_gone :: "('d, 'f) CacheService \<Rightarrow> ChannelId \<Rightarrow> ('d, 'f) node \<Rightarrow> bool" where
  "data_gone S ch n \<longleftrightarrow>
     (\<forall>a. artifacts (view S n) (ch, a) = None) \<and> (\<forall>name. references (view S n) (ch, name) = None)
   \<and> (\<forall>rest. files (fsys S) (disk n) (channel_dir (ids S) (artifact_files S) ch @ rest) = None)"

text \<open>All that belongs to channels outside \<open>C\<close> is as it was.\<close>

definition others_same :: "('d, 'f) CacheService \<Rightarrow> ChannelId set \<Rightarrow> ('d, 'f) node \<Rightarrow> ('d, 'f) node \<Rightarrow> bool" where
  "others_same S C n n' \<longleftrightarrow>
     (\<forall>ch. ch \<notin> C \<longrightarrow> channels (view S n') ch = channels (view S n) ch
        \<and> (\<forall>a. artifacts (view S n') (ch, a) = artifacts (view S n) (ch, a))
        \<and> (\<forall>name. references (view S n') (ch, name) = references (view S n) (ch, name))
        \<and> (\<forall>rest. files (fsys S) (disk n') (channel_dir (ids S) (artifact_files S) ch @ rest)
              = files (fsys S) (disk n) (channel_dir (ids S) (artifact_files S) ch @ rest)))"

lemma others_same_trans: "others_same S C n n1 \<Longrightarrow> others_same S C n1 n2 \<Longrightarrow> others_same S C n n2"
  by (simp add: others_same_def)

lemma others_same_mono: "others_same S C n n' \<Longrightarrow> C \<subseteq> D \<Longrightarrow> others_same S D n n'"
  by (auto simp: others_same_def)

text \<open>A step that only takes away.\<close>

definition shrinks :: "('d, 'f) CacheService \<Rightarrow> ('d, 'f) node \<Rightarrow> ('d, 'f) node \<Rightarrow> bool" where
  "shrinks S n n' \<longleftrightarrow>
     (\<forall>k. artifacts (view S n') k = artifacts (view S n) k \<or> artifacts (view S n') k = None)
   \<and> (\<forall>k. references (view S n') k = references (view S n) k \<or> references (view S n') k = None)
   \<and> (\<forall>k. channels (view S n') k = channels (view S n) k \<or> channels (view S n') k = None)
   \<and> (\<forall>q. files (fsys S) (disk n') q = files (fsys S) (disk n) q \<or> files (fsys S) (disk n') q = None)"

lemma shrinks_trans: "shrinks S n n1 \<Longrightarrow> shrinks S n1 n2 \<Longrightarrow> shrinks S n n2"
  unfolding shrinks_def by metis

lemma data_gone_shrinks: "shrinks S n n' \<Longrightarrow> data_gone S ch n \<Longrightarrow> data_gone S ch n'"
  unfolding shrinks_def data_gone_def by metis

lemma channel_dir_inject:
  assumes "ulid_ok c" and "channel_dir c A ch @ xs = channel_dir c A ch' @ ys"
  shows "ch = ch'"
  using assms ulid_str_inject [OF assms(1)]
  by (cases ch; cases ch') (auto simp: channel_dir_def ChannelId_display_def)

lemma remove_channel_effect:
  assumes env: "env_ok S"
    and run: "map_err ChannelLocal (remove_channel (ids S) (fsys S) (artifact_files S) ch) n = (x, n')"
  shows "db n' = db n \<and> others_same S {ch} n n'
    \<and> (\<forall>q. files (fsys S) (disk n') q = files (fsys S) (disk n) q \<or> files (fsys S) (disk n') q = None)
    \<and> (\<not> isl x \<longrightarrow> (\<forall>rest. files (fsys S) (disk n') (channel_dir (ids S) (artifact_files S) ch @ rest) = None))"
proof -
  have F: "fs_ok (fsys S)" and u: "ulid_ok (ids S)" using env by (simp_all add: env_ok_def)
  let ?dir = "channel_dir (ids S) (artifact_files S) ch"
  from run obtain y where y: "remove_channel (ids S) (fsys S) (artifact_files S) ch n = (y, n')" "isl x = isl y"
    by (elim map_err_E) (auto split: sum.splits)
  from y(1) obtain z f where z: "remove_dir_all (fsys S) ?dir (disk n) = (z, f)" and n': "n' = n\<lparr>disk := f\<rparr>"
    and yz: "y = (case z of Inr _ \<Rightarrow> Inr () | Inl IoNotFound \<Rightarrow> Inr () | Inl e \<Rightarrow> Inl (Io e))"
    unfolding remove_channel_def channel_dir_def by (rule ignore_not_found_E)
  note spec = remove_dir_spec [OF F z]
  have "files (fsys S) f (channel_dir (ids S) (artifact_files S) ch' @ rest)
      = files (fsys S) (disk n) (channel_dir (ids S) (artifact_files S) ch' @ rest)" if "ch' \<noteq> ch" for ch' rest
    using spec [of "channel_dir (ids S) (artifact_files S) ch' @ rest"] channel_dir_inject [OF u] that by metis
  moreover have "\<not> isl x \<longrightarrow> z = Inr () \<or> z = Inl IoNotFound"
    using y(2) yz by (auto split: sum.splits IoError.splits)
  ultimately show ?thesis using spec n' by (auto simp: others_same_def)
qed

lemma finish_deletion_effect:
  assumes env: "env_ok S" and n: "valid S n" and run: "finish_deletion S ch n = (x, n')"
  shows "valid S n' \<and> others_same S {ch} n n' \<and> shrinks S n n'
    \<and> (channels (view S n') ch = channels (view S n) ch \<or> channels (view S n') ch = None \<and> data_gone S ch n')
    \<and> (\<not> isl x \<longrightarrow> channels (view S n') ch = None \<and> data_gone S ch n')"
proof -
  obtain x1 n1 where 1: "store_call (delete_channel_data (ids S) (meta S) ch) n = (x1, n1)" by fastforce
  from store_call_effect [OF rocksdb.purge n 1] obtain d1 where n1: "n1 = n\<lparr>db := d1\<rparr>" "valid S n1"
    and v1: "view S n1 = view S n \<or> view S n1 = a_delete_data ch (view S n)"
      "\<not> isl x1 \<Longrightarrow> view S n1 = a_delete_data ch (view S n)" by (cases x1) auto
  obtain x2 n2 where 2: "map_err ChannelLocal (remove_channel (ids S) (fsys S) (artifact_files S) ch) n1 = (x2, n2)" by fastforce
  note n2 = remove_channel_effect [OF env 2]
  obtain x3 n3 where 3: "store_call (finish_channel_deletion (ids S) (meta S) ch) n2 = (x3, n3)" by fastforce
  have "valid S n2" using n1 n2 by simp
  from store_call_effect [OF effect_channels(5) this 3] obtain d3 where n3: "n3 = n2\<lparr>db := d3\<rparr>" "valid S n3"
    and v3: "view S n3 = view S n2 \<or> view S n3 = a_drop_channel ch (view S n2)"
      "\<not> isl x3 \<Longrightarrow> view S n3 = a_drop_channel ch (view S n2)" by (cases x3) auto
  have s1: "others_same S {ch} n n1" using n1 v1 by (auto simp: others_same_def a_delete_data_def)
  have s2: "others_same S {ch} n1 n2" using n2 by simp
  have s3: "others_same S {ch} n2 n3" using n3 v3 by (auto simp: others_same_def a_drop_channel_def)
  have t1: "shrinks S n n1" using n1 v1 by (auto simp: shrinks_def a_delete_data_def split: if_splits)
  have t2: "shrinks S n1 n2" using n2 by (simp add: shrinks_def)
  have t3: "shrinks S n2 n3" using n3 v3 by (auto simp: shrinks_def a_drop_channel_def split: if_splits)
  note t = t1 shrinks_trans [OF t1 t2] shrinks_trans [OF shrinks_trans [OF t1 t2] t3]
  have g2: "data_gone S ch n2" if "\<not> isl x1" "\<not> isl x2"
    using v1(2) [OF that(1)] n2 that(2) by (auto simp: data_gone_def a_delete_data_def)
  have g3: "data_gone S ch n3" if "\<not> isl x1" "\<not> isl x2"
    using g2 [OF that] v3 n3 by (auto simp: data_gone_def a_drop_channel_def)
  have "isl x \<and> n' = n1 \<or> isl x \<and> n' = n2 \<or> \<not> isl x1 \<and> \<not> isl x2 \<and> view S n' = view S n3 \<and> disk n' = disk n3 \<and> db n' = db n3 \<and> isl x = isl x3"
    using run 1 2 3 by (cases x1; cases x2; cases x3) (auto simp: finish_deletion_def and_then_def forget_def modify_def)
  then consider (a) "isl x" "n' = n1" | (b) "isl x" "n' = n2"
    | (c) "\<not> isl x1" "\<not> isl x2" "disk n' = disk n3" "db n' = db n3" "isl x = isl x3" by auto
  then show ?thesis
  proof cases
    case a
    with n1 v1 s1 t(1) show ?thesis by (auto simp: a_delete_data_def)
  next
    case b
    with n1 n2 v1 others_same_trans [OF s1 s2] t(2) show ?thesis by (auto simp: a_delete_data_def)
  next
    case c
    have "channels (view S n3) ch = channels (view S n) ch \<or> channels (view S n3) ch = None"
      using v1 v3 n2 by (auto simp: a_drop_channel_def a_delete_data_def)
    moreover have "\<not> isl x3 \<Longrightarrow> channels (view S n3) ch = None" using v3 by (simp add: a_drop_channel_def)
    moreover have "others_same S {ch} n n3" by (rule others_same_trans [OF others_same_trans [OF s1 s2] s3])
    ultimately show ?thesis using c g3 n3 t(3) by (auto simp: others_same_def data_gone_def shrinks_def)
  qed
qed

lemma authorize_effect:
  assumes "valid S n" and "authorize S ch cred n = (x, n')"
  shows "\<exists>d. n' = n\<lparr>db := d\<rparr> \<and> valid S n' \<and> view S n' = view S n
    \<and> (\<forall>r. x = Inr r \<longrightarrow> channels (view S n) ch = Some r \<and> lifecycle r = Active
         \<and> (\<forall>d. access r = Token d \<longrightarrow> (\<exists>t. cred = Some t \<and> TokenDigest_verify (ids S) d t)))"
proof -
  obtain y n1 where r: "store_call (store_channel_get (ids S) (meta S) ch) n = (y, n1)" by fastforce
  from store_call_effect [OF effect_channels(3) assms(1) r] obtain d where "n1 = n\<lparr>db := d\<rparr>" "valid S n1"
    "view S n1 = view S n" "\<And>v. y = Inr v \<Longrightarrow> v = channels (view S n) ch"
    by (cases y) auto
  with assms(2) r show ?thesis
    by (auto simp: authorize_def authorize_record_def and_then_def lift_result_def ok_def throw_def
        split: sum.splits option.splits if_splits Access.splits)
qed

lemma lease_effect:
  assumes "valid S n" and "authorize_with_lease S ch cred n = (x, n')"
  shows "valid S n' \<and> view S n' = view S n \<and> disk n' = disk n
    \<and> (\<forall>r. x = Inr r \<longrightarrow> channels (view S n) ch = Some r \<and> lifecycle r = Active
         \<and> (\<forall>d. access r = Token d \<longrightarrow> (\<exists>t. cred = Some t \<and> TokenDigest_verify (ids S) d t)))"
proof -
  obtain y n1 where 1: "authorize S ch cred n = (y, n1)" by fastforce
  obtain z n2 where 2: "authorize S ch cred (n1\<lparr>gates := insert ch (gates n1)\<rparr>) = (z, n2)" by fastforce
  from authorize_effect [OF assms(1) 1] have n1: "valid S n1" "view S n1 = view S n" "disk n1 = disk n" by auto
  from authorize_effect [OF _ 2] n1 assms(2) 1 2 show ?thesis
    by (cases y) (auto simp: authorize_with_lease_def and_then_def gate_def modify_def)
qed

lemma channel_stored_under_id:
  assumes "valid S n" and "channels (view S n) ch = Some r"
  shows "channel_id r = ch"
proof -
  have c: "ulid_ok (ids S)" using assms(1) by (simp add: db_inv_def)
  from assms(2) obtain v where v: "contents (meta S) (db n) CHANNELS (ChannelId_as_key (ids S) ch) = Some v"
    and r: "decode_record (channel_from_bytes (meta S)) v = Inr r"
    by (auto simp: db_view_def abs_store_def abs_channels_def decoded_def split: option.splits sum.splits)
  from assms(1) v obtain y where "decode_record (channel_from_bytes (meta S)) v = Inr y"
    "ChannelId_as_key (ids S) ch = ChannelId_as_key (ids S) (channel_id y)"
    unfolding db_inv_def wf_db_def by blast
  with r as_key_inject [OF c] show ?thesis by simp
qed

text \<open>
  The state of a channel whose deletion was requested: untouched, marked as being deleted
  (so that a restart resumes the deletion), or gone with everything it held.
\<close>

definition deletion_state :: "('d, 'f) CacheService \<Rightarrow> ChannelId \<Rightarrow> ('d, 'f) node \<Rightarrow> ('d, 'f) node \<Rightarrow> bool" where
  "deletion_state S ch n n' \<longleftrightarrow>
     view S n' = view S n \<and> disk n' = disk n
   \<or> (\<exists>r. channels (view S n') ch = Some r \<and> lifecycle r = Deleting)
   \<or> channels (view S n') ch = None \<and> data_gone S ch n'"

lemma delete_channel_effect:
  assumes env: "env_ok S" and n: "valid S n" and run: "delete_channel S ch cred n = (x, n')"
  shows "valid S n' \<and> others_same S {ch} n n' \<and> deletion_state S ch n n'
    \<and> (\<not> isl x \<longrightarrow> channels (view S n') ch = None \<and> data_gone S ch n' \<and> ch \<noteq> default_channel
        \<and> (\<exists>r. channels (view S n) ch = Some r \<and> lifecycle r = Active
             \<and> (\<forall>d. access r = Token d \<longrightarrow> (\<exists>t. cred = Some t \<and> TokenDigest_verify (ids S) d t))))"
proof (cases "ch = default_channel")
  case True
  with run n show ?thesis by (auto simp: delete_channel_def throw_def others_same_def deletion_state_def)
next
  case ch: False
  obtain y n1 where 1: "authorize_with_lease S ch cred n = (y, n1)" by fastforce
  note n1 = lease_effect [OF n 1]
  show ?thesis
  proof (cases y)
    case (Inl e)
    with run ch 1 n1 show ?thesis
      by (auto simp: delete_channel_def and_then_def others_same_def deletion_state_def)
  next
    case (Inr lease)
    have id: "channel_id lease = ch" using channel_stored_under_id [OF n] n1 Inr by simp
    let ?r = "lease\<lparr>lifecycle := Deleting\<rparr>"
    obtain z n2 where 2: "store_call (store_channel (ids S) (meta S) ?r) n1 = (z, n2)" by fastforce
    from store_call_effect [OF effect_channels(2) _ 2] n1 obtain d2 where n2: "n2 = n1\<lparr>db := d2\<rparr>" "valid S n2"
      and v2: "view S n2 = view S n \<or> view S n2 = a_put_channel ?r (view S n)"
        "\<not> isl z \<Longrightarrow> view S n2 = a_put_channel ?r (view S n)"
      by (cases z) auto
    have s2: "others_same S {ch} n n2" using n1 n2 v2 id by (auto simp: others_same_def a_put_channel_def)
    have d2: "deletion_state S ch n n2" using n1 n2 v2 id by (auto simp: deletion_state_def a_put_channel_def)
    show ?thesis
    proof (cases z)
      case (Inl e)
      with run ch 1 Inr 2 have "x = Inl e" "n' = n2" by (simp_all add: delete_channel_def and_then_def)
      with n2 s2 d2 show ?thesis by simp
    next
      case z: (Inr u)
      let ?n3 = "n2\<lparr>gates := insert ch (gates n2)\<rparr>"
      from run ch 1 Inr 2 z have fin: "finish_deletion S ch ?n3 = (x, n')"
        by (simp add: delete_channel_def and_then_def gate_def modify_def)
      from finish_deletion_effect [OF env _ fin] n2 have f: "valid S n'" "others_same S {ch} ?n3 n'"
        "channels (view S n') ch = channels (view S n2) ch \<or> channels (view S n') ch = None \<and> data_gone S ch n'"
        "\<not> isl x \<Longrightarrow> channels (view S n') ch = None \<and> data_gone S ch n'" by simp_all
      have "channels (view S n2) ch = Some ?r" using v2(2) z id by (simp add: a_put_channel_def)
      with f have "deletion_state S ch n n'" by (auto simp: deletion_state_def)
      moreover have "others_same S {ch} n n'"
        using s2 f(2) by (intro others_same_trans [OF s2]) (simp add: others_same_def)
      ultimately show ?thesis using f ch n1 Inr by auto
    qed
  qed
qed

lemma finish_all_effect:
  assumes env: "env_ok S" and n: "valid S n" and run: "finish_all S records n = (x, n')"
  shows "valid S n' \<and> others_same S (channel_id ` set records) n n' \<and> shrinks S n n'
    \<and> (\<forall>ch. channels (view S n') ch = channels (view S n) ch \<or> channels (view S n') ch = None \<and> data_gone S ch n')
    \<and> (\<not> isl x \<longrightarrow> (\<forall>r \<in> set records. channels (view S n') (channel_id r) = None \<and> data_gone S (channel_id r) n'))"
  using n run
proof (induction records arbitrary: n)
  case Nil
  then show ?case by (simp add: ok_def others_same_def shrinks_def)
next
  case (Cons r records)
  let ?n = "n\<lparr>gates := insert (channel_id r) (gates n)\<rparr>" and ?ch = "channel_id r"
  obtain y n1 where 1: "finish_deletion S ?ch ?n = (y, n1)" by fastforce
  have "valid S ?n" using Cons.prems by simp
  note f = finish_deletion_effect [OF env this 1]
  have same: "others_same S {?ch} n n1" and shr: "shrinks S n n1" using f by (simp_all add: others_same_def shrinks_def)
  have keep: "channels (view S n1) ch = channels (view S n) ch \<or> channels (view S n1) ch = None \<and> data_gone S ch n1" for ch
    using f same by (cases "ch = ?ch") (auto simp: others_same_def)
  show ?case
  proof (cases y)
    case (Inl e)
    with Cons.prems 1 have "x = Inl e" "n' = n1" by (simp_all add: and_then_def gate_def modify_def)
    with f keep others_same_mono [OF same] shr show ?thesis by simp
  next
    case (Inr u)
    with Cons.prems 1 have rest: "finish_all S records n1 = (x, n')" by (simp add: and_then_def gate_def modify_def)
    have "valid S n1" using f by simp
    note ih = Cons.IH [OF this rest]
    then have shr': "shrinks S n1 n'" by simp
    have still: "channels (view S n') ch = None \<and> data_gone S ch n'"
      if "data_gone S ch n1" "channels (view S n1) ch = None" for ch
      using data_gone_shrinks [OF shr' that(1)] that(2) shr' by (metis shrinks_def)
    have "others_same S (channel_id ` set (r # records)) n n'"
      by (rule others_same_trans [OF others_same_mono [OF same] others_same_mono])
        (use ih in auto)
    moreover have "channels (view S n') ch = channels (view S n) ch \<or> channels (view S n') ch = None \<and> data_gone S ch n'" for ch
      using keep [of ch] still [of ch] ih by metis
    moreover have "\<not> isl y" using Inr by simp
    then have "channels (view S n') ?ch = None \<and> data_gone S ?ch n'" using still f by blast
    ultimately show ?thesis using ih shrinks_trans [OF shr shr'] by auto
  qed
qed

lemma resume_effect:
  assumes env: "env_ok S" and n: "valid S n" and run: "resume_deletions S n = (x, n')"
  shows "valid S n'
    \<and> (\<forall>ch r. channels (view S n) ch = Some r \<longrightarrow> lifecycle r = Active \<longrightarrow> others_same S (- {ch}) n n')
    \<and> (\<not> isl x \<longrightarrow> (\<forall>ch r. channels (view S n') ch = Some r \<longrightarrow> lifecycle r = Active)
        \<and> (\<forall>ch r. channels (view S n) ch = Some r \<longrightarrow> lifecycle r = Deleting \<longrightarrow>
             channels (view S n') ch = None \<and> data_gone S ch n'))"
proof -
  obtain y n1 where 1: "store_call (store_channels (meta S)) n = (y, n1)" by fastforce
  from store_call_effect [OF effect_channels(4) n 1] obtain d where n1: "n1 = n\<lparr>db := d\<rparr>" "valid S n1" "view S n1 = view S n"
    and all: "\<And>records. y = Inr records \<Longrightarrow> all_channels (view S n) records"
    by (cases y) auto
  show ?thesis
  proof (cases y)
    case (Inl e)
    with run 1 n1 show ?thesis by (auto simp: resume_deletions_def and_then_def others_same_def)
  next
    case (Inr records)
    let ?ds = "filter (\<lambda>r. lifecycle r = Deleting) records"
    from Inr run 1 have fin: "finish_all S ?ds n1 = (x, n')" by (simp add: resume_deletions_def and_then_def)
    note f = finish_all_effect [OF env n1(2) fin]
    have ids: "channels (view S n) ch = Some r \<Longrightarrow> r \<in> set records \<and> channel_id r = ch" for ch r
      using all [OF Inr] by (auto simp: all_channels_def dest: map_of_SomeD)
    have listed: "r \<in> set records \<Longrightarrow> channels (view S n) (channel_id r) = Some r" for r
      using all [OF Inr] by (auto simp: all_channels_def intro!: map_of_is_SomeI simp: comp_def)
    have "others_same S (- {ch}) n n'" if "channels (view S n) ch = Some r" "lifecycle r = Active" for ch r
    proof -
      have "ch \<notin> channel_id ` set ?ds" using listed that by force
      with f n1 show ?thesis by (auto simp: others_same_def)
    qed
    moreover have "lifecycle r = Active" if "\<not> isl x" "channels (view S n') ch = Some r" for ch r
    proof (rule ccontr)
      assume "lifecycle r \<noteq> Active"
      then have del: "lifecycle r = Deleting" by (cases "lifecycle r") auto
      have "channels (view S n) ch = Some r" using f that(2) n1 by (metis option.distinct(1))
      with ids have "r \<in> set ?ds" "channel_id r = ch" using del by auto
      with f that show False by auto
    qed
    moreover have "channels (view S n') ch = None \<and> data_gone S ch n'"
      if "\<not> isl x" "channels (view S n) ch = Some r" "lifecycle r = Deleting" for ch r
      using f that ids [OF that(2)] by auto
    ultimately show ?thesis using f by blast
  qed
qed

section \<open>Recovery\<close>

definition fewer_bodies :: "('d, 'f) CacheService \<Rightarrow> ('d, 'f) node \<Rightarrow> ('d, 'f) node \<Rightarrow> bool" where
  "fewer_bodies S n n' \<longleftrightarrow> (\<forall>ch a. body_at S n' ch a = body_at S n ch a \<or> body_at S n' ch a = None)"

lemma fewer_bodies_refl: "disk n' = disk n \<Longrightarrow> fewer_bodies S n n'"
  by (simp add: fewer_bodies_def)

lemma fewer_bodies_trans: "fewer_bodies S n n1 \<Longrightarrow> fewer_bodies S n1 n2 \<Longrightarrow> fewer_bodies S n n2"
  unfolding fewer_bodies_def by metis

lemma fewer_bodies_None: "fewer_bodies S n n' \<Longrightarrow> body_at S n ch a = None \<Longrightarrow> body_at S n' ch a = None"
  unfolding fewer_bodies_def by metis

text \<open>Recovery changes no record and takes no body that has one.\<close>

definition recovery_kept :: "('d, 'f) CacheService \<Rightarrow> ('d, 'f) node \<Rightarrow> ('d, 'f) node \<Rightarrow> bool" where
  "recovery_kept S n0 n \<longleftrightarrow>
     valid S n \<and> view S n = view S n0
   \<and> (\<forall>ch a. artifacts (view S n0) (ch, a) \<noteq> None \<longrightarrow> body_at S n ch a = body_at S n0 ch a)
   \<and> fewer_bodies S n0 n"

lemma recovery_kept_refl: "valid S n \<Longrightarrow> recovery_kept S n n"
  by (simp add: recovery_kept_def fewer_bodies_refl)

lemma recovery_kept_cong:
  "recovery_kept S n0 n \<Longrightarrow> valid S n' \<Longrightarrow> view S n' = view S n \<Longrightarrow> (\<And>ch a. body_at S n' ch a = body_at S n ch a) \<Longrightarrow>
    recovery_kept S n0 n'"
  by (simp add: recovery_kept_def fewer_bodies_def)

lemma keeps_recovery_lookup:
  "keeps (recovery_kept S n0) (metadata_call (store_artifact (ids S) (meta S) ch a))"
  by (rule keeps_lookup [OF rocksdb.get_artifact]) (simp add: recovery_kept_def, erule recovery_kept_cong, simp_all)

lemma keeps_recovery_disk:
  assumes "frame (fsys S) P m" and "\<And>ch a. artifact_path (ids S) (artifact_files S) ch a \<notin> P"
  shows "keeps (recovery_kept S n0) (on_disk m)"
proof (rule keepsI)
  fix n x n' assume n: "recovery_kept S n0 n" and run: "on_disk m n = (x, n')"
  from run obtain f where "m (disk n) = (x, f)" "n' = n\<lparr>disk := f\<rparr>" by (rule on_disk_E)
  with n frameD [OF assms(1) _ assms(2)] show "recovery_kept S n0 n'"
    by (intro recovery_kept_cong [OF n]) (auto simp: recovery_kept_def)
qed

lemma walkable_recovery: "fs_ok (fsys S) \<Longrightarrow> walkable (recovery_kept S n0) (fsys S)"
  unfolding walkable_def
  by (intro allI conjI keeps_recovery_disk [OF frames(14)] keeps_recovery_disk [OF frames(15)]) simp_all

lemma temporary_entry_not_artifact: "(root A @ [name, ''tmp'']) @ [x] \<noteq> artifact_path c A ch a"
proof
  assume "(root A @ [name, ''tmp'']) @ [x] = artifact_path c A ch a"
  then have "length ((root A @ [name, ''tmp'']) @ [x]) = length (root A) + 5" by (simp add: length_artifact_path)
  then show False by simp
qed

lemma keeps_recovery_temporary:
  assumes "fs_ok (fsys S)"
  shows "keeps (recovery_kept S n0) (remove_temporary_files (fsys S) (artifact_files S))"
proof (rule keeps_temporary [OF walkable_recovery [OF assms]])
  fix ch name
  show "keeps (recovery_kept S n0) (io (remove_file (fsys S) ((root (artifact_files S) @ [ch, ''tmp'']) @ [name])))"
    unfolding io_def
    by (intro keeps_map_err keeps_recovery_disk [OF frames(10) [OF assms]])
      (metis singletonD temporary_entry_not_artifact)
qed

lemma recovery_lookup:
  assumes n: "recovery_kept S n0 n" and run: "metadata_call (store_artifact (ids S) (meta S) ch a) n = (y, n')"
  shows "recovery_kept S n0 n' \<and> fewer_bodies S n n' \<and> (\<forall>v. y = Inr v \<longrightarrow> v = artifacts (view S n0) (ch, a))"
proof -
  have v: "valid S n" "view S n = view S n0" using n by (simp_all add: recovery_kept_def)
  from metadata_call_effect [OF rocksdb.get_artifact v(1) run] obtain d where d: "n' = n\<lparr>db := d\<rparr>" "valid S n'"
    "view S n' = view S n" "\<forall>v. y = Inr v \<longrightarrow> v = artifacts (view S n) (ch, a)" by (cases y) auto
  moreover have "recovery_kept S n0 n'" by (rule recovery_kept_cong [OF n]) (use d in simp_all)
  moreover have "fewer_bodies S n n'" by (rule fewer_bodies_refl) (use d in simp)
  ultimately show ?thesis using v by simp
qed

lemma recovery_removes_orphan:
  assumes env: "env_ok S" and n: "recovery_kept S n0 n" and orphan: "artifacts (view S n0) (ch, a) = None"
    and run: "files_call (remove_body (ids S) (fsys S) (artifact_files S) ch a) n = (z, n')"
  shows "recovery_kept S n0 n' \<and> fewer_bodies S n n' \<and> (\<not> isl z \<longrightarrow> body_at S n' ch a = None)"
proof -
  have F: "fs_ok (fsys S)" and c: "hex_ok (ids S)" "ulid_ok (ids S)" using env by (simp_all add: env_ok_def)
  from remove_body_node [OF F run] obtain f where f: "n' = n\<lparr>disk := f\<rparr>"
    "\<And>q. q \<noteq> artifact_path (ids S) (artifact_files S) ch a \<Longrightarrow> files (fsys S) f q = files (fsys S) (disk n) q"
    "body_at S n' ch a = None \<or> body_at S n' ch a = body_at S n ch a" "\<not> isl z \<Longrightarrow> body_at S n' ch a = None"
    by blast
  have other: "body_at S n' ch' a' = body_at S n ch' a'" if "\<not> (ch' = ch \<and> a' = a)" for ch' a'
  proof -
    have "artifact_path (ids S) (artifact_files S) ch' a' \<noteq> artifact_path (ids S) (artifact_files S) ch a"
      using artifact_path_inject [OF c] that by blast
    from f(2) [OF this] f(1) show ?thesis by simp
  qed
  have less: "fewer_bodies S n n'" unfolding fewer_bodies_def using other f(3) by metis
  have same: "view S n' = view S n" "valid S n' = valid S n" using f(1) by simp_all
  have "body_at S n' ch' a' = body_at S n ch' a'" if "artifacts (view S n0) (ch', a') \<noteq> None" for ch' a'
    using other orphan that by metis
  with n less same fewer_bodies_trans have "recovery_kept S n0 n'"
    unfolding recovery_kept_def by metis
  with less f(4) show ?thesis by simp
qed

lemma reconcile_each_cases:
  assumes run: "reconcile_each S ((ch, a) # found) n = (x, n')" and n: "recovery_kept S n0 n"
  obtains (stopped) "isl x" "recovery_kept S n0 n'" "fewer_bodies S n n'"
    | (kept) n1 where "reconcile_each S found n1 = (x, n')" "recovery_kept S n0 n1" "fewer_bodies S n n1"
        "artifacts (view S n0) (ch, a) \<noteq> None"
    | (orphan) n2 z n3 where "files_call (remove_body (ids S) (fsys S) (artifact_files S) ch a) n2 = (z, n3)"
        "recovery_kept S n0 n2" "fewer_bodies S n n2" "artifacts (view S n0) (ch, a) = None"
        "isl z \<and> isl x \<and> n' = n3 \<or> \<not> isl z \<and> reconcile_each S found n3 = (x, n')"
proof -
  obtain y n1 where 1: "metadata_call (store_artifact (ids S) (meta S) ch a) n = (y, n1)" by fastforce
  note n1 = recovery_lookup [OF n 1]
  obtain y' n2 where 2: "metadata_call (store_artifact (ids S) (meta S) ch a) n1 = (y', n2)" by fastforce
  note n2 = recovery_lookup [OF conjunct1 [OF n1] 2]
  have f2: "fewer_bodies S n n2" using n1 n2 fewer_bodies_trans by blast
  obtain z n3 where 3: "files_call (remove_body (ids S) (fsys S) (artifact_files S) ch a) n2 = (z, n3)" by fastforce
  show thesis
  proof (cases y)
    case (Inl e)
    with run 1 have "isl x" "n' = n1" by (auto simp: and_then_def)
    with n1 stopped show thesis by simp
  next
    case y: (Inr v)
    show thesis
    proof (cases v)
      case (Some md)
      with run 1 y have "reconcile_each S found n1 = (x, n')" by (simp add: and_then_def)
      moreover have "artifacts (view S n0) (ch, a) \<noteq> None" using n1 y Some by (metis option.distinct(1))
      ultimately show thesis using kept n1 by blast
    next
      case None
      with n1 y have none: "artifacts (view S n0) (ch, a) = None" by simp
      show thesis
      proof (cases y')
        case (Inl e)
        with run 1 2 y None have "isl x" "n' = n2" by (auto simp: and_then_def)
        with n2 f2 stopped show thesis by simp
      next
        case (Inr v')
        with n2 none have "v' = None" by simp
        with run 1 2 3 y None Inr have "isl z \<and> isl x \<and> n' = n3 \<or> \<not> isl z \<and> reconcile_each S found n3 = (x, n')"
          by (cases z) (auto simp: and_then_def)
        with orphan [OF 3 conjunct1 [OF n2] f2 none] show thesis .
      qed
    qed
  qed
qed

lemma reconcile_each_effect:
  assumes env: "env_ok S" and n: "recovery_kept S n0 n" and run: "reconcile_each S found n = (x, n')"
  shows "recovery_kept S n0 n' \<and> fewer_bodies S n n'
    \<and> (\<not> isl x \<longrightarrow> (\<forall>e \<in> set found. artifacts (view S n0) e = None \<longrightarrow> body_at S n' (fst e) (snd e) = None))"
  using n run
proof (induction found arbitrary: n)
  case Nil
  then show ?case by (simp add: ok_def fewer_bodies_refl)
next
  case (Cons e found)
  obtain ch a where e: "e = (ch, a)" by fastforce
  from Cons.prems(2) [unfolded e] Cons.prems(1) show ?case
  proof (cases rule: reconcile_each_cases)
    case stopped
    then show ?thesis by simp
  next
    case (kept n1)
    from Cons.IH [OF kept(2,1)] kept e fewer_bodies_trans [OF kept(3)] show ?thesis by auto
  next
    case (orphan n2 z n3)
    note r = recovery_removes_orphan [OF env orphan(2,4,1)]
    then have n3: "recovery_kept S n0 n3" and f3: "fewer_bodies S n n3"
      using fewer_bodies_trans [OF orphan(3)] by blast+
    from orphan(5) show ?thesis
    proof
      assume "isl z \<and> isl x \<and> n' = n3"
      with n3 f3 show ?thesis by simp
    next
      assume rest: "\<not> isl z \<and> reconcile_each S found n3 = (x, n')"
      with Cons.IH [OF n3] have ih: "recovery_kept S n0 n'" "fewer_bodies S n3 n'"
        "\<not> isl x \<longrightarrow> (\<forall>e \<in> set found. artifacts (view S n0) e = None \<longrightarrow> body_at S n' (fst e) (snd e) = None)" by auto
      have "body_at S n' ch a = None" using fewer_bodies_None [OF ih(2)] r rest by blast
      with ih e fewer_bodies_trans [OF f3 ih(2)] show ?thesis by simp
    qed
  qed
qed

lemma reconcile_effect:
  assumes env: "env_ok S" and n: "valid S n" and run: "reconcile S n = (x, n')"
  shows "recovery_kept S n n' \<and> (\<not> isl x \<longrightarrow> (\<exists>found n1 n2.
      remove_temporary_files (fsys S) (artifact_files S) n = (Inr (), n1)
    \<and> orphan_scan (ids S) (fsys S) (artifact_files S) (orphan_scan_limit S) n1 = (Inr found, n2)
    \<and> (\<forall>e \<in> set found. artifacts (view S n) e = None \<longrightarrow> body_at S n' (fst e) (snd e) = None)))"
proof -
  have F: "fs_ok (fsys S)" using env by (simp add: env_ok_def)
  obtain y n1 where 1: "remove_temporary_files (fsys S) (artifact_files S) n = (y, n1)" by fastforce
  obtain z n2 where 2: "orphan_scan (ids S) (fsys S) (artifact_files S) (orphan_scan_limit S) n1 = (z, n2)" by fastforce
  have n1: "recovery_kept S n n1"
    by (rule keepsD [OF keeps_recovery_temporary [OF F] recovery_kept_refl [OF n] 1])
  have n2: "recovery_kept S n n2" by (rule keepsD [OF keeps_orphan_scan [OF walkable_recovery [OF F]] n1 2])
  consider (a) "isl x" "n' = n1" | (b) "isl x" "n' = n2" | (c) found where "y = Inr ()" "z = Inr found" "reconcile_each S found n2 = (x, n')"
    using run 1 2 by (cases y; cases z) (auto simp: reconcile_def and_then_def files_call_def map_err_def)
  then show ?thesis
  proof cases
    case c
    from reconcile_each_effect [OF env n2 c(3)] 1 2 c(1,2) show ?thesis by metis
  qed (use n1 n2 in simp_all)
qed

end
