(* ===== verification/Local_Properties.thy ===== *)
theory Local_Properties
  imports Reference_Disk
begin

text \<open>
  Properties of the local artifact store, over the code's own ledger: the client lemmas
  of the locale \<open>reserver\<close> reach it through the interpretation \<open>ledger\<close>.
\<close>

lemmas ledger_view_simps = ledger_held_def ledger_spent_def

definition demo_chunks :: "(string + bytes) list" where
  "demo_chunks = [Inr [1, 2, 3], Inr [4, 5]]"

definition demo_stage where
  "demo_stage durability enc w =
     stage demo_crates demo_fs ledger_reserver demo_root default_channel demo_chunks 100 None durability enc w"

definition demo_body_id :: ArtifactId where
  "demo_body_id = ArtifactId (Sha256_digest demo_crates [1, 2, 3, 4, 5])"

lemma demo_world_lawful: "ledger_lawful (space demo_world)"
  by (simp add: demo_world_def ledger_lawful_new)

lemma demo_chunks_fit: "chunks_fit demo_chunks"
  by (simp add: chunks_fit_def demo_chunks_def)

text \<open>What evaluating the concrete store unfolds.\<close>

lemmas local_eval = stage_def reserve_def Reservation_new_def stage_reserved_def and_then_def on_world_def io_def
  on_disk_def map_err_def mark_def modify_def fresh_ulid_def StageWriter_new_def writer_write_all_def
  writer_finish_def stored_length_def cover_stored_def sync_body_def reserve_until.simps ok_def throw_def
  checked_add_def ledger_reserver_def ledger_try_reserve_def available_locked_def saturating_add_def
  saturating_sub_def SpaceLedger_new_def refresh_def d_acc_def d_put_def d_accept_def d_drop_def Let_def

lemma demo_extent: "reservation_extent demo_root = 4096"
  by (simp add: demo_root_def)

definition demo_tmp :: "nat \<Rightarrow> Path" where
  "demo_tmp n = temporary_path demo_crates demo_root default_channel (of_nat n)"

definition demo_final :: Path where
  "demo_final = artifact_path demo_crates demo_root default_channel demo_body_id"

definition demo_staged :: StagedArtifact where
  "demo_staged =
     \<lparr>staged_path = demo_tmp 0, staged_digest = Sha256_digest demo_crates [1, 2, 3, 4, 5], staged_len = 5,
      staged_stored_len = 5, staged_encoding = Identity,
      staged_reservation = \<lparr>outstanding = 4096, reservation_state = Temporary (demo_tmp 0)\<rparr>\<rparr>"

definition demo_staged_world :: "Durability \<Rightarrow> (demo_disk, SpaceLedger) local_world" where
  "demo_staged_world durability =
     \<lparr>disk = \<lparr>d_files = [(demo_tmp 0, [1, 2, 3, 4, 5]), (demo_tmp 0, [])],
              d_dirs = [channel_dir demo_crates demo_root default_channel @ [''tmp'']],
              d_accepted = [(demo_tmp 0, [1, 2, 3, 4, 5]), (demo_tmp 0, [1, 2, 3]), (demo_tmp 0, [])],
              d_data = (if durability = Durable then [demo_tmp 0] else []), d_entries = [], d_next = 1\<rparr>,
      space = (space demo_world)\<lparr>state := (state (space demo_world))\<lparr>reserved := 4096\<rparr>\<rparr>\<rparr>"

lemma demo_stage_run:
  "demo_stage durability Identity demo_world = (Inr (Ready demo_staged), demo_staged_world durability)"
  by (simp add: demo_stage_def demo_world_def demo_chunks_def demo_staged_def demo_staged_world_def demo_tmp_def
      demo_extent local_eval)

section \<open>Capacity\<close>

text \<open>
  The three ways a reservation ends leave the ledger's reserved bytes at \<open>base\<close>: an explicit
  discard, a drop on cancellation with any fate of the cleanup task, and a commit.
\<close>

definition returns_to :: "'f fs \<Rightarrow> nat \<Rightarrow> Reservation \<Rightarrow> ('f, SpaceLedger, 'm) local_world_scheme \<Rightarrow> bool" where
  "returns_to F base res w \<longleftrightarrow>
     ledger_held (space w) = base + unat (outstanding res)
   \<and> ledger_held (space (discard F ledger_reserver res w)) = base
   \<and> (\<forall>fate. ledger_held (space (reservation_drop F ledger_reserver fate res w)) = base)
   \<and> (\<forall>b. ledger_held (space (reservation_commit ledger_reserver b res w)) = base)"

lemma covers_returns: "ledger.covers base (res, w) \<Longrightarrow> returns_to F base res w"
  using ledger.discard_settles [of base res w F] ledger.drop_settles [of base res w F] ledger.commit_settles [of base res w]
  by (simp add: returns_to_def ledger.covers_def)

text \<open>
  C6. Staging and publishing a body conserve capacity. When staging is rejected or fails, on
  whatever path, the ledger's reserved bytes are back to what they were. When it succeeds
  they have grown by exactly what the staged artifact's reservation records as outstanding,
  which covers the bytes on disk, and however that reservation ends they return to what they
  were before. When the staged body is then published under any identity, a failure, on
  whatever path, has given the reservation back; a success hands on a reservation that
  accounts for all that is still reserved, and however that one ends the reserved bytes
  return to what they were before the staging.
\<close>

theorem staging_conserves_capacity:
  assumes "ledger_lawful (space w)"
    and "stage c F ledger_reserver A ch stream max_bytes content_length durability enc w = (x, w')"
  shows "case x of
      Inr (Ready st) \<Rightarrow>
        staged_stored_len st \<le> outstanding (staged_reservation st)
        \<and> returns_to F (ledger_held (space w)) (staged_reservation st) w'
        \<and> (\<forall>ch' a durability' y w''. publish_file c F ledger_reserver A ch' a st durability' w' = (y, w'') \<longrightarrow>
             (case y of
                Inl e \<Rightarrow> ledger_held (space w'') = ledger_held (space w)
              | Inr (Created res) \<Rightarrow> returns_to F (ledger_held (space w)) res w''
              | Inr (Existing res) \<Rightarrow> returns_to F (ledger_held (space w)) res w''))
    | _ \<Rightarrow> ledger_held (space w') = ledger_held (space w)"
proof -
  note cov = ledger.stage_covers [OF assms]
  show ?thesis
  proof (cases "\<exists>st. x = Inr (Ready st)")
    case True
    then obtain st where x: "x = Inr (Ready st)" by blast
    with cov have c: "ledger.covers (ledger_held (space w)) (staged_reservation st, w')" by simp
    have "case y of
          Inl e \<Rightarrow> ledger_held (space w'') = ledger_held (space w)
        | Inr (Created res) \<Rightarrow> returns_to F (ledger_held (space w)) res w''
        | Inr (Existing res) \<Rightarrow> returns_to F (ledger_held (space w)) res w''"
      if "publish_file c F ledger_reserver A ch' a st durability' w' = (y, w'')" for ch' a durability' y w''
      using ledger.publish_covers [OF c that] by (auto intro: covers_returns split: sum.splits FilePublication.splits)
    with x ledger.stage_enough [OF assms(1) assms(2) [unfolded x]] covers_returns [OF c] show ?thesis by simp
  qed (use cov in \<open>auto split: sum.splits StageOutcome.splits\<close>)
qed

theorem staging_conserves_capacity_witness:
  "ledger_held (space (demo_staged_world Durable)) = ledger_held (space demo_world) + 4096
    \<and> ledger_held (space (reservation_drop demo_fs ledger_reserver CancelledBefore
        (staged_reservation demo_staged) (demo_staged_world Durable))) = ledger_held (space demo_world)
    \<and> ledger_held (space (snd (publish_file demo_crates demo_fs ledger_reserver demo_root default_channel
        (ArtifactId (array32 [])) demo_staged Durable (demo_staged_world Durable)))) = ledger_held (space demo_world)"
proof -
  let ?run = "publish_file demo_crates demo_fs ledger_reserver demo_root default_channel
        (ArtifactId (array32 [])) demo_staged Durable (demo_staged_world Durable)"
  have "replicate 32 (0 :: u8) = replicate 31 0 @ [0]" by (simp add: replicate_append_same flip: replicate_Suc)
  then have "bytes_of32 (Sha256_digest demo_crates [1, 2, 3, 4, 5]) \<noteq> bytes_of32 (array32 [])"
    by (simp add: Sha256_digest_def bytes_of_array32 demo_crates_def demo_fold_def)
  then have "Sha256_digest demo_crates [1, 2, 3, 4, 5] \<noteq> array32 []" by metis
  then have "\<exists>e. fst ?run = Inl e"
    by (simp add: demo_staged_def demo_staged_world_def publish_file_def publish_reserved_def throw_def)
  then obtain e where e: "?run = (Inl e, snd ?run)" by (metis prod.collapse)
  note law = staging_conserves_capacity [OF demo_world_lawful demo_stage_run [unfolded demo_stage_def, of Durable]]
  from law have run: "\<And>ch' a durability' y w''. publish_file demo_crates demo_fs ledger_reserver demo_root ch' a demo_staged durability'
      (demo_staged_world Durable) = (Inl y, w'') \<Longrightarrow> ledger_held (space w'') = ledger_held (space demo_world)"
    by (fastforce split: sum.splits)
  from law have "returns_to demo_fs (ledger_held (space demo_world)) (staged_reservation demo_staged) (demo_staged_world Durable)"
    by simp
  with run [OF e] show ?thesis by (simp add: returns_to_def demo_staged_def)
qed

text \<open>
  Capacity is never handed out again while a temporary file still occupies it: when a
  reservation with outstanding bytes and a temporary file is discarded, or dropped with
  any fate of the cleanup task, and the bytes are not counted as used since the last
  observation, then the file is gone.
\<close>

theorem capacity_released_only_when_file_gone:
  fixes res :: Reservation
  assumes "fs_ok F" and "ledger_lawful (space w)"
    and "unat (outstanding res) \<le> ledger_held (space w)" and "outstanding res > 0"
    and "reservation_state res = Temporary p"
    and "w' = discard F ledger_reserver res w \<or> w' = reservation_drop F ledger_reserver fate res w"
  shows "ledger_spent (space w') = ledger_spent (space w) \<longrightarrow> files F (disk w') p = None"
proof -
  have c: "ledger.covers (ledger_held (space w) - unat (outstanding res)) (res, w)"
    using assms(2,3) by (simp add: ledger.covers_def)
  from assms(6) show ?thesis
  proof
    assume "w' = discard F ledger_reserver res w"
    then show ?thesis using ledger.discard_releases_only_gone [OF assms(1) c assms(4,5)] by simp
  next
    assume "w' = reservation_drop F ledger_reserver fate res w"
    then show ?thesis using ledger.drop_releases_only_gone [OF assms(1) c assms(4,5)] by simp
  qed
qed

theorem capacity_released_only_when_file_gone_witness:
  "files demo_fs (disk (discard demo_fs ledger_reserver (staged_reservation demo_staged)
     (demo_staged_world Durable))) (demo_tmp 0) = None"
proof -
  let ?w = "demo_staged_world Durable" and ?res = "staged_reservation demo_staged"
  have "ledger_lawful (space ?w)" "unat (outstanding ?res) \<le> ledger_held (space ?w)" "outstanding ?res > 0"
    "reservation_state ?res = Temporary (demo_tmp 0)"
    by (simp_all add: demo_staged_world_def demo_staged_def demo_world_def SpaceLedger_new_def refresh_def
        ledger_view)
  moreover have "ledger_spent (space (discard demo_fs ledger_reserver ?res ?w)) = ledger_spent (space ?w)"
    by (simp add: discard_def demo_staged_def demo_staged_world_def on_disk_def settle_removal_def
        settlement_release_def on_space_def ledger_reserver_def ledger_release_def ledger_spent_def Let_def)
  ultimately show ?thesis
    using capacity_released_only_when_file_gone [OF demo_fs_ok, of ?w ?res "demo_tmp 0"] by blast
qed

section \<open>Contents\<close>

text \<open>
  A body that was staged and then published under an artifact identity is that
  artifact: every item of the stream arrived, the digest of the concatenated chunks is the
  identity, the length is within the limit, and the file now at the artifact's path is the
  encoding of exactly those bytes (the zstd frame decodes to them). If the path was
  already taken, it is left as it was. In every outcome of the publication, each file at
  the path of any artifact still holds a body with that artifact's digest.
\<close>

theorem staged_and_published_body:
  assumes "fs_ok F" and "hex_ok c" and "ulid_ok c" and "chunks_fit stream"
    and "bodies_ok c F A (disk w)"
    and "stage c F R A ch stream max_bytes content_length durability enc w = (Inr (Ready st), w1)"
    and "publish_file c F R A ch' a st durability' w1 = (x, w2)"
  shows "bodies_ok c F A (disk w2)
    \<and> (\<forall>res. x = Inr (Created res) \<longrightarrow>
         (\<forall>item \<in> set stream. \<not> isl item) \<and> Sha256_digest c (stream_body stream) = digest a
         \<and> (stream \<noteq> [] \<longrightarrow> length (stream_body stream) \<le> unat max_bytes)
         \<and> files F (disk w2) (artifact_path c A ch' a) = Some (encoded F enc (stream_body stream))
         \<and> zstd_decode F (encoded F Zstd (stream_body stream)) = Some (stream_body stream))
    \<and> (\<forall>res. x = Inr (Existing res) \<longrightarrow>
         files F (disk w2) (artifact_path c A ch' a) = files F (disk w) (artifact_path c A ch' a))"
proof -
  note ready = stage_ready [OF assms(1,4,6)]
  then have st: "staged_ok c F A (disk w1) (stream_body stream) st" by simp
  have kept: "others_kept c F A (files F (disk w)) (disk w1)"
    by (rule stage_keeps_bodies [OF assms(1,6)])
  from publish_keeps_bodies [OF assms(1,2,3) st assms(7) bodies_others [OF kept assms(5)]]
  have "bodies_ok c F A (disk w2)" .
  moreover have "zstd_decode F (encoded F Zstd (stream_body stream)) = Some (stream_body stream)"
    using fs_okD(1) [OF assms(1)] by (simp add: writers_ok_def encoded_def)
  moreover have "unat (staged_len st) = length (stream_body stream)" using st by (simp add: staged_ok_def)
  moreover have "files F (disk w1) (artifact_path c A ch' a) = files F (disk w) (artifact_path c A ch' a)"
    using kept artifact_not_temp by (simp add: others_kept_def)
  ultimately show ?thesis
    using publish_file_effect [OF assms(1) st assms(7)] ready
    by (auto simp: word_le_nat_alt)
qed

lemmas publish_eval = publish_file_def publish_reserved_def and_then_def outcome_def on_world_def io_def on_disk_def
  map_err_def mark_def modify_def sync_parent_def ok_def throw_def d_put_def d_drop_def Let_def

lemma demo_tmp_not_final [simp]: "demo_tmp n \<noteq> demo_final" "demo_final \<noteq> demo_tmp n"
  using temporary_not_artifact by (auto simp: demo_tmp_def demo_final_def) metis

lemma demo_final_not_dir: "demo_final \<noteq> channel_dir demo_crates demo_root default_channel @ [''tmp'']"
  "demo_final \<noteq> butlast demo_final"
proof -
  have len: "length demo_final = 6" by (simp add: demo_final_def length_artifact_path demo_root_def)
  have "length (channel_dir demo_crates demo_root default_channel @ [''tmp'']) = 3"
    by (simp add: channel_dir_def demo_root_def)
  with len show "demo_final \<noteq> channel_dir demo_crates demo_root default_channel @ [''tmp'']" by force
  show "demo_final \<noteq> butlast demo_final"
    using len by (metis One_nat_def diff_less length_butlast less_irrefl zero_less_numeral zero_less_one)
qed

definition demo_published_world :: "Durability \<Rightarrow> Durability \<Rightarrow> (demo_disk, SpaceLedger) local_world" where
  "demo_published_world d1 d2 =
     snd (publish_file demo_crates demo_fs ledger_reserver demo_root default_channel demo_body_id demo_staged d2
       (demo_staged_world d1))"

lemma demo_body_digest: "digest demo_body_id = Sha256_digest demo_crates [1, 2, 3, 4, 5]"
  by (simp add: demo_body_id_def)

lemma demo_publish_run:
  "publish_file demo_crates demo_fs ledger_reserver demo_root default_channel demo_body_id demo_staged d2
     (demo_staged_world d1)
   = (Inr (Created \<lparr>outstanding = 4096, reservation_state = Published\<rparr>), demo_published_world d1 d2)"
  using demo_final_not_dir
  by (simp add: demo_published_world_def publish_eval demo_final_def [symmetric] demo_staged_def demo_body_digest
      demo_staged_world_def)

theorem staged_and_published_body_witness:
  "files demo_fs (disk (demo_published_world Durable Durable)) demo_final = Some [1, 2, 3, 4, 5]"
proof -
  have "bodies_ok demo_crates demo_fs demo_root (disk demo_world)"
    by (simp add: bodies_ok_def demo_world_def)
  from staged_and_published_body [OF demo_fs_ok demo_hex_ok demo_ulid_ok demo_chunks_fit this
      demo_stage_run [unfolded demo_stage_def] demo_publish_run]
  show ?thesis
    by (simp add: demo_final_def encoded_def stream_body_def demo_chunks_def)
qed

lemma stage_durable_synced:
  assumes "sync_ok F"
    and run: "stage c F R A ch stream max_bytes content_length Durable enc w = (Inr (Ready st), w1)"
  shows "staged_path st \<in> data_synced F (disk w1)"
proof -
  from run obtain res w0 d len stored res' where
    sr: "stage_reserved c F R A ch stream max_bytes Durable enc (res, w0)
      = (Inr (staged_path st, d, len, stored), res', w1)"
    by (auto simp: stage_def Let_def split: prod.splits bool.splits sum.splits)
  then obtain f fl f' res7 w7 where "writer_finish F (StageWriter_new (staged_path st) enc) f = (Inr fl, f')"
    and "sync_body F Durable fl (res7, w7) = (Inr (), res', w1)"
    by (rule stage_reserved_E)
  then show ?thesis
    using assms(1) by (auto simp: sync_body_def sync_ok_def dest!: finish_path elim!: on_world_E io_Inr_E)
qed

lemma publish_durable_synced:
  assumes sync: "sync_ok F" and staged: "staged \<in> data_synced F (disk w)"
    and run: "publish_reserved c F A ch a staged d Durable (res, w) = (Inr True, res', w')"
  shows "artifact_path c A ch a \<in> data_synced F (disk w') \<and> artifact_path c A ch a \<in> entry_synced F (disk w')"
proof -
  let ?final = "artifact_path c A ch a"
  have ne: "?final = butlast ?final @ [last ?final]"
    using length_artifact_path [of c A ch a] by (metis append_butlast_last_id add_is_0 list.size(3) zero_neq_numeral)
  from run obtain f1 b f2 f3 f4 where
    "create_dir_all F (butlast ?final) (disk w) = (Inr (), f1)" and "try_exists F ?final f1 = (Inr b, f2)"
    and "rename F staged ?final f2 = (Inr (), f3)" and "sync_directory F (butlast ?final) f3 = (Inr (), f4)"
    and "disk w' = f4"
    by (auto simp: publish_reserved_def Let_def throw_def ok_def mark_def modify_def sync_parent_def outcome_def
        elim!: and_then_E on_world_E io_Inr_E on_disk_E split: if_splits sum.splits IoError.splits prod.splits)
  with sync staged ne show ?thesis unfolding sync_ok_def by (metis subsetD)
qed

text \<open>
  The durable contract: a body staged durably and installed by a durable publication
  has been flushed, and so has the directory entry that names it.
\<close>

theorem durable_publication_is_flushed:
  assumes "sync_ok F"
    and "stage c F R A ch stream max_bytes content_length Durable enc w = (Inr (Ready st), w1)"
    and "publish_file c F R A ch a st Durable w1 = (Inr (Created res), w2)"
  shows "artifact_path c A ch a \<in> data_synced F (disk w2) \<and> artifact_path c A ch a \<in> entry_synced F (disk w2)"
proof -
  from assms(3) obtain res' where
    "publish_reserved c F A ch a (staged_path st) (staged_digest st) Durable (staged_reservation st, w1)
      = (Inr True, res', w2)"
    by (auto simp: publish_file_def split: prod.splits sum.splits if_splits)
  then show ?thesis
    by (rule publish_durable_synced [OF assms(1) stage_durable_synced [OF assms(1,2)]])
qed

theorem durable_publication_is_flushed_witness:
  "demo_final \<in> data_synced demo_fs (disk (demo_published_world Durable Durable))"
  using durable_publication_is_flushed [OF demo_sync_ok demo_stage_run [unfolded demo_stage_def]
      demo_publish_run]
  by (simp add: demo_final_def)

lemma demo_best_effort_world:
  "demo_published_world BestEffort BestEffort =
     \<lparr>disk = \<lparr>d_files = [(demo_final, [1, 2, 3, 4, 5])],
              d_dirs = [butlast demo_final, channel_dir demo_crates demo_root default_channel @ [''tmp'']],
              d_accepted = [(demo_tmp 0, [1, 2, 3, 4, 5]), (demo_tmp 0, [1, 2, 3]), (demo_tmp 0, [])],
              d_data = [], d_entries = [], d_next = 1\<rparr>,
      space = (space demo_world)\<lparr>state := (state (space demo_world))\<lparr>reserved := 4096\<rparr>\<rparr>\<rparr>"
  using demo_final_not_dir
  by (simp add: demo_published_world_def publish_eval demo_final_def [symmetric] demo_staged_def demo_body_digest
      demo_staged_world_def)

text \<open>
  The durable contract does not extend to a body that is already there. When the same
  content was first published best-effort, a later durable staging and publication of it
  succeeds as \<open>Existing\<close> while neither the body at the artifact's path nor its directory
  entry has ever been flushed, although the raw-artifact and CAS routes promise crash
  durability.
\<close>

theorem durable_republication_not_flushed:
  "\<exists>st w1 res w2.
     stage demo_crates demo_fs ledger_reserver demo_root default_channel demo_chunks 100 None Durable Identity
       (demo_published_world BestEffort BestEffort) = (Inr (Ready st), w1)
   \<and> publish_file demo_crates demo_fs ledger_reserver demo_root default_channel demo_body_id st Durable w1
       = (Inr (Existing res), w2)
   \<and> files demo_fs (disk w2) demo_final \<noteq> None
   \<and> demo_final \<notin> data_synced demo_fs (disk w2) \<and> demo_final \<notin> entry_synced demo_fs (disk w2)"
  using demo_final_not_dir
  by (simp add: demo_best_effort_world local_eval demo_extent demo_chunks_def
      demo_tmp_def [symmetric, of 1, simplified] demo_world_def publish_eval demo_final_def [symmetric]
      demo_body_digest)

end
