(* ===== verification/Service_Properties.thy ===== *)
theory Service_Properties
  imports Lifecycle_Effects Local_Properties
begin

text \<open>
  Properties of the two services of a node: what holds after any sequence of operations,
  and what a publication, a lookup, a maintenance pass, a recovery, a registration and a
  deletion do. The concrete node the witnesses use combines the reference store, disk and
  crates.
\<close>

section \<open>All operations\<close>

text \<open>Any operation of the cache or the channel service, on any arguments, with any outcome, or a restart.\<close>

inductive node_step :: "('d, 'f) CacheService \<Rightarrow> ('d, 'f) node \<Rightarrow> ('d, 'f) node \<Rightarrow> bool" for S where
  publish_or_reject: "chunks_fit (req_stream request) \<Longrightarrow> publish_or_reject S request n = (x, n') \<Longrightarrow> node_step S n n'"
| publish: "chunks_fit (req_stream request) \<Longrightarrow> service_publish S request n = (y, n') \<Longrightarrow> node_step S n n'"
| locate: "locate S ch a n = (l, n') \<Longrightarrow> node_step S n n'"
| bind: "bind_reference_with_validators S ch name a tag modified dur n = (u, n') \<Longrightarrow> node_step S n n'"
| resolve: "resolve_reference S ch name n = (r, n') \<Longrightarrow> node_step S n n'"
| delete_ref: "delete_reference S ch name n = (u, n') \<Longrightarrow> node_step S n n'"
| reconcile: "reconcile S n = (u, n') \<Longrightarrow> node_step S n n'"
| ready: "ready S n = (u, n') \<Longrightarrow> node_step S n n'"
| maintenance: "run_maintenance_once S limit n = (k, n') \<Longrightarrow> node_step S n n'"
| reclaiming: "is_reclaiming n = (b, n') \<Longrightarrow> node_step S n n'"
| rotate: "rotate_recency n = (u, n') \<Longrightarrow> node_step S n n'"
| ensure_default: "ensure_default S expiry n = (v, n') \<Longrightarrow> node_step S n n'"
| register: "register S protected expiry n = (i, n') \<Longrightarrow> node_step S n n'"
| authorize: "authorize S ch cred n = (c, n') \<Longrightarrow> node_step S n n'"
| lease: "authorize_with_lease S ch cred n = (c, n') \<Longrightarrow> node_step S n n'"
| update_expiry: "update_expiry S record expiry n = (c, n') \<Longrightarrow> node_step S n n'"
| delete_channel: "delete_channel S ch cred n = (v, n') \<Longrightarrow> node_step S n n'"
| resume: "resume_deletions S n = (v, n') \<Longrightarrow> node_step S n n'"
| restart: "0 < bits \<Longrightarrow> bits < 2 ^ 63 \<Longrightarrow> node_step S n (n\<lparr>space := SpaceLedger_new observed pol, recent := RecentUse_new bits,
    maintenance_cursor := 0, gates := {}, stats := zero\<rparr>)"

lemma new_ledger: "ledger_held (SpaceLedger_new observed pol) = 0"
  by (simp add: ledger_view_simps SpaceLedger_new_def refresh_def split: option.split)

lemma restart_ok:
  "0 < bits \<Longrightarrow> bits < 2 ^ 63 \<Longrightarrow> node_ok S 0 n \<Longrightarrow> node_ok S 0 (n\<lparr>space := SpaceLedger_new observed pol, recent := RecentUse_new bits,
    maintenance_cursor := 0, gates := {}, stats := zero\<rparr>)"
  by (simp add: node_ok_def stored_ok_def ledger_lawful_new recent_ok_new new_ledger)

lemma keeps_reclaiming: "keeps (node_ok S k) is_reclaiming"
  unfolding is_reclaiming_def by (intro keeps_and_then keeps_mode keeps_ok)

lemma keeps_rotate: "keeps (node_ok S k) rotate_recency"
  unfolding rotate_recency_def by (intro keeps_recent recent_ok_rotate)

lemma node_step_ok:
  assumes env: "env_ok S" and "node_step S n n'" and n: "node_ok S 0 n"
  shows "node_ok S 0 n'"
  using assms(2)
proof cases
  case publish_or_reject
  show ?thesis by (rule keepsD [OF keeps_publish_or_reject [OF env publish_or_reject(1)] n publish_or_reject(2)])
next
  case publish
  show ?thesis by (rule keepsD [OF keeps_publish [OF env publish(1)] n publish(2)])
next
  case locate
  show ?thesis by (rule keepsD [OF keeps_locate [OF env] n locate])
next
  case bind
  show ?thesis by (rule keepsD [OF keeps_bind n bind])
next
  case resolve
  show ?thesis by (rule keepsD [OF keeps_resolve n resolve])
next
  case delete_ref
  show ?thesis by (rule keepsD [OF keeps_delete_ref n delete_ref])
next
  case reconcile
  show ?thesis by (rule keepsD [OF keeps_reconcile [OF env] n reconcile])
next
  case ready
  show ?thesis by (rule keepsD [OF keeps_ready [OF env] n ready])
next
  case maintenance
  show ?thesis by (rule keepsD [OF keeps_maintenance [OF env] n maintenance])
next
  case reclaiming
  show ?thesis by (rule keepsD [OF keeps_reclaiming n reclaiming])
next
  case rotate
  show ?thesis by (rule keepsD [OF keeps_rotate n rotate])
next
  case ensure_default
  show ?thesis by (rule keepsD [OF keeps_default n ensure_default])
next
  case register
  show ?thesis by (rule keepsD [OF keeps_register n register])
next
  case authorize
  show ?thesis by (rule keepsD [OF keeps_authorize n authorize])
next
  case lease
  show ?thesis by (rule keepsD [OF keeps_lease n lease])
next
  case update_expiry
  show ?thesis by (rule keepsD [OF keeps_update_expiry n update_expiry])
next
  case delete_channel
  show ?thesis by (rule keepsD [OF keeps_delete_channel [OF env] n delete_channel])
next
  case resume
  show ?thesis by (rule keepsD [OF keeps_resume [OF env] n resume])
next
  case restart
  with n show ?thesis by (simp add: restart_ok)
qed

lemma node_steps_ok: "env_ok S \<Longrightarrow> (node_step S)\<^sup>*\<^sup>* n n' \<Longrightarrow> node_ok S 0 n \<Longrightarrow> node_ok S 0 n'"
  by (rotate_tac, induction rule: rtranclp_induct) (auto intro: node_step_ok)

text \<open>A node as it starts for the first time.\<close>

definition fresh_node :: "('d, 'f) CacheService \<Rightarrow> ('d, 'f) node \<Rightarrow> bool" where
  "fresh_node S n \<longleftrightarrow>
     contents (meta S) (db n) = (\<lambda>_ _. None) \<and> (\<forall>ch a. body_at S n ch a = None)
   \<and> (\<exists>observed pol. space n = SpaceLedger_new observed pol) \<and> (\<exists>bits > 0. bits < 2 ^ 63 \<and> recent n = RecentUse_new bits)"

lemma fresh_node_ok: "env_ok S \<Longrightarrow> fresh_node S n \<Longrightarrow> node_ok S 0 n"
  by (auto simp: fresh_node_def node_ok_def stored_ok_def env_ok_def ledger_lawful_new recent_ok_new bodies_ok_def
      new_ledger intro!: empty_db_good)

section \<open>The concrete node\<close>

definition demo_service :: "(demo_db, demo_disk) CacheService" where
  "demo_service =
     \<lparr>ids = demo_crates, meta = demo_rocks, fsys = demo_fs, hash = (\<lambda>_ _. 7), clock_at = (\<lambda>i. 200 + of_nat i),
      free_at = (\<lambda>_. Some 1000000), ulid_at = (\<lambda>i. of_nat (5 + i)), token_at = (\<lambda>_. ''secret''),
      artifact_files = demo_root, max_upload_bytes = 100, reclaim_byte_limit = 4096, orphan_scan_limit = 10\<rparr>"

lemma demo_service_select [simp]:
  "ids demo_service = demo_crates" "meta demo_service = demo_rocks" "fsys demo_service = demo_fs"
  "hash demo_service = (\<lambda>_ _. 7)" "clock_at demo_service = (\<lambda>i. 200 + of_nat i)"
  "free_at demo_service = (\<lambda>_. Some 1000000)" "ulid_at demo_service = (\<lambda>i. of_nat (5 + i))"
  "token_at demo_service = (\<lambda>_. ''secret'')" "artifact_files demo_service = demo_root"
  "max_upload_bytes demo_service = 100" "reclaim_byte_limit demo_service = 4096"
  "orphan_scan_limit demo_service = 10"
  by (simp_all add: demo_service_def)

lemma demo_env: "env_ok demo_service"
  by (simp add: env_ok_def demo_fs_ok demo_hex_ok demo_ulid_ok demo_rocks_ok)

definition demo_metrics :: Metrics where
  "demo_metrics = \<lparr>requests = 0, hits = 0, misses = 0, bytes_read = 0, bytes_written = 0, authorization_denials = 0,
     maintenance_reclaimed = 0, maintenance_requeued = 0, build_cache_bypasses = 0, raw_pressure_errors = 0,
     foreground_in_flight = 0, foreground_rejections = 0, free_observed_bytes = 0, reserved_bytes = 0,
     committed_since_bytes = 0\<rparr>"

definition demo_node :: "demo_db \<Rightarrow> (demo_db, demo_disk) node" where
  "demo_node d =
     \<lparr>disk = \<lparr>d_files = [], d_dirs = [], d_accepted = [], d_data = [], d_entries = [], d_next = 0\<rparr>,
      space = SpaceLedger_new (Some 1000000)
        \<lparr>low_watermark = 2000, high_watermark = 3000, emergency_headroom = 1000\<rparr>,
      db = d, recent = RecentUse_new 64, maintenance_cursor = 0, draws = 0, gates = {}, stats = demo_metrics\<rparr>"

lemma demo_node_ok: "db_good demo_crates demo_rocks d \<Longrightarrow> node_ok demo_service 0 (demo_node d)"
  by (simp add: node_ok_def stored_ok_def demo_node_def ledger_lawful_new bodies_ok_def recent_ok_new new_ledger)

lemma demo_node_valid: "db_good demo_crates demo_rocks d \<Longrightarrow> valid demo_service (demo_node d)"
  by (simp add: demo_node_def db_good_def)

lemma demo_db_good: "db_good demo_crates demo_rocks []"
  by (rule empty_db_good [OF demo_ulid_ok demo_rocks_ok demo_empty])

lemma demo_fresh: "fresh_node demo_service (demo_node [])"
  unfolding fresh_node_def
  by (intro conjI exI [of _ "64 :: nat"]) (auto simp: demo_node_def demo_empty)

text \<open>The database once the default channel has been ensured.\<close>

definition demo_ready :: demo_db where
  "demo_ready = db (snd (ensure_default demo_service 60 (demo_node [])))"

lemma demo_ready_good: "db_good demo_crates demo_rocks demo_ready"
proof -
  have "node_ok demo_service 0 (snd (ensure_default demo_service 60 (demo_node [])))"
    using keeps_default [of demo_service 0 60] demo_node_ok [OF demo_db_good] by (simp add: keeps_def)
  then show ?thesis by (simp add: demo_ready_def node_ok_def stored_ok_def)
qed

lemma locate_hit_E:
  assumes "locate S ch a n = (Inr (Some l), n')"
  obtains n1 where "locate_local S ch a n = (Inr (Some l), n1)"
    and "n' = n1\<lparr>recent := mark_recent (hash S) ch a (recent n1), stats := metrics_hit (content_len (located_metadata l)) (stats n1)\<rparr>"
  using assms unfolding locate_def
  by (elim and_then_E) (auto simp: and_then_def modify_def count_def ok_def split: option.splits)

section \<open>Publication and lookup\<close>

lemma lookup_of_recorded:
  assumes "env_ok S" and "valid S n" and "artifacts (view S n) (ch, a) = Some md" and "body_at S n ch a = Some bs"
    and "locate S ch a n = (x, n')"
  shows "(\<exists>e. x = Inl e) \<or> x = Inr (Some \<lparr>located_file = bs, located_metadata = md\<rparr>)"
proof -
  obtain y n1 where l: "locate_local S ch a n = (y, n1)" by fastforce
  from locate_local_effect [OF assms(1,2) l] assms(3-5) l show ?thesis
    by (cases y) (auto simp: locate_def and_then_def modify_def count_def ok_def split: option.splits if_splits)
qed

text \<open>
  C2. A publication that succeeds has recorded what it was given: the artifact is the one
  named in the request, or the digest of the body, and in both cases its digest is the
  digest of the streamed body; the channel was active; the record is the one committed
  now, with the body's length, type, encoding and a deadline one channel expiry after its
  creation, unless the artifact was already recorded, in which case nothing but the
  reference changes; and a requested reference resolves to the artifact. Unless a directory
  was in its way, the artifact's path then holds the encoding of the body, or the file that
  was there before, which is kept; and a lookup of the artifact that follows returns exactly
  the record and that file, or fails with an error of the store or the disk. It never misses.
\<close>

theorem publication_recorded:
  assumes "env_ok S" and "node_ok S k n" and "chunks_fit (req_stream request)"
    and "service_publish S request n = (Inr pub, n')"
  shows "\<exists>reference md. published S (req_channel request) (pub_artifact pub) (req_encoding request)
        (req_content_type request) (stream_body (req_stream request)) reference n n'
    \<and> (pub_outcome pub = PublicationCreated \<longleftrightarrow> artifacts (view S n) (req_channel request, pub_artifact pub) = None)
    \<and> (case req_target request of
        ById a \<Rightarrow> pub_artifact pub = a \<and> reference = None
      | ContentAddressed None \<Rightarrow> reference = None
      | ContentAddressed (Some name) \<Rightarrow>
          (\<exists>record. reference = Some (name, record) \<and> ref_artifact record = pub_artifact pub
             \<and> references (view S n') (req_channel request, name) = Some record))
    \<and> artifacts (view S n') (req_channel request, pub_artifact pub) = Some md
    \<and> (\<not> dirs (fsys S) (disk n) (artifact_path (ids S) (artifact_files S) (req_channel request) (pub_artifact pub)) \<longrightarrow>
        (\<forall>x n''. locate S (req_channel request) (pub_artifact pub) n' = (x, n'') \<longrightarrow>
          (\<exists>e. x = Inl e)
          \<or> x = Inr (Some \<lparr>located_file = (case body_at S n (req_channel request) (pub_artifact pub) of
                 None \<Rightarrow> encoded (fsys S) (req_encoding request) (stream_body (req_stream request))
               | Some kept \<Rightarrow> kept), located_metadata = md\<rparr>)))"
proof -
  let ?ch = "req_channel request" and ?a = "pub_artifact pub"
  from assms(4) have run: "publish_or_reject S request n = (Inr (AdmissionPublished pub), n')"
    by (auto simp: service_publish_def and_then_def ok_def throw_def split: prod.splits sum.splits Admission.splits)
  have "node_ok S k n'" by (rule keepsD [OF keeps_publish [OF assms(1,3)] assms(2,4)])
  then have v: "valid S n'" by (simp add: node_ok_def stored_ok_def db_good_def)
  show ?thesis
  proof (rule publish_success_E [OF assms(1-3) run])
    fix reference
    assume p: "published S ?ch ?a (req_encoding request)
        (req_content_type request) (stream_body (req_stream request)) reference n n'"
      and o: "pub_outcome pub = PublicationCreated \<longleftrightarrow> artifacts (view S n) (?ch, ?a) = None"
      and t: "case req_target request of ById a \<Rightarrow> ?a = a \<and> reference = None
        | ContentAddressed None \<Rightarrow> reference = None
        | ContentAddressed (Some name) \<Rightarrow> \<exists>record. reference = Some (name, record) \<and> ref_artifact record = ?a"
    from p have r: "references (view S n') (?ch, name) = Some record" if "reference = Some (name, record)" for name "record"
      using that by (auto simp: published_def a_commit_def Let_def)
    have "artifacts (a_commit ?ch ?a m reference v) (?ch, ?a) \<noteq> None" for m v
      by (cases reference) (auto simp: a_commit_def Let_def)
    with p obtain md where md: "artifacts (view S n') (?ch, ?a) = Some md" unfolding published_def by (metis not_Some_eq)
    let ?bs = "case body_at S n ?ch ?a of
        None \<Rightarrow> encoded (fsys S) (req_encoding request) (stream_body (req_stream request)) | Some kept \<Rightarrow> kept"
    have "(\<exists>e. x = Inl e) \<or> x = Inr (Some \<lparr>located_file = ?bs, located_metadata = md\<rparr>)"
      if "\<not> dirs (fsys S) (disk n) (artifact_path (ids S) (artifact_files S) ?ch ?a)" "locate S ?ch ?a n' = (x, n'')" for x n''
    proof (rule lookup_of_recorded [OF assms(1) v md _ that(2)])
      show "body_at S n' ?ch ?a = Some ?bs" using p that(1) by (auto simp: published_def split: option.splits if_splits)
    qed
    with p o t r md show ?thesis
      by (intro exI [of _ reference] exI [of _ md]) (auto split: PublicationTarget.splits option.splits)
  qed
qed

definition demo_request :: PublishRequest where
  "demo_request =
     \<lparr>req_channel = default_channel, req_target = ContentAddressed (Some ''latest''), req_content_type = None,
      req_stream = demo_chunks, req_content_length = None, req_durability = Durable, req_encoding = Identity\<rparr>"

definition demo_channel :: ChannelRecord where
  "demo_channel = \<lparr>channel_id = default_channel, access = Open, expiry_seconds = 60, lifecycle = Active, channel_created_at = 200\<rparr>"

lemmas demo_store_eval = blocking_def with_cf_def db_get_def map_err_def and_then_def demo_rocks_def demo_contents_def
  record_result_def lift_result_def encode_record_def decode_record_def schema_version_def ok_def throw_def write_batch_def
  write_sync_def db_write_def Let_def

lemma demo_ready_rows:
  "demo_ready = [(CHANNELS, ChannelId_as_key demo_crates default_channel,
      1 # (case demo_channel_to_vec demo_channel of Inl x \<Rightarrow> [] | Inr bs \<Rightarrow> bs))]"
  by (simp add: demo_ready_def ensure_default_def store_call_def on_db_def draw_def outcome_def store_channel_get_def
      create_channel_def demo_store_eval demo_node_def gate_def modify_def demo_channel_def demo_channel_to_vec_def)

lemma demo_channel_found:
  "store_channel_get demo_crates demo_rocks default_channel demo_ready = (Inr (Some demo_channel), demo_ready)"
proof -
  have "demo_channel_from_bytes (case demo_channel_to_vec demo_channel of Inl x \<Rightarrow> [] | Inr bs \<Rightarrow> bs) = Inr demo_channel"
    using demo_channel_ok by (simp add: postcard_ok_def demo_channel_to_vec_def)
  then show ?thesis
    by (simp add: store_channel_get_def demo_store_eval demo_ready_rows)
qed

definition demo_staged_node :: "demo_db \<Rightarrow> (demo_db, demo_disk) node" where
  "demo_staged_node d =
     (demo_node d)\<lparr>disk := disk (demo_staged_world Durable), space := space (demo_staged_world Durable)\<rparr>"

lemma demo_node_publishes:
  "\<exists>f l. publish_file demo_crates demo_fs ledger_reserver demo_root default_channel demo_body_id demo_staged Durable
       ((demo_staged_node d)\<lparr>stats := m, draws := i, gates := g\<rparr>)
     = (Inr (Created \<lparr>outstanding = 4096, reservation_state = Published\<rparr>),
        (demo_staged_node d)\<lparr>stats := m, draws := i, gates := g, disk := f, space := l\<rparr>)"
  using demo_final_not_dir
  by (simp add: publish_eval demo_final_def [symmetric] demo_staged_def demo_body_digest demo_staged_world_def
      demo_staged_node_def demo_node_def)

definition plain_reference :: "(string \<times> ReferenceRecord) option \<Rightarrow> bool" where
  "plain_reference reference = (\<forall>x\<in>set_option reference. etag (snd x) = None \<and> last_modified (snd x) = None)"

lemma demo_commit_succeeds:
  assumes "content_type md = None" and "plain_reference reference"
  shows "fst (commit_publication demo_crates demo_rocks default_channel demo_body_id md reference Durable demo_ready) = Inr True"
  using assms
  by (cases reference)
    (auto simp: commit_publication_def demo_store_eval demo_ready_rows demo_metadata_to_vec_def demo_reference_to_vec_def
      plain_reference_def)

lemma demo_commits_staged:
  assumes n: "db n = demo_ready" and "plain_reference reference"
    and p: "publish_file demo_crates demo_fs ledger_reserver demo_root default_channel demo_body_id demo_staged Durable
      (n\<lparr>gates := insert default_channel (gates n)\<rparr>) = (Inr fp, n2)"
  shows "\<exists>n'. commit_staged demo_service default_channel demo_body_id demo_staged
      \<lparr>commit_content_type = None, commit_reference = reference, commit_durability = Durable\<rparr> n
    = (Inr \<lparr>pub_artifact = demo_body_id, pub_outcome = PublicationCreated\<rparr>, n')"
proof -
  let ?cm = "\<lparr>commit_content_type = None, commit_reference = reference, commit_durability = Durable\<rparr>"
  let ?md = "committed_metadata demo_staged ?cm (200 + of_nat (draws n2)) 60"
  have n2: "db n2 = demo_ready" using node_more [OF more_publish [OF p]] n by simp
  have fence: "channel_fence demo_service default_channel n = (Inr 60, n\<lparr>gates := insert default_channel (gates n)\<rparr>)"
    using n by (simp add: channel_fence_def and_then_def modify_def metadata_call_def map_err_def on_db_def ok_def
        demo_channel_found demo_channel_def)
  have "content_type ?md = None" by (simp add: committed_metadata_def)
  from demo_commit_succeeds [OF this assms(2)] obtain d
    where "commit_publication demo_crates demo_rocks default_channel demo_body_id ?md reference Durable demo_ready = (Inr True, d)"
    by (metis prod.collapse)
  with p fence n2 show ?thesis
    by (cases fp) (simp_all add: commit_staged_def outcome_def and_then_def files_call_def map_err_def draw_def on_db_def
        modify_def ok_def committed_metadata_def)
qed

lemma demo_service_publishes:
  assumes n: "db n = demo_ready" and t: "t = ContentAddressed (Some ''latest'') \<or> t = ById demo_body_id"
    and st: "stage demo_crates demo_fs ledger_reserver demo_root default_channel demo_chunks 100 None Durable Identity n
      = (Inr (Ready demo_staged), n\<lparr>disk := f, space := l\<rparr>)"
    and pub: "\<And>m i g. \<exists>fp n2. publish_file demo_crates demo_fs ledger_reserver demo_root default_channel demo_body_id demo_staged Durable
      (n\<lparr>disk := f, space := l, stats := m, draws := i, gates := g\<rparr>) = (Inr fp, n2)"
  shows "\<exists>n'. service_publish demo_service (demo_request\<lparr>req_target := t\<rparr>) n
    = (Inr \<lparr>pub_artifact = demo_body_id, pub_outcome = PublicationCreated\<rparr>, n')"
proof -
  let ?start = "\<lambda>i. n\<lparr>disk := f, space := l, stats := metrics_written 5 (stats n), draws := i\<rparr>"
  have commits: "\<exists>n'. commit_staged demo_service default_channel demo_body_id demo_staged
      \<lparr>commit_content_type = None, commit_reference = reference, commit_durability = Durable\<rparr> (?start i)
    = (Inr \<lparr>pub_artifact = demo_body_id, pub_outcome = PublicationCreated\<rparr>, n')" if "plain_reference reference" for reference i
  proof -
    from pub [where m = "metrics_written 5 (stats n)" and i = i and g = "insert default_channel (gates n)"] obtain fp n2 where
      "publish_file demo_crates demo_fs ledger_reserver demo_root default_channel demo_body_id demo_staged Durable
        ((?start i)\<lparr>gates := insert default_channel (gates (?start i))\<rparr>) = (Inr fp, n2)" by auto
    then show ?thesis by (rule demo_commits_staged [rotated 2]) (simp_all add: n that)
  qed
  have staged: "staged_len demo_staged = 5" "ArtifactId (staged_digest demo_staged) = demo_body_id"
    by (simp_all add: demo_staged_def demo_body_id_def)
  have same: "n\<lparr>disk := f, space := l, stats := m\<rparr> = n\<lparr>disk := f, space := l, stats := m, draws := draws n\<rparr>" for m by simp
  from t show ?thesis
  proof
    assume "t = ById demo_body_id"
    with commits [of None "draws n"] staged show ?thesis
      by (auto simp: service_publish_def publish_or_reject_def files_call_def demo_request_def map_err_def and_then_def
          st count_def modify_def ok_def plain_reference_def)
  next
    assume "t = ContentAddressed (Some ''latest'')"
    with commits [of "Some (''latest'', \<lparr>ref_artifact = demo_body_id, updated_at = 200 + of_nat (draws n), etag = None,
      last_modified = None\<rparr>)" "Suc (draws n)"] staged show ?thesis
      by (auto simp: service_publish_def publish_or_reject_def files_call_def demo_request_def map_err_def and_then_def
          st count_def modify_def draw_def ok_def plain_reference_def)
  qed
qed

lemma demo_node_runs_at:
  fixes m' :: Metrics and i' :: nat and g' :: "ChannelId set"
  defines "n \<equiv> (demo_node demo_ready)\<lparr>stats := m', draws := i', gates := g'\<rparr>"
  assumes "t = ContentAddressed (Some ''latest'') \<or> t = ById demo_body_id"
  shows "\<exists>n'. service_publish demo_service (demo_request\<lparr>req_target := t\<rparr>) n
     = (Inr \<lparr>pub_artifact = demo_body_id, pub_outcome = PublicationCreated\<rparr>, n')"
proof (rule demo_service_publishes [OF _ assms(2)])
  show "stage demo_crates demo_fs ledger_reserver demo_root default_channel demo_chunks 100 None Durable Identity n
      = (Inr (Ready demo_staged), n\<lparr>disk := disk (demo_staged_world Durable), space := space (demo_staged_world Durable)\<rparr>)"
    unfolding n_def
    by (simp add: demo_node_def demo_world_def demo_chunks_def demo_staged_def demo_staged_world_def demo_tmp_def demo_extent local_eval)
  show "\<exists>fp n2. publish_file demo_crates demo_fs ledger_reserver demo_root default_channel demo_body_id demo_staged Durable
      (n\<lparr>disk := disk (demo_staged_world Durable), space := space (demo_staged_world Durable),
        stats := m, draws := i, gates := g\<rparr>) = (Inr fp, n2)" for m i g
    using demo_node_publishes [where d = demo_ready and m = m and i = i and g = g]
    by (simp add: demo_staged_node_def n_def) blast
qed (simp add: n_def demo_node_def)

lemma demo_node_runs:
  assumes "t = ContentAddressed (Some ''latest'') \<or> t = ById demo_body_id"
  shows "\<exists>n'. service_publish demo_service (demo_request\<lparr>req_target := t\<rparr>) ((demo_node demo_ready)\<lparr>stats := m'\<rparr>)
     = (Inr \<lparr>pub_artifact = demo_body_id, pub_outcome = PublicationCreated\<rparr>, n')"
  using demo_node_runs_at [OF assms, where m' = m' and i' = "draws (demo_node demo_ready)" and g' = "gates (demo_node demo_ready)"]
  by simp

lemma demo_publish_succeeds:
  "\<exists>n'. service_publish demo_service demo_request (demo_node demo_ready)
     = (Inr \<lparr>pub_artifact = demo_body_id, pub_outcome = PublicationCreated\<rparr>, n')"
  using demo_node_runs [of "ContentAddressed (Some ''latest'')" "stats (demo_node demo_ready)"] by (simp add: demo_request_def)

text \<open>The reference store answers every well-formed lookup.\<close>

lemma demo_lookup_answers:
  assumes "db_inv demo_crates demo_rocks d"
  shows "store_artifact demo_crates demo_rocks ch a d = (Inr (artifacts (db_view demo_crates demo_rocks d) (ch, a)), d)"
proof (cases "demo_contents d ARTIFACTS (artifact_key demo_crates ch a)")
  case None
  then show ?thesis
    by (simp add: store_artifact_def demo_store_eval db_view_def abs_store_def abs_artifacts_def decoded_def)
next
  case (Some bs)
  moreover from this assms obtain md where "decode_record demo_metadata_from_bytes bs = Inr md"
    by (force simp: db_inv_def wf_db_def decodes_def demo_rocks_def)
  ultimately show ?thesis
    by (simp add: store_artifact_def blocking_def with_cf_def db_get_def map_err_def and_then_def demo_rocks_def
        record_result_def lift_result_def ok_def db_view_def abs_store_def abs_artifacts_def decoded_def)
qed

lemma demo_locates:
  assumes "valid demo_service n" and "artifacts (view demo_service n) (ch, a) = Some md" and "body_at demo_service n ch a = Some bs"
  shows "fst (locate demo_service ch a n) = Inr (Some \<lparr>located_file = bs, located_metadata = md\<rparr>)"
  using assms demo_lookup_answers [of "db n" ch a]
  by (simp add: locate_def locate_local_def metadata_call_def on_db_def map_err_def and_then_def outcome_def on_disk_def ok_def
      count_def modify_def)

lemma demo_published_at:
  assumes ok: "node_ok demo_service 0 n" and "db n = demo_ready" and "d_files (disk n) = []" and "d_dirs (disk n) = []"
    and run: "service_publish demo_service demo_request n
      = (Inr \<lparr>pub_artifact = demo_body_id, pub_outcome = PublicationCreated\<rparr>, n')"
  obtains md where "artifacts (view demo_service n') (default_channel, demo_body_id) = Some md"
    and "body_at demo_service n' default_channel demo_body_id = Some [1, 2, 3, 4, 5]" and "unat (content_len md) = 5"
proof -
  have fit: "chunks_fit (req_stream demo_request)" by (simp add: demo_request_def demo_chunks_fit)
  from run have "publish_or_reject demo_service demo_request n
      = (Inr (AdmissionPublished \<lparr>pub_artifact = demo_body_id, pub_outcome = PublicationCreated\<rparr>), n')"
    by (auto simp: service_publish_def and_then_def ok_def throw_def split: prod.splits sum.splits Admission.splits)
  then obtain reference where p: "published demo_service default_channel demo_body_id Identity None [1, 2, 3, 4, 5] reference n n'"
    by (rule publish_success_E [OF demo_env ok fit]) (simp add: demo_request_def stream_body_def demo_chunks_def)
  have empty: "artifacts (view demo_service n) (default_channel, demo_body_id) = None"
    using assms(2)
    by (simp add: demo_ready_rows db_view_def abs_store_def abs_artifacts_def decoded_def demo_rocks_def demo_contents_def)
  from p obtain m where "view demo_service n' = a_commit default_channel demo_body_id m reference (view demo_service n)"
    and len: "unat (content_len m) = 5" by (auto simp: published_def)
  then have md: "artifacts (view demo_service n') (default_channel, demo_body_id) = Some m"
    using empty by (cases reference) (auto simp: a_commit_def Let_def)
  have "body_at demo_service n' default_channel demo_body_id = Some [1, 2, 3, 4, 5]"
    using p assms(3,4) by (auto simp: published_def encoded_def)
  from that [OF md this len] show thesis .
qed

theorem publication_recorded_witness:
  "\<exists>n' md. service_publish demo_service demo_request (demo_node demo_ready)
     = (Inr \<lparr>pub_artifact = demo_body_id, pub_outcome = PublicationCreated\<rparr>, n')
   \<and> artifacts (view demo_service n') (default_channel, demo_body_id) = Some md \<and> unat (content_len md) = 5
   \<and> (\<exists>record. references (view demo_service n') (default_channel, ''latest'') = Some record
        \<and> ref_artifact record = demo_body_id)
   \<and> fst (locate demo_service default_channel demo_body_id n')
     = Inr (Some \<lparr>located_file = [1, 2, 3, 4, 5], located_metadata = md\<rparr>)"
proof -
  from demo_publish_succeeds obtain n' where run: "service_publish demo_service demo_request (demo_node demo_ready)
     = (Inr \<lparr>pub_artifact = demo_body_id, pub_outcome = PublicationCreated\<rparr>, n')" ..
  have fit: "chunks_fit (req_stream demo_request)" by (simp add: demo_request_def demo_chunks_fit)
  note ready = demo_node_ok [OF demo_ready_good]
  have "node_ok demo_service 0 n'" by (rule keepsD [OF keeps_publish [OF demo_env fit] ready run])
  then have v: "valid demo_service n'" by (simp add: node_ok_def stored_ok_def db_good_def)
  obtain md where md: "artifacts (view demo_service n') (default_channel, demo_body_id) = Some md"
    and bs: "body_at demo_service n' default_channel demo_body_id = Some [1, 2, 3, 4, 5]" and len: "unat (content_len md) = 5"
    by (rule demo_published_at [OF ready _ _ _ run]) (simp_all add: demo_node_def)
  from publication_recorded [OF demo_env ready fit run]
  have "\<exists>record. references (view demo_service n') (default_channel, ''latest'') = Some record \<and> ref_artifact record = demo_body_id"
    by (simp add: demo_request_def) blast
  with run md len demo_locates [OF v md bs] show ?thesis by blast
qed

lemma marked_seen: "recent_ok r \<Longrightarrow> seen h ch a (mark_recent h ch a r)"
  using holds_seen [of _ _ h ch a] mark_holds [of r] positions_same [of _ r] by (metis bits_kept(1))

text \<open>
  C11. A lookup has four outcomes. A hit returns the stored record and the file at the
  artifact's path, changes no record, counts one hit and marks the artifact as recently
  used. A miss counts one miss and leaves no record of the artifact; if there was one,
  its body was missing, and nothing else changed. An error leaves the records as they
  were, or removed exactly the record whose body was missing.
\<close>

theorem lookup_outcomes:
  assumes "env_ok S" and "node_ok S k n" and "locate S ch a n = (x, n')"
  shows "case x of
      Inr (Some l) \<Rightarrow> artifacts (view S n) (ch, a) = Some (located_metadata l) \<and> body_at S n ch a = Some (located_file l)
        \<and> view S n' = view S n \<and> seen (hash S) ch a (recent n') \<and> hits (stats n') = hits (stats n) + 1
    | Inr None \<Rightarrow> artifacts (view S n') (ch, a) = None \<and> misses (stats n') = misses (stats n) + 1
        \<and> (view S n' = view S n \<or> body_at S n ch a = None \<and> view S n' = a_remove ch a (view S n))
    | Inl e \<Rightarrow> view S n' = view S n \<or> body_at S n ch a = None \<and> view S n' = a_remove ch a (view S n)"
proof -
  obtain y n1 where l: "locate_local S ch a n = (y, n1)" by fastforce
  have v: "valid S n" and r: "recent_ok (recent n)" using assms(2) by (auto simp: node_ok_def stored_ok_def db_good_def)
  note e = locate_local_effect [OF assms(1) v l]
  have "seen (hash S) ch a (mark_recent (hash S) ch a (recent n))" by (rule marked_seen [OF r])
  with e l assms(3) show ?thesis
    by (cases y)
      (auto simp: locate_def and_then_def modify_def count_def ok_def metrics_hit_def metrics_miss_def a_remove_def
        split: option.splits if_splits)
qed

lemma demo_metadata_decodes:
  "decode_record demo_metadata_from_bytes
     (1 # (case demo_metadata_to_vec demo_metadata of Inl x \<Rightarrow> [] | Inr bs \<Rightarrow> bs)) = Inr demo_metadata"
proof -
  have "demo_metadata_to_vec demo_metadata = Inr (case demo_metadata_to_vec demo_metadata of Inl x \<Rightarrow> [] | Inr bs \<Rightarrow> bs)"
    by (simp add: demo_metadata_to_vec_def demo_metadata_def)
  from demo_metadata_ok [unfolded postcard_ok_def, rule_format, OF this] show ?thesis
    by (simp add: decode_record_def schema_version_def)
qed

lemma demo_lookup:
  "store_artifact demo_crates demo_rocks default_channel demo_artifact demo_published
    = (Inr (Some demo_metadata), demo_published)"
  using demo_metadata_decodes
  by (simp add: store_artifact_def demo_store_eval demo_published_rows)

lemma demo_removal:
  "fst (remove_artifact demo_crates demo_rocks default_channel demo_artifact demo_published) = Inr ()"
  using demo_metadata_decodes
  by (simp add: remove_artifact_def demo_store_eval demo_published_rows)

lemma demo_miss: "fst (locate demo_service default_channel demo_artifact (demo_node demo_published)) = Inr None"
  using demo_removal
  by (cases "remove_artifact demo_crates demo_rocks default_channel demo_artifact demo_published")
    (simp add: locate_def locate_local_def metadata_call_def on_db_def map_err_def and_then_def outcome_def
      on_disk_def ok_def count_def modify_def demo_lookup demo_node_def)

theorem lookup_outcomes_witness:
  "misses (stats (snd (locate demo_service default_channel demo_artifact (demo_node demo_published)))) = 1
   \<and> artifacts (view demo_service (snd (locate demo_service default_channel demo_artifact (demo_node demo_published))))
       (default_channel, demo_artifact) = None"
proof -
  let ?run = "locate demo_service default_channel demo_artifact (demo_node demo_published)"
  have "?run = (Inr None, snd ?run)" using demo_miss by (metis prod.collapse)
  from lookup_outcomes [OF demo_env demo_node_ok [OF demo_published_good] this]
  show ?thesis by (simp add: demo_node_def demo_metrics_def)
qed

section \<open>Maintenance and recovery\<close>

text \<open>
  C8. A maintenance pass, whether it succeeds or is cut short by an error, takes nothing it
  should keep. In \<open>Normal\<close> mode an artifact it removes was past its deadline and not
  recently used, and one it keeps is unchanged unless it was recently used and only its
  deadline moved; no reference and no channel changes; no file disappears except the body
  of a recorded artifact; no body is left without a record that had one before, because
  the body goes first; and the number of artifacts reported as reclaimed is within the
  limit.
\<close>

theorem maintenance_takes_only_evictable:
  assumes "env_ok S" and "node_ok S k n" and "run_maintenance_once S limit n = (x, n')"
  shows "(\<forall>ch a. fate S (pass_mode S n) (pass_now S n) (recent n) ch a
        (artifacts (view S n) (ch, a)) (artifacts (view S n') (ch, a)))
    \<and> references (view S n') = references (view S n) \<and> channels (view S n') = channels (view S n)
    \<and> (\<forall>q. files (fsys S) (disk n') q = files (fsys S) (disk n) q \<or> files (fsys S) (disk n') q = None
        \<and> (\<exists>ch a. q = artifact_path (ids S) (artifact_files S) ch a \<and> artifacts (view S n) (ch, a) \<noteq> None))
    \<and> (\<forall>ch a. artifacts (view S n') (ch, a) = None \<longrightarrow> body_at S n' ch a \<noteq> None \<longrightarrow> artifacts (view S n) (ch, a) = None)
    \<and> (\<forall>r. x = Inr r \<longrightarrow> r \<le> limit)"
proof -
  have "valid S n" using assms(2) by (simp add: node_ok_def stored_ok_def db_good_def)
  from maintenance_kept [OF assms(1) this assms(3)] show ?thesis by (simp add: pass_kept_def)
qed

definition demo_used_node :: "(demo_db, demo_disk) node" where
  "demo_used_node = (demo_node demo_published)\<lparr>recent := mark_recent (hash demo_service) default_channel demo_artifact (RecentUse_new 64)\<rparr>"

lemma demo_used_ok: "node_ok demo_service 0 demo_used_node"
  using demo_node_ok [OF demo_published_good] recent_ok_mark [OF recent_ok_new, of 64 "hash demo_service" default_channel demo_artifact]
  by (simp add: demo_used_node_def node_ok_def stored_ok_def)

theorem maintenance_takes_only_evictable_witness:
  "artifacts (view demo_service (snd (run_maintenance_once demo_service 3 demo_used_node))) (default_channel, demo_artifact) \<noteq> None
   \<and> channels (view demo_service (snd (run_maintenance_once demo_service 3 demo_used_node)))
      = channels (view demo_service demo_used_node)"
proof -
  let ?n = "snd (run_maintenance_once demo_service 3 demo_used_node)"
  have "artifacts (view demo_service demo_used_node) (default_channel, demo_artifact) = Some demo_metadata"
    using effect_Inr [OF rocksdb.get_artifact _ demo_lookup] demo_published_good by (simp add: demo_used_node_def demo_node_def db_good_def)
  moreover have "seen (hash demo_service) default_channel demo_artifact (recent demo_used_node)"
    by (simp add: demo_used_node_def marked_seen recent_ok_new)
  moreover have "pass_mode demo_service demo_used_node = Normal"
    by (simp add: pass_mode_def demo_used_node_def demo_node_def refresh_def SpaceLedger_new_def mode_def available_locked_def
        saturating_add_def saturating_sub_def Let_def)
  moreover have "fate demo_service (pass_mode demo_service demo_used_node) (pass_now demo_service demo_used_node) (recent demo_used_node)
      default_channel demo_artifact (artifacts (view demo_service demo_used_node) (default_channel, demo_artifact))
      (artifacts (view demo_service ?n) (default_channel, demo_artifact))"
    and "channels (view demo_service ?n) = channels (view demo_service demo_used_node)"
    using maintenance_takes_only_evictable [OF demo_env demo_used_ok surjective_pairing] by blast+
  ultimately show ?thesis by (auto simp: fate_def split: option.splits)
qed

text \<open>
  C12. Startup recovery never destroys what is recorded: no record changes and the body of
  every recorded artifact is untouched, on every outcome. When it succeeds, every body its
  bounded scan found without a record is gone.
\<close>

theorem recovery_keeps_recorded_bodies:
  assumes "env_ok S" and "node_ok S k n" and "reconcile S n = (x, n')"
  shows "view S n' = view S n
    \<and> (\<forall>ch a. artifacts (view S n) (ch, a) \<noteq> None \<longrightarrow> body_at S n' ch a = body_at S n ch a)
    \<and> (x = Inr () \<longrightarrow> (\<exists>found n1 n2.
        remove_temporary_files (fsys S) (artifact_files S) n = (Inr (), n1)
      \<and> orphan_scan (ids S) (fsys S) (artifact_files S) (orphan_scan_limit S) n1 = (Inr found, n2)
      \<and> (\<forall>e \<in> set found. artifacts (view S n) e = None \<longrightarrow> body_at S n' (fst e) (snd e) = None)))"
proof -
  have "valid S n" using assms(2) by (simp add: node_ok_def stored_ok_def db_good_def)
  from reconcile_effect [OF assms(1) this assms(3)] show ?thesis by (cases x) (auto simp: recovery_kept_def)
qed

theorem recovery_keeps_recorded_bodies_witness:
  "\<exists>n. service_publish demo_service demo_request (demo_node demo_ready)
     = (Inr \<lparr>pub_artifact = demo_body_id, pub_outcome = PublicationCreated\<rparr>, n)
   \<and> body_at demo_service (snd (reconcile demo_service n)) default_channel demo_body_id = Some [1, 2, 3, 4, 5]
   \<and> view demo_service (snd (reconcile demo_service n)) = view demo_service n"
proof -
  from demo_publish_succeeds obtain n where run: "service_publish demo_service demo_request (demo_node demo_ready)
     = (Inr \<lparr>pub_artifact = demo_body_id, pub_outcome = PublicationCreated\<rparr>, n)" ..
  note ready = demo_node_ok [OF demo_ready_good]
  have fit: "chunks_fit (req_stream demo_request)" by (simp add: demo_request_def demo_chunks_fit)
  have ok: "node_ok demo_service 0 n" by (rule keepsD [OF keeps_publish [OF demo_env fit] ready run])
  obtain md where "artifacts (view demo_service n) (default_channel, demo_body_id) = Some md"
    and "body_at demo_service n default_channel demo_body_id = Some [1, 2, 3, 4, 5]"
    by (rule demo_published_at [OF ready _ _ _ run]) (simp_all add: demo_node_def)
  with recovery_keeps_recorded_bodies [OF demo_env ok surjective_pairing] run show ?thesis by (metis option.distinct(1))
qed

section \<open>Channels\<close>

text \<open>
  C9. Deleting a channel never touches another: whatever the outcome, the record, the
  artifacts, the references and the files of every other channel are as they were. It
  succeeds only for an active channel other than the default one, with its credential,
  and then nothing of the channel is left. When it fails, the channel is untouched, or it
  is marked as being deleted, or it is gone with all it held; a partial deletion is never
  visible as an active channel.
\<close>

theorem channel_deletion_isolated:
  assumes "env_ok S" and "node_ok S k n" and "delete_channel S ch cred n = (x, n')"
  shows "others_same S {ch} n n' \<and> deletion_state S ch n n'
    \<and> (x = Inr () \<longrightarrow> channels (view S n') ch = None \<and> data_gone S ch n' \<and> ch \<noteq> default_channel
        \<and> (\<exists>r. channels (view S n) ch = Some r \<and> lifecycle r = Active
             \<and> (\<forall>d. access r = Token d \<longrightarrow> (\<exists>t. cred = Some t \<and> TokenDigest_verify (ids S) d t))))"
proof -
  have "valid S n" using assms(2) by (simp add: node_ok_def stored_ok_def db_good_def)
  from delete_channel_effect [OF assms(1) this assms(3)] show ?thesis by (cases x) auto
qed

text \<open>A second channel, open and active or being deleted, in an otherwise empty database.\<close>

definition demo_other :: "Lifecycle \<Rightarrow> ChannelRecord" where
  "demo_other lc = \<lparr>channel_id = ChannelId 9, access = Open, expiry_seconds = 60, lifecycle = lc, channel_created_at = 4\<rparr>"

definition demo_rows_of :: "ChannelRecord \<Rightarrow> demo_db" where
  "demo_rows_of record = [(CHANNELS, ChannelId_as_key demo_crates (channel_id record),
     1 # (case demo_channel_to_vec record of Inl x \<Rightarrow> [] | Inr bs \<Rightarrow> bs))]"

lemma demo_rows_decode:
  "demo_channel_from_bytes (case demo_channel_to_vec record of Inl x \<Rightarrow> [] | Inr bs \<Rightarrow> bs) = Inr record"
  using demo_channel_ok by (simp add: postcard_ok_def demo_channel_to_vec_def)

lemma demo_rows_put: "store_channel demo_crates demo_rocks record [] = (Inr (), demo_rows_of record)"
  by (simp add: store_channel_def demo_store_eval demo_rows_of_def demo_channel_to_vec_def)

lemma demo_rows_good: "db_good demo_crates demo_rocks (demo_rows_of record)"
  by (rule keepsD [OF channels_keep(2) demo_db_good demo_rows_put])

lemma demo_rows_get:
  "store_channel_get demo_crates demo_rocks (channel_id record) (demo_rows_of record) = (Inr (Some record), demo_rows_of record)"
  using demo_rows_decode by (simp add: store_channel_get_def demo_store_eval demo_rows_of_def)

lemma demo_purge: "fst (delete_channel_data demo_crates demo_rocks ch d) = Inr ()"
  by (simp add: delete_channel_data_def demo_store_eval)

lemma demo_finish: "fst (finish_deletion demo_service ch n) = Inr ()"
proof -
  obtain d where p: "delete_channel_data demo_crates demo_rocks ch (db n) = (Inr (), d)"
    using demo_purge by (metis prod.collapse)
  have "fst (finish_channel_deletion demo_crates demo_rocks ch d) = Inr ()"
    by (simp add: finish_channel_deletion_def demo_store_eval)
  then obtain d' where "finish_channel_deletion demo_crates demo_rocks ch d = (Inr (), d')" by (metis prod.collapse)
  with p show ?thesis
    by (simp add: finish_deletion_def store_call_def on_db_def map_err_def and_then_def remove_channel_def
        ignore_not_found_def outcome_def on_disk_def ok_def forget_def modify_def)
qed

lemma demo_view_get:
  assumes "store_channel_get demo_crates demo_rocks ch d = (Inr r, d')" and "db_good demo_crates demo_rocks d"
  shows "channels (db_view demo_crates demo_rocks d) ch = r"
  using effect_Inr [OF effect_channels(3) _ assms(1)] assms(2) by (simp add: db_good_def)

theorem channel_deletion_isolated_witness:
  "data_gone demo_service (ChannelId 9) (snd (delete_channel demo_service (ChannelId 9) None
     (demo_node (demo_rows_of (demo_other Active)))))"
proof -
  let ?n = "demo_node (demo_rows_of (demo_other Active))"
  let ?run = "delete_channel demo_service (ChannelId 9) None ?n"
  have get: "store_channel_get demo_crates demo_rocks (ChannelId 9) (demo_rows_of (demo_other Active))
      = (Inr (Some (demo_other Active)), demo_rows_of (demo_other Active))"
    using demo_rows_get [of "demo_other Active"] by (simp add: demo_other_def)
  have "fst (store_channel demo_crates demo_rocks r d) = Inr ()" for r d
    by (simp add: store_channel_def demo_store_eval demo_channel_to_vec_def)
  then obtain d where "store_channel demo_crates demo_rocks ((demo_other Active)\<lparr>lifecycle := Deleting\<rparr>)
      (demo_rows_of (demo_other Active)) = (Inr (), d)" by (metis prod.collapse)
  then have "fst ?run = Inr ()"
    using demo_finish get
    by (simp add: delete_channel_def authorize_with_lease_def authorize_def store_call_def on_db_def map_err_def
        and_then_def authorize_record_def lift_result_def ok_def gate_def modify_def demo_node_def demo_other_def
        default_channel_def)
  then have "?run = (Inr (), snd ?run)" by (metis prod.collapse)
  from channel_deletion_isolated [OF demo_env demo_node_ok [OF demo_rows_good] this] show ?thesis by simp
qed

text \<open>
  C10. A deletion that was interrupted is completed by the next start: when
  \<open>resume_deletions\<close> succeeds, no channel is left in the deleting state, and of every
  channel that was, nothing is left; active channels keep everything, on every outcome.
\<close>

theorem interrupted_deletions_completed:
  assumes "env_ok S" and "node_ok S k n" and "resume_deletions S n = (x, n')"
  shows "(x = Inr () \<longrightarrow> (\<forall>ch r. channels (view S n') ch = Some r \<longrightarrow> lifecycle r = Active)
        \<and> (\<forall>ch r. channels (view S n) ch = Some r \<longrightarrow> lifecycle r = Deleting \<longrightarrow>
             channels (view S n') ch = None \<and> data_gone S ch n'))
    \<and> (\<forall>ch r. channels (view S n) ch = Some r \<longrightarrow> lifecycle r = Active \<longrightarrow> others_same S (- {ch}) n n')"
proof -
  have "valid S n" using assms(2) by (simp add: node_ok_def stored_ok_def db_good_def)
  from resume_effect [OF assms(1) this assms(3)] show ?thesis by (cases x) auto
qed

lemma demo_rows_list: "store_channels demo_rocks (demo_rows_of record) = (Inr [record], demo_rows_of record)"
  using demo_rows_decode
  by (simp add: store_channels_def demo_store_eval demo_rows_of_def demo_rows_def demo_keys_def)

theorem interrupted_deletions_completed_witness:
  "data_gone demo_service (ChannelId 9) (snd (resume_deletions demo_service
     (demo_node (demo_rows_of (demo_other Deleting)))))"
proof -
  let ?n = "demo_node (demo_rows_of (demo_other Deleting))"
  let ?run = "resume_deletions demo_service ?n"
  have "fst ?run = Inr ()"
    using demo_finish [of "ChannelId 9" "?n\<lparr>gates := {ChannelId 9}\<rparr>"] demo_rows_list [of "demo_other Deleting"]
    by (cases "finish_deletion demo_service (ChannelId 9) (?n\<lparr>gates := {ChannelId 9}\<rparr>)")
      (simp add: resume_deletions_def store_call_def on_db_def map_err_def and_then_def ok_def gate_def modify_def
        demo_node_def demo_other_def)
  then have run: "?run = (Inr (), snd ?run)" by (metis prod.collapse)
  have "channels (view demo_service ?n) (ChannelId 9) = Some (demo_other Deleting)"
    using demo_view_get [OF _ demo_rows_good, of "ChannelId 9" "demo_other Deleting"] demo_rows_get [of "demo_other Deleting"]
    by (simp add: demo_node_def demo_other_def)
  with interrupted_deletions_completed [OF demo_env demo_node_ok [OF demo_rows_good] run]
  show ?thesis by (simp add: demo_other_def)
qed

lemma register_E:
  assumes "register S protected expiry n = (Inr issued, n')"
  obtains d where "create_channel (ids S) (meta S) (issued_record issued) (db n) = (Inr (), d)" and "db n' = d"
    and "disk n' = disk n" and "lifecycle (issued_record issued) = Active"
    and "access (issued_record issued) = (case issued_token issued of
      None \<Rightarrow> Open | Some t \<Rightarrow> Token (ChannelToken_digest (ids S) t))"
    and "issued_token issued = None \<longleftrightarrow> \<not> protected"
  using assms unfolding register_def store_call_def
  by (cases protected)
    (auto simp: and_then_def draw_def ok_def map_err_def on_db_def gate_def modify_def Let_def
      split: prod.splits sum.splits)

lemma authorize_reads:
  assumes "valid S n" and "authorize S ch cred n = (x, n')" and "channels (view S n) ch = Some r" and "lifecycle r = Active"
    and "\<And>e. x \<noteq> Inl (ChannelStore e)"
  shows "x = (case authorize_record (ids S) r cred of Inr _ \<Rightarrow> Inr r | Inl e \<Rightarrow> Inl e)"
proof -
  obtain y n1 where g: "store_call (store_channel_get (ids S) (meta S) ch) n = (y, n1)" by fastforce
  from store_call_effect [OF effect_channels(3) assms(1) g] assms(3) have "\<And>v. y = Inr v \<Longrightarrow> v = Some r" by auto
  moreover have "\<exists>e. z = ChannelStore e" if "y = Inl z" for z
    using g that unfolding store_call_def by (elim map_err_E) (auto split: sum.splits)
  ultimately show ?thesis using assms(2,4,5) g
    by (cases y) (auto simp: authorize_def and_then_def lift_result_def ok_def split: sum.splits)
qed

text \<open>
  Registration and authorization agree. A registration that succeeds created the record
  under a new identifier and changed no other channel; from then on the channel is
  authorized for exactly the credential issued: an open channel for any, a protected one
  for the token returned by the registration, and for another credential only if its
  digest is the same; without a credential it is refused as unauthorized.
\<close>

theorem registration_authorizes_issued_token:
  assumes "node_ok S k n" and "register S protected expiry n = (Inr issued, n')"
    and "authorize S (channel_id (issued_record issued)) cred n' = (x, n'')"
    and "\<And>e. x \<noteq> Inl (ChannelStore e)"
  shows "channels (view S n) (channel_id (issued_record issued)) = None
    \<and> others_same S {channel_id (issued_record issued)} n n'
    \<and> (issued_token issued = None \<longleftrightarrow> \<not> protected)
    \<and> x = (case issued_token issued of
        None \<Rightarrow> Inr (issued_record issued)
      | Some t \<Rightarrow>
          if \<exists>c. cred = Some c \<and> Sha256_digest (ids S) (str_bytes c) = Sha256_digest (ids S) (str_bytes t)
          then Inr (issued_record issued) else Inl Unauthorized)"
proof -
  let ?r = "issued_record issued"
  have v: "valid S n" using assms(1) by (simp add: node_ok_def stored_ok_def db_good_def)
  from assms(2) obtain d where c: "create_channel (ids S) (meta S) ?r (db n) = (Inr (), d)" and n': "db n' = d" "disk n' = disk n"
    and r: "lifecycle ?r = Active"
      "access ?r = (case issued_token issued of None \<Rightarrow> Open | Some t \<Rightarrow> Token (ChannelToken_digest (ids S) t))"
    and t: "issued_token issued = None \<longleftrightarrow> \<not> protected" by (rule register_E)
  from effect_Inr [OF effect_channels(1) v c] n' have v': "valid S n'" "view S n' = a_put_channel ?r (view S n)"
    and new: "channels (view S n) (channel_id ?r) = None" by auto
  have "channels (view S n') (channel_id ?r) = Some ?r" using v' by (simp add: a_put_channel_def)
  from authorize_reads [OF v'(1) assms(3) this r(1) assms(4)] r(2)
  have "x = (case issued_token issued of None \<Rightarrow> Inr ?r | Some t \<Rightarrow>
      if \<exists>c. cred = Some c \<and> Sha256_digest (ids S) (str_bytes c) = Sha256_digest (ids S) (str_bytes t)
      then Inr ?r else Inl Unauthorized)"
    by (cases cred) (auto simp: authorize_record_def TokenDigest_verify_def ChannelToken_digest_def split: option.splits)
  moreover have "others_same S {channel_id ?r} n n'" using v' n' by (simp add: others_same_def a_put_channel_def)
  ultimately show ?thesis using new t by simp
qed

theorem registration_authorizes_issued_token_witness:
  "\<exists>issued n'. register demo_service True 60 (demo_node []) = (Inr issued, n')
    \<and> fst (authorize demo_service (ChannelId 6) (Some ''secret'') n') = Inr (issued_record issued)"
proof -
  obtain issued n' where run: "register demo_service True 60 (demo_node []) = (Inr issued, n')"
    and i: "channel_id (issued_record issued) = ChannelId 6" "issued_token issued = Some ''secret''"
    by (simp add: register_def draw_def store_call_def on_db_def create_channel_def demo_store_eval demo_node_def
        gate_def modify_def demo_channel_to_vec_def)
  let ?x = "fst (authorize demo_service (ChannelId 6) (Some ''secret'') n')"
  have "create_channel demo_crates demo_rocks r [] = (Inr (), demo_rows_of r)" for r
    by (simp add: create_channel_def demo_store_eval demo_rows_of_def demo_channel_to_vec_def)
  with run have "db n' = demo_rows_of (issued_record issued)"
    by (auto simp: demo_node_def elim!: register_E)
  then have no: "?x \<noteq> Inl (ChannelStore e)" for e
    using demo_rows_get [of "issued_record issued"] i
    by (auto simp: authorize_def store_call_def on_db_def map_err_def and_then_def lift_result_def ok_def throw_def
        authorize_record_def split: Access.splits if_splits)
  have "authorize demo_service (channel_id (issued_record issued)) (Some ''secret'') n' = (?x, snd (authorize demo_service (ChannelId 6) (Some ''secret'') n'))"
    using i by simp
  from registration_authorizes_issued_token [OF demo_node_ok [OF demo_db_good] run this no] i
  have "?x = Inr (issued_record issued)" by simp
  with run show ?thesis by blast
qed

section \<open>A publication over an orphan\<close>

text \<open>
  A body without a record, as a crash between the rename and the commit leaves it, or a
  failed commit: the published body stays and the record is missing.
\<close>

definition demo_orphan_node :: "(demo_db, demo_disk) node" where
  "demo_orphan_node =
     (demo_node demo_ready)\<lparr>disk := (disk (demo_node demo_ready))\<lparr>d_files := [(demo_final, demo_frame [1, 2, 3, 4, 5])]\<rparr>\<rparr>"

lemma demo_orphan_ok: "node_ok demo_service 0 demo_orphan_node"
proof -
  have "body_of demo_crates demo_fs a bs"
    if "map_of [(demo_final, demo_frame [1, 2, 3, 4, 5])] (artifact_path demo_crates demo_root ch a) = Some bs" for ch a bs
  proof -
    from that have bs: "bs = demo_frame [1, 2, 3, 4, 5]" and p: "artifact_path demo_crates demo_root ch a = demo_final"
      by (auto split: if_splits)
    from p have "a = demo_body_id"
      using artifact_path_inject [OF demo_hex_ok demo_ulid_ok] by (auto simp: demo_final_def)
    with bs show ?thesis
      unfolding body_of_def by (intro exI [of _ Zstd] exI [of _ "[1, 2, 3, 4, 5]"]) (simp add: encoded_def demo_body_digest)
  qed
  then have "bodies_ok demo_crates demo_fs demo_root (disk demo_orphan_node)"
    by (simp add: bodies_ok_def demo_orphan_node_def)
  with demo_node_ok [OF demo_ready_good] show ?thesis
    by (simp add: node_ok_def stored_ok_def demo_orphan_node_def)
qed

lemma demo_orphan_runs:
  "\<exists>f l. stage demo_crates demo_fs ledger_reserver demo_root default_channel demo_chunks 100 None Durable Identity demo_orphan_node
     = (Inr (Ready demo_staged), demo_orphan_node\<lparr>disk := f, space := l\<rparr>)
   \<and> (\<forall>m i g. \<exists>fp n2. publish_file demo_crates demo_fs ledger_reserver demo_root default_channel demo_body_id demo_staged Durable
       (demo_orphan_node\<lparr>disk := f, space := l, stats := m, draws := i, gates := g\<rparr>) = (Inr fp, n2))"
  using demo_final_not_dir
  by (simp add: demo_orphan_node_def demo_node_def demo_world_def demo_chunks_def demo_staged_def
      demo_tmp_def [symmetric, of 0, simplified] demo_extent local_eval publish_eval demo_final_def [symmetric] demo_body_digest)

lemma demo_orphan_publishes:
  "\<exists>n'. service_publish demo_service demo_request demo_orphan_node
     = (Inr \<lparr>pub_artifact = demo_body_id, pub_outcome = PublicationCreated\<rparr>, n')"
proof -
  from demo_orphan_runs obtain f l where st: "stage demo_crates demo_fs ledger_reserver demo_root default_channel
      demo_chunks 100 None Durable Identity demo_orphan_node = (Inr (Ready demo_staged), demo_orphan_node\<lparr>disk := f, space := l\<rparr>)"
    and pub: "\<And>m i g. \<exists>fp n2. publish_file demo_crates demo_fs ledger_reserver demo_root default_channel demo_body_id demo_staged Durable
       (demo_orphan_node\<lparr>disk := f, space := l, stats := m, draws := i, gates := g\<rparr>) = (Inr fp, n2)" by blast
  show ?thesis using demo_service_publishes [OF _ _ st pub, of "ContentAddressed (Some ''latest'')"]
    by (simp add: demo_orphan_node_def demo_node_def demo_request_def)
qed

text \<open>
  C40. A publication that finds an orphan body at the artifact's path keeps the orphan's
  bytes and records the encoding and stored length of the body it staged and threw away.
  When the two encodings differ, the record misdescribes the file: a lookup then serves a
  compressed frame as the identity body, or the reverse.
\<close>

theorem publication_over_orphan_misdescribes:
  assumes "env_ok S" and "node_ok S k n" and "chunks_fit (req_stream request)"
    and "service_publish S request n = (Inr pub, n')"
    and "body_at S n (req_channel request) (pub_artifact pub) = Some orphan"
    and "artifacts (view S n) (req_channel request, pub_artifact pub) = None"
  shows "body_at S n' (req_channel request) (pub_artifact pub) = Some orphan
    \<and> (\<exists>md. artifacts (view S n') (req_channel request, pub_artifact pub) = Some md
        \<and> encoding md = req_encoding request
        \<and> stored_len md = of_nat (length (encoded (fsys S) (req_encoding request) (stream_body (req_stream request)))))"
proof -
  from assms(4) have run: "publish_or_reject S request n = (Inr (AdmissionPublished pub), n')"
    by (auto simp: service_publish_def and_then_def ok_def throw_def split: prod.splits sum.splits Admission.splits)
  show ?thesis
    by (rule publish_success_E [OF assms(1-3) run])
      (use assms(5,6) in \<open>auto simp: published_def a_commit_def Let_def split: option.splits\<close>)
qed

theorem publication_over_orphan_misdescribes_witness:
  "\<exists>pub n' md. service_publish demo_service demo_request demo_orphan_node = (Inr pub, n')
    \<and> body_at demo_service n' default_channel demo_body_id = Some (demo_frame [1, 2, 3, 4, 5])
    \<and> artifacts (view demo_service n') (default_channel, demo_body_id) = Some md
    \<and> encoding md = Identity \<and> stored_len md = 5"
proof -
  from demo_orphan_publishes obtain n' where run: "service_publish demo_service demo_request demo_orphan_node
     = (Inr \<lparr>pub_artifact = demo_body_id, pub_outcome = PublicationCreated\<rparr>, n')" ..
  have fit: "chunks_fit (req_stream demo_request)" by (simp add: demo_request_def demo_chunks_fit)
  have "store_artifact demo_crates demo_rocks default_channel demo_body_id demo_ready = (Inr None, demo_ready)"
    by (simp add: store_artifact_def demo_store_eval demo_ready_rows)
  from effect_Inr [OF rocksdb.get_artifact _ this] demo_ready_good
  have none: "artifacts (view demo_service demo_orphan_node) (default_channel, demo_body_id) = None"
    by (simp add: demo_orphan_node_def demo_node_def db_good_def)
  from publication_over_orphan_misdescribes [OF demo_env demo_orphan_ok fit run, of "demo_frame [1, 2, 3, 4, 5]"] none run
  show ?thesis
    by (auto simp: demo_request_def demo_orphan_node_def demo_final_def [symmetric] encoded_def stream_body_def demo_chunks_def)
qed

end
