(* ===== verification/Proxy_Properties.thy ===== *)
theory Proxy_Properties
  imports Proxy Service_Properties
begin

text \<open>
  Properties of the package proxy: which hosts it contacts and how often, what it gives back
  on every path, what the shard's invariant is worth under it, and what becomes of the
  links it rewrites.
\<close>

section \<open>Hosts\<close>

text \<open>A client that records the URLs it is asked for; what it answers may depend on all of them.\<close>

definition recording_get :: "(Url \<Rightarrow> headers \<Rightarrow> Url list \<Rightarrow> SendError + Response) \<Rightarrow> Url list getter" where
  "recording_get reply u hs sent = (reply u hs sent, sent @ [u])"

definition contacted :: "('d, 'f) ProxyService \<Rightarrow> Protocol \<Rightarrow> nat \<Rightarrow> Url list \<Rightarrow> Url list \<Rightarrow> bool" where
  "contacted P protocol k before after \<longleftrightarrow>
     (\<exists>ts. after = before @ ts \<and> length ts \<le> k
        \<and> (\<forall>t \<in> set ts. url_origin (web P) t \<in> for_protocol (allowed P) protocol))"

lemma contacted_refl: "contacted P protocol k l l"
  by (simp add: contacted_def)

lemma contacted_trans:
  "contacted P protocol j a b \<Longrightarrow> contacted P protocol k b d \<Longrightarrow> j + k \<le> m \<Longrightarrow> contacted P protocol m a d"
  by (fastforce simp: contacted_def)

lemma attempts_contact:
  assumes "url_origin (web P) target \<in> for_protocol (allowed P) protocol"
    and "attempts (recording_get reply) target hs a w = (x, w')"
  shows "contacted P protocol (3 - a) (upstream_web w) (upstream_web w')"
  using assms(2)
proof (induction "3 - a" arbitrary: a w)
  case 0
  then show ?case by (simp add: attempts.simps throw_def contacted_refl)
next
  case (Suc n)
  let ?w = "w\<lparr>upstream_web := upstream_web w @ [target]\<rparr>"
  have one: "contacted P protocol 1 (upstream_web w) (upstream_web ?w)" using assms(1) by (simp add: contacted_def)
  have "w' = ?w \<or> attempts (recording_get reply) target hs (a + 1) ?w = (x, w')"
    using Suc.prems Suc.hyps(2)
    by (subst (asm) attempts.simps) (auto simp: recording_get_def split: sum.splits if_splits)
  then show ?case
  proof
    assume "w' = ?w"
    then show ?thesis using contacted_trans [OF one contacted_refl, of 0 "3 - a"] Suc.hyps(2) by simp
  next
    assume "attempts (recording_get reply) target hs (a + 1) ?w = (x, w')"
    then have "contacted P protocol (3 - (a + 1)) (upstream_web ?w) (upstream_web w')"
      using Suc.hyps by (intro Suc.hyps(1)) simp_all
    from contacted_trans [OF one this, of "3 - a"] Suc.hyps(2) show ?thesis by simp
  qed
qed

lemma check_origin_ok: "check_origin P protocol u = Inr y \<Longrightarrow> url_origin (web P) u \<in> for_protocol (allowed P) protocol"
  by (simp add: check_origin_def contains_origin_def split: if_splits Origin.splits)

lemma follow_contact:
  assumes "url_origin (web P) target \<in> for_protocol (allowed P) protocol"
    and "follow P (recording_get reply) protocol hs hops target w = (x, w')"
  shows "contacted P protocol (3 * hops) (upstream_web w) (upstream_web w')"
  using assms
proof (induction hops arbitrary: target w)
  case 0
  then show ?case by (simp add: throw_def contacted_refl)
next
  case (Suc hops)
  obtain y w1 where att: "attempts (recording_get reply) target hs 0 w = (y, w1)" by (meson surj_pair)
  have first: "contacted P protocol 3 (upstream_web w) (upstream_web w1)"
    using attempts_contact [OF Suc.prems(1) att] by simp
  have "w' = w1 \<or> (\<exists>u. url_origin (web P) u \<in> for_protocol (allowed P) protocol
      \<and> follow P (recording_get reply) protocol hs hops u w1 = (x, w'))"
  proof (cases y)
    case (Inl e)
    then show ?thesis using Suc.prems(2) att by (simp add: and_then_def)
  next
    case (Inr r)
    then show ?thesis using Suc.prems(2) att
      by (auto simp: and_then_def act_defs check_origin_ok split: if_splits option.splits sum.splits)
  qed
  then show ?case
  proof (elim disjE exE conjE)
    assume "w' = w1"
    then show ?thesis using contacted_trans [OF first contacted_refl, of 0 "3 * Suc hops"] by simp
  next
    fix u assume "url_origin (web P) u \<in> for_protocol (allowed P) protocol"
      and "follow P (recording_get reply) protocol hs hops u w1 = (x, w')"
    then have "contacted P protocol (3 * hops) (upstream_web w1) (upstream_web w')" by (rule Suc.IH)
    from contacted_trans [OF first this, of "3 * Suc hops"] show ?thesis by simp
  qed
qed

section \<open>What each part of the proxy's world depends on\<close>

text \<open>
  Calls of the cache touch the shard only and sends the client's state only; the lock of a
  key and the permit are taken and given back around them. \<open>leads\<close> follows a predicate that
  changes once, when the request is sent.
\<close>

definition leads :: "('s \<Rightarrow> bool) \<Rightarrow> ('s, 'e, 'a) act \<Rightarrow> ('s \<Rightarrow> bool) \<Rightarrow> bool" where
  "leads A m B \<longleftrightarrow> (\<forall>s x t. A s \<longrightarrow> m s = (x, t) \<longrightarrow> B t)"

lemma leads_keeps: "keeps A m \<Longrightarrow> (\<And>s. A s \<Longrightarrow> B s) \<Longrightarrow> leads A m B"
  by (auto simp: leads_def dest: keepsD)

lemma leads_snd: "leads A m B \<Longrightarrow> A s \<Longrightarrow> B (snd (m s))"
  by (cases "m s") (auto simp: leads_def)

lemma leads_first:
  assumes "keeps A m" and "\<And>s. A s \<Longrightarrow> B s" and "\<And>x. leads A (f x) B"
  shows "leads A (and_then m f) B"
  unfolding leads_def
proof (intro allI impI)
  fix s x t assume "A s" and "and_then m f s = (x, t)"
  then show "B t" using assms by (auto simp: and_then_def leads_def keeps_def split: prod.splits sum.splits)
qed

lemma leads_then:
  assumes "leads A m B" and "\<And>x. keeps B (f x)"
  shows "leads A (and_then m f) B"
  unfolding leads_def
proof (intro allI impI)
  fix s x t assume "A s" and "and_then m f s = (x, t)"
  then show "B t" using assms(1) keepsD [OF assms(2)]
    by (auto simp: and_then_def leads_def split: prod.splits sum.splits)
qed

lemma keeps_web_cache: "keeps (\<lambda>w. Q (upstream_web w) (permits w) (flights w)) (cache_call m)"
  by (rule keepsI) (auto simp: cache_call_def split: prod.splits sum.splits)

lemma keeps_node_cache: "keeps N m \<Longrightarrow> keeps (\<lambda>w. N (shard_node w)) (cache_call m)"
  by (rule keepsI) (auto simp: cache_call_def dest: keepsD split: prod.splits sum.splits)

lemma keeps_attempts: "keeps (\<lambda>w. Q (shard_node w) (permits w) (flights w)) (attempts get target hs a)"
proof (induction "3 - a" arbitrary: a)
  case 0
  then show ?case by (subst attempts.simps) (simp add: keeps_throw)
next
  case (Suc n)
  show ?case
  proof (rule keepsI)
    fix w x w' assume Q: "Q (shard_node w) (permits w) (flights w)" and run: "attempts get target hs a w = (x, w')"
    have IH: "keeps (\<lambda>w. Q (shard_node w) (permits w) (flights w)) (attempts get target hs (a + 1))"
      using Suc.hyps by (intro Suc.hyps(1)) simp
    obtain y v where "get target hs (upstream_web w) = (y, v)" by (meson surj_pair)
    then have "w' = w\<lparr>upstream_web := v\<rparr> \<or> attempts get target hs (a + 1) (w\<lparr>upstream_web := v\<rparr>) = (x, w')"
      using run Suc.hyps(2) by (subst (asm) attempts.simps) (auto split: sum.splits if_splits)
    then show "Q (shard_node w') (permits w') (flights w')"
      using Q keepsD [OF IH, of "w\<lparr>upstream_web := v\<rparr>" x w'] by auto
  qed
qed

lemma keeps_follow: "keeps (\<lambda>w. Q (shard_node w) (permits w) (flights w)) (follow P get protocol hs hops target)"
  by (induction hops arbitrary: target) (auto intro!: act_keeps keeps_attempts simp: Option.bind_def split: option.splits)

lemma attempts_response:
  "attempts get target hs a w = (Inr r, w') \<Longrightarrow> \<exists>v v'. get target hs v = (Inr r, v')"
proof (induction "3 - a" arbitrary: a w)
  case 0
  then show ?case by (subst (asm) attempts.simps) (simp add: throw_def)
next
  case (Suc n)
  then show ?case
    by (subst (asm) (2) attempts.simps) (force split: prod.splits sum.splits if_splits)
qed

lemma follow_response:
  "follow P get protocol hs hops target w = (Inr r, w') \<Longrightarrow> \<exists>u v v'. get u hs v = (Inr r, v')"
proof (induction hops arbitrary: target w)
  case (Suc hops)
  then show ?case
    by (auto simp: and_then_def act_defs split: prod.splits sum.splits if_splits option.splits dest!: attempts_response)
qed (simp add: throw_def)

lemmas web_keeps = act_keeps keeps_web_cache

lemma keeps_web_cached: "keeps (\<lambda>w. Q (upstream_web w) (permits w) (flights w)) (cached_outcome P ch a u t)"
  unfolding cached_outcome_def by (intro web_keeps)

lemma keeps_web_fresh: "keeps (\<lambda>w. Q (upstream_web w) (permits w) (flights w)) (fresh_outcome P ch rec u t)"
  unfolding fresh_outcome_def proxy_now_def by (intro web_keeps keeps_web_cached)

lemma keeps_web_revalidated: "keeps (\<lambda>w. Q (upstream_web w) (permits w) (flights w)) (revalidated P ch rf rec u t)"
  unfolding revalidated_def by (intro web_keeps keeps_web_cached)

lemma keeps_web_metadata: "keeps (\<lambda>w. Q (upstream_web w) (permits w) (flights w)) (serve_metadata P ch mp)"
  unfolding serve_metadata_def
  by (intro web_keeps) (auto split: sum.splits ProxyError.splits CacheError.splits LocalError.splits intro!: web_keeps)

lemma keeps_web_store: "keeps (\<lambda>w. Q (upstream_web w) (permits w) (flights w)) (store_response P ch rf u t r)"
  unfolding store_response_def Let_def
  by (intro web_keeps keeps_web_metadata) (auto split: Admission.splits intro!: web_keeps)

section \<open>Fetching\<close>

lemma leads_case: "leads A m B \<Longrightarrow> (\<And>x. leads A (f x) B) \<Longrightarrow> leads A (case y of None \<Rightarrow> m | Some x \<Rightarrow> f x) B"
  by (cases y) simp_all

lemma leads_permit:
  assumes "leads (\<lambda>w. A (upstream_web w)) m (\<lambda>w. B (upstream_web w))" and "\<And>v. A v \<Longrightarrow> B v"
  shows "leads (\<lambda>w. A (upstream_web w)) (with_permit m) (\<lambda>w. B (upstream_web w))"
  unfolding leads_def
proof (intro allI impI)
  fix s x t assume s: "A (upstream_web s)" and run: "with_permit m s = (x, t)"
  obtain y w where m: "m (s\<lparr>permits := permits s - 1\<rparr>) = (y, w)" by (meson surj_pair)
  have "A (upstream_web (s\<lparr>permits := permits s - 1\<rparr>))" using s by simp
  with assms(1) m have "B (upstream_web w)" unfolding leads_def by blast
  with run m assms(2) [OF s] show "B (upstream_web t)" by (auto simp: with_permit_def split: if_splits)
qed

lemma leads_flight:
  assumes "leads (\<lambda>w. A (upstream_web w)) m (\<lambda>w. B (upstream_web w))"
  shows "leads (\<lambda>w. A (upstream_web w)) (in_flight key m) (\<lambda>w. B (upstream_web w))"
  unfolding leads_def
proof (intro allI impI)
  fix s x t assume s: "A (upstream_web s)" and run: "in_flight key m s = (x, t)"
  obtain y w where m: "m (s\<lparr>flights := enter_flight key (flights s)\<rparr>) = (y, w)" by (meson surj_pair)
  have "A (upstream_web (s\<lparr>flights := enter_flight key (flights s)\<rparr>))" using s by simp
  with assms m have "B (upstream_web w)" unfolding leads_def by blast
  with run m show "B (upstream_web t)" by (auto simp: in_flight_def)
qed

lemma fetch_url_contact:
  assumes "url_origin (web P) u \<in> for_protocol (allowed P) protocol"
  shows "leads (\<lambda>w. upstream_web w = l) (fetch_url P (recording_get reply) ch protocol u t)
    (\<lambda>w. contacted P protocol 18 l (upstream_web w))"
proof -
  let ?A = "\<lambda>w. upstream_web w = l" and ?B = "\<lambda>w. contacted P protocol 18 l (upstream_web w)"
  have AB: "?A w \<Longrightarrow> ?B w" for w by (simp add: contacted_refl)
  have A: "keeps ?A (cache_call m)" for m :: "(('d, 'f) node, CacheError, 'x) act"
    by (rule keeps_web_cache [of "\<lambda>v _ _. v = l"])
  have F: "keeps ?A (fresh_outcome P ch rec u t)" for rec by (rule keeps_web_fresh [of "\<lambda>v _ _. v = l"])
  have B: "keeps ?B (revalidated P ch rf rec u t)" for rf rec
    by (rule keeps_web_revalidated [of "\<lambda>v _ _. contacted P protocol 18 l v"])
  have B': "keeps ?B (store_response P ch rf u t r)" for rf r
    by (rule keeps_web_store [of "\<lambda>v _ _. contacted P protocol 18 l v"])
  have send: "leads ?A (send_validated P (recording_get reply) protocol u rec acc) ?B" for rec acc
    using follow_contact [OF assms] by (fastforce simp: leads_def send_validated_def redirect_hop_limit_def)
  note permit = leads_permit [where A = "\<lambda>v. v = l" and B = "contacted P protocol 18 l"]
    and flight = leads_flight [where A = "\<lambda>v. v = l" and B = "contacted P protocol 18 l"]
  have sent: "leads ?A (with_permit (and_then (send_validated P (recording_get reply) protocol u rec acc) (\<lambda>response.
      if resp_status response = 304 then revalidated P ch rf rec u t else store_response P ch rf u t response))) ?B"
    for rec acc rf
    by (rule permit, rule leads_then [OF send], rule keeps_if [OF B B'], simp add: contacted_refl)
  show ?thesis unfolding fetch_url_def Let_def
    by (intro leads_first leads_case A F AB flight sent leads_keeps [OF keeps_ok])
qed

text \<open>The lock of a key and the permit are given back on every path.\<close>

definition flights_ok :: "(string \<rightharpoonup> nat) \<Rightarrow> bool" where
  "flights_ok fl \<longleftrightarrow> (\<forall>key. fl key \<noteq> Some 0)"

lemma drop_enter: "flights_ok fl \<Longrightarrow> drop_flight key (enter_flight key fl) = fl"
proof (rule ext)
  fix k assume "flights_ok fl"
  then have "fl key \<noteq> Some 0" by (simp add: flights_ok_def)
  then show "drop_flight key (enter_flight key fl) k = fl k"
    by (cases "fl key") (auto simp: drop_flight_def enter_flight_def)
qed

definition held :: "nat \<Rightarrow> (string \<rightharpoonup> nat) \<Rightarrow> ('d, 'f, 'w) proxy_world \<Rightarrow> bool" where
  "held p fl w \<longleftrightarrow> permits w = p \<and> flights w = fl"

lemma keeps_held:
  "keeps (held p fl) (cache_call m)" "keeps (held p fl) (fresh_outcome P ch rec u t)"
  "keeps (held p fl) (revalidated P ch rf rec u t)" "keeps (held p fl) (store_response P ch rf u t r)"
  "keeps (held p fl) (send_validated P get protocol u rec acc)"
  unfolding held_def send_validated_def
  by (rule keeps_web_cache [of "\<lambda>_ p' fl'. p' = p \<and> fl' = fl"] keeps_web_fresh [of "\<lambda>_ p' fl'. p' = p \<and> fl' = fl"]
      keeps_web_revalidated [of "\<lambda>_ p' fl'. p' = p \<and> fl' = fl"] keeps_web_store [of "\<lambda>_ p' fl'. p' = p \<and> fl' = fl"]
      keeps_follow [of "\<lambda>_ p' fl'. p' = p \<and> fl' = fl"])+

lemma keeps_held_permit:
  assumes "\<And>p. keeps (held p fl) m"
  shows "keeps (held p fl) (with_permit m)"
proof (rule keepsI)
  fix w x w' assume w: "held p fl w" and run: "with_permit m w = (x, w')"
  obtain y v where m: "m (w\<lparr>permits := permits w - 1\<rparr>) = (y, v)" by (meson surj_pair)
  have "held (p - 1) fl (w\<lparr>permits := permits w - 1\<rparr>)" using w by (simp add: held_def)
  from keepsD [OF assms this m] run m w show "held p fl w'" by (auto simp: held_def with_permit_def split: if_splits)
qed

lemma keeps_held_flight:
  assumes "flights_ok fl" and "\<And>fl. keeps (held p fl) m"
  shows "keeps (held p fl) (in_flight key m)"
proof (rule keepsI)
  fix w x w' assume w: "held p fl w" and run: "in_flight key m w = (x, w')"
  obtain y v where m: "m (w\<lparr>flights := enter_flight key (flights w)\<rparr>) = (y, v)" by (meson surj_pair)
  have "held p (enter_flight key fl) (w\<lparr>flights := enter_flight key (flights w)\<rparr>)" using w by (simp add: held_def)
  from keepsD [OF assms(2) this m] run m drop_enter [OF assms(1)] show "held p fl w'"
    by (auto simp: held_def in_flight_def)
qed

lemma fetch_url_held: "flights_ok fl \<Longrightarrow> keeps (held p fl) (fetch_url P get ch protocol u t)"
  unfolding fetch_url_def Let_def
  by (intro act_keeps keeps_held keeps_held_flight keeps_held_permit) assumption+

text \<open>Whatever the order in which requests come and go, the map holds exactly the keys in flight.\<close>

lemma flights_count:
  assumes "\<forall>n. (\<forall>k. length (filter (\<lambda>e. e = (False, k)) (take n es)) \<le> length (filter (\<lambda>e. e = (True, k)) (take n es)))"
  shows "fold (\<lambda>(enter, key). if enter then enter_flight key else drop_flight key) es Map.empty =
    (\<lambda>k. let n = length (filter (\<lambda>e. e = (True, k)) es) - length (filter (\<lambda>e. e = (False, k)) es)
         in if n = 0 then None else Some n)"
  using assms
proof (induction es rule: rev_induct)
  case (snoc e es)
  let ?in = "\<lambda>k. length (filter (\<lambda>e. e = (True, k)) es)" and ?out = "\<lambda>k. length (filter (\<lambda>e. e = (False, k)) es)"
  have IH: "fold (\<lambda>(enter, key). if enter then enter_flight key else drop_flight key) es Map.empty =
      (\<lambda>k. let n = ?in k - ?out k in if n = 0 then None else Some n)"
  proof (rule snoc.IH, intro allI)
    fix n k show "length (filter (\<lambda>e. e = (False, k)) (take n es)) \<le> length (filter (\<lambda>e. e = (True, k)) (take n es))"
      using snoc.prems [rule_format, of k "min n (length es)"] by (simp add: min_def split: if_splits)
  qed
  obtain b key where e: "e = (b, key)" by (cases e)
  have all: "?out k + (if \<not> b \<and> key = k then 1 else 0) \<le> ?in k + (if b \<and> key = k then 1 else 0)" for k
    using snoc.prems [rule_format, of k "Suc (length es)"] e by (auto split: if_splits)
  have le: "?out k \<le> ?in k" for k
    using snoc.prems [rule_format, of k "length es"] by simp
  show ?case
    using IH le [of key] all [of key] by (cases b) (auto simp: e Let_def enter_flight_def drop_flight_def fun_eq_iff)
qed simp

section \<open>The shard under the proxy\<close>

text \<open>Bodies and their chunks are shorter than the address space.\<close>

definition body_fits :: "body_stream \<Rightarrow> bool" where
  "body_fits stream \<longleftrightarrow> sum_list (map (\<lambda>c. case c of Inr chunk \<Rightarrow> length chunk | Inl _ \<Rightarrow> 0) stream) < 2 ^ 64"

lemma body_chunks: "body_fits stream \<Longrightarrow> chunks_fit stream"
proof -
  let ?len = "\<lambda>c :: string + bytes. case c of Inr chunk \<Rightarrow> length chunk | Inl _ \<Rightarrow> 0"
  assume fits: "body_fits stream"
  have "length chunk \<le> sum_list (map ?len stream)" if "Inr chunk \<in> set stream" for chunk
    using member_le_sum_list [of "length chunk" "map ?len stream"] that by force
  with fits show ?thesis unfolding body_fits_def chunks_fit_def by (meson le_less_trans)
qed

lemma collected_fits:
  "collect_body stream = Inr raw \<Longrightarrow> length raw = sum_list (map (\<lambda>c. case c of Inr chunk \<Rightarrow> length chunk | Inl _ \<Rightarrow> 0) stream)"
  by (induction stream arbitrary: raw rule: collect_body.induct) (auto simp: bind_sum_def split: sum.splits)

definition get_fits :: "'w getter \<Rightarrow> bool" where
  "get_fits get \<longleftrightarrow> (\<forall>u hs v r v'. get u hs v = (Inr r, v') \<longrightarrow> body_fits (resp_body r))"

abbreviation shard_ok :: "('d, 'f) ProxyService \<Rightarrow> nat \<Rightarrow> ('d, 'f, 'w) proxy_world \<Rightarrow> bool" where
  "shard_ok P k w \<equiv> node_ok (cache P) k (shard_node w)"

lemma keeps_shard_draw: "keeps (shard_ok P k) (proxy_now P)"
  unfolding proxy_now_def by (rule keeps_node_cache) (rule keeps_draw)

lemma keeps_shard_cached: "env_ok (cache P) \<Longrightarrow> keeps (shard_ok P k) (cached_outcome P ch a u t)"
  unfolding cached_outcome_def by (intro act_keeps keeps_node_cache keeps_locate)

lemma keeps_shard_fresh: "env_ok (cache P) \<Longrightarrow> keeps (shard_ok P k) (fresh_outcome P ch rec u t)"
  unfolding fresh_outcome_def by (intro act_keeps keeps_shard_draw keeps_shard_cached)

lemma keeps_shard_revalidated: "env_ok (cache P) \<Longrightarrow> keeps (shard_ok P k) (revalidated P ch rf rec u t)"
  unfolding revalidated_def by (intro act_keeps keeps_node_cache keeps_bind keeps_shard_cached)

lemma keeps_shard_metadata:
  "env_ok (cache P) \<Longrightarrow> length (mp_raw mp) < 2 ^ 64 \<Longrightarrow> keeps (shard_ok P k) (serve_metadata P ch mp)"
  unfolding serve_metadata_def
  by (intro act_keeps keeps_node_cache keeps_publish)
    (auto simp: chunks_fit_def split: sum.splits ProxyError.splits CacheError.splits LocalError.splits
      intro!: act_keeps keeps_node_cache keeps_bind)

lemma keeps_shard_store:
  assumes env: "env_ok (cache P)" and fits: "body_fits (resp_body r)"
  shows "keeps (shard_ok P k) (store_response P ch rf u t r)"
proof -
  have meta: "keeps (shard_ok P k) (and_then (lift_result (collect_body (resp_body r))) (\<lambda>raw.
      and_then (lift_result (rewrite_metadata P u t raw)) (\<lambda>rewritten. serve_metadata P ch (mp raw rewritten))))"
    if "\<And>raw rewritten. mp_raw (mp raw rewritten) = raw" for mp
  proof (cases "collect_body (resp_body r)")
    case (Inr raw)
    then have "length raw < 2 ^ 64" using collected_fits [OF Inr] fits by (simp add: body_fits_def)
    then have "keeps (shard_ok P k) (and_then (lift_result (rewrite_metadata P u t raw)) (\<lambda>rewritten. serve_metadata P ch (mp raw rewritten)))"
      using env that by (intro act_keeps keeps_shard_metadata) simp_all
    then show ?thesis by (simp add: Inr lift_result_def and_then_def keeps_def)
  qed (simp add: lift_result_def and_then_def keeps_def)
  show ?thesis unfolding store_response_def Let_def
    by (intro act_keeps meta keeps_node_cache keeps_publish_or_reject env)
      (auto simp: body_chunks [OF fits] split: Admission.splits intro!: act_keeps keeps_node_cache keeps_bind)
qed

lemma keeps_result:
  assumes "keeps A m" and "\<And>s x t. m s = (Inr x, t) \<Longrightarrow> keeps A (f x)"
  shows "keeps A (and_then m f)"
proof (rule keepsI)
  fix s r t assume "A s" and "and_then m f s = (r, t)"
  then show "A t" using keepsD [OF assms(1), of s] keepsD [OF assms(2)]
    by (fastforce simp: and_then_def split: prod.splits sum.splits)
qed

lemma keeps_shard_permit: "keeps (\<lambda>w. N (shard_node w)) m \<Longrightarrow> keeps (\<lambda>w. N (shard_node w)) (with_permit m)"
proof (rule keepsI)
  fix w x w' assume m: "keeps (\<lambda>w. N (shard_node w)) m" and "N (shard_node w)" "with_permit m w = (x, w')"
  then show "N (shard_node w')" using keepsD [OF m, of "w\<lparr>permits := permits w - 1\<rparr>"]
    by (auto simp: with_permit_def split: if_splits prod.splits)
qed

lemma keeps_shard_flight: "keeps (\<lambda>w. N (shard_node w)) m \<Longrightarrow> keeps (\<lambda>w. N (shard_node w)) (in_flight key m)"
proof (rule keepsI)
  fix w x w' assume m: "keeps (\<lambda>w. N (shard_node w)) m" and "N (shard_node w)" "in_flight key m w = (x, w')"
  then show "N (shard_node w')" using keepsD [OF m, of "w\<lparr>flights := enter_flight key (flights w)\<rparr>"]
    by (auto simp: in_flight_def split: prod.splits)
qed

lemma fetch_url_shard:
  assumes env: "env_ok (cache P)" and fits: "get_fits get"
  shows "keeps (shard_ok P k) (fetch_url P get ch protocol u t)"
proof -
  have sent: "keeps (shard_ok P k) (and_then (send_validated P get protocol u rec acc) (\<lambda>response.
      if resp_status response = 304 then revalidated P ch rf rec u t else store_response P ch rf u t response))" for rec acc rf
  proof (rule keeps_result)
    show "keeps (shard_ok P k) (send_validated P get protocol u rec acc)"
      unfolding send_validated_def by (rule keeps_follow [of "\<lambda>n _ _. node_ok (cache P) k n"])
    fix s r w assume "send_validated P get protocol u rec acc s = (Inr r, w)"
    then have "body_fits (resp_body r)"
      using follow_response fits unfolding send_validated_def get_fits_def by blast
    then show "keeps (shard_ok P k) (if resp_status r = 304 then revalidated P ch rf rec u t else store_response P ch rf u t r)"
      using env by (intro keeps_if keeps_shard_revalidated keeps_shard_store)
  qed
  show ?thesis unfolding fetch_url_def Let_def
    by (intro act_keeps keeps_node_cache keeps_resolve keeps_shard_fresh keeps_shard_flight keeps_shard_permit sent env)
qed

section \<open>What is fetched stays cached\<close>

definition bound_to :: "('d, 'f) ProxyService \<Rightarrow> ChannelId \<Rightarrow> string \<Rightarrow> ArtifactId \<Rightarrow> ('d, 'f, 'w) proxy_world \<Rightarrow> bool" where
  "bound_to P ch rf a w \<longleftrightarrow>
     (\<exists>r. references (view (cache P) (shard_node w)) (ch, rf) = Some r \<and> ref_artifact r = a)"

lemma node_valid: "node_ok S k n \<Longrightarrow> valid S n"
  by (simp add: node_ok_def stored_ok_def db_good_def)

lemma and_then_success:
  "and_then m f s = (Inr y, u) \<longleftrightarrow> (\<exists>x t. m s = (Inr x, t) \<and> f x t = (Inr y, u))"
  by (auto simp: and_then_def split: prod.splits sum.splits)

lemma cache_call_E:
  assumes "cache_call m w = (x, w')"
  obtains y n where "m (shard_node w) = (y, n)" "w' = w\<lparr>shard_node := n\<rparr>"
    "x = (case y of Inl e \<Rightarrow> Inl (ProxyCache e) | Inr v \<Rightarrow> Inr v)"
  using assms by (auto simp: cache_call_def split: prod.splits sum.splits)

lemma resolve_found:
  assumes "shard_ok P k w" and "cache_call (resolve_reference (cache P) ch rf) w = (Inr found, w')"
  shows "shard_ok P k w' \<and> found = references (view (cache P) (shard_node w')) (ch, rf)
    \<and> found = references (view (cache P) (shard_node w)) (ch, rf)
    \<and> draws (shard_node w') = draws (shard_node w) \<and> upstream_web w' = upstream_web w"
  using assms(2)
proof (rule cache_call_E)
  fix y n assume run: "resolve_reference (cache P) ch rf (shard_node w) = (y, n)" and w': "w' = w\<lparr>shard_node := n\<rparr>"
    and y: "Inr found = (case y of Inl e \<Rightarrow> Inl (ProxyCache e) | Inr v \<Rightarrow> Inr v)"
  have "y = Inr found" using y by (simp split: sum.splits)
  with metadata_call_effect [OF rocksdb.get_ref node_valid [OF assms(1)] run [unfolded resolve_reference_def]]
    keepsD [OF keeps_resolve assms(1) run]
  show ?thesis using w' by auto
qed

lemma bind_found:
  fixes P :: "('d, 'f) ProxyService"
  assumes "shard_ok P k w" and "cache_call (bind_reference_with_validators (cache P) ch rf a tg md dur) w = (Inr y, w')"
  shows "bound_to P ch rf a w'"
  using assms(2)
proof (rule cache_call_E)
  fix x n assume run: "bind_reference_with_validators (cache P) ch rf a tg md dur (shard_node w) = (x, n)"
    and w': "w' = w\<lparr>shard_node := n\<rparr>" and x: "Inr y = (case x of Inl e \<Rightarrow> Inl (ProxyCache e) | Inr v \<Rightarrow> Inr v)"
  then have "bind_reference_with_validators (cache P) ch rf a tg md dur (shard_node w) = (Inr y, n)"
    by (auto split: sum.splits)
  then obtain e n1 n2 now where fence: "channel_fence (cache P) ch (shard_node w) = (Inr e, n1)"
    and n2: "(draw (clock_at (cache P)) :: (('d, 'f) node, CacheError, u64) act) n1 = (Inr now, n2)"
    and bind: "metadata_call (store_bind_reference (ids (cache P)) (meta (cache P)) ch rf
       \<lparr>ref_artifact = a, updated_at = now, etag = tg, last_modified = md\<rparr> dur) n2 = (Inr y, n)"
    unfolding bind_reference_with_validators_def and_then_success by (elim exE conjE) (rule that; assumption)
  have "valid (cache P) n1" using keepsD [OF keeps_fence assms(1) fence] by (rule node_valid)
  then have "valid (cache P) n2" using n2 by (auto simp: draw_def)
  from metadata_call_effect [OF rocksdb.bind_ref this bind] show ?thesis
    by (auto simp: bound_to_def w' a_bind_def)
qed

lemma fresh_direct:
  assumes "fresh_outcome P ch rec u No_transform w = (Inr x, w')"
  shows "(x = None \<or> (\<exists>r. rec = Some r \<and> x = Some (Artifact (ref_artifact r))))
    \<and> db (shard_node w') = db (shard_node w) \<and> upstream_web w' = upstream_web w"
  using assms
  by (auto simp: fresh_outcome_def proxy_now_def cached_outcome_def cache_call_def draw_def and_then_def act_defs
      split: option.splits if_splits)

lemma revalidated_bound:
  assumes "shard_ok P k w" and "revalidated P ch rf rec u No_transform w = (Inr (Artifact a), w')"
  shows "bound_to P ch rf a w'"
proof (cases rec)
  case (Some r)
  with assms(2) obtain y w1 where "cache_call (bind_reference_with_validators (cache P) ch rf (ref_artifact r) (etag r)
      (last_modified r) BestEffort) w = (Inr y, w1)" "w' = w1" "a = ref_artifact r"
    by (auto simp: revalidated_def cached_outcome_def ok_def elim!: and_then_E)
  with bind_found [OF assms(1)] show ?thesis by blast
qed (use assms(2) in \<open>simp add: revalidated_def throw_def\<close>)

lemma store_bound:
  assumes "env_ok (cache P)" and "body_fits (resp_body r)" and "shard_ok P k w"
    and "store_response P ch rf u No_transform r w = (Inr (Artifact a), w')"
  shows "bound_to P ch rf a w'"
proof -
  from assms(4) obtain adm w1 where pub: "cache_call (publish_or_reject (cache P)
      \<lparr>req_channel = ch, req_target = ContentAddressed None, req_content_type = header_string (resp_headers r) ''content-type'',
       req_stream = resp_body r, req_content_length = content_length (resp_headers r),
       req_durability = BestEffort, req_encoding = Identity\<rparr>) w = (Inr adm, w1)"
    and rest: "(case adm of
        AdmissionPublished publication \<Rightarrow>
          and_then (cache_call (bind_reference_with_validators (cache P) ch rf (pub_artifact publication)
              (header_string (resp_headers r) ''etag'') (header_string (resp_headers r) ''last-modified'') BestEffort))
            (\<lambda>_. ok (Artifact (pub_artifact publication)))
      | AdmissionRejected stream \<Rightarrow>
          ok (UpstreamStream (resp_status r) stream (header_string (resp_headers r) ''content-type''))) w1 = (Inr (Artifact a), w')"
    unfolding store_response_def Let_def
    by (cases "is_success (resp_status r)")
      (simp_all add: and_then_success [of "lift_result _"] and_then_success [of "cache_call _" _ w] ok_def [of "Upstream _ _ _"], blast)
  have "shard_ok P k w1"
    by (rule keepsD [OF keeps_node_cache [OF keeps_publish_or_reject [OF assms(1)]] assms(3) pub])
      (simp add: body_chunks [OF assms(2)])
  from bind_found [OF this] rest show ?thesis
    by (auto simp: ok_def split: Admission.splits elim!: and_then_E)
qed

lemma bound_to_frame [simp]:
  "bound_to P ch rf a (w\<lparr>flights := fl\<rparr>) = bound_to P ch rf a w" "bound_to P ch rf a (w\<lparr>permits := p\<rparr>) = bound_to P ch rf a w"
  by (simp_all add: bound_to_def)

lemma looked_up_bound:
  assumes "shard_ok P k w" and "cache_call (resolve_reference (cache P) ch rf) w = (Inr found, w1)"
    and "fresh_outcome P ch found u No_transform w1 = (Inr (Some (Artifact a)), w2)"
  shows "bound_to P ch rf a w2"
  using resolve_found [OF assms(1,2)] fresh_direct [OF assms(3)] by (auto simp: bound_to_def)

lemma fetched_bound:
  assumes env: "env_ok (cache P)" and fits: "get_fits get" and w: "shard_ok P k w"
    and run: "fetch_url P get ch protocol u No_transform w = (Inr (Artifact a), w')"
  shows "bound_to P ch (proxy_reference (ids (cache P)) protocol u []) a w'"
proof -
  let ?rf = "proxy_reference (ids (cache P)) protocol u []"
  let ?key = "ChannelId_display (ids (cache P)) ch @ '':'' @ ?rf"
  let ?send = "\<lambda>rec. and_then (send_validated P get protocol u rec None) (\<lambda>response.
      if resp_status response = 304 then revalidated P ch ?rf rec u No_transform else store_response P ch ?rf u No_transform response)"
  let ?inner = "and_then (cache_call (resolve_reference (cache P) ch ?rf)) (\<lambda>current.
      and_then (fresh_outcome P ch current u No_transform) (\<lambda>again.
        case again of Some outc \<Rightarrow> ok outc | None \<Rightarrow> with_permit (?send current)))"
  from run obtain cached fresh w1 w2 where l1: "cache_call (resolve_reference (cache P) ch ?rf) w = (Inr cached, w1)"
    and f1: "fresh_outcome P ch cached u No_transform w1 = (Inr fresh, w2)"
    and rest: "(case fresh of Some outc \<Rightarrow> ok outc | None \<Rightarrow> in_flight ?key ?inner) w2 = (Inr (Artifact a), w')"
    unfolding fetch_url_def Let_def cache_variant.simps upstream_accept.simps and_then_success [of _ _ w]
      and_then_success [of "fresh_outcome _ _ _ _ _"]
    by (elim exE conjE) (rule that; assumption)
  have w1: "shard_ok P k w1" using resolve_found [OF w l1] by blast
  have w2: "shard_ok P k w2" by (rule keepsD [OF keeps_shard_fresh [OF env] w1 f1])
  show ?thesis
  proof (cases fresh)
    case (Some outc)
    with rest f1 show ?thesis using looked_up_bound [OF w l1] by (auto simp: ok_def)
  next
    case None
    let ?w2 = "w2\<lparr>flights := enter_flight ?key (flights w2)\<rparr>"
    have w2': "shard_ok P k ?w2" using w2 by simp
    from rest None obtain w3 where inner: "?inner ?w2 = (Inr (Artifact a), w3)" and w': "w' = w3\<lparr>flights := drop_flight ?key (flights w3)\<rparr>"
      by (auto simp: in_flight_def split: prod.splits)
    from inner obtain current again w4 w5 where l2: "cache_call (resolve_reference (cache P) ch ?rf) ?w2 = (Inr current, w4)"
      and f2: "fresh_outcome P ch current u No_transform w4 = (Inr again, w5)"
      and rest2: "(case again of Some outc \<Rightarrow> ok outc | None \<Rightarrow> with_permit (?send current)) w5 = (Inr (Artifact a), w3)"
      unfolding and_then_success by blast
    have w4: "shard_ok P k w4" using resolve_found [OF w2' l2] by blast
    have w5: "shard_ok P k w5" by (rule keepsD [OF keeps_shard_fresh [OF env] w4 f2])
    have "bound_to P ch ?rf a w3"
    proof (cases again)
      case (Some outc)
      with rest2 f2 show ?thesis using looked_up_bound [OF w2' l2] by (auto simp: ok_def)
    next
      case None
      from rest2 None obtain w6 where sent: "?send current (w5\<lparr>permits := permits w5 - 1\<rparr>) = (Inr (Artifact a), w6)"
        and w3: "w3 = w6\<lparr>permits := permits w6 + 1\<rparr>"
        by (auto simp: with_permit_def split: prod.splits if_splits)
      from sent obtain r w7 where s: "send_validated P get protocol u current None (w5\<lparr>permits := permits w5 - 1\<rparr>) = (Inr r, w7)"
        and out: "(if resp_status r = 304 then revalidated P ch ?rf current u No_transform else store_response P ch ?rf u No_transform r) w7
          = (Inr (Artifact a), w6)"
        unfolding and_then_success by blast
      have "shard_ok P k (w5\<lparr>permits := permits w5 - 1\<rparr>)" using w5 by simp
      then have w7: "shard_ok P k w7"
        using keepsD [OF keeps_follow [of "\<lambda>n _ _. node_ok (cache P) k n"] _ s [unfolded send_validated_def]] by simp
      have "body_fits (resp_body r)"
        using follow_response [OF s [unfolded send_validated_def]] fits unfolding get_fits_def by blast
      then have "bound_to P ch ?rf a w6"
        using out revalidated_bound [OF w7] store_bound [OF env _ w7] by (auto split: if_splits)
      then show ?thesis by (simp add: w3)
    qed
    then show ?thesis by (simp add: w')
  qed
qed

lemma refetched:
  assumes w: "shard_ok P k w" and r: "references (view (cache P) (shard_node w)) (ch, proxy_reference (ids (cache P)) protocol u []) = Some r"
    and fresh: "saturating_sub (clock_at (cache P) (draws (shard_node w))) (updated_at r) < ttl P"
    and run: "fetch_url P get ch protocol u No_transform w = (x, w')"
  shows "upstream_web w' = upstream_web w \<and> (x = Inr (Artifact (ref_artifact r)) \<or> (\<exists>e. x = Inl (ProxyCache e)))"
proof -
  let ?rf = "proxy_reference (ids (cache P)) protocol u []"
  obtain y w1 where y: "cache_call (resolve_reference (cache P) ch ?rf) w = (y, w1)" by (meson surj_pair)
  show ?thesis
  proof (cases y)
    case (Inl e)
    have "upstream_web w1 = upstream_web w" "\<exists>e'. e = ProxyCache e'"
      using y Inl by (auto elim!: cache_call_E split: sum.splits)
    then show ?thesis using run y Inl by (auto simp: fetch_url_def Let_def and_then_def)
  next
    case (Inr found)
    from resolve_found [OF w y [unfolded Inr]] have "found = Some r" "draws (shard_node w1) = draws (shard_node w)"
      "upstream_web w1 = upstream_web w" using r by auto
    then show ?thesis using run y Inr fresh
      by (auto simp: fetch_url_def Let_def and_then_def fresh_outcome_def proxy_now_def cached_outcome_def
          cache_call_def draw_def act_defs)
  qed
qed

section \<open>A concrete proxy\<close>

definition demo_chars :: "bytes \<Rightarrow> string" where
  "demo_chars bs = map (\<lambda>b. char_of (unat b)) bs"

definition demo_url :: "string \<Rightarrow> string + Url" where
  "demo_url s = (if list_all (\<lambda>x. (of_char x :: nat) < 128) s then Inr (Url s) else Inl ''not ASCII'')"

definition demo_web :: web_crates where
  "demo_web =
     \<lparr>url_parse = demo_url, url_join = (\<lambda>base p. demo_url p), url_origin = (\<lambda>_. Tuple ''https'' ''host'' 443),
      url_scheme = (\<lambda>_. ''https''), url_username = (\<lambda>u. if starts_with ''user@'' (as_str u) then ''user'' else []), url_password = (\<lambda>_. None),
      url_path = (\<lambda>u. as_str u), url_set_path = (\<lambda>_ p. Url p), url_fragment = (\<lambda>_. None),
      url_without_fragment = (\<lambda>u. u), url_make_relative = (\<lambda>_ _. None),
      base64_encode = demo_chars, base64_decode = (\<lambda>s. Some (str_bytes s)),
      json_from_slice = (\<lambda>bs. Inr (String (demo_chars bs))), json_to_vec = (\<lambda>_. Inr []),
      decode_html_entities = (\<lambda>s. s), rewrite_links = (\<lambda>_ s. Inr s)\<rparr>"

definition demo_origins :: AllowedOrigins where
  "demo_origins =
     (let o' = {Tuple ''https'' ''host'' 443}
      in \<lparr>allowed_go = o', allowed_python = o', allowed_npm = o', allowed_cargo_index = o', allowed_cargo_crate = o'\<rparr>)"

definition demo_proxy :: "(demo_db, demo_disk) ProxyService" where
  "demo_proxy =
     \<lparr>cache = demo_service, web = demo_web,
      bases = \<lparr>base_go = Url ''b'', base_python = Url ''b'', base_npm = Url ''b'', base_cargo_index = Url ''b'', base_cargo_crate = Url ''b''\<rparr>,
      allowed = demo_origins, ttl = 300, permit_limit = 4\<rparr>"

definition demo_get :: "Url list getter" where
  "demo_get = recording_get (\<lambda>_ _ _. Inl \<lparr>is_connect = True, is_timeout = False\<rparr>)"

lemma demo_get_fits: "get_fits demo_get"
  by (simp add: get_fits_def demo_get_def recording_get_def)

definition demo_bound_name :: string where
  "demo_bound_name = proxy_reference demo_crates Go (Url ''p'') []"

definition demo_bound :: ReferenceRecord where
  "demo_bound = \<lparr>ref_artifact = demo_artifact, updated_at = 150, etag = None, last_modified = None\<rparr>"

definition demo_bound_db :: demo_db where
  "demo_bound_db = snd (store_bind_reference demo_crates demo_rocks default_channel demo_bound_name demo_bound BestEffort [])"

definition demo_world :: "(demo_db, demo_disk, Url list) proxy_world" where
  "demo_world = \<lparr>shard_node = demo_node demo_bound_db, upstream_web = [], permits = 4, flights = Map.empty\<rparr>"

lemma demo_bound_good: "db_good demo_crates demo_rocks demo_bound_db"
  unfolding demo_bound_db_def using keepsD [OF rocksdb_keeps(4) demo_db_good] by (metis surjective_pairing)

lemma demo_world_ok: "node_ok (cache demo_proxy) 0 (shard_node demo_world)"
  using demo_node_ok [OF demo_bound_good] by (simp add: demo_world_def demo_proxy_def)

lemma demo_bound_rows:
  "demo_bound_db = [(REFERENCES, reference_key demo_crates default_channel demo_bound_name,
     1 # u64_to_be_bytes 150 @ bytes_of32 (digest demo_artifact))]"
  by (simp add: demo_bound_db_def store_bind_reference_def blocking_def with_cf_def map_err_def and_then_def
      demo_rocks_def record_result_def lift_result_def encode_record_def schema_version_def ok_def write_batch_def
      write_sync_def db_write_def demo_reference_to_vec_def demo_bound_def)

lemma demo_resolves:
  "store_reference demo_crates demo_rocks default_channel demo_bound_name demo_bound_db = (Inr (Some demo_bound), demo_bound_db)"
  by (simp add: demo_bound_rows store_reference_def blocking_def with_cf_def db_get_def map_err_def and_then_def
      demo_rocks_def demo_contents_def record_result_def lift_result_def decode_record_def schema_version_def ok_def
      demo_reference_from_bytes_def demo_bound_def)

lemma demo_fetch:
  "fetch_url demo_proxy demo_get default_channel Go (Url ''p'') No_transform demo_world
     = (Inr (Artifact demo_artifact), demo_world\<lparr>shard_node := (demo_node demo_bound_db)\<lparr>draws := 1\<rparr>\<rparr>)"
  using demo_resolves
  by (simp add: fetch_url_def Let_def and_then_def cache_call_def resolve_reference_def metadata_call_def map_err_def
      on_db_def demo_proxy_def demo_world_def demo_node_def fresh_outcome_def proxy_now_def draw_def cached_outcome_def
      act_defs demo_bound_def saturating_sub_def demo_bound_name_def [symmetric])

section \<open>Properties\<close>

text \<open>
  C37. The proxy contacts allowed hosts only. Whatever path or encoded URL a client asks for,
  and whatever redirects upstream answers with, every URL that is fetched has an origin
  allowed for the protocol, and one request causes at most eighteen fetches: three attempts
  on each of six hops.
\<close>

theorem proxy_contacts_only_allowed_origins:
  "contacted P protocol 18 (upstream_web w) (upstream_web (snd (fetch P (recording_get reply) ch protocol path t w)))
   \<and> contacted P protocol 18 (upstream_web w)
       (upstream_web (snd (fetch_encoded_url P (recording_get reply) ch protocol enc sfx w)))"
proof
  have go: "contacted P protocol 18 (upstream_web v) (upstream_web (snd (fetch_url P (recording_get reply) ch protocol u t v)))"
    if "check_origin P protocol u = Inr y" for u y v t
    by (rule leads_snd [OF fetch_url_contact [OF check_origin_ok [OF that]]]) simp
  show "contacted P protocol 18 (upstream_web w) (upstream_web (snd (fetch P (recording_get reply) ch protocol path t w)))"
    by (auto simp: fetch_def upstream_url_def bind_sum_def and_then_def lift_result_def contacted_refl intro: go split: sum.splits)
  show "contacted P protocol 18 (upstream_web w)
      (upstream_web (snd (fetch_encoded_url P (recording_get reply) ch protocol enc sfx w)))"
    by (auto simp: fetch_encoded_url_def and_then_def lift_result_def contacted_refl intro: go split: sum.splits)
qed

text \<open>
  The proxy gives back what it takes: after any fetch, successful or not, the permit and
  the entry of the coalescing map are as before. And however requests for various keys come
  and go, the map holds exactly the keys some request is in flight for, so it cannot grow
  beyond the requests being served.
\<close>

theorem proxy_returns_what_it_took:
  assumes "flights_ok (flights w)"
    and "\<forall>n k. length (filter (\<lambda>e. e = (False, k)) (take n es)) \<le> length (filter (\<lambda>e. e = (True, k)) (take n es))"
  shows "permits (snd (fetch P get ch protocol path t w)) = permits w
    \<and> flights (snd (fetch P get ch protocol path t w)) = flights w
    \<and> permits (snd (fetch_encoded_url P get ch protocol enc sfx w)) = permits w
    \<and> flights (snd (fetch_encoded_url P get ch protocol enc sfx w)) = flights w
    \<and> fold (\<lambda>(enter, key). if enter then enter_flight key else drop_flight key) es Map.empty =
       (\<lambda>k. let n = length (filter (\<lambda>e. e = (True, k)) es) - length (filter (\<lambda>e. e = (False, k)) es)
            in if n = 0 then None else Some n)"
proof -
  have "keeps (held (permits w) (flights w)) (fetch P get ch protocol path t)"
    unfolding fetch_def by (intro act_keeps fetch_url_held assms(1))
  moreover have "keeps (held (permits w) (flights w)) (fetch_encoded_url P get ch protocol enc sfx)"
    unfolding fetch_encoded_url_def by (intro act_keeps fetch_url_held assms(1))
  moreover have "held (permits w) (flights w) w" by (simp add: held_def)
  ultimately have "held (permits w) (flights w) (snd (fetch P get ch protocol path t w))"
    "held (permits w) (flights w) (snd (fetch_encoded_url P get ch protocol enc sfx w))"
    using keepsD surjective_pairing by metis+
  moreover note flights_count [OF assms(2)]
  ultimately show ?thesis by (simp add: held_def)
qed

theorem proxy_returns_what_it_took_witness:
  "permits (snd (fetch demo_proxy demo_get default_channel Go ''p'' No_transform demo_world)) = 4
   \<and> fold (\<lambda>(enter, key). if enter then enter_flight key else drop_flight key)
        [(True, ''a''), (True, ''a''), (False, ''a'')] Map.empty ''a'' = Some 1"
proof -
  have "flights_ok (flights demo_world)" by (simp add: flights_ok_def demo_world_def)
  moreover have "\<forall>n k. length (filter (\<lambda>e. e = (False, k)) (take n [(True, ''a''), (True, ''a''), (False, ''a'')]))
      \<le> length (filter (\<lambda>e. e = (True, k)) (take n [(True, ''a''), (True, ''a''), (False, ''a'')]))"
    by (auto simp: take_Cons')
  ultimately show ?thesis
    using proxy_returns_what_it_took [of demo_world "[(True, ''a''), (True, ''a''), (False, ''a'')]" demo_proxy demo_get
        default_channel Go "''p''" No_transform "[]" "[]"]
    by (simp add: demo_world_def)
qed

text \<open>
  Fetching through the proxy keeps the shard's invariant on every outcome: records stay
  true of the bodies, and no capacity is left reserved.
\<close>

theorem proxy_keeps_shard_invariant:
  assumes "env_ok (cache P)" and "get_fits get" and "node_ok (cache P) k (shard_node w)"
  shows "node_ok (cache P) k (shard_node (snd (fetch P get ch protocol path t w)))
    \<and> node_ok (cache P) k (shard_node (snd (fetch_encoded_url P get ch protocol enc sfx w)))"
proof -
  have "keeps (shard_ok P k) (fetch P get ch protocol path t)"
    unfolding fetch_def by (intro act_keeps fetch_url_shard assms(1,2))
  moreover have "keeps (shard_ok P k) (fetch_encoded_url P get ch protocol enc sfx)"
    unfolding fetch_encoded_url_def by (intro act_keeps fetch_url_shard assms(1,2))
  ultimately show ?thesis using assms(3) keepsD surjective_pairing by metis
qed

theorem proxy_keeps_shard_invariant_witness:
  "node_ok demo_service 0 (shard_node (snd (fetch demo_proxy demo_get default_channel Go ''p'' No_transform demo_world)))"
  using proxy_keeps_shard_invariant [OF _ demo_get_fits demo_world_ok] demo_env by (simp add: demo_proxy_def)

text \<open>
  What was fetched stays cached: after a download that ended in the cache, the reference
  of its URL names the artifact that was answered, and while that binding is fresh the next
  download of the URL is answered with the same artifact's identity, or a store error,
  without a word to upstream.
\<close>

theorem fetched_stays_cached:
  assumes "env_ok (cache P)" and "get_fits get" and "node_ok (cache P) k (shard_node w)"
    and "fetch_url P get ch protocol u No_transform w = (Inr (Artifact a), w1)"
    and "fetch_url P get ch protocol u No_transform w1 = (x, w2)"
  shows "\<exists>r. references (view (cache P) (shard_node w1)) (ch, proxy_reference (ids (cache P)) protocol u []) = Some r
    \<and> ref_artifact r = a
    \<and> (saturating_sub (clock_at (cache P) (draws (shard_node w1))) (updated_at r) < ttl P
        \<longrightarrow> upstream_web w2 = upstream_web w1 \<and> (x = Inr (Artifact a) \<or> (\<exists>e. x = Inl (ProxyCache e))))"
proof -
  from fetched_bound [OF assms(1-4)] obtain r
    where r: "references (view (cache P) (shard_node w1)) (ch, proxy_reference (ids (cache P)) protocol u []) = Some r" "ref_artifact r = a"
    by (auto simp: bound_to_def)
  have "shard_ok P k w1" by (rule keepsD [OF fetch_url_shard [OF assms(1,2)] assms(3,4)])
  from refetched [OF this r(1) _ assms(5)] r show ?thesis by blast
qed

lemma cached_without_body:
  assumes env: "env_ok (cache P)" and v: "valid (cache P) (shard_node w)"
    and gone: "body_at (cache P) (shard_node w) ch a = None" and t: "t \<noteq> No_transform"
    and run: "cached_outcome P ch a u t w = (x, w')"
  shows "x = Inr None \<or> (\<exists>e. x = Inl (ProxyCache e))"
proof -
  obtain y n where l: "locate (cache P) ch a (shard_node w) = (y, n)" by fastforce
  have "y \<noteq> Inr (Some l)" for l
  proof
    assume "y = Inr (Some l)"
    with l obtain n1 where "locate_local (cache P) ch a (shard_node w) = (Inr (Some l), n1)" by (auto elim: locate_hit_E)
    from locate_local_effect [OF env v this] gone show False by simp
  qed
  then show ?thesis using run l t
    by (cases y) (auto simp: cached_outcome_def cache_call_def and_then_def ok_def split: option.splits)
qed

text \<open>
  C38. What the proxy answers when the body of a fresh binding is gone. For a package document,
  which it rewrites, it finds nothing cached, as the comment on \<open>fresh_outcome\<close> says, so that
  upstream is consulted, or it fails with a store error. For a raw file it never looks: the
  download is answered with the identity of the missing artifact, or fails with a store
  error, and upstream is not contacted until the binding is no longer fresh.
\<close>

theorem raw_files_are_answered_without_body:
  assumes "env_ok (cache P)" and "node_ok (cache P) k (shard_node w)"
    and "references (view (cache P) (shard_node w)) (ch, proxy_reference (ids (cache P)) protocol u []) = Some r"
    and "saturating_sub (clock_at (cache P) (draws (shard_node w))) (updated_at r) < ttl P"
    and "body_at (cache P) (shard_node w) ch (ref_artifact r) = None"
  shows "(t \<noteq> No_transform \<longrightarrow> fst (fresh_outcome P ch (Some r) u t w) = Inr None
        \<or> (\<exists>e. fst (fresh_outcome P ch (Some r) u t w) = Inl (ProxyCache e)))
    \<and> (\<forall>x w'. fetch_url P get ch protocol u No_transform w = (x, w') \<longrightarrow>
        upstream_web w' = upstream_web w \<and> (x = Inr (Artifact (ref_artifact r)) \<or> (\<exists>e. x = Inl (ProxyCache e))))"
proof (intro conjI impI allI)
  let ?w = "w\<lparr>shard_node := (shard_node w)\<lparr>draws := draws (shard_node w) + 1\<rparr>\<rparr>"
  have "valid (cache P) (shard_node ?w)" "body_at (cache P) (shard_node ?w) ch (ref_artifact r) = None"
    using assms(2,5) by (simp_all add: node_ok_def stored_ok_def db_good_def)
  note gone = cached_without_body [OF assms(1) this]
  assume t: "t \<noteq> No_transform"
  have "fresh_outcome P ch (Some r) u t w = cached_outcome P ch (ref_artifact r) u t ?w"
    using assms(4) by (simp add: fresh_outcome_def proxy_now_def cache_call_def draw_def and_then_def)
  with gone [OF t] show "fst (fresh_outcome P ch (Some r) u t w) = Inr None
      \<or> (\<exists>e. fst (fresh_outcome P ch (Some r) u t w) = Inl (ProxyCache e))"
    by (metis prod.collapse)
qed (use refetched [OF assms(2-4)] in blast)+

lemma demo_bound_view:
  "references (view demo_service (demo_node demo_bound_db)) (default_channel, demo_bound_name) = Some demo_bound"
  using effect_Inr [OF rocksdb.get_ref _ demo_resolves] demo_bound_good by (simp add: db_good_def demo_node_def)

theorem raw_files_are_answered_without_body_witness:
  "body_at demo_service (demo_node demo_bound_db) default_channel demo_artifact = None
   \<and> fst (fetch_url demo_proxy demo_get default_channel Go (Url ''p'') No_transform demo_world) = Inr (Artifact demo_artifact)
   \<and> upstream_web (snd (fetch_url demo_proxy demo_get default_channel Go (Url ''p'') No_transform demo_world)) = []"
proof -
  let ?n = "demo_node demo_bound_db"
  have none: "body_at demo_service ?n default_channel demo_artifact = None"
    by (simp add: demo_node_def)
  have "env_ok (cache demo_proxy)" using demo_env by (simp add: demo_proxy_def)
  moreover have "references (view (cache demo_proxy) (shard_node demo_world))
      (default_channel, proxy_reference (ids (cache demo_proxy)) Go (Url ''p'') []) = Some demo_bound"
    using demo_bound_view by (simp add: demo_proxy_def demo_world_def demo_bound_name_def)
  moreover have "saturating_sub (clock_at (cache demo_proxy) (draws (shard_node demo_world))) (updated_at demo_bound) < ttl demo_proxy"
    by (simp add: demo_proxy_def demo_world_def demo_node_def demo_bound_def saturating_sub_def)
  moreover have "body_at (cache demo_proxy) (shard_node demo_world) default_channel (ref_artifact demo_bound) = None"
    using none by (simp add: demo_proxy_def demo_world_def demo_bound_def)
  ultimately have "upstream_web (snd (fetch_url demo_proxy demo_get default_channel Go (Url ''p'') No_transform demo_world))
      = upstream_web demo_world"
    using raw_files_are_answered_without_body [OF _ demo_world_ok] by (metis prod.collapse)
  with none demo_fetch show ?thesis by (simp add: demo_world_def)
qed

text \<open>
  What the proxy relies on of its crates: base64 decoding inverts encoding, parsing inverts
  the serialization of a URL, that serialization is UTF-8, and the origin of an HTTP or HTTPS
  URL is a tuple.
\<close>

definition web_ok :: "web_crates \<Rightarrow> bool" where
  "web_ok W \<longleftrightarrow>
     (\<forall>bs. base64_decode W (base64_encode W bs) = Some bs)
     \<and> (\<forall>base s u. url_join W base s = Inr u \<longrightarrow> url_parse W (as_str u) = Inr u \<and> utf8_valid (map of_char (as_str u)))
     \<and> (\<forall>u. url_scheme W u \<in> {''http'', ''https''} \<longrightarrow> (\<exists>scheme host port. url_origin W u = Tuple scheme host port))"

lemma from_utf8_str: "utf8_valid (map of_char s) \<Longrightarrow> from_utf8 (str_bytes s) = Some s"
  by (simp add: from_utf8_def str_bytes_def comp_def)

text \<open>
  C39. A rewritten link leads back: the tarball link of an npm document whose URL has an
  allowed origin is replaced by a link to the proxy, and that link is fetched as exactly the
  URL it stands for, with its origin allowed, except that a URL with credentials in it, which
  the origin check does not look at, is rewritten all the same and then refused.
\<close>

theorem rewritten_tarball_leads_back:
  assumes "web_ok (web P)" and "url_join (web P) upstream candidate = Inr u"
    and "url_origin (web P) u \<in> allowed_npm (allowed P)" and "url_scheme (web P) u \<in> {''http'', ''https''}"
  shows "\<exists>enc. rewrite_tarballs (web P) upstream prefix (allowed_npm (allowed P)) (Object [(''tarball'', String candidate)])
      = Object [(''tarball'', String (prefix @ ''/proxy/npm/-/tarball/'' @ enc))]
    \<and> check_origin P Npm u = Inr ()
    \<and> decoded_url P enc [] =
       (if url_username (web P) u = [] \<and> url_password (web P) u = None then Inr u else Inl InvalidEncodedUrl)"
proof -
  let ?enc = "base64_encode (web P) (str_bytes (as_str u))"
  have u: "url_parse (web P) (as_str u) = Inr u" "utf8_valid (map of_char (as_str u))"
    using assms(1,2) unfolding web_ok_def by blast+
  then have "Option.bind (base64_decode (web P) ?enc) from_utf8 = Some (as_str u)"
    using assms(1) by (simp add: web_ok_def from_utf8_str)
  then have "decoded_url P ?enc [] =
      (if url_username (web P) u = [] \<and> url_password (web P) u = None then Inr u else Inl InvalidEncodedUrl)"
    using assms(4) u by (auto simp: decoded_url_def url_error_def bind_sum_def)
  moreover have "contains_origin (web P) (allowed_npm (allowed P)) u"
    using assms(1,3,4) by (auto simp: web_ok_def contains_origin_def split: Origin.split)
  ultimately show ?thesis
    using assms(2) by (intro exI [of _ ?enc]) (simp add: rewrite_tarballs.simps routed_tarball_def check_origin_def)
qed

lemma demo_ascii_utf8: "list_all (\<lambda>x. (of_char x :: nat) < 128) s \<Longrightarrow> utf8_valid (map of_char s)"
  by (induction s) simp_all

lemma demo_web_ok: "web_ok demo_web"
proof -
  have "of_nat (of_char (char_of (unat b) :: char)) = b" for b :: u8
    using unat_bound [of b] by (simp add: of_char_of)
  then have "map (\<lambda>b. of_nat (of_char (char_of (unat b) :: char)) :: u8) bs = bs" for bs
    by (simp only: list.map_ident)
  then have "str_bytes (demo_chars bs) = bs" for bs by (simp add: str_bytes_def demo_chars_def comp_def)
  then show ?thesis by (auto simp: web_ok_def demo_web_def demo_url_def demo_ascii_utf8 split: if_splits)
qed

theorem rewritten_tarball_leads_back_witness:
  "\<exists>enc. rewrite_tarballs demo_web (Url ''b'') ''/c'' (allowed_npm demo_origins) (Object [(''tarball'', String ''user@x'')])
      = Object [(''tarball'', String (''/c'' @ ''/proxy/npm/-/tarball/'' @ enc))]
    \<and> decoded_url demo_proxy enc [] = Inl InvalidEncodedUrl"
proof -
  have "url_join (web demo_proxy) (Url ''b'') ''user@x'' = Inr (Url ''user@x'')"
    by (simp add: demo_proxy_def demo_web_def demo_url_def)
  moreover have "url_origin (web demo_proxy) (Url ''user@x'') \<in> allowed_npm (allowed demo_proxy)"
    "url_scheme (web demo_proxy) (Url ''user@x'') \<in> {''http'', ''https''}" "url_username (web demo_proxy) (Url ''user@x'') \<noteq> []"
    by (simp_all add: demo_proxy_def demo_web_def demo_origins_def Let_def starts_with_def)
  moreover have "web demo_proxy = demo_web" "allowed demo_proxy = demo_origins" by (simp_all add: demo_proxy_def)
  ultimately show ?thesis
    using rewritten_tarball_leads_back [of demo_proxy "Url ''b''" "''user@x''" "Url ''user@x''" "''/c''"] demo_web_ok
    by (metis (no_types, lifting))
qed

end
