(* ===== verification/Watched.thy ===== *)
theory Watched
  imports Proxy_Properties
begin

text \<open>
  What the services and the proxy do to a part of the shard's state that is neither on disk
  nor in the ledger. The locale \<open>watched_store\<close> asks how a predicate fares under the methods
  of the store, under counting and under the bookkeeping around them, and concludes how it
  fares under every operation of the two services that publishes nothing; \<open>watched_node\<close> adds
  publications and \<open>watched_proxy\<close> the proxy. They are interpreted on the foreground gauge, for
  the HTTP layer on the contents of the store, and \<open>watched_store\<close> on the truth of the records.
\<close>

section \<open>Results\<close>

text \<open>From a state in \<open>P\<close> the action returns only values in \<open>R\<close>, if it returns one.\<close>

definition yields :: "('s \<Rightarrow> bool) \<Rightarrow> ('s, 'e, 'a) act \<Rightarrow> ('a \<Rightarrow> bool) \<Rightarrow> bool" where
  "yields P m R \<longleftrightarrow> (\<forall>s x t. P s \<longrightarrow> m s = (Inr x, t) \<longrightarrow> R x)"

lemma yieldsD: "yields P m R \<Longrightarrow> P s \<Longrightarrow> m s = (Inr x, t) \<Longrightarrow> R x"
  by (simp add: yields_def)

lemma yields_then:
  assumes "keeps P m" and "yields P m T" and "\<And>x. T x \<Longrightarrow> yields P (f x) R"
  shows "yields P (and_then m f) R"
  unfolding yields_def
proof (intro allI impI)
  fix s y t assume s: "P s" and "and_then m f s = (Inr y, t)"
  then obtain x u where m: "m s = (Inr x, u)" and f: "f x u = (Inr y, t)" by (auto elim!: and_then_E)
  from yieldsD [OF assms(3) [OF yieldsD [OF assms(2) s m]] keepsD [OF assms(1) s m] f] show "R y" .
qed

lemma yields_any: "yields P m (\<lambda>_. True)"
  by (simp add: yields_def)

lemma yields_outcome: "keeps P m \<Longrightarrow> (\<And>x. yields P (f x) R) \<Longrightarrow> yields P (outcome m f) R"
  unfolding yields_def by (blast elim!: outcome_E dest: keepsD)

lemma yields_basic: "R x \<Longrightarrow> yields P (ok x) R" "yields P (throw e) R"
  by (simp_all add: yields_def ok_def throw_def)

lemma yields_cases:
  "yields P m R \<Longrightarrow> yields P n R \<Longrightarrow> yields P (if b then m else n) R"
  "yields P n R \<Longrightarrow> (\<And>x. yields P (f x) R) \<Longrightarrow> yields P (case a of None \<Rightarrow> n | Some x \<Rightarrow> f x) R"
  by (simp_all split: option.split)

lemmas yields_step = yields_then [OF _ yields_any]

section \<open>The interface\<close>

text \<open>
  \<open>named\<close> and \<open>lasting\<close>, and below \<open>typed\<close>, say which reference names, expiries and content types
  may be written.
\<close>

definition target_named :: "(string \<Rightarrow> bool) \<Rightarrow> PublicationTarget \<Rightarrow> bool" where
  "target_named named target =
     (case target of ContentAddressed (Some name) \<Rightarrow> named name | _ \<Rightarrow> True)"

definition reference_named :: "(string \<Rightarrow> bool) \<Rightarrow> (string \<times> ReferenceRecord) option \<Rightarrow> bool" where
  "reference_named named reference = (case reference of None \<Rightarrow> True | Some (name, _) \<Rightarrow> named name)"

locale watched_store =
  fixes S :: "('d, 'f) CacheService" and Q :: "('d, 'f) node \<Rightarrow> bool"
    and named :: "string \<Rightarrow> bool" and lasting :: "u64 \<Rightarrow> bool"
  assumes local: "local_world.more n' = local_world.more n \<Longrightarrow> Q n \<Longrightarrow> Q n'"
    and quiet: "Q (n\<lparr>recent := r\<rparr>) \<longleftrightarrow> Q n" "Q (n\<lparr>maintenance_cursor := i\<rparr>) \<longleftrightarrow> Q n"
      "Q (n\<lparr>draws := i\<rparr>) \<longleftrightarrow> Q n" "Q (n\<lparr>gates := g\<rparr>) \<longleftrightarrow> Q n"
    and counted: "foreground_in_flight m = foreground_in_flight (stats n) \<Longrightarrow> Q (n\<lparr>stats := m\<rparr>) \<longleftrightarrow> Q n"
    and lookups: "keeps Q (on_db (store_artifact (ids S) (meta S) ch a))"
      "keeps Q (on_db (store_reference (ids S) (meta S) ch name))"
      "keeps Q (on_db (store_channel_get (ids S) (meta S) ch))" "keeps Q (on_db (store_channels (meta S)))"
      "keeps Q (on_db (reclaim_candidates (ids S) (meta S) ch limit))" "keeps Q (on_db (metadata_health (meta S)))"
    and removals: "keeps Q (on_db (remove_artifact (ids S) (meta S) ch a))"
      "keeps Q (on_db (store_delete_reference (ids S) (meta S) ch name))"
      "keeps Q (on_db (evict (ids S) (meta S) ch a t))" "keeps Q (on_db (delete_channel_data (ids S) (meta S) ch))"
      "keeps Q (on_db (finish_channel_deletion (ids S) (meta S) ch))"
    and requeues: "keeps Q (on_db (requeue (ids S) (meta S) ch a old new))"
    and binds: "named name \<Longrightarrow> keeps Q (on_db (store_bind_reference (ids S) (meta S) ch name rec dur))"
    and channel_writes: "lasting (expiry_seconds chan) \<Longrightarrow> keeps Q (on_db (create_channel (ids S) (meta S) chan))"
      "lasting (expiry_seconds chan) \<Longrightarrow> keeps Q (on_db (store_channel (ids S) (meta S) chan))"
    and channel_read: "Q n \<Longrightarrow> store_channel_get (ids S) (meta S) ch (db n) = (Inr (Some chan), d) \<Longrightarrow>
      lasting (expiry_seconds chan)"
begin

lemma calls: "keeps Q (on_db m) \<Longrightarrow> keeps Q (metadata_call m)" "keeps Q (on_db m) \<Longrightarrow> keeps Q (store_call m)"
  unfolding metadata_call_def store_call_def by (rule keeps_map_err, assumption)+

lemmas db_steps = calls(1) [OF lookups(1)] calls(1) [OF lookups(2)] calls(1) [OF lookups(3)] calls(1) [OF lookups(4)]
  calls(1) [OF lookups(5)] calls(1) [OF lookups(6)] calls(1) [OF removals(1)] calls(1) [OF removals(2)]
  calls(1) [OF removals(3)] calls(1) [OF requeues] calls(2) [OF lookups(3)] calls(2) [OF lookups(4)]
  calls(2) [OF removals(4)] calls(2) [OF removals(5)]

lemma bookkeeping:
  "keeps Q (draw source)" "keeps Q (gate ch)" "keeps Q (forget ch)"
  "keeps Q (modify (\<lambda>n. n\<lparr>gates := h (gates n)\<rparr>))" "keeps Q (modify (\<lambda>n. n\<lparr>recent := f (recent n)\<rparr>))"
  by (simp_all add: keeps_def draw_def gate_def forget_def modify_def quiet)

lemma counting:
  "keeps Q (count (metrics_hit b))" "keeps Q (count metrics_miss)" "keeps Q (count (metrics_written b))"
  "keeps Q (count metrics_requeued)" "keeps Q (count (metrics_reclaimed b))"
  "keeps Q (modify (\<lambda>n. n\<lparr>stats := record_space s (stats n)\<rparr>))"
  by (simp_all add: keeps_def count_def modify_def counted metrics_hit_def metrics_miss_def metrics_written_def
      metrics_requeued_def metrics_reclaimed_def record_space_def)

lemma on_disk_step: "keeps Q (on_disk m)"
  by (rule keepsI) (auto elim!: on_disk_E intro: local [rotated])

lemma on_space_step: "keeps Q (modify (on_space f))"
  by (rule keeps_modify) (auto simp: on_space_def intro: local [rotated])

lemma io_keeps: "keeps Q (io m)"
  unfolding io_def by (intro keeps_map_err on_disk_step)

lemma discards: "keeps Q (modify (discard F R res))"
  by (rule keeps_modify) (rule local [OF more_discard])

lemma settles: "keeps Q (modify (reservation_commit R b res))"
  by (rule keeps_modify, rule local [rotated], assumption) (simp add: reservation_commit_def on_space_def Let_def)

lemma stages: "keeps Q (stage c F R A ch stream max_bytes len dur enc)"
  by (rule keepsI) (blast intro: local more_stage)

lemma publishes_file: "keeps Q (publish_file c F R A ch a st dur)"
  by (rule keepsI) (blast intro: local more_publish)

lemma walks: "walkable Q F"
  by (simp add: walkable_def on_disk_step)

lemmas steps = bookkeeping counting on_disk_step on_space_step io_keeps discards settles stages publishes_file db_steps
  keeps_files_call

text \<open>The cache service.\<close>

lemma fence: "keeps Q (channel_fence S ch)"
  unfolding channel_fence_def by (intro act_keeps steps)

lemma locate_keeps: "keeps Q (locate S ch a)"
proof -
  have "keeps Q (locate_local S ch a)"
    unfolding locate_local_def by (intro act_keeps steps) (auto intro!: act_keeps steps split: IoError.split)
  then show ?thesis unfolding locate_def by (intro act_keeps steps)
qed

lemma resolve_keeps: "keeps Q (resolve_reference S ch name)"
  unfolding resolve_reference_def by (intro steps)

lemma bind_keeps: "named name \<Longrightarrow> keeps Q (bind_reference_with_validators S ch name a tag modified dur)"
  unfolding bind_reference_with_validators_def by (intro act_keeps steps fence calls binds)

lemma unbind_keeps: "keeps Q (delete_reference S ch name)"
  unfolding delete_reference_def by (intro act_keeps steps fence)

lemma ready_keeps: "keeps Q (ready S)"
  unfolding ready_def files_health_def by (intro act_keeps steps keeps_look)

lemma reconcile_keeps: "keeps Q (reconcile S)"
proof -
  have "keeps Q (reconcile_each S found)" for found
  proof (induction found)
    case (Cons x found)
    then show ?case
      unfolding remove_body_def by (cases x) (auto intro!: act_keeps steps simp: remove_body_def intro: keeps_ignore_not_found)
  qed (simp add: keeps_ok)
  then show ?thesis
    unfolding reconcile_def by (intro act_keeps keeps_files_call keeps_temporary keeps_orphan_scan walks steps)
qed

lemma reclaim_keeps: "keeps Q (reclaim_channel S md now ch expiry cands b)"
proof (induction cands arbitrary: b)
  case (Cons cand cands)
  have "keeps Q (evict_one S ch cand b)" for b
    unfolding evict_one_def remove_body_def
    by (intro act_keeps steps keeps_ignore_not_found) (auto intro: act_keeps split: Evicted.split)
  with Cons show ?case by (auto intro!: act_keeps steps keeps_choice simp: Let_def)
qed (simp add: keeps_ok)

lemma reclaim_all_keeps: "keeps Q (reclaim_channels S md now chs b)"
proof (induction chs arbitrary: b)
  case (Cons ch chs)
  have "keeps Q (service_expiry_seconds S ch)" unfolding service_expiry_seconds_def by (intro act_keeps steps)
  with Cons show ?case by (auto intro!: act_keeps steps reclaim_keeps)
qed (simp add: keeps_ok)

lemma mode_keeps: "keeps Q space_mode"
  by (rule keepsI) (auto simp: space_mode_def intro: local [rotated] split: prod.splits)

lemma maintenance_keeps: "keeps Q (run_maintenance_once S limit)"
proof -
  have "keeps Q (rotate_channels chs)" for chs
    by (auto simp: rotate_channels_def keeps_ok) (simp add: keeps_def quiet)
  moreover have "keeps Q (modify (\<lambda>n. n\<lparr>stats := record_space (snapshot (space n)) (stats n)\<rparr>))"
    by (rule keeps_modify) (simp add: counted record_space_def)
  ultimately show ?thesis
    unfolding run_maintenance_once_def refresh_space_def service_channels_def
    by (intro act_keeps steps mode_keeps reclaim_all_keeps)
qed

lemma rotate_keeps: "keeps Q rotate_recency"
  unfolding rotate_recency_def by (intro steps)

text \<open>The channel service.\<close>

lemma authorize_keeps: "keeps Q (authorize S ch cred)"
  unfolding authorize_def by (intro act_keeps steps)

lemma lease_keeps: "keeps Q (authorize_with_lease S ch cred)"
  unfolding authorize_with_lease_def by (intro act_keeps steps authorize_keeps)

lemma authorized_lasting:
  assumes n: "Q n" and run: "authorize S ch cred n = (Inr chan, n')"
  shows "lasting (expiry_seconds chan)"
proof -
  from run obtain d where "store_channel_get (ids S) (meta S) ch (db n) = (Inr (Some chan), d)"
    unfolding authorize_def
    by (elim and_then_E)
      (auto simp: store_call_def on_db_def map_err_def and_then_def lift_result_def throw_def ok_def
        split: prod.splits sum.splits option.splits if_splits)
  from channel_read [OF n this] show ?thesis .
qed

lemma leased_lasting:
  assumes "Q n" and "authorize_with_lease S ch cred n = (Inr chan, n')"
  shows "lasting (expiry_seconds chan)"
proof -
  from assms(2) obtain x t u where "authorize S ch cred n = (Inr x, t)" and g: "gate ch t = (Inr () :: ChannelError + unit, u)"
    and a: "authorize S ch cred u = (Inr chan, n')"
    unfolding authorize_with_lease_def by (auto elim!: and_then_E)
  then have "Q t" using assms(1) keepsD [OF authorize_keeps] by blast
  then have "Q u" using g by (rule keepsD [OF bookkeeping(2)])
  then show ?thesis using a by (rule authorized_lasting)
qed

lemma default_keeps: "lasting expiry \<Longrightarrow> keeps Q (ensure_default S expiry)"
  unfolding ensure_default_def Let_def
  by (intro act_keeps steps channel_writes) (auto intro!: act_keeps steps split: MetadataError.split)

lemma register_keeps: "lasting expiry \<Longrightarrow> keeps Q (register S prot expiry)"
  unfolding register_def Let_def by (intro act_keeps steps calls channel_writes) simp

lemma update_keeps: "lasting expiry \<Longrightarrow> keeps Q (update_expiry S lease expiry)"
  unfolding update_expiry_def Let_def by (intro act_keeps calls channel_writes) simp

lemma finish_keeps: "keeps Q (finish_deletion S ch)"
  unfolding finish_deletion_def remove_channel_def by (intro act_keeps steps keeps_ignore_not_found)

lemma delete_keeps: "keeps Q (delete_channel S ch cred)"
proof -
  have "keeps Q (and_then (authorize_with_lease S ch cred) (\<lambda>lease.
      and_then (store_call (store_channel (ids S) (meta S) (lease\<lparr>lifecycle := Deleting\<rparr>))) (\<lambda>_.
      and_then (gate ch) (\<lambda>_. finish_deletion S ch))))"
  proof (rule keepsI)
    fix n x n' assume n: "Q n"
    assume "and_then (authorize_with_lease S ch cred) (\<lambda>lease.
      and_then (store_call (store_channel (ids S) (meta S) (lease\<lparr>lifecycle := Deleting\<rparr>))) (\<lambda>_.
      and_then (gate ch) (\<lambda>_. finish_deletion S ch))) n = (x, n')"
    then show "Q n'"
    proof (rule and_then_E)
      fix chan n1 assume l: "authorize_with_lease S ch cred n = (Inr chan, n1)"
        and rest: "and_then (store_call (store_channel (ids S) (meta S) (chan\<lparr>lifecycle := Deleting\<rparr>)))
          (\<lambda>_. and_then (gate ch) (\<lambda>_. finish_deletion S ch)) n1 = (x, n')"
      have "keeps Q (and_then (store_call (store_channel (ids S) (meta S) (chan\<lparr>lifecycle := Deleting\<rparr>)))
          (\<lambda>_. and_then (gate ch) (\<lambda>_. finish_deletion S ch)))"
        using leased_lasting [OF n l] by (intro act_keeps steps calls channel_writes finish_keeps) simp
      with rest keepsD [OF lease_keeps n l] show "Q n'" by (blast dest: keepsD)
    qed (use n in \<open>blast dest: keepsD [OF lease_keeps]\<close>)
  qed
  then show ?thesis by (simp add: delete_channel_def keeps_throw)
qed

lemma resume_keeps: "keeps Q (resume_deletions S)"
proof -
  have "keeps Q (finish_all S chans)" for chans
    by (induction chans) (auto intro!: act_keeps steps finish_keeps)
  then show ?thesis unfolding resume_deletions_def by (intro act_keeps steps)
qed

end

text \<open>
  With a law for the commit of a publication that looks at the content type of the record only,
  the predicate also survives publications.
\<close>

locale watched_node = watched_store S Q named lasting
  for S :: "('d, 'f) CacheService" and Q :: "('d, 'f) node \<Rightarrow> bool" and named and lasting +
  fixes typed :: "string option \<Rightarrow> bool"
  assumes commits: "typed (content_type md) \<Longrightarrow> reference_named named reference \<Longrightarrow>
      keeps Q (on_db (commit_publication (ids S) (meta S) ch a md reference dur))"
    and artifact_read: "Q n \<Longrightarrow> store_artifact (ids S) (meta S) ch a (db n) = (Inr (Some md), d) \<Longrightarrow>
      typed (content_type md)"
begin

lemma locate_typed: "yields Q (locate S ch a) (\<lambda>found. \<forall>l. found = Some l \<longrightarrow> typed (content_type (located_metadata l)))"
  unfolding yields_def
proof (intro allI impI)
  fix n found n' l assume n: "Q n" and "locate S ch a n = (Inr found, n')" and "found = Some l"
  then obtain n1 where "locate_local S ch a n = (Inr (Some l), n1)" by (auto elim: locate_hit_E)
  then obtain d where "store_artifact (ids S) (meta S) ch a (db n) = (Inr (Some (located_metadata l)), d)"
    unfolding locate_local_def
    by (elim and_then_E)
      (auto simp: metadata_call_def on_db_def map_err_def and_then_def outcome_def throw_def ok_def
        split: prod.splits sum.splits option.splits IoError.splits)
  from artifact_read [OF n this] show "typed (content_type (located_metadata l))" .
qed

lemma commit_keeps:
  "typed (commit_content_type cm) \<Longrightarrow> reference_named named (commit_reference cm) \<Longrightarrow>
    keeps Q (commit_staged S ch a st cm)"
  unfolding commit_staged_def
  by (intro act_keeps steps fence) (auto intro!: act_keeps steps commits split: sum.split FilePublication.split)

lemma publish_or_reject_keeps:
  assumes "typed (req_content_type request)" and "target_named named (req_target request)"
  shows "keeps Q (publish_or_reject S request)"
proof -
  have "keeps Q (after_staging S request st)" for st
  proof (rule keepsI)
    fix n x n' assume n: "Q n" and run: "after_staging S request st n = (x, n')"
    from run show "Q n'"
    proof (rule after_staging_E)
      fix i reference y
      assume c: "commit_staged S (req_channel request) (target_artifact request st) st
          \<lparr>commit_content_type = req_content_type request, commit_reference = reference,
           commit_durability = req_durability request\<rparr>
          (n\<lparr>stats := metrics_written (staged_len st) (stats n), draws := i\<rparr>) = (y, n')"
        and r: "target_reference request st reference"
      have "reference_named named reference"
        using r assms(2)
        by (auto simp: target_reference_def target_named_def reference_named_def split: PublicationTarget.splits option.splits)
      then show "Q n'"
        using keepsD [OF commit_keeps _ c] n assms(1) by (simp add: quiet counted metrics_written_def)
    qed
  qed
  then show ?thesis
    unfolding publish_or_reject_staged by (intro act_keeps steps) (auto intro!: act_keeps split: StageOutcome.split)
qed

lemma publish_keeps:
  "typed (req_content_type request) \<Longrightarrow> target_named named (req_target request) \<Longrightarrow> keeps Q (service_publish S request)"
  unfolding service_publish_def
  by (intro keeps_and_then publish_or_reject_keeps) (auto intro: act_keeps split: Admission.split)

end

section \<open>The proxy\<close>

text \<open>
  The proxy writes the content types of the headers it received, under its own reference
  names, and answers with content types it read or received.
\<close>

fun outcome_typed :: "(string option \<Rightarrow> bool) \<Rightarrow> ProxyOutcome \<Rightarrow> bool" where
  "outcome_typed typed (Artifact a) = True"
| "outcome_typed typed (CachedMetadata body ct) = typed ct"
| "outcome_typed typed (Upstream s body ct) = typed ct"
| "outcome_typed typed (UpstreamStream s stream ct) = typed ct"

locale watched_proxy = watched_node "cache P" Q named lasting typed
  for P :: "('d, 'f) ProxyService" and Q :: "('d, 'f) node \<Rightarrow> bool" and named typed lasting +
  assumes header_typed: "typed (header_string hs name)"
    and proxy_named: "named (proxy_reference (ids (cache P)) protocol u variant)"
begin

abbreviation shard_Q :: "('d, 'f, 'w) proxy_world \<Rightarrow> bool" where
  "shard_Q w \<equiv> Q (shard_node w)"

lemma cached_keeps: "keeps shard_Q (cached_outcome P ch a u t)"
  unfolding cached_outcome_def by (intro act_keeps keeps_node_cache locate_keeps)

lemma fresh_keeps: "keeps shard_Q (fresh_outcome P ch rec u t)"
  unfolding fresh_outcome_def proxy_now_def by (intro act_keeps keeps_node_cache bookkeeping cached_keeps)

lemma revalidated_keeps:
  "keeps shard_Q (revalidated P ch (proxy_reference (ids (cache P)) protocol u variant) rec u' t)"
  unfolding revalidated_def by (intro act_keeps keeps_node_cache bind_keeps cached_keeps proxy_named)

lemma served_keeps:
  "typed (mp_content_type mp) \<Longrightarrow> named (mp_reference mp) \<Longrightarrow> keeps shard_Q (serve_metadata P ch mp)"
  unfolding serve_metadata_def
  by (intro act_keeps keeps_node_cache publish_keeps)
    (auto simp: target_named_def split: sum.splits ProxyError.splits CacheError.splits LocalError.splits
      intro!: act_keeps keeps_node_cache bind_keeps)

lemma stored_keeps:
  "keeps shard_Q (store_response P ch (proxy_reference (ids (cache P)) protocol u variant) u' t r)"
  unfolding store_response_def Let_def
  by (intro act_keeps keeps_node_cache publish_or_reject_keeps served_keeps)
    (auto simp: header_typed proxy_named target_named_def split: Admission.splits
      intro!: act_keeps keeps_node_cache bind_keeps)

lemma fetch_url_keeps: "keeps shard_Q (fetch_url P get ch protocol u t)"
  unfolding fetch_url_def Let_def send_validated_def
  by (intro act_keeps keeps_node_cache resolve_keeps fresh_keeps keeps_shard_flight keeps_shard_permit revalidated_keeps
      stored_keeps keeps_follow [of "\<lambda>n _ _. Q n"])

text \<open>What is answered carries a content type that was read or received.\<close>

lemma yields_cache_call: "yields Q m R \<Longrightarrow> yields shard_Q (cache_call m) R"
  unfolding yields_def cache_call_def by (auto split: prod.splits sum.splits)

lemma yields_permit: "yields shard_Q m R \<Longrightarrow> yields shard_Q (with_permit m) R"
  unfolding yields_def with_permit_def by (auto split: prod.splits if_splits) (metis proxy_world.select_convs(1) proxy_world.surjective proxy_world.update_convs(3))

lemma yields_flight: "yields shard_Q m R \<Longrightarrow> yields shard_Q (in_flight key m) R"
  unfolding yields_def in_flight_def by (auto split: prod.splits) (metis proxy_world.select_convs(1) proxy_world.surjective proxy_world.update_convs(4))

lemma cached_typed: "yields shard_Q (cached_outcome P ch a u t) (\<lambda>found. \<forall>outc. found = Some outc \<longrightarrow> outcome_typed typed outc)"
  unfolding cached_outcome_def
  by (auto split: option.split intro!: yields_basic yields_step [OF keeps_lift_result]
      yields_then [OF keeps_node_cache [OF locate_keeps] yields_cache_call [OF locate_typed]])

lemma fresh_typed: "yields shard_Q (fresh_outcome P ch rec u t) (\<lambda>found. \<forall>outc. found = Some outc \<longrightarrow> outcome_typed typed outc)"
  unfolding fresh_outcome_def proxy_now_def
  by (intro yields_cases yields_basic yields_step keeps_node_cache bookkeeping cached_typed) simp_all

lemma revalidated_typed:
  "yields shard_Q (revalidated P ch (proxy_reference (ids (cache P)) protocol u variant) rec u' t) (outcome_typed typed)"
  unfolding revalidated_def
  by (auto split: option.split intro!: yields_basic yields_step [OF keeps_node_cache [OF bind_keeps [OF proxy_named]]]
      yields_then [OF cached_keeps cached_typed])

lemma served_typed:
  "typed (mp_content_type mp) \<Longrightarrow> named (mp_reference mp) \<Longrightarrow> yields shard_Q (serve_metadata P ch mp) (outcome_typed typed)"
  unfolding serve_metadata_def
  by (intro yields_outcome keeps_node_cache publish_keeps)
    (auto simp: target_named_def split: sum.splits ProxyError.splits CacheError.splits LocalError.splits
      intro!: yields_basic yields_step keeps_node_cache bind_keeps)

lemma stored_typed:
  "yields shard_Q (store_response P ch (proxy_reference (ids (cache P)) protocol u variant) u' t r) (outcome_typed typed)"
  unfolding store_response_def Let_def
  by (intro yields_cases yields_step keeps_lift_result keeps_node_cache publish_or_reject_keeps served_typed)
    (auto simp: header_typed proxy_named target_named_def split: Admission.splits
      intro!: yields_basic yields_step keeps_node_cache bind_keeps)

lemma fetch_url_typed: "yields shard_Q (fetch_url P get ch protocol u t) (outcome_typed typed)"
proof -
  have send: "keeps shard_Q (send_validated P get protocol u rec acc)" for rec acc
    unfolding send_validated_def by (rule keeps_follow [of "\<lambda>n _ _. Q n"])
  show ?thesis unfolding fetch_url_def Let_def
    by (intro yields_step [OF keeps_node_cache [OF resolve_keeps]] yields_then [OF fresh_keeps fresh_typed])
      (auto split: option.split intro!: yields_basic yields_flight yields_permit
        yields_step [OF keeps_node_cache [OF resolve_keeps]] yields_then [OF fresh_keeps fresh_typed]
        yields_step [OF send] revalidated_typed stored_typed)
qed

lemma fetch_typed:
  "yields shard_Q (fetch P get ch protocol path t) (outcome_typed typed)"
  "yields shard_Q (fetch_encoded_url P get ch protocol enc sfx) (outcome_typed typed)"
  unfolding fetch_def fetch_encoded_url_def
  by (intro yields_step keeps_lift_result fetch_url_typed)+

lemma fetch_keeps: "keeps shard_Q (fetch P get ch protocol path t)"
  unfolding fetch_def by (intro act_keeps fetch_url_keeps)

lemma fetch_encoded_keeps: "keeps shard_Q (fetch_encoded_url P get ch protocol enc sfx)"
  unfolding fetch_encoded_url_def by (intro act_keeps fetch_url_keeps)

end

section \<open>The foreground gauge\<close>

text \<open>No operation of the services or the proxy touches the gauge of requests in flight.\<close>

definition gauged :: "int \<Rightarrow> ('d, 'f) node \<Rightarrow> bool" where
  "gauged g n \<longleftrightarrow> foreground_in_flight (stats n) = g"

lemma gauged_on_db: "keeps (gauged g) (on_db m)"
  by (rule keepsI) (auto simp: gauged_def elim!: on_db_E)

interpretation gauge: watched_proxy P "gauged g" "\<lambda>_. True" "\<lambda>_. True" "\<lambda>_. True"
  for P :: "('d, 'f) ProxyService" and g
proof
  show "gauged g n'" if "local_world.more n' = local_world.more n" "gauged g n" for n n' :: "('d, 'f) node"
    using node_more [OF that(1)] that(2) by (simp add: gauged_def)
qed (simp_all add: gauged_on_db, simp_all add: gauged_def)

end
