(* ===== verification/Prefetch.thy ===== *)
theory Prefetch
  imports Http_Types
begin

text \<open>
  Prefetch observation (\<open>src/telemetry.rs\<close>): a prefetch response is counted from its start
  until its body is dropped, by whichever registry started it. The trait
  \<open>PrefetchRecorder\<close> is a locale; what an observation does to the counters over its whole
  life is proved once in it, and the shard's and the agent's recorders are its two
  interpretations. The clock readings only feed duration histograms, of which the number of
  observations is kept.
\<close>

section \<open>Marked requests\<close>

text \<open>The headers of \<open>src/manifest.rs\<close> that mark and describe a prefetch, and the test both the shard and the agent make.\<close>

definition request_purpose_header :: string where
  "request_purpose_header = ''x-flywheel-request-purpose''"

definition request_purpose_prefetch :: string where
  "request_purpose_prefetch = ''prefetch''"

definition request_prefetch_concurrency_header :: string where
  "request_prefetch_concurrency_header = ''x-flywheel-prefetch-concurrency''"

definition request_session_header :: string where
  "request_session_header = ''x-flywheel-session''"

definition is_prefetch :: "Request \<Rightarrow> bool" where
  "is_prefetch request = (header_get (req_headers request) request_purpose_header = Some (str_bytes request_purpose_prefetch))"

section \<open>Observations\<close>

record PrefetchObservation =
  obs_session :: "string option"
  obs_concurrency :: "nat option"
  obs_status :: StatusCode
  obs_bytes :: u64
  obs_completed :: bool

definition observation_start :: "('r \<Rightarrow> int \<times> 'r) \<Rightarrow> string option \<Rightarrow> nat option \<Rightarrow> 'r \<Rightarrow> PrefetchObservation \<times> 'r" where
  "observation_start prefetch_started session concurrency r =
     (let (in_flight, r) = prefetch_started r
      in (\<lparr>obs_session = session, obs_concurrency = concurrency, obs_status = 0, obs_bytes = 0, obs_completed = False\<rparr>, r))"

definition set_status ::
  "(StatusCode \<Rightarrow> 'r \<Rightarrow> 'r) \<Rightarrow> StatusCode \<Rightarrow> PrefetchObservation \<times> 'r \<Rightarrow> PrefetchObservation \<times> 'r" where
  "set_status prefetch_response s = (\<lambda>(obs, r). (obs\<lparr>obs_status := s\<rparr>, prefetch_response s r))"

definition add_bytes :: "nat \<Rightarrow> PrefetchObservation \<Rightarrow> PrefetchObservation" where
  "add_bytes n obs = obs\<lparr>obs_bytes := saturating_add (obs_bytes obs) (of_nat n)\<rparr>"

definition complete :: "PrefetchObservation \<Rightarrow> PrefetchObservation" where
  "complete obs = obs\<lparr>obs_completed := True\<rparr>"

definition observation_drop :: "(u64 \<Rightarrow> bool \<Rightarrow> 'r \<Rightarrow> 'r) \<Rightarrow> PrefetchObservation \<Rightarrow> 'r \<Rightarrow> 'r" where
  "observation_drop prefetch_finished obs r = prefetch_finished (obs_bytes obs) (obs_completed obs) r"

text \<open>One poll of the wrapped stream: the item passed on, and the rest of stream and observation.\<close>

fun observed_poll ::
  "body_stream \<times> PrefetchObservation \<Rightarrow> (string + bytes) option \<times> body_stream \<times> PrefetchObservation" where
  "observed_poll (Inr chunk # rest, obs) = (Some (Inr chunk), rest, add_bytes (length chunk) obs)"
| "observed_poll (Inl error # rest, obs) = (Some (Inl error), rest, obs)"
| "observed_poll ([], obs) = (None, [], complete obs)"

text \<open>A client that polls at most \<open>n\<close> times and then drops the body: what it receives and the observation it drops.\<close>

fun drain :: "nat \<Rightarrow> body_stream \<times> PrefetchObservation \<Rightarrow> body_stream \<times> PrefetchObservation" where
  "drain 0 (stream, obs) = ([], obs)"
| "drain (Suc n) (stream, obs) =
     (case observed_poll (stream, obs) of
        (None, _, obs) \<Rightarrow> ([], obs)
      | (Some item, stream, obs) \<Rightarrow> (let (items, obs) = drain n (stream, obs) in (item # items, obs)))"

text \<open>The whole life of an observed response: its start, its headers, the polls of the client, its drop.\<close>

definition observe_prefetch_body ::
  "(StatusCode \<Rightarrow> 'r \<Rightarrow> 'r) \<Rightarrow> (u64 \<Rightarrow> bool \<Rightarrow> 'r \<Rightarrow> 'r) \<Rightarrow> nat \<Rightarrow> Response \<Rightarrow> PrefetchObservation \<times> 'r \<Rightarrow> Response \<times> 'r" where
  "observe_prefetch_body prefetch_response prefetch_finished polls response observed =
     (let (obs, r) = set_status prefetch_response (resp_status response) observed;
          (items, obs) = drain polls (resp_body response, obs)
      in (response\<lparr>resp_body := items\<rparr>, observation_drop prefetch_finished obs r))"

lemma drain_items: "fst (drain n (stream, obs)) = take n stream"
proof (induction n arbitrary: stream obs)
  case (Suc n)
  show ?case by (cases "(stream, obs)" rule: observed_poll.cases) (simp_all add: case_prod_beta Suc)
qed simp

lemma drain_completed: "obs_completed (snd (drain n (stream, obs))) \<longleftrightarrow> obs_completed obs \<or> length stream < n"
proof (induction n arbitrary: stream obs)
  case (Suc n)
  show ?case
    by (cases "(stream, obs)" rule: observed_poll.cases)
      (simp_all add: case_prod_beta Suc add_bytes_def complete_def)
qed simp

section \<open>Recorders\<close>

locale prefetch_recorder =
  fixes started :: "'r \<Rightarrow> int \<times> 'r"
    and response :: "StatusCode \<Rightarrow> 'r \<Rightarrow> 'r"
    and finished :: "u64 \<Rightarrow> bool \<Rightarrow> 'r \<Rightarrow> 'r"
    and requests :: "'r \<Rightarrow> nat"
    and in_flight :: "'r \<Rightarrow> int"
    and completed :: "'r \<Rightarrow> nat"
    and cancelled :: "'r \<Rightarrow> nat"
  assumes started_counts: "started r = (n, r') \<Longrightarrow>
      n = in_flight r + 1 \<and> requests r' = requests r + 1 \<and> in_flight r' = in_flight r + 1
      \<and> completed r' = completed r \<and> cancelled r' = cancelled r"
    and response_counts: "requests (response s r) = requests r" "in_flight (response s r) = in_flight r"
      "completed (response s r) = completed r" "cancelled (response s r) = cancelled r"
    and finished_counts: "requests (finished b done r) = requests r" "in_flight (finished b done r) = in_flight r - 1"
      "completed (finished b done r) = completed r + (if done then 1 else 0)"
      "cancelled (finished b done r) = cancelled r + (if done then 0 else 1)"
begin

text \<open>Every request that was started is in flight, completed or cancelled.\<close>

definition balanced :: "'r \<Rightarrow> bool" where
  "balanced r \<longleftrightarrow> int (requests r) = in_flight r + int (completed r) + int (cancelled r)"

lemma balanced_steps:
  "balanced r \<Longrightarrow> started r = (n, r') \<Longrightarrow> balanced r'"
  "balanced r \<Longrightarrow> balanced (response s r)"
  "balanced r \<Longrightarrow> balanced (finished b d r)"
  by (auto simp: balanced_def response_counts finished_counts dest: started_counts)

lemma observed_start:
  assumes "observation_start started session conc r = (obs, r1)"
  shows "\<not> obs_completed obs \<and> requests r1 = requests r + 1 \<and> in_flight r1 = in_flight r + 1
    \<and> completed r1 = completed r \<and> cancelled r1 = cancelled r"
  using assms by (auto simp: observation_start_def dest: started_counts split: prod.splits)

lemma observed_body:
  assumes "observe_prefetch_body response finished polls resp (obs, r1) = (resp', r2)" and "\<not> obs_completed obs"
  shows "resp' = resp\<lparr>resp_body := take polls (resp_body resp)\<rparr>
    \<and> requests r2 = requests r1 \<and> in_flight r2 = in_flight r1 - 1
    \<and> completed r2 = completed r1 + (if length (resp_body resp) < polls then 1 else 0)
    \<and> cancelled r2 = cancelled r1 + (if length (resp_body resp) < polls then 0 else 1)"
proof -
  let ?obs = "obs\<lparr>obs_status := resp_status resp\<rparr>" and ?r = "response (resp_status resp) r1"
  obtain items o' where d: "drain polls (resp_body resp, ?obs) = (items, o')" by (meson surj_pair)
  have "resp' = resp\<lparr>resp_body := items\<rparr>" "r2 = finished (obs_bytes o') (obs_completed o') ?r"
    using assms(1) d by (auto simp: observe_prefetch_body_def set_status_def observation_drop_def)
  moreover have "items = take polls (resp_body resp)" using drain_items [of polls "resp_body resp" ?obs] d by simp
  moreover have "obs_completed o' \<longleftrightarrow> length (resp_body resp) < polls"
    using drain_completed [of polls "resp_body resp" ?obs] d assms(2) by simp
  ultimately show ?thesis by (auto simp: response_counts finished_counts)
qed

end

section \<open>The shard's recorder\<close>

text \<open>The prefetch fields of \<open>Metrics\<close>.\<close>

record PrefetchMetrics =
  prefetch_requests :: nat
  prefetch_hit_responses :: nat
  prefetch_miss_responses :: nat
  prefetch_unavailable_responses :: nat
  prefetch_in_flight :: int
  prefetch_completed_transfers :: nat
  prefetch_cancelled_transfers :: nat
  prefetch_response_bytes :: nat
  prefetch_transfer_durations :: nat

definition prefetch_started :: "PrefetchMetrics \<Rightarrow> int \<times> PrefetchMetrics" where
  "prefetch_started m =
     (let m = m\<lparr>prefetch_requests := prefetch_requests m + 1, prefetch_in_flight := prefetch_in_flight m + 1\<rparr>
      in (prefetch_in_flight m, m))"

definition prefetch_response :: "StatusCode \<Rightarrow> PrefetchMetrics \<Rightarrow> PrefetchMetrics" where
  "prefetch_response s m =
     (if 200 \<le> s \<and> s < 300 then m\<lparr>prefetch_hit_responses := prefetch_hit_responses m + 1\<rparr>
      else if s = 404 then m\<lparr>prefetch_miss_responses := prefetch_miss_responses m + 1\<rparr>
      else m\<lparr>prefetch_unavailable_responses := prefetch_unavailable_responses m + 1\<rparr>)"

definition prefetch_finished :: "u64 \<Rightarrow> bool \<Rightarrow> PrefetchMetrics \<Rightarrow> PrefetchMetrics" where
  "prefetch_finished bs done m =
     (let m = m\<lparr>prefetch_in_flight := prefetch_in_flight m - 1,
                prefetch_response_bytes := prefetch_response_bytes m + unat bs,
                prefetch_transfer_durations := prefetch_transfer_durations m + 1\<rparr>
      in if done then m\<lparr>prefetch_completed_transfers := prefetch_completed_transfers m + 1\<rparr>
         else m\<lparr>prefetch_cancelled_transfers := prefetch_cancelled_transfers m + 1\<rparr>)"

interpretation shard: prefetch_recorder prefetch_started prefetch_response prefetch_finished
  prefetch_requests prefetch_in_flight prefetch_completed_transfers prefetch_cancelled_transfers
  by unfold_locales (auto simp: prefetch_started_def prefetch_response_def prefetch_finished_def Let_def)

end
