(* ===== verification/Http_Server.thy ===== *)
theory Http_Server
  imports Proxy Channels Prefetch
begin

text \<open>
  The HTTP layer of a shard (\<open>src/transport/http/mod.rs\<close>): which request reaches which handler,
  authorization of the channel, the foreground budget, and the handlers of artifacts, references,
  build caches and channels. A handler is an action that ends in a reply, with an early
  \<open>return\<close> or in a panic. What the web framework does before a handler runs (matching a path
  against the routes, percent-decoding its captures, parsing a JSON body) and the serialization
  of JSON replies are parameters.
\<close>

section \<open>State\<close>

record ArtifactBinding =
  binding_algorithm :: string
  binding_digest :: string

record RegisterChannel =
  reg_access_control :: "bool option"
  reg_expiry_seconds :: "u64 option"

record PatchChannel =
  patch_expiry_seconds :: "u64 option"

text \<open>
  \<open>json_reply\<close> is the framework's response for a status and a JSON value; the payload functions
  are its \<open>Json\<close> extractors, which answer a body they reject themselves. \<open>seek_fails\<close> says
  whether seeking in an open file fails, \<open>zstd_reader\<close> what a streaming decoder yields, and
  \<open>encode_registry\<close> is the text format of the metrics library.
\<close>

record http_crates =
  json_reply :: "StatusCode \<Rightarrow> Value \<Rightarrow> Response"
  binding_payload :: "Request \<Rightarrow> Response + ArtifactBinding"
  register_payload :: "Request \<Rightarrow> Response + RegisterChannel"
  patch_payload :: "Request \<Rightarrow> Response + PatchChannel"
  base64_standard_decode :: "string \<Rightarrow> bytes option"
  seek_fails :: "bytes \<Rightarrow> u64 \<Rightarrow> bool"
  zstd_reader :: "bytes \<Rightarrow> body_stream"
  encode_registry :: "Metrics \<Rightarrow> PrefetchMetrics \<Rightarrow> string + bytes"

record ('d, 'f) AppState =
  app_proxy :: "('d, 'f) ProxyService"
  default_expiry_seconds :: u64
  framework :: http_crates

text \<open>
  What the handlers act on: shard and proxy, the free permits of the foreground budget, the
  prefetch counters, and the labels of the request durations observed so far.
\<close>

record ('d, 'f, 'w) app_world =
  proxied :: "('d, 'f, 'w) proxy_world"
  foreground :: nat
  prefetch_metrics :: PrefetchMetrics
  durations :: "(Method \<times> string \<times> StatusCode) list"

text \<open>A reply, and whether its body holds a foreground permit until it is dropped.\<close>

record Reply =
  reply :: Response
  body_permit :: bool

datatype Exit = Return Reply | Panic

type_synonym ('d, 'f, 'w, 'a) app_act = "(('d, 'f, 'w) app_world, Exit, 'a) act"
type_synonym ('d, 'f, 'w) handler = "('d, 'f, 'w, Reply) app_act"

abbreviation shard :: "('d, 'f) AppState \<Rightarrow> ('d, 'f) CacheService" where
  "shard A \<equiv> cache (app_proxy A)"

abbreviation app_node :: "('d, 'f, 'w) app_world \<Rightarrow> ('d, 'f) node" where
  "app_node w \<equiv> shard_node (proxied w)"

definition on_node :: "(('d, 'f) node \<Rightarrow> ('d, 'f) node) \<Rightarrow> ('d, 'f, 'w) app_world \<Rightarrow> ('d, 'f, 'w) app_world" where
  "on_node f w = w\<lparr>proxied := (proxied w)\<lparr>shard_node := f (app_node w)\<rparr>\<rparr>"

definition tally :: "(Metrics \<Rightarrow> Metrics) \<Rightarrow> ('d, 'f, 'w, unit) app_act" where
  "tally f = modify (on_node (\<lambda>n. n\<lparr>stats := f (stats n)\<rparr>))"

text \<open>A call of a service or of the proxy whose result the handler matches on.\<close>

definition node_call :: "(('d, 'f) node, 'e, 'a) act \<Rightarrow> ('d, 'f, 'w, 'e + 'a) app_act" where
  "node_call m = (\<lambda>w. case m (app_node w) of (x, n) \<Rightarrow> (Inr x, on_node (\<lambda>_. n) w))"

definition proxy_call :: "('d, 'f, 'w, 'a) proxy_act \<Rightarrow> ('d, 'f, 'w, ProxyError + 'a) app_act" where
  "proxy_call m = (\<lambda>w. case m (proxied w) of (x, p) \<Rightarrow> (Inr x, w\<lparr>proxied := p\<rparr>))"

section \<open>Replies\<close>

definition plain :: "Response \<Rightarrow> Reply" where
  "plain r = \<lparr>reply = r, body_permit = False\<rparr>"

abbreviation status_reply :: "StatusCode \<Rightarrow> Reply" where
  "status_reply s \<equiv> plain (status_response s)"

text \<open>Decimal numbers, as \<open>Display\<close> prints them.\<close>

fun decimal :: "nat \<Rightarrow> string" where
  "decimal n = (if n < 10 then [char_of (48 + n)] else decimal (n div 10) @ [char_of (48 + n mod 10)])"

declare decimal.simps [simp del]

text \<open>
  \<open>Response::builder\<close>: a header value may not hold control characters except tabs; with one
  that does, \<open>body\<close> is an error and the \<open>unwrap\<close> after it panics.
\<close>

definition header_value_ok :: "string \<Rightarrow> bool" where
  "header_value_ok s \<longleftrightarrow> list_all (\<lambda>x. (32 \<le> (of_char x :: nat) \<and> (of_char x :: nat) \<noteq> 127) \<or> (of_char x :: nat) = 9) s"

definition build :: "StatusCode \<Rightarrow> (string \<times> string) list \<Rightarrow> body_stream \<Rightarrow> Response option" where
  "build s hs body =
     (if list_all (\<lambda>(_, v). header_value_ok v) hs
      then Some \<lparr>resp_status = s, resp_headers = map (\<lambda>(k, v). (k, str_bytes v)) hs, resp_body = body\<rparr>
      else None)"

definition built :: "StatusCode \<Rightarrow> (string \<times> string) list \<Rightarrow> body_stream \<Rightarrow> bool \<Rightarrow> ('d, 'f, 'w) handler" where
  "built s hs body permit =
     (case build s hs body of
        None \<Rightarrow> throw Panic
      | Some r \<Rightarrow> ok \<lparr>reply = r, body_permit = permit\<rparr>)"

definition busy_response :: Response where
  "busy_response = \<lparr>resp_status = 429, resp_headers = [(''retry-after'', str_bytes ''1'')], resp_body = []\<rparr>"

definition insufficient_storage :: Response where
  "insufficient_storage = \<lparr>resp_status = 507, resp_headers = [(''retry-after'', str_bytes ''1'')], resp_body = []\<rparr>"

definition api_error :: "('d, 'f) AppState \<Rightarrow> StatusCode \<Rightarrow> string \<Rightarrow> string \<Rightarrow> Response" where
  "api_error A s code message =
     json_reply (framework A) s (Object [(''code'', String code), (''message'', String message)])"

section \<open>The foreground budget\<close>

definition acquire_foreground :: "('d, 'f, 'w, bool) app_act" where
  "acquire_foreground = (\<lambda>w.
     if 0 < foreground w
     then and_then (tally metrics_foreground_acquired) (\<lambda>_. ok True) (w\<lparr>foreground := foreground w - 1\<rparr>)
     else and_then (tally metrics_foreground_rejected) (\<lambda>_. ok False) w)"

definition drop_permit :: "('d, 'f, 'w) app_world \<Rightarrow> ('d, 'f, 'w) app_world" where
  "drop_permit w =
     on_node (\<lambda>n. n\<lparr>stats := metrics_foreground_released (stats n)\<rparr>) (w\<lparr>foreground := foreground w + 1\<rparr>)"

text \<open>
  The scope of a permit: it is dropped when the scope ends, in whatever way, unless the body
  of the reply took it.
\<close>

definition permit_scope :: "(Exit + 'a \<Rightarrow> bool) \<Rightarrow> ('d, 'f, 'w, 'a) app_act \<Rightarrow> ('d, 'f, 'w, 'a) app_act" where
  "permit_scope taken h =
     and_then acquire_foreground (\<lambda>admitted.
     if \<not> admitted then throw (Return (plain busy_response))
     else (\<lambda>w. case h w of (x, w') \<Rightarrow> (x, if taken x then w' else drop_permit w')))"

definition keeps_permit :: "Exit + Reply \<Rightarrow> bool" where
  "keeps_permit x = (case x of Inr r \<Rightarrow> body_permit r | Inl (Return r) \<Rightarrow> body_permit r | Inl Panic \<Rightarrow> False)"

abbreviation with_foreground :: "('d, 'f, 'w) handler \<Rightarrow> ('d, 'f, 'w) handler" where
  "with_foreground \<equiv> permit_scope keeps_permit"

section \<open>Channels of requests\<close>

definition strip_prefix :: "string \<Rightarrow> string \<Rightarrow> string option" where
  "strip_prefix p s = (if starts_with p s then Some (drop (length p) s) else None)"

definition credential :: "('d, 'f) AppState \<Rightarrow> headers \<Rightarrow> string option" where
  "credential A hs =
     (case Option.bind (header_get hs ''authorization'') header_str of
        None \<Rightarrow> None
      | Some authorization \<Rightarrow>
          (case strip_prefix ''Bearer '' authorization of
             Some token \<Rightarrow> Some token
           | None \<Rightarrow>
               (case strip_prefix ''Basic '' authorization of
                  Some enc \<Rightarrow>
                    (case Option.bind (base64_standard_decode (framework A) enc) from_utf8 of
                       None \<Rightarrow> None
                     | Some pair \<Rightarrow> map_option snd (split_once CHR '':'' pair))
                | None \<Rightarrow> if starts_with ''flywheel_'' authorization then Some authorization else None)))"

definition invalid_channel :: "('d, 'f) AppState \<Rightarrow> Response" where
  "invalid_channel A = api_error A 400 ''invalid_channel'' ''channel identifier is invalid''"

definition with_header :: "string \<Rightarrow> string \<Rightarrow> Response \<Rightarrow> Response" where
  "with_header name value r =
     r\<lparr>resp_headers := filter (\<lambda>(k, _). k \<noteq> name) (resp_headers r) @ [(name, str_bytes value)]\<rparr>"

definition channel_failure :: "('d, 'f) AppState \<Rightarrow> ChannelError \<Rightarrow> Response" where
  "channel_failure A error =
     (if error = ChannelNotFound \<or> error = ChannelIsDeleting
      then api_error A 404 ''channel_not_found'' ''channel does not exist''
      else if error = Unauthorized
      then with_header ''www-authenticate'' ''Bearer realm=\"flywheel\"''
             (api_error A 401 ''unauthorized'' ''channel credentials are required'')
      else if error = DefaultChannel
      then api_error A 409 ''default_channel'' ''the default channel cannot be deleted''
      else api_error A 500 ''internal'' ''channel operation failed'')"

definition channel_denied :: "('d, 'f) AppState \<Rightarrow> ChannelError \<Rightarrow> ('d, 'f, 'w, 'a) app_act" where
  "channel_denied A error =
     and_then (if error = Unauthorized then tally metrics_authorization_denial else ok ()) (\<lambda>_.
     throw (Return (plain (channel_failure A error))))"

text \<open>\<open>authorize_channel\<close> and \<open>channel_lease\<close> differ in the method they call.\<close>

definition authorize_by ::
  "(ChannelId \<Rightarrow> string option \<Rightarrow> (('d, 'f) node, ChannelError, ChannelRecord) act) \<Rightarrow>
    ('d, 'f) AppState \<Rightarrow> string \<Rightarrow> headers \<Rightarrow> ('d, 'f, 'w, ChannelRecord) app_act" where
  "authorize_by method A channel hs =
     (case ChannelId_from_str (ids (shard A)) channel of
        None \<Rightarrow> throw (Return (plain (invalid_channel A)))
      | Some ch \<Rightarrow>
          and_then (node_call (method ch (credential A hs))) (\<lambda>result.
          case result of
            Inr rec \<Rightarrow> ok rec
          | Inl error \<Rightarrow> channel_denied A error))"

definition authorize_channel :: "('d, 'f) AppState \<Rightarrow> string \<Rightarrow> headers \<Rightarrow> ('d, 'f, 'w, ChannelRecord) app_act" where
  "authorize_channel A = authorize_by (authorize (shard A)) A"

definition channel_lease :: "('d, 'f) AppState \<Rightarrow> string \<Rightarrow> headers \<Rightarrow> ('d, 'f, 'w, ChannelRecord) app_act" where
  "channel_lease A = authorize_by (authorize_with_lease (shard A)) A"

record ChannelContext =
  ctx_channel :: ChannelId
  ctx_scope :: "ChannelId option"
  ctx_access_control :: bool

definition channel_context ::
  "('d, 'f) AppState \<Rightarrow> string option \<Rightarrow> headers \<Rightarrow> ('d, 'f, 'w, ChannelContext) app_act" where
  "channel_context A captured hs =
     (case captured of
        None \<Rightarrow> ok \<lparr>ctx_channel = default_channel, ctx_scope = None, ctx_access_control = False\<rparr>
      | Some channel \<Rightarrow>
          and_then (authorize_channel A channel hs) (\<lambda>rec.
          ok \<lparr>ctx_channel = channel_id rec, ctx_scope = Some (channel_id rec),
              ctx_access_control = is_protected (access rec)\<rparr>))"

definition route_prefix :: "('d, 'f) AppState \<Rightarrow> ChannelContext \<Rightarrow> string" where
  "route_prefix A ctx =
     (case ctx_scope ctx of None \<Rightarrow> [] | Some channel \<Rightarrow> ''/channels/'' @ ChannelId_display (ids (shard A)) channel)"

section \<open>Ranges\<close>

datatype RangeSelection = Full | Partial u64 u64 | Unsatisfiable

definition parse_u64 :: "string \<Rightarrow> u64 option" where
  "parse_u64 s = map_option of_nat (parse_unsigned s)"

definition suffix_range :: "string \<Rightarrow> u64 \<Rightarrow> RangeSelection" where
  "suffix_range stop len =
     (case parse_u64 stop of
        None \<Rightarrow> Full
      | Some n \<Rightarrow> if n = 0 \<or> len = 0 then Unsatisfiable else Partial (saturating_sub len n) (len - 1))"

definition bounded_range :: "u64 \<Rightarrow> u64 option \<Rightarrow> u64 \<Rightarrow> RangeSelection" where
  "bounded_range start stop len =
     (if len \<le> start then Unsatisfiable
      else Partial start (min (case stop of None \<Rightarrow> len - 1 | Some e \<Rightarrow> e) (len - 1)))"

definition parse_range :: "bytes option \<Rightarrow> u64 \<Rightarrow> RangeSelection" where
  "parse_range value len =
     (case Option.bind (Option.bind value header_str) (strip_prefix ''bytes='') of
        None \<Rightarrow> Full
      | Some rng \<Rightarrow>
          if CHR '','' \<in> set rng then Full
          else
            (case split_once CHR ''-'' rng of
               None \<Rightarrow> Full
             | Some (start, stop) \<Rightarrow>
                 if start = [] then suffix_range stop len
                 else
                   (case parse_u64 start of
                      None \<Rightarrow> Full
                    | Some s \<Rightarrow>
                        if stop = [] then bounded_range s None len
                        else
                          (case parse_u64 stop of
                             None \<Rightarrow> Full
                           | Some e \<Rightarrow> if e < s then Full else bounded_range s (Some e) len))))"

section \<open>Serving an artifact\<close>

definition accepts_zstd :: "headers \<Rightarrow> bool" where
  "accepts_zstd hs =
     (case Option.bind (header_get hs ''accept-encoding'') header_str of
        None \<Rightarrow> False
      | Some value \<Rightarrow> list_ex (\<lambda>token. trim (hd (split_on CHR '';'' (trim token))) = ''zstd'') (split_on CHR '','' value))"

text \<open>A reader as a stream, and \<open>AsyncReadExt::take\<close>.\<close>

definition reader_stream :: "bytes \<Rightarrow> body_stream" where
  "reader_stream bs = (if bs = [] then [] else [Inr bs])"

fun take_stream :: "nat \<Rightarrow> body_stream \<Rightarrow> body_stream" where
  "take_stream n [] = []"
| "take_stream n (Inl error # rest) = (if n = 0 then [] else [Inl error])"
| "take_stream n (Inr chunk # rest) =
     (if n = 0 then []
      else if length chunk \<le> n then Inr chunk # take_stream (n - length chunk) rest
      else [Inr (take n chunk)])"

definition etag_of :: "('d, 'f) AppState \<Rightarrow> ArtifactId \<Rightarrow> string" where
  "etag_of A artifact = ''\"'' @ ArtifactId_display (ids (shard A)) artifact @ ''\"''"

definition artifact_headers ::
  "('d, 'f) AppState \<Rightarrow> ArtifactId \<Rightarrow> ArtifactMetadata \<Rightarrow> RangeSelection \<Rightarrow> u64 \<Rightarrow> bool \<Rightarrow> (string \<times> string) list" where
  "artifact_headers A artifact md sel amount passthrough =
     [(''content-length'', decimal (unat (if passthrough then stored_len md else amount))), (''etag'', etag_of A artifact)]
     @ (if encoding md = Identity then [(''accept-ranges'', ''bytes'')] else [])
     @ (if encoding md = Zstd then [(''vary'', ''accept-encoding'')] else [])
     @ (if passthrough then [(''content-encoding'', ''zstd'')] else [])
     @ (case content_type md of None \<Rightarrow> [] | Some t \<Rightarrow> [(''content-type'', t)])
     @ (case sel of
          Partial start stop \<Rightarrow>
            [(''content-range'', ''bytes '' @ decimal (unat start) @ ''-'' @ decimal (unat stop) @ ''/''
                @ decimal (unat (content_len md)))]
        | _ \<Rightarrow> [])"

definition located_reply ::
  "('d, 'f) AppState \<Rightarrow> ArtifactId \<Rightarrow> LocatedArtifact \<Rightarrow> headers \<Rightarrow> bool \<Rightarrow> ('d, 'f, 'w) handler" where
  "located_reply A artifact located hs head =
     (let md = located_metadata located;
          sel = (if \<not> head \<and> encoding md = Identity then parse_range (header_get hs ''range'') (content_len md) else Full);
          passthrough = (encoding md = Zstd \<and> accepts_zstd hs)
      in case sel of
           Unsatisfiable \<Rightarrow>
             built 416 [(''accept-ranges'', ''bytes''), (''content-range'', ''bytes */'' @ decimal (unat (content_len md))),
               (''etag'', etag_of A artifact)] [] False
         | _ \<Rightarrow>
             (let (start, amount) = (case sel of Partial s e \<Rightarrow> (s, e - s + 1) | _ \<Rightarrow> (0, content_len md));
                  code = (case sel of Partial _ _ \<Rightarrow> 206 | _ \<Rightarrow> 200);
                  fields = artifact_headers A artifact md sel amount passthrough
              in if head \<or> (amount = 0 \<and> \<not> passthrough) then built code fields [] False
                 else case encoding md of
                   Zstd \<Rightarrow>
                     if passthrough then built code fields (reader_stream (located_file located)) True
                     else built code fields
                            (take_stream (unat amount) (zstd_reader (framework A) (located_file located))) True
                 | Identity \<Rightarrow>
                     if 0 < start \<and> seek_fails (framework A) (located_file located) start then ok (status_reply 500)
                     else built code fields
                            (reader_stream (take (unat amount) (drop (unat start) (located_file located)))) True))"

definition serve_artifact ::
  "('d, 'f) AppState \<Rightarrow> ChannelId \<Rightarrow> ArtifactId \<Rightarrow> headers \<Rightarrow> bool \<Rightarrow> ('d, 'f, 'w) handler" where
  "serve_artifact A channel artifact hs head =
     with_foreground
       (and_then (node_call (locate (shard A) channel artifact)) (\<lambda>found.
        case found of
          Inr (Some located) \<Rightarrow> located_reply A artifact located hs head
        | Inr None \<Rightarrow> ok (status_reply 404)
        | Inl _ \<Rightarrow> ok (status_reply 500)))"

section \<open>Artifacts and build caches\<close>

definition cache_write_failure :: "CacheError \<Rightarrow> ('d, 'f, 'w) handler" where
  "cache_write_failure error =
     (if error = CacheLocal OutOfSpace
      then and_then (tally metrics_raw_pressure_error) (\<lambda>_. ok (plain insufficient_storage))
      else if error = CacheLocal DigestMismatch then ok (status_reply 409)
      else if error = CacheLocal TooLarge then ok (status_reply 413)
      else if error = ChannelDeleting \<or> error = MissingChannel then ok (status_reply 404)
      else ok (status_reply 500))"

definition cache_write_failure_with_bypass :: "CacheError \<Rightarrow> ('d, 'f, 'w) handler" where
  "cache_write_failure_with_bypass error =
     (if error = CacheLocal OutOfSpace
      then and_then (tally metrics_build_cache_bypass) (\<lambda>_. ok (status_reply 200))
      else cache_write_failure error)"

definition content_type_of :: "headers \<Rightarrow> string option" where
  "content_type_of hs = header_string hs ''content-type''"

text \<open>The request every upload handler makes, and the handler's match on its result.\<close>

definition upload_request :: "ChannelId \<Rightarrow> PublicationTarget \<Rightarrow> Durability \<Rightarrow> StoredEncoding \<Rightarrow> Request \<Rightarrow> PublishRequest" where
  "upload_request channel target dur enc request =
     \<lparr>req_channel = channel, req_target = target, req_content_type = content_type_of (req_headers request),
      req_stream = req_body request, req_content_length = content_length (req_headers request),
      req_durability = dur, req_encoding = enc\<rparr>"

definition upload ::
  "('d, 'f) AppState \<Rightarrow> PublishRequest \<Rightarrow> (Publication \<Rightarrow> StatusCode) \<Rightarrow> (CacheError \<Rightarrow> ('d, 'f, 'w) handler) \<Rightarrow>
    ('d, 'f, 'w) handler" where
  "upload A publish_request success failure =
     with_foreground
       (and_then (node_call (service_publish (shard A) publish_request)) (\<lambda>result.
        case result of
          Inr publication \<Rightarrow> ok (status_reply (success publication))
        | Inl error \<Rightarrow> failure error))"

definition put_artifact :: "('d, 'f) AppState \<Rightarrow> ChannelContext \<Rightarrow> string \<Rightarrow> string \<Rightarrow> Request \<Rightarrow> ('d, 'f, 'w) handler" where
  "put_artifact A ctx algorithm dig request =
     (case ArtifactId_parse (ids (shard A)) algorithm dig of
        Inl _ \<Rightarrow> ok (status_reply 400)
      | Inr artifact \<Rightarrow>
          upload A (upload_request (ctx_channel ctx) (ById artifact) Durable Identity request)
            (\<lambda>publication. if pub_outcome publication = PublicationCreated then 201 else 204) cache_write_failure)"

definition get_artifact :: "('d, 'f) AppState \<Rightarrow> ChannelContext \<Rightarrow> string \<Rightarrow> string \<Rightarrow> Request \<Rightarrow> ('d, 'f, 'w) handler" where
  "get_artifact A ctx algorithm dig request =
     (case ArtifactId_parse (ids (shard A)) algorithm dig of
        Inl _ \<Rightarrow> ok (status_reply 400)
      | Inr artifact \<Rightarrow>
          serve_artifact A (ctx_channel ctx) artifact (req_headers request) (req_method request = HEAD))"

definition build_reference :: "string \<Rightarrow> string \<Rightarrow> string" where
  "build_reference kind key = ''build:'' @ kind @ '':'' @ key"

definition serve_reference_artifact ::
  "('d, 'f) AppState \<Rightarrow> ChannelId \<Rightarrow> string \<Rightarrow> headers \<Rightarrow> bool \<Rightarrow> ('d, 'f, 'w) handler" where
  "serve_reference_artifact A channel reference hs head =
     and_then (permit_scope (\<lambda>_. False) (node_call (resolve_reference (shard A) channel reference))) (\<lambda>resolved.
     case resolved of
       Inr (Some rec) \<Rightarrow> serve_artifact A channel (ref_artifact rec) hs head
     | Inr None \<Rightarrow> ok (status_reply 404)
     | Inl _ \<Rightarrow> ok (status_reply 500))"

definition put_http_cache :: "('d, 'f) AppState \<Rightarrow> ChannelContext \<Rightarrow> string \<Rightarrow> Request \<Rightarrow> ('d, 'f, 'w) handler" where
  "put_http_cache A ctx key request =
     (if \<not> Reference_is_valid key then ok (status_reply 400)
      else
        upload A (upload_request (ctx_channel ctx) (ContentAddressed (Some (build_reference ''http'' key))) BestEffort Zstd request)
          (\<lambda>_. 200) cache_write_failure_with_bypass)"

definition get_http_cache :: "('d, 'f) AppState \<Rightarrow> ChannelContext \<Rightarrow> string \<Rightarrow> Request \<Rightarrow> ('d, 'f, 'w) handler" where
  "get_http_cache A ctx key request =
     serve_reference_artifact A (ctx_channel ctx) (build_reference ''http'' key) (req_headers request)
       (req_method request = HEAD)"

definition put_bazel_cas :: "('d, 'f) AppState \<Rightarrow> ChannelContext \<Rightarrow> string \<Rightarrow> Request \<Rightarrow> ('d, 'f, 'w) handler" where
  "put_bazel_cas A ctx digest_text request =
     (case ArtifactId_parse (ids (shard A)) ''sha256'' digest_text of
        Inl _ \<Rightarrow> ok (status_reply 400)
      | Inr artifact \<Rightarrow>
          upload A (upload_request (ctx_channel ctx) (ById artifact) Durable Identity request) (\<lambda>_. 200) cache_write_failure)"

definition get_bazel_cas :: "('d, 'f) AppState \<Rightarrow> ChannelContext \<Rightarrow> string \<Rightarrow> Request \<Rightarrow> ('d, 'f, 'w) handler" where
  "get_bazel_cas A ctx digest_text request = get_artifact A ctx ''sha256'' digest_text request"

definition put_bazel_ac :: "('d, 'f) AppState \<Rightarrow> ChannelContext \<Rightarrow> string \<Rightarrow> Request \<Rightarrow> ('d, 'f, 'w) handler" where
  "put_bazel_ac A ctx digest_text request =
     (case ArtifactId_parse (ids (shard A)) ''sha256'' digest_text of
        Inl _ \<Rightarrow> ok (status_reply 400)
      | Inr _ \<Rightarrow>
          upload A
            (upload_request (ctx_channel ctx) (ContentAddressed (Some (build_reference ''bazel-ac'' digest_text))) BestEffort Zstd
               request)
            (\<lambda>_. 200) cache_write_failure_with_bypass)"

definition get_bazel_ac :: "('d, 'f) AppState \<Rightarrow> ChannelContext \<Rightarrow> string \<Rightarrow> Request \<Rightarrow> ('d, 'f, 'w) handler" where
  "get_bazel_ac A ctx digest_text request =
     serve_reference_artifact A (ctx_channel ctx) (build_reference ''bazel-ac'' digest_text) (req_headers request)
       (req_method request = HEAD)"

section \<open>References\<close>

definition invalid_reference :: "('d, 'f) AppState \<Rightarrow> Reply" where
  "invalid_reference A = plain (api_error A 400 ''invalid_reference'' ''reference is not URL-safe'')"

definition reference_failure :: "('d, 'f) AppState \<Rightarrow> string \<Rightarrow> CacheError \<Rightarrow> Reply" where
  "reference_failure A message error =
     (if error = ChannelDeleting \<or> error = MissingChannel
      then plain (api_error A 404 ''channel_not_found'' ''channel does not exist'')
      else plain (api_error A 500 ''internal'' message))"

text \<open>
  The channel's rejection is held until the body has parsed, so that a malformed payload is
  answered as such whatever the channel.
\<close>

definition put_reference ::
  "('d, 'f) AppState \<Rightarrow> string option \<Rightarrow> string \<Rightarrow> Request \<Rightarrow> ('d, 'f, 'w) handler" where
  "put_reference A captured path request =
     outcome (channel_context A captured (req_headers request)) (\<lambda>ctx.
     and_then (case binding_payload (framework A) request of Inl r \<Rightarrow> throw (Return (plain r)) | Inr b \<Rightarrow> ok b) (\<lambda>binding.
     and_then (lift_result ctx) (\<lambda>context.
     case Reference_parse path of
       None \<Rightarrow> ok (invalid_reference A)
     | Some reference \<Rightarrow>
         (case ArtifactId_parse (ids (shard A)) (binding_algorithm binding) (binding_digest binding) of
            Inl _ \<Rightarrow> ok (plain (api_error A 400 ''invalid_artifact'' ''artifact identity is invalid''))
          | Inr artifact \<Rightarrow>
              with_foreground
                (and_then (node_call (bind_reference (shard A) (ctx_channel context) reference artifact)) (\<lambda>result.
                 case result of
                   Inr _ \<Rightarrow> ok (status_reply 204)
                 | Inl error \<Rightarrow> ok (reference_failure A ''reference update failed'' error)))))))"

definition get_reference :: "('d, 'f) AppState \<Rightarrow> ChannelContext \<Rightarrow> string \<Rightarrow> ('d, 'f, 'w) handler" where
  "get_reference A ctx path =
     (case Reference_parse path of
        None \<Rightarrow> ok (invalid_reference A)
      | Some reference \<Rightarrow>
          with_foreground
            (and_then (node_call (resolve_reference (shard A) (ctx_channel ctx) reference)) (\<lambda>result.
             case result of
               Inr (Some rec) \<Rightarrow>
                 ok (plain (json_reply (framework A) 200
                   (Object [(''algorithm'', String ''sha256''),
                     (''digest'', String (Digest_display (ids (shard A)) (digest (ref_artifact rec))))])))
             | Inr None \<Rightarrow> ok (plain (api_error A 404 ''reference_not_found'' ''reference does not exist''))
             | Inl _ \<Rightarrow> ok (plain (api_error A 500 ''internal'' ''reference lookup failed'')))))"

definition delete_reference_handler :: "('d, 'f) AppState \<Rightarrow> ChannelContext \<Rightarrow> string \<Rightarrow> ('d, 'f, 'w) handler" where
  "delete_reference_handler A ctx path =
     (case Reference_parse path of
        None \<Rightarrow> ok (invalid_reference A)
      | Some reference \<Rightarrow>
          with_foreground
            (and_then (node_call (delete_reference (shard A) (ctx_channel ctx) reference)) (\<lambda>result.
             case result of
               Inr _ \<Rightarrow> ok (status_reply 204)
             | Inl error \<Rightarrow> ok (reference_failure A ''reference deletion failed'' error))))"

section \<open>Channels\<close>

definition ChannelView :: "('d, 'f) AppState \<Rightarrow> ChannelRecord \<Rightarrow> string option \<Rightarrow> Value" where
  "ChannelView A rec token =
     Object ([(''channel'', String (ChannelId_display (ids (shard A)) (channel_id rec)))]
       @ (case token of None \<Rightarrow> [] | Some t \<Rightarrow> [(''token'', String t)])
       @ [(''access_control'', Bool (is_protected (access rec))),
          (''expiry_seconds'', Number (decimal (unat (expiry_seconds rec)))),
          (''state'', String (case lifecycle rec of Active \<Rightarrow> ''active'' | Deleting \<Rightarrow> ''deleting''))])"

definition invalid_policy :: "('d, 'f) AppState \<Rightarrow> Reply" where
  "invalid_policy A = plain (api_error A 400 ''invalid_policy'' ''expiry must be positive'')"

definition register_channel :: "('d, 'f) AppState \<Rightarrow> Request \<Rightarrow> ('d, 'f, 'w) handler" where
  "register_channel A request =
     and_then (case register_payload (framework A) request of Inl r \<Rightarrow> throw (Return (plain r)) | Inr p \<Rightarrow> ok p) (\<lambda>payload.
     let protected = (case reg_access_control payload of None \<Rightarrow> False | Some b \<Rightarrow> b);
         expiry = (case reg_expiry_seconds payload of None \<Rightarrow> default_expiry_seconds A | Some e \<Rightarrow> e)
     in if expiry = 0 then ok (invalid_policy A)
        else
          and_then (node_call (register (shard A) protected expiry)) (\<lambda>result.
          case result of
            Inr issued \<Rightarrow> ok (plain (json_reply (framework A) 201 (ChannelView A (issued_record issued) (issued_token issued))))
          | Inl error \<Rightarrow> ok (plain (channel_failure A error))))"

definition get_channel :: "('d, 'f) AppState \<Rightarrow> string \<Rightarrow> headers \<Rightarrow> ('d, 'f, 'w) handler" where
  "get_channel A channel hs =
     and_then (authorize_channel A channel hs) (\<lambda>rec. ok (plain (json_reply (framework A) 200 (ChannelView A rec None))))"

definition patch_channel :: "('d, 'f) AppState \<Rightarrow> string \<Rightarrow> Request \<Rightarrow> ('d, 'f, 'w) handler" where
  "patch_channel A channel request =
     (case patch_payload (framework A) request of
        Inl _ \<Rightarrow> ok (plain (api_error A 400 ''invalid_patch'' ''only expiry_seconds may be changed''))
      | Inr patch \<Rightarrow>
          and_then (channel_lease A channel (req_headers request)) (\<lambda>lease.
          let expiry = (case patch_expiry_seconds patch of None \<Rightarrow> expiry_seconds lease | Some e \<Rightarrow> e)
          in if expiry = 0 then ok (invalid_policy A)
             else
               and_then (node_call (update_expiry (shard A) lease expiry)) (\<lambda>result.
               case result of
                 Inr rec \<Rightarrow> ok (plain (json_reply (framework A) 200 (ChannelView A rec None)))
               | Inl error \<Rightarrow> ok (plain (channel_failure A error)))))"

definition delete_channel_handler :: "('d, 'f) AppState \<Rightarrow> string \<Rightarrow> headers \<Rightarrow> ('d, 'f, 'w) handler" where
  "delete_channel_handler A channel hs =
     (case ChannelId_from_str (ids (shard A)) channel of
        None \<Rightarrow> ok (plain (invalid_channel A))
      | Some ch \<Rightarrow>
          and_then (node_call (delete_channel (shard A) ch (credential A hs))) (\<lambda>result.
          case result of
            Inr _ \<Rightarrow> ok (status_reply 202)
          | Inl error \<Rightarrow> ok (plain (channel_failure A error))))"

section \<open>Health and metrics\<close>

definition ready_handler :: "('d, 'f) AppState \<Rightarrow> ('d, 'f, 'w) handler" where
  "ready_handler A =
     and_then (node_call (ready (shard A))) (\<lambda>result.
     ok (status_reply (case result of Inr _ \<Rightarrow> 200 | Inl _ \<Rightarrow> 503)))"

definition metrics_handler :: "('d, 'f) AppState \<Rightarrow> ('d, 'f, 'w) handler" where
  "metrics_handler A = (\<lambda>w.
     case encode_registry (framework A) (stats (app_node w)) (prefetch_metrics w) of
       Inr body \<Rightarrow> built 200 [(''content-type'', ''text/plain; version=0.0.4'')] (reader_stream body) False w
     | Inl _ \<Rightarrow> ok (status_reply 500) w)"

end
