(* ===== verification/Http_Packages.thy ===== *)
theory Http_Packages
  imports Http_Server
begin

text \<open>
  The package routes of a shard (\<open>src/transport/http/packages.rs\<close>), the table of all routes and the
  life of one request, from the counting middleware to the drop of the response body
  (\<open>src/transport/http/mod.rs\<close>).
\<close>

section \<open>Answers of the proxy\<close>

definition proxy_failure :: "ProxyError \<Rightarrow> Response" where
  "proxy_failure error =
     (case error of
        Busy \<Rightarrow> busy_response
      | DisallowedOrigin \<Rightarrow> status_response 403
      | _ \<Rightarrow> status_response 502)"

definition typed :: "string option \<Rightarrow> (string \<times> string) list" where
  "typed ctype = (case ctype of None \<Rightarrow> [] | Some t \<Rightarrow> [(''content-type'', t)])"

definition upstream_response :: "StatusCode \<Rightarrow> string option \<Rightarrow> body_stream \<Rightarrow> ('d, 'f, 'w) handler" where
  "upstream_response s ctype body = built s (typed ctype) body False"

definition outcome_response :: "('d, 'f) AppState \<Rightarrow> ChannelId \<Rightarrow> ProxyOutcome \<Rightarrow> ('d, 'f, 'w) handler" where
  "outcome_response A channel outc =
     (case outc of
        Artifact artifact \<Rightarrow> serve_artifact A channel artifact [] False
      | CachedMetadata body ctype \<Rightarrow>
          built 200 ([(''content-length'', decimal (length body))] @ typed ctype) (reader_stream body) False
      | Upstream s body ctype \<Rightarrow> upstream_response s ctype (reader_stream body)
      | UpstreamStream s body ctype \<Rightarrow> upstream_response s ctype body)"

definition answer_proxy ::
  "('d, 'f) AppState \<Rightarrow> ChannelId \<Rightarrow> ('d, 'f, 'w, ProxyOutcome) proxy_act \<Rightarrow> ('d, 'f, 'w) handler" where
  "answer_proxy A channel fetching =
     and_then (proxy_call fetching) (\<lambda>result.
     case result of
       Inr outc \<Rightarrow> outcome_response A channel outc
     | Inl error \<Rightarrow> ok (plain (proxy_failure error)))"

definition packages_fetch ::
  "('d, 'f) AppState \<Rightarrow> 'w getter \<Rightarrow> ChannelId \<Rightarrow> Protocol \<Rightarrow> string \<Rightarrow> Transform \<Rightarrow> ('d, 'f, 'w) handler" where
  "packages_fetch A get channel protocol path transform =
     answer_proxy A channel (fetch (app_proxy A) get channel protocol path transform)"

definition packages_fetch_encoded ::
  "('d, 'f) AppState \<Rightarrow> 'w getter \<Rightarrow> ChannelId \<Rightarrow> Protocol \<Rightarrow> string \<Rightarrow> string \<Rightarrow> ('d, 'f, 'w) handler" where
  "packages_fetch_encoded A get channel protocol enc sfx =
     answer_proxy A channel (fetch_encoded_url (app_proxy A) get channel protocol enc sfx)"

section \<open>The package handlers\<close>

definition accept_header :: "headers \<Rightarrow> string option" where
  "accept_header hs = header_string hs ''accept''"

definition go_handler :: "('d, 'f) AppState \<Rightarrow> 'w getter \<Rightarrow> ChannelContext \<Rightarrow> string \<Rightarrow> ('d, 'f, 'w) handler" where
  "go_handler A get ctx path = packages_fetch A get (ctx_channel ctx) Go path No_transform"

text \<open>The parser of qualities is a parameter of the negotiation.\<close>

definition fetch_python_simple ::
  "('d, 'f) AppState \<Rightarrow> 'w getter \<Rightarrow> (string \<Rightarrow> f32 option) \<Rightarrow> ChannelContext \<Rightarrow> string \<Rightarrow> headers \<Rightarrow> ('d, 'f, 'w) handler" where
  "fetch_python_simple A get parse_f32 ctx path hs =
     (case python_simple parse_f32 (route_prefix A ctx) path (accept_header hs) of
        None \<Rightarrow> ok (status_reply 406)
      | Some transform \<Rightarrow> packages_fetch A get (ctx_channel ctx) Python path transform)"

definition strip_suffix :: "string \<Rightarrow> string \<Rightarrow> string option" where
  "strip_suffix sfx s =
     (if length sfx \<le> length s \<and> drop (length s - length sfx) s = sfx then Some (take (length s - length sfx) s) else None)"

definition sidecar :: "string \<Rightarrow> string \<times> string" where
  "sidecar path =
     (case find_map (\<lambda>sfx. map_option (\<lambda>enc. (enc, sfx)) (strip_suffix sfx path)) [''.metadata'', ''.asc''] of
        Some found \<Rightarrow> found
      | None \<Rightarrow> (path, []))"

definition python_file :: "('d, 'f) AppState \<Rightarrow> 'w getter \<Rightarrow> ChannelContext \<Rightarrow> string \<Rightarrow> ('d, 'f, 'w) handler" where
  "python_file A get ctx path =
     (let (enc, sfx) = sidecar path in packages_fetch_encoded A get (ctx_channel ctx) Python enc sfx)"

definition npm_handler ::
  "('d, 'f) AppState \<Rightarrow> 'w getter \<Rightarrow> (string \<Rightarrow> f32 option) \<Rightarrow> ChannelContext \<Rightarrow> string \<Rightarrow> headers \<Rightarrow> ('d, 'f, 'w) handler" where
  "npm_handler A get parse_f32 ctx path hs =
     (case strip_prefix ''-/tarball/'' path of
        Some enc \<Rightarrow> packages_fetch_encoded A get (ctx_channel ctx) Npm enc []
      | None \<Rightarrow>
          (case npm_metadata parse_f32 (route_prefix A ctx) (accept_header hs) of
             None \<Rightarrow> ok (status_reply 406)
           | Some transform \<Rightarrow> packages_fetch A get (ctx_channel ctx) Npm path transform))"

definition cargo_index :: "('d, 'f) AppState \<Rightarrow> 'w getter \<Rightarrow> ChannelContext \<Rightarrow> string \<Rightarrow> ('d, 'f, 'w) handler" where
  "cargo_index A get ctx path = packages_fetch A get (ctx_channel ctx) CargoIndex path No_transform"

definition cargo_config :: "('d, 'f) AppState \<Rightarrow> ChannelContext \<Rightarrow> ('d, 'f, 'w) handler" where
  "cargo_config A ctx =
     ok (plain (json_reply (framework A) 200
       (Object [(''api'', Null), (''auth-required'', Bool (ctx_access_control ctx)),
         (''dl'', String (route_prefix A ctx @ ''/proxy/cargo/crates''))])))"

definition fetch_cargo_crate ::
  "('d, 'f) AppState \<Rightarrow> 'w getter \<Rightarrow> ChannelId \<Rightarrow> string \<Rightarrow> string \<Rightarrow> ('d, 'f, 'w) handler" where
  "fetch_cargo_crate A get channel name version =
     (if name = [] \<or> version = [] \<or> CHR ''/'' \<in> set name \<or> CHR ''/'' \<in> set version then ok (status_reply 400)
      else packages_fetch A get channel CargoCrate (name @ ''/'' @ name @ ''-'' @ version @ ''.crate'') No_transform)"

section \<open>Routes\<close>

text \<open>A route the framework matched, with its decoded captures.\<close>

datatype DataRoute =
    ArtifactsAt string string
  | ReferencesAt string
  | HttpCacheAt string
  | BazelAcAt string
  | BazelCasAt string
  | GoAt string
  | PythonSimpleRoot
  | PythonSimpleSlash
  | PythonSimpleAt string
  | PythonFileAt string
  | NpmAt string
  | CargoConfigFile
  | CargoIndexAt string
  | CargoCrateAt string string

text \<open>A data route carries the channel of its \<open>/channels/{channel}\<close> prefix, if it has one.\<close>

datatype Route =
    HealthLive
  | HealthReady
  | MetricsPage
  | ChannelsPage
  | ChannelAt string
  | Data "string option" DataRoute
  | Unmatched

fun data_path :: "DataRoute \<Rightarrow> string" where
  "data_path (ArtifactsAt _ _) = ''/artifacts/{algorithm}/{digest}''"
| "data_path (ReferencesAt _) = ''/references/{reference}''"
| "data_path (HttpCacheAt _) = ''/build-cache/http/{key}''"
| "data_path (BazelAcAt _) = ''/build-cache/bazel/ac/{hash}''"
| "data_path (BazelCasAt _) = ''/build-cache/bazel/cas/{hash}''"
| "data_path (GoAt _) = ''/proxy/go/{*path}''"
| "data_path PythonSimpleRoot = ''/proxy/python/simple''"
| "data_path PythonSimpleSlash = ''/proxy/python/simple/''"
| "data_path (PythonSimpleAt _) = ''/proxy/python/simple/{*path}''"
| "data_path (PythonFileAt _) = ''/proxy/python/files/{encoded}''"
| "data_path (NpmAt _) = ''/proxy/npm/{*path}''"
| "data_path CargoConfigFile = ''/proxy/cargo/index/config.json''"
| "data_path (CargoIndexAt _) = ''/proxy/cargo/index/{*path}''"
| "data_path (CargoCrateAt _ _) = ''/proxy/cargo/crates/{crate}/{version}/download''"

fun matched_path :: "Route \<Rightarrow> string" where
  "matched_path HealthLive = ''/health/live''"
| "matched_path HealthReady = ''/health/ready''"
| "matched_path MetricsPage = ''/metrics''"
| "matched_path ChannelsPage = ''/channels''"
| "matched_path (ChannelAt _) = ''/channels/{channel}''"
| "matched_path (Data (Some _) r) = ''/channels/{channel}'' @ data_path r"
| "matched_path (Data None r) = data_path r"
| "matched_path Unmatched = ''unmatched''"

text \<open>\<open>get\<close> routes also take \<open>HEAD\<close>; a method no route lists is answered by the framework.\<close>

definition reads :: "Request \<Rightarrow> bool" where
  "reads request \<longleftrightarrow> req_method request = GET \<or> req_method request = HEAD"

definition by_method ::
  "(Method \<times> ('d, 'f, 'w) handler) list \<Rightarrow> Request \<Rightarrow> ('d, 'f, 'w) handler" where
  "by_method table request =
     (case map_of table (if reads request then GET else req_method request) of
        Some h \<Rightarrow> h
      | None \<Rightarrow> ok (status_reply 405))"

definition data_router ::
  "('d, 'f) AppState \<Rightarrow> 'w getter \<Rightarrow> (string \<Rightarrow> f32 option) \<Rightarrow> string option \<Rightarrow> Request \<Rightarrow> DataRoute \<Rightarrow>
    (Method \<times> ('d, 'f, 'w) handler) list" where
  "data_router A get parse_f32 captured request route =
     (let hs = req_headers request; inside = (\<lambda>h. and_then (channel_context A captured hs) h)
      in case route of
           ArtifactsAt alg dig \<Rightarrow>
             [(GET, inside (\<lambda>ctx. get_artifact A ctx alg dig request)), (PUT, inside (\<lambda>ctx. put_artifact A ctx alg dig request))]
         | ReferencesAt name \<Rightarrow>
             [(GET, inside (\<lambda>ctx. get_reference A ctx name)), (PUT, put_reference A captured name request),
              (DELETE, inside (\<lambda>ctx. delete_reference_handler A ctx name))]
         | HttpCacheAt key \<Rightarrow>
             [(GET, inside (\<lambda>ctx. get_http_cache A ctx key request)), (PUT, inside (\<lambda>ctx. put_http_cache A ctx key request))]
         | BazelAcAt key \<Rightarrow>
             [(GET, inside (\<lambda>ctx. get_bazel_ac A ctx key request)), (PUT, inside (\<lambda>ctx. put_bazel_ac A ctx key request))]
         | BazelCasAt key \<Rightarrow>
             [(GET, inside (\<lambda>ctx. get_bazel_cas A ctx key request)), (PUT, inside (\<lambda>ctx. put_bazel_cas A ctx key request))]
         | GoAt path \<Rightarrow> [(GET, inside (\<lambda>ctx. go_handler A get ctx path))]
         | PythonSimpleRoot \<Rightarrow> [(GET, inside (\<lambda>ctx. fetch_python_simple A get parse_f32 ctx [] hs))]
         | PythonSimpleSlash \<Rightarrow> [(GET, inside (\<lambda>ctx. fetch_python_simple A get parse_f32 ctx [] hs))]
         | PythonSimpleAt path \<Rightarrow> [(GET, inside (\<lambda>ctx. fetch_python_simple A get parse_f32 ctx path hs))]
         | PythonFileAt path \<Rightarrow> [(GET, inside (\<lambda>ctx. python_file A get ctx path))]
         | NpmAt path \<Rightarrow> [(GET, inside (\<lambda>ctx. npm_handler A get parse_f32 ctx path hs))]
         | CargoConfigFile \<Rightarrow> [(GET, inside (\<lambda>ctx. cargo_config A ctx))]
         | CargoIndexAt path \<Rightarrow> [(GET, inside (\<lambda>ctx. cargo_index A get ctx path))]
         | CargoCrateAt name version \<Rightarrow> [(GET, inside (\<lambda>ctx. fetch_cargo_crate A get (ctx_channel ctx) name version))])"

definition router ::
  "('d, 'f) AppState \<Rightarrow> 'w getter \<Rightarrow> (string \<Rightarrow> f32 option) \<Rightarrow> Route \<Rightarrow> Request \<Rightarrow> ('d, 'f, 'w) handler" where
  "router A get parse_f32 route request =
     (case route of
        HealthLive \<Rightarrow> by_method [(GET, ok (status_reply 200))] request
      | HealthReady \<Rightarrow> by_method [(GET, ready_handler A)] request
      | MetricsPage \<Rightarrow> by_method [(GET, metrics_handler A)] request
      | ChannelsPage \<Rightarrow> by_method [(POST, register_channel A request)] request
      | ChannelAt channel \<Rightarrow>
          by_method [(GET, get_channel A channel (req_headers request)), (PATCH, patch_channel A channel request),
            (DELETE, delete_channel_handler A channel (req_headers request))] request
      | Data captured data \<Rightarrow> by_method (data_router A get parse_f32 captured request data) request
      | Unmatched \<Rightarrow> ok (status_reply 404))"

section \<open>The life of a request\<close>

text \<open>A handler that panics leaves no answer.\<close>

definition respond :: "('d, 'f, 'w) handler \<Rightarrow> ('d, 'f, 'w) app_world \<Rightarrow> Reply option \<times> ('d, 'f, 'w) app_world" where
  "respond h w =
     (case h w of
        (Inr r, w') \<Rightarrow> (Some r, w')
      | (Inl (Return r), w') \<Rightarrow> (Some r, w')
      | (Inl Panic, w') \<Rightarrow> (None, w'))"

text \<open>
  \<open>count_request\<close> and what follows it: the client polls the body \<open>polls\<close> times and drops it,
  and with it the permit the body holds and the observation of a prefetch. The body of an
  answer to \<open>HEAD\<close> is dropped by the framework before anything polls it.
\<close>

definition count_request ::
  "('d, 'f) AppState \<Rightarrow> 'w getter \<Rightarrow> (string \<Rightarrow> f32 option) \<Rightarrow> nat \<Rightarrow> Route \<Rightarrow> Request \<Rightarrow> ('d, 'f, 'w) app_world \<Rightarrow>
    Response option \<times> ('d, 'f, 'w) app_world" where
  "count_request A get parse_f32 polls route request w =
     (let w = on_node (\<lambda>n. n\<lparr>stats := (stats n)\<lparr>requests := requests (stats n) + 1\<rparr>\<rparr>) w;
          polls = (if req_method request = HEAD then 0 else polls);
          prefetch = is_prefetch request;
          session = Option.bind (header_get (req_headers request) request_session_header) header_str;
          concurrency =
            Option.bind (Option.bind (header_get (req_headers request) request_prefetch_concurrency_header) header_str)
              parse_unsigned;
          (obs, m) = (if prefetch
            then map_prod Some id (observation_start prefetch_started session concurrency (prefetch_metrics w))
            else (None, prefetch_metrics w));
          (answer, w) = respond (router A get parse_f32 route request) (w\<lparr>prefetch_metrics := m\<rparr>)
      in case answer of
           None \<Rightarrow>
             (None, case obs of
                None \<Rightarrow> w
              | Some ob \<Rightarrow> w\<lparr>prefetch_metrics := observation_drop prefetch_finished ob (prefetch_metrics w)\<rparr>)
         | Some r \<Rightarrow>
             (let w = w\<lparr>durations := durations w @ [(req_method request, matched_path route, resp_status (reply r))]\<rparr>;
                  (response, m) = (case obs of
                     None \<Rightarrow> ((reply r)\<lparr>resp_body := take polls (resp_body (reply r))\<rparr>, prefetch_metrics w)
                   | Some ob \<Rightarrow>
                       observe_prefetch_body prefetch_response prefetch_finished polls (reply r) (ob, prefetch_metrics w));
                  w = w\<lparr>prefetch_metrics := m\<rparr>
              in (Some response, if body_permit r then drop_permit w else w)))"

end
