(* ===== verification/Http_Invariant.thy ===== *)
theory Http_Invariant
  imports Watched Http_Packages
begin

text \<open>
  What every request keeps. The locale \<open>served_node\<close> lists what the handlers call of the
  services and the proxy and concludes that a predicate these calls keep is kept by every
  request; it is interpreted on the shard's invariant and on the contents of the store. A
  second group of lemmas follows the foreground permits.
\<close>

section \<open>Handlers\<close>

abbreviation on_app :: "(('d, 'f) node \<Rightarrow> bool) \<Rightarrow> ('d, 'f, 'w) app_world \<Rightarrow> bool" where
  "on_app Q w \<equiv> Q (app_node w)"

lemma keeps_node_call: "keeps Q m \<Longrightarrow> keeps (on_app Q) (node_call m)"
  by (rule keepsI) (auto simp: node_call_def on_node_def dest: keepsD split: prod.splits)

lemma keeps_proxy_call: "keeps (\<lambda>p. Q (shard_node p)) m \<Longrightarrow> keeps (on_app Q) (proxy_call m)"
  by (rule keepsI) (auto simp: proxy_call_def dest: keepsD split: prod.splits)

lemma keeps_built: "keeps P (built s hs body permit)"
  unfolding built_def by (intro act_keeps)

lemma keeps_unless: "keeps P m \<Longrightarrow> (\<not> b \<Longrightarrow> keeps P n) \<Longrightarrow> keeps P (if b then m else n)"
  by simp

text \<open>A request runs its handler once; around it only counters change, and a permit in the body is dropped at the end.\<close>

definition counted_in :: "('d, 'f, 'w) app_world \<Rightarrow> PrefetchMetrics \<Rightarrow> ('d, 'f, 'w) app_world" where
  "counted_in w m = (on_node (\<lambda>n. n\<lparr>stats := (stats n)\<lparr>requests := requests (stats n) + 1\<rparr>\<rparr>) w)\<lparr>prefetch_metrics := m\<rparr>"

lemma observe_body_response:
  "fst (observe_prefetch_body response finished polls resp obs) = resp\<lparr>resp_body := take polls (resp_body resp)\<rparr>"
  by (cases obs) (simp add: observe_prefetch_body_def set_status_def case_prod_beta drain_items)

lemma drop_permit_frame [simp]:
  "proxied (drop_permit (w\<lparr>prefetch_metrics := m\<rparr>)) = proxied (drop_permit w)"
  "proxied (drop_permit (w\<lparr>durations := d\<rparr>)) = proxied (drop_permit w)"
  "foreground (drop_permit w) = foreground w + 1" "prefetch_metrics (drop_permit w) = prefetch_metrics w"
  by (simp_all add: drop_permit_def on_node_def)

definition after_request ::
  "nat \<Rightarrow> Request \<Rightarrow> Reply option \<Rightarrow> ('d, 'f, 'w) app_world \<Rightarrow> Response option \<Rightarrow> ('d, 'f, 'w) app_world \<Rightarrow> bool" where
  "after_request polls request answer w1 resp w' \<longleftrightarrow>
     (case answer of
        None \<Rightarrow> resp = None \<and> proxied w' = proxied w1 \<and> foreground w' = foreground w1
      | Some r \<Rightarrow>
          resp = Some ((reply r)\<lparr>resp_body := take (if req_method request = HEAD then 0 else polls) (resp_body (reply r))\<rparr>)
          \<and> (if body_permit r then proxied w' = proxied (drop_permit w1) \<and> foreground w' = foreground w1 + 1
             else proxied w' = proxied w1 \<and> foreground w' = foreground w1))"

lemma count_request_E:
  assumes "count_request A get pf polls route request w = (resp, w')"
  obtains m answer w1 where "respond (router A get pf route request) (counted_in w m) = (answer, w1)"
    and "after_request polls request answer w1 resp w'"
proof -
  let ?start = "\<lambda>w :: ('a, 'b, 'c) app_world. if is_prefetch request then map_prod Some id (observation_start prefetch_started
      (Option.bind (header_get (req_headers request) request_session_header) header_str)
      (Option.bind (Option.bind (header_get (req_headers request) request_prefetch_concurrency_header) header_str) parse_unsigned)
      (prefetch_metrics w)) else (None, prefetch_metrics w)"
  let ?w = "on_node (\<lambda>n. n\<lparr>stats := (stats n)\<lparr>requests := requests (stats n) + 1\<rparr>\<rparr>) w"
  obtain obs m where o: "?start ?w = (obs, m)" by (meson surj_pair)
  obtain answer w1 where r: "respond (router A get pf route request) (counted_in w m) = (answer, w1)" by (meson surj_pair)
  have "after_request polls request answer w1 resp w'"
  proof (cases answer)
    case None
    have "(resp, w') = (None, case obs of None \<Rightarrow> w1
        | Some ob \<Rightarrow> w1\<lparr>prefetch_metrics := observation_drop prefetch_finished ob (prefetch_metrics w1)\<rparr>)"
      using assms o r None unfolding count_request_def Let_def counted_in_def by (simp only: prod.case option.case)
    then show ?thesis using None by (cases obs) (simp_all add: after_request_def)
  next
    case (Some a)
    let ?polls = "if req_method request = HEAD then 0 else polls"
    let ?wd = "w1\<lparr>durations := durations w1 @ [(req_method request, matched_path route, resp_status (reply a))]\<rparr>"
    obtain response m2 where b: "(case obs of
        None \<Rightarrow> ((reply a)\<lparr>resp_body := take ?polls (resp_body (reply a))\<rparr>, prefetch_metrics ?wd)
      | Some ob \<Rightarrow> observe_prefetch_body prefetch_response prefetch_finished ?polls (reply a) (ob, prefetch_metrics ?wd)) = (response, m2)"
      by (meson surj_pair)
    have "response = (reply a)\<lparr>resp_body := take ?polls (resp_body (reply a))\<rparr>"
    proof (cases obs)
      case (Some ob)
      with b have "observe_prefetch_body prefetch_response prefetch_finished ?polls (reply a) (ob, prefetch_metrics ?wd) = (response, m2)"
        by (simp only: option.case)
      with observe_body_response [of prefetch_response prefetch_finished ?polls "reply a" "(ob, prefetch_metrics ?wd)"]
      show ?thesis by (simp only: fst_conv)
    qed (use b in simp)
    moreover have "(resp, w') = (Some response, if body_permit a then drop_permit (?wd\<lparr>prefetch_metrics := m2\<rparr>) else ?wd\<lparr>prefetch_metrics := m2\<rparr>)"
      using assms o r b Some unfolding count_request_def Let_def counted_in_def by (simp only: prod.case option.case)
    ultimately show ?thesis using Some by (simp add: after_request_def split: if_splits)
  qed
  with that r show thesis .
qed

text \<open>The names of the uploads that name a reference.\<close>

definition upload_name :: "crates \<Rightarrow> string \<Rightarrow> bool" where
  "upload_name c name \<longleftrightarrow>
     (\<exists>key. Reference_is_valid key \<and> name = build_reference ''http'' key)
     \<or> (\<exists>key a. ArtifactId_parse c ''sha256'' key = Inr a \<and> name = build_reference ''bazel-ac'' key)"

locale served_node =
  fixes A :: "('d, 'f) AppState" and Q :: "('d, 'f) node \<Rightarrow> bool" and get :: "'w getter"
  assumes tallied: "Q (n\<lparr>stats := m\<rparr>) \<longleftrightarrow> Q n"
    and looks_up: "keeps Q (locate (shard A) ch a)" "keeps Q (resolve_reference (shard A) ch name)"
      "keeps Q (ready (shard A))"
    and uploads: "chunks_fit (req_body request) \<Longrightarrow> target_named (upload_name (ids (shard A))) target \<Longrightarrow>
      keeps Q (service_publish (shard A) (upload_request ch target dur enc request))"
    and binds: "Reference_is_valid name \<Longrightarrow> keeps Q (bind_reference (shard A) ch name a)"
    and unbinds: "keeps Q (delete_reference (shard A) ch name)"
    and authorizes: "keeps Q (authorize (shard A) ch cred)" "keeps Q (authorize_with_lease (shard A) ch cred)"
    and registers: "0 < expiry \<Longrightarrow> keeps Q (register (shard A) prot expiry)"
    and updates: "0 < expiry \<Longrightarrow> keeps Q (update_expiry (shard A) chan expiry)"
    and deletes: "keeps Q (delete_channel (shard A) ch cred)"
    and fetches: "keeps (\<lambda>p. Q (shard_node p)) (fetch (app_proxy A) get ch protocol path t)"
      "keeps (\<lambda>p. Q (shard_node p)) (fetch_encoded_url (app_proxy A) get ch protocol link sfx)"
begin

abbreviation kept :: "('d, 'f, 'w, 'a) app_act \<Rightarrow> bool" where
  "kept \<equiv> keeps (on_app Q)"

lemma tally_kept: "kept (tally f)"
  unfolding tally_def by (rule keeps_modify) (simp add: on_node_def tallied)

lemma drop_permit_kept: "on_app Q (drop_permit w) \<longleftrightarrow> on_app Q w"
  by (simp add: drop_permit_def on_node_def tallied)

lemma permit_kept: "kept h \<Longrightarrow> kept (permit_scope taken h)"
proof -
  assume h: "kept h"
  have "kept acquire_foreground"
    by (rule keepsI)
      (auto simp: acquire_foreground_def and_then_def tally_def modify_def ok_def on_node_def tallied split: if_splits)
  moreover have "kept (\<lambda>w. case h w of (x, w') \<Rightarrow> (x, if taken x then w' else drop_permit w'))"
    using h by (auto simp: keeps_def drop_permit_kept split: prod.split)
  ultimately show ?thesis unfolding permit_scope_def by (intro act_keeps)
qed

lemmas handler_steps = act_keeps keeps_node_call tally_kept permit_kept keeps_built

lemma denied_kept: "kept (channel_denied A e)"
  unfolding channel_denied_def by (intro handler_steps)

lemma context_kept: "kept (channel_context A captured hs)"
  unfolding channel_context_def authorize_channel_def authorize_by_def by (intro handler_steps denied_kept authorizes)

lemma lease_kept: "kept (channel_lease A channel hs)" "kept (authorize_channel A channel hs)"
  unfolding channel_lease_def authorize_channel_def authorize_by_def by (intro handler_steps denied_kept authorizes)+

lemma serve_kept: "kept (serve_artifact A ch a hs head)"
proof -
  have "kept (located_reply A a located hs head)" for located
    unfolding located_reply_def Let_def
    by (auto intro!: handler_steps split: RangeSelection.split StoredEncoding.split prod.split)
  then show ?thesis unfolding serve_artifact_def by (intro handler_steps looks_up)
qed

lemma serve_reference_kept: "kept (serve_reference_artifact A ch name hs head)"
  unfolding serve_reference_artifact_def by (intro handler_steps looks_up serve_kept)

lemma write_failure_kept: "kept (cache_write_failure e)" "kept (cache_write_failure_with_bypass e)"
  unfolding cache_write_failure_def cache_write_failure_with_bypass_def by (intro handler_steps)+

lemma upload_kept:
  assumes "chunks_fit (req_body request)" and "target_named (upload_name (ids (shard A))) target" and "\<And>e. kept (failure e)"
  shows "kept (upload A (upload_request ch target dur enc request) success failure)"
  unfolding upload_def by (intro handler_steps uploads assms)

lemma artifact_kept:
  "kept (get_artifact A ctx alg dig request)"
  "chunks_fit (req_body request) \<Longrightarrow> kept (put_artifact A ctx alg dig request)"
  unfolding get_artifact_def put_artifact_def
  by (intro handler_steps serve_kept upload_kept write_failure_kept; simp add: target_named_def)+

lemma build_cache_kept:
  assumes "chunks_fit (req_body request)"
  shows "kept (put_http_cache A ctx key request)" "kept (put_bazel_ac A ctx key request)"
    "kept (put_bazel_cas A ctx key request)"
proof -
  show "kept (put_http_cache A ctx key request)"
  proof (cases "Reference_is_valid key")
    case True
    then have "target_named (upload_name (ids (shard A))) (ContentAddressed (Some (build_reference ''http'' key)))"
      by (auto simp: target_named_def upload_name_def)
    then show ?thesis unfolding put_http_cache_def by (intro handler_steps upload_kept assms write_failure_kept)
  qed (simp add: put_http_cache_def keeps_ok)
  show "kept (put_bazel_ac A ctx key request)"
  proof (cases "ArtifactId_parse (ids (shard A)) ''sha256'' key")
    case (Inr a)
    then have "target_named (upload_name (ids (shard A))) (ContentAddressed (Some (build_reference ''bazel-ac'' key)))"
      by (auto simp: target_named_def upload_name_def)
    then show ?thesis unfolding put_bazel_ac_def by (intro handler_steps upload_kept assms write_failure_kept)
  qed (simp add: put_bazel_ac_def keeps_ok)
  show "kept (put_bazel_cas A ctx key request)"
    unfolding put_bazel_cas_def by (intro handler_steps upload_kept assms write_failure_kept) (simp add: target_named_def)
qed

lemma put_reference_kept: "kept (put_reference A captured path request)"
proof (cases "Reference_parse path")
  case None
  then show ?thesis unfolding put_reference_def by (simp, intro handler_steps context_kept)
next
  case (Some name)
  then have "Reference_is_valid name" by (simp add: Reference_parse_def split: if_splits)
  with Some show ?thesis unfolding put_reference_def by (simp, intro handler_steps context_kept binds)
qed

lemma reference_kept: "kept (get_reference A ctx path)" "kept (delete_reference_handler A ctx path)"
  unfolding get_reference_def delete_reference_handler_def by (intro handler_steps looks_up unbinds)+

lemma register_kept: "kept (register_channel A request)"
  unfolding register_channel_def Let_def
  by (intro keeps_and_then keeps_case_sum keeps_throw keeps_ok keeps_unless keeps_node_call registers)
    (simp add: word_neq_0_conv)

lemma patch_kept: "kept (patch_channel A channel request)"
  unfolding patch_channel_def Let_def
  by (intro keeps_and_then keeps_case_sum keeps_throw keeps_ok keeps_unless keeps_node_call updates lease_kept)
    (simp add: word_neq_0_conv)

lemma channel_kept: "kept (get_channel A channel hs)" "kept (delete_channel_handler A channel hs)"
  unfolding get_channel_def delete_channel_handler_def by (intro handler_steps lease_kept deletes)+

lemma health_kept: "kept (ready_handler A)" "kept (metrics_handler A)"
proof -
  show "kept (ready_handler A)" unfolding ready_handler_def by (intro handler_steps looks_up)
  show "kept (metrics_handler A)"
    unfolding metrics_handler_def keeps_def
    by (auto simp: built_def ok_def throw_def split: sum.split option.split)
qed

lemma answer_kept: "keeps (\<lambda>p. Q (shard_node p)) m \<Longrightarrow> kept (answer_proxy A ch m)"
proof -
  have "kept (outcome_response A ch outc)" for outc
    unfolding outcome_response_def upstream_response_def by (cases outc) (simp_all add: serve_kept keeps_built)
  then show "keeps (\<lambda>p. Q (shard_node p)) m \<Longrightarrow> kept (answer_proxy A ch m)"
    unfolding answer_proxy_def by (intro handler_steps keeps_proxy_call)
qed

lemma packages_kept:
  "kept (packages_fetch A get ch protocol path t)" "kept (packages_fetch_encoded A get ch protocol link sfx)"
  unfolding packages_fetch_def packages_fetch_encoded_def by (intro answer_kept fetches)+

lemma package_handlers_kept:
  "kept (go_handler A get ctx path)" "kept (fetch_python_simple A get pf ctx path hs)" "kept (python_file A get ctx path)"
  "kept (npm_handler A get pf ctx path hs)" "kept (cargo_index A get ctx path)" "kept (cargo_config A ctx)"
  "kept (fetch_cargo_crate A get ch crate version)"
  unfolding go_handler_def fetch_python_simple_def python_file_def npm_handler_def cargo_index_def cargo_config_def
    fetch_cargo_crate_def
  by (auto intro!: handler_steps packages_kept split: prod.split)

lemma by_method_kept: "(\<And>m h. (m, h) \<in> set table \<Longrightarrow> kept h) \<Longrightarrow> kept (by_method table request)"
  unfolding by_method_def by (auto intro!: handler_steps dest: map_of_SomeD split: option.split)

lemma router_kept: "chunks_fit (req_body request) \<Longrightarrow> kept (router A get pf route request)"
  unfolding router_def
  by (cases route)
    (auto intro!: by_method_kept handler_steps context_kept health_kept register_kept channel_kept patch_kept
      package_handlers_kept reference_kept put_reference_kept artifact_kept build_cache_kept serve_reference_kept
      simp: data_router_def Let_def get_http_cache_def get_bazel_ac_def get_bazel_cas_def
      split: DataRoute.splits)

lemma respond_kept: "kept h \<Longrightarrow> on_app Q w \<Longrightarrow> on_app Q (snd (respond h w))"
  unfolding respond_def by (auto dest: keepsD split: prod.split sum.split Exit.split)

lemma request_kept:
  assumes "chunks_fit (req_body request)" and "on_app Q w" and "count_request A get pf polls route request w = (resp, w')"
  shows "on_app Q w'"
  using assms(3)
proof (rule count_request_E)
  fix m answer w1 assume r: "respond (router A get pf route request) (counted_in w m) = (answer, w1)"
    and after: "after_request polls request answer w1 resp w'"
  have "on_app Q (counted_in w m)" using assms(2) by (simp add: counted_in_def on_node_def tallied)
  from respond_kept [OF router_kept [OF assms(1)] this] r have "on_app Q w1" by (metis snd_conv)
  with after drop_permit_kept [of w1] show ?thesis by (auto simp: after_request_def split: option.splits if_splits)
qed

end

section \<open>The shard's invariant\<close>

lemma keeps_under: "(C \<Longrightarrow> keeps R m) \<Longrightarrow> keeps (\<lambda>n. C \<and> R n) m"
  by (auto simp: keeps_def)

definition lawful :: "('d, 'f) AppState \<Rightarrow> 'w getter \<Rightarrow> ('d, 'f) node \<Rightarrow> bool" where
  "lawful A get n \<longleftrightarrow> (env_ok (shard A) \<and> get_fits get) \<and> node_ok (shard A) 0 n"

lemma lawful_step: "(env_ok (shard A) \<Longrightarrow> keeps (node_ok (shard A) 0) m) \<Longrightarrow> keeps (lawful A get) m"
  unfolding lawful_def by (rule keeps_under) simp

interpretation law: served_node A "lawful A get" get for A :: "('d, 'f) AppState" and get :: "'w getter"
proof
  show "keeps (\<lambda>p. lawful A get (shard_node p)) (fetch (app_proxy A) get ch protocol path t)" for ch protocol path t
    unfolding lawful_def fetch_def by (rule keeps_under) (intro act_keeps fetch_url_shard; simp)
  show "keeps (\<lambda>p. lawful A get (shard_node p)) (fetch_encoded_url (app_proxy A) get ch protocol link sfx)" for ch protocol link sfx
    unfolding lawful_def fetch_encoded_url_def by (rule keeps_under) (intro act_keeps fetch_url_shard; simp)
  show "keeps (lawful A get) (bind_reference (shard A) ch name a)" for ch name a
    unfolding bind_reference_def by (intro lawful_step keeps_bind)
  show "keeps (lawful A get) (service_publish (shard A) (upload_request ch target dur enc request))"
    if "chunks_fit (req_body request)" for ch target dur enc request
    using that by (intro lawful_step keeps_publish) (simp_all add: upload_request_def)
qed (auto intro!: lawful_step keeps_locate keeps_resolve keeps_ready keeps_delete_ref keeps_authorize keeps_lease
    keeps_register keeps_update_expiry keeps_delete_channel simp: lawful_def node_ok_def stored_ok_def)

section \<open>The contents of the store\<close>

text \<open>
  What the HTTP layer lets into the store: references under the names a client may choose,
  under the names of build-cache keys and under those of the proxy; content types that are
  header values; and channels that expire after a positive time.
\<close>

definition server_name :: "crates \<Rightarrow> string \<Rightarrow> bool" where
  "server_name c name \<longleftrightarrow>
     Reference_is_valid name \<or> upload_name c name \<or> (\<exists>protocol u variant. name = proxy_reference c protocol u variant)"

definition typed_value :: "string option \<Rightarrow> bool" where
  "typed_value t \<longleftrightarrow> (case t of None \<Rightarrow> True | Some s \<Rightarrow> header_value_ok s)"

definition well_typed :: "crates \<Rightarrow> meta_store \<Rightarrow> bool" where
  "well_typed c v \<longleftrightarrow>
     (\<forall>ch name rec. references v (ch, name) = Some rec \<longrightarrow> server_name c name)
   \<and> (\<forall>ch a md. artifacts v (ch, a) = Some md \<longrightarrow> typed_value (content_type md))
   \<and> (\<forall>ch chan. channels v ch = Some chan \<longrightarrow> 0 < expiry_seconds chan)"

definition stocked :: "('d, 'f) CacheService \<Rightarrow> ('d, 'f) node \<Rightarrow> bool" where
  "stocked S n \<longleftrightarrow> db_inv (ids S) (meta S) (db n) \<and> well_typed (ids S) (db_view (ids S) (meta S) (db n))"

lemma header_str_typed: "header_str bs = Some s \<Longrightarrow> header_value_ok s"
proof -
  have "(of_char (char_of (unat b) :: char) :: nat) = unat b" for b :: u8
    using unat_bound [of b] by (simp add: of_char_of)
  then show "header_str bs = Some s \<Longrightarrow> header_value_ok s"
    by (force simp: header_str_def header_value_ok_def list_all_iff simp del: of_char_of split: if_splits)
qed

lemma header_string_typed: "typed_value (header_string hs name)"
  by (auto simp: typed_value_def header_string_def split: option.split bind_split dest: header_str_typed)

lemma stocked_effect:
  assumes "effect (db_inv (ids S) (meta S)) (db_view (ids S) (meta S)) m f post"
    and "\<And>v. well_typed (ids S) v \<Longrightarrow> well_typed (ids S) (f v)"
  shows "keeps (stocked S) (on_db m)"
proof (rule keepsI)
  fix n x n' assume "stocked S n" and "on_db m n = (x, n')"
  then obtain d where "m (db n) = (x, d)" and n': "n' = n\<lparr>db := d\<rparr>" by (elim on_db_E)
  from keepsD [OF effect_keeps [where P = "well_typed (ids S)", OF assms] _ this(1)] \<open>stocked S n\<close>
  show "stocked S n'" by (simp add: n' stocked_def)
qed

lemma well_typed_drops:
  "well_typed c v \<Longrightarrow> well_typed c (a_remove ch a v)" "well_typed c v \<Longrightarrow> well_typed c (a_unbind ch name v)"
  "well_typed c v \<Longrightarrow> well_typed c (a_evict ch a t v)" "well_typed c v \<Longrightarrow> well_typed c (a_delete_data ch v)"
  "well_typed c v \<Longrightarrow> well_typed c (a_drop_channel ch v)" "well_typed c v \<Longrightarrow> well_typed c (a_requeue ch a old new v)"
  by (auto simp: well_typed_def a_remove_def a_unbind_def a_evict_def a_delete_data_def a_drop_channel_def a_requeue_def
      split: option.splits if_splits)

lemma well_typed_adds:
  "server_name c name \<Longrightarrow> well_typed c v \<Longrightarrow> well_typed c (a_bind ch name rec v)"
  "0 < expiry_seconds chan \<Longrightarrow> well_typed c v \<Longrightarrow> well_typed c (a_put_channel chan v)"
  "typed_value (content_type md) \<Longrightarrow> reference_named (server_name c) reference \<Longrightarrow> well_typed c v \<Longrightarrow>
     well_typed c (a_commit ch a md reference v)"
  by (auto simp: well_typed_def a_bind_def a_put_channel_def a_commit_def reference_named_def Let_def
      split: option.splits if_splits)

lemma stocked_health: "keeps (stocked S) (on_db (metadata_health (meta S)))"
  by (rule keepsI) (auto simp: stocked_def db_inv_def db_view_def elim!: on_db_E dest: health_same)

lemma well_typed_id: "well_typed c v \<Longrightarrow> well_typed c (id v)"
  by simp

lemmas stocked_steps =
  stocked_effect [OF rocksdb.get_artifact well_typed_id] stocked_effect [OF rocksdb.get_ref well_typed_id]
  stocked_effect [OF effect_channels(3) well_typed_id] stocked_effect [OF effect_channels(4) well_typed_id]
  stocked_effect [OF rocksdb.oldest well_typed_id] stocked_health
  stocked_effect [OF rocksdb.remove well_typed_drops(1)] stocked_effect [OF rocksdb.unbind_ref well_typed_drops(2)]
  stocked_effect [OF rocksdb.drop_row well_typed_drops(3)] stocked_effect [OF rocksdb.purge well_typed_drops(4)]
  stocked_effect [OF effect_channels(5) well_typed_drops(5)] stocked_effect [OF rocksdb.move well_typed_drops(6)]
  stocked_effect [OF rocksdb.bind_ref well_typed_adds(1)] stocked_effect [OF rocksdb.commit well_typed_adds(3)]
  stocked_effect [OF effect_channels(1) well_typed_adds(2)] stocked_effect [OF effect_channels(2) well_typed_adds(2)]

lemma stocked_read:
  assumes "stocked S n"
  shows "store_channel_get (ids S) (meta S) ch (db n) = (Inr (Some chan), d) \<Longrightarrow> 0 < expiry_seconds chan"
    and "store_artifact (ids S) (meta S) ch a (db n) = (Inr (Some md), d') \<Longrightarrow> typed_value (content_type md)"
  using assms effect_Inr [OF effect_channels(3)] effect_Inr [OF rocksdb.get_artifact]
  unfolding stocked_def well_typed_def by metis+

interpretation stock: watched_proxy P "stocked (cache P)" "server_name (ids (cache P))" typed_value "\<lambda>e. 0 < e"
  for P :: "('d, 'f) ProxyService"
proof
  show "stocked (cache P) n'" if "local_world.more n' = local_world.more n" "stocked (cache P) n" for n n' :: "('d, 'f) node"
    using node_more [OF that(1)] that(2) by (simp add: stocked_def)
  show "server_name (ids (cache P)) (proxy_reference (ids (cache P)) protocol u variant)" for protocol u variant
    by (auto simp: server_name_def)
qed (simp_all add: stocked_steps header_string_typed, simp_all add: stocked_def stocked_read [unfolded stocked_def])

interpretation stock_served: served_node A "stocked (shard A)" get for A :: "('d, 'f) AppState" and get :: "'w getter"
proof
  fix ch target dur enc request
  assume "target_named (upload_name (ids (shard A))) target"
  then have "target_named (server_name (ids (shard A))) target"
    by (auto simp: target_named_def server_name_def split: PublicationTarget.splits option.splits)
  then show "keeps (stocked (shard A)) (service_publish (shard A) (upload_request ch target dur enc request))"
    by (intro stock.publish_keeps) (simp_all add: upload_request_def content_type_of_def header_string_typed)
next
  fix name ch a assume "Reference_is_valid name"
  then show "keeps (stocked (shard A)) (bind_reference (shard A) ch name a)"
    unfolding bind_reference_def by (intro stock.bind_keeps) (simp add: server_name_def)
qed (simp_all add: stock.locate_keeps stock.resolve_keeps stock.ready_keeps stock.unbind_keeps stock.authorize_keeps
    stock.lease_keeps stock.register_keeps stock.update_keeps stock.delete_keeps stock.fetch_keeps
    stock.fetch_encoded_keeps, simp add: stocked_def)

section \<open>Permits\<close>

text \<open>
  An action settles when the permits it holds at its end are those its result says, and the
  gauge agrees; it is still when it leaves both alone.
\<close>

abbreviation gauge_of :: "('d, 'f, 'w) app_world \<Rightarrow> int" where
  "gauge_of w \<equiv> foreground_in_flight (stats (app_node w))"

definition settles :: "(Exit + 'a \<Rightarrow> bool) \<Rightarrow> ('d, 'f, 'w, 'a) app_act \<Rightarrow> bool" where
  "settles took m \<longleftrightarrow> (\<forall>w x w'. m w = (x, w') \<longrightarrow>
     foreground w' + (if took x then 1 else 0) = foreground w
     \<and> gauge_of w' = gauge_of w + (if took x then 1 else 0))"

fun exit_permit :: "Exit \<Rightarrow> bool" where
  "exit_permit (Return r) = body_permit r"
| "exit_permit Panic = False"

definition exit_holds :: "Exit + 'a \<Rightarrow> bool" where
  "exit_holds x = (case x of Inl e \<Rightarrow> exit_permit e | Inr _ \<Rightarrow> False)"

abbreviation still :: "('d, 'f, 'w, 'a) app_act \<Rightarrow> bool" where
  "still \<equiv> settles (\<lambda>_. False)"

lemma settlesD:
  "settles took m \<Longrightarrow> m w = (x, w') \<Longrightarrow> foreground w' + (if took x then 1 else 0) = foreground w
     \<and> gauge_of w' = gauge_of w + (if took x then 1 else 0)"
  by (simp add: settles_def)

lemma settles_bind:
  assumes "settles exit_holds m" and "\<And>x. settles took (f x)" and "\<And>e. took (Inl e) = exit_permit e"
  shows "settles took (and_then m f)"
  unfolding settles_def
proof (intro allI impI)
  fix w x w' assume "and_then m f w = (x, w')"
  then show "foreground w' + (if took x then 1 else 0) = foreground w
    \<and> gauge_of w' = gauge_of w + (if took x then 1 else 0)"
  proof (rule and_then_E)
    fix e assume m: "m w = (Inl e, w')" and x: "x = Inl e"
    from settlesD [OF assms(1) m] show ?thesis by (simp add: x assms(3) exit_holds_def)
  next
    fix y t assume m: "m w = (Inr y, t)" and f: "f y t = (x, w')"
    from settlesD [OF assms(1) m] settlesD [OF assms(2) f] show ?thesis by (simp add: exit_holds_def split: if_splits)
  qed
qed

lemma keeps_permit_exit: "keeps_permit (Inl e) = exit_permit e" "exit_holds (Inl e) = exit_permit e"
  by (cases e; simp add: keeps_permit_def exit_holds_def)+

lemmas settles_and_then = settles_bind [OF _ _ keeps_permit_exit(1)]
lemmas exits_and_then = settles_bind [OF _ _ keeps_permit_exit(2)]

lemma still_and_then: "still m \<Longrightarrow> (\<And>x. still (f x)) \<Longrightarrow> still (and_then m f)"
  unfolding settles_def by (auto elim!: and_then_E)

lemma settles_outcome:
  assumes "still m" and "\<And>x. settles took (f x)"
  shows "settles took (outcome m f)"
  unfolding settles_def
proof (intro allI impI)
  fix w x w' assume "outcome m f w = (x, w')"
  then obtain y t where m: "m w = (y, t)" and f: "f y t = (x, w')" by (rule outcome_E)
  from settlesD [OF assms(1) m] settlesD [OF assms(2) f] show "foreground w' + (if took x then 1 else 0) = foreground w
    \<and> gauge_of w' = gauge_of w + (if took x then 1 else 0)" by simp
qed

lemma settles_cases:
  "settles took m \<Longrightarrow> settles took n \<Longrightarrow> settles took (if b then m else n)"
  "settles took n \<Longrightarrow> (\<And>x. settles took (f x)) \<Longrightarrow> settles took (case a of None \<Rightarrow> n | Some x \<Rightarrow> f x)"
  "(\<And>y. settles took (g y)) \<Longrightarrow> (\<And>z. settles took (h z)) \<Longrightarrow> settles took (case s of Inl y \<Rightarrow> g y | Inr z \<Rightarrow> h z)"
  by (simp_all split: option.split sum.split)

lemma still_basic: "still (ok x)" "still (throw e)" "still (lift_result r)"
  by (simp_all add: settles_def ok_def throw_def lift_result_def)

lemma plain_basic:
  "settles keeps_permit (ok (plain r))" "settles keeps_permit (throw (Return (plain r)))"
  "settles exit_holds (ok x)" "settles exit_holds (throw (Return (plain r)))"
  by (simp_all add: settles_def ok_def throw_def keeps_permit_def exit_holds_def plain_def)

lemma still_tally: "(\<And>m. foreground_in_flight (f m) = foreground_in_flight m) \<Longrightarrow> still (tally f)"
  by (auto simp: settles_def tally_def modify_def on_node_def)

lemma still_node_call:
  assumes "\<And>g. keeps (gauged g) m"
  shows "still (node_call m)"
  unfolding settles_def
proof (intro allI impI)
  fix w x w' assume "node_call m w = (x, w')"
  then obtain y n where m: "m (app_node w) = (y, n)" and w': "w' = on_node (\<lambda>_. n) w"
    by (auto simp: node_call_def split: prod.splits)
  have "gauged (gauge_of w) n" by (rule keepsD [OF assms _ m]) (simp add: gauged_def)
  with w' show "foreground w' + (if False then 1 else 0) = foreground w \<and> gauge_of w' = gauge_of w + (if False then 1 else 0)"
    by (simp add: gauged_def on_node_def)
qed

lemma still_proxy_call:
  assumes "\<And>g. keeps (\<lambda>p. gauged g (shard_node p)) m"
  shows "still (proxy_call m)"
  unfolding settles_def
proof (intro allI impI)
  fix w x w' assume "proxy_call m w = (x, w')"
  then obtain y p where m: "m (proxied w) = (y, p)" and w': "w' = w\<lparr>proxied := p\<rparr>"
    by (auto simp: proxy_call_def split: prod.splits)
  have "gauged (gauge_of w) (shard_node p)" by (rule keepsD [OF assms _ m]) (simp add: gauged_def)
  with w' show "foreground w' + (if False then 1 else 0) = foreground w \<and> gauge_of w' = gauge_of w + (if False then 1 else 0)"
    by (simp add: gauged_def)
qed

text \<open>Calls never exit early, so a still call is one that exits without a permit.\<close>

lemma still_exits:
  assumes "still m" and "\<And>w e w'. m w \<noteq> (Inl e, w')"
  shows "settles exit_holds m"
  unfolding settles_def
proof (intro allI impI)
  fix w x w' assume m: "m w = (x, w')"
  with assms(2) obtain y where "x = Inr y" by (cases x) auto
  with settlesD [OF assms(1) m] show "foreground w' + (if exit_holds x then 1 else 0) = foreground w
    \<and> gauge_of w' = gauge_of w + (if exit_holds x then 1 else 0)" by (simp add: exit_holds_def)
qed

lemma call_exits:
  "(\<And>g. keeps (gauged g) m) \<Longrightarrow> settles exit_holds (node_call m)"
  "(\<And>g. keeps (\<lambda>p. gauged g (shard_node p)) p) \<Longrightarrow> settles exit_holds (proxy_call p)"
  by (rule still_exits, erule still_node_call, simp add: node_call_def split: prod.split)
    (rule still_exits, erule still_proxy_call, simp add: proxy_call_def split: prod.split)

lemma still_built: "still (built s hs body permit)"
  unfolding built_def by (intro settles_cases still_basic)

lemma unpermitted_built: "settles keeps_permit (built s hs body False)"
  by (auto simp: settles_def built_def keeps_permit_def throw_def ok_def split: option.splits)

lemma permit_scope_settles:
  assumes "still h" and "\<not> took (Inl (Return (plain busy_response)))"
  shows "settles took (permit_scope took h)"
  unfolding settles_def
proof (intro allI impI)
  fix w x w' assume run: "permit_scope took h w = (x, w')"
  show "foreground w' + (if took x then 1 else 0) = foreground w
    \<and> gauge_of w' = gauge_of w + (if took x then 1 else 0)"
  proof (cases "0 < foreground w")
    case False
    with run assms(2) show ?thesis
      by (auto simp: permit_scope_def acquire_foreground_def and_then_def tally_def modify_def on_node_def ok_def throw_def
          metrics_foreground_rejected_def)
  next
    case True
    let ?w = "on_node (\<lambda>n. n\<lparr>stats := metrics_foreground_acquired (stats n)\<rparr>) (w\<lparr>foreground := foreground w - 1\<rparr>)"
    obtain y u where h: "h ?w = (y, u)" by (meson surj_pair)
    have "x = y" and w': "w' = (if took y then u else drop_permit u)"
      using run True h by (auto simp: permit_scope_def acquire_foreground_def and_then_def tally_def modify_def ok_def)
    moreover have "foreground u = foreground w - 1" "gauge_of u = gauge_of w + 1"
      using settlesD [OF assms(1) h] by (simp_all add: on_node_def metrics_foreground_acquired_def)
    ultimately show ?thesis using True
      by (auto simp: drop_permit_def on_node_def metrics_foreground_released_def)
  qed
qed

lemma tally_exits: "(\<And>m. foreground_in_flight (f m) = foreground_in_flight m) \<Longrightarrow> settles exit_holds (tally f)"
  by (rule still_exits, erule still_tally) (simp add: tally_def modify_def)

lemma metrics_gauge:
  "foreground_in_flight (metrics_authorization_denial m) = foreground_in_flight m"
  "foreground_in_flight (metrics_raw_pressure_error m) = foreground_in_flight m"
  "foreground_in_flight (metrics_build_cache_bypass m) = foreground_in_flight m"
  by (simp_all add: metrics_authorization_denial_def metrics_raw_pressure_error_def metrics_build_cache_bypass_def)

lemma denied_settles: "settles exit_holds (channel_denied A e)" "still (channel_denied A e)"
  unfolding channel_denied_def
  by (intro exits_and_then settles_cases tally_exits plain_basic metrics_gauge)
    (intro still_and_then settles_cases still_tally still_basic metrics_gauge)

lemma authorize_by_settles:
  assumes "\<And>ch cred g. keeps (gauged g) (method ch cred)"
  shows "settles exit_holds (authorize_by method A channel hs)" and "still (authorize_by method A channel hs)"
proof -
  show "settles exit_holds (authorize_by method A channel hs)"
    unfolding authorize_by_def by (intro settles_cases exits_and_then call_exits plain_basic denied_settles assms)
  show "still (authorize_by method A channel hs)"
    unfolding authorize_by_def by (intro settles_cases still_and_then still_node_call still_basic denied_settles assms)
qed

lemma context_settles:
  "settles exit_holds (channel_context A captured hs)" "still (channel_context A captured hs)"
  "settles exit_holds (channel_lease A channel hs)" "settles exit_holds (authorize_channel A channel hs)"
  unfolding channel_context_def authorize_channel_def channel_lease_def
  by (intro settles_cases exits_and_then plain_basic authorize_by_settles gauge.authorize_keeps gauge.lease_keeps)
    (intro settles_cases still_and_then still_basic authorize_by_settles gauge.authorize_keeps,
     (intro authorize_by_settles gauge.authorize_keeps gauge.lease_keeps)+)

lemma busy_plain: "\<not> keeps_permit (Inl (Return (plain busy_response)))"
  by (simp add: keeps_permit_def plain_def)

lemmas scope_settles = permit_scope_settles [where took = keeps_permit, OF _ busy_plain]

lemma serve_settles: "settles keeps_permit (serve_artifact A ch a hs head)"
proof -
  have "still (located_reply A a located hs head)" for located
    unfolding located_reply_def Let_def
    by (auto intro!: settles_cases still_built still_basic split: RangeSelection.split StoredEncoding.split prod.split)
  then show ?thesis
    unfolding serve_artifact_def
    by (intro scope_settles still_and_then settles_cases still_node_call still_basic gauge.locate_keeps)
qed

lemma serve_reference_settles: "settles keeps_permit (serve_reference_artifact A ch name hs head)"
proof -
  have "settles exit_holds (permit_scope (\<lambda>_. False) (node_call (resolve_reference (shard A) ch name)) :: ('d, 'f, 'w, _) app_act)"
    (is "settles exit_holds ?m") for A :: "('d, 'f) AppState"
    unfolding settles_def
  proof (intro allI impI)
    fix w x w' assume run: "?m w = (x, w')"
    have s: "still ?m" by (intro permit_scope_settles still_node_call gauge.resolve_keeps) simp
    moreover have "\<not> exit_holds x"
      using run
      by (auto simp: permit_scope_def acquire_foreground_def and_then_def tally_def modify_def ok_def throw_def node_call_def
          exit_holds_def plain_def split: if_splits prod.splits)
    ultimately show "foreground w' + (if exit_holds x then 1 else 0) = foreground w
        \<and> gauge_of w' = gauge_of w + (if exit_holds x then 1 else 0)"
      using settlesD [OF s run] by simp
  qed
  then show ?thesis
    unfolding serve_reference_artifact_def by (intro settles_and_then settles_cases serve_settles plain_basic)
qed

lemma upload_settles:
  assumes "\<And>e. still (failure e)"
  shows "settles keeps_permit (upload A r success failure)"
  unfolding upload_def
  by (intro scope_settles still_and_then settles_cases still_node_call still_basic gauge.publish_keeps assms)
    (simp_all add: target_named_def split: PublicationTarget.split option.split)

lemma write_failure_still: "still (cache_write_failure e)" "still (cache_write_failure_with_bypass e)"
  unfolding cache_write_failure_def cache_write_failure_with_bypass_def
  by (intro settles_cases still_and_then still_tally still_basic metrics_gauge)+

lemma artifact_handlers_settle:
  "settles keeps_permit (get_artifact A ctx alg dig request)" "settles keeps_permit (put_artifact A ctx alg dig request)"
  "settles keeps_permit (put_http_cache A ctx key request)" "settles keeps_permit (put_bazel_ac A ctx key request)"
  "settles keeps_permit (put_bazel_cas A ctx key request)" "settles keeps_permit (get_http_cache A ctx key request)"
  "settles keeps_permit (get_bazel_ac A ctx key request)" "settles keeps_permit (get_bazel_cas A ctx key request)"
  unfolding get_artifact_def put_artifact_def put_http_cache_def put_bazel_ac_def put_bazel_cas_def get_http_cache_def
    get_bazel_ac_def get_bazel_cas_def
  by (intro settles_cases plain_basic serve_settles serve_reference_settles upload_settles write_failure_still)+

lemma reference_handlers_settle:
  "settles keeps_permit (get_reference A ctx path)" "settles keeps_permit (delete_reference_handler A ctx path)"
  unfolding get_reference_def delete_reference_handler_def invalid_reference_def
  by (intro settles_cases plain_basic scope_settles still_and_then still_node_call still_basic gauge.resolve_keeps
      gauge.unbind_keeps)+

lemma lifted_exits: "(\<And>e. x = Inl e \<Longrightarrow> \<not> exit_permit e) \<Longrightarrow> settles exit_holds (lift_result x)"
  by (auto simp: settles_def lift_result_def exit_holds_def split: sum.split)

text \<open>A rejection that is held back carries no permit.\<close>

lemma context_exit: "channel_context A captured hs w = (Inl e, w') \<Longrightarrow> \<not> exit_permit e"
  by (auto simp: channel_context_def authorize_channel_def authorize_by_def channel_denied_def node_call_def and_then_def
      ok_def throw_def tally_def modify_def plain_def split: option.splits prod.splits sum.splits if_splits)

lemma put_reference_settles: "settles keeps_permit (put_reference A captured path request)"
  unfolding settles_def
proof (intro allI impI)
  fix w x w'
  let ?rest = "\<lambda>c. and_then (case binding_payload (framework A) request of Inl r \<Rightarrow> throw (Return (plain r)) | Inr b \<Rightarrow> ok b)
      (\<lambda>binding. and_then (lift_result c) (\<lambda>context.
       case Reference_parse path of
         None \<Rightarrow> ok (invalid_reference A)
       | Some reference \<Rightarrow>
           (case ArtifactId_parse (ids (shard A)) (binding_algorithm binding) (binding_digest binding) of
              Inl _ \<Rightarrow> ok (plain (api_error A 400 ''invalid_artifact'' ''artifact identity is invalid''))
            | Inr artifact \<Rightarrow>
                with_foreground
                  (and_then (node_call (bind_reference (shard A) (ctx_channel context) reference artifact)) (\<lambda>result.
                   case result of
                     Inr _ \<Rightarrow> ok (status_reply 204)
                   | Inl error \<Rightarrow> ok (reference_failure A ''reference update failed'' error))))))"
  assume "put_reference A captured path request w = (x, w')"
  then obtain c t where c: "channel_context A captured (req_headers request) w = (c, t)" and rest: "?rest c t = (x, w')"
    unfolding put_reference_def by (rule outcome_E)
  have "settles exit_holds (lift_result c)" using context_exit c by (intro lifted_exits) blast
  then have "settles keeps_permit (?rest c)"
    unfolding invalid_reference_def bind_reference_def
    by (intro settles_and_then settles_cases plain_basic scope_settles still_and_then still_node_call still_basic
        gauge.bind_keeps) simp_all
  from settlesD [OF this rest] settlesD [OF context_settles(2) c]
  show "foreground w' + (if keeps_permit x then 1 else 0) = foreground w
    \<and> gauge_of w' = gauge_of w + (if keeps_permit x then 1 else 0)" by simp
qed

lemma channel_handlers_settle:
  "settles keeps_permit (register_channel A request)" "settles keeps_permit (get_channel A channel hs)"
  "settles keeps_permit (patch_channel A channel request)" "settles keeps_permit (delete_channel_handler A channel hs)"
  unfolding register_channel_def get_channel_def patch_channel_def delete_channel_handler_def invalid_policy_def Let_def
  by (intro settles_and_then settles_cases plain_basic call_exits context_settles gauge.register_keeps gauge.update_keeps
      gauge.delete_keeps TrueI)+

lemma health_settles: "settles keeps_permit (ready_handler A)" "settles keeps_permit (metrics_handler A)"
proof -
  show "settles keeps_permit (ready_handler A)"
    unfolding ready_handler_def by (intro settles_and_then plain_basic call_exits gauge.ready_keeps)
  show "settles keeps_permit (metrics_handler A)"
    unfolding settles_def metrics_handler_def
    by (auto simp: built_def keeps_permit_def ok_def throw_def plain_def split: sum.splits option.splits)
qed

lemma answer_settles: "(\<And>g. keeps (\<lambda>p. gauged g (shard_node p)) m) \<Longrightarrow> settles keeps_permit (answer_proxy A ch m)"
proof -
  have "settles keeps_permit (outcome_response A ch outc)" for outc
    unfolding outcome_response_def upstream_response_def by (cases outc) (simp_all add: serve_settles unpermitted_built)
  then show "(\<And>g. keeps (\<lambda>p. gauged g (shard_node p)) m) \<Longrightarrow> settles keeps_permit (answer_proxy A ch m)"
    unfolding answer_proxy_def by (intro settles_and_then settles_cases plain_basic call_exits)
qed

lemma package_handlers_settle:
  "settles keeps_permit (go_handler A get ctx path)" "settles keeps_permit (fetch_python_simple A get pf ctx path hs)"
  "settles keeps_permit (python_file A get ctx path)" "settles keeps_permit (npm_handler A get pf ctx path hs)"
  "settles keeps_permit (cargo_index A get ctx path)" "settles keeps_permit (cargo_config A ctx)"
  "settles keeps_permit (fetch_cargo_crate A get ch crate version)"
  unfolding go_handler_def fetch_python_simple_def python_file_def npm_handler_def cargo_index_def cargo_config_def
    fetch_cargo_crate_def packages_fetch_def packages_fetch_encoded_def
  by (auto intro!: settles_cases plain_basic answer_settles gauge.fetch_keeps gauge.fetch_encoded_keeps split: prod.split)

lemma by_method_settles:
  "(\<And>m h. (m, h) \<in> set table \<Longrightarrow> settles keeps_permit h) \<Longrightarrow> settles keeps_permit (by_method table request)"
  unfolding by_method_def by (auto intro!: plain_basic dest: map_of_SomeD split: option.split)

lemma router_settles: "settles keeps_permit (router A get pf route request)"
  unfolding router_def
  by (cases route)
    (auto intro!: by_method_settles settles_and_then plain_basic context_settles health_settles channel_handlers_settle
      package_handlers_settle reference_handlers_settle put_reference_settles artifact_handlers_settle
      simp: data_router_def Let_def split: DataRoute.splits)

end
