(* ===== verification/Http_Calm.thy ===== *)
theory Http_Calm
  imports Http_Invariant
begin

text \<open>
  No handler panics in a state whose store holds only what the HTTP layer lets into it: every
  header value a handler computes from a record is one the response builder accepts.
\<close>

section \<open>No panics\<close>

text \<open>From a state in \<open>P\<close> the handler does not panic.\<close>

definition calm :: "(('d, 'f, 'w) app_world \<Rightarrow> bool) \<Rightarrow> ('d, 'f, 'w, 'a) app_act \<Rightarrow> bool" where
  "calm P m \<longleftrightarrow> (\<forall>w w'. P w \<longrightarrow> m w \<noteq> (Inl Panic, w'))"

lemma calm_then:
  assumes "calm P m" and "keeps P m" and "yields P m T" and "\<And>x. T x \<Longrightarrow> calm P (f x)"
  shows "calm P (and_then m f)"
  unfolding calm_def
proof (intro allI impI notI)
  fix w w' assume w: "P w" and "and_then m f w = (Inl Panic, w')"
  then show False
  proof (elim and_then_E)
    fix e assume "m w = (Inl e, w')" and "Inl Panic = Inl e"
    with assms(1) w show False by (auto simp: calm_def)
  next
    fix x t assume m: "m w = (Inr x, t)" and f: "f x t = (Inl Panic, w')"
    from assms(4) [OF yieldsD [OF assms(3) w m]] keepsD [OF assms(2) w m] f show False by (auto simp: calm_def)
  qed
qed

lemmas calm_step = calm_then [OF _ _ yields_any]

lemma calm_cases:
  "calm P m \<Longrightarrow> calm P n \<Longrightarrow> calm P (if b then m else n)"
  "calm P n \<Longrightarrow> (\<And>x. calm P (f x)) \<Longrightarrow> calm P (case a of None \<Rightarrow> n | Some x \<Rightarrow> f x)"
  "(\<And>y. calm P (g y)) \<Longrightarrow> (\<And>z. calm P (h z)) \<Longrightarrow> calm P (case s of Inl y \<Rightarrow> g y | Inr z \<Rightarrow> h z)"
  by (simp_all split: option.split sum.split)

lemma calm_basic: "calm P (ok x)" "calm P (throw (Return r))"
  by (simp_all add: calm_def ok_def throw_def)

lemma calm_calls: "calm P (node_call m)" "calm P (proxy_call p)" "calm P (tally f)"
  by (auto simp: calm_def node_call_def proxy_call_def tally_def modify_def split: prod.splits)

lemma yields_node_call: "yields Q m R \<Longrightarrow> yields (on_app Q) (node_call m) (\<lambda>r. \<forall>x. r = Inr x \<longrightarrow> R x)"
  unfolding yields_def node_call_def by (auto split: prod.splits)

lemma yields_proxy_call:
  "yields (\<lambda>p. Q (shard_node p)) m R \<Longrightarrow> yields (on_app Q) (proxy_call m) (\<lambda>r. \<forall>x. r = Inr x \<longrightarrow> R x)"
  unfolding yields_def proxy_call_def by (auto split: prod.splits)

lemma calm_built: "list_all (\<lambda>(_, v). header_value_ok v) hs \<Longrightarrow> calm P (built s hs body permit)"
  by (simp add: built_def build_def calm_basic)

lemma calm_outcome: "keeps P m \<Longrightarrow> (\<And>x. (\<And>w t. P w \<Longrightarrow> m w = (x, t) \<Longrightarrow> x \<noteq> Inl Panic) \<Longrightarrow> calm P (f x)) \<Longrightarrow> calm P m \<Longrightarrow> calm P (outcome m f)"
  unfolding calm_def by (auto elim!: outcome_E) (metis keepsD)

text \<open>Header values the handlers compute.\<close>

lemma header_value_append: "header_value_ok (s @ t) \<longleftrightarrow> header_value_ok s \<and> header_value_ok t"
  by (auto simp: header_value_ok_def)

lemma header_value_list:
  "header_value_ok []"
  "header_value_ok (x # s) \<longleftrightarrow> ((32 \<le> (of_char x :: nat) \<and> (of_char x :: nat) \<noteq> 127) \<or> (of_char x :: nat) = 9) \<and> header_value_ok s"
  by (simp_all add: header_value_ok_def)

lemma decimal_digits: "list_all is_ascii_digit (decimal n)"
proof (induction n rule: decimal.induct)
  case (1 n)
  have digit: "is_ascii_digit (char_of (48 + k))" if "k < 10" for k :: nat
    using that by (auto simp: is_ascii_digit_def less_eq_char_def of_char_of)
  show ?case
  proof (cases "n < 10")
    case True
    then show ?thesis by (simp add: decimal.simps digit)
  next
    case False
    then show ?thesis using 1 digit [of "n mod 10"] by (simp add: decimal.simps [of n])
  qed
qed

lemma digit_value_ok: "is_ascii_digit x \<or> is_ascii_lowercase x \<Longrightarrow> header_value_ok [x]"
  by (auto simp: header_value_ok_def is_ascii_digit_def is_ascii_lowercase_def less_eq_char_def)

lemma header_value_all: "list_all (\<lambda>x. header_value_ok [x]) s \<Longrightarrow> header_value_ok s"
  by (simp add: header_value_ok_def list_all_iff)

lemma decimal_header: "header_value_ok (decimal n)"
  using decimal_digits [of n] digit_value_ok by (intro header_value_all) (simp add: list_all_iff)

lemma etag_header: "hex_ok (ids (shard A)) \<Longrightarrow> header_value_ok (etag_of A a)"
proof -
  assume "hex_ok (ids (shard A))"
  then have "header_value_ok (Digest_display (ids (shard A)) (digest a))"
    using digit_value_ok by (intro header_value_all) (simp add: hex_ok_def list_all_iff Digest_display_def)
  then show ?thesis by (simp add: etag_of_def ArtifactId_display_def header_value_append) (simp add: header_value_ok_def)
qed

abbreviation stocked_app :: "('d, 'f) AppState \<Rightarrow> ('d, 'f, 'w) app_world \<Rightarrow> bool" where
  "stocked_app A \<equiv> on_app (stocked (shard A))"

lemma typed_header_list: "typed_value t \<Longrightarrow> list_all (\<lambda>(_, v). header_value_ok v) (typed t)"
  by (simp add: typed_def typed_value_def split: option.splits)

lemma artifact_headers_ok:
  "hex_ok (ids (shard A)) \<Longrightarrow> typed_value (content_type md) \<Longrightarrow>
    list_all (\<lambda>(_, v). header_value_ok v) (artifact_headers A a md sel n b)"
  by (auto simp: artifact_headers_def decimal_header etag_header header_value_append header_value_list typed_value_def
      split: option.splits RangeSelection.splits)

lemma calm_scope:
  assumes "calm P h" and "\<And>w m i. P (on_node (\<lambda>n. n\<lparr>stats := m\<rparr>) (w\<lparr>foreground := i\<rparr>)) \<longleftrightarrow> P w"
  shows "calm P (permit_scope taken h)"
proof -
  have "P (on_node (\<lambda>n. n\<lparr>stats := g (stats n)\<rparr>) (w\<lparr>foreground := i\<rparr>)) \<longleftrightarrow> P w" for w g i
    using assms(2) [where m = "g (stats (app_node w))" and w = w and i = i] by (simp add: on_node_def)
  with assms(1) show ?thesis
    by (auto simp: calm_def permit_scope_def acquire_foreground_def and_then_def tally_def modify_def ok_def throw_def
        split: prod.splits if_splits)
qed

lemma stocked_scope: "calm (stocked_app A) h \<Longrightarrow> calm (stocked_app A) (permit_scope taken h)"
  by (rule calm_scope) (simp_all add: on_node_def stocked_def)

lemma located_calm:
  assumes "hex_ok (ids (shard A))" and "typed_value (content_type (located_metadata l))"
  shows "calm P (located_reply A a l hs head)"
  unfolding located_reply_def Let_def using assms
  by (auto split: RangeSelection.split StoredEncoding.split prod.split
      intro!: calm_built artifact_headers_ok calm_basic simp: etag_header decimal_header header_value_append header_value_list)

lemma serve_calm:
  assumes "hex_ok (ids (shard A))"
  shows "calm (stocked_app A) (serve_artifact A ch a hs head)"
  unfolding serve_artifact_def
  by (intro stocked_scope calm_then [OF calm_calls(1) keeps_node_call [OF stock.locate_keeps]
        yields_node_call [OF stock.locate_typed]])
    (auto split: sum.split option.split intro!: calm_basic located_calm assms)

lemma serve_reference_calm:
  assumes "hex_ok (ids (shard A))"
  shows "calm (stocked_app A) (serve_reference_artifact A ch name hs head)"
  unfolding serve_reference_artifact_def
  by (intro calm_step [OF stocked_scope [OF calm_calls(1)]] stock_served.permit_kept keeps_node_call stock.resolve_keeps
      calm_cases calm_basic serve_calm assms)

lemma failure_calm: "calm P (cache_write_failure e)" "calm P (cache_write_failure_with_bypass e)"
  unfolding cache_write_failure_def cache_write_failure_with_bypass_def
  by (auto simp: calm_def and_then_def tally_def modify_def ok_def)

lemma uploads_calm:
  assumes "\<And>e. calm (stocked_app A) (failure e)" and "chunks_fit (req_body request)"
    and "target_named (upload_name (ids (shard A))) target"
  shows "calm (stocked_app A) (upload A (upload_request ch target dur enc request) success failure)"
  unfolding upload_def
  by (intro stocked_scope calm_step [OF calm_calls(1)] keeps_node_call stock_served.uploads calm_cases calm_basic assms)

lemma context_calm:
  "calm P (channel_context A captured hs)" "calm P (channel_lease A channel hs)" "calm P (authorize_channel A channel hs)"
  unfolding channel_context_def channel_lease_def authorize_channel_def authorize_by_def channel_denied_def
  by (auto simp: calm_def and_then_def node_call_def tally_def modify_def ok_def throw_def
      split: option.splits prod.splits sum.splits if_splits)

lemma calm_outcome_context:
  assumes "\<And>c. c \<noteq> Inl Panic \<Longrightarrow> calm (stocked_app A) (f c)"
  shows "calm (stocked_app A) (outcome (channel_context A captured hs) f)"
  unfolding calm_def
proof (intro allI impI notI)
  fix w w' assume w: "stocked_app A w" and "outcome (channel_context A captured hs) f w = (Inl Panic, w')"
  then obtain c t where c: "channel_context A captured hs w = (c, t)" and f: "f c t = (Inl Panic, w')" by (auto elim!: outcome_E)
  have "c \<noteq> Inl Panic" using context_calm(1) [where P = "stocked_app A" and A = A] w c by (metis calm_def)
  moreover have "stocked_app A t" by (rule keepsD [OF stock_served.context_kept w c])
  ultimately show False using assms f by (auto simp: calm_def)
qed

lemma put_reference_calm: "calm (stocked_app A) (put_reference A captured path request)"
proof -
  have lift: "calm (stocked_app A) (lift_result c)" if "c \<noteq> Inl Panic" for c :: "Exit + ChannelContext"
    using that by (simp add: calm_def lift_result_def)
  show ?thesis
  proof (cases "Reference_parse path")
    case None
    then show ?thesis unfolding put_reference_def
      by (simp, intro calm_outcome_context calm_step calm_cases calm_basic lift keeps_case_sum keeps_throw keeps_ok keeps_lift_result)
  next
    case (Some name)
    then have "Reference_is_valid name" by (simp add: Reference_parse_def split: if_splits)
    with Some show ?thesis unfolding put_reference_def
      by (simp, intro calm_outcome_context calm_step calm_cases calm_basic lift keeps_case_sum keeps_throw keeps_ok keeps_lift_result
          stocked_scope calm_calls keeps_node_call stock_served.binds)
  qed
qed

lemma reference_calm: "calm (stocked_app A) (get_reference A ctx path)" "calm (stocked_app A) (delete_reference_handler A ctx path)"
  unfolding get_reference_def delete_reference_handler_def
  by (intro calm_cases calm_basic stocked_scope calm_step calm_calls keeps_node_call stock.resolve_keeps stock.unbind_keeps)+

lemma channel_calm:
  "calm P (register_channel A request)" "calm P (get_channel A channel hs)" "calm P (patch_channel A channel request)"
  "calm P (delete_channel_handler A channel hs)" "calm P (ready_handler A)"
  unfolding register_channel_def get_channel_def patch_channel_def delete_channel_handler_def ready_handler_def Let_def
  using context_calm(2,3) [of P A]
  by (auto simp: calm_def and_then_def node_call_def ok_def throw_def split: option.splits prod.splits sum.splits if_splits)

lemma metrics_calm: "calm P (metrics_handler A)"
  by (auto simp: calm_def metrics_handler_def built_def build_def header_value_list ok_def split: sum.splits option.splits)

lemma answer_calm:
  assumes "hex_ok (ids (shard A))" and "keeps (\<lambda>p. stocked (shard A) (shard_node p)) m"
    and "yields (\<lambda>p. stocked (shard A) (shard_node p)) m (outcome_typed typed_value)"
  shows "calm (stocked_app A) (answer_proxy A ch m)"
proof -
  have "calm (stocked_app A) (outcome_response A ch outc)" if "outcome_typed typed_value outc" for outc
    using that assms(1)
    by (cases outc) (auto simp: outcome_response_def upstream_response_def decimal_header
        intro!: calm_built serve_calm typed_header_list)
  then show ?thesis
    unfolding answer_proxy_def
    by (intro calm_then [OF calm_calls(2) keeps_proxy_call [OF assms(2)] yields_proxy_call [OF assms(3)]])
      (auto split: sum.split intro!: calm_basic)
qed

lemma packages_calm:
  assumes "hex_ok (ids (shard A))"
  shows "calm (stocked_app A) (go_handler A get ctx path)" "calm (stocked_app A) (fetch_python_simple A get pf ctx path hs)"
    "calm (stocked_app A) (python_file A get ctx path)" "calm (stocked_app A) (npm_handler A get pf ctx path hs)"
    "calm (stocked_app A) (cargo_index A get ctx path)" "calm (stocked_app A) (cargo_config A ctx)"
    "calm (stocked_app A) (fetch_cargo_crate A get ch crate version)"
  unfolding go_handler_def fetch_python_simple_def python_file_def npm_handler_def cargo_index_def cargo_config_def
    fetch_cargo_crate_def packages_fetch_def packages_fetch_encoded_def
  using assms
  by (auto intro!: calm_cases calm_basic answer_calm stock.fetch_keeps stock.fetch_encoded_keeps stock.fetch_typed split: prod.split)

lemma upload_names:
  "Reference_is_valid key \<Longrightarrow> upload_name c (build_reference ''http'' key)"
  "ArtifactId_parse c ''sha256'' key = Inr a \<Longrightarrow> upload_name c (build_reference ''bazel-ac'' key)"
  unfolding upload_name_def by blast+

lemma artifacts_calm:
  assumes "hex_ok (ids (shard A))" and "chunks_fit (req_body request)"
  shows "calm (stocked_app A) (get_artifact A ctx alg dig request)" "calm (stocked_app A) (put_artifact A ctx alg dig request)"
    "calm (stocked_app A) (put_http_cache A ctx key request)" "calm (stocked_app A) (put_bazel_ac A ctx key request)"
    "calm (stocked_app A) (put_bazel_cas A ctx key request)" "calm (stocked_app A) (get_http_cache A ctx key request)"
    "calm (stocked_app A) (get_bazel_ac A ctx key request)" "calm (stocked_app A) (get_bazel_cas A ctx key request)"
  unfolding get_artifact_def put_artifact_def put_http_cache_def put_bazel_ac_def put_bazel_cas_def get_http_cache_def
    get_bazel_ac_def get_bazel_cas_def
  using assms
  by (auto split: sum.split intro!: calm_basic serve_calm serve_reference_calm uploads_calm failure_calm
      simp: target_named_def upload_names)

lemma by_method_calm: "(\<And>m h. (m, h) \<in> set table \<Longrightarrow> calm P h) \<Longrightarrow> calm P (by_method table request)"
  unfolding by_method_def by (auto intro!: calm_basic dest: map_of_SomeD split: option.split)

lemma router_calm:
  assumes "hex_ok (ids (shard A))" and "chunks_fit (req_body request)"
  shows "calm (stocked_app A) (router A get pf route request)"
  unfolding router_def using assms
  by (cases route)
    (auto intro!: by_method_calm calm_step [OF context_calm(1) stock_served.context_kept] calm_basic channel_calm metrics_calm
      packages_calm reference_calm put_reference_calm artifacts_calm
      simp: data_router_def Let_def split: DataRoute.splits)

end
