(* ===== verification/Http_Properties.thy ===== *)
theory Http_Properties
  imports Http_Calm
begin

text \<open>
  Properties of the answers of the HTTP layer: how ranges are read, what a download delivers,
  what an upload followed by a download delivers, that \<open>HEAD\<close> mirrors \<open>GET\<close>, and that a
  request without a channel's token touches nothing.
\<close>

section \<open>Ranges\<close>

lemma parse_digits_append:
  "parse_digits acc (xs @ ys) = Option.bind (parse_digits acc xs) (\<lambda>v. parse_digits v ys)"
  by (induction acc xs rule: parse_digits.induct) (auto split: option.splits)

lemma digit_value_char: "k < 10 \<Longrightarrow> digit_value (char_of (48 + k)) = Some k"
  by (auto simp: digit_value_def is_ascii_digit_def less_eq_char_def of_char_of)

lemma decimal_nonempty [simp]: "decimal n \<noteq> []"
  by (subst decimal.simps) simp

lemma parse_decimal: "n < 2 ^ 64 \<Longrightarrow> parse_digits 0 (decimal n) = Some n"
proof (induction n rule: decimal.induct)
  case (1 n)
  show ?case
  proof (cases "n < 10")
    case True
    then show ?thesis by (simp add: decimal.simps [of n] digit_value_char)
  next
    case False
    then have "parse_digits 0 (decimal (n div 10)) = Some (n div 10)" using 1 by simp
    moreover have "n div 10 * 10 + n mod 10 < 2 ^ 64" using 1(2) by simp
    ultimately show ?thesis using False
      by (simp add: decimal.simps [of n] parse_digits_append digit_value_char)
  qed
qed

lemma decimal_first: "decimal n = x # xs \<Longrightarrow> is_ascii_digit x"
  using decimal_digits [of n] by simp

lemma parse_u64_decimal: "parse_u64 (decimal (unat x)) = Some x"
proof -
  have "parse_unsigned (decimal (unat x)) = parse_digits 0 (decimal (unat x))"
    unfolding parse_unsigned_def Let_def
    by (cases "decimal (unat x)") (auto dest!: decimal_first simp: is_ascii_digit_def less_eq_char_def)
  then show ?thesis using parse_decimal [of "unat x"] u64_less [of x] by (simp add: parse_u64_def)
qed

lemma digit_not_sep: "\<not> is_ascii_digit CHR '',''" "\<not> is_ascii_digit CHR ''-''"
  by (simp_all add: is_ascii_digit_def less_eq_char_def)

lemma decimal_seps: "CHR '','' \<notin> set (decimal n)" "CHR ''-'' \<notin> set (decimal n)"
  using decimal_digits [of n] digit_not_sep by (auto simp: list_all_iff)

lemma header_str_bytes: "header_value_ok s \<Longrightarrow> list_all (\<lambda>x. (of_char x :: nat) < 127) s \<Longrightarrow> header_str (str_bytes s) = Some s"
proof -
  have "unat (of_nat (of_char x) :: u8) = of_char x" for x :: char
    by (simp add: unat_of_nat)
  then show "header_value_ok s \<Longrightarrow> list_all (\<lambda>x. (of_char x :: nat) < 127) s \<Longrightarrow> header_str (str_bytes s) = Some s"
    by (auto simp: header_str_def str_bytes_def header_value_ok_def list_all_iff map_idI)
qed

lemma decimal_ascii: "list_all (\<lambda>x. (of_char x :: nat) < 127) (decimal n)"
  using decimal_digits [of n] by (auto simp: list_all_iff is_ascii_digit_def less_eq_char_def)

lemma split_once_at: "sep \<notin> set a \<Longrightarrow> split_once sep (a @ sep # b) = Some (a, b)"
  by (induction a) auto

text \<open>A range header of the three forms clients send.\<close>

definition range_header :: "string \<Rightarrow> string \<Rightarrow> bytes option" where
  "range_header first stop = Some (str_bytes (''bytes='' @ first @ ''-'' @ stop))"

lemma range_header_read:
  assumes "first = [] \<or> first = decimal i" and "stop = [] \<or> stop = decimal j"
  shows "Option.bind (Option.bind (range_header first stop) header_str) (strip_prefix ''bytes='') = Some (first @ ''-'' @ stop)"
    and "CHR '','' \<notin> set (first @ ''-'' @ stop)" and "split_once CHR ''-'' (first @ ''-'' @ stop) = Some (first, stop)"
proof -
  have "header_str (str_bytes (''bytes='' @ first @ ''-'' @ stop)) = Some (''bytes='' @ first @ ''-'' @ stop)"
    using assms decimal_ascii decimal_header
    by (intro header_str_bytes) (auto simp: header_value_append header_value_list simp del: append_Cons)
  then show "Option.bind (Option.bind (range_header first stop) header_str) (strip_prefix ''bytes='') = Some (first @ ''-'' @ stop)"
    by (simp add: range_header_def strip_prefix_def starts_with_def)
  show "CHR '','' \<notin> set (first @ ''-'' @ stop)" using assms decimal_seps by auto
  have "CHR ''-'' \<notin> set first" using assms(1) decimal_seps by auto
  then show "split_once CHR ''-'' (first @ ''-'' @ stop) = Some (first, stop)" using split_once_at by simp
qed

lemma parse_range_read:
  assumes "first = [] \<or> first = decimal i" and "stop = [] \<or> stop = decimal j"
  shows "parse_range (range_header first stop) len =
    (if first = [] then suffix_range stop len
     else case parse_u64 first of
       None \<Rightarrow> Full
     | Some s \<Rightarrow> if stop = [] then bounded_range s None len
                 else case parse_u64 stop of None \<Rightarrow> Full | Some e \<Rightarrow> if e < s then Full else bounded_range s (Some e) len)"
  unfolding parse_range_def range_header_read(1) [OF assms] option.case
  using range_header_read(2,3) [OF assms] by simp

lemma parse_range_forms:
  "s \<le> e \<Longrightarrow> parse_range (range_header (decimal (unat s)) (decimal (unat e))) len
     = (if len \<le> s then Unsatisfiable else Partial s (min e (len - 1)))"
  "parse_range (range_header (decimal (unat s)) []) len = (if len \<le> s then Unsatisfiable else Partial s (len - 1))"
  "parse_range (range_header [] (decimal (unat n))) len
     = (if n = 0 \<or> len = 0 then Unsatisfiable else Partial (saturating_sub len n) (len - 1))"
  using parse_range_read [where first = "decimal (unat s)" and stop = "decimal (unat e)" and i = "unat s" and j = "unat e"]
    parse_range_read [where first = "decimal (unat s)" and stop = "[]" and i = "unat s"]
    parse_range_read [where first = "[]" and stop = "decimal (unat n)" and j = "unat n"]
  by (simp_all add: parse_u64_decimal bounded_range_def suffix_range_def)

lemma range_inside:
  fixes len :: u64
  assumes "0 < len"
  shows "len - 1 < len" "saturating_sub len n \<le> len - 1 \<longleftrightarrow> n \<noteq> 0" "s < len \<Longrightarrow> s \<le> len - 1"
proof -
  have "0 < unat n" if "n \<noteq> 0" using that by (simp add: unat_gt_0)
  then show "len - 1 < len" "saturating_sub len n \<le> len - 1 \<longleftrightarrow> n \<noteq> 0" "s < len \<Longrightarrow> s \<le> len - 1"
    using assms by (fastforce simp: word_le_nat_alt word_less_nat_alt unat_saturating_sub unat_eq_0 unat_sub)+
qed

lemma bounded_inside: "bounded_range s' stop len = Partial s e \<Longrightarrow> (\<And>x. stop = Some x \<Longrightarrow> s' \<le> x) \<Longrightarrow> s \<le> e \<and> e < len"
proof -
  assume r: "bounded_range s' stop len = Partial s e" and stop: "\<And>x. stop = Some x \<Longrightarrow> s' \<le> x"
  from r have l: "s = s'" "s < len" "e = min (case stop of None \<Rightarrow> len - 1 | Some e \<Rightarrow> e) (len - 1)"
    by (auto simp: bounded_range_def split: if_splits)
  then have "0 < len" by (metis word_gt_0 word_not_simps(1))
  with range_inside [OF this] l stop show ?thesis by (cases stop) (auto simp: min_def)
qed

lemma parse_range_inside: "parse_range v len = Partial s e \<Longrightarrow> s \<le> e \<and> e < len"
proof -
  assume "parse_range v len = Partial s e"
  then consider stop where "suffix_range stop len = Partial s e" | s' where "bounded_range s' None len = Partial s e"
    | s' e' where "s' \<le> e'" "bounded_range s' (Some e') len = Partial s e"
    unfolding parse_range_def by (auto simp: not_less split: option.splits prod.splits if_splits)
  then show ?thesis
  proof cases
    case 1
    then obtain n where "n \<noteq> 0" "len \<noteq> 0" "s = saturating_sub len n" "e = len - 1"
      by (auto simp: suffix_range_def split: option.splits if_splits)
    then show ?thesis using range_inside(1) [of len] range_inside(2) [of len n] by (auto simp: word_gt_0)
  qed (auto dest: bounded_inside)
qed

lemma granted_amount:
  fixes s e len :: u64
  assumes "s \<le> e" and "e < len"
  shows "unat (e - s + 1) = unat e - unat s + 1"
proof -
  have "unat (e - s) = unat e - unat s" using assms(1) by (simp add: unat_sub)
  moreover have "unat e < unat len" using assms(2) by (simp add: word_less_nat_alt)
  moreover have "unat len < 2 ^ 64" using u64_less [of len] by simp
  ultimately show ?thesis by (simp add: unat_add_no_overflow)
qed

text \<open>
  C36. Ranges: whatever the header, a range the server grants lies inside the artifact, so
  that its length neither wraps nor exceeds what is stored; and the three forms clients
  send, with both ends, with an open end and as a suffix, are read as they are written, cut
  off at the last byte, and refused exactly when they select nothing.
\<close>

theorem granted_ranges_lie_inside:
  "(\<forall>v s e. parse_range v len = Partial s e \<longrightarrow> s \<le> e \<and> e < len \<and> unat (e - s + 1) = unat e - unat s + 1)
   \<and> (\<forall>s e. s \<le> e \<longrightarrow> parse_range (range_header (decimal (unat s)) (decimal (unat e))) len
        = (if len \<le> s then Unsatisfiable else Partial s (min e (len - 1))))
   \<and> (\<forall>s. parse_range (range_header (decimal (unat s)) []) len = (if len \<le> s then Unsatisfiable else Partial s (len - 1)))
   \<and> (\<forall>n. parse_range (range_header [] (decimal (unat n))) len
        = (if n = 0 \<or> len = 0 then Unsatisfiable else Partial (saturating_sub len n) (len - 1)))"
  using parse_range_inside parse_range_forms granted_amount by blast

theorem granted_ranges_lie_inside_witness:
  "parse_range (range_header (decimal (unat (2 :: u64))) (decimal (unat (9 :: u64)))) 6 = Partial 2 5"
proof -
  have "(2 :: u64) \<le> 9" "min 9 (6 - 1) = (5 :: u64)" "\<not> 6 \<le> (2 :: u64)" by simp_all
  with granted_ranges_lie_inside [of 6] show ?thesis by metis
qed

section \<open>Downloads\<close>

text \<open>What a client that reads a body to its end receives, if no error interrupts it.\<close>

definition delivered :: "body_stream \<Rightarrow> bytes option" where
  "delivered stream = (if list_all (\<lambda>item. \<not> isl item) stream then Some (stream_body stream) else None)"

text \<open>The record tells the truth about the file: its encoding, its length, and the length of the body it encodes.\<close>

definition describes :: "'f fs \<Rightarrow> ArtifactMetadata \<Rightarrow> bytes \<Rightarrow> bytes \<Rightarrow> bool" where
  "describes F md bs body \<longleftrightarrow>
     bs = encoded F (encoding md) body \<and> unat (content_len md) = length body \<and> unat (stored_len md) = length bs"

text \<open>The streaming decoder yields what the encoder was given.\<close>

definition reader_ok :: "('d, 'f) AppState \<Rightarrow> bool" where
  "reader_ok A \<longleftrightarrow> (\<forall>body. delivered (zstd_reader (framework A) (zstd_frame (fsys (shard A)) body)) = Some body)"

lemma delivered_simps [simp]:
  "delivered [] = Some []" "delivered (reader_stream bs) = Some bs" "delivered (Inl e # stream) = None"
  "delivered (Inr chunk # stream) = map_option ((@) chunk) (delivered stream)"
  by (simp_all add: delivered_def stream_body_def reader_stream_def)

lemma delivered_take: "delivered stream = Some bs \<Longrightarrow> delivered (take_stream n stream) = Some (take n bs)"
  by (induction n stream arbitrary: bs rule: take_stream.induct) (auto simp: take_append)

lemma located_state: "snd (located_reply A a l hs head u) = u"
proof -
  have "snd (built s hl body permit u) = u" for s hl body permit
    by (simp add: built_def ok_def throw_def split: option.split)
  then show ?thesis
    unfolding located_reply_def Let_def by (simp add: ok_def split: RangeSelection.split StoredEncoding.split)
qed

text \<open>The world a request with a permit runs in.\<close>

definition admitted :: "('d, 'f, 'w) app_world \<Rightarrow> ('d, 'f, 'w) app_world" where
  "admitted w = on_node (\<lambda>n. n\<lparr>stats := metrics_foreground_acquired (stats n)\<rparr>) (w\<lparr>foreground := foreground w - 1\<rparr>)"

lemma scope_run:
  assumes "0 < foreground w"
  shows "permit_scope took h w =
    (fst (h (admitted w)), if took (fst (h (admitted w))) then snd (h (admitted w)) else drop_permit (snd (h (admitted w))))"
  using assms
  by (simp add: permit_scope_def acquire_foreground_def and_then_def tally_def modify_def ok_def admitted_def split: prod.split)

lemma admitted_node: "app_node (admitted w) = (app_node w)\<lparr>stats := metrics_foreground_acquired (stats (app_node w))\<rparr>"
  by (simp add: admitted_def on_node_def)

lemma serve_E:
  fixes A :: "('d, 'f) AppState" and w :: "('d, 'f, 'w) app_world"
  assumes "0 < foreground w" and "serve_artifact A ch a hs head w = (x, w')"
  obtains found n and u :: "('d, 'f, 'w) app_world" where "locate (shard A) ch a (app_node (admitted w)) = (found, n)"
    and "x = (case found of
        Inr (Some l) \<Rightarrow> fst (located_reply A a l hs head u)
      | Inr None \<Rightarrow> Inr (status_reply 404)
      | Inl _ \<Rightarrow> Inr (status_reply 500))"
proof -
  obtain found n where l: "locate (shard A) ch a (app_node (admitted w)) = (found, n)" by fastforce
  let ?u = "on_node (\<lambda>_. n) (admitted w)"
  let ?h = "case found of Inr (Some l) \<Rightarrow> located_reply A a l hs head | Inr None \<Rightarrow> ok (status_reply 404)
    | Inl _ \<Rightarrow> ok (status_reply 500)"
  have "and_then (node_call (locate (shard A) ch a)) (\<lambda>found.
        case found of
          Inr (Some located) \<Rightarrow> located_reply A a located hs head
        | Inr None \<Rightarrow> ok (status_reply 404)
        | Inl _ \<Rightarrow> ok (status_reply 500)) (admitted w) = (fst (?h ?u), snd (?h ?u))"
    using l by (simp add: and_then_def node_call_def)
  with assms have "x = fst (?h ?u)" by (simp add: serve_artifact_def scope_run)
  with l show thesis by (intro that [of found n ?u]) (auto simp: ok_def split: sum.split option.split)
qed

text \<open>What the answer to a \<open>GET\<close> is, for a range selection.\<close>

definition answers :: "('d, 'f) AppState \<Rightarrow> ArtifactMetadata \<Rightarrow> bytes \<Rightarrow> headers \<Rightarrow> RangeSelection \<Rightarrow> Response \<Rightarrow> bool" where
  "answers A md body hs sel r \<longleftrightarrow>
     (case sel of
        Unsatisfiable \<Rightarrow> resp_status r = 416 \<and> resp_body r = []
      | Partial s e \<Rightarrow>
          resp_status r = 206 \<and> delivered (resp_body r) = Some (take (unat e - unat s + 1) (drop (unat s) body))
        \<and> header_get (resp_headers r) ''content-length'' = Some (str_bytes (decimal (unat e - unat s + 1)))
        \<and> header_get (resp_headers r) ''content-range''
            = Some (str_bytes (''bytes '' @ decimal (unat s) @ ''-'' @ decimal (unat e) @ ''/'' @ decimal (length body)))
      | Full \<Rightarrow>
          resp_status r = 200
        \<and> (\<exists>bs. delivered (resp_body r) = Some bs
             \<and> header_get (resp_headers r) ''content-length'' = Some (str_bytes (decimal (length bs)))
             \<and> (if encoding md = Zstd \<and> accepts_zstd hs
                then header_get (resp_headers r) ''content-encoding'' = Some (str_bytes ''zstd'')
                   \<and> zstd_decode (fsys (shard A)) bs = Some body
                else header_get (resp_headers r) ''content-encoding'' = None \<and> bs = body)))"

text \<open>
  The range a \<open>GET\<close> selects of an artifact, and the two ways its download fails: the lookup ends
  with an error of the store or the disk, or the seek to the start of the range fails.
\<close>

definition selection :: "ArtifactMetadata \<Rightarrow> headers \<Rightarrow> RangeSelection" where
  "selection md hs = (if encoding md = Identity then parse_range (header_get hs ''range'') (content_len md) else Full)"

definition seek_lost :: "('d, 'f) AppState \<Rightarrow> bytes \<Rightarrow> RangeSelection \<Rightarrow> bool" where
  "seek_lost A bs sel = (case sel of Partial s e \<Rightarrow> 0 < s \<and> seek_fails (framework A) bs s | _ \<Rightarrow> False)"

definition download_lost ::
  "('d, 'f) AppState \<Rightarrow> ChannelId \<Rightarrow> ArtifactId \<Rightarrow> bytes \<Rightarrow> RangeSelection \<Rightarrow> ('d, 'f, 'w) app_world \<Rightarrow> bool" where
  "download_lost A ch a bs sel w \<longleftrightarrow>
     isl (fst (locate (shard A) ch a (app_node (admitted w)))) \<or> seek_lost A bs sel"

lemma built_Some:
  "list_all (\<lambda>(_, v). header_value_ok v) hl \<Longrightarrow>
    built s hl body permit u
      = (Inr \<lparr>reply = \<lparr>resp_status = s, resp_headers = map (\<lambda>(k, v). (k, str_bytes v)) hl, resp_body = body\<rparr>,
          body_permit = permit\<rparr>, u)"
  by (simp add: built_def build_def ok_def)

lemma artifact_header_get:
  "header_get (map (\<lambda>(k, v). (k, str_bytes v)) (artifact_headers A a md sel amount pass)) ''content-length''
     = Some (str_bytes (decimal (unat (if pass then stored_len md else amount))))"
  "header_get (map (\<lambda>(k, v). (k, str_bytes v)) (artifact_headers A a md sel amount pass)) ''content-encoding''
     = (if pass then Some (str_bytes ''zstd'') else None)"
  "header_get (map (\<lambda>(k, v). (k, str_bytes v)) (artifact_headers A a md (Partial s e) amount pass)) ''content-range''
     = Some (str_bytes (''bytes '' @ decimal (unat s) @ ''-'' @ decimal (unat e) @ ''/'' @ decimal (unat (content_len md))))"
  by (auto simp: artifact_headers_def header_get_def split: option.split RangeSelection.split)

lemma located_answers:
  assumes hex: "hex_ok (ids (shard A))" and typed: "typed_value (content_type md)" and reader: "reader_ok A"
    and frames: "\<And>b. zstd_decode (fsys (shard A)) (zstd_frame (fsys (shard A)) b) = Some b"
    and d: "describes (fsys (shard A)) md bs body"
  shows "\<exists>r. fst (located_reply A a \<lparr>located_file = bs, located_metadata = md\<rparr> hs False u) = Inr r
    \<and> (if seek_lost A bs (selection md hs) then r = status_reply 500 else answers A md body hs (selection md hs) (reply r))"
proof (cases "encoding md")
  case Zstd
  have bs: "bs = zstd_frame (fsys (shard A)) body" "unat (content_len md) = length body" "unat (stored_len md) = length bs"
    using d Zstd by (simp_all add: describes_def encoded_def)
  have read: "delivered (take_stream (length body) (zstd_reader (framework A) bs)) = Some body"
    using delivered_take [of "zstd_reader (framework A) bs" body "length body"] reader bs(1) by (simp add: reader_ok_def)
  have empty: "content_len md = 0 \<longleftrightarrow> body = []" by (metis bs(2) length_0_conv unat_eq_0)
  show ?thesis
    using Zstd bs read empty frames
    by (auto simp: selection_def seek_lost_def located_reply_def answers_def built_Some artifact_headers_ok [OF hex typed] artifact_header_get Let_def)
next
  case Identity
  have bs: "bs = body" "unat (content_len md) = length body" using d Identity by (simp_all add: describes_def encoded_def)
  have empty: "content_len md = 0 \<longleftrightarrow> body = []" by (metis bs(2) length_0_conv unat_eq_0)
  show ?thesis
  proof (cases "parse_range (header_get hs ''range'') (content_len md)")
    case Full
    then show ?thesis using Identity bs empty
      by (auto simp: selection_def seek_lost_def located_reply_def answers_def built_Some artifact_headers_ok [OF hex typed] artifact_header_get Let_def)
  next
    case Unsatisfiable
    then show ?thesis using Identity
      by (auto simp: selection_def seek_lost_def located_reply_def answers_def built_Some etag_header [OF hex] decimal_header header_value_append
          header_value_list Let_def)
  next
    case (Partial s e)
    have inside: "s \<le> e" "e < content_len md" using parse_range_inside [OF Partial] by auto
    then have amount: "unat (e - s + 1) = unat e - unat s + 1"
      using granted_amount by blast
    then have "e - s + 1 \<noteq> 0" by (metis Suc_eq_plus1 nat.distinct(1) unat_0)
    with Partial Identity bs amount show ?thesis
      by (auto simp: selection_def seek_lost_def located_reply_def answers_def built_Some artifact_headers_ok [OF hex typed] artifact_header_get Let_def ok_def)
  qed
qed

lemma admitted_ok: "node_ok S k (app_node (admitted w)) \<longleftrightarrow> node_ok S k (app_node w)"
  "view S (app_node (admitted w)) = view S (app_node w)" "disk (app_node (admitted w)) = disk (app_node w)"
  by (simp_all add: admitted_node node_ok_def stored_ok_def)

lemma node_ok_valid: "node_ok S k n \<Longrightarrow> valid S n"
  by (simp add: node_ok_def stored_ok_def db_good_def)

lemma serve_answers:
  assumes "env_ok (shard A)" and "node_ok (shard A) k (app_node w)" and "reader_ok A" and "0 < foreground w"
    and "artifacts (view (shard A) (app_node w)) (ch, a) = Some md" and "body_at (shard A) (app_node w) ch a = Some bs"
    and "describes (fsys (shard A)) md bs body" and "typed_value (content_type md)"
    and "serve_artifact A ch a hs False w = (x, w')"
  shows "\<exists>r. x = Inr r \<and> (if download_lost A ch a bs (selection md hs) w then r = status_reply 500
      else answers A md body hs (selection md hs) (reply r))"
proof (rule serve_E [OF assms(4,9)])
  fix found n and u :: "('a, 'b, 'c) app_world"
  assume l: "locate (shard A) ch a (app_node (admitted w)) = (found, n)"
    and x: "x = (case found of
        Inr (Some l) \<Rightarrow> fst (located_reply A a l hs False u)
      | Inr None \<Rightarrow> Inr (status_reply 404)
      | Inl _ \<Rightarrow> Inr (status_reply 500))"
  have "valid (shard A) (app_node (admitted w))" using node_ok_valid [OF assms(2)] by (simp add: admitted_node)
  from lookup_of_recorded [OF assms(1) this _ _ l] assms(5,6)
  have "(\<exists>e. found = Inl e) \<or> found = Inr (Some \<lparr>located_file = bs, located_metadata = md\<rparr>)" by (simp add: admitted_ok)
  moreover have "hex_ok (ids (shard A))" and "\<And>b. zstd_decode (fsys (shard A)) (zstd_frame (fsys (shard A)) b) = Some b"
    using assms(1) by (auto simp: env_ok_def fs_ok_def writers_ok_def)
  ultimately show ?thesis using x l located_answers [OF _ assms(8) assms(3) _ assms(7), where a = a and u = u and hs = hs]
    by (auto simp: download_lost_def)
qed

lemma created_record:
  assumes "published S ch a Identity ct body reference n n'" and "artifacts (view S n) (ch, a) = None"
    and "body_at S n ch a = None" and "\<not> dirs (fsys S) (disk n) (artifact_path (ids S) (artifact_files S) ch a)"
  obtains md where "artifacts (view S n') (ch, a) = Some md" and "body_at S n' ch a = Some body"
    and "describes (fsys S) md body body" and "encoding md = Identity" and "content_type md = ct"
proof -
  from assms obtain md where md: "view S n' = a_commit ch a md reference (view S n)" "unat (content_len md) = length body"
    "content_type md = ct" "encoding md = Identity" "stored_len md = of_nat (length body)"
    and body: "body_at S n' ch a = Some body"
    by (auto simp: published_def encoded_def)
  have "length body < 2 ^ 64" using md(2) u64_less [of "content_len md"] by simp
  then have "unat (stored_len md) = length body" using md(5) by (simp add: unat_of_nat)
  then show thesis using assms(2) md body
    by (intro that [of md]) (auto simp: a_commit_def describes_def encoded_def Let_def split: option.splits)
qed

section \<open>The concrete shard\<close>

definition demo_http :: http_crates where
  "demo_http =
     \<lparr>json_reply = (\<lambda>s _. status_response s), binding_payload = (\<lambda>_. Inl (status_response 400)),
      register_payload = (\<lambda>_. Inr \<lparr>reg_access_control = None, reg_expiry_seconds = None\<rparr>),
      patch_payload = (\<lambda>_. Inl (status_response 400)), base64_standard_decode = (\<lambda>_. None),
      seek_fails = (\<lambda>_ _. False), zstd_reader = (\<lambda>bs. reader_stream (drop 2 bs)), encode_registry = (\<lambda>_ _. Inr [])\<rparr>"

definition demo_app :: "(demo_db, demo_disk) AppState" where
  "demo_app = \<lparr>app_proxy = demo_proxy, default_expiry_seconds = 60, framework = demo_http\<rparr>"

definition demo_app_world :: "(demo_db, demo_disk) node \<Rightarrow> (demo_db, demo_disk, Url list) app_world" where
  "demo_app_world n =
     \<lparr>proxied = \<lparr>shard_node = n, upstream_web = [], permits = 4, flights = (\<lambda>_. None)\<rparr>, foreground = 2,
      prefetch_metrics = \<lparr>prefetch_requests = 0, prefetch_hit_responses = 0, prefetch_miss_responses = 0,
        prefetch_unavailable_responses = 0, prefetch_in_flight = 0, prefetch_completed_transfers = 0,
        prefetch_cancelled_transfers = 0, prefetch_response_bytes = 0, prefetch_transfer_durations = 0\<rparr>,
      durations = []\<rparr>"

lemma demo_app_select [simp]:
  "app_proxy demo_app = demo_proxy" "framework demo_app = demo_http" "cache demo_proxy = demo_service"
  "proxied (demo_app_world n) = \<lparr>shard_node = n, upstream_web = [], permits = 4, flights = (\<lambda>_. None)\<rparr>"
  "foreground (demo_app_world n) = 2"
  by (simp_all add: demo_app_def demo_proxy_def demo_app_world_def)

lemma demo_reader_ok: "reader_ok demo_app"
  by (simp add: reader_ok_def demo_http_def demo_frame_def)

lemma demo_serves:
  assumes "valid demo_service n" and "artifacts (view demo_service n) (ch, a) = Some md" and "body_at demo_service n ch a = Some bs"
    and "encoding md = Identity"
  shows "fst (serve_artifact demo_app ch a hs False (demo_app_world n)) \<noteq> Inr (status_reply 500)"
proof -
  obtain x w' where run: "serve_artifact demo_app ch a hs False (demo_app_world n) = (x, w')" by fastforce
  show ?thesis
  proof (rule serve_E [OF _ run])
    fix found n' and u :: "(demo_db, demo_disk, Url list) app_world"
    assume l: "locate (shard demo_app) ch a (app_node (admitted (demo_app_world n))) = (found, n')"
      and x: "x = (case found of
          Inr (Some l) \<Rightarrow> fst (located_reply demo_app a l hs False u)
        | Inr None \<Rightarrow> Inr (status_reply 404)
        | Inl _ \<Rightarrow> Inr (status_reply 500))"
    have "found = Inr (Some \<lparr>located_file = bs, located_metadata = md\<rparr>)"
      using demo_locates [of "app_node (admitted (demo_app_world n))" ch a md bs] l assms by (simp add: admitted_node)
    then show ?thesis using x run assms(4)
      by (auto simp: located_reply_def demo_http_def built_def build_def plain_def status_response_def ok_def throw_def Let_def
          split: RangeSelection.splits if_splits)
  qed simp
qed

definition demo_download :: Request where
  "demo_download = \<lparr>req_method = GET, req_path = ''/artifacts'', req_path_and_query = None, req_headers = [], req_body = []\<rparr>"

definition demo_upload :: Request where
  "demo_upload = \<lparr>req_method = PUT, req_path = ''/artifacts'', req_path_and_query = None, req_headers = [], req_body = demo_chunks\<rparr>"

definition demo_context :: ChannelContext where
  "demo_context = \<lparr>ctx_channel = default_channel, ctx_scope = None, ctx_access_control = False\<rparr>"

definition demo_digest :: string where
  "demo_digest = Digest_display demo_crates (digest demo_body_id)"

lemma demo_created:
  assumes "service_publish demo_service (demo_request\<lparr>req_target := t\<rparr>) ((demo_node demo_ready)\<lparr>stats := m\<rparr>)
    = (Inr \<lparr>pub_artifact = demo_body_id, pub_outcome = PublicationCreated\<rparr>, n')"
  obtains md where "node_ok demo_service 0 n'" and "artifacts (view demo_service n') (default_channel, demo_body_id) = Some md"
    and "body_at demo_service n' default_channel demo_body_id = Some [1, 2, 3, 4, 5]"
    and "describes demo_fs md [1, 2, 3, 4, 5] [1, 2, 3, 4, 5]" and "encoding md = Identity" and "content_type md = None"
proof -
  let ?n = "(demo_node demo_ready)\<lparr>stats := m\<rparr>" and ?req = "demo_request\<lparr>req_target := t\<rparr>"
  have ok: "node_ok demo_service 0 ?n" using demo_node_ok [OF demo_ready_good] by (simp add: node_ok_def stored_ok_def)
  have fit: "chunks_fit (req_stream ?req)" by (simp add: demo_request_def demo_chunks_fit)
  from assms have "publish_or_reject demo_service ?req ?n
      = (Inr (AdmissionPublished \<lparr>pub_artifact = demo_body_id, pub_outcome = PublicationCreated\<rparr>), n')"
    by (auto simp: service_publish_def and_then_def ok_def throw_def split: prod.splits sum.splits Admission.splits)
  then obtain reference where p: "published demo_service default_channel demo_body_id Identity None [1, 2, 3, 4, 5] reference ?n n'"
    by (rule publish_success_E [OF demo_env ok fit]) (simp add: demo_request_def stream_body_def demo_chunks_def)
  have "artifacts (view demo_service ?n) (default_channel, demo_body_id) = None"
    by (simp add: demo_node_def demo_ready_rows db_view_def abs_store_def abs_artifacts_def decoded_def demo_rocks_def demo_contents_def)
  then obtain md where "artifacts (view demo_service n') (default_channel, demo_body_id) = Some md"
    "body_at demo_service n' default_channel demo_body_id = Some [1, 2, 3, 4, 5]"
    "describes (fsys demo_service) md [1, 2, 3, 4, 5] [1, 2, 3, 4, 5]" "encoding md = Identity" "content_type md = None"
    by (rule created_record [OF p]) (simp_all add: demo_node_def)
  then show thesis using that keepsD [OF keeps_publish [OF demo_env fit] ok assms] by simp
qed

section \<open>The download\<close>

text \<open>
  C13. What a download delivers. For an artifact that is recorded, whose file is there and is
  described truthfully by its record, and with a permit free, the answer to a \<open>GET\<close> is a
  server error exactly when the lookup ends with an error of the store or the disk, or the
  file cannot be positioned at the start of the requested range; otherwise it is the
  whole body with its length, or the frame as stored to a client that accepts zstd, or
  exactly the bytes of the requested range with the matching \<open>Content-Range\<close>, or a refusal
  of a range that selects nothing.
\<close>

theorem download_delivers_the_artifact:
  assumes "env_ok (shard A)" and "node_ok (shard A) k (app_node w)" and "reader_ok A" and "0 < foreground w"
    and "artifacts (view (shard A) (app_node w)) (ch, a) = Some md" and "body_at (shard A) (app_node w) ch a = Some bs"
    and "describes (fsys (shard A)) md bs body" and "typed_value (content_type md)"
    and "serve_artifact A ch a hs False w = (x, w')"
  shows "\<exists>r. x = Inr r \<and> (if download_lost A ch a bs (selection md hs) w then r = status_reply 500
      else answers A md body hs (selection md hs) (reply r))"
  by (rule serve_answers [OF assms])

theorem download_delivers_the_artifact_witness:
  "\<exists>n r. fst (serve_artifact demo_app default_channel demo_body_id [(''range'', str_bytes ''bytes=1-3'')] False (demo_app_world n)) = Inr r
     \<and> service_publish demo_service demo_request (demo_node demo_ready) = (Inr \<lparr>pub_artifact = demo_body_id, pub_outcome = PublicationCreated\<rparr>, n)
     \<and> resp_status (reply r) = 206 \<and> delivered (resp_body (reply r)) = Some [2, 3, 4]"
proof -
  let ?hs = "[(''range'', str_bytes ''bytes=1-3'')]"
  from demo_publish_succeeds obtain n where run: "service_publish demo_service demo_request (demo_node demo_ready)
     = (Inr \<lparr>pub_artifact = demo_body_id, pub_outcome = PublicationCreated\<rparr>, n)" ..
  then obtain md where md: "node_ok demo_service 0 n" "artifacts (view demo_service n) (default_channel, demo_body_id) = Some md"
    "body_at demo_service n default_channel demo_body_id = Some [1, 2, 3, 4, 5]"
    "describes demo_fs md [1, 2, 3, 4, 5] [1, 2, 3, 4, 5]" "encoding md = Identity" "content_type md = None"
    using demo_created [of "ContentAddressed (Some ''latest'')" "stats (demo_node demo_ready)" n] by (auto simp: demo_request_def)
  obtain x w' where serve: "serve_artifact demo_app default_channel demo_body_id ?hs False (demo_app_world n) = (x, w')" by fastforce
  from download_delivers_the_artifact [OF _ _ demo_reader_ok _ _ _ _ _ serve, where k = 0 and md = md
      and bs = "[1, 2, 3, 4, 5]" and body = "[1, 2, 3, 4, 5]"] md
  obtain r where r: "x = Inr r" "if download_lost demo_app default_channel demo_body_id [1, 2, 3, 4, 5] (selection md ?hs) (demo_app_world n)
      then r = status_reply 500 else answers demo_app md [1, 2, 3, 4, 5] ?hs (selection md ?hs) (reply r)"
    by (auto simp: demo_env typed_value_def)
  have "r \<noteq> status_reply 500"
    using demo_serves [of n default_channel demo_body_id md "[1, 2, 3, 4, 5]" ?hs] md r(1) serve
    by (simp add: node_ok_def stored_ok_def db_good_def)
  then have r: "x = Inr r" "answers demo_app md [1, 2, 3, 4, 5] ?hs (parse_range (header_get ?hs ''range'') (content_len md)) (reply r)"
    using r md(5) by (simp_all add: selection_def split: if_splits)
  have "content_len md = 5" using md(4) by (simp add: describes_def word_unat_eq_iff)
  moreover have "decimal 1 = ''1''" "decimal 3 = ''3''" by (simp_all add: decimal.simps char_of_def bit_iff_odd)
  then have "parse_range (Some (str_bytes ''bytes=1-3'')) (5 :: u64) = (if (5 :: u64) \<le> 1 then Unsatisfiable else Partial 1 (min 3 (5 - 1)))"
    using parse_range_forms(1) [of 1 3 "5 :: u64"] by (simp add: range_header_def)
  then have "parse_range (Some (str_bytes ''bytes=1-3'')) (5 :: u64) = Partial 1 3" by (simp add: word_le_nat_alt)
  ultimately show ?thesis using r run serve by (intro exI [of _ n] exI [of _ r]) (auto simp: answers_def header_get_def)
qed

section \<open>Uploads\<close>

lemma upload_run:
  fixes A :: "('d, 'f) AppState" and w :: "('d, 'f, 'w) app_world"
  assumes "0 < foreground w" and "service_publish (shard A) request (app_node (admitted w)) = (result, n)"
  shows "upload A request success failure w =
    (let h = (case result of Inr publication \<Rightarrow> ok (status_reply (success publication)) | Inl error \<Rightarrow> failure error);
         run = h (on_node (\<lambda>_. n) (admitted w))
     in (fst run, if keeps_permit (fst run) then snd run else drop_permit (snd run)))"
  using assms(2) by (simp add: upload_def scope_run [OF assms(1)] and_then_def node_call_def Let_def)

lemma write_failure_status: "fst (cache_write_failure e w) = Inr r \<Longrightarrow> resp_status (reply r) \<noteq> 201"
  by (auto simp: cache_write_failure_def and_then_def tally_def modify_def ok_def plain_def status_response_def
      insufficient_storage_def split: if_splits)

lemma upload_created_E:
  fixes A :: "('d, 'f) AppState" and w :: "('d, 'f, 'w) app_world"
  assumes "0 < foreground w" and "put_artifact A ctx alg dig request w = (Inr r, w')" and "resp_status (reply r) = 201"
  obtains a pub n where "ArtifactId_parse (ids (shard A)) alg dig = Inr a" and "pub_outcome pub = PublicationCreated"
    and "service_publish (shard A) (upload_request (ctx_channel ctx) (ById a) Durable Identity request) (app_node (admitted w)) = (Inr pub, n)"
    and "app_node w' = n\<lparr>stats := metrics_foreground_released (stats n)\<rparr>" and "foreground w' = foreground w"
proof -
  from assms(2,3) obtain a where a: "ArtifactId_parse (ids (shard A)) alg dig = Inr a"
    by (auto simp: put_artifact_def ok_def plain_def status_response_def split: sum.splits)
  obtain result n where p: "service_publish (shard A) (upload_request (ctx_channel ctx) (ById a) Durable Identity request)
      (app_node (admitted w)) = (result, n)" by fastforce
  show thesis
  proof (cases result)
    case (Inl e)
    then show thesis using assms(2,3) a write_failure_status [of e "on_node (\<lambda>_. n) (admitted w)" r]
      by (auto simp: put_artifact_def upload_run [OF assms(1) p] Let_def)
  next
    case (Inr pub)
    then have "pub_outcome pub = PublicationCreated \<and> w' = drop_permit (on_node (\<lambda>_. n) (admitted w))"
      using assms(2,3) a
      by (auto simp: put_artifact_def upload_run [OF assms(1) p] Let_def ok_def keeps_permit_def plain_def status_response_def
          split: if_splits)
    then show thesis using a p Inr assms(1)
      by (intro that [of a pub n]) (simp_all add: drop_permit_def on_node_def admitted_def)
  qed
qed

text \<open>
  C3. What is uploaded is what is downloaded. When an upload under a digest is answered with
  \<open>201 Created\<close> on a shard that had no file and no directory at the artifact's path, a following \<open>GET\<close> of the
  artifact without a range is answered with a server error exactly when its lookup ends with
  an error of the store or the disk, and otherwise with the uploaded bytes and their length;
  and the upload has given its permit back. Over a file that was already at the path, which a
  publication keeps, this is not so.
\<close>

theorem upload_then_download:
  assumes "env_ok (shard A)" and "node_ok (shard A) k (app_node w)" and "reader_ok A" and "0 < foreground w"
    and "chunks_fit (req_body request)" and "put_artifact A ctx alg dig request w = (Inr r, w')" and "resp_status (reply r) = 201"
    and "\<And>a. ArtifactId_parse (ids (shard A)) alg dig = Inr a \<Longrightarrow> body_at (shard A) (app_node w) (ctx_channel ctx) a = None
      \<and> \<not> dirs (fsys (shard A)) (disk (app_node w)) (artifact_path (ids (shard A)) (artifact_files (shard A)) (ctx_channel ctx) a)"
    and "req_method again \<noteq> HEAD" and "header_get (req_headers again) ''range'' = None"
    and "get_artifact A ctx alg dig again w' = (x, w'')"
  shows "foreground w' = foreground w \<and> (\<exists>a d. ArtifactId_parse (ids (shard A)) alg dig = Inr a \<and> x = Inr d
    \<and> (if isl (fst (locate (shard A) (ctx_channel ctx) a (app_node (admitted w')))) then d = status_reply 500
       else resp_status (reply d) = 200
      \<and> delivered (resp_body (reply d)) = Some (stream_body (req_body request))
      \<and> header_get (resp_headers (reply d)) ''content-length'' = Some (str_bytes (decimal (length (stream_body (req_body request)))))))"
proof (rule upload_created_E [OF assms(4,6,7)])
  let ?S = "shard A" and ?body = "stream_body (req_body request)"
  fix a pub n
  let ?req = "upload_request (ctx_channel ctx) (ById a) Durable Identity request"
  assume a: "ArtifactId_parse (ids ?S) alg dig = Inr a" and created: "pub_outcome pub = PublicationCreated"
    and run: "service_publish ?S ?req (app_node (admitted w)) = (Inr pub, n)"
    and w': "app_node w' = n\<lparr>stats := metrics_foreground_released (stats n)\<rparr>" "foreground w' = foreground w"
  have ok: "node_ok ?S k (app_node (admitted w))" using assms(2) by (simp add: admitted_node node_ok_def stored_ok_def)
  have fit: "chunks_fit (req_stream ?req)" using assms(5) by (simp add: upload_request_def)
  from run have "publish_or_reject ?S ?req (app_node (admitted w)) = (Inr (AdmissionPublished pub), n)"
    by (auto simp: service_publish_def and_then_def ok_def throw_def split: prod.splits sum.splits Admission.splits)
  then obtain reference where p: "published ?S (ctx_channel ctx) a Identity (content_type_of (req_headers request)) ?body reference
      (app_node (admitted w)) n" and new: "artifacts (view ?S (app_node (admitted w))) (ctx_channel ctx, a) = None"
    by (rule publish_success_E [OF assms(1) ok fit]) (use created in \<open>simp add: upload_request_def\<close>)
  obtain md where md: "artifacts (view ?S n) (ctx_channel ctx, a) = Some md" "body_at ?S n (ctx_channel ctx) a = Some ?body"
    "describes (fsys ?S) md ?body ?body" "encoding md = Identity" "content_type md = content_type_of (req_headers request)"
    by (rule created_record [OF p new]) (use assms(8) [OF a] in \<open>simp_all add: admitted_node\<close>)
  have n: "node_ok ?S k n" by (rule keepsD [OF keeps_publish [OF assms(1) fit] ok run])
  have "\<exists>d. x = Inr d \<and> (if download_lost A (ctx_channel ctx) a ?body (selection md (req_headers again)) w' then d = status_reply 500
      else answers A md ?body (req_headers again) (selection md (req_headers again)) (reply d))"
  proof (rule serve_answers [OF assms(1) _ assms(3) _ _ _ md(3)])
    show "serve_artifact A (ctx_channel ctx) a (req_headers again) False w' = (x, w'')"
      using assms(9,11) a by (simp add: get_artifact_def)
    show "node_ok ?S k (app_node w')" using n w' by (simp add: node_ok_def stored_ok_def)
  qed (use md w' assms(4) header_string_typed in \<open>simp_all add: content_type_of_def\<close>)
  then show ?thesis using md(4) assms(10) w'(2) a by (auto simp: answers_def parse_range_def selection_def download_lost_def seek_lost_def)
qed

lemma demo_digest_parses: "ArtifactId_parse demo_crates ''sha256'' demo_digest = Inr demo_body_id"
  unfolding demo_digest_def using Digest_parse_iff [OF demo_hex_ok, THEN iffD2, OF refl, of "digest demo_body_id"]
  by (simp add: ArtifactId_parse_def)

theorem upload_then_download_witness:
  "\<exists>r w' d w''. put_artifact demo_app demo_context ''sha256'' demo_digest demo_upload (demo_app_world (demo_node demo_ready)) = (Inr r, w')
     \<and> resp_status (reply r) = 201 \<and> foreground w' = 2
     \<and> get_artifact demo_app demo_context ''sha256'' demo_digest demo_download w' = (Inr d, w'')
     \<and> resp_status (reply d) = 200 \<and> delivered (resp_body (reply d)) = Some [1, 2, 3, 4, 5]"
proof -
  let ?w = "demo_app_world (demo_node demo_ready)"
  have request: "upload_request (ctx_channel demo_context) (ById demo_body_id) Durable Identity demo_upload
      = demo_request\<lparr>req_target := ById demo_body_id\<rparr>"
    by (simp add: upload_request_def demo_request_def demo_upload_def demo_context_def content_type_of_def content_length_def
        header_string_def header_get_def)
  have fit: "chunks_fit (req_body demo_upload)" by (simp add: demo_upload_def demo_chunks_fit)
  have ok: "node_ok (shard demo_app) 0 (app_node ?w)" using demo_node_ok [OF demo_ready_good] by simp
  obtain n where run: "service_publish demo_service (demo_request\<lparr>req_target := ById demo_body_id\<rparr>) (app_node (admitted ?w))
      = (Inr \<lparr>pub_artifact = demo_body_id, pub_outcome = PublicationCreated\<rparr>, n)"
    using demo_node_runs [of "ById demo_body_id"] by (auto simp: admitted_node)
  obtain md where md: "node_ok demo_service 0 n" "artifacts (view demo_service n) (default_channel, demo_body_id) = Some md"
    "body_at demo_service n default_channel demo_body_id = Some [1, 2, 3, 4, 5]" "encoding md = Identity"
    by (rule demo_created [OF run [unfolded admitted_node, simplified]]) blast
  let ?n = "n\<lparr>stats := metrics_foreground_released (stats n)\<rparr>"
  have put: "put_artifact demo_app demo_context ''sha256'' demo_digest demo_upload ?w = (Inr (status_reply 201), demo_app_world ?n)"
    using run request
    by (simp add: put_artifact_def demo_digest_parses upload_run [where n = n] Let_def ok_def keeps_permit_def plain_def
        drop_permit_def on_node_def admitted_def demo_app_world_def)
  obtain x w'' where get: "get_artifact demo_app demo_context ''sha256'' demo_digest demo_download (demo_app_world ?n) = (x, w'')"
    by fastforce
  have "x \<noteq> Inr (status_reply 500)"
    using demo_serves [of ?n default_channel demo_body_id md "[1, 2, 3, 4, 5]" "[]"] md get
    by (simp add: node_ok_def stored_ok_def db_good_def get_artifact_def demo_digest_parses demo_context_def demo_download_def)
  moreover have "foreground (demo_app_world ?n) = foreground ?w \<and> (\<exists>a d. ArtifactId_parse (ids (shard demo_app)) ''sha256'' demo_digest = Inr a
    \<and> x = Inr d \<and> (if isl (fst (locate (shard demo_app) (ctx_channel demo_context) a (app_node (admitted (demo_app_world ?n)))))
       then d = status_reply 500
       else resp_status (reply d) = 200
      \<and> delivered (resp_body (reply d)) = Some (stream_body (req_body demo_upload))
      \<and> header_get (resp_headers (reply d)) ''content-length'' = Some (str_bytes (decimal (length (stream_body (req_body demo_upload)))))))"
    by (rule upload_then_download [OF _ ok demo_reader_ok _ fit put _ _ _ _ get])
      (auto simp: demo_env status_response_def plain_def demo_download_def demo_digest_parses demo_node_def header_get_def)
  ultimately obtain d where "x = Inr d" "resp_status (reply d) = 200"
    "delivered (resp_body (reply d)) = Some (stream_body (req_body demo_upload))" by (auto split: if_splits)
  then show ?thesis using put get
    by (auto simp: demo_upload_def demo_chunks_def stream_body_def plain_def status_response_def)
qed

section \<open>HEAD\<close>

definition without_body :: "Exit + Reply \<Rightarrow> Exit + Reply" where
  "without_body x = map_sum (\<lambda>e. e) (\<lambda>r. \<lparr>reply = (reply r)\<lparr>resp_body := []\<rparr>, body_permit = False\<rparr>) x"

definition headed :: "(Exit + Reply) \<times> ('d, 'f, 'w) app_world \<Rightarrow> (Exit + Reply) \<times> ('d, 'f, 'w) app_world" where
  "headed = (\<lambda>(x, w). (without_body x, if keeps_permit x then drop_permit w else w))"

lemma built_headed:
  "built s hl [] False u = (without_body (fst (built s hl body permit u)), u)" "snd (built s hl body permit u) = u"
  "\<not> keeps_permit (without_body (fst (built s hl body permit u)))"
  by (simp_all add: built_def build_def without_body_def ok_def throw_def keeps_permit_def split: option.splits)

lemma status_headed [simp]: "without_body (Inr (status_reply s)) = Inr (status_reply s)" "\<not> keeps_permit (Inr (status_reply s))"
  by (simp_all add: without_body_def plain_def status_response_def keeps_permit_def)

lemma located_headed:
  assumes "header_get hs ''range'' = None"
  shows "located_reply A a l hs True u = (without_body (fst (located_reply A a l hs False u)), u)" (is ?same)
    and "snd (located_reply A a l hs False u) = u" (is ?calm)
    and "\<not> keeps_permit (without_body (fst (located_reply A a l hs False u)))" (is ?kept)
proof -
  have sel: "parse_range None len = Full" for len by (simp add: parse_range_def)
  let ?md = "located_metadata l"
  let ?pass = "encoding ?md = Zstd \<and> accepts_zstd hs"
  let ?fields = "artifact_headers A a ?md Full (content_len ?md) ?pass"
  have "located_reply A a l hs True u = built 200 ?fields [] False u"
    by (simp add: located_reply_def Let_def assms sel)
  moreover have "\<exists>body permit. located_reply A a l hs False u = built 200 ?fields body permit u"
    by (cases "encoding ?md"; cases "accepts_zstd hs"; cases "content_len ?md = 0")
      (simp add: located_reply_def Let_def assms sel; blast)+
  then obtain body permit where "located_reply A a l hs False u = built 200 ?fields body permit u" by blast
  ultimately show ?same ?calm ?kept using built_headed [where body = body and permit = permit] by simp_all
qed

lemma serve_headed:
  assumes "header_get hs ''range'' = None"
  shows "serve_artifact A ch a hs True w = headed (serve_artifact A ch a hs False w)"
proof (cases "0 < foreground w")
  case False
  then show ?thesis
    by (simp add: serve_artifact_def permit_scope_def acquire_foreground_def and_then_def tally_def modify_def ok_def throw_def
        headed_def without_body_def keeps_permit_def plain_def)
next
  case True
  obtain found n where l: "locate (shard A) ch a (app_node (admitted w)) = (found, n)" by fastforce
  show ?thesis
  proof (cases found)
    case (Inl e)
    then show ?thesis by (simp add: serve_artifact_def scope_run [OF True] and_then_def node_call_def l headed_def ok_def)
  next
    case (Inr m)
    then show ?thesis
      by (cases m) (simp_all add: serve_artifact_def scope_run [OF True] and_then_def node_call_def l headed_def ok_def
          located_headed [OF assms])
  qed
qed

lemma reference_headed:
  assumes "header_get hs ''range'' = None"
  shows "serve_reference_artifact A ch name hs True w = headed (serve_reference_artifact A ch name hs False w)"
proof -
  obtain x u where r: "permit_scope (\<lambda>_. False) (node_call (resolve_reference (shard A) ch name)) w = (x, u)" by fastforce
  show ?thesis
  proof (cases x)
    case (Inl e)
    moreover have "\<not> keeps_permit (Inl e :: Exit + Reply)"
      using r Inl by (auto simp: permit_scope_def acquire_foreground_def and_then_def tally_def modify_def ok_def throw_def
          node_call_def keeps_permit_def plain_def split: if_splits prod.splits)
    ultimately show ?thesis using r by (simp add: serve_reference_artifact_def and_then_def headed_def without_body_def)
  next
    case (Inr found)
    with r show ?thesis
      by (auto simp: serve_reference_artifact_def and_then_def ok_def headed_def serve_headed [OF assms]
          split: sum.splits option.splits)
  qed
qed

text \<open>
  C35. \<open>HEAD\<close> mirrors \<open>GET\<close>. On every route that serves an artifact, a \<open>HEAD\<close> request gets the
  status and the headers the same \<open>GET\<close> request without a range gets, with an empty body; it
  has the same effect on the shard, and it gives back at once the permit that the \<open>GET\<close>
  hands to its body.
\<close>

theorem head_mirrors_get:
  assumes "header_get (req_headers request) ''range'' = None"
  shows "get_artifact A ctx alg dig (request\<lparr>req_method := HEAD\<rparr>) w = headed (get_artifact A ctx alg dig (request\<lparr>req_method := GET\<rparr>) w)
    \<and> get_bazel_cas A ctx dig (request\<lparr>req_method := HEAD\<rparr>) w = headed (get_bazel_cas A ctx dig (request\<lparr>req_method := GET\<rparr>) w)
    \<and> get_http_cache A ctx key (request\<lparr>req_method := HEAD\<rparr>) w = headed (get_http_cache A ctx key (request\<lparr>req_method := GET\<rparr>) w)
    \<and> get_bazel_ac A ctx dig (request\<lparr>req_method := HEAD\<rparr>) w = headed (get_bazel_ac A ctx dig (request\<lparr>req_method := GET\<rparr>) w)"
  using assms
  by (auto simp: get_artifact_def get_bazel_cas_def get_http_cache_def get_bazel_ac_def serve_headed reference_headed
      headed_def ok_def split: sum.splits)

theorem head_mirrors_get_witness:
  "\<exists>n d. service_publish demo_service demo_request (demo_node demo_ready)
      = (Inr \<lparr>pub_artifact = demo_body_id, pub_outcome = PublicationCreated\<rparr>, n)
    \<and> fst (get_artifact demo_app demo_context ''sha256'' demo_digest (demo_download\<lparr>req_method := HEAD\<rparr>) (demo_app_world n)) = Inr d
    \<and> resp_status (reply d) = 200 \<and> resp_body (reply d) = []
    \<and> header_get (resp_headers (reply d)) ''content-length'' = Some (str_bytes (decimal 5))"
proof -
  from demo_publish_succeeds obtain n where run: "service_publish demo_service demo_request (demo_node demo_ready)
     = (Inr \<lparr>pub_artifact = demo_body_id, pub_outcome = PublicationCreated\<rparr>, n)" ..
  then obtain md where md: "node_ok demo_service 0 n" "artifacts (view demo_service n) (default_channel, demo_body_id) = Some md"
    "body_at demo_service n default_channel demo_body_id = Some [1, 2, 3, 4, 5]"
    "describes demo_fs md [1, 2, 3, 4, 5] [1, 2, 3, 4, 5]" "encoding md = Identity" "content_type md = None"
    using demo_created [of "ContentAddressed (Some ''latest'')" "stats (demo_node demo_ready)" n] by (auto simp: demo_request_def)
  obtain x w' where serve: "serve_artifact demo_app default_channel demo_body_id [] False (demo_app_world n) = (x, w')" by fastforce
  from serve_answers [OF _ _ demo_reader_ok _ _ _ _ _ serve, where k = 0 and md = md and bs = "[1, 2, 3, 4, 5]" and body = "[1, 2, 3, 4, 5]"] md
  obtain r where r: "x = Inr r" "if download_lost demo_app default_channel demo_body_id [1, 2, 3, 4, 5] (selection md []) (demo_app_world n)
      then r = status_reply 500 else answers demo_app md [1, 2, 3, 4, 5] [] (selection md []) (reply r)"
    by (auto simp: demo_env typed_value_def)
  have "r \<noteq> status_reply 500"
    using demo_serves [of n default_channel demo_body_id md "[1, 2, 3, 4, 5]" "[]"] md r(1) serve
    by (simp add: node_ok_def stored_ok_def db_good_def)
  then have ans: "answers demo_app md [1, 2, 3, 4, 5] [] Full (reply r)"
    using r(2) md(5) by (simp add: selection_def header_get_def parse_range_def split: if_splits)
  have "get_artifact demo_app demo_context ''sha256'' demo_digest (demo_download\<lparr>req_method := GET\<rparr>) (demo_app_world n) = (x, w')"
    using serve by (simp add: get_artifact_def demo_digest_parses demo_context_def demo_download_def)
  moreover have "header_get (req_headers demo_download) ''range'' = None" by (simp add: demo_download_def header_get_def)
  ultimately have "get_artifact demo_app demo_context ''sha256'' demo_digest (demo_download\<lparr>req_method := HEAD\<rparr>) (demo_app_world n)
      = headed (Inr r, w')"
    using head_mirrors_get [of demo_download] r(1) by metis
  then show ?thesis using run ans md(5) by (intro exI [of _ n]) (auto simp: headed_def without_body_def answers_def eval_nat_numeral)
qed

end
