(* ===== verification/Http_Access.thy ===== *)
theory Http_Access
  imports Http_Properties
begin

text \<open>
  Access control at the HTTP layer: a request under a channel whose token it does not carry,
  whatever its route and method, is refused and touches neither the records, nor the files,
  nor an upstream.
\<close>

section \<open>Refusal\<close>

text \<open>The credential opens the channel: the channel is recorded and active, and is open or has this token.\<close>

definition may_access :: "('d, 'f) CacheService \<Rightarrow> ChannelId \<Rightarrow> string option \<Rightarrow> ('d, 'f) node \<Rightarrow> bool" where
  "may_access S ch cred n \<longleftrightarrow>
     (\<exists>r. channels (view S n) ch = Some r \<and> lifecycle r = Active
        \<and> (\<forall>d. access r = Token d \<longrightarrow> (\<exists>t. cred = Some t \<and> TokenDigest_verify (ids S) d t)))"

definition locked_out :: "('d, 'f) AppState \<Rightarrow> string \<Rightarrow> headers \<Rightarrow> ('d, 'f, 'w) app_world \<Rightarrow> bool" where
  "locked_out A channel hs w \<longleftrightarrow>
     valid (shard A) (app_node w)
   \<and> (\<forall>ch. ChannelId_from_str (ids (shard A)) channel = Some ch \<longrightarrow> \<not> may_access (shard A) ch (credential A hs) (app_node w))"

text \<open>What \<open>axum\<close> promises: a JSON response has the status it was given, and an extractor rejects with an error.\<close>

definition framework_ok :: "('d, 'f) AppState \<Rightarrow> bool" where
  "framework_ok A \<longleftrightarrow>
     (\<forall>s v. resp_status (json_reply (framework A) s v) = s)
   \<and> (\<forall>request r. binding_payload (framework A) request = Inl r \<longrightarrow> 400 \<le> resp_status r)"

definition untouched :: "('d, 'f) AppState \<Rightarrow> ('d, 'f, 'w) app_world \<Rightarrow> ('d, 'f, 'w) app_world \<Rightarrow> bool" where
  "untouched A w w' \<longleftrightarrow>
     view (shard A) (app_node w') = view (shard A) (app_node w) \<and> disk (app_node w') = disk (app_node w)
   \<and> upstream_web (proxied w') = upstream_web (proxied w) \<and> foreground w' = foreground w"

fun refusal :: "Exit + Reply \<Rightarrow> bool" where
  "refusal (Inr r) \<longleftrightarrow> 400 \<le> resp_status (reply r) \<and> \<not> body_permit r"
| "refusal (Inl (Return r)) \<longleftrightarrow> 400 \<le> resp_status (reply r) \<and> \<not> body_permit r"
| "refusal (Inl Panic) \<longleftrightarrow> False"

definition refused :: "('d, 'f) AppState \<Rightarrow> ('d, 'f, 'w) app_world \<Rightarrow> (Exit + Reply) \<times> ('d, 'f, 'w) app_world \<Rightarrow> bool" where
  "refused A w run \<longleftrightarrow> refusal (fst run) \<and> untouched A w (snd run)"

lemma untouched_simps [simp]: "untouched A w w" "refused A w (x, w') \<longleftrightarrow> refusal x \<and> untouched A w w'"
  by (simp_all add: untouched_def refused_def)

lemma plain_select [simp]: "reply (plain r) = r" "\<not> body_permit (plain r)"
  by (simp_all add: plain_def)

lemma failure_status:
  assumes "framework_ok A"
  shows "400 \<le> resp_status (channel_failure A e)" "400 \<le> resp_status (invalid_channel A)" "400 \<le> resp_status (api_error A 400 c m)"
    "400 \<le> resp_status (status_response 405)"
  using assms
  by (simp_all add: framework_ok_def channel_failure_def api_error_def with_header_def invalid_channel_def status_response_def)

lemma authorize_locked:
  assumes "valid S n" and "\<not> may_access S ch cred n"
    and "authorize S ch cred n = (x, n') \<or> authorize_with_lease S ch cred n = (x, n')"
  shows "\<exists>e. x = Inl e \<and> view S n' = view S n \<and> disk n' = disk n"
  using assms(3)
proof
  assume "authorize S ch cred n = (x, n')"
  from authorize_effect [OF assms(1) this] assms(2) show ?thesis by (cases x) (auto simp: may_access_def)
next
  assume "authorize_with_lease S ch cred n = (x, n')"
  from lease_effect [OF assms(1) this] assms(2) show ?thesis by (cases x) (auto simp: may_access_def)
qed

lemma delete_locked:
  assumes "valid S n" and "\<not> may_access S ch cred n" and "delete_channel S ch cred n = (x, n')"
  shows "\<exists>e. x = Inl e \<and> view S n' = view S n \<and> disk n' = disk n"
proof (cases "ch = default_channel")
  case True
  with assms(3) show ?thesis by (auto simp: delete_channel_def throw_def)
next
  case False
  obtain y n1 where "authorize_with_lease S ch cred n = (y, n1)" by fastforce
  with authorize_locked [OF assms(1,2), of y n1] assms(3) False show ?thesis by (auto simp: delete_channel_def and_then_def)
qed

lemma authorize_refused:
  fixes A :: "('d, 'f) AppState" and w :: "('d, 'f, 'w) app_world"
  assumes "framework_ok A" and "locked_out A channel hs w" and "m = authorize (shard A) \<or> m = authorize_with_lease (shard A)"
  obtains r w' where "authorize_by m A channel hs w = (Inl (Return (plain r)), w')" and "400 \<le> resp_status r" and "untouched A w w'"
proof (cases "ChannelId_from_str (ids (shard A)) channel")
  case None
  then show thesis using failure_status(2) [OF assms(1)]
    by (intro that [of "invalid_channel A" w]) (simp_all add: authorize_by_def throw_def)
next
  case (Some ch)
  obtain x n where run: "m ch (credential A hs) (app_node w) = (x, n)" by fastforce
  with authorize_locked [of "shard A" "app_node w" ch "credential A hs" x n] assms(2,3) Some
  obtain e where e: "x = Inl e" "view (shard A) n = view (shard A) (app_node w)" "disk n = disk (app_node w)"
    by (auto simp: locked_out_def)
  have "\<exists>w'. authorize_by m A channel hs w = (Inl (Return (plain (channel_failure A e))), w') \<and> untouched A w w'"
    using e by (auto simp: authorize_by_def Some and_then_def node_call_def run channel_denied_def tally_def modify_def ok_def
        throw_def untouched_def on_node_def)
  then show thesis using that failure_status(1) [OF assms(1)] by blast
qed
section \<open>Every route of a channel\<close>

lemma inside_refused:
  fixes A :: "('d, 'f) AppState" and w :: "('d, 'f, 'w) app_world"
  assumes "framework_ok A" and "locked_out A channel hs w"
  shows "refused A w (and_then (channel_context A (Some channel) hs) h w)"
proof -
  obtain r w' where "authorize_channel A channel hs w = (Inl (Return (plain r)), w')" "400 \<le> resp_status r" "untouched A w w'"
    by (rule authorize_refused [OF assms, of "authorize (shard A)"]) (auto simp: authorize_channel_def)
  then show ?thesis by (simp add: channel_context_def and_then_def)
qed

lemma put_reference_refused:
  fixes A :: "('d, 'f) AppState" and w :: "('d, 'f, 'w) app_world"
  assumes "framework_ok A" and "locked_out A channel (req_headers request) w"
  shows "refused A w (put_reference A (Some channel) name request w)"
proof -
  obtain r w' where "authorize_channel A channel (req_headers request) w = (Inl (Return (plain r)), w')" "400 \<le> resp_status r"
    "untouched A w w'"
    by (rule authorize_refused [OF assms, of "authorize (shard A)"]) (auto simp: authorize_channel_def)
  moreover have "400 \<le> resp_status x" if "binding_payload (framework A) request = Inl x" for x
    using assms(1) that by (simp add: framework_ok_def)
  ultimately show ?thesis
    by (cases "binding_payload (framework A) request")
      (auto simp: put_reference_def outcome_def channel_context_def and_then_def throw_def ok_def lift_result_def)
qed

lemma patch_refused:
  fixes A :: "('d, 'f) AppState" and w :: "('d, 'f, 'w) app_world"
  assumes "framework_ok A" and "locked_out A channel (req_headers request) w"
  shows "refused A w (patch_channel A channel request w)"
proof -
  obtain r w' where "channel_lease A channel (req_headers request) w = (Inl (Return (plain r)), w')" "400 \<le> resp_status r"
    "untouched A w w'"
    by (rule authorize_refused [OF assms, of "authorize_with_lease (shard A)"]) (auto simp: channel_lease_def)
  then show ?thesis using failure_status(3) [OF assms(1)]
    by (auto simp: patch_channel_def and_then_def ok_def split: sum.splits)
qed

lemma get_channel_refused:
  fixes A :: "('d, 'f) AppState" and w :: "('d, 'f, 'w) app_world"
  assumes "framework_ok A" and "locked_out A channel hs w"
  shows "refused A w (get_channel A channel hs w)"
proof -
  obtain r w' where "authorize_channel A channel hs w = (Inl (Return (plain r)), w')" "400 \<le> resp_status r" "untouched A w w'"
    by (rule authorize_refused [OF assms, of "authorize (shard A)"]) (auto simp: authorize_channel_def)
  then show ?thesis by (simp add: get_channel_def and_then_def)
qed

lemma delete_refused:
  fixes A :: "('d, 'f) AppState" and w :: "('d, 'f, 'w) app_world"
  assumes "framework_ok A" and "locked_out A channel hs w"
  shows "refused A w (delete_channel_handler A channel hs w)"
proof (cases "ChannelId_from_str (ids (shard A)) channel")
  case None
  then show ?thesis using failure_status(2) [OF assms(1)] by (simp add: delete_channel_handler_def ok_def)
next
  case (Some ch)
  obtain x n where run: "delete_channel (shard A) ch (credential A hs) (app_node w) = (x, n)" by fastforce
  from delete_locked [OF _ _ run] assms(2) Some failure_status(1) [OF assms(1)] show ?thesis
    by (auto simp: delete_channel_handler_def and_then_def node_call_def run ok_def untouched_def on_node_def locked_out_def)
qed

lemma method_refused:
  assumes "framework_ok A" and "list_all (\<lambda>(_, h). refused A w (h w)) table"
  shows "refused A w (by_method table request w)"
proof (cases "map_of table (if reads request then GET else req_method request)")
  case None
  then show ?thesis using failure_status(4) [OF assms(1)] by (simp add: by_method_def ok_def)
next
  case (Some h)
  from map_of_SomeD [OF this] assms(2) have "refused A w (h w)" by (auto simp: list_all_iff)
  with Some show ?thesis by (simp add: by_method_def)
qed

lemma router_refused:
  fixes A :: "('d, 'f) AppState" and w :: "('d, 'f, 'w) app_world"
  assumes "framework_ok A" and "locked_out A channel (req_headers request) w"
    and "route = ChannelAt channel \<or> route = Data (Some channel) data"
  shows "refused A w (router A get pf route request w)"
  using assms(3)
proof
  assume "route = ChannelAt channel"
  then show ?thesis
    by (auto simp: router_def intro!: method_refused [OF assms(1)] get_channel_refused patch_refused delete_refused assms(1,2))
next
  assume r: "route = Data (Some channel) data"
  have "list_all (\<lambda>(_, h). refused A w (h w)) (data_router A get pf (Some channel) request data)"
    by (cases data) (simp_all add: data_router_def Let_def inside_refused [OF assms(1,2)] put_reference_refused [OF assms(1,2)])
  then show ?thesis by (simp add: router_def r method_refused [OF assms(1)])
qed

text \<open>
  C4. Without its token a channel is closed. A request to any route under a channel, with any
  method, that carries no credential opening the channel, or names a channel that does not
  exist or is being deleted, is answered with an error status, and the records, the files and
  the upstreams are as before: nothing is read out, stored, removed or fetched.
\<close>

theorem closed_channels_refuse:
  fixes A :: "('d, 'f) AppState" and w :: "('d, 'f, 'w) app_world"
  assumes "framework_ok A" and "locked_out A channel (req_headers request) w"
    and "route = ChannelAt channel \<or> route = Data (Some channel) data"
    and "count_request A get pf polls route request w = (answer, w')"
  shows "\<exists>resp. answer = Some resp \<and> 400 \<le> resp_status resp \<and> untouched A w w'"
  using assms(4)
proof (rule count_request_E)
  fix m r w1 assume r: "respond (router A get pf route request) (counted_in w m) = (r, w1)"
    and after: "after_request polls request r w1 answer w'"
  have "locked_out A channel (req_headers request) (counted_in w m)"
    using assms(2) by (simp add: locked_out_def counted_in_def on_node_def may_access_def)
  from router_refused [OF assms(1) this assms(3), of get pf]
  have "refused A (counted_in w m) (router A get pf route request (counted_in w m))" .
  with r obtain a where a: "r = Some a" "400 \<le> resp_status (reply a)" "\<not> body_permit a" "untouched A (counted_in w m) w1"
    by (auto simp: respond_def refused_def split: prod.splits sum.splits Exit.splits)
  moreover have "untouched A w w'" using a(3,4) after
    by (simp add: untouched_def counted_in_def on_node_def after_request_def a(1))
  ultimately show ?thesis using after by (auto simp: after_request_def)
qed

text \<open>A protected channel on the concrete shard.\<close>

definition demo_locked :: ChannelRecord where
  "demo_locked = \<lparr>channel_id = ChannelId 6, access = Token (ChannelToken_digest demo_crates ''secret''), expiry_seconds = 60,
     lifecycle = Active, channel_created_at = 4\<rparr>"

lemma demo_framework_ok: "framework_ok demo_app"
  by (simp add: framework_ok_def demo_http_def status_response_def)

lemma demo_channel_path: "ChannelId_from_str demo_crates (ChannelId_display demo_crates (ChannelId 6)) = Some (ChannelId 6)"
  using demo_ulid_ok by (simp add: ChannelId_from_str_def ChannelId_display_def ulid_ok_def)

lemma demo_locked_out:
  "locked_out demo_app (ChannelId_display demo_crates (ChannelId 6)) [] (demo_app_world (demo_node (demo_rows_of demo_locked)))"
proof -
  let ?n = "demo_node (demo_rows_of demo_locked)"
  have v: "valid demo_service ?n" by (rule demo_node_valid [OF demo_rows_good])
  have "channels (view demo_service ?n) (ChannelId 6) = Some demo_locked"
    using demo_view_get [OF demo_rows_get demo_rows_good, of demo_locked] by (simp add: demo_node_def demo_locked_def)
  then show ?thesis using v
    by (simp add: locked_out_def demo_channel_path may_access_def demo_locked_def credential_def header_get_def)
qed

theorem closed_channels_refuse_witness:
  "\<exists>resp w'. count_request demo_app demo_get (\<lambda>_. None) 3
       (Data (Some (ChannelId_display demo_crates (ChannelId 6))) (ArtifactsAt ''sha256'' demo_digest)) demo_upload
       (demo_app_world (demo_node (demo_rows_of demo_locked))) = (Some resp, w')
     \<and> 400 \<le> resp_status resp \<and> untouched demo_app (demo_app_world (demo_node (demo_rows_of demo_locked))) w'"
proof -
  have "locked_out demo_app (ChannelId_display demo_crates (ChannelId 6)) (req_headers demo_upload)
      (demo_app_world (demo_node (demo_rows_of demo_locked)))"
    using demo_locked_out by (simp add: demo_upload_def)
  from closed_channels_refuse [OF demo_framework_ok this disjI2 [OF refl] surjective_pairing] show ?thesis
    by (metis prod.collapse)
qed

text \<open>A client that refuses zstd with a zero quality is still sent the frame as stored.\<close>

lemma refused_zstd_accepted: "accepts_zstd [(''accept-encoding'', str_bytes ''zstd;q=0'')]"
proof -
  have "header_str (str_bytes ''zstd;q=0'') = Some ''zstd;q=0''" by (rule header_str_bytes) (simp_all add: header_value_ok_def)
  then show ?thesis by (simp add: accepts_zstd_def header_get_def trim_def is_space_def)
qed

end
