(* ===== verification/Truthful.thy ===== *)
theory Truthful
  imports Watched
begin

text \<open>
  The records of a node are true: every stored record carries the length of a body with the
  artifact's digest and the length of the encoding it names of that body. The predicate is an
  interpretation of \<open>watched_store\<close>; a publication keeps it because what it commits was measured
  while the body was staged. With it, what every lookup of a reachable node returns.
\<close>

section \<open>True records\<close>

definition true_record :: "('d, 'f) CacheService \<Rightarrow> ArtifactId \<Rightarrow> ArtifactMetadata \<Rightarrow> bool" where
  "true_record S a md \<longleftrightarrow>
     (\<exists>body. Sha256_digest (ids S) body = digest a \<and> unat (content_len md) = length body
        \<and> stored_len md = of_nat (length (encoded (fsys S) (encoding md) body)))"

definition true_store :: "('d, 'f) CacheService \<Rightarrow> meta_store \<Rightarrow> bool" where
  "true_store S v \<longleftrightarrow> (\<forall>ch a md. artifacts v (ch, a) = Some md \<longrightarrow> true_record S a md)"

definition truthful :: "('d, 'f) CacheService \<Rightarrow> ('d, 'f) node \<Rightarrow> bool" where
  "truthful S n \<longleftrightarrow> valid S n \<and> true_store S (view S n)"

lemma truthful_effect:
  assumes "effect (db_inv (ids S) (meta S)) (db_view (ids S) (meta S)) m f post"
    and "\<And>v. true_store S v \<Longrightarrow> true_store S (f v)"
  shows "keeps (truthful S) (on_db m)"
proof (rule keepsI)
  fix n x n' assume "truthful S n" and "on_db m n = (x, n')"
  then obtain d where "m (db n) = (x, d)" and n': "n' = n\<lparr>db := d\<rparr>" by (elim on_db_E)
  from keepsD [OF effect_keeps [where P = "true_store S", OF assms] _ this(1)] \<open>truthful S n\<close>
  show "truthful S n'" by (simp add: n' truthful_def)
qed

text \<open>Nothing but a publication adds a record, and requeueing changes its deadline only.\<close>

lemma true_store_fewer:
  "true_store S v \<Longrightarrow> true_store S (id v)"
  "true_store S v \<Longrightarrow> true_store S (a_remove ch a v)" "true_store S v \<Longrightarrow> true_store S (a_unbind ch name v)"
  "true_store S v \<Longrightarrow> true_store S (a_evict ch a t v)" "true_store S v \<Longrightarrow> true_store S (a_delete_data ch v)"
  "true_store S v \<Longrightarrow> true_store S (a_drop_channel ch v)" "true_store S v \<Longrightarrow> true_store S (a_requeue ch a old new v)"
  "true_store S v \<Longrightarrow> true_store S (a_bind ch name rec v)" "true_store S v \<Longrightarrow> true_store S (a_put_channel chan v)"
  by (auto simp: true_store_def true_record_def a_remove_def a_unbind_def a_evict_def a_delete_data_def a_drop_channel_def
      a_requeue_def a_bind_def a_put_channel_def split: option.splits if_splits)

lemma true_store_commit: "true_record S a md \<Longrightarrow> true_store S v \<Longrightarrow> true_store S (a_commit ch a md reference v)"
  by (auto simp: true_store_def a_commit_def Let_def split: option.splits if_splits)

lemmas truthful_steps =
  truthful_effect [OF rocksdb.get_artifact true_store_fewer(1)] truthful_effect [OF rocksdb.get_ref true_store_fewer(1)]
  truthful_effect [OF effect_channels(3) true_store_fewer(1)] truthful_effect [OF effect_channels(4) true_store_fewer(1)]
  truthful_effect [OF rocksdb.oldest true_store_fewer(1)]
  truthful_effect [OF rocksdb.remove true_store_fewer(2)] truthful_effect [OF rocksdb.unbind_ref true_store_fewer(3)]
  truthful_effect [OF rocksdb.drop_row true_store_fewer(4)] truthful_effect [OF rocksdb.purge true_store_fewer(5)]
  truthful_effect [OF effect_channels(5) true_store_fewer(6)] truthful_effect [OF rocksdb.move true_store_fewer(7)]
  truthful_effect [OF rocksdb.bind_ref true_store_fewer(8)]
  truthful_effect [OF effect_channels(1) true_store_fewer(9)] truthful_effect [OF effect_channels(2) true_store_fewer(9)]

lemma truthful_health: "keeps (truthful S) (on_db (metadata_health (meta S)))"
  by (rule keepsI) (auto simp: truthful_def db_inv_def db_view_def elim!: on_db_E dest: health_same)

interpretation truth: watched_store S "truthful S" "\<lambda>_. True" "\<lambda>_. True" for S :: "('d, 'f) CacheService"
proof
  show "truthful S n'" if "local_world.more n' = local_world.more n" "truthful S n" for n n' :: "('d, 'f) node"
    using node_more [OF that(1)] that(2) by (simp add: truthful_def)
qed (simp_all add: truthful_steps truthful_health, simp_all add: truthful_def)

section \<open>Publication\<close>

lemma committed_true:
  assumes "staged_ok (ids S) (fsys S) (artifact_files S) f body st" and "Sha256_digest (ids S) body = digest a"
  shows "true_record S a (committed_metadata st cm now expiry)"
  using assms by (auto simp: true_record_def committed_metadata_def staged_ok_def)

lemma truthful_ends:
  fixes n :: "('d, 'f) node"
  assumes "truthful S n"
  shows "truthful S (discard F R res n)" "truthful S (reservation_commit R b res n)"
  using keepsD [OF truth.discards assms, of F R res] keepsD [OF truth.settles assms, of R b res] by (simp_all add: modify_def)

lemma commit_staged_truthful:
  assumes env: "env_ok S" and st: "staging_ok S k body st n" and n: "truthful S n"
    and run: "commit_staged S ch a st cm n = (x, n')"
  shows "truthful S n'"
proof -
  have v: "valid S n" using n by (simp add: truthful_def)
  have F: "fs_ok (fsys S)" using env by (simp add: env_ok_def)
  have after_fence: "truthful S n1 \<and> staged_ok (ids S) (fsys S) (artifact_files S) (disk n1) body st"
    if "channel_fence S ch n = (y, n1)" for y n1
    using keepsD [OF truth.fence n that] fence_effect [OF v that] st by (simp add: staging_ok_def)
  have kept: "truthful S (n2\<lparr>draws := draws n2 + 1, db := d\<rparr>)"
    if f: "channel_fence S ch n = (y, n1)"
      and p: "publish_file (ids S) (fsys S) ledger_reserver (artifact_files S) ch a st (commit_durability cm) n1 = (Inr fp, n2)"
      and c: "commit_publication (ids S) (meta S) ch a (committed_metadata st cm (clock_at S (draws n2)) expiry)
        (commit_reference cm) (commit_durability cm) (db n2) = (z, d)" for y n1 fp n2 expiry z d
  proof -
    have "truthful S n2" by (rule keepsD [OF truth.publishes_file _ p]) (use after_fence [OF f] in simp)
    moreover have "Sha256_digest (ids S) body = digest a"
      using publish_file_effect [OF F conjunct2 [OF after_fence [OF f]] p] by (auto split: FilePublication.splits)
    then have "true_record S a (committed_metadata st cm (clock_at S (draws n2)) expiry)"
      by (rule committed_true [OF conjunct2 [OF after_fence [OF f]]])
    then have "keeps (truthful S) (on_db (commit_publication (ids S) (meta S) ch a
        (committed_metadata st cm (clock_at S (draws n2)) expiry) (commit_reference cm) (commit_durability cm)))"
      by (intro truthful_effect [OF rocksdb.commit] true_store_commit)
    moreover have "on_db (commit_publication (ids S) (meta S) ch a (committed_metadata st cm (clock_at S (draws n2)) expiry)
        (commit_reference cm) (commit_durability cm)) n2 = (z, n2\<lparr>db := d\<rparr>)"
      unfolding on_db_def c by simp
    ultimately have "truthful S (n2\<lparr>db := d\<rparr>)" by (blast dest: keepsD)
    then show ?thesis by (simp add: truthful_def)
  qed
  from run show ?thesis
  proof (cases rule: commit_staged_E)
    case (fenced e n1)
    with truthful_ends(1) after_fence [OF fenced(1)] show ?thesis by blast
  next
    case (unpublished expiry n1 e)
    show ?thesis by (rule keepsD [OF truth.publishes_file _ unpublished(3)]) (use after_fence [OF unpublished(1)] in simp)
  next
    case (refused expiry n1 fp n2 e d)
    with truthful_ends(1) [OF kept [OF refused(1,3,4)]] show ?thesis by blast
  next
    case (committed expiry n1 fp n2 created d b)
    with truthful_ends(2) [OF kept [OF committed(1,3,4)]] show ?thesis by blast
  qed
qed

lemma publish_truthful:
  assumes env: "env_ok S" and fit: "chunks_fit (req_stream request)" and ok: "node_ok S k n" and n: "truthful S n"
    and run: "publish_or_reject S request n = (x, n')"
  shows "truthful S n'"
proof -
  obtain y n1 where s: "stage (ids S) (fsys S) ledger_reserver (artifact_files S) (req_channel request)
      (req_stream request) (max_upload_bytes S) (req_content_length request) (req_durability request)
      (req_encoding request) n = (y, n1)" by fastforce
  note staged = stage_staging [OF env ok fit s]
  have n1: "truthful S n1" by (rule keepsD [OF truth.stages n s])
  show ?thesis
  proof (cases "\<exists>st. y = Inr (Ready st)")
    case False
    with n1 run s show ?thesis
      by (auto simp: publish_or_reject_staged files_call_def map_err_def and_then_def ok_def
          split: sum.splits StageOutcome.splits)
  next
    case True
    then obtain st where y: "y = Inr (Ready st)" ..
    with run s have "after_staging S request st n1 = (x, n')"
      by (simp add: publish_or_reject_staged files_call_def map_err_def and_then_def)
    then show ?thesis
    proof (rule after_staging_E)
      fix i reference z
      let ?n1 = "n1\<lparr>stats := metrics_written (staged_len st) (stats n1), draws := i\<rparr>"
      assume c: "commit_staged S (req_channel request) (target_artifact request st) st
          \<lparr>commit_content_type = req_content_type request, commit_reference = reference,
           commit_durability = req_durability request\<rparr> ?n1 = (z, n')"
      have "staging_ok S k (stream_body (req_stream request)) st ?n1"
        by (rule staging_frame, rule staging_frame) (use staged y in simp)
      moreover have "truthful S ?n1" using n1 by (simp add: truthful_def)
      ultimately show ?thesis by (rule commit_staged_truthful [OF env _ _ c])
    qed
  qed
qed

section \<open>Every reachable node\<close>

lemma node_step_truthful:
  assumes env: "env_ok S" and "node_step S n n'" and ok: "node_ok S 0 n" and n: "truthful S n"
  shows "truthful S n'"
  using assms(2)
proof cases
  case publish_or_reject
  show ?thesis by (rule publish_truthful [OF env publish_or_reject(1) ok n publish_or_reject(2)])
next
  case (publish request y)
  obtain x n1 where r: "publish_or_reject S request n = (x, n1)" by fastforce
  then have "n1 = n'" using publish(2)
    by (auto simp: service_publish_def and_then_def ok_def throw_def split: sum.splits Admission.splits)
  with publish_truthful [OF env publish(1) ok n r] show ?thesis by simp
next
  case restart
  then show ?thesis using n by (simp add: truthful_def)
next
  case (reclaiming b)
  have "keeps (truthful S) is_reclaiming" unfolding is_reclaiming_def by (intro act_keeps truth.mode_keeps)
  from keepsD [OF this n reclaiming] show ?thesis .
qed (use n in \<open>auto dest: keepsD [OF truth.locate_keeps] keepsD [OF truth.bind_keeps [OF TrueI]] keepsD [OF truth.resolve_keeps]
  keepsD [OF truth.unbind_keeps] keepsD [OF truth.reconcile_keeps] keepsD [OF truth.ready_keeps]
  keepsD [OF truth.maintenance_keeps] keepsD [OF truth.rotate_keeps] keepsD [OF truth.default_keeps [OF TrueI]]
  keepsD [OF truth.register_keeps [OF TrueI]] keepsD [OF truth.authorize_keeps] keepsD [OF truth.lease_keeps]
  keepsD [OF truth.update_keeps [OF TrueI]] keepsD [OF truth.delete_keeps] keepsD [OF truth.resume_keeps]\<close>)

lemma reachable_truthful:
  assumes env: "env_ok S" and fresh: "fresh_node S n\<^sub>0" and "(node_step S)\<^sup>*\<^sup>* n\<^sub>0 n"
  shows "node_ok S 0 n \<and> truthful S n"
  using assms(3)
proof (induction rule: rtranclp_induct)
  case base
  have ok: "node_ok S 0 n\<^sub>0" by (rule fresh_node_ok [OF env fresh])
  have "true_store S (view S n\<^sub>0)"
    using fresh by (simp add: fresh_node_def true_store_def db_view_def abs_store_def abs_artifacts_def)
  with ok show ?case by (simp add: truthful_def node_ok_def stored_ok_def db_good_def)
qed (use env in \<open>blast intro: node_step_ok node_step_truthful\<close>)

text \<open>
  C1. In every state that any sequence of operations of the two services, restarts included,
  reaches from a fresh node, whatever the arguments and whether each operation succeeded
  or failed: a lookup that finds an artifact returns the record stored for it and the file at
  its path; the recorded length is that of a body with the artifact's digest, and the
  recorded stored length is that of this body in the recorded encoding; the file is an
  encoding of a body with the artifact's digest. The encoding of the file can be another than
  the recorded one, after a publication over a body without a record, and nothing more is
  stated about it. The eviction queue holds exactly one row per stored artifact, at its
  current deadline; and no reservation is left behind.
\<close>

theorem reachable_node_serves_true_bodies:
  assumes "env_ok S" and "fresh_node S n\<^sub>0" and "(node_step S)\<^sup>*\<^sup>* n\<^sub>0 n"
  shows "(\<forall>ch a l n'. locate S ch a n = (Inr (Some l), n') \<longrightarrow>
      artifacts (view S n) (ch, a) = Some (located_metadata l) \<and> body_at S n ch a = Some (located_file l)
      \<and> (\<exists>body. Sha256_digest (ids S) body = digest a \<and> unat (content_len (located_metadata l)) = length body
           \<and> stored_len (located_metadata l) = of_nat (length (encoded (fsys S) (encoding (located_metadata l)) body)))
      \<and> (\<exists>enc body. located_file l = encoded (fsys S) enc body \<and> Sha256_digest (ids S) body = digest a))
    \<and> (\<forall>ch t a. (ch, t, a) \<in> queue (view S n) \<longleftrightarrow> (\<exists>md. artifacts (view S n) (ch, a) = Some md \<and> eligible_at md = t))
    \<and> reserved (state (space n)) = 0"
proof -
  have n: "node_ok S 0 n" and true: "truthful S n" using reachable_truthful [OF assms] by auto
  have v: "valid S n" "indexed (view S n)" and b: "bodies_ok (ids S) (fsys S) (artifact_files S) (disk n)"
    using n by (auto simp: node_ok_def stored_ok_def db_good_def)
  have "artifacts (view S n) (ch, a) = Some (located_metadata l) \<and> body_at S n ch a = Some (located_file l)
      \<and> true_record S a (located_metadata l) \<and> body_of (ids S) (fsys S) a (located_file l)"
    if run: "locate S ch a n = (Inr (Some l), n')" for ch a l n'
    using run
  proof (rule locate_hit_E)
    fix n1 assume "locate_local S ch a n = (Inr (Some l), n1)"
    from locate_local_effect [OF assms(1) v(1) this]
    have "artifacts (view S n) (ch, a) = Some (located_metadata l)" "body_at S n ch a = Some (located_file l)" by auto
    then show ?thesis using true b unfolding truthful_def true_store_def bodies_ok_def by blast
  qed
  then have "\<forall>ch a l n'. locate S ch a n = (Inr (Some l), n') \<longrightarrow>
      artifacts (view S n) (ch, a) = Some (located_metadata l) \<and> body_at S n ch a = Some (located_file l)
      \<and> true_record S a (located_metadata l) \<and> body_of (ids S) (fsys S) a (located_file l)"
    by blast
  moreover have "reserved (state (space n)) = 0"
    using n by (simp add: node_ok_def ledger_held_def unat_eq_0)
  ultimately show ?thesis using v(2) unfolding indexed_def true_record_def body_of_def by blast
qed

text \<open>A node that ensured its default channel and stored a body.\<close>

lemma demo_default:
  "ensure_default demo_service 60 (demo_node []) = (Inr (), (demo_node demo_ready)\<lparr>draws := 1, gates := {default_channel}\<rparr>)"
  unfolding demo_ready_rows
  by (simp add: ensure_default_def store_call_def on_db_def draw_def outcome_def store_channel_get_def
      create_channel_def demo_store_eval demo_node_def gate_def modify_def demo_channel_def demo_channel_to_vec_def)

theorem reachable_node_serves_true_bodies_witness:
  "\<exists>n l. (node_step demo_service)\<^sup>*\<^sup>* (demo_node []) n
     \<and> fst (locate demo_service default_channel demo_body_id n) = Inr (Some l) \<and> located_file l = [1, 2, 3, 4, 5]
     \<and> (\<exists>body. Sha256_digest demo_crates body = digest demo_body_id \<and> unat (content_len (located_metadata l)) = length body)
     \<and> reserved (state (space n)) = 0"
proof -
  let ?n1 = "(demo_node demo_ready)\<lparr>draws := 1, gates := {default_channel}\<rparr>"
  let ?pub = "\<lparr>pub_artifact = demo_body_id, pub_outcome = PublicationCreated\<rparr>"
  from demo_node_runs_at [where t = "ContentAddressed (Some ''latest'')" and m' = "stats (demo_node demo_ready)" and i' = 1
      and g' = "{default_channel}"] obtain n where run: "service_publish demo_service demo_request ?n1 = (Inr ?pub, n)"
    by (auto simp: demo_request_def)
  have fit: "chunks_fit (req_stream demo_request)" by (simp add: demo_request_def demo_chunks_fit)
  have "node_step demo_service (demo_node []) ?n1" by (rule node_step.ensure_default [OF demo_default])
  moreover have "node_step demo_service ?n1 n" by (rule node_step.publish [OF fit run])
  ultimately have steps: "(node_step demo_service)\<^sup>*\<^sup>* (demo_node []) n" by simp
  have ok1: "node_ok demo_service 0 ?n1"
    using demo_node_ok [OF demo_ready_good] by (simp add: node_ok_def stored_ok_def)
  have "valid demo_service n"
    using reachable_truthful [OF demo_env demo_fresh steps] by (simp add: truthful_def)
  moreover obtain md where "artifacts (view demo_service n) (default_channel, demo_body_id) = Some md"
    "body_at demo_service n default_channel demo_body_id = Some [1, 2, 3, 4, 5]"
    by (rule demo_published_at [OF ok1 _ _ _ run]) (simp_all add: demo_node_def)
  ultimately have l: "fst (locate demo_service default_channel demo_body_id n)
      = Inr (Some \<lparr>located_file = [1, 2, 3, 4, 5], located_metadata = md\<rparr>)" by (rule demo_locates)
  then have "locate demo_service default_channel demo_body_id n
      = (Inr (Some \<lparr>located_file = [1, 2, 3, 4, 5], located_metadata = md\<rparr>), snd (locate demo_service default_channel demo_body_id n))"
    by (metis prod.collapse)
  with l steps reachable_node_serves_true_bodies [OF demo_env demo_fresh steps] show ?thesis by fastforce
qed

end
