(* ===== verification/Flywheel.thy ===== *)
theory Flywheel
  imports Http_Packages
begin

text \<open>
  Assembly of a shard: its configuration (\<open>src/config.rs\<close>, \<open>ServeArgs\<close> of \<open>src/cli.rs\<close>), the
  registration of its metrics (\<open>src/telemetry.rs\<close>), the order in which \<open>Flywheel::open\<close>
  (\<open>src/lib.rs\<close>) validates, opens, recovers and builds its parts, and the maintenance burst of
  \<open>src/main.rs\<close>.
\<close>

section \<open>Configuration\<close>

record Config = ProxyConfig +
  cfg_data_dir :: Path
  cfg_max_upload_bytes :: u64
  cfg_default_expiry_seconds :: u64
  cfg_upstream_timeout_seconds :: u64
  cfg_foreground_concurrency :: nat
  cfg_reservation_extent_bytes :: u64
  cfg_low_watermark_bytes :: u64
  cfg_high_watermark_bytes :: u64
  cfg_emergency_headroom_bytes :: u64
  cfg_bloom_bits :: nat
  cfg_reclaim_candidate_limit :: nat
  cfg_reclaim_byte_limit :: u64
  cfg_orphan_scan_limit :: nat

definition Config_new :: "Path \<Rightarrow> Config" where
  "Config_new dir =
     \<lparr>go_upstream = ''https://proxy.golang.org/'',
      python_upstream = ''https://pypi.org/simple/'',
      npm_upstream = ''https://registry.npmjs.org/'',
      cargo_index_upstream = ''https://index.crates.io/'',
      cargo_crate_upstream = ''https://static.crates.io/crates/'',
      proxy_revalidation_seconds = 300,
      proxy_concurrency = 64,
      proxy_allowed_origins = [],
      cfg_data_dir = dir,
      cfg_max_upload_bytes = 10 * 1024 * 1024 * 1024,
      cfg_default_expiry_seconds = 7 * 24 * 60 * 60,
      cfg_upstream_timeout_seconds = 30,
      cfg_foreground_concurrency = 256,
      cfg_reservation_extent_bytes = 64 * 1024 * 1024,
      cfg_low_watermark_bytes = 2 * 1024 * 1024 * 1024,
      cfg_high_watermark_bytes = 8 * 1024 * 1024 * 1024,
      cfg_emergency_headroom_bytes = 1024 * 1024 * 1024,
      cfg_bloom_bits = 2 ^ 20,
      cfg_reclaim_candidate_limit = 256,
      cfg_reclaim_byte_limit = 8 * 1024 * 1024 * 1024,
      cfg_orphan_scan_limit = 4096\<rparr>"

datatype ConfigError =
    MaxUploadBytesZero
  | DefaultExpiryZero
  | ProxyConcurrencyZero
  | UpstreamTimeoutZero
  | ForegroundConcurrencyZero
  | ReservationExtentZero
  | WatermarksInverted
  | BloomBitsZero
  | ReclaimCandidateLimitZero
  | UpstreamInvalid string string
  | OriginInvalid string string
  | OriginWithoutHost string

definition ensure :: "bool \<Rightarrow> 'e \<Rightarrow> 'e + unit" where
  "ensure b e = (if b then Inr () else Inl e)"

fun validate_upstreams :: "web_crates \<Rightarrow> (string \<times> string) list \<Rightarrow> ConfigError + unit" where
  "validate_upstreams W [] = Inr ()"
| "validate_upstreams W ((name, v) # rest) =
     (case url_parse W v of Inl e \<Rightarrow> Inl (UpstreamInvalid name e) | Inr _ \<Rightarrow> validate_upstreams W rest)"

fun validate_origins :: "web_crates \<Rightarrow> (Url \<Rightarrow> bool) \<Rightarrow> string list \<Rightarrow> ConfigError + unit" where
  "validate_origins W has_host [] = Inr ()"
| "validate_origins W has_host (entry # rest) =
     (case url_parse W entry of
        Inl e \<Rightarrow> Inl (OriginInvalid entry e)
      | Inr origin \<Rightarrow>
          bind_sum (ensure (url_scheme W origin \<in> {''http'', ''https''} \<and> has_host origin) (OriginWithoutHost entry))
            (\<lambda>_. validate_origins W has_host rest))"

definition validate :: "web_crates \<Rightarrow> (Url \<Rightarrow> bool) \<Rightarrow> Config \<Rightarrow> ConfigError + unit" where
  "validate W has_host config =
     bind_sum (ensure (0 < cfg_max_upload_bytes config) MaxUploadBytesZero) (\<lambda>_.
     bind_sum (ensure (0 < cfg_default_expiry_seconds config) DefaultExpiryZero) (\<lambda>_.
     bind_sum (ensure (0 < proxy_concurrency config) ProxyConcurrencyZero) (\<lambda>_.
     bind_sum (ensure (0 < cfg_upstream_timeout_seconds config) UpstreamTimeoutZero) (\<lambda>_.
     bind_sum (ensure (0 < cfg_foreground_concurrency config) ForegroundConcurrencyZero) (\<lambda>_.
     bind_sum (ensure (0 < cfg_reservation_extent_bytes config) ReservationExtentZero) (\<lambda>_.
     bind_sum (ensure (cfg_low_watermark_bytes config \<le> cfg_high_watermark_bytes config) WatermarksInverted) (\<lambda>_.
     bind_sum (ensure (0 < cfg_bloom_bits config) BloomBitsZero) (\<lambda>_.
     bind_sum (ensure (0 < cfg_reclaim_candidate_limit config) ReclaimCandidateLimitZero) (\<lambda>_.
     bind_sum (validate_upstreams W
         [(''go upstream'', go_upstream config), (''python upstream'', python_upstream config),
          (''npm upstream'', npm_upstream config), (''cargo index upstream'', cargo_index_upstream config),
          (''cargo crate upstream'', cargo_crate_upstream config)]) (\<lambda>_.
     validate_origins W has_host (proxy_allowed_origins config)))))))))))"

text \<open>The arguments of the serve command; \<open>ServeArgs_default\<close> is what clap fills in.\<close>

record ServeArgs =
  arg_listen :: string
  arg_data_dir :: Path
  arg_max_upload_bytes :: u64
  arg_default_expiry_seconds :: u64
  arg_foreground_concurrency :: nat
  arg_reservation_extent_bytes :: u64
  arg_low_watermark_bytes :: u64
  arg_high_watermark_bytes :: u64
  arg_emergency_headroom_bytes :: u64
  arg_bloom_bits :: nat
  arg_reclaim_candidate_limit :: nat
  arg_reclaim_byte_limit :: u64
  arg_orphan_scan_limit :: nat
  arg_go_upstream :: string
  arg_python_upstream :: string
  arg_npm_upstream :: string
  arg_cargo_index_upstream :: string
  arg_cargo_crate_upstream :: string
  arg_proxy_revalidation_seconds :: u64
  arg_proxy_concurrency :: nat
  arg_upstream_timeout_seconds :: u64
  arg_proxy_allowed_origins :: "string list"

definition ServeArgs_default :: ServeArgs where
  "ServeArgs_default =
     \<lparr>arg_listen = ''127.0.0.1:8080'', arg_data_dir = [''.'', ''flywheel-data''],
      arg_max_upload_bytes = 10 * 1024 * 1024 * 1024, arg_default_expiry_seconds = 7 * 24 * 60 * 60,
      arg_foreground_concurrency = 256, arg_reservation_extent_bytes = 64 * 1024 * 1024,
      arg_low_watermark_bytes = 2 * 1024 * 1024 * 1024, arg_high_watermark_bytes = 8 * 1024 * 1024 * 1024,
      arg_emergency_headroom_bytes = 1024 * 1024 * 1024, arg_bloom_bits = 2 ^ 20,
      arg_reclaim_candidate_limit = 256, arg_reclaim_byte_limit = 8 * 1024 * 1024 * 1024,
      arg_orphan_scan_limit = 4096,
      arg_go_upstream = ''https://proxy.golang.org/'', arg_python_upstream = ''https://pypi.org/simple/'',
      arg_npm_upstream = ''https://registry.npmjs.org/'', arg_cargo_index_upstream = ''https://index.crates.io/'',
      arg_cargo_crate_upstream = ''https://static.crates.io/crates/'',
      arg_proxy_revalidation_seconds = 300, arg_proxy_concurrency = 64, arg_upstream_timeout_seconds = 30,
      arg_proxy_allowed_origins = []\<rparr>"

definition ServeArgs_config :: "ServeArgs \<Rightarrow> Config" where
  "ServeArgs_config args =
     \<lparr>go_upstream = arg_go_upstream args,
      python_upstream = arg_python_upstream args,
      npm_upstream = arg_npm_upstream args,
      cargo_index_upstream = arg_cargo_index_upstream args,
      cargo_crate_upstream = arg_cargo_crate_upstream args,
      proxy_revalidation_seconds = arg_proxy_revalidation_seconds args,
      proxy_concurrency = arg_proxy_concurrency args,
      proxy_allowed_origins = arg_proxy_allowed_origins args,
      cfg_data_dir = arg_data_dir args,
      cfg_max_upload_bytes = arg_max_upload_bytes args,
      cfg_default_expiry_seconds = arg_default_expiry_seconds args,
      cfg_upstream_timeout_seconds = arg_upstream_timeout_seconds args,
      cfg_foreground_concurrency = arg_foreground_concurrency args,
      cfg_reservation_extent_bytes = arg_reservation_extent_bytes args,
      cfg_low_watermark_bytes = arg_low_watermark_bytes args,
      cfg_high_watermark_bytes = arg_high_watermark_bytes args,
      cfg_emergency_headroom_bytes = arg_emergency_headroom_bytes args,
      cfg_bloom_bits = arg_bloom_bits args,
      cfg_reclaim_candidate_limit = arg_reclaim_candidate_limit args,
      cfg_reclaim_byte_limit = arg_reclaim_byte_limit args,
      cfg_orphan_scan_limit = arg_orphan_scan_limit args\<rparr>"

section \<open>Metrics\<close>

text \<open>
  \<open>Metrics::new\<close> registers every collector under its name; the registry refuses a name it
  already has, and then the whole construction fails. Every counter starts at zero.
\<close>

fun register_all :: "string list \<Rightarrow> string list \<Rightarrow> string + string list" where
  "register_all registry [] = Inr registry"
| "register_all registry (name # names) =
     (if name \<in> set registry then Inl name else register_all (registry @ [name]) names)"

definition collectors :: "string list" where
  "collectors =
     [''flywheel_requests_total'', ''flywheel_http_request_duration_seconds'', ''flywheel_artifact_hits_total'',
      ''flywheel_artifact_misses_total'', ''flywheel_bytes_read_total'', ''flywheel_bytes_written_total'',
      ''flywheel_authorization_denials_total'', ''flywheel_maintenance_reclaimed_total'',
      ''flywheel_maintenance_requeued_total'', ''flywheel_build_cache_bypasses_total'',
      ''flywheel_raw_pressure_errors_total'', ''flywheel_foreground_concurrency_limit'',
      ''flywheel_foreground_in_flight'', ''flywheel_foreground_rejections_total'',
      ''flywheel_prefetch_requests_total'', ''flywheel_prefetch_responses_total'',
      ''flywheel_prefetch_in_flight'', ''flywheel_prefetch_transfers_total'',
      ''flywheel_prefetch_response_bytes_total'', ''flywheel_prefetch_transfer_duration_seconds'',
      ''flywheel_free_observed_bytes'', ''flywheel_reserved_bytes'', ''flywheel_committed_since_bytes'']"

definition metrics_zero :: Metrics where
  "metrics_zero =
     \<lparr>requests = 0, hits = 0, misses = 0, bytes_read = 0, bytes_written = 0, authorization_denials = 0,
      maintenance_reclaimed = 0, maintenance_requeued = 0, build_cache_bypasses = 0, raw_pressure_errors = 0,
      foreground_in_flight = 0, foreground_rejections = 0, free_observed_bytes = 0, reserved_bytes = 0,
      committed_since_bytes = 0\<rparr>"

definition prefetch_zero :: PrefetchMetrics where
  "prefetch_zero =
     \<lparr>prefetch_requests = 0, prefetch_hit_responses = 0, prefetch_miss_responses = 0,
      prefetch_unavailable_responses = 0, prefetch_in_flight = 0, prefetch_completed_transfers = 0,
      prefetch_cancelled_transfers = 0, prefetch_response_bytes = 0, prefetch_transfer_durations = 0\<rparr>"

definition Metrics_new :: "string + Metrics \<times> PrefetchMetrics" where
  "Metrics_new = bind_sum (register_all [] collectors) (\<lambda>_. Inr (metrics_zero, prefetch_zero))"

section \<open>Opening\<close>

text \<open>
  What a process has before it opens a shard: the crates, clock, free-space source and random
  sources of the service, the URL library's test for a host, RocksDB's opening of a path, and
  the HTTP client's construction and
  the limit of the semaphores.
\<close>

record ('d, 'f) environment =
  env_ids :: crates
  env_meta :: "'d rocks"
  env_fsys :: "'f fs"
  env_hash :: hasher
  env_clock :: "nat \<Rightarrow> u64"
  env_free :: "nat \<Rightarrow> u64 option"
  env_ulid :: "nat \<Rightarrow> Ulid"
  env_token :: "nat \<Rightarrow> string"
  env_web :: web_crates
  env_http :: http_crates
  env_has_host :: "Url \<Rightarrow> bool"
  open_cf_descriptors :: "Path \<Rightarrow> ('d, string, unit) act"
  client_build :: "string + unit"
  max_permits :: nat

datatype OpenError =
    OpenConfig ConfigError
  | OpenDirectory IoError
  | OpenMetadata MetadataError
  | OpenFiles LocalError
  | OpenChannels ChannelError
  | OpenMetrics string
  | OpenCache CacheError
  | OpenProxy string
  | OpenPanic

record ('d, 'f) Flywheel =
  app_state :: "('d, 'f) AppState"
  app_config :: Config

definition RocksMetadata_open :: "('d, 'f) environment \<Rightarrow> Path \<Rightarrow> ('d, MetadataError, unit) act" where
  "RocksMetadata_open E path =
     blocking (env_meta E)
       (and_then (map_err Store (open_cf_descriptors E path)) (\<lambda>_. verify_store_format (env_meta E)))"

definition CacheService_new :: "('d, 'f) environment \<Rightarrow> Config \<Rightarrow> ArtifactFiles \<Rightarrow> ('d, 'f) CacheService" where
  "CacheService_new E config dir =
     \<lparr>ids = env_ids E, meta = env_meta E, fsys = env_fsys E, hash = env_hash E, clock_at = env_clock E,
      free_at = env_free E, ulid_at = env_ulid E, token_at = env_token E, artifact_files = dir,
      max_upload_bytes = cfg_max_upload_bytes config, reclaim_byte_limit = cfg_reclaim_byte_limit config,
      orphan_scan_limit = cfg_orphan_scan_limit config\<rparr>"

definition space_policy :: "Config \<Rightarrow> SpacePolicy" where
  "space_policy config =
     \<lparr>low_watermark = cfg_low_watermark_bytes config, high_watermark = cfg_high_watermark_bytes config,
      emergency_headroom = cfg_emergency_headroom_bytes config\<rparr>"

text \<open>
  The node of a process that starts on a database and a disk it finds: no gate is held. The
  ledger, the recency filters and the counters take their first value when \<open>open_internal\<close>
  builds them; nothing reads them before.
\<close>

definition boot_node :: "Config \<Rightarrow> 'd \<Rightarrow> 'f \<Rightarrow> nat \<Rightarrow> ('d, 'f) node" where
  "boot_node config d f t =
     \<lparr>disk = f, space = SpaceLedger_new None (space_policy config), db = d,
      recent = RecentUse_new (cfg_bloom_bits config), maintenance_cursor = 0, draws = t, gates = {},
      stats = metrics_zero\<rparr>"

text \<open>\<open>Semaphore::new\<close> panics above \<open>MAX_PERMITS\<close>.\<close>

definition Semaphore_new :: "('d, 'f) environment \<Rightarrow> nat \<Rightarrow> ('s, OpenError, unit) act" where
  "Semaphore_new E n = (if n \<le> max_permits E then ok () else throw OpenPanic)"

text \<open>The second half of \<open>open_internal\<close>, once store and directory are open, and the whole of it.\<close>

definition open_services ::
  "('d, 'f) environment \<Rightarrow> Config \<Rightarrow> ('d, 'f) CacheService \<Rightarrow> (('d, 'f) node, OpenError, ('d, 'f) Flywheel) act" where
  "open_services E config S =
     and_then (map_err OpenChannels (ensure_default S (cfg_default_expiry_seconds config))) (\<lambda>_.
     and_then (map_err OpenChannels (resume_deletions S)) (\<lambda>_.
     and_then (map_err OpenMetrics (lift_result Metrics_new)) (\<lambda>(zero, _).
     and_then (draw (free_at S)) (\<lambda>observation.
     and_then (modify (\<lambda>n. n\<lparr>space := SpaceLedger_new observation (space_policy config),
         recent := RecentUse_new (cfg_bloom_bits config), maintenance_cursor := 0, stats := zero\<rparr>)) (\<lambda>_.
     and_then (map_err OpenCache (reconcile S)) (\<lambda>_.
     and_then (map_err OpenProxy (lift_result (client_build E))) (\<lambda>_.
     and_then (map_err OpenProxy (lift_result (ProxyService_new S (env_web E) (ProxyConfig.truncate config)))) (\<lambda>P.
     and_then (Semaphore_new E (proxy_concurrency config)) (\<lambda>_.
     and_then (Semaphore_new E (cfg_foreground_concurrency config)) (\<lambda>_.
     ok \<lparr>app_state = \<lparr>app_proxy = P, default_expiry_seconds = cfg_default_expiry_seconds config,
            framework = env_http E\<rparr>,
         app_config = config\<rparr>))))))))))"

definition open_internal :: "('d, 'f) environment \<Rightarrow> Config \<Rightarrow> (('d, 'f) node, OpenError, ('d, 'f) Flywheel) act" where
  "open_internal E config =
     and_then (map_err OpenConfig (lift_result (validate (env_web E) (env_has_host E) config))) (\<lambda>_.
     and_then (map_err OpenDirectory (on_disk (create_dir_all (env_fsys E) (cfg_data_dir config)))) (\<lambda>_.
     and_then (map_err OpenMetadata (on_db (RocksMetadata_open E (cfg_data_dir config @ [''metadata''])))) (\<lambda>_.
     and_then (map_err OpenFiles (ArtifactFiles_open (env_fsys E) (cfg_data_dir config @ [''artifacts''])
         (cfg_reservation_extent_bytes config))) (\<lambda>dir.
     open_services E config (CacheService_new E config dir)))))"

text \<open>The world the router of an opened shard starts in.\<close>

definition opened_world :: "Config \<Rightarrow> ('d, 'f) node \<Rightarrow> 'w \<Rightarrow> ('d, 'f, 'w) app_world" where
  "opened_world config n u =
     \<lparr>proxied = \<lparr>shard_node = n, upstream_web = u, permits = proxy_concurrency config, flights = (\<lambda>_. None)\<rparr>,
      foreground = cfg_foreground_concurrency config, prefetch_metrics = prefetch_zero, durations = []\<rparr>"

section \<open>Maintenance\<close>

definition flywheel_maintenance_once :: "('d, 'f) Flywheel \<Rightarrow> (('d, 'f) node, CacheError, nat) act" where
  "flywheel_maintenance_once fw =
     and_then (run_maintenance_once (shard (app_state fw)) (cfg_reclaim_candidate_limit (app_config fw))) (\<lambda>k.
     and_then rotate_recency (\<lambda>_. ok k))"

text \<open>
  The burst, at its \<open>t\<close>-th look at the cancellation token. \<open>meanwhile t\<close> is what the other
  tasks do to the node while the burst yields or sleeps. Only the token, a failed pass or the
  controller ends the loop, so it is partial: \<open>None\<close> is a burst that runs forever.
\<close>

partial_function (option) run_maintenance_burst ::
  "('d, 'f) Flywheel \<Rightarrow> (nat \<Rightarrow> bool) \<Rightarrow> (nat \<Rightarrow> ('d, 'f) node \<Rightarrow> ('d, 'f) node) \<Rightarrow> nat \<Rightarrow> ('d, 'f) node \<Rightarrow>
    ('d, 'f) node option" where
  "run_maintenance_burst fw cancelled meanwhile t n =
     (case flywheel_maintenance_once fw n of
        (Inl error, n') \<Rightarrow> Some n'
      | (Inr k, n') \<Rightarrow>
          (case is_reclaiming n' of
             (Inl _, n'') \<Rightarrow> Some n''
           | (Inr reclaims, n'') \<Rightarrow>
               if \<not> reclaims \<or> cancelled t then Some n''
               else if k = 0 \<and> cancelled (t + 1) then Some n''
               else run_maintenance_burst fw cancelled meanwhile (t + 2) (meanwhile t n'')))"

end
