(* ===== verification/Server_Runs.thy ===== *)
theory Server_Runs
  imports Http_Properties Flywheel
begin

text \<open>
  Whole runs of a shard: a process opens the store and the disk it finds, serves requests
  and maintenance passes in any order, stops at any point, and is opened again. What opening
  keeps, what every run keeps, that the HTTP layer never panics or loses a permit, and when
  a maintenance burst returns.
\<close>

section \<open>The environment\<close>

text \<open>
  The contracts of the crates, and of RocksDB's opening: it neither loses nor invents rows.
\<close>

definition environment_ok :: "('d, 'f) environment \<Rightarrow> bool" where
  "environment_ok E \<longleftrightarrow>
     fs_ok (env_fsys E) \<and> hex_ok (env_ids E) \<and> ulid_ok (env_ids E) \<and> rocks_ok (env_meta E)
   \<and> (\<forall>p d x d'. open_cf_descriptors E p d = (x, d') \<longrightarrow> contents (env_meta E) d' = contents (env_meta E) d)"

definition opened_files :: "Config \<Rightarrow> ArtifactFiles" where
  "opened_files config =
     \<lparr>root = cfg_data_dir config @ [''artifacts''], reservation_extent = max (cfg_reservation_extent_bytes config) 1\<rparr>"

abbreviation opened_service :: "('d, 'f) environment \<Rightarrow> Config \<Rightarrow> ('d, 'f) CacheService" where
  "opened_service E config \<equiv> CacheService_new E config (opened_files config)"

lemma opened_service_select [simp]:
  "ids (CacheService_new E config dir) = env_ids E" "meta (CacheService_new E config dir) = env_meta E"
  "fsys (CacheService_new E config dir) = env_fsys E" "artifact_files (CacheService_new E config dir) = dir"
  "free_at (CacheService_new E config dir) = env_free E"
  by (simp_all add: CacheService_new_def)

lemma opened_env: "environment_ok E \<Longrightarrow> env_ok (opened_service E config)"
  by (simp add: environment_ok_def env_ok_def)

section \<open>What a server keeps\<close>

text \<open>The invariant of the shard and of the store's contents together.\<close>

definition sound :: "('d, 'f) CacheService \<Rightarrow> ('d, 'f) node \<Rightarrow> bool" where
  "sound S n \<longleftrightarrow> node_ok S 0 n \<and> stocked S n"

lemma keeps_sound: "keeps (node_ok S 0) m \<Longrightarrow> keeps (stocked S) m \<Longrightarrow> keeps (sound S) m"
  by (auto simp: keeps_def sound_def)

text \<open>What of it is on disk. Two configurations with the same data directory agree on it.\<close>

definition durable_ok :: "('d, 'f) environment \<Rightarrow> Path \<Rightarrow> 'd \<Rightarrow> 'f \<Rightarrow> bool" where
  "durable_ok E dir d f \<longleftrightarrow>
     db_good (env_ids E) (env_meta E) d
   \<and> bodies_ok (env_ids E) (env_fsys E) \<lparr>root = dir @ [''artifacts''], reservation_extent = 1\<rparr> f
   \<and> well_typed (env_ids E) (db_view (env_ids E) (env_meta E) d)"

lemma artifact_path_root: "root A = root A' \<Longrightarrow> artifact_path c A ch a = artifact_path c A' ch a"
  by (simp add: artifact_path_def channel_dir_def)

lemma sound_durable:
  "sound (opened_service E config) n \<longleftrightarrow>
     durable_ok E (cfg_data_dir config) (db n) (disk n) \<and> recent_ok (recent n) \<and> ledger_lawful (space n) \<and> ledger_held (space n) = 0"
proof -
  have "bodies_ok (env_ids E) (env_fsys E) (opened_files config) f
      = bodies_ok (env_ids E) (env_fsys E) \<lparr>root = cfg_data_dir config @ [''artifacts''], reservation_extent = 1\<rparr> f" for f
    unfolding bodies_ok_def
    using artifact_path_root [of "opened_files config" "\<lparr>root = cfg_data_dir config @ [''artifacts''], reservation_extent = 1\<rparr>"]
    by (simp add: opened_files_def)
  then show ?thesis by (auto simp: sound_def stocked_def node_ok_def stored_ok_def durable_ok_def db_good_def)
qed

lemma durable_empty:
  assumes "environment_ok E" and "contents (env_meta E) d = (\<lambda>_ _. None)" and "\<And>p. files (env_fsys E) f p = None"
  shows "durable_ok E dir d f"
  using assms empty_db_good [of "env_ids E" "env_meta E" d]
  by (auto simp: durable_ok_def environment_ok_def bodies_ok_def well_typed_def db_view_def abs_store_def
      abs_references_def abs_artifacts_def abs_channels_def decoded_def)

section \<open>Opening\<close>

lemma bind_sum_Inr: "bind_sum x f = Inr y \<longleftrightarrow> (\<exists>a. x = Inr a \<and> f a = Inr y)"
  by (auto simp: bind_sum_def split: sum.splits)

lemma ensure_Inr [simp]: "ensure b e = Inr u \<longleftrightarrow> b"
  by (simp add: ensure_def)

lemma validated:
  assumes "validate W h config = Inr u"
  shows "0 < cfg_max_upload_bytes config" "0 < cfg_default_expiry_seconds config" "0 < proxy_concurrency config"
    "0 < cfg_foreground_concurrency config" "0 < cfg_bloom_bits config" "0 < cfg_reclaim_candidate_limit config"
    "cfg_low_watermark_bytes config \<le> cfg_high_watermark_bytes config"
  using assms by (auto simp: validate_def bind_sum_Inr)

text \<open>A step may use the value the previous one returned.\<close>

lemma keeps_and_then_value:
  "keeps P m \<Longrightarrow> (\<And>s x t. m s = (Inr x, t) \<Longrightarrow> keeps P (f x)) \<Longrightarrow> keeps P (and_then m f)"
  by (rule keepsI, erule and_then_E) (blast dest: keepsD)+

lemma yields_bind: "(\<And>s x t. m s = (Inr x, t) \<Longrightarrow> yields (\<lambda>_. True) (f x) R) \<Longrightarrow> yields (\<lambda>_. True) (and_then m f) R"
  unfolding yields_def by (blast elim!: and_then_E)

lemma map_err_Inr: "map_err g m s = (Inr x, t) \<longleftrightarrow> m s = (Inr x, t)"
  by (auto simp: map_err_def split: prod.splits sum.splits)

lemma lift_Inr: "lift_result r s = (Inr x, t) \<longleftrightarrow> r = Inr x \<and> t = s"
  by (auto simp: lift_result_def)

lemma opened_dir: "ArtifactFiles_open F (cfg_data_dir config @ [''artifacts'']) (cfg_reservation_extent_bytes config) n = (Inr dir, t)
    \<Longrightarrow> dir = opened_files config"
  by (auto simp: ArtifactFiles_open_def opened_files_def ok_def elim!: and_then_E)

lemma rocks_open_contents:
  assumes E: "environment_ok E" and run: "RocksMetadata_open E p d = (x, d')" and cf: "cf \<noteq> META"
  shows "contents (env_meta E) d' cf = contents (env_meta E) d cf"
proof -
  have r: "rocks_ok (env_meta E)" using E by (simp add: environment_ok_def)
  obtain y d1 where o: "open_cf_descriptors E p d = (y, d1)" by fastforce
  obtain z d2 where v: "verify_store_format (env_meta E) d1 = (z, d2)" by fastforce
  have "contents (env_meta E) d1 = contents (env_meta E) d" using E o unfolding environment_ok_def by blast
  moreover have "contents (env_meta E) d2 cf = contents (env_meta E) d1 cf" by (rule verify_contents [OF r v cf])
  moreover have "d' = snd (spawn_join (env_meta E) d1) \<or> d' = snd (spawn_join (env_meta E) d2)"
    using run o v
    by (auto simp: RocksMetadata_open_def blocking_def map_err_def and_then_def split: sum.splits prod.splits option.splits)
  ultimately show ?thesis using rocks_join [OF r] by (metis prod.collapse)
qed

lemma rocks_open_keeps: "environment_ok E \<Longrightarrow> keeps (sound (opened_service E config)) (on_db (RocksMetadata_open E p))"
proof (rule keepsI)
  fix n x n' assume E: "environment_ok E" and n: "sound (opened_service E config) n"
    and "on_db (RocksMetadata_open E p) n = (x, n')"
  then obtain d where run: "RocksMetadata_open E p (db n) = (x, d)" and n': "n' = n\<lparr>db := d\<rparr>" by (elim on_db_E)
  note same = rocks_open_contents [OF E run]
  then have "wf_db (env_ids E) (env_meta E) (contents (env_meta E) d) = wf_db (env_ids E) (env_meta E) (contents (env_meta E) (db n))"
    "abs_store (env_ids E) (env_meta E) (contents (env_meta E) d) = abs_store (env_ids E) (env_meta E) (contents (env_meta E) (db n))"
    by (simp_all add: wf_db_def abs_store_def)
  with n n' show "sound (opened_service E config) n'"
    by (simp add: sound_durable durable_ok_def db_good_def db_inv_def db_view_def)
qed

text \<open>The interpretation of the watched store at a service.\<close>

abbreviation serving_only :: "('d, 'f) CacheService \<Rightarrow> ('d, 'f) ProxyService" where
  "serving_only S \<equiv> \<lparr>cache = S, web = undefined, bases = undefined, allowed = undefined, ttl = 0, permit_limit = 0\<rparr>"

lemma service_sound:
  assumes "env_ok S"
  shows "0 < expiry \<Longrightarrow> keeps (sound S) (ensure_default S expiry)" "keeps (sound S) (resume_deletions S)"
    "keeps (sound S) (reconcile S)" "keeps (sound S) (run_maintenance_once S limit)" "keeps (sound S) rotate_recency"
    "keeps (sound S) is_reclaiming"
  using assms stock.default_keeps [where P = "serving_only S"] stock.resume_keeps [where P = "serving_only S"]
    stock.reconcile_keeps [where P = "serving_only S"] stock.maintenance_keeps [where P = "serving_only S"]
    stock.rotate_keeps [where P = "serving_only S"] keeps_and_then [OF stock.mode_keeps [where P = "serving_only S"] keeps_ok]
  by (auto intro!: keeps_sound keeps_default keeps_resume keeps_reconcile keeps_maintenance keeps_rotate keeps_reclaiming [unfolded is_reclaiming_def]
      simp: is_reclaiming_def)

lemma opening_sound:
  assumes "environment_ok E"
  shows "keeps (sound (opened_service E config)) (on_disk (create_dir_all (env_fsys E) p))"
    "keeps (sound (opened_service E config)) (ArtifactFiles_open (env_fsys E) p extent)"
    "keeps (sound (opened_service E config)) (draw source)"
    "0 < cfg_bloom_bits config \<Longrightarrow> cfg_bloom_bits config < 2 ^ 63 \<Longrightarrow> keeps (sound (opened_service E config))
      (modify (\<lambda>n. n\<lparr>space := SpaceLedger_new obs pol, recent := RecentUse_new (cfg_bloom_bits config), maintenance_cursor := 0,
         stats := zero\<rparr>))"
proof -
  let ?S = "opened_service E config"
  have F: "frame (fsys ?S) {} (create_dir_all (env_fsys E) q)" for q
    using assms by (simp add: environment_ok_def fs_ok_def frames_ok_def)
  show dir: "keeps (sound ?S) (on_disk (create_dir_all (env_fsys E) p))" for p
    by (intro keeps_sound keeps_same_files F) (auto simp: keeps_def on_disk_def stocked_def split: prod.split)
  show "keeps (sound ?S) (ArtifactFiles_open (env_fsys E) p extent)"
    unfolding ArtifactFiles_open_def io_def by (intro act_keeps dir)
  show "keeps (sound ?S) (draw source)"
    by (intro keeps_sound keeps_draw) (simp add: keeps_def draw_def stocked_def)
qed (auto simp: keeps_def modify_def sound_durable recent_ok_new ledger_lawful_new new_ledger)

lemma keeps_semaphore: "keeps P (Semaphore_new E k)"
  by (simp add: Semaphore_new_def keeps_ok keeps_throw)

lemma services_keep:
  assumes E: "environment_ok E" and bits: "cfg_bloom_bits config < 2 ^ 63"
    and v: "validate (env_web E) (env_has_host E) config = Inr x"
  shows "keeps (sound (opened_service E config)) (open_services E config (opened_service E config))"
proof -
  note kept = service_sound [OF opened_env [OF E]] opening_sound [OF E] validated [OF v] bits keeps_semaphore
  show ?thesis
    unfolding open_services_def
    by (intro keeps_and_then keeps_map_err keeps_lift_result keeps_ok kept)
      (auto intro!: keeps_and_then keeps_map_err keeps_lift_result keeps_ok kept split: prod.split)
qed

lemma open_keeps:
  assumes E: "environment_ok E" and bits: "cfg_bloom_bits config < 2 ^ 63"
  shows "keeps (sound (opened_service E config)) (open_internal E config)"
proof -
  note kept = opening_sound [OF E] rocks_open_keeps [OF E] services_keep [OF E bits]
  show ?thesis
    unfolding open_internal_def
    by (intro keeps_and_then_value keeps_map_err keeps_lift_result kept)
      (auto simp: map_err_Inr lift_Inr intro!: kept dest!: opened_dir)
qed

text \<open>What a successful opening hands out.\<close>

lemma proxy_new_cache: "ProxyService_new S W c = Inr P \<Longrightarrow> cache P = S"
  by (auto simp: ProxyService_new_def bind_sum_Inr)

lemma open_yields:
  "yields (\<lambda>_. True) (open_internal E config) (\<lambda>fw. app_config fw = config \<and> shard (app_state fw) = opened_service E config
     \<and> validate (env_web E) (env_has_host E) config = Inr ())"
  unfolding open_internal_def open_services_def
  by (intro yields_bind)
    (auto simp: map_err_Inr lift_Inr proxy_new_cache intro!: yields_bind yields_basic dest!: opened_dir split: prod.splits)

section \<open>Runs\<close>

text \<open>
  A shard is down, with what its data directory holds, or up. A start may fail; what it did
  to the directory stays. While it is up, requests and maintenance passes run in any order;
  a pass of the worker is followed by a rotation only when it succeeds. The process may stop
  between any two of them, and its next start may have another configuration with the same
  data directory.
\<close>

datatype ('d, 'f, 'w) server =
    Down 'd 'f nat
  | Up "('d, 'f) Flywheel" "('d, 'f, 'w) app_world"

inductive server_step ::
  "('d, 'f) environment \<Rightarrow> Path \<Rightarrow> 'w getter \<Rightarrow> (string \<Rightarrow> f32 option) \<Rightarrow> ('d, 'f, 'w) server \<Rightarrow> ('d, 'f, 'w) server \<Rightarrow> bool"
  for E dir get pf where
  started: "cfg_data_dir config = dir \<Longrightarrow> cfg_bloom_bits config < 2 ^ 63 \<Longrightarrow>
     open_internal E config (boot_node config d f t) = (Inr fw, n) \<Longrightarrow>
     server_step E dir get pf (Down d f t) (Up fw (opened_world config n u))"
| refused: "cfg_data_dir config = dir \<Longrightarrow> cfg_bloom_bits config < 2 ^ 63 \<Longrightarrow>
     open_internal E config (boot_node config d f t) = (Inl e, n) \<Longrightarrow>
     server_step E dir get pf (Down d f t) (Down (db n) (disk n) (draws n))"
| request: "chunks_fit (req_body request) \<Longrightarrow> count_request (app_state fw) get pf polls route request w = (resp, w') \<Longrightarrow>
     server_step E dir get pf (Up fw w) (Up fw w')"
| maintenance: "flywheel_maintenance_once fw (app_node w) = (k, n) \<Longrightarrow>
     server_step E dir get pf (Up fw w) (Up fw (on_node (\<lambda>_. n) w))"
| controller: "is_reclaiming (app_node w) = (b, n) \<Longrightarrow>
     server_step E dir get pf (Up fw w) (Up fw (on_node (\<lambda>_. n) w))"
| stopped: "server_step E dir get pf (Up fw w) (Down (db (app_node w)) (disk (app_node w)) (draws (app_node w)))"

text \<open>What holds between steps.\<close>

fun server_ok :: "('d, 'f) environment \<Rightarrow> Path \<Rightarrow> ('d, 'f, 'w) server \<Rightarrow> bool" where
  "server_ok E dir (Down d f t) \<longleftrightarrow> durable_ok E dir d f"
| "server_ok E dir (Up fw w) \<longleftrightarrow>
     cfg_data_dir (app_config fw) = dir \<and> shard (app_state fw) = opened_service E (app_config fw)
   \<and> sound (shard (app_state fw)) (app_node w)
   \<and> foreground w = cfg_foreground_concurrency (app_config fw) \<and> 0 < foreground w \<and> gauge_of w = 0"

lemma boot_sound:
  "durable_ok E (cfg_data_dir config) d f \<Longrightarrow> 0 < cfg_bloom_bits config \<Longrightarrow> cfg_bloom_bits config < 2 ^ 63 \<Longrightarrow>
    sound (opened_service E config) (boot_node config d f t)"
  by (simp add: sound_durable boot_node_def recent_ok_new ledger_lawful_new new_ledger)

text \<open>Opening leaves the gauge at zero.\<close>

lemma open_gauged: "keeps (gauged 0) (open_internal E config)"
proof -
  have start: "keeps (gauged 0) (modify (\<lambda>n. n\<lparr>space := l, recent := r, maintenance_cursor := i, stats := zero\<rparr>))"
    if "foreground_in_flight zero = 0" for l r i zero
    using that by (simp add: keeps_def modify_def gauged_def)
  have zero: "foreground_in_flight m = 0" if "Metrics_new = Inr (m, p)" for m p
    using that by (auto simp: Metrics_new_def bind_sum_Inr metrics_zero_def)
  have basic: "keeps (gauged 0) (on_db m)" "keeps (gauged 0) (on_disk k)" "keeps (gauged 0) (draw source)" for m k source
    by (auto simp: keeps_def gauged_def on_db_def on_disk_def draw_def split: prod.split)
  note kept = keeps_map_err keeps_lift_result keeps_ok keeps_semaphore basic
    gauge.default_keeps [where P = "serving_only S" for S, simplified] gauge.resume_keeps [where P = "serving_only S" for S, simplified]
    gauge.reconcile_keeps [where P = "serving_only S" for S, simplified]
  show ?thesis
    unfolding open_internal_def open_services_def ArtifactFiles_open_def io_def
    by (intro keeps_and_then_value kept) (auto simp: map_err_Inr lift_Inr intro!: keeps_and_then_value kept start dest: zero)
qed

lemma maintenance_pass:
  assumes "env_ok (shard (app_state fw))"
  shows "keeps (sound (shard (app_state fw))) (flywheel_maintenance_once fw)" "keeps (gauged g) (flywheel_maintenance_once fw)"
  unfolding flywheel_maintenance_once_def using assms gauge.maintenance_keeps [where P = "app_proxy (app_state fw)"]
    gauge.rotate_keeps
  by (auto intro!: keeps_and_then keeps_ok service_sound)

lemma controller_gauged: "keeps (gauged g) is_reclaiming"
  unfolding is_reclaiming_def by (intro act_keeps gauge.mode_keeps)

text \<open>A request gives back the permit it took, whenever its body is dropped.\<close>

lemma request_settles:
  assumes "count_request A get pf polls route request w = (resp, w')"
  shows "foreground w' = foreground w \<and> gauge_of w' = gauge_of w"
  using assms
proof (rule count_request_E)
  fix m answer w1 assume r: "respond (router A get pf route request) (counted_in w m) = (answer, w1)"
    and after: "after_request polls request answer w1 resp w'"
  obtain x where run: "router A get pf route request (counted_in w m) = (x, w1)"
    and answer: "answer = (case x of Inr a \<Rightarrow> Some a | Inl (Return a) \<Rightarrow> Some a | Inl Panic \<Rightarrow> None)"
    using r by (auto simp: respond_def split: prod.splits sum.splits Exit.splits)
  have "foreground (counted_in w m) = foreground w" "gauge_of (counted_in w m) = gauge_of w"
    by (simp_all add: counted_in_def on_node_def)
  with settlesD [OF router_settles run] after answer show ?thesis
    by (auto simp: after_request_def keeps_permit_def drop_permit_def on_node_def metrics_foreground_released_def
        split: sum.splits Exit.splits if_splits)
qed

lemma request_sound:
  assumes "env_ok (shard A)" and "get_fits get" and "chunks_fit (req_body request)" and "sound (shard A) (app_node w)"
    and "count_request A get pf polls route request w = (resp, w')"
  shows "sound (shard A) (app_node w')"
  using law.request_kept [OF assms(3) _ assms(5)] stock_served.request_kept [OF assms(3) _ assms(5)] assms(1,2,4)
  by (simp add: lawful_def sound_def)

lemma server_step_ok:
  assumes E: "environment_ok E" and get: "get_fits get"
    and "server_step E dir get pf s s'" and "server_ok E dir s"
  shows "server_ok E dir s'"
  using assms(3,4)
proof cases
  case (started config d f t fw n u)
  then have fw: "app_config fw = config" "shard (app_state fw) = opened_service E config"
    and v: "validate (env_web E) (env_has_host E) config = Inr ()"
    using yieldsD [OF open_yields, OF TrueI] by blast+
  have "sound (opened_service E config) (boot_node config d f t)"
    using started assms(4) by (intro boot_sound validated [OF v]) simp_all
  then have "sound (opened_service E config) n" by (rule keepsD [OF open_keeps [OF E started(4)] _ started(5)])
  moreover have "gauged 0 n"
    by (rule keepsD [OF open_gauged _ started(5)]) (simp add: boot_node_def gauged_def metrics_zero_def)
  ultimately show ?thesis using started fw validated [OF v] by (simp add: opened_world_def gauged_def)
next
  case (refused config d f t e n)
  show ?thesis
  proof (cases "validate (env_web E) (env_has_host E) config")
    case (Inl c)
    then have "n = boot_node config d f t" using refused(5) by (auto simp: open_internal_def and_then_def map_err_def lift_result_def)
    with refused assms(4) show ?thesis by (simp add: boot_node_def)
  next
    case (Inr u)
    have "sound (opened_service E config) (boot_node config d f t)"
      using refused assms(4) by (intro boot_sound validated [OF Inr]) simp_all
    then have "sound (opened_service E config) n" by (rule keepsD [OF open_keeps [OF E refused(4)] _ refused(5)])
    with refused show ?thesis by (simp add: sound_durable)
  qed
next
  case (request req fw polls route w resp w')
  with assms(4) have "sound (shard (app_state fw)) (app_node w)" and env: "env_ok (shard (app_state fw))"
    using opened_env [OF E] by auto
  from request_sound [OF env get request(3) this(1) request(4)] request_settles [OF request(4)] assms(4) request
  show ?thesis by simp
next
  case (maintenance fw w k n)
  with assms(4) have "env_ok (shard (app_state fw))" using opened_env [OF E] by simp
  note kept = maintenance_pass [OF this]
  from assms(4) maintenance have "sound (shard (app_state fw)) n" "gauged (gauge_of w) n"
    using keepsD [OF kept(1) _ maintenance(3)] keepsD [OF kept(2) _ maintenance(3)] by (auto simp: gauged_def)
  with assms(4) maintenance show ?thesis by (simp add: on_node_def gauged_def)
next
  case (controller w b n fw)
  with assms(4) have "env_ok (shard (app_state fw))" using opened_env [OF E] by simp
  with assms(4) controller have "sound (shard (app_state fw)) n" "gauged (gauge_of w) n"
    using keepsD [OF service_sound(6) _ controller(3)] keepsD [OF controller_gauged _ controller(3)] by (auto simp: gauged_def)
  with assms(4) controller show ?thesis by (simp add: on_node_def gauged_def)
next
  case (stopped fw w)
  with assms(4) show ?thesis by (auto simp: sound_durable)
qed

lemma server_runs_ok:
  "environment_ok E \<Longrightarrow> get_fits get \<Longrightarrow> (server_step E dir get pf)\<^sup>*\<^sup>* s s' \<Longrightarrow> server_ok E dir s \<Longrightarrow> server_ok E dir s'"
  by (rotate_tac 2, induction rule: rtranclp_induct) (auto intro: server_step_ok)

section \<open>The concrete server\<close>

definition demo_environment :: "(demo_db, demo_disk) environment" where
  "demo_environment =
     \<lparr>env_ids = demo_crates, env_meta = demo_rocks, env_fsys = demo_fs, env_hash = (\<lambda>_ _. 7),
      env_clock = (\<lambda>i. 200 + of_nat i), env_free = (\<lambda>_. Some 1000000), env_ulid = (\<lambda>i. of_nat (5 + i)),
      env_token = (\<lambda>_. ''secret''), env_web = demo_web, env_http = demo_http, env_has_host = (\<lambda>_. True),
      open_cf_descriptors = (\<lambda>_ d. (Inr (), d)), client_build = Inr (), max_permits = 1000\<rparr>"

lemma demo_environment_select [simp]:
  "env_ids demo_environment = demo_crates" "env_meta demo_environment = demo_rocks" "env_fsys demo_environment = demo_fs"
  "env_web demo_environment = demo_web" "env_http demo_environment = demo_http" "env_has_host demo_environment = (\<lambda>_. True)"
  "env_clock demo_environment = (\<lambda>i. 200 + of_nat i)" "env_free demo_environment = (\<lambda>_. Some 1000000)"
  "open_cf_descriptors demo_environment = (\<lambda>_ d. (Inr (), d))" "client_build demo_environment = Inr ()"
  "max_permits demo_environment = 1000"
  by (simp_all add: demo_environment_def)

lemma demo_environment_ok: "environment_ok demo_environment"
  by (simp add: environment_ok_def demo_fs_ok demo_hex_ok demo_ulid_ok demo_rocks_ok)

definition demo_config :: Config where
  "demo_config = Config_new [''data'']"

lemma demo_config_select [simp]:
  "cfg_data_dir demo_config = [''data'']" "cfg_default_expiry_seconds demo_config = 604800" "proxy_concurrency demo_config = 64"
  "cfg_foreground_concurrency demo_config = 256" "cfg_bloom_bits demo_config = 2 ^ 20"
  "cfg_reservation_extent_bytes demo_config = 67108864"
  by (simp_all add: demo_config_def Config_new_def)

lemma Metrics_new_ok: "Metrics_new = Inr (metrics_zero, prefetch_zero)"
  by (simp add: Metrics_new_def collectors_def bind_sum_def)

lemma demo_validates: "validate demo_web (\<lambda>_. True) demo_config = Inr ()"
  by (simp add: validate_def demo_config_def Config_new_def bind_sum_def ensure_def demo_web_def demo_url_def)

lemma demo_proxy_new: "\<exists>P. ProxyService_new S demo_web (ProxyConfig.truncate demo_config) = Inr P"
  by (simp add: ProxyService_new_def demo_config_def Config_new_def bind_sum_def demo_web_def demo_url_def
      ProxyConfig.defs origin_set_def python_download_origins_def)

definition demo_empty_disk :: demo_disk where
  "demo_empty_disk = \<lparr>d_files = [], d_dirs = [], d_accepted = [], d_data = [], d_entries = [], d_next = 0\<rparr>"

definition demo_opened_disk :: demo_disk where
  "demo_opened_disk = demo_empty_disk\<lparr>d_dirs := [[''data'', ''artifacts''], [''data'']]\<rparr>"

definition demo_format_row :: "column_family \<times> bytes \<times> bytes" where
  "demo_format_row = (META, store_format_key, store_format)"

definition demo_default :: ChannelRecord where
  "demo_default = \<lparr>channel_id = default_channel, access = Open, expiry_seconds = 604800, lifecycle = Active, channel_created_at = 200\<rparr>"

definition demo_opened_db :: demo_db where
  "demo_opened_db =
     [(CHANNELS, ChannelId_as_key demo_crates default_channel, 1 # (case demo_channel_to_vec demo_default of Inl x \<Rightarrow> [] | Inr bs \<Rightarrow> bs)),
      demo_format_row]"

lemma demo_rocks_open: "RocksMetadata_open demo_environment p [] = (Inr (), [demo_format_row])"
  by (simp add: RocksMetadata_open_def verify_store_format_def demo_store_eval demo_format_row_def)

lemma demo_default_ensured:
  "ensure_default (opened_service demo_environment demo_config) 604800 ((boot_node demo_config [demo_format_row] demo_opened_disk 0))
     = (Inr (), (boot_node demo_config demo_opened_db demo_opened_disk 1)\<lparr>gates := {default_channel}\<rparr>)"
  by (simp add: ensure_default_def store_call_def on_db_def draw_def outcome_def store_channel_get_def
      create_channel_def demo_store_eval boot_node_def gate_def modify_def demo_opened_db_def demo_channel_to_vec_def
      demo_default_def demo_format_row_def CacheService_new_def)

lemma demo_channel_decodes: "demo_channel_from_bytes (case demo_channel_to_vec r of Inl x \<Rightarrow> [] | Inr bs \<Rightarrow> bs) = Inr r"
  using demo_channel_ok by (simp add: postcard_ok_def demo_channel_to_vec_def)

lemma demo_default_listed: "store_channels demo_rocks demo_opened_db = (Inr [demo_default], demo_opened_db)"
  using demo_channel_decodes
  by (simp add: store_channels_def demo_store_eval demo_opened_db_def demo_rows_def demo_keys_def demo_format_row_def)

lemma demo_reconciles:
  "reconcile (opened_service demo_environment demo_config)
     (boot_node demo_config d demo_opened_disk t \<lparr>space := l, recent := r, maintenance_cursor := c, gates := g, stats := m\<rparr>)
   = (Inr (), boot_node demo_config d demo_opened_disk t \<lparr>space := l, recent := r, maintenance_cursor := c, gates := g, stats := m\<rparr>)"
  by (simp add: reconcile_def remove_temporary_files_def orphan_scan_def read_dir_or_def files_call_def map_err_def outcome_def
      on_disk_def boot_node_def opened_files_def demo_opened_disk_def demo_empty_disk_def
      d_children_def below_def and_then_def ok_def)

lemma demo_opens:
  "\<exists>fw n. open_internal demo_environment demo_config (boot_node demo_config [] demo_empty_disk 0) = (Inr fw, n)"
proof -
  obtain P where P: "ProxyService_new (opened_service demo_environment demo_config) demo_web (ProxyConfig.truncate demo_config) = Inr P"
    using demo_proxy_new by blast
  have resume: "resume_deletions (opened_service demo_environment demo_config)
      ((boot_node demo_config demo_opened_db demo_opened_disk 1)\<lparr>gates := {default_channel}\<rparr>)
    = (Inr (), (boot_node demo_config demo_opened_db demo_opened_disk 1)\<lparr>gates := {default_channel}\<rparr>)"
    using demo_default_listed
    by (simp add: resume_deletions_def store_call_def on_db_def map_err_def and_then_def ok_def boot_node_def demo_default_def)
  have services: "\<exists>fw n. open_services demo_environment demo_config (opened_service demo_environment demo_config)
      (boot_node demo_config [demo_format_row] demo_opened_disk 0) = (Inr fw, n)"
    unfolding open_services_def using demo_default_ensured resume demo_reconciles P
    by (simp add: and_then_def map_err_def lift_result_def Metrics_new_ok draw_def modify_def Semaphore_new_def ok_def boot_node_def)
  have "open_internal demo_environment demo_config (boot_node demo_config [] demo_empty_disk 0)
      = open_services demo_environment demo_config (opened_service demo_environment demo_config)
          (boot_node demo_config [demo_format_row] demo_opened_disk 0)"
    using demo_rocks_open demo_validates
    by (simp add: open_internal_def and_then_def map_err_def lift_result_def on_disk_def on_db_def ArtifactFiles_open_def io_def ok_def
        boot_node_def demo_opened_disk_def demo_empty_disk_def opened_files_def)
  with services show ?thesis by simp
qed

end
