(* ===== verification/Server_Properties.thy ===== *)
theory Server_Properties
  imports Server_Runs
begin

text \<open>
  Properties of whole runs of a shard: what opening restores, what holds whenever the shard
  is up, and that the maintenance burst returns.
\<close>

section \<open>Opening\<close>

text \<open>The default channel is there, open and active; nothing else of the store has changed.\<close>

definition default_there :: "('d, 'f) CacheService \<Rightarrow> ('d, 'f) node \<Rightarrow> bool" where
  "default_there S n \<longleftrightarrow>
     (\<exists>r. channels (view S n) default_channel = Some r \<and> access r = Open \<and> lifecycle r = Active)"

definition default_added :: "('d, 'f) CacheService \<Rightarrow> ('d, 'f) node \<Rightarrow> ('d, 'f) node \<Rightarrow> bool" where
  "default_added S n n' \<longleftrightarrow>
     valid S n' \<and> disk n' = disk n
   \<and> (view S n' = view S n \<or> channels (view S n) default_channel = None
      \<and> (\<exists>r. channel_id r = default_channel \<and> view S n' = a_put_channel r (view S n)))"

lemma default_get:
  assumes "default_added S n n1" and "store_call (store_channel_get (ids S) (meta S) default_channel) n1 = (y, n2)"
  shows "default_added S n n2 \<and> (\<forall>found. y = Inr found \<longrightarrow> found = channels (view S n2) default_channel)"
proof -
  have "valid S n1" using assms(1) by (simp add: default_added_def)
  from store_call_effect [OF effect_channels(3) this assms(2)] assms(1) show ?thesis
    by (cases y) (auto simp: default_added_def)
qed

lemma default_effect:
  assumes n: "valid S n" and run: "ensure_default S expiry n = (Inr u, n')"
  shows "default_added S n n' \<and> default_there S n'"
proof -
  let ?get = "store_call (store_channel_get (ids S) (meta S) default_channel)"
  have refl: "default_added S n n" using n by (simp add: default_added_def)
  have fin: "default_added S n (m\<lparr>gates := g\<rparr>) \<and> default_there S (m\<lparr>gates := g\<rparr>)"
    if "default_added S n m" "channels (view S m) default_channel = Some r" "access r = Open" "lifecycle r = Active" for m r g
    using that by (auto simp: default_added_def default_there_def)
  obtain y n1 where get: "?get n = (y, n1)" by fastforce
  note g = default_get [OF refl get]
  show ?thesis
  proof (cases "\<exists>r. y = Inr (Some r)")
    case True
    then obtain r where y: "y = Inr (Some r)" by blast
    with run get have "access r = Open" "lifecycle r = Active" "n' = n1\<lparr>gates := insert default_channel (gates n1)\<rparr>"
      by (auto simp: ensure_default_def and_then_def ok_def throw_def gate_def modify_def split: if_splits)
    with g y fin [of n1 r] show ?thesis by simp
  next
    case False
    with run get have y: "y = Inr None" by (cases y) (auto simp: ensure_default_def and_then_def)
    let ?r = "\<lparr>channel_id = default_channel, access = Open, expiry_seconds = expiry, lifecycle = Active,
      channel_created_at = clock_at S (draws n1)\<rparr>"
    let ?n2 = "n1\<lparr>draws := draws n1 + 1\<rparr>"
    have n2: "default_added S n ?n2" "channels (view S ?n2) default_channel = None"
      using g y by (simp_all add: default_added_def)
    obtain z d where c: "create_channel (ids S) (meta S) ?r (db ?n2) = (z, d)" by fastforce
    let ?n3 = "?n2\<lparr>db := d\<rparr>"
    have "db_inv (ids S) (meta S) (db ?n2)" using n2 by (simp add: default_added_def)
    from effect_channels(1) [unfolded effect_def, rule_format, OF this c] n2
    have n3: "default_added S n ?n3" "z = Inr v \<Longrightarrow> channels (view S ?n3) default_channel = Some ?r" for v
      by (auto simp: default_added_def a_put_channel_def intro!: exI [of _ ?r] split: sum.splits)
    show ?thesis
    proof (cases z)
      case (Inr v)
      with run get y c have "n' = ?n3\<lparr>gates := insert default_channel (gates ?n3)\<rparr>"
        by (simp add: ensure_default_def and_then_def draw_def outcome_def on_db_def ok_def gate_def modify_def Let_def)
      with n3 Inr fin [of ?n3 ?r] show ?thesis by simp
    next
      case (Inl e)
      obtain y' n4 where again: "?get ?n3 = (y', n4)" by fastforce
      have e: "e = AlreadyExists" using run get y c Inl
        by (cases e) (simp_all add: ensure_default_def and_then_def draw_def outcome_def on_db_def throw_def Let_def)
      obtain r where y': "y' = Inr (Some r)" using run get y c Inl e again
        by (auto simp: ensure_default_def and_then_def draw_def outcome_def on_db_def throw_def Let_def split: sum.splits option.splits)
      have "access r = Open" "lifecycle r = Active" "n' = n4\<lparr>gates := insert default_channel (gates n4)\<rparr>"
        using run get y c Inl e again y'
        by (auto simp: ensure_default_def and_then_def draw_def outcome_def on_db_def throw_def ok_def gate_def modify_def Let_def
            split: if_splits)
      with default_get [OF n3(1) again] y' fin [of n4 r] show ?thesis by simp
    qed
  qed
qed

text \<open>The stages of a successful opening.\<close>

lemma services_stages:
  assumes "open_services E config S n = (Inr fw, n')"
  obtains n2 n3 t l r c m where "ensure_default S (cfg_default_expiry_seconds config) n = (Inr (), n2)"
    and "resume_deletions S n2 = (Inr (), n3)"
    and "reconcile S (n3\<lparr>draws := t, space := l, recent := r, maintenance_cursor := c, stats := m\<rparr>) = (Inr (), n')"
  using assms unfolding open_services_def Semaphore_new_def
  by (elim and_then_E) (auto simp: map_err_Inr lift_Inr draw_def modify_def ok_def throw_def elim!: and_then_E split: prod.splits if_splits)

lemma open_stages:
  assumes E: "environment_ok E" and run: "open_internal E config n = (Inr fw, n')"
  obtains n1 where "view (opened_service E config) n1 = view (opened_service E config) n"
    and "files (env_fsys E) (disk n1) = files (env_fsys E) (disk n)"
    and "valid (opened_service E config) n \<Longrightarrow> valid (opened_service E config) n1"
    and "open_services E config (opened_service E config) n1 = (Inr fw, n')"
proof -
  let ?S = "opened_service E config"
  from run obtain f1 d2 f3 where dir: "create_dir_all (env_fsys E) (cfg_data_dir config) (disk n) = (Inr (), f1)"
    and rocks: "RocksMetadata_open E (cfg_data_dir config @ [''metadata'']) (db n) = (Inr (), d2)"
    and root: "create_dir_all (env_fsys E) (cfg_data_dir config @ [''artifacts'']) f1 = (Inr (), f3)"
    and rest: "open_services E config ?S (n\<lparr>db := d2, disk := f3\<rparr>) = (Inr fw, n')"
    unfolding open_internal_def
    by (auto simp: map_err_Inr lift_Inr ArtifactFiles_open_def io_def on_disk_def on_db_def ok_def opened_files_def
        elim!: and_then_E split: prod.splits)
  note same = rocks_open_contents [OF E rocks]
  have "view ?S (n\<lparr>db := d2, disk := f3\<rparr>) = view ?S n" using same by (simp add: db_view_def abs_store_def)
  moreover have "files (env_fsys E) f3 = files (env_fsys E) (disk n)"
  proof -
    have "frame (env_fsys E) {} (create_dir_all (env_fsys E) p)" for p
      using E by (simp add: environment_ok_def fs_ok_def frames_ok_def)
    with dir root show ?thesis unfolding frame_def by (metis (no_types) empty_iff ext)
  qed
  moreover have "valid ?S (n\<lparr>db := d2, disk := f3\<rparr>)" if "valid ?S n"
    using that same by (simp add: db_inv_def wf_db_def)
  ultimately show thesis using rest by (intro that [of "n\<lparr>db := d2, disk := f3\<rparr>"]) simp_all
qed

lemma default_added_others:
  assumes "default_added S n n'" and "channels (view S n) ch = Some r"
  shows "channels (view S n') ch = Some r"
  using assms by (auto simp: default_added_def a_put_channel_def)

lemma default_added_same:
  "default_added S n n' \<Longrightarrow> artifacts (view S n') = artifacts (view S n) \<and> references (view S n') = references (view S n)"
  by (auto simp: default_added_def a_put_channel_def)

text \<open>What an opening promises of a channel it found, by the state it found it in.\<close>

definition restored :: "('d, 'f) CacheService \<Rightarrow> ('d, 'f) node \<Rightarrow> ('d, 'f) node \<Rightarrow> ChannelId \<Rightarrow> Lifecycle \<Rightarrow> bool" where
  "restored S n n' ch st \<longleftrightarrow>
     (case st of
        Active \<Rightarrow>
          channels (view S n') ch = channels (view S n) ch
        \<and> (\<forall>a. artifacts (view S n') (ch, a) = artifacts (view S n) (ch, a)
             \<and> (artifacts (view S n) (ch, a) \<noteq> None \<longrightarrow> body_at S n' ch a = body_at S n ch a))
        \<and> (\<forall>name. references (view S n') (ch, name) = references (view S n) (ch, name))
      | Deleting \<Rightarrow>
          channels (view S n') ch = None
        \<and> (\<forall>a. artifacts (view S n') (ch, a) = None \<and> body_at S n' ch a = None)
        \<and> (\<forall>name. references (view S n') (ch, name) = None))"

lemma restored_cong:
  "view S n1 = view S n \<Longrightarrow> files (fsys S) (disk n1) = files (fsys S) (disk n) \<Longrightarrow> restored S n1 n' ch st = restored S n n' ch st"
  unfolding restored_def by (cases st) simp_all

lemma services_restore:
  fixes S :: "('d, 'f) CacheService"
  assumes env: "env_ok S" and v: "valid S n" and run: "open_services E config S n = (Inr fw, n')"
  shows "default_there S n' \<and> (\<forall>ch r. channels (view S n') ch = Some r \<longrightarrow> lifecycle r = Active)
    \<and> (\<forall>ch r. channels (view S n) ch = Some r \<longrightarrow> restored S n n' ch (lifecycle r))"
proof (rule services_stages [OF run])
  fix n2 n3 :: "('d, 'f) node" and t l r c m
  let ?n4 = "n3\<lparr>draws := t, space := l, recent := r, maintenance_cursor := c, stats := m\<rparr>"
  assume ens: "ensure_default S (cfg_default_expiry_seconds config) n = (Inr (), n2)"
    and res: "resume_deletions S n2 = (Inr (), n3)" and rec: "reconcile S ?n4 = (Inr (), n')"
  have d: "default_added S n n2" "default_there S n2" "valid S n2"
    using default_effect [OF v ens] by (auto simp: default_added_def)
  note e = resume_effect [OF env d(3) res]
  have "valid S ?n4" using e by simp
  from reconcile_effect [OF env this rec] have k: "recovery_kept S ?n4 n'" by simp
  have view: "view S n' = view S n3" using k by (simp add: recovery_kept_def)
  have active: "others_same S (- {ch}) n2 n3" if "channels (view S n2) ch = Some x" "lifecycle x = Active" for ch x
    using e that by blast
  have "default_there S n'"
    using d(2) active [of default_channel] view by (auto simp: default_there_def others_same_def)
  moreover have "\<forall>ch x. channels (view S n') ch = Some x \<longrightarrow> lifecycle x = Active" using e view by simp
  moreover have "restored S n n' ch (lifecycle x)" if x: "channels (view S n) ch = Some x" for ch x
  proof (cases "lifecycle x")
    case Active
    from active [OF default_added_others [OF d(1) x] Active]
    have same: "channels (view S n3) ch = channels (view S n2) ch" "artifacts (view S n3) (ch, a) = artifacts (view S n2) (ch, a)"
      "references (view S n3) (ch, name) = references (view S n2) (ch, name)" "body_at S n3 ch a = body_at S n2 ch a" for a name
      by (auto simp: others_same_def artifact_path_def Let_def)
    have "disk n2 = disk n" using d(1) by (simp add: default_added_def)
    with same default_added_same [OF d(1)] default_added_others [OF d(1) x] k view x Active show ?thesis
      by (simp add: restored_def recovery_kept_def)
  next
    case Deleting
    with e default_added_others [OF d(1) x] have "channels (view S n3) ch = None" and gone: "data_gone S ch n3" by auto
    moreover have "body_at S ?n4 ch a = None" for a
      using gone by (simp add: data_gone_def artifact_path_def Let_def)
    ultimately show ?thesis
      using k view Deleting fewer_bodies_None [of S ?n4 n' ch] by (simp add: restored_def recovery_kept_def data_gone_def)
  qed
  ultimately show ?thesis by blast
qed

text \<open>
  C14. A shard that opens has recovered. Whatever its data directory held, as long as it
  satisfies the durable invariant: the default channel exists, is open and active; no
  channel is left half deleted, and of one that was, nothing is left; every channel that
  was active keeps its record, its artifacts with their bodies and its references; the new
  ledger holds no reservation and the node satisfies the invariant the services need.
\<close>

theorem opening_recovers:
  assumes "environment_ok E" and "durable_ok E (cfg_data_dir config) d f" and "cfg_bloom_bits config < 2 ^ 63"
    and "open_internal E config (boot_node config d f t) = (Inr fw, n)"
  shows "default_there (shard (app_state fw)) n
    \<and> (\<forall>ch r. channels (view (shard (app_state fw)) n) ch = Some r \<longrightarrow> lifecycle r = Active)
    \<and> (\<forall>ch r. channels (view (shard (app_state fw)) (boot_node config d f t)) ch = Some r \<longrightarrow>
         restored (shard (app_state fw)) (boot_node config d f t) n ch (lifecycle r))
    \<and> node_ok (shard (app_state fw)) 0 n \<and> reserved (state (space n)) = 0"
proof (rule open_stages [OF assms(1,4)])
  let ?S = "opened_service E config" and ?n = "boot_node config d f t"
  have fw: "shard (app_state fw) = ?S" and v: "validate (env_web E) (env_has_host E) config = Inr ()"
    using yieldsD [OF open_yields, OF TrueI assms(4)] by blast+
  have s: "sound ?S ?n" by (rule boot_sound [OF assms(2) validated(5) [OF v] assms(3)])
  have ok: "node_ok ?S 0 n" using keepsD [OF open_keeps [OF assms(1,3)] s assms(4)] by (simp add: sound_def)
  fix n1 assume n1: "view ?S n1 = view ?S ?n" "files (env_fsys E) (disk n1) = files (env_fsys E) (disk ?n)"
    "valid ?S ?n \<Longrightarrow> valid ?S n1" "open_services E config ?S n1 = (Inr fw, n)"
  have "valid ?S n1" using s n1(3) by (simp add: sound_def stocked_def)
  from services_restore [OF opened_env [OF assms(1)] this n1(4)] n1(1,2)
  have "default_there ?S n \<and> (\<forall>ch r. channels (view ?S n) ch = Some r \<longrightarrow> lifecycle r = Active)
    \<and> (\<forall>ch r. channels (view ?S ?n) ch = Some r \<longrightarrow> restored ?S ?n n ch (lifecycle r))"
    using restored_cong [of ?S n1 ?n] by simp
  moreover have "reserved (state (space n)) = 0" using ok by (simp add: node_ok_def ledger_held_def unat_eq_0)
  ultimately show ?thesis using ok unfolding fw by blast
qed

theorem opening_recovers_witness:
  "\<exists>fw n. open_internal demo_environment demo_config (boot_node demo_config [] demo_empty_disk 0) = (Inr fw, n)
     \<and> default_there (shard (app_state fw)) n"
proof -
  obtain fw n where run: "open_internal demo_environment demo_config (boot_node demo_config [] demo_empty_disk 0) = (Inr fw, n)"
    using demo_opens by blast
  have "durable_ok demo_environment (cfg_data_dir demo_config) [] demo_empty_disk"
    by (rule durable_empty [OF demo_environment_ok]) (simp_all add: demo_empty_disk_def demo_rocks_def demo_contents_def fun_eq_iff)
  from opening_recovers [OF demo_environment_ok this _ run] run show ?thesis by auto
qed

section \<open>Runs from an empty directory\<close>

text \<open>Every state a shard reaches from an empty store and disk, by starts, stops, requests and passes in any order.\<close>

definition reached :: "('d, 'f) environment \<Rightarrow> Path \<Rightarrow> 'w getter \<Rightarrow> (string \<Rightarrow> f32 option) \<Rightarrow> ('d, 'f, 'w) server \<Rightarrow> bool" where
  "reached E dir get pf s \<longleftrightarrow>
     (\<exists>d f t. contents (env_meta E) d = (\<lambda>_ _. None) \<and> (\<forall>p. files (env_fsys E) f p = None)
        \<and> (server_step E dir get pf)\<^sup>*\<^sup>* (Down d f t) s)"

lemma reached_ok: "environment_ok E \<Longrightarrow> get_fits get \<Longrightarrow> reached E dir get pf s \<Longrightarrow> server_ok E dir s"
  unfolding reached_def by (metis durable_empty server_ok.simps(1) server_runs_ok)

definition demo_shard :: "(demo_db, demo_disk) Flywheel" where
  "demo_shard = projr (fst (open_internal demo_environment demo_config (boot_node demo_config [] demo_empty_disk 0)))"

definition demo_serving :: "(demo_db, demo_disk, Url list) app_world" where
  "demo_serving =
     opened_world demo_config (snd (open_internal demo_environment demo_config (boot_node demo_config [] demo_empty_disk 0))) []"

lemma demo_opened:
  "open_internal demo_environment demo_config (boot_node demo_config [] demo_empty_disk 0) = (Inr demo_shard, app_node demo_serving)"
  using demo_opens by (auto simp: demo_shard_def demo_serving_def opened_world_def)

lemma demo_reached: "reached demo_environment [''data''] demo_get pf (Up demo_shard demo_serving)"
proof -
  have "server_step demo_environment [''data''] demo_get pf (Down [] demo_empty_disk 0)
      (Up demo_shard (opened_world demo_config (app_node demo_serving) []))"
    by (rule server_step.started [OF _ _ demo_opened]) simp_all
  then have "(server_step demo_environment [''data''] demo_get pf)\<^sup>*\<^sup>* (Down [] demo_empty_disk 0) (Up demo_shard demo_serving)"
    by (simp add: demo_serving_def opened_world_def)
  then show ?thesis
    unfolding reached_def
    by (intro exI [of _ "[]"] exI [of _ demo_empty_disk] exI [of _ 0])
      (auto simp: demo_empty_disk_def demo_rocks_def demo_contents_def fun_eq_iff)
qed

lemma demo_shard_config: "app_config demo_shard = demo_config"
  using yieldsD [OF open_yields, OF TrueI demo_opened] by blast

text \<open>
  C17. Whatever a shard has been asked since it first started on an empty directory, across
  restarts and failed starts: its store holds only references under names a client may
  choose or the build cache and the proxy make, only content types that are header values,
  and only channels with a positive expiry; every row of the store is well-formed, every
  body on disk has the digest its path says, and no capacity is held.
\<close>

theorem served_store_well_typed:
  assumes "environment_ok E" and "get_fits get" and "reached E dir get pf (Up fw w)"
  shows "well_typed (ids (shard (app_state fw))) (view (shard (app_state fw)) (app_node w))
    \<and> node_ok (shard (app_state fw)) 0 (app_node w)"
  using reached_ok [OF assms] by (auto simp: sound_def stocked_def)

theorem served_store_well_typed_witness:
  "well_typed (ids (shard (app_state demo_shard))) (view (shard (app_state demo_shard)) (app_node demo_serving))"
  using served_store_well_typed [OF demo_environment_ok demo_get_fits demo_reached] by blast

text \<open>
  C15. No request makes a handler panic: in every reachable state, every request whose chunks
  fit in memory is answered, whatever its route, method, headers and body, and however many
  times the client polls the response. In particular every header a handler computes from
  stored data is a valid header value.
\<close>

theorem requests_never_panic:
  assumes "environment_ok E" and "get_fits get" and "reached E dir get pf (Up fw w)" and "chunks_fit (req_body request)"
  shows "\<exists>resp w'. count_request (app_state fw) get pf polls route request w = (Some resp, w')"
proof -
  let ?A = "app_state fw"
  have stock: "stocked (shard ?A) (app_node w)" and hex: "hex_ok (ids (shard ?A))"
    using reached_ok [OF assms(1-3)] assms(1) by (auto simp: sound_def environment_ok_def)
  obtain resp w' where run: "count_request ?A get pf polls route request w = (resp, w')" by fastforce
  then show ?thesis
  proof (rule count_request_E)
    fix m answer w1 assume r: "respond (router ?A get pf route request) (counted_in w m) = (answer, w1)"
      and after: "after_request polls request answer w1 resp w'"
    have "stocked (shard ?A) (app_node (counted_in w m))" using stock by (simp add: counted_in_def on_node_def stocked_def)
    with router_calm [OF hex assms(4), where get = get and pf = pf and route = route]
    have "router ?A get pf route request (counted_in w m) \<noteq> (Inl Panic, w1)" by (simp add: calm_def)
    with r have "answer \<noteq> None" by (auto simp: respond_def split: prod.splits sum.splits Exit.splits)
    with after run show ?thesis by (auto simp: after_request_def split: option.splits)
  qed
qed

theorem requests_never_panic_witness:
  "fst (count_request (app_state demo_shard) demo_get (\<lambda>_. None) 3 (Data None (ArtifactsAt ''sha256'' ''00'')) demo_download demo_serving)
     \<noteq> None"
proof -
  have "chunks_fit (req_body demo_download)" by (simp add: demo_download_def chunks_fit_def)
  from requests_never_panic [OF demo_environment_ok demo_get_fits demo_reached this] show ?thesis by (metis fst_conv option.discI)
qed

text \<open>
  C16. Foreground permits are never lost: in every reachable state in which no request is
  running, exactly the configured number of permits is free and the gauge of requests in
  flight is zero; and one more request, whatever it is, how it ends and when the client
  drops the response, leaves both as they were.
\<close>

theorem foreground_permits_return:
  assumes "environment_ok E" and "get_fits get" and "reached E dir get pf (Up fw w)"
    and "count_request (app_state fw) get pf polls route request w = (resp, w')"
  shows "foreground w = cfg_foreground_concurrency (app_config fw) \<and> 0 < foreground w \<and> gauge_of w = 0
    \<and> foreground w' = foreground w \<and> gauge_of w' = 0"
  using reached_ok [OF assms(1-3)] request_settles [OF assms(4)] by auto

theorem foreground_permits_return_witness:
  "foreground (snd (count_request (app_state demo_shard) demo_get (\<lambda>_. None) 3 (Data None (ArtifactsAt ''sha256'' ''00''))
     demo_download demo_serving)) = 256"
  using foreground_permits_return [OF demo_environment_ok demo_get_fits demo_reached surjective_pairing] by (simp add: demo_shard_config)

section \<open>The maintenance burst\<close>

text \<open>
  C18. A maintenance burst returns. Under disk pressure it runs pass after pass, and other
  tasks may change the node between passes in any way that keeps the invariant; but once
  the cancellation token is set and stays set the loop ends, whatever the disk, the store
  and the controller do, and the node it leaves satisfies the invariant.
\<close>

theorem burst_returns:
  assumes "env_ok (shard (app_state fw))" and "sound (shard (app_state fw)) n"
    and "\<And>i m. sound (shard (app_state fw)) m \<Longrightarrow> sound (shard (app_state fw)) (meanwhile i m)"
    and "\<And>i. T \<le> i \<Longrightarrow> cancelled i"
  shows "\<exists>n'. run_maintenance_burst fw cancelled meanwhile t n = Some n' \<and> sound (shard (app_state fw)) n'"
  using assms(2)
proof (induction "T - t" arbitrary: t n rule: less_induct)
  case less
  obtain k n1 where pass: "flywheel_maintenance_once fw n = (k, n1)" by fastforce
  have n1: "sound (shard (app_state fw)) n1" by (rule keepsD [OF maintenance_pass(1) [OF assms(1)] less.prems pass])
  obtain b n2 where ctl: "is_reclaiming n1 = (b, n2)" by fastforce
  have n2: "sound (shard (app_state fw)) n2" by (rule keepsD [OF service_sound(6) [OF assms(1)] n1 ctl])
  show ?case
  proof (cases "cancelled t")
    case True
    with pass ctl n1 n2 show ?thesis
      by (subst run_maintenance_burst.simps) (auto split: sum.split)
  next
    case False
    then have "T - (t + 2) < T - t" using assms(4) [of t] by (cases "T \<le> t") auto
    from less.hyps [OF this assms(3) [OF n2, of t]] pass ctl n1 n2 show ?thesis
      by (subst run_maintenance_burst.simps) (auto split: sum.split)
  qed
qed

theorem burst_returns_witness:
  "\<exists>n'. run_maintenance_burst demo_shard (\<lambda>i. 6 \<le> i) (\<lambda>_ n. n) 0 (app_node demo_serving) = Some n'
     \<and> node_ok (shard (app_state demo_shard)) 0 n'"
proof -
  have up: "server_ok demo_environment [''data''] (Up demo_shard demo_serving)"
    by (rule reached_ok [OF demo_environment_ok demo_get_fits demo_reached])
  have "env_ok (shard (app_state demo_shard))" using up opened_env [OF demo_environment_ok] by auto
  from burst_returns [OF this, where n = "app_node demo_serving" and meanwhile = "\<lambda>_ n. n" and T = 6 and t = 0
      and cancelled = "\<lambda>i. 6 \<le> i"] up
  show ?thesis by (auto simp: sound_def)
qed

text \<open>
  A limit of zero bytes per pass is accepted by \<open>validate\<close>, which refuses a limit of zero
  candidates; with it no pass reclaims anything, whatever is due and however full the disk.
\<close>

lemma exhausted_reclaims_nothing: "exhausted b \<Longrightarrow> reclaim_channels S md now chs b n = (Inr b, n)"
  by (cases chs) (simp_all add: ok_def)

lemma zero_byte_limit_reclaims_nothing:
  assumes "reclaim_byte_limit S = 0" and "run_maintenance_once S limit n = (Inr k, n')"
  shows "k = 0"
  using assms
  by (auto simp: run_maintenance_once_def exhausted_reclaims_nothing exhausted_def count_def modify_def ok_def elim!: and_then_E)

lemma zero_byte_limit_validates: "validate W h (config\<lparr>cfg_reclaim_byte_limit := limit\<rparr>) = validate W h config"
  by (simp add: validate_def)

section \<open>Configuration\<close>

text \<open>
  The two sets of defaults agree: the configuration the serve command builds from the
  defaults of its arguments is the one \<open>Config::new\<close> gives embedders and tests for the same
  data directory, and it is valid whenever the URL library parses the five upstream URLs;
  and no argument but the listen address is lost on the way, since two argument lists that
  give the same configuration agree in all others.
\<close>

theorem default_configurations_agree:
  "ServeArgs_config (ServeArgs_default\<lparr>arg_data_dir := dir\<rparr>) = Config_new dir
   \<and> (\<forall>W h. (\<forall>u \<in> {''https://proxy.golang.org/'', ''https://pypi.org/simple/'', ''https://registry.npmjs.org/'',
         ''https://index.crates.io/'', ''https://static.crates.io/crates/''}. \<exists>url. url_parse W u = Inr url) \<longrightarrow>
        validate W h (Config_new dir) = Inr ())
   \<and> (\<forall>a b. ServeArgs_config a = ServeArgs_config b \<longrightarrow> a\<lparr>arg_listen := []\<rparr> = b\<lparr>arg_listen := []\<rparr>)"
proof (intro conjI allI impI)
  show "ServeArgs_config (ServeArgs_default\<lparr>arg_data_dir := dir\<rparr>) = Config_new dir"
    by (simp add: ServeArgs_config_def ServeArgs_default_def Config_new_def)
next
  fix W :: web_crates and h
  assume "\<forall>u \<in> {''https://proxy.golang.org/'', ''https://pypi.org/simple/'', ''https://registry.npmjs.org/'',
     ''https://index.crates.io/'', ''https://static.crates.io/crates/''}. \<exists>url. url_parse W u = Inr url"
  then show "validate W h (Config_new dir) = Inr ()"
    by (auto simp: validate_def Config_new_def bind_sum_def ensure_def)
next
  fix a b assume "ServeArgs_config a = ServeArgs_config b"
  then show "a\<lparr>arg_listen := []\<rparr> = b\<lparr>arg_listen := []\<rparr>"
    by (simp add: ServeArgs_config_def)
qed

theorem default_configurations_agree_witness: "validate demo_web (\<lambda>_. True) (Config_new [''data'']) = Inr ()"
proof -
  have "\<forall>u \<in> {''https://proxy.golang.org/'', ''https://pypi.org/simple/'', ''https://registry.npmjs.org/'',
     ''https://index.crates.io/'', ''https://static.crates.io/crates/''}. \<exists>url. url_parse demo_web u = Inr url"
    by (simp add: demo_web_def demo_url_def)
  with default_configurations_agree [of "[''data'']"] show ?thesis by blast
qed

end
