(* ===== verification/Ring.thy ===== *)
theory Ring
  imports Reference_Crates "HOL-Library.Product_Lexorder"
begin

text \<open>
  The routing contract (\<open>src/agent/ring.rs\<close>): the encoding of routing keys and the
  consistent-hash continuum every agent derives from a membership. \<open>owner\<close> finds a
  member by binary search in a sorted array of points; it is shown to compute the member
  of the first point clockwise from the key, a definition on sets that no longer mentions
  order, and the properties of the continuum are read off that.
\<close>

section \<open>Addresses\<close>

text \<open>\<open>std::net::IpAddr\<close> orders every IPv4 address before every IPv6 address, and each kind by its octets.\<close>

datatype IpAddr = V4 u32 | V6 "128 word"

instantiation IpAddr :: linorder
begin

fun less_eq_IpAddr :: "IpAddr \<Rightarrow> IpAddr \<Rightarrow> bool" where
  "less_eq_IpAddr (V4 a) (V4 b) \<longleftrightarrow> a \<le> b"
| "less_eq_IpAddr (V4 a) (V6 b) \<longleftrightarrow> True"
| "less_eq_IpAddr (V6 a) (V4 b) \<longleftrightarrow> False"
| "less_eq_IpAddr (V6 a) (V6 b) \<longleftrightarrow> a \<le> b"

definition less_IpAddr :: "IpAddr \<Rightarrow> IpAddr \<Rightarrow> bool" where
  "less_IpAddr a b \<longleftrightarrow> a \<le> b \<and> \<not> b \<le> a"

instance
proof
  fix x y z :: IpAddr
  show "(x < y) = (x \<le> y \<and> \<not> y \<le> x)" by (simp add: less_IpAddr_def)
  show "x \<le> x" by (cases x) auto
  show "x \<le> y \<Longrightarrow> y \<le> z \<Longrightarrow> x \<le> z" by (cases x; cases y; cases z) auto
  show "x \<le> y \<Longrightarrow> y \<le> x \<Longrightarrow> x = y" by (cases x; cases y) auto
  show "x \<le> y \<or> y \<le> x" by (cases x; cases y) auto
qed

end

record SocketAddr =
  socket_ip :: IpAddr
  socket_port :: u16

section \<open>Routing keys\<close>

definition routing_version :: string where
  "routing_version = ''flywheel-routing-v1''"

definition virtual_nodes :: u16 where
  "virtual_nodes = 160"

fun encode_parts :: "string list \<Rightarrow> bytes \<Rightarrow> bytes option" where
  "encode_parts [] key = Some key"
| "encode_parts (part # parts) key =
     (if length (str_bytes part) < 2 ^ 16
      then encode_parts parts (key @ u16_to_be_bytes (of_nat (length (str_bytes part))) @ str_bytes part)
      else None)"

definition routing_key :: "string \<Rightarrow> string \<Rightarrow> bytes option" where
  "routing_key kind ident = encode_parts [routing_version, kind, ident] []"

definition position :: "crates \<Rightarrow> bytes \<Rightarrow> u64" where
  "position c bs = u64_from_be_bytes (take 8 (sha256 c bs))"

definition key_position :: "crates \<Rightarrow> string \<Rightarrow> string \<Rightarrow> u64 option" where
  "key_position c kind ident = map_option (position c) (routing_key kind ident)"

section \<open>The continuum\<close>

record RingMember =
  member_id :: string
  member_address :: SocketAddr

record Ring =
  ring_members :: "RingMember list"
  ring_points :: "(u64 \<times> nat) list"
  ring_fingerprint :: string

text \<open>\<open>Vec::dedup_by\<close> removes an element that is the same as the last one kept.\<close>

fun dedup_by :: "('a \<Rightarrow> 'a \<Rightarrow> bool) \<Rightarrow> 'a list \<Rightarrow> 'a list" where
  "dedup_by same [] = []"
| "dedup_by same [x] = [x]"
| "dedup_by same (x # y # ys) = (if same y x then dedup_by same (x # ys) else x # dedup_by same (y # ys))"

definition vnode_point :: "crates \<Rightarrow> string \<Rightarrow> u16 \<Rightarrow> u64" where
  "vnode_point c ident v = u64_from_be_bytes (take 8 (sha256 c (str_bytes ident @ u16_to_be_bytes v)))"

definition member_points :: "crates \<Rightarrow> nat \<Rightarrow> RingMember \<Rightarrow> (u64 \<times> nat) list" where
  "member_points c index m = map (\<lambda>v. (vnode_point c (member_id m) (of_nat v), index)) [0..<unat virtual_nodes]"

fun join_with :: "string \<Rightarrow> string list \<Rightarrow> string" where
  "join_with sep [] = []"
| "join_with sep [s] = s"
| "join_with sep (s # t # ts) = s @ sep @ join_with sep (t # ts)"

definition Ring_new :: "crates \<Rightarrow> RingMember list \<Rightarrow> Ring" where
  "Ring_new c members =
     (let members = sort_key member_id members;
          members = dedup_by (\<lambda>a b. member_id a = member_id b) members;
          points = concat (map (\<lambda>(index, m). member_points c index m) (enumerate 0 members));
          points = sort points;
          joined = join_with [CHR 0x0A] (map member_id members)
      in \<lparr>ring_members = members, ring_points = points,
          ring_fingerprint = hex_encode c (sha256 c (str_bytes joined))\<rparr>)"

definition ring_is_empty :: "Ring \<Rightarrow> bool" where
  "ring_is_empty ring \<longleftrightarrow> ring_members ring = []"

text \<open>
  \<open>partition_point\<close> of a slice whose elements satisfying the predicate come first is the
  number of those elements.
\<close>

definition partition_point :: "('a \<Rightarrow> bool) \<Rightarrow> 'a list \<Rightarrow> nat" where
  "partition_point P xs = length (takeWhile P xs)"

definition owner :: "Ring \<Rightarrow> u64 \<Rightarrow> RingMember option" where
  "owner ring pos =
     (if ring_points ring = [] then None
      else
        let index = partition_point (\<lambda>(point, _). point < pos) (ring_points ring) mod length (ring_points ring);
            (_, m) = ring_points ring ! index
        in Some (ring_members ring ! m))"

section \<open>Routing keys are unambiguous\<close>

lemma u16_length_inject:
  assumes "m < 2 ^ 16" and "n < 2 ^ 16" and "(of_nat m :: u16) = of_nat n"
  shows "m = n"
proof -
  have "unat (of_nat m :: u16) = m" by (simp only: unat_of_nat) (use assms(1) in simp)
  moreover have "unat (of_nat n :: u16) = n" by (simp only: unat_of_nat) (use assms(2) in simp)
  ultimately show ?thesis using assms(3) by metis
qed

lemma encode_parts_append: "encode_parts parts (key @ xs) = map_option ((@) key) (encode_parts parts xs)"
  by (induction parts arbitrary: xs) auto

lemma encode_parts_key: "encode_parts parts key = map_option ((@) key) (encode_parts parts [])"
  using encode_parts_append [of parts key "[]"] by simp

lemma encode_parts_inject:
  assumes "length ps = length qs" and "encode_parts ps [] = Some e" and "encode_parts qs [] = Some e"
  shows "ps = qs"
  using assms
proof (induction ps qs arbitrary: e rule: list_induct2)
  case (Cons p ps q qs)
  let ?len = "\<lambda>s. u16_to_be_bytes (of_nat (length (str_bytes s)))"
  from Cons.prems obtain e1 e2 where lens: "length (str_bytes p) < 2 ^ 16" "length (str_bytes q) < 2 ^ 16"
    and e1: "encode_parts ps [] = Some e1" "e = (?len p @ str_bytes p) @ e1"
    and e2: "encode_parts qs [] = Some e2" "e = (?len q @ str_bytes q) @ e2"
    using encode_parts_key [of ps "?len p @ str_bytes p"] encode_parts_key [of qs "?len q @ str_bytes q"]
    by (auto split: if_splits)
  then have "?len p = ?len q" and rest: "str_bytes p @ e1 = str_bytes q @ e2" by auto
  then have "length (str_bytes p) = length (str_bytes q)"
    using u16_length_inject [OF lens] by (simp add: u16_be_inject)
  with rest have "str_bytes p = str_bytes q" "e1 = e2" by auto
  with Cons.IH e1(1) e2(1) show ?case by (simp add: str_bytes_inject)
qed simp

lemma routing_key_inject:
  assumes "routing_key kind ident = Some e" and "routing_key kind' ident' = Some e"
  shows "kind = kind' \<and> ident = ident'"
  using encode_parts_inject [of "[routing_version, kind, ident]" "[routing_version, kind', ident']" e] assms
  by (simp add: routing_key_def)

section \<open>The reference definition\<close>

text \<open>
  All points of a set of members as pairs of a position and a member, and the owner of a
  key: the member of the first point at or after it, or of the first point of all.
\<close>

definition continuum :: "crates \<Rightarrow> string set \<Rightarrow> (u64 \<times> string) set" where
  "continuum c ms = (\<lambda>(i, v). (vnode_point c i (of_nat v), i)) ` (ms \<times> {0..<unat virtual_nodes})"

definition clockwise_owner :: "crates \<Rightarrow> string set \<Rightarrow> u64 \<Rightarrow> string option" where
  "clockwise_owner c ms pos =
     (if ms = {} then None
      else
        let after = {x \<in> continuum c ms. pos \<le> fst x}
        in Some (snd (if after \<noteq> {} then Min after else Min (continuum c ms))))"

lemma finite_continuum: "finite ms \<Longrightarrow> finite (continuum c ms)"
  by (simp add: continuum_def)

lemma continuum_empty: "continuum c ms = {} \<longleftrightarrow> ms = {}"
  by (auto simp: continuum_def virtual_nodes_def)

lemma continuum_member: "x \<in> continuum c ms \<Longrightarrow> snd x \<in> ms"
  by (auto simp: continuum_def)

lemma continuum_remove: "continuum c (ms - {i}) = {x \<in> continuum c ms. snd x \<noteq> i}"
  by (auto simp: continuum_def)

text \<open>Removing a member moves only the keys it owned.\<close>

lemma clockwise_remove:
  assumes fin: "finite ms" and own: "clockwise_owner c ms pos = Some m" and "m \<noteq> i"
  shows "clockwise_owner c (ms - {i}) pos = Some m"
proof -
  let ?C = "continuum c ms" and ?D = "continuum c (ms - {i})"
  let ?after = "{x \<in> ?C. pos \<le> fst x}" and ?after' = "{x \<in> ?D. pos \<le> fst x}"
  have ms: "ms \<noteq> {}" using own by (auto simp: clockwise_owner_def)
  have keep: "Min {x \<in> A. snd x \<noteq> i} = Min A" if "finite A" "A \<noteq> {}" "snd (Min A) \<noteq> i" for A :: "(u64 \<times> string) set"
    using that by (intro Min_eqI) auto
  define y where "y = (if ?after \<noteq> {} then Min ?after else Min ?C)"
  have m: "m = snd y" using own ms by (auto simp: clockwise_owner_def Let_def y_def)
  have y: "y \<in> ?C"
  proof (cases "?after = {}")
    case True
    then show ?thesis using Min_in [OF finite_continuum [OF fin]] ms continuum_empty by (auto simp: y_def)
  next
    case False
    have "finite ?after" using finite_continuum [OF fin] by simp
    from Min_in [OF this False] False show ?thesis by (auto simp: y_def)
  qed
  then have yD: "y \<in> ?D" using m assms(3) by (simp add: continuum_remove)
  then have ne: "ms - {i} \<noteq> {}" using continuum_empty by blast
  have eq: "?after' = {x \<in> ?after. snd x \<noteq> i}" by (auto simp: continuum_remove)
  show ?thesis
  proof (cases "?after = {}")
    case True
    then have "?after' = {}" unfolding eq by blast
    moreover have "Min ?D = Min ?C"
      unfolding continuum_remove
      by (rule keep) (use True y_def m assms(3) finite_continuum [OF fin] ms continuum_empty in auto)
    ultimately show ?thesis using True ne m by (simp add: clockwise_owner_def Let_def y_def)
  next
    case False
    have fa: "finite ?after" using finite_continuum [OF fin] by simp
    have "Min ?after' = Min ?after" unfolding eq
      by (rule keep [OF fa False]) (use False y_def m assms(3) in simp)
    moreover have "Min ?after \<in> ?after'"
      using Min_in [OF fa False] False m assms(3) unfolding eq y_def by auto
    then have "?after' \<noteq> {}" by blast
    ultimately show ?thesis using False ne m by (simp add: clockwise_owner_def Let_def y_def)
  qed
qed

section \<open>The search computes the reference\<close>

lemma first_after:
  fixes xs :: "'a::linorder list"
  assumes sorted: "sorted xs" and ne: "xs \<noteq> []" and down: "\<And>x y. x \<le> y \<Longrightarrow> P y \<Longrightarrow> P x"
  shows "xs ! (partition_point P xs mod length xs)
    = (if {x \<in> set xs. \<not> P x} \<noteq> {} then Min {x \<in> set xs. \<not> P x} else Min (set xs))"
proof (cases "\<forall>x \<in> set xs. P x")
  case True
  then have "takeWhile P xs = xs" by (simp add: takeWhile_eq_all_conv)
  then have "xs ! (partition_point P xs mod length xs) = xs ! 0" by (simp only: partition_point_def mod_self)
  also have "\<dots> = Min (set xs)"
    using sorted ne by (intro Min_eqI [symmetric]) (auto simp: in_set_conv_nth intro: sorted_nth_mono)
  finally show ?thesis using True by auto
next
  case False
  let ?n = "length (takeWhile P xs)"
  have "takeWhile P xs \<noteq> xs" using False by (simp add: takeWhile_eq_all_conv)
  then have n: "?n < length xs"
    using length_takeWhile_le [of P xs] takeWhile_eq_take [of P xs] by (metis le_neq_implies_less take_all order_refl)
  then have "\<not> P (xs ! ?n)" by (rule nth_length_takeWhile)
  moreover have "xs ! ?n \<le> y" if y: "y \<in> set xs" "\<not> P y" for y
  proof -
    from y(1) obtain j where j: "j < length xs" "y = xs ! j" by (auto simp: in_set_conv_nth)
    have "\<not> j < ?n" using y(2) j(2) by (metis set_takeWhileD takeWhile_nth nth_mem)
    with j sorted show ?thesis by (simp add: sorted_nth_mono)
  qed
  ultimately have "Min {x \<in> set xs. \<not> P x} = xs ! ?n" using n by (intro Min_eqI) auto
  with False n show ?thesis by (auto simp: partition_point_def)
qed

text \<open>Removing equal neighbours from a list sorted by a key leaves each key once.\<close>

lemma dedup_by_set: "set (dedup_by same xs) \<subseteq> set xs"
  by (induction same xs rule: dedup_by.induct) auto

lemma dedup_by_keys: "f ` set (dedup_by (\<lambda>a b. f a = f b) xs) = f ` set xs"
  by (induction "\<lambda>a b. f a = f b" xs rule: dedup_by.induct) auto

lemma dedup_by_strict:
  fixes f :: "'a \<Rightarrow> 'b::linorder"
  shows "sorted (map f xs) \<Longrightarrow> sorted_wrt (<) (map f (dedup_by (\<lambda>a b. f a = f b) xs))"
proof (induction "\<lambda>a b. f a = f b" xs rule: dedup_by.induct)
  case (3 x y ys)
  let ?dedup = "dedup_by (\<lambda>a b. f a = f b)"
  show ?case
  proof (cases "f y = f x")
    case True
    with 3 show ?thesis by simp
  next
    case False
    then have "f x < f y" using 3(3) by (simp add: less_le)
    moreover have "f y \<le> f z" if "z \<in> set (?dedup (y # ys))" for z
      using 3(3) that dedup_by_set [of "\<lambda>a b. f a = f b" "y # ys"] by auto
    ultimately have "\<forall>z \<in> set (?dedup (y # ys)). f x < f z" by force
    with False 3 show ?thesis by auto
  qed
qed simp_all

lemma dedup_by_id: "sorted_wrt (<) (map f xs) \<Longrightarrow> dedup_by (\<lambda>a b. f a = f b) xs = xs"
  for f :: "'a \<Rightarrow> 'b::linorder"
  by (induction "\<lambda>a b. f a = f b" xs rule: dedup_by.induct) auto

abbreviation same_id :: "RingMember \<Rightarrow> RingMember \<Rightarrow> bool" where
  "same_id a b \<equiv> member_id a = member_id b"

definition canonical :: "RingMember list \<Rightarrow> RingMember list" where
  "canonical ms = dedup_by same_id (sort_key member_id ms)"

lemma canonical_strict: "sorted_wrt (<) (map member_id (canonical ms))"
  unfolding canonical_def by (rule dedup_by_strict) simp

lemma canonical_ids: "member_id ` set (canonical ms) = member_id ` set ms"
  by (simp add: canonical_def dedup_by_keys)

lemma canonical_subset: "set (canonical ms) \<subseteq> set ms"
  using dedup_by_set [of same_id "sort_key member_id ms"] by (simp add: canonical_def)

lemma canonical_id: "sorted_wrt (<) (map member_id ms) \<Longrightarrow> canonical ms = ms"
  by (simp add: canonical_def dedup_by_id sorted_sort_id strict_sorted_imp_sorted sort_key_id_if_sorted)

lemma ring_members_new: "ring_members (Ring_new c ms) = canonical ms"
  by (simp add: Ring_new_def canonical_def Let_def)

lemma ring_points_sorted: "sorted (ring_points (Ring_new c ms))"
  by (simp add: Ring_new_def Let_def)

lemma set_enumerate_nth: "set (enumerate 0 xs) = {(i, xs ! i) | i. i < length xs}"
  by (force simp: in_set_enumerate_eq)

lemma ring_points_set:
  "set (ring_points (Ring_new c ms)) =
     {(vnode_point c (member_id (canonical ms ! i)) (of_nat v), i) | i v.
        i < length (canonical ms) \<and> v < unat virtual_nodes}"
  by (fastforce simp: Ring_new_def Let_def canonical_def [symmetric] member_points_def in_set_enumerate_eq
      set_enumerate_nth)

text \<open>Sorting by index breaks ties between equal points the way sorting by identity does.\<close>

definition named :: "RingMember list \<Rightarrow> u64 \<times> nat \<Rightarrow> u64 \<times> string" where
  "named ms x = (fst x, member_id (canonical ms ! snd x))"

lemma named_points: "named ms ` set (ring_points (Ring_new c ms)) = continuum c (member_id ` set ms)"
proof -
  have "member_id ` set ms = {member_id (canonical ms ! i) | i. i < length (canonical ms)}"
    unfolding canonical_ids [of ms, symmetric] set_conv_nth [of "canonical ms"] by auto
  then show ?thesis by (fastforce simp: ring_points_set continuum_def named_def image_iff)
qed

lemma named_mono:
  assumes "x \<in> set (ring_points (Ring_new c ms))" and "y \<in> set (ring_points (Ring_new c ms))" and "x \<le> y"
  shows "named ms x \<le> named ms y"
proof -
  have "member_id (canonical ms ! i) < member_id (canonical ms ! j)" if "i < j" "j < length (canonical ms)" for i j
    using canonical_strict [of ms] that by (simp add: sorted_wrt_iff_nth_less)
  then have "member_id (canonical ms ! i) \<le> member_id (canonical ms ! j)" if "i \<le> j" "j < length (canonical ms)" for i j
    using that by (cases "i = j") (auto simp: less_imp_le)
  with assms show ?thesis by (auto simp: ring_points_set named_def less_eq_prod_def)
qed

lemma named_Min:
  assumes "A \<subseteq> set (ring_points (Ring_new c ms))" and "A \<noteq> {}"
  shows "Min (named ms ` A) = named ms (Min A)"
proof -
  have fin: "finite A" using assms(1) by (rule finite_subset) simp
  have "named ms (Min A) \<le> y" if "y \<in> named ms ` A" for y
    using that named_mono [of "Min A" c ms] Min_in [OF fin assms(2)] Min_le [OF fin] assms(1) by blast
  then show ?thesis using fin Min_in [OF fin assms(2)] by (intro Min_eqI) auto
qed

lemma owner_clockwise:
  "map_option member_id (owner (Ring_new c ms) pos) = clockwise_owner c (member_id ` set ms) pos"
proof (cases "ms = []")
  case True
  then show ?thesis by (simp add: owner_def clockwise_owner_def Ring_new_def)
next
  case False
  let ?ps = "ring_points (Ring_new c ms)" and ?C = "continuum c (member_id ` set ms)"
  let ?after = "{x \<in> set ?ps. \<not> (case x of (point, _) \<Rightarrow> point < pos)}"
  have C: "?C = named ms ` set ?ps" by (rule named_points [symmetric])
  have ps: "?ps \<noteq> []" using named_points [of ms c] continuum_empty [of c "member_id ` set ms"] False by force
  have after: "{x \<in> ?C. pos \<le> fst x} = named ms ` ?after"
    unfolding C by (auto simp: named_def not_less)
  have mins: "Min (named ms ` ?after) = named ms (Min ?after)" if "?after \<noteq> {}"
    using that by (intro named_Min) auto
  let ?x = "?ps ! (partition_point (\<lambda>(point, _). point < pos) ?ps mod length ?ps)"
  have "?x = (if ?after \<noteq> {} then Min ?after else Min (set ?ps))"
    by (rule first_after [OF ring_points_sorted ps]) (auto simp: less_eq_prod_def)
  moreover have "map_option member_id (owner (Ring_new c ms) pos) = Some (snd (named ms ?x))"
    using ps by (simp add: owner_def Let_def named_def ring_members_new case_prod_beta)
  moreover have "clockwise_owner c (member_id ` set ms) pos
      = Some (snd (named ms (if ?after \<noteq> {} then Min ?after else Min (set ?ps))))"
  proof (cases "?after = {}")
    case True
    have "Min ?C = named ms (Min (set ?ps))" unfolding C using ps by (intro named_Min) auto
    moreover have "{x \<in> ?C. pos \<le> fst x} = {}" unfolding after True by simp
    ultimately show ?thesis unfolding clockwise_owner_def Let_def using True False by simp
  next
    case ne: False
    then have "{x \<in> ?C. pos \<le> fst x} \<noteq> {}" unfolding after by blast
    then show ?thesis unfolding clockwise_owner_def Let_def using ne False mins [OF ne] after by simp
  qed
  ultimately show ?thesis by simp
qed

lemma owner_member: "owner (Ring_new c ms) pos = Some m \<Longrightarrow> m \<in> set ms"
proof -
  assume own: "owner (Ring_new c ms) pos = Some m"
  let ?ps = "ring_points (Ring_new c ms)"
  have "?ps \<noteq> []" using own by (auto simp: owner_def)
  then have "?ps ! (partition_point (\<lambda>(point, _). point < pos) ?ps mod length ?ps) \<in> set ?ps" by simp
  then have "m \<in> set (canonical ms)"
    using own \<open>?ps \<noteq> []\<close> by (auto simp: owner_def Let_def ring_members_new ring_points_set split: prod.splits)
  then show ?thesis using canonical_subset by blast
qed

section \<open>Properties\<close>

text \<open>
  C24. Two agents that know the same members agree on every owner: the binary search over
  the sorted points returns the member of the first point clockwise from the key, whatever
  order and however often the members are listed, and it returns one of the members it was
  built from.
\<close>

theorem owner_is_clockwise:
  "map_option member_id (owner (Ring_new c ms) pos) = clockwise_owner c (member_id ` set ms) pos
   \<and> set_option (owner (Ring_new c ms) pos) \<subseteq> set ms"
  using owner_clockwise owner_member by fastforce

text \<open>
  C27. Removing a member from the ring moves only the keys that member owned: every other
  key keeps its owner.
\<close>

theorem removal_moves_only_owned_keys:
  assumes "owner (Ring_new c ms) pos = Some m" and "member_id m \<noteq> i"
  shows "map_option member_id (owner (Ring_new c (filter (\<lambda>m. member_id m \<noteq> i) ms)) pos) = Some (member_id m)"
proof -
  have "clockwise_owner c (member_id ` set ms) pos = Some (member_id m)"
    using assms(1) owner_clockwise [of c ms pos] by simp
  then have "clockwise_owner c (member_id ` set ms - {i}) pos = Some (member_id m)"
    using assms(2) by (intro clockwise_remove) auto
  moreover have "member_id ` set ms - {i} = member_id ` set (filter (\<lambda>m. member_id m \<noteq> i) ms)" by auto
  ultimately show ?thesis unfolding owner_clockwise by simp
qed

definition demo_address :: SocketAddr where
  "demo_address = \<lparr>socket_ip = V4 0x0A000001, socket_port = 8080\<rparr>"

definition demo_members :: "RingMember list" where
  "demo_members = [\<lparr>member_id = ''s1'', member_address = demo_address\<rparr>, \<lparr>member_id = ''s0'', member_address = demo_address\<rparr>]"

lemma be_value_zeros: "be_value (replicate n 0) = 0"
  by (induction n) (simp_all add: be_value_def)

lemma demo_point: "vnode_point demo_crates i v = 0"
proof -
  have "take 8 (sha256 demo_crates bs) = replicate 8 0" for bs by (simp add: demo_crates_def)
  then show ?thesis by (simp add: vnode_point_def u64_from_be_bytes_def be_value_zeros)
qed

lemma demo_owner:
  "owner (Ring_new demo_crates demo_members) 7 = Some \<lparr>member_id = ''s0'', member_address = demo_address\<rparr>"
proof -
  have C: "continuum demo_crates {''s1'', ''s0''} = {(0, ''s1''), (0, ''s0'')}"
    by (auto simp: continuum_def demo_point virtual_nodes_def image_iff intro: gt_ex) (use zero_less_numeral in blast)+
  moreover have "{x \<in> {(0, ''s1''), (0, ''s0'')}. (7::u64) \<le> fst x} = {}" by auto
  ultimately have "clockwise_owner demo_crates {''s1'', ''s0''} 7 = Some ''s0''"
    by (simp only: clockwise_owner_def Let_def) (simp add: less_eq_prod_def min_def)
  then obtain m where m: "owner (Ring_new demo_crates demo_members) 7 = Some m" "member_id m = ''s0''"
    using owner_clockwise [of demo_crates demo_members 7] by (auto simp: demo_members_def)
  then show ?thesis using owner_member [OF m(1)] by (auto simp: demo_members_def)
qed

theorem removal_moves_only_owned_keys_witness:
  "map_option member_id (owner (Ring_new demo_crates (filter (\<lambda>m. member_id m \<noteq> ''s1'') demo_members)) 7) = Some ''s0''"
  using removal_moves_only_owned_keys [OF demo_owner, of "''s1''"] by simp

text \<open>
  The encoding of a routing key is unambiguous: it exists exactly when the kind and the
  identity both fit the 16-bit length prefix, and then equal encodings come from equal kinds
  and identities.
\<close>

theorem routing_key_unambiguous:
  "(routing_key kind ident = None \<longleftrightarrow> 2 ^ 16 \<le> length kind \<or> 2 ^ 16 \<le> length ident)
   \<and> (routing_key kind ident \<noteq> None \<and> routing_key kind ident = routing_key kind' ident'
        \<longrightarrow> kind = kind' \<and> ident = ident')"
proof -
  have "routing_key kind ident = None \<longleftrightarrow> 2 ^ 16 \<le> length kind \<or> 2 ^ 16 \<le> length ident"
    by (auto simp: routing_key_def routing_version_def)
  moreover have "kind = kind' \<and> ident = ident'"
    if ne: "routing_key kind ident \<noteq> None" and eq: "routing_key kind ident = routing_key kind' ident'"
  proof -
    from ne obtain e where "routing_key kind ident = Some e" by blast
    with eq show ?thesis using routing_key_inject by metis
  qed
  ultimately show ?thesis by blast
qed

theorem routing_key_unambiguous_witness:
  "routing_key ''artifact'' ''00'' \<noteq> routing_key ''artifact'' ''01''"
  using routing_key_unambiguous [of "''artifact''" "''00''" "''artifact''" "''01''"] by auto

end
