(* ===== verification/Discovery.thy ===== *)
theory Discovery
  imports Ring
begin

text \<open>
  Discovery and routing state (\<open>src/agent/discovery.rs\<close>): the members the DNS answers
  name, the failure count and retry deadline of each, and the continuum over the members
  that are eligible. Every operation that takes the write lock is one function on
  \<open>RingState\<close>; the clock reading of an operation is its argument \<open>now\<close>. A resolver is a
  record of the two queries the trait has. Durations are natural numbers of nanoseconds.
\<close>

section \<open>Answers\<close>

record SrvRecord =
  srv_target :: string
  srv_port :: u16

type_synonym Duration = nat

definition from_secs :: "nat \<Rightarrow> Duration" where
  "from_secs s = s * 1000000000"

record SrvSnapshot =
  snapshot_records :: "SrvRecord list"
  snapshot_ttl :: Duration

record Resolver =
  resolver_srv :: "string \<Rightarrow> string + SrvSnapshot"
  resolver_ips :: "string \<Rightarrow> string + IpAddr list"

text \<open>What \<open>DnsResolver\<close> makes of the answers of the DNS library, whose lookup is a parameter.\<close>

datatype RData = SRV string u16 | OtherData

datatype NetError = NoRecordsFound "u32 option" | OtherNetError string

record Lookup =
  answers :: "RData list"
  valid_until :: Duration

definition EMPTY_ANSWER_TTL :: Duration where
  "EMPTY_ANSWER_TTL = from_secs 5"

definition srv_records :: "RData list \<Rightarrow> SrvRecord list" where
  "srv_records ds =
     List.map_filter (\<lambda>d. case d of SRV target port \<Rightarrow> Some \<lparr>srv_target = target, srv_port = port\<rparr> | OtherData \<Rightarrow> None) ds"

definition DnsResolver_srv :: "(string \<Rightarrow> NetError + Lookup) \<Rightarrow> Duration \<Rightarrow> string \<Rightarrow> string + SrvSnapshot" where
  "DnsResolver_srv srv_lookup instant name =
     (case srv_lookup name of
        Inr lookup \<Rightarrow>
          Inr \<lparr>snapshot_records = srv_records (answers lookup), snapshot_ttl = valid_until lookup - instant\<rparr>
      | Inl (NoRecordsFound negative_ttl) \<Rightarrow>
          Inr \<lparr>snapshot_records = [],
               snapshot_ttl = (case negative_ttl of None \<Rightarrow> EMPTY_ANSWER_TTL | Some ttl \<Rightarrow> from_secs (unat ttl))\<rparr>
      | Inl (OtherNetError error) \<Rightarrow> Inl error)"

definition trim_end_matches :: "char \<Rightarrow> string \<Rightarrow> string" where
  "trim_end_matches x s = rev (dropWhile ((=) x) (rev s))"

definition canonical_member_id :: "string \<Rightarrow> string" where
  "canonical_member_id target = map to_ascii_lowercase (trim_end_matches CHR ''.'' target)"

section \<open>State\<close>

record MemberHealth =
  health_member :: RingMember
  failures :: u32
  next_retry :: "u64 option"

record RingInner =
  members :: "MemberHealth list"
  inner_ring :: Ring
  earliest_retry :: "u64 option"
  last_refresh :: "u64 option"
  last_error :: "string option"

record RingState =
  inner :: RingInner
  failure_limit :: u32
  retry_timeout_seconds :: u64

abbreviation health_id :: "MemberHealth \<Rightarrow> string" where
  "health_id h \<equiv> member_id (health_member h)"

definition RingState_new :: "crates \<Rightarrow> u32 \<Rightarrow> u64 \<Rightarrow> RingState" where
  "RingState_new c limit timeout =
     \<lparr>inner = \<lparr>members = [], inner_ring = Ring_new c [], earliest_retry = None, last_refresh = None, last_error = None\<rparr>,
      failure_limit = max limit 1, retry_timeout_seconds = timeout\<rparr>"

text \<open>
  \<open>binary_search_by\<close> halves the range as the standard library does: the lower bound moves
  to the middle unless the element there is greater than the key.
\<close>

fun search_loop :: "('a \<Rightarrow> string) \<Rightarrow> 'a list \<Rightarrow> string \<Rightarrow> nat \<Rightarrow> nat \<Rightarrow> nat" where
  "search_loop f xs key base n =
     (if 1 < n then
        let half = n div 2; mid = base + half
        in search_loop f xs key (if key < f (xs ! mid) then base else mid) (n - half)
      else base)"

declare search_loop.simps [simp del]

definition binary_search :: "('a \<Rightarrow> string) \<Rightarrow> 'a list \<Rightarrow> string \<Rightarrow> nat option" where
  "binary_search f xs key =
     (if xs = [] then None
      else let i = search_loop f xs key 0 (length xs) in if f (xs ! i) = key then Some i else None)"

definition find_member :: "MemberHealth list \<Rightarrow> string \<Rightarrow> MemberHealth option" where
  "find_member ms i = map_option (\<lambda>index. ms ! index) (binary_search health_id ms i)"

definition member_mut :: "MemberHealth list \<Rightarrow> string \<Rightarrow> nat option" where
  "member_mut ms i = binary_search health_id ms i"

text \<open>The pass of \<open>rebuild\<close> over the members: what each becomes, the eligible members, the earliest deadline.\<close>

fun rebuild_loop ::
  "u64 \<Rightarrow> u64 option \<Rightarrow> RingMember list \<Rightarrow> MemberHealth list \<Rightarrow> MemberHealth list \<times> RingMember list \<times> u64 option" where
  "rebuild_loop now earliest eligible [] = ([], eligible, earliest)"
| "rebuild_loop now earliest eligible (health # rest) =
     (case next_retry health of
        Some deadline \<Rightarrow>
          (if deadline \<le> now then
             (let health = health\<lparr>next_retry := None, failures := 0\<rparr>;
                  (ms, eligible, earliest) = rebuild_loop now earliest (eligible @ [health_member health]) rest
              in (health # ms, eligible, earliest))
           else
             (let earliest = Some (case earliest of None \<Rightarrow> deadline | Some soonest \<Rightarrow> min soonest deadline);
                  (ms, eligible, earliest) = rebuild_loop now earliest eligible rest
              in (health # ms, eligible, earliest)))
      | None \<Rightarrow>
          (let (ms, eligible, earliest) = rebuild_loop now earliest (eligible @ [health_member health]) rest
           in (health # ms, eligible, earliest)))"

definition rebuild :: "crates \<Rightarrow> u64 \<Rightarrow> RingInner \<Rightarrow> RingInner" where
  "rebuild c now inn =
     (let (ms, eligible, earliest) = rebuild_loop now None [] (members inn)
      in inn\<lparr>members := ms, inner_ring := Ring_new c eligible, earliest_retry := earliest\<rparr>)"

section \<open>Operations\<close>

definition no_retry_due :: "u64 \<Rightarrow> RingInner \<Rightarrow> bool" where
  "no_retry_due now inn = (case earliest_retry inn of None \<Rightarrow> True | Some deadline \<Rightarrow> now < deadline)"

text \<open>The section of \<open>ring\<close> under the write lock, which checks again, and the whole operation.\<close>

definition readmit :: "crates \<Rightarrow> u64 \<Rightarrow> RingState \<Rightarrow> Ring \<times> RingState" where
  "readmit c now st =
     (if no_retry_due now (inner st) then (inner_ring (inner st), st)
      else let inn = rebuild c now (inner st) in (inner_ring inn, st\<lparr>inner := inn\<rparr>))"

definition ring :: "crates \<Rightarrow> u64 \<Rightarrow> RingState \<Rightarrow> Ring \<times> RingState" where
  "ring c now st = (if no_retry_due now (inner st) then (inner_ring (inner st), st) else readmit c now st)"

definition record_success :: "string \<Rightarrow> RingState \<Rightarrow> RingState" where
  "record_success i st =
     (if (case find_member (members (inner st)) i of None \<Rightarrow> True | Some found \<Rightarrow> failures found = 0) then st
      else
        case member_mut (members (inner st)) i of
          None \<Rightarrow> st
        | Some index \<Rightarrow>
            st\<lparr>inner := (inner st)\<lparr>members := (members (inner st))[index := (members (inner st) ! index)\<lparr>failures := 0\<rparr>]\<rparr>\<rparr>)"

definition record_failure :: "crates \<Rightarrow> u64 \<Rightarrow> string \<Rightarrow> RingState \<Rightarrow> bool \<times> RingState" where
  "record_failure c now i st =
     (let inn = inner st
      in case member_mut (members inn) i of
           None \<Rightarrow> (False, st)
         | Some index \<Rightarrow>
             (let found = members inn ! index;
                  found = found\<lparr>failures := saturating_add (failures found) 1\<rparr>
              in if next_retry found \<noteq> None \<or> failures found < failure_limit st
                 then (False, st\<lparr>inner := inn\<lparr>members := (members inn)[index := found]\<rparr>\<rparr>)
                 else
                   let found = found\<lparr>next_retry := Some (now + retry_timeout_seconds st)\<rparr>
                   in (True, st\<lparr>inner := rebuild c now (inn\<lparr>members := (members inn)[index := found]\<rparr>)\<rparr>)))"

definition carry_health :: "MemberHealth list \<Rightarrow> RingMember \<Rightarrow> MemberHealth" where
  "carry_health ms m =
     (let previous = map_option (\<lambda>index. ms ! index) (member_mut ms (member_id m))
      in \<lparr>health_member = m,
          failures = (case previous of None \<Rightarrow> 0 | Some health \<Rightarrow> failures health),
          next_retry = Option.bind previous next_retry\<rparr>)"

definition apply_snapshot :: "crates \<Rightarrow> u64 \<Rightarrow> RingMember list \<Rightarrow> RingState \<Rightarrow> RingState" where
  "apply_snapshot c now discovered st =
     (let ms = map (carry_health (members (inner st))) discovered;
          ms = sort_key health_id ms;
          ms = dedup_by (\<lambda>a b. health_id a = health_id b) ms
      in st\<lparr>inner := rebuild c now ((inner st)\<lparr>members := ms, last_refresh := Some now, last_error := None\<rparr>)\<rparr>)"

definition record_refresh_error :: "string \<Rightarrow> RingState \<Rightarrow> RingState" where
  "record_refresh_error error st = st\<lparr>inner := (inner st)\<lparr>last_error := Some error\<rparr>\<rparr>"

definition known_addresses :: "RingState \<Rightarrow> (string \<times> SocketAddr) list" where
  "known_addresses st = map (\<lambda>health. (health_id health, member_address (health_member health))) (members (inner st))"

record MemberStatus =
  status_id :: string
  status_address :: SocketAddr
  status_failures :: u32
  status_next_retry :: "u64 option"
  ejected :: bool

record RingStatus =
  fingerprint :: string
  status_last_refresh :: "u64 option"
  status_last_error :: "string option"
  status_members :: "MemberStatus list"

definition ring_status :: "u64 \<Rightarrow> RingState \<Rightarrow> RingStatus" where
  "ring_status now st =
     \<lparr>fingerprint = ring_fingerprint (inner_ring (inner st)), status_last_refresh = last_refresh (inner st),
      status_last_error = last_error (inner st),
      status_members =
        map (\<lambda>health.
               \<lparr>status_id = health_id health, status_address = member_address (health_member health),
                status_failures = failures health, status_next_retry = next_retry health,
                ejected = (case next_retry health of None \<Rightarrow> False | Some deadline \<Rightarrow> now < deadline)\<rparr>)
          (members (inner st))\<rparr>"

section \<open>Refreshing\<close>

definition resolve_member :: "Resolver \<Rightarrow> (string \<rightharpoonup> SocketAddr) \<Rightarrow> SrvRecord \<Rightarrow> RingMember option" where
  "resolve_member resolver known rec =
     (let ident = canonical_member_id (srv_target rec);
          fallback =
            (case known ident of
               Some previous \<Rightarrow>
                 Some \<lparr>member_id = ident, member_address = \<lparr>socket_ip = socket_ip previous, socket_port = srv_port rec\<rparr>\<rparr>
             | None \<Rightarrow> None)
      in case resolver_ips resolver (srv_target rec) of
           Inr ips \<Rightarrow>
             (if ips \<noteq> []
              then Some \<lparr>member_id = ident, member_address = \<lparr>socket_ip = Min (set ips), socket_port = srv_port rec\<rparr>\<rparr>
              else fallback)
         | Inl _ \<Rightarrow> fallback)"

definition refresh_once :: "crates \<Rightarrow> Resolver \<Rightarrow> string \<Rightarrow> u64 \<Rightarrow> RingState \<Rightarrow> (string + Duration) \<times> RingState" where
  "refresh_once c resolver srv_name now st =
     (case resolver_srv resolver srv_name of
        Inl error \<Rightarrow> (Inl error, st)
      | Inr snapshot \<Rightarrow>
          (let known = map_of (rev (known_addresses st));
               ms = List.map_filter (resolve_member resolver known) (snapshot_records snapshot)
           in (Inr (snapshot_ttl snapshot), apply_snapshot c now ms st)))"

text \<open>
  One iteration of the loop of \<open>run\<close>, up to the sleep. \<open>clamp\<close> panics when its bounds are
  crossed and the product of a duration when it is more than a duration can hold, which is
  \<open>None\<close>. \<open>jitter duration low high\<close> is the random draw scaled by tenths;
  the rest of \<open>run\<close> waits for the delay or the cancellation.
\<close>

type_synonym jitter = "Duration \<Rightarrow> nat \<Rightarrow> nat \<Rightarrow> Duration"

definition clamp :: "nat \<Rightarrow> nat \<Rightarrow> nat \<Rightarrow> nat option" where
  "clamp x lo hi = (if lo \<le> hi then Some (if x < lo then lo else if hi < x then hi else x) else None)"

definition DURATION_MAX :: Duration where
  "DURATION_MAX = (2 ^ 64 - 1) * 10 ^ 9 + 999999999"

definition duration_mul :: "Duration \<Rightarrow> nat \<Rightarrow> Duration option" where
  "duration_mul d k = (if d * k \<le> DURATION_MAX then Some (d * k) else None)"

definition minimum :: Duration where
  "minimum = from_secs 1"

definition run_step ::
  "crates \<Rightarrow> jitter \<Rightarrow> Resolver \<Rightarrow> string \<Rightarrow> Duration \<Rightarrow> u64 \<Rightarrow> Duration \<times> RingState \<Rightarrow> (Duration \<times> Duration \<times> RingState) option" where
  "run_step c jitter resolver srv_name refresh_max now = (\<lambda>(backoff, st).
     case refresh_once c resolver srv_name now st of
       (Inr ttl, st) \<Rightarrow>
         (case clamp ttl minimum refresh_max of
            None \<Rightarrow> None
          | Some interval \<Rightarrow> Some (jitter interval 7 9, minimum, st))
     | (Inl error, st) \<Rightarrow>
         (case duration_mul backoff 2 of
            None \<Rightarrow> None
          | Some doubled \<Rightarrow>
              Some (jitter backoff 5 10, max (min doubled refresh_max) minimum, record_refresh_error error st)))"

section \<open>Binary search\<close>

lemma search_loop_finds:
  assumes "sorted_wrt (<) (map f xs)" and "j < length xs" and "f (xs ! j) = key"
    and "base \<le> j" and "j < base + n" and "base + n \<le> length xs"
  shows "search_loop f xs key base n = j"
  using assms
proof (induction f xs key base n rule: search_loop.induct)
  case (1 f xs key base n)
  let ?mid = "base + n div 2"
  have less: "f (xs ! a) < f (xs ! b)" if "a < b" "b < length xs" for a b
    using "1.prems"(1) that by (simp add: sorted_wrt_iff_nth_less)
  show ?case
  proof (cases "1 < n")
    case True
    then have mid: "?mid < length xs" using "1.prems"(6) by simp
    have half: "n div 2 \<le> n - n div 2" by simp
    show ?thesis
    proof (cases "key < f (xs ! ?mid)")
      case lower: True
      have "j < ?mid"
      proof (rule ccontr)
        assume "\<not> j < ?mid"
        then have "f (xs ! ?mid) \<le> f (xs ! j)" using less [of ?mid j] "1.prems"(2) by (cases "j = ?mid") auto
        with lower "1.prems"(3) show False by simp
      qed
      with 1 True lower half show ?thesis by (simp add: search_loop.simps [of f xs key base n] Let_def)
    next
      case upper: False
      have "?mid \<le> j" using less [of j ?mid] mid upper "1.prems"(3) by (meson not_le)
      with 1 True upper show ?thesis by (simp add: search_loop.simps [of f xs key base n] Let_def)
    qed
  next
    case False
    with "1.prems" show ?thesis by (simp add: search_loop.simps)
  qed
qed

lemma search_loop_range: "1 \<le> n \<Longrightarrow> search_loop f xs key base n < base + n"
proof (induction f xs key base n rule: search_loop.induct)
  case (1 f xs key base n)
  show ?case
  proof (cases "1 < n")
    case True
    then have "1 \<le> n - n div 2" by simp
    with "1.IH" [OF True refl refl] True show ?thesis
      by (auto simp: search_loop.simps [of f xs key base n] Let_def split: if_splits)
  qed (use "1.prems" in \<open>simp add: search_loop.simps\<close>)
qed

lemma binary_search_iff:
  assumes "sorted_wrt (<) (map f xs)"
  shows "binary_search f xs key = Some i \<longleftrightarrow> i < length xs \<and> f (xs ! i) = key"
proof (cases "xs = []")
  case False
  then have "search_loop f xs key 0 (length xs) < length xs"
    using search_loop_range [of "length xs" f xs key 0] by (simp add: Suc_leI)
  then show ?thesis using False search_loop_finds [OF assms, of i key 0 "length xs"]
    by (auto simp: binary_search_def Let_def)
qed (simp add: binary_search_def)

lemma binary_search_None:
  assumes "sorted_wrt (<) (map f xs)"
  shows "binary_search f xs key = None \<longleftrightarrow> key \<notin> f ` set xs"
proof -
  have "key \<in> f ` set xs \<longleftrightarrow> (\<exists>i. i < length xs \<and> f (xs ! i) = key)" by (auto simp: set_conv_nth)
  also have "\<dots> \<longleftrightarrow> (\<exists>i. binary_search f xs key = Some i)" by (simp only: binary_search_iff [OF assms])
  finally show ?thesis by auto
qed

section \<open>Rebuilding\<close>

definition eligible :: "u64 \<Rightarrow> MemberHealth \<Rightarrow> bool" where
  "eligible now h = (case next_retry h of None \<Rightarrow> True | Some deadline \<Rightarrow> deadline \<le> now)"

definition readmitted :: "u64 \<Rightarrow> MemberHealth \<Rightarrow> MemberHealth" where
  "readmitted now h = (if next_retry h \<noteq> None \<and> eligible now h then h\<lparr>next_retry := None, failures := 0\<rparr> else h)"

definition deadlines :: "MemberHealth list \<Rightarrow> u64 list" where
  "deadlines ms = map the (filter (\<lambda>r. r \<noteq> None) (map next_retry ms))"

definition soonest :: "u64 list \<Rightarrow> u64 option" where
  "soonest ds = (if ds = [] then None else Some (Min (set ds)))"

definition sooner :: "u64 \<Rightarrow> u64 option \<Rightarrow> u64 option" where
  "sooner d e = Some (case e of None \<Rightarrow> d | Some s \<Rightarrow> min s d)"

lemma fold_sooner: "fold sooner ds e = (case e of None \<Rightarrow> soonest ds | Some s \<Rightarrow> soonest (s # ds))"
proof (induction ds arbitrary: e)
  case (Cons d ds)
  then show ?case by (cases e; cases "ds = []") (auto simp: sooner_def soonest_def min.commute min.left_commute)
qed (simp add: soonest_def split: option.splits)

lemma set_deadlines: "set (deadlines ms) = {d. \<exists>h \<in> set ms. next_retry h = Some d}"
  by (force simp: deadlines_def image_iff)

lemma rebuild_loop_parts:
  "rebuild_loop now e el ms =
     (map (readmitted now) ms, el @ map health_member (filter (eligible now) ms),
      fold sooner (deadlines (map (readmitted now) ms)) e)"
proof (induction ms arbitrary: e el)
  case (Cons h ms)
  then show ?case
    by (cases "next_retry h") (auto simp: eligible_def readmitted_def deadlines_def sooner_def)
qed (simp add: deadlines_def)

lemma rebuild_parts:
  "members (rebuild c now inn) = map (readmitted now) (members inn)"
  "inner_ring (rebuild c now inn) = Ring_new c (map health_member (filter (eligible now) (members inn)))"
  "earliest_retry (rebuild c now inn) = soonest (deadlines (map (readmitted now) (members inn)))"
  by (simp_all add: rebuild_def rebuild_loop_parts fold_sooner)

lemma readmitted_member [simp]: "health_member (readmitted now h) = health_member h"
  by (simp add: readmitted_def)

lemma readmitted_free: "next_retry (readmitted now h) = None \<longleftrightarrow> eligible now h"
  by (auto simp: readmitted_def eligible_def split: option.splits)

lemma eligible_readmitted: "now \<le> t \<Longrightarrow> eligible t (readmitted now h) \<longleftrightarrow> eligible t h"
  by (auto simp: readmitted_def eligible_def split: option.splits)

section \<open>The invariant\<close>

text \<open>
  Members are listed once each in the order of their identities; the continuum is the one of
  the members without a deadline; the earliest deadline is recorded; and no member without
  a deadline has reached the failure limit.
\<close>

definition free :: "MemberHealth \<Rightarrow> bool" where
  "free h \<longleftrightarrow> next_retry h = None"

definition inner_ok :: "crates \<Rightarrow> u32 \<Rightarrow> RingInner \<Rightarrow> bool" where
  "inner_ok c limit inn \<longleftrightarrow>
     sorted_wrt (<) (map health_id (members inn))
     \<and> inner_ring inn = Ring_new c (map health_member (filter free (members inn)))
     \<and> earliest_retry inn = soonest (deadlines (members inn))
     \<and> (\<forall>h \<in> set (members inn). free h \<longrightarrow> failures h < limit)"

definition discovery_ok :: "crates \<Rightarrow> RingState \<Rightarrow> bool" where
  "discovery_ok c st \<longleftrightarrow> 0 < failure_limit st \<and> inner_ok c (failure_limit st) (inner st)"

text \<open>\<open>rebuild\<close> establishes all of it from what the members themselves satisfy.\<close>

lemma rebuild_ok:
  assumes "sorted_wrt (<) (map health_id (members inn))" and "0 < limit"
    and "\<forall>h \<in> set (members inn). free h \<longrightarrow> failures h < limit"
  shows "inner_ok c limit (rebuild c now inn)"
proof -
  have "filter free (map (readmitted now) (members inn)) = map (readmitted now) (filter (eligible now) (members inn))"
    by (simp add: filter_map comp_def free_def readmitted_free)
  moreover have "failures (readmitted now h) < limit" if "h \<in> set (members inn)" "free (readmitted now h)" for h
    using assms(2,3) that by (auto simp: readmitted_def free_def split: if_splits)
  ultimately show ?thesis
    using assms(1) by (auto simp: inner_ok_def rebuild_parts comp_def)
qed

lemma new_ok: "discovery_ok c (RingState_new c limit timeout)"
  by (simp add: discovery_ok_def inner_ok_def RingState_new_def deadlines_def soonest_def less_max_iff_disj)

text \<open>What the state says of members depends on each member and its deadline only, the failure counts apart.\<close>

definition placement :: "MemberHealth list \<Rightarrow> (RingMember \<times> u64 option) list" where
  "placement ms = map (\<lambda>h. (health_member h, next_retry h)) ms"

lemma placement_parts:
  "map health_id ms = map (\<lambda>p. member_id (fst p)) (placement ms)"
  "deadlines ms = map the (filter (\<lambda>r. r \<noteq> None) (map snd (placement ms)))"
  "map health_member (filter free ms) = map fst (filter (\<lambda>p. snd p = None) (placement ms))"
  "map health_member (filter (eligible now) ms)
     = map fst (filter (\<lambda>p. case snd p of None \<Rightarrow> True | Some d \<Rightarrow> d \<le> now) (placement ms))"
  by (simp_all add: placement_def deadlines_def comp_def filter_map free_def [abs_def] eligible_def [abs_def])

lemma placement_update:
  assumes "i < length ms"
  shows "placement (ms[i := (ms ! i)\<lparr>failures := n\<rparr>]) = placement ms"
  using assms by (metis (no_types, lifting) MemberHealth.select_convs(1,3) MemberHealth.surjective
      MemberHealth.update_convs(2) list_update_id map_update placement_def)

lemma counted_ok:
  assumes "inner_ok c limit inn" and "i < length (members inn)"
    and "free (members inn ! i) \<Longrightarrow> n < limit"
  shows "inner_ok c limit (inn\<lparr>members := (members inn)[i := (members inn ! i)\<lparr>failures := n\<rparr>]\<rparr>)"
  using assms set_update_subset_insert [of "members inn" i "(members inn ! i)\<lparr>failures := n\<rparr>"]
  by (auto simp: inner_ok_def placement_parts placement_update free_def)

section \<open>Every operation keeps it\<close>

inductive ring_step :: "crates \<Rightarrow> RingState \<Rightarrow> RingState \<Rightarrow> bool" for c where
  route: "ring_step c st (snd (ring c now st))"
| readmit: "ring_step c st (snd (readmit c now st))"
| success: "ring_step c st (record_success i st)"
| failure: "ring_step c st (snd (record_failure c now i st))"
| snapshot: "ring_step c st (apply_snapshot c now ds st)"
| refresh_error: "ring_step c st (record_refresh_error e st)"

lemma inner_ok_rebuild: "inner_ok c limit inn \<Longrightarrow> 0 < limit \<Longrightarrow> inner_ok c limit (rebuild c now inn)"
  using rebuild_ok [of inn limit c now] by (simp add: inner_ok_def [of c limit inn])

lemma sorted_members: "discovery_ok c st \<Longrightarrow> sorted_wrt (<) (map health_id (members (inner st)))"
  by (simp add: discovery_ok_def inner_ok_def)

lemmas found_iff = binary_search_iff [OF sorted_members, folded member_mut_def]

lemma readmit_ok: "discovery_ok c st \<Longrightarrow> discovery_ok c (snd (readmit c now st))"
  by (simp add: discovery_ok_def readmit_def Let_def inner_ok_rebuild)

lemma ring_ok: "discovery_ok c st \<Longrightarrow> discovery_ok c (snd (ring c now st))"
  by (simp add: ring_def readmit_ok)

lemma success_ok: "discovery_ok c st \<Longrightarrow> discovery_ok c (record_success i st)"
  using found_iff [of c st i]
  by (auto simp: record_success_def discovery_ok_def split: option.splits intro!: counted_ok)

lemma failure_ok:
  assumes "discovery_ok c st"
  shows "discovery_ok c (snd (record_failure c now i st))"
proof (cases "member_mut (members (inner st)) i")
  case None
  with assms show ?thesis by (simp add: record_failure_def)
next
  case (Some index)
  let ?ms = "members (inner st)" and ?n = "saturating_add (failures (members (inner st) ! index)) 1"
  have index: "index < length ?ms" using Some found_iff [OF assms] by simp
  have ok: "0 < failure_limit st" "inner_ok c (failure_limit st) (inner st)" using assms by (auto simp: discovery_ok_def)
  show ?thesis
  proof (cases "next_retry (?ms ! index) \<noteq> None \<or> ?n < failure_limit st")
    case True
    with ok Some index show ?thesis
      by (auto simp: record_failure_def discovery_ok_def Let_def free_def intro!: counted_ok)
  next
    case False
    let ?h = "(?ms ! index)\<lparr>failures := ?n, next_retry := Some (now + retry_timeout_seconds st)\<rparr>"
    have "map health_id (?ms[index := ?h]) = map health_id ?ms"
      using index by (metis (no_types, lifting) MemberHealth.ext_inject MemberHealth.surjective
          MemberHealth.update_convs(2,3) list_update_id map_update)
    then have "inner_ok c (failure_limit st) (rebuild c now ((inner st)\<lparr>members := ?ms[index := ?h]\<rparr>))"
      using ok set_update_subset_insert [of ?ms index ?h]
      by (intro rebuild_ok) (auto simp: inner_ok_def free_def)
    with False ok Some index show ?thesis
      by (simp add: record_failure_def discovery_ok_def Let_def)
  qed
qed

lemma health_member_carry [simp]: "health_member (carry_health ms m) = m"
  by (simp add: carry_health_def Let_def)

lemma carry_health_cases:
  assumes "discovery_ok c st"
  obtains (fresh) "member_id m \<notin> health_id ` set (members (inner st))"
      "failures (carry_health (members (inner st)) m) = 0" "next_retry (carry_health (members (inner st)) m) = None"
    | (known) p where "p \<in> set (members (inner st))" "health_id p = member_id m"
      "failures (carry_health (members (inner st)) m) = failures p"
      "next_retry (carry_health (members (inner st)) m) = next_retry p"
proof (cases "member_mut (members (inner st)) (member_id m)")
  case None
  then have "member_id m \<notin> health_id ` set (members (inner st))"
    using binary_search_None [OF sorted_members [OF assms]] by (simp add: member_mut_def)
  then show ?thesis using None by (intro fresh) (simp_all add: carry_health_def)
next
  case (Some index)
  then have "index < length (members (inner st))" "health_id (members (inner st) ! index) = member_id m"
    using found_iff [OF assms] by auto
  then show ?thesis using Some by (intro known [of "members (inner st) ! index"]) (simp_all add: carry_health_def)
qed

lemma snapshot_ok:
  assumes "discovery_ok c st"
  shows "discovery_ok c (apply_snapshot c now ds st)"
proof -
  let ?ms = "map (carry_health (members (inner st))) ds"
  let ?new = "dedup_by (\<lambda>a b. health_id a = health_id b) (sort_key health_id ?ms)"
  have ok: "0 < failure_limit st" "inner_ok c (failure_limit st) (inner st)" using assms by (auto simp: discovery_ok_def)
  have "sorted_wrt (<) (map health_id ?new)" by (rule dedup_by_strict) simp
  moreover have "failures h < failure_limit st" if h: "h \<in> set ?ms" "free h" for h
  proof -
    from h(1) obtain m where m: "h = carry_health (members (inner st)) m" by auto
    from assms show ?thesis
      by (rule carry_health_cases [of c st m]) (use h(2) m ok in \<open>auto simp: free_def inner_ok_def\<close>)
  qed
  then have "\<forall>h \<in> set ?new. free h \<longrightarrow> failures h < failure_limit st"
    using dedup_by_set [of "\<lambda>a b. health_id a = health_id b" "sort_key health_id ?ms"] by auto
  ultimately show ?thesis using ok(1) by (simp add: apply_snapshot_def discovery_ok_def Let_def rebuild_ok)
qed

lemma ring_step_ok: "ring_step c st st' \<Longrightarrow> discovery_ok c st \<Longrightarrow> discovery_ok c st'"
proof (induction rule: ring_step.induct)
  case (refresh_error st e)
  then show ?case by (simp add: record_refresh_error_def discovery_ok_def inner_ok_def)
qed (simp_all add: ring_ok readmit_ok success_ok failure_ok snapshot_ok)

lemma reachable_ok: "(ring_step c)\<^sup>*\<^sup>* (RingState_new c limit timeout) st \<Longrightarrow> discovery_ok c st"
  by (induction rule: rtranclp_induct) (auto intro: new_ok ring_step_ok)

section \<open>Routing\<close>

lemma no_retry_due_iff:
  assumes "inner_ok c limit inn"
  shows "no_retry_due now inn \<longleftrightarrow> (\<forall>h \<in> set (members inn). eligible now h \<longrightarrow> free h)"
proof -
  have "no_retry_due now inn \<longleftrightarrow> (\<forall>d \<in> set (deadlines (members inn)). now < d)"
    using assms by (auto simp: no_retry_due_def inner_ok_def soonest_def)
  also have "\<dots> \<longleftrightarrow> (\<forall>h \<in> set (members inn). eligible now h \<longrightarrow> free h)"
    by (force simp: set_deadlines eligible_def free_def not_le [symmetric] split: option.splits)
  finally show ?thesis .
qed

text \<open>The continuum \<open>ring\<close> returns is the one of the members eligible at that moment.\<close>

lemma ring_is_eligible:
  assumes "discovery_ok c st"
  shows "fst (ring c now st) = Ring_new c (map health_member (filter (eligible now) (members (inner st))))"
proof (cases "no_retry_due now (inner st)")
  case True
  have ok: "inner_ok c (failure_limit st) (inner st)" using assms by (simp add: discovery_ok_def)
  have "eligible now h \<longleftrightarrow> free h" if "h \<in> set (members (inner st))" for h
    using True no_retry_due_iff [OF ok] that by (auto simp: free_def eligible_def)
  then have "filter (eligible now) (members (inner st)) = filter free (members (inner st))"
    by (rule filter_cong [OF refl])
  with True ok show ?thesis by (simp add: ring_def inner_ok_def)
next
  case False
  then show ?thesis by (simp add: ring_def readmit_def Let_def rebuild_parts)
qed

lemma ring_members_eligible:
  assumes "discovery_ok c st"
  shows "ring_members (fst (ring c now st)) = map health_member (filter (eligible now) (members (inner st)))"
proof -
  have "sorted_wrt (<) (map member_id (map health_member (filter (eligible now) (members (inner st)))))"
    using sorted_wrt_filter [of "\<lambda>a b. health_id a < health_id b" "members (inner st)" "eligible now"]
      sorted_members [OF assms] by (simp add: sorted_wrt_map comp_def)
  then show ?thesis by (simp add: ring_is_eligible [OF assms] ring_members_new canonical_id)
qed

text \<open>The identities \<open>ring\<close> routes to at a moment.\<close>

definition routable :: "crates \<Rightarrow> u64 \<Rightarrow> RingState \<Rightarrow> string set" where
  "routable c now st = member_id ` set (ring_members (fst (ring c now st)))"

lemma routable_iff:
  "discovery_ok c st \<Longrightarrow> routable c now st = health_id ` {h \<in> set (members (inner st)). eligible now h}"
  by (auto simp: routable_def ring_members_eligible)

lemma readmitted_ids:
  "now \<le> t \<Longrightarrow> health_id ` {h \<in> readmitted now ` A. eligible t h} = health_id ` {h \<in> A. eligible t h}"
proof -
  assume "now \<le> t"
  then have "{h \<in> readmitted now ` A. eligible t h} = readmitted now ` {h \<in> A. eligible t h}"
    by (auto simp: eligible_readmitted)
  then show ?thesis by (simp add: image_image)
qed

section \<open>The effect of failures and snapshots\<close>

lemma ring_step_config:
  "ring_step c st st' \<Longrightarrow> failure_limit st' = failure_limit st \<and> retry_timeout_seconds st' = retry_timeout_seconds st"
  by (induction rule: ring_step.induct)
    (auto simp: ring_def readmit_def Let_def record_success_def record_failure_def apply_snapshot_def
      record_refresh_error_def split: option.splits)

lemma reachable_config:
  "(ring_step c)\<^sup>*\<^sup>* (RingState_new c limit timeout) st
     \<Longrightarrow> failure_limit st = max limit 1 \<and> retry_timeout_seconds st = timeout"
proof (induction rule: rtranclp_induct)
  case (step st st')
  then show ?case using ring_step_config by simp
qed (simp add: RingState_new_def)

lemma member_index:
  assumes "discovery_ok c st" and "h \<in> set (members (inner st))"
  obtains index where "index < length (members (inner st))" "members (inner st) ! index = h"
    "member_mut (members (inner st)) (health_id h) = Some index"
  using assms found_iff [OF assms(1)] by (metis in_set_conv_nth)

lemma routable_placement:
  assumes "discovery_ok c st" and "discovery_ok c st'" and "placement (members (inner st')) = placement (members (inner st))"
  shows "routable c t st' = routable c t st"
  using assms by (simp add: routable_def ring_members_eligible placement_parts)

lemma same_id_same_member:
  assumes "discovery_ok c st" and "h \<in> set (members (inner st))" and "h' \<in> set (members (inner st))"
    and "health_id h = health_id h'"
  shows "h = h'"
proof -
  have "distinct (map health_id (members (inner st)))"
    using sorted_members [OF assms(1)] by (simp add: strict_sorted_iff)
  with assms(2-4) show ?thesis by (metis distinct_map inj_onD)
qed

lemma record_failure_effect:
  assumes ok: "discovery_ok c st" and h: "h \<in> set (members (inner st))"
    and fail: "record_failure c now (health_id h) st = (ej, st')" and t: "now \<le> t"
  shows "(ej \<longleftrightarrow> next_retry h = None \<and> failure_limit st \<le> saturating_add (failures h) 1)
    \<and> routable c t st' =
       (if ej \<and> t < now + retry_timeout_seconds st then routable c t st - {health_id h} else routable c t st)"
proof -
  obtain index where index: "index < length (members (inner st))" "members (inner st) ! index = h"
    and found: "member_mut (members (inner st)) (health_id h) = Some index" by (rule member_index [OF ok h])
  have ok': "discovery_ok c st'" using failure_ok [OF ok, of now "health_id h"] fail by simp
  let ?n = "saturating_add (failures h) 1" and ?d = "now + retry_timeout_seconds st"
  show ?thesis
  proof (cases "next_retry h \<noteq> None \<or> ?n < failure_limit st")
    case True
    then have "\<not> ej" "members (inner st') = (members (inner st))[index := h\<lparr>failures := ?n\<rparr>]"
      using fail found index by (auto simp: record_failure_def Let_def)
    then show ?thesis using True routable_placement [OF ok ok'] placement_update [OF index(1)] index(2)
      by (auto simp: not_le)
  next
    case False
    let ?h = "h\<lparr>failures := ?n, next_retry := Some ?d\<rparr>"
    have ms: "ej" "members (inner st') = map (readmitted now) ((members (inner st))[index := ?h])"
      using False fail found index by (auto simp: record_failure_def Let_def rebuild_parts)
    have "distinct (members (inner st))"
      using sorted_members [OF ok] by (metis distinct_map strict_sorted_iff)
    then have "set ((members (inner st))[index := ?h]) = insert ?h (set (members (inner st)) - {h})"
      using set_update_distinct [OF _ index(1)] index(2) by simp
    then have "routable c t st' = health_id ` {x \<in> insert ?h (set (members (inner st)) - {h}). eligible t x}"
      by (simp only: routable_iff [OF ok'] ms(2) set_map readmitted_ids [OF t])
    also have "{x \<in> insert ?h (set (members (inner st)) - {h}). eligible t x}
        = (if ?d \<le> t then {?h} else {}) \<union> {x \<in> set (members (inner st)) - {h}. eligible t x}"
      using False by (auto simp: eligible_def dest: arg_cong [of _ h next_retry])
    also have "health_id ` \<dots> = (if ?d \<le> t then {health_id h} else {}) \<union> health_id ` {x \<in> set (members (inner st)) - {h}. eligible t x}"
      by auto
    also have "health_id ` {x \<in> set (members (inner st)) - {h}. eligible t x} = routable c t st - {health_id h}"
      using same_id_same_member [OF ok _ h] by (auto simp: routable_iff [OF ok])
    also have "(if ?d \<le> t then {health_id h} else {}) \<union> (routable c t st - {health_id h})
        = (if t < ?d then routable c t st - {health_id h} else routable c t st)"
    proof -
      have "health_id h \<in> routable c t st"
        unfolding routable_iff [OF ok] using h False by (intro imageI) (simp add: eligible_def)
      then show ?thesis by auto
    qed
    finally show ?thesis using ms(1) False by auto
  qed
qed

lemma snapshot_members:
  "members (inner (apply_snapshot c now ds st)) =
     map (readmitted now)
       (dedup_by (\<lambda>a b. health_id a = health_id b) (sort_key health_id (map (carry_health (members (inner st))) ds)))"
  by (simp add: apply_snapshot_def rebuild_parts)

lemma snapshot_member:
  assumes "m \<in> set (members (inner (apply_snapshot c now ds st)))"
  obtains d where "d \<in> set ds" "m = readmitted now (carry_health (members (inner st)) d)"
  using assms dedup_by_set [of "\<lambda>a b. health_id a = health_id b" "sort_key health_id (map (carry_health (members (inner st))) ds)"]
  by (auto simp: snapshot_members)

lemma snapshot_ids: "health_id ` set (members (inner (apply_snapshot c now ds st))) = member_id ` set ds"
proof -
  let ?s = "sort_key health_id (map (carry_health (members (inner st))) ds)"
  have "health_id ` set (members (inner (apply_snapshot c now ds st)))
      = health_id ` set (dedup_by (\<lambda>a b. health_id a = health_id b) ?s)"
    by (simp add: snapshot_members image_image)
  also have "\<dots> = health_id ` set ?s" by (rule dedup_by_keys)
  finally show ?thesis by (simp add: image_image)
qed

section \<open>Properties\<close>

text \<open>
  C23. Whatever sequence of routing, successes, failures, snapshots and refresh errors the
  agent goes through, the members stay in strict order of identity, no member that can be
  routed to has reached the failure limit, and the continuum handed to a request is the one
  of exactly the members that are not waiting for a retry deadline at that moment: a member
  comes back at its deadline without a timer.
\<close>

theorem routes_exactly_eligible_members:
  assumes "(ring_step c)\<^sup>*\<^sup>* (RingState_new c limit timeout) st"
  shows "discovery_ok c st
    \<and> ring_members (fst (ring c now st)) = map health_member (filter (eligible now) (members (inner st)))"
  using reachable_ok [OF assms] ring_members_eligible by blast

definition demo_ring_state :: RingState where
  "demo_ring_state = apply_snapshot demo_crates 100 demo_members (RingState_new demo_crates 1 30)"

lemma demo_reachable: "(ring_step demo_crates)\<^sup>*\<^sup>* (RingState_new demo_crates 1 30) demo_ring_state"
  unfolding demo_ring_state_def by (rule r_into_rtranclp, rule ring_step.snapshot)

definition demo_shard :: "string \<Rightarrow> MemberHealth" where
  "demo_shard i = \<lparr>health_member = \<lparr>member_id = i, member_address = demo_address\<rparr>, failures = 0, next_retry = None\<rparr>"

lemma demo_ring_members: "members (inner demo_ring_state) = [demo_shard ''s0'', demo_shard ''s1'']"
  by (simp add: demo_ring_state_def snapshot_members RingState_new_def demo_members_def demo_shard_def carry_health_def
      member_mut_def binary_search_def readmitted_def eligible_def)

theorem routes_exactly_eligible_members_witness:
  "ring_members (fst (ring demo_crates 101 demo_ring_state))
     = [\<lparr>member_id = ''s0'', member_address = demo_address\<rparr>, \<lparr>member_id = ''s1'', member_address = demo_address\<rparr>]"
  using routes_exactly_eligible_members [OF demo_reachable, of 101]
  by (simp add: demo_ring_members demo_shard_def eligible_def)

text \<open>
  C26. A failure ejects a member exactly when the member is not already ejected and this
  failure brings its count to the limit. From that moment on requests are routed to every
  member they would have been routed to before, except that the ejected member is left out
  until its retry deadline and is back from the deadline on. The sum of clock and timeout
  may wrap; the statement covers that too.
\<close>

theorem failure_limit_ejects:
  assumes "(ring_step c)\<^sup>*\<^sup>* (RingState_new c limit timeout) st" and "h \<in> set (members (inner st))" and "now \<le> t"
  shows "(case record_failure c now (health_id h) st of (ej, st') \<Rightarrow>
      (ej \<longleftrightarrow> next_retry h = None \<and> max limit 1 \<le> saturating_add (failures h) 1)
      \<and> routable c t st' = (if ej \<and> t < now + timeout then routable c t st - {health_id h} else routable c t st))"
  using record_failure_effect [OF reachable_ok [OF assms(1)] assms(2) _ assms(3)] reachable_config [OF assms(1)]
  by (auto split: prod.splits)

theorem failure_limit_ejects_witness:
  "routable demo_crates 110 (snd (record_failure demo_crates 105 ''s0'' demo_ring_state)) = {''s1''}
   \<and> routable demo_crates 135 (snd (record_failure demo_crates 105 ''s0'' demo_ring_state)) = {''s0'', ''s1''}"
proof -
  have h: "demo_shard ''s0'' \<in> set (members (inner demo_ring_state))" by (simp add: demo_ring_members)
  have "routable demo_crates t demo_ring_state = {''s0'', ''s1''}" for t
  proof -
    have "{h \<in> set (members (inner demo_ring_state)). eligible t h} = {demo_shard ''s0'', demo_shard ''s1''}"
      by (auto simp: demo_ring_members demo_shard_def eligible_def)
    then show ?thesis by (simp add: routable_iff [OF reachable_ok [OF demo_reachable]]) (simp add: demo_shard_def)
  qed
  then show ?thesis
    using failure_limit_ejects [OF demo_reachable h, of 105 110] failure_limit_ejects [OF demo_reachable h, of 105 135]
    by (auto simp: demo_shard_def saturating_add_def max_def split: prod.splits)
qed

text \<open>
  A snapshot replaces the membership by the discovered identities and keeps the failure
  count and the retry deadline of every member that stays, except that a deadline already
  passed is cleared together with its count; a new member starts with neither. Discovery
  therefore never brings an ejected member back early.
\<close>

theorem snapshot_keeps_bookkeeping:
  assumes "(ring_step c)\<^sup>*\<^sup>* (RingState_new c limit timeout) st"
    and "m \<in> set (members (inner (apply_snapshot c now ds st)))"
  shows "health_id ` set (members (inner (apply_snapshot c now ds st))) = member_id ` set ds
    \<and> (if health_id m \<in> health_id ` set (members (inner st))
       then \<exists>h \<in> set (members (inner st)). health_id h = health_id m
              \<and> failures m = failures (readmitted now h) \<and> next_retry m = next_retry (readmitted now h)
       else failures m = 0 \<and> next_retry m = None)"
proof -
  have ok: "discovery_ok c st" by (rule reachable_ok [OF assms(1)])
  obtain d where d: "d \<in> set ds" "m = readmitted now (carry_health (members (inner st)) d)"
    by (rule snapshot_member [OF assms(2)])
  from ok show ?thesis
  proof (rule carry_health_cases [of c st d])
    fix p assume p: "p \<in> set (members (inner st))" "health_id p = member_id d"
      "failures (carry_health (members (inner st)) d) = failures p"
      "next_retry (carry_health (members (inner st)) d) = next_retry p"
    then have "health_id m \<in> health_id ` set (members (inner st))" using d(2) by (auto intro: rev_image_eqI)
    then show ?thesis unfolding snapshot_ids using p d(2)
      by (auto simp: readmitted_def eligible_def intro!: bexI [of _ p])
  qed (use d(2) in \<open>simp add: snapshot_ids readmitted_def\<close>)
qed

theorem snapshot_keeps_bookkeeping_witness:
  "health_id ` set (members (inner (apply_snapshot demo_crates 100 demo_members (RingState_new demo_crates 1 30)))) = {''s1'', ''s0''}"
  using snapshot_keeps_bookkeeping [of demo_crates 1 30 "RingState_new demo_crates 1 30" "demo_shard ''s0''" 100 demo_members]
    demo_ring_members
  by (simp add: demo_ring_state_def demo_members_def)

text \<open>
  A discovery pass follows the answer it got: a failed query leaves the whole state as it
  was, and a successful one leaves as members the listed targets that resolve to an address
  now or were members before. A target whose address lookup fails transiently keeps its place.
\<close>

theorem refresh_follows_the_answer:
  "case resolver_srv resolver name of
     Inl e \<Rightarrow> refresh_once c resolver name now st = (Inl e, st)
   | Inr snapshot \<Rightarrow>
       fst (refresh_once c resolver name now st) = Inr (snapshot_ttl snapshot)
       \<and> health_id ` set (members (inner (snd (refresh_once c resolver name now st)))) =
          {canonical_member_id (srv_target r) | r. r \<in> set (snapshot_records snapshot)
             \<and> ((\<exists>ip ips. resolver_ips resolver (srv_target r) = Inr (ip # ips))
                \<or> canonical_member_id (srv_target r) \<in> health_id ` set (members (inner st)))}"
proof (cases "resolver_srv resolver name")
  case (Inr snapshot)
  let ?known = "map_of (rev (known_addresses st))"
  have dom: "?known i = None \<longleftrightarrow> i \<notin> health_id ` set (members (inner st))" for i
    by (auto simp: map_of_eq_None_iff known_addresses_def image_iff)
  have resolved: "map_option member_id (resolve_member resolver ?known r) =
      (if (\<exists>ip ips. resolver_ips resolver (srv_target r) = Inr (ip # ips))
          \<or> canonical_member_id (srv_target r) \<in> health_id ` set (members (inner st))
       then Some (canonical_member_id (srv_target r)) else None)" for r
    using dom [of "canonical_member_id (srv_target r)"]
    by (auto simp: resolve_member_def Let_def neq_Nil_conv split: sum.splits option.splits)
  have "member_id ` set (List.map_filter (resolve_member resolver ?known) rs) =
      {i. \<exists>r \<in> set rs. map_option member_id (resolve_member resolver ?known r) = Some i}" for rs
    by (induction rs) (auto simp: List.map_filter_simps split: option.splits)
  then show ?thesis using Inr
    by (auto simp: refresh_once_def snapshot_ids resolved split: if_splits)
qed (simp add: refresh_once_def)

text \<open>A scaled duration is rounded to the nearest nanosecond.\<close>

definition jitter_ok :: "jitter \<Rightarrow> bool" where
  "jitter_ok jitter \<longleftrightarrow>
     (\<forall>d low high. d < 2 ^ 50 \<and> low \<le> high \<longrightarrow> low * d \<le> 10 * jitter d low high + 5 \<and> 10 * jitter d low high \<le> high * d + 5)"

lemma jitter_okD:
  "jitter_ok jitter \<Longrightarrow> d < 2 ^ 50 \<Longrightarrow> low \<le> high
     \<Longrightarrow> low * d \<le> 10 * jitter d low high + 5 \<and> 10 * jitter d low high \<le> high * d + 5"
  unfolding jitter_ok_def by blast

text \<open>
  C28. The discovery loop neither panics nor spins: with a refresh bound of at least a second and
  below \<open>2 ^ 50\<close> nanoseconds, about thirteen days, and a jitter that stays within its rounded
  bounds, an iteration returns, the backoff stays between one second and the bound, every
  delay is at least half a second and at most the bound, and an answer that lives at least a
  second is refreshed before it expires.
\<close>

theorem refresh_delay_bounds:
  assumes "jitter_ok jitter" and "minimum \<le> refresh_max" and "refresh_max < 2 ^ 50"
    and "minimum \<le> backoff" and "backoff \<le> refresh_max"
  shows "\<exists>delay backoff' st'.
    run_step c jitter resolver name refresh_max now (backoff, st) = Some (delay, backoff', st')
    \<and> minimum \<le> backoff' \<and> backoff' \<le> refresh_max \<and> minimum \<le> 2 * delay + 1 \<and> delay \<le> refresh_max
    \<and> (\<forall>snapshot. resolver_srv resolver name = Inr snapshot \<and> minimum \<le> snapshot_ttl snapshot
          \<longrightarrow> delay < snapshot_ttl snapshot)"
proof (cases "resolver_srv resolver name")
  case (Inl e)
  have "5 * backoff \<le> 10 * jitter backoff 5 10 + 5 \<and> 10 * jitter backoff 5 10 \<le> 10 * backoff + 5"
    using assms(1,3,5) by (intro jitter_okD) simp_all
  moreover have "backoff * 2 \<le> DURATION_MAX" using assms(3,5) by (simp add: DURATION_MAX_def)
  ultimately show ?thesis using Inl assms(2,4,5)
    by (simp add: run_step_def refresh_once_def duration_mul_def minimum_def from_secs_def)
next
  case (Inr snapshot)
  define ttl where "ttl = snapshot_ttl snapshot"
  define d where "d = (if ttl < minimum then minimum else if refresh_max < ttl then refresh_max else ttl)"
  have d: "minimum \<le> d" "d \<le> refresh_max" "minimum \<le> ttl \<Longrightarrow> d \<le> ttl" using assms(2) by (auto simp: d_def)
  have "7 * d \<le> 10 * jitter d 7 9 + 5 \<and> 10 * jitter d 7 9 \<le> 9 * d + 5"
    using assms(1,3) d(2) by (intro jitter_okD) simp_all
  moreover have "run_step c jitter resolver name refresh_max now (backoff, st)
      = Some (jitter d 7 9, minimum, snd (refresh_once c resolver name now st))"
    using Inr assms(2) by (simp add: run_step_def refresh_once_def clamp_def d_def ttl_def Let_def)
  ultimately show ?thesis using Inr assms(2) d
    by (auto simp: minimum_def from_secs_def ttl_def [symmetric])
qed

definition demo_resolver :: Resolver where
  "demo_resolver =
     \<lparr>resolver_srv = (\<lambda>_. Inr \<lparr>snapshot_records = [\<lparr>srv_target = ''S0.'', srv_port = 8080\<rparr>], snapshot_ttl = from_secs 20\<rparr>),
      resolver_ips = (\<lambda>_. Inr [V4 1])\<rparr>"

definition demo_jitter :: jitter where
  "demo_jitter d low high = (low * d + 5) div 10"

lemma demo_jitter_ok: "jitter_ok demo_jitter"
  unfolding jitter_ok_def
proof (intro allI impI)
  fix d low high :: nat assume "d < 2 ^ 50 \<and> low \<le> high"
  then have "low * d \<le> high * d" by simp
  then show "low * d \<le> 10 * demo_jitter d low high + 5 \<and> 10 * demo_jitter d low high \<le> high * d + 5"
    unfolding demo_jitter_def by linarith
qed

theorem refresh_delay_bounds_witness:
  "\<exists>delay backoff' st'.
     run_step demo_crates demo_jitter demo_resolver ''srv'' (from_secs 30) 7
       (from_secs 1, RingState_new demo_crates 2 30) = Some (delay, backoff', st')
     \<and> delay < from_secs 20"
  using refresh_delay_bounds [OF demo_jitter_ok, of "from_secs 30" "from_secs 1" demo_crates demo_resolver "''srv''" 7
      "RingState_new demo_crates 2 30"]
  by (fastforce simp: minimum_def from_secs_def demo_resolver_def)

end
