(* ===== verification/Agent.thy ===== *)
theory Agent
  imports Discovery Prefetch
begin

text \<open>
  The routing sidecar (\<open>src/agent/mod.rs\<close>): it derives a routing object from the path of a
  request, forwards the request to the owner of that object, and answers itself when no owner
  can. The HTTP client is a parameter \<open>send\<close> that acts on a state of its own, so that what is
  sent, and how often, can be read off that state. An address is kept as a value instead of
  being printed into the URL.
\<close>

section \<open>State\<close>

record AgentOptions =
  opt_srv :: string
  opt_refresh_max :: Duration
  opt_failure_limit :: u32
  opt_retry_timeout :: Duration
  opt_connect_timeout :: Duration
  opt_deadline :: Duration

record AgentArgs =
  arg_srv :: string
  arg_refresh_max :: u64
  arg_failure_limit :: u32
  arg_retry_timeout :: u64
  arg_connect_timeout :: u64
  arg_deadline :: u64

record AgentMetrics =
  agent_requests :: nat
  forwarded :: nat
  forward_durations :: nat
  forward_failures :: nat
  synthesized_misses :: nat
  synthesized_bypasses :: nat
  unavailable :: nat
  ejections :: nat
  agent_prefetch_requests :: nat
  prefetch_hits :: nat
  prefetch_misses :: nat
  prefetch_unavailable :: nat
  agent_prefetch_response_bytes :: nat
  agent_prefetch_in_flight :: int
  prefetch_completed :: nat
  prefetch_cancelled :: nat
  agent_prefetch_transfer_durations :: nat
  gauge_ring_members :: int
  gauge_ring_ejected :: int

record AgentState =
  agent_options :: AgentOptions
  agent_ring :: RingState
  agent_metrics :: AgentMetrics

definition AgentMetrics_new :: AgentMetrics where
  "AgentMetrics_new =
     \<lparr>agent_requests = 0, forwarded = 0, forward_durations = 0, forward_failures = 0, synthesized_misses = 0,
      synthesized_bypasses = 0, unavailable = 0, ejections = 0, agent_prefetch_requests = 0, prefetch_hits = 0,
      prefetch_misses = 0, prefetch_unavailable = 0, agent_prefetch_response_bytes = 0, agent_prefetch_in_flight = 0,
      prefetch_completed = 0, prefetch_cancelled = 0, agent_prefetch_transfer_durations = 0,
      gauge_ring_members = 0, gauge_ring_ejected = 0\<rparr>"

definition as_secs :: "Duration \<Rightarrow> nat" where
  "as_secs d = d div 1000000000"

text \<open>The options \<open>run\<close> derives from the command line, and \<open>Agent::new\<close>.\<close>

definition run_options :: "AgentArgs \<Rightarrow> AgentOptions" where
  "run_options args =
     \<lparr>opt_srv = arg_srv args,
      opt_refresh_max = from_secs (unat (max (arg_refresh_max args) 1)),
      opt_failure_limit = arg_failure_limit args,
      opt_retry_timeout = from_secs (unat (arg_retry_timeout args)),
      opt_connect_timeout = from_secs (unat (max (arg_connect_timeout args) 1)),
      opt_deadline = from_secs (unat (max (arg_deadline args) 1))\<rparr>"

definition Agent_new :: "crates \<Rightarrow> AgentOptions \<Rightarrow> AgentState" where
  "Agent_new c options =
     \<lparr>agent_options = options,
      agent_ring = RingState_new c (opt_failure_limit options) (of_nat (as_secs (opt_retry_timeout options))),
      agent_metrics = AgentMetrics_new\<rparr>"

section \<open>Routing objects\<close>

datatype RouteClass = BuildCacheRead | BuildCacheWrite | Passthrough

fun RouteClass_as_str :: "RouteClass \<Rightarrow> string" where
  "RouteClass_as_str BuildCacheRead = ''build_cache_read''"
| "RouteClass_as_str BuildCacheWrite = ''build_cache_write''"
| "RouteClass_as_str Passthrough = ''passthrough''"

record RoutedKey =
  routed_kind :: string
  routed_id :: string
  routed_class :: RouteClass

text \<open>The arms of the match that name an object: its kind and identity.\<close>

definition object_of :: "string list \<Rightarrow> (string \<times> string) option" where
  "object_of segments =
     (case segments of
        [a, b, x] \<Rightarrow>
          if a = ''artifacts'' then Some (''artifact'', x)
          else if a = ''build-cache'' \<and> b = ''http'' then Some (''http-cache'', x)
          else None
      | [a, b, d, x] \<Rightarrow>
          if a = ''build-cache'' \<and> b = ''bazel'' \<and> d = ''cas'' then Some (''artifact'', x)
          else if a = ''build-cache'' \<and> b = ''bazel'' \<and> d = ''ac'' then Some (''bazel-action'', x)
          else None
      | [a, x] \<Rightarrow> if a = ''references'' then Some (''reference'', x) else None
      | _ \<Rightarrow> None)"

definition proxied_of :: "string list \<Rightarrow> (string \<times> string) option" where
  "proxied_of segments =
     (case segments of
        a # protocol # rest \<Rightarrow>
          if a = ''proxy'' \<and> rest \<noteq> [] then Some (protocol, join_with ''/'' rest) else None
      | _ \<Rightarrow> None)"

definition classify :: "Method \<Rightarrow> string \<Rightarrow> RoutedKey" where
  "classify meth path =
     (let segments = split_on CHR ''/'' (trim_start_matches CHR ''/'' path)
      in case object_of segments of
           Some (kind, ident) \<Rightarrow>
             \<lparr>routed_kind = kind, routed_id = ident,
              routed_class =
                (if hd segments = ''build-cache''
                 then (if meth \<in> {GET, HEAD} then BuildCacheRead
                       else if meth \<in> {PUT, POST} then BuildCacheWrite else Passthrough)
                 else Passthrough)\<rparr>
         | None \<Rightarrow>
             (case proxied_of segments of
                Some (protocol, rest) \<Rightarrow> \<lparr>routed_kind = protocol, routed_id = rest, routed_class = Passthrough\<rparr>
              | None \<Rightarrow> \<lparr>routed_kind = ''path'', routed_id = path, routed_class = Passthrough\<rparr>))"

section \<open>Forwarding\<close>

definition skip_request_header :: "string \<Rightarrow> bool" where
  "skip_request_header name \<longleftrightarrow>
     name \<in> {''connection'', ''keep-alive'', ''proxy-authenticate'', ''proxy-authorization'', ''te'', ''trailer'',
              ''transfer-encoding'', ''upgrade'', ''host'', ''expect''}"

definition skip_response_header :: "string \<Rightarrow> bool" where
  "skip_response_header name \<longleftrightarrow>
     name \<in> {''connection'', ''keep-alive'', ''te'', ''trailer'', ''transfer-encoding'', ''upgrade''}"

record Upstream =
  up_method :: Method
  up_address :: SocketAddr
  up_path :: string
  up_headers :: headers
  up_body :: "body_stream option"

type_synonym 'w client = "Upstream \<Rightarrow> 'w \<Rightarrow> (SendError + Response) \<times> 'w"

definition proxied_response :: "Response \<Rightarrow> Response" where
  "proxied_response upstream =
     \<lparr>resp_status = resp_status upstream,
      resp_headers = filter (\<lambda>(name, _). \<not> skip_response_header name) (resp_headers upstream),
      resp_body = resp_body upstream\<rparr>"

definition on_metrics :: "(AgentMetrics \<Rightarrow> AgentMetrics) \<Rightarrow> AgentState \<Rightarrow> AgentState" where
  "on_metrics f st = st\<lparr>agent_metrics := f (agent_metrics st)\<rparr>"

definition degrade :: "RouteClass \<Rightarrow> bool \<Rightarrow> AgentState \<Rightarrow> Response \<times> AgentState" where
  "degrade cls empty_ring st =
     (case cls of
        BuildCacheRead \<Rightarrow>
          (status_response 404, on_metrics (\<lambda>m. m\<lparr>synthesized_misses := synthesized_misses m + 1\<rparr>) st)
      | BuildCacheWrite \<Rightarrow>
          (status_response 200, on_metrics (\<lambda>m. m\<lparr>synthesized_bypasses := synthesized_bypasses m + 1\<rparr>) st)
      | Passthrough \<Rightarrow>
          (status_response (if empty_ring then 503 else 502), on_metrics (\<lambda>m. m\<lparr>unavailable := unavailable m + 1\<rparr>) st))"

definition record_send_failure :: "crates \<Rightarrow> u64 \<Rightarrow> string \<Rightarrow> SendError \<Rightarrow> AgentState \<Rightarrow> AgentState" where
  "record_send_failure c now owner_id error st =
     (if \<not> (is_connect error \<or> is_timeout error) then st
      else
        let st = on_metrics (\<lambda>m. m\<lparr>forward_failures := forward_failures m + 1\<rparr>) st;
            (ej, r) = record_failure c now owner_id (agent_ring st);
            st = st\<lparr>agent_ring := r\<rparr>
        in if ej then on_metrics (\<lambda>m. m\<lparr>ejections := ejections m + 1\<rparr>) st else st)"

definition count_unavailable :: "bool \<Rightarrow> AgentState \<Rightarrow> AgentState" where
  "count_unavailable prefetch st =
     (if prefetch then on_metrics (\<lambda>m. m\<lparr>prefetch_unavailable := prefetch_unavailable m + 1\<rparr>) st else st)"

definition count_outcome :: "bool \<Rightarrow> StatusCode \<Rightarrow> AgentState \<Rightarrow> AgentState" where
  "count_outcome prefetch s st =
     (if \<not> prefetch then st
      else if 200 \<le> s \<and> s < 300 then on_metrics (\<lambda>m. m\<lparr>prefetch_hits := prefetch_hits m + 1\<rparr>) st
      else if s = 404 then on_metrics (\<lambda>m. m\<lparr>prefetch_misses := prefetch_misses m + 1\<rparr>) st
      else on_metrics (\<lambda>m. m\<lparr>prefetch_unavailable := prefetch_unavailable m + 1\<rparr>) st)"

definition upstream_request :: "Request \<Rightarrow> SocketAddr \<Rightarrow> Upstream" where
  "upstream_request request address =
     \<lparr>up_method = req_method request, up_address = address,
      up_path = (case req_path_and_query request of None \<Rightarrow> ''/'' | Some p \<Rightarrow> p),
      up_headers = filter (\<lambda>(name, _). \<not> skip_request_header name) (req_headers request),
      up_body = (if req_method request \<in> {GET, HEAD} then None else Some (req_body request))\<rparr>"

text \<open>\<open>routed_at\<close> is the clock reading of the routing decision, \<open>failed_at\<close> the one of a failed send.\<close>

definition forward_request ::
  "crates \<Rightarrow> 'w client \<Rightarrow> u64 \<Rightarrow> u64 \<Rightarrow> Request \<Rightarrow> bool \<Rightarrow> AgentState \<times> 'w \<Rightarrow> Response \<times> AgentState \<times> 'w" where
  "forward_request c send routed_at failed_at request prefetch = (\<lambda>(st, w).
     let routed = classify (req_method request) (req_path request)
     in if req_path request = ''/channels'' \<or> starts_with ''/channels/'' (req_path request)
        then (status_response 501, st, w)
        else
          case key_position c (routed_kind routed) (routed_id routed) of
            None \<Rightarrow> (status_response 414, st, w)
          | Some pos \<Rightarrow>
              (let (continuum, r) = ring c routed_at (agent_ring st); st = st\<lparr>agent_ring := r\<rparr>
               in case owner continuum pos of
                    None \<Rightarrow>
                      (let (response, st) = degrade (routed_class routed) True (count_unavailable prefetch st)
                       in (response, st, w))
                  | Some m \<Rightarrow>
                      (case send (upstream_request request (member_address m)) w of
                         (Inr response, w) \<Rightarrow>
                           (let st = st\<lparr>agent_ring := record_success (member_id m) (agent_ring st)\<rparr>;
                                st = on_metrics (\<lambda>k. k\<lparr>forwarded := forwarded k + 1\<rparr>) st;
                                st = count_outcome prefetch (resp_status response) st
                            in (proxied_response response, st, w))
                       | (Inl error, w) \<Rightarrow>
                           (let st = record_send_failure c failed_at (member_id m) error st;
                                (response, st) = degrade (routed_class routed) False (count_unavailable prefetch st)
                            in (response, st, w)))))"

section \<open>The agent's recorder\<close>

definition agent_prefetch_started :: "AgentMetrics \<Rightarrow> int \<times> AgentMetrics" where
  "agent_prefetch_started m =
     (let m = m\<lparr>agent_prefetch_requests := agent_prefetch_requests m + 1,
                agent_prefetch_in_flight := agent_prefetch_in_flight m + 1\<rparr>
      in (agent_prefetch_in_flight m, m))"

definition agent_prefetch_response :: "StatusCode \<Rightarrow> AgentMetrics \<Rightarrow> AgentMetrics" where
  "agent_prefetch_response s m = m"

definition agent_prefetch_finished :: "u64 \<Rightarrow> bool \<Rightarrow> AgentMetrics \<Rightarrow> AgentMetrics" where
  "agent_prefetch_finished bs done m =
     (let m = m\<lparr>agent_prefetch_in_flight := agent_prefetch_in_flight m - 1,
                agent_prefetch_response_bytes := agent_prefetch_response_bytes m + unat bs,
                agent_prefetch_transfer_durations := agent_prefetch_transfer_durations m + 1\<rparr>
      in if done then m\<lparr>prefetch_completed := prefetch_completed m + 1\<rparr>
         else m\<lparr>prefetch_cancelled := prefetch_cancelled m + 1\<rparr>)"

interpretation agent: prefetch_recorder agent_prefetch_started agent_prefetch_response agent_prefetch_finished
  agent_prefetch_requests agent_prefetch_in_flight prefetch_completed prefetch_cancelled
  by unfold_locales (auto simp: agent_prefetch_started_def agent_prefetch_response_def agent_prefetch_finished_def Let_def)

section \<open>The handlers\<close>

text \<open>
  The whole handler, with the number of times the client polls the body before it drops it.
  The polls come after the response headers, so nothing else reads the metrics in between.
\<close>

definition forward ::
  "crates \<Rightarrow> 'w client \<Rightarrow> u64 \<Rightarrow> u64 \<Rightarrow> nat \<Rightarrow> Request \<Rightarrow> AgentState \<times> 'w \<Rightarrow> Response \<times> AgentState \<times> 'w" where
  "forward c send routed_at failed_at polls request = (\<lambda>(st, w).
     let st = on_metrics (\<lambda>m. m\<lparr>agent_requests := agent_requests m + 1\<rparr>) st;
         prefetch = is_prefetch request
     in if prefetch
        then
          let session = Option.bind (header_get (req_headers request) request_session_header) header_str;
              concurrency =
                Option.bind (Option.bind (header_get (req_headers request) request_prefetch_concurrency_header) header_str)
                  parse_unsigned;
              (obs, m) = observation_start agent_prefetch_started session concurrency (agent_metrics st);
              (response, st, w) = forward_request c send routed_at failed_at request prefetch (st\<lparr>agent_metrics := m\<rparr>, w);
              st = on_metrics (\<lambda>m. m\<lparr>forward_durations := forward_durations m + 1\<rparr>) st;
              (response, m) =
                observe_prefetch_body agent_prefetch_response agent_prefetch_finished polls response (obs, agent_metrics st)
          in (response, st\<lparr>agent_metrics := m\<rparr>, w)
        else
          let (response, st, w) = forward_request c send routed_at failed_at request prefetch (st, w);
              st = on_metrics (\<lambda>m. m\<lparr>forward_durations := forward_durations m + 1\<rparr>) st
          in (response\<lparr>resp_body := take polls (resp_body response)\<rparr>, st, w))"

record AgentStatus =
  agent_srv :: string
  agent_ring_status :: RingStatus

definition agent_status :: "u64 \<Rightarrow> AgentState \<Rightarrow> AgentStatus" where
  "agent_status now st = \<lparr>agent_srv = opt_srv (agent_options st), agent_ring_status = ring_status now (agent_ring st)\<rparr>"

definition clamp_i64 :: "nat \<Rightarrow> int" where
  "clamp_i64 n = (if n < 2 ^ 63 then int n else 2 ^ 63 - 1)"

definition AgentMetrics_encode :: "(AgentMetrics \<Rightarrow> string + bytes) \<Rightarrow> nat \<Rightarrow> nat \<Rightarrow> AgentMetrics \<Rightarrow> (string + bytes) \<times> AgentMetrics" where
  "AgentMetrics_encode encode_registry ms ej m =
     (let m = m\<lparr>gauge_ring_members := clamp_i64 ms, gauge_ring_ejected := clamp_i64 ej\<rparr> in (encode_registry m, m))"

definition agent_metrics_handler ::
  "(AgentMetrics \<Rightarrow> string + bytes) \<Rightarrow> u64 \<Rightarrow> AgentState \<Rightarrow> Response \<times> AgentState" where
  "agent_metrics_handler encode_registry now st =
     (let status = ring_status now (agent_ring st);
          ej = length (filter ejected (status_members status));
          (encoded, m) = AgentMetrics_encode encode_registry (length (status_members status)) ej (agent_metrics st);
          st = st\<lparr>agent_metrics := m\<rparr>
      in case encoded of
           Inr body \<Rightarrow>
             (\<lparr>resp_status = 200, resp_headers = [(''content-type'', str_bytes ''text/plain; version=0.0.4'')],
               resp_body = [Inr body]\<rparr>, st)
         | Inl _ \<Rightarrow> (status_response 500, st))"

definition agent_refresh_once :: "crates \<Rightarrow> Resolver \<Rightarrow> u64 \<Rightarrow> AgentState \<Rightarrow> (string + Duration) \<times> AgentState" where
  "agent_refresh_once c resolver now st =
     (let (result, r) = refresh_once c resolver (opt_srv (agent_options st)) now (agent_ring st)
      in (result, st\<lparr>agent_ring := r\<rparr>))"

section \<open>What a forwarded request does\<close>

lemma on_metrics_ring [simp]: "agent_ring (on_metrics f st) = agent_ring st"
  by (simp add: on_metrics_def)

lemma count_ring [simp]:
  "agent_ring (count_unavailable p st) = agent_ring st" "agent_ring (count_outcome p s st) = agent_ring st"
  "agent_ring (snd (degrade cls e st)) = agent_ring st"
  by (simp_all add: count_unavailable_def count_outcome_def degrade_def split: RouteClass.splits)

definition degraded :: "RouteClass \<Rightarrow> bool \<Rightarrow> StatusCode" where
  "degraded cls empty_ring =
     (case cls of BuildCacheRead \<Rightarrow> 404 | BuildCacheWrite \<Rightarrow> 200 | Passthrough \<Rightarrow> if empty_ring then 503 else 502)"

lemma degrade_response: "fst (degrade cls e st) = status_response (degraded cls e)"
  by (simp add: degrade_def degraded_def split: RouteClass.splits)

text \<open>The cases of a forwarded request: refused, not placed, answered, failed.\<close>

definition is_channel_path :: "string \<Rightarrow> bool" where
  "is_channel_path path \<longleftrightarrow> path = ''/channels'' \<or> starts_with ''/channels/'' path"

definition routed_position :: "crates \<Rightarrow> Request \<Rightarrow> u64 option" where
  "routed_position c request =
     (let routed = classify (req_method request) (req_path request) in key_position c (routed_kind routed) (routed_id routed))"

abbreviation request_class :: "Request \<Rightarrow> RouteClass" where
  "request_class request \<equiv> routed_class (classify (req_method request) (req_path request))"

lemma forward_request_cases:
  assumes "forward_request c send t1 t2 request p (st, w) = (resp, st', w')"
  obtains (refused) "is_channel_path (req_path request) \<or> routed_position c request = None"
      "resp = status_response (if is_channel_path (req_path request) then 501 else 414)" "st' = st" "w' = w"
  | (unplaced) pos where "\<not> is_channel_path (req_path request)" "routed_position c request = Some pos"
      "owner (fst (ring c t1 (agent_ring st))) pos = None"
      "resp = status_response (degraded (request_class request) True)"
      "agent_ring st' = snd (ring c t1 (agent_ring st))" "w' = w"
  | (answered) pos m r where "\<not> is_channel_path (req_path request)" "routed_position c request = Some pos"
      "owner (fst (ring c t1 (agent_ring st))) pos = Some m"
      "send (upstream_request request (member_address m)) w = (Inr r, w')" "resp = proxied_response r"
      "agent_ring st' = record_success (member_id m) (snd (ring c t1 (agent_ring st)))"
  | (failed) pos m e where "\<not> is_channel_path (req_path request)" "routed_position c request = Some pos"
      "owner (fst (ring c t1 (agent_ring st))) pos = Some m"
      "send (upstream_request request (member_address m)) w = (Inl e, w')"
      "resp = status_response (degraded (request_class request) False)"
      "agent_ring st' = (if is_connect e \<or> is_timeout e
         then snd (record_failure c t2 (member_id m) (snd (ring c t1 (agent_ring st))))
         else snd (ring c t1 (agent_ring st)))"
proof (cases "is_channel_path (req_path request) \<or> routed_position c request = None")
  case True
  then show ?thesis using assms
    by (intro refused) (auto simp: forward_request_def Let_def is_channel_path_def routed_position_def split: if_splits)
next
  case False
  then obtain pos where pos: "\<not> is_channel_path (req_path request)" "routed_position c request = Some pos" by auto
  let ?r = "ring c t1 (agent_ring st)"
  note unfold = forward_request_def Let_def is_channel_path_def routed_position_def case_prod_beta
  show ?thesis
  proof (cases "owner (fst ?r) pos")
    case None
    with assms pos show ?thesis by (intro unplaced [OF pos None]) (auto simp: unfold degrade_response)
  next
    case (Some m)
    obtain x w2 where x: "send (upstream_request request (member_address m)) w = (x, w2)" by (meson surj_pair)
    show ?thesis
    proof (cases x)
      case (Inl e)
      with assms pos Some x show ?thesis
        by (intro failed [OF pos Some, of e]) (auto simp: unfold degrade_response record_send_failure_def)
    next
      case (Inr r)
      with assms pos Some x show ?thesis by (intro answered [OF pos Some, of r]) (auto simp: unfold)
    qed
  qed
qed

lemma forward_ring_steps:
  assumes "forward_request c send t1 t2 request p (st, w) = (resp, st', w')"
  shows "(ring_step c)\<^sup>*\<^sup>* (agent_ring st) (agent_ring st')"
proof -
  let ?r = "snd (ring c t1 (agent_ring st))"
  have route: "(ring_step c)\<^sup>*\<^sup>* (agent_ring st) ?r" by (rule r_into_rtranclp) (rule ring_step.route)
  from assms show ?thesis
  proof (cases rule: forward_request_cases)
    case (answered pos m r)
    then show ?thesis using rtranclp.rtrancl_into_rtrancl [OF route ring_step.success] by simp
  next
    case (failed pos m e)
    then show ?thesis using rtranclp.rtrancl_into_rtrancl [OF route ring_step.failure] route by simp
  qed (use route in simp_all)
qed

text \<open>The answer, the routing state and the client's state depend on the routing state alone.\<close>

lemma forward_request_same:
  assumes a: "forward_request c send t1 t2 request p (st, w) = (resp, st', w')"
    and b: "forward_request c send t1 t2 request q (s2, w) = (resp2, s2', w2)" and "agent_ring s2 = agent_ring st"
  shows "resp2 = resp \<and> agent_ring s2' = agent_ring st' \<and> w2 = w'"
  using a
proof (cases rule: forward_request_cases)
  case A: refused
  from b show ?thesis by (cases rule: forward_request_cases) (use A assms(3) in auto)
next
  case A: (unplaced pos)
  from b show ?thesis by (cases rule: forward_request_cases) (use A assms(3) in auto)
next
  case A: (answered pos m r)
  from b show ?thesis by (cases rule: forward_request_cases) (use A assms(3) in auto)
next
  case A: (failed pos m e)
  from b show ?thesis by (cases rule: forward_request_cases) (use A assms(3) in auto)
qed

text \<open>Forwarding leaves the life-cycle counters of prefetches to the observation.\<close>

definition life :: "AgentMetrics \<Rightarrow> nat \<times> int \<times> nat \<times> nat" where
  "life m = (agent_prefetch_requests m, agent_prefetch_in_flight m, prefetch_completed m, prefetch_cancelled m)"

lemma life_on_metrics:
  "(\<And>m. life (f m) = life m) \<Longrightarrow> life (agent_metrics (on_metrics f st)) = life (agent_metrics st)"
  by (simp add: on_metrics_def)

lemma life_counts [simp]:
  "life (agent_metrics (count_unavailable p st)) = life (agent_metrics st)"
  "life (agent_metrics (count_outcome p s st)) = life (agent_metrics st)"
  "life (agent_metrics (snd (degrade cls e st))) = life (agent_metrics st)"
  "life (agent_metrics (record_send_failure c t i err st)) = life (agent_metrics st)"
  by (auto simp: count_unavailable_def count_outcome_def degrade_def record_send_failure_def on_metrics_def life_def
      Let_def split: RouteClass.splits prod.splits)

lemma life_forward:
  "life (agent_metrics (fst (snd (forward_request c send t1 t2 request p (st, w))))) = life (agent_metrics st)"
  by (auto simp: forward_request_def Let_def case_prod_beta split: option.splits sum.splits)
    (simp add: on_metrics_def life_def)

lemma routable_after_ring:
  assumes "discovery_ok c st" and "now \<le> t"
  shows "routable c t (snd (ring c now st)) = routable c t st"
proof (cases "no_retry_due now (inner st)")
  case True
  then show ?thesis by (simp add: ring_def)
next
  case False
  then have "members (inner (snd (ring c now st))) = map (readmitted now) (members (inner st))"
    by (simp add: ring_def readmit_def Let_def rebuild_parts)
  then show ?thesis
    using readmitted_ids [OF assms(2)] by (simp add: routable_iff [OF assms(1)] routable_iff [OF ring_ok [OF assms(1)]])
qed

lemma class_not_channel:
  assumes "request_class request \<noteq> Passthrough"
  shows "\<not> is_channel_path (req_path request)"
proof
  assume "is_channel_path (req_path request)"
  then consider "req_path request = ''/channels''" | rest where "req_path request = ''/channels/'' @ rest"
    using take_prefix_iff [of "''/channels/''" "req_path request"]
    unfolding is_channel_path_def starts_with_def by blast
  then have "hd (split_on CHR ''/'' (trim_start_matches CHR ''/'' (req_path request))) = ''channels''"
    by cases (simp_all add: trim_start_matches_def)
  with assms show False
    by (auto simp: classify_def Let_def split: option.splits if_splits)
qed

lemma length_split_on: "x \<in> set (split_on sep s) \<Longrightarrow> length x \<le> length s"
proof (induction s arbitrary: x)
  case (Cons a s)
  then show ?case
    by (cases "split_on sep s") (auto split: if_splits dest: Cons.IH intro: le_SucI)
qed simp

lemma class_has_position:
  assumes "request_class request \<noteq> Passthrough" and "length (req_path request) < 2 ^ 16"
  shows "routed_position c request \<noteq> None"
proof -
  let ?seg = "split_on CHR ''/'' (trim_start_matches CHR ''/'' (req_path request))"
  from assms(1) obtain kind ident where o: "object_of ?seg = Some (kind, ident)"
    by (auto simp: classify_def Let_def split: option.splits)
  then have kind: "length kind < 2 ^ 16" and "ident \<in> set ?seg"
    by (auto simp: object_of_def split: list.splits if_splits)
  then have "length ident \<le> length (trim_start_matches CHR ''/'' (req_path request))"
    by (simp add: length_split_on)
  also have "\<dots> \<le> length (req_path request)" by (simp add: trim_start_matches_def length_dropWhile_le)
  finally have "length ident < 2 ^ 16" using assms(2) by simp
  with kind o show ?thesis
    by (auto simp: routed_position_def classify_def Let_def key_position_def routing_key_def routing_version_def)
qed

lemma classify_method_free:
  "routed_kind (classify m path) = routed_kind (classify GET path) \<and> routed_id (classify m path) = routed_id (classify GET path)"
  by (simp add: classify_def Let_def split: option.splits prod.splits)

section \<open>Properties\<close>

lemma triple_parts: "x = (fst x, fst (snd x), snd (snd x))"
  by simp

text \<open>A client that records what it is asked to send.\<close>

definition recording :: "(Upstream \<Rightarrow> SendError + Response) \<Rightarrow> Upstream list client" where
  "recording reply u log = (reply u, log @ [u])"

text \<open>
  A request is sent at most once, whatever the backend answers, and only to the owner of
  its object: the member whose identity the continuum of the currently eligible members gives
  for the key of the path, at that member's address. The method has no part in the choice,
  and the routing state moves by its own operations only.
\<close>

theorem forwards_once_to_the_owner:
  assumes "(ring_step c)\<^sup>*\<^sup>* (RingState_new c limit timeout) (agent_ring st)"
    and "forward_request c (recording reply) t1 t2 request p (st, log) = (resp, st', log')"
  shows "(ring_step c)\<^sup>*\<^sup>* (agent_ring st) (agent_ring st')
    \<and> (log' = log \<or> (\<exists>h \<in> set (members (inner (agent_ring st))). \<exists>pos.
        eligible t1 h
        \<and> key_position c (routed_kind (classify GET (req_path request))) (routed_id (classify GET (req_path request))) = Some pos
        \<and> clockwise_owner c (routable c t1 (agent_ring st)) pos = Some (health_id h)
        \<and> log' = log @ [upstream_request request (member_address (health_member h))]))"
proof -
  have ok: "discovery_ok c (agent_ring st)" by (rule reachable_ok [OF assms(1)])
  have sent: ?thesis if pos: "routed_position c request = Some pos"
    and own: "owner (fst (ring c t1 (agent_ring st))) pos = Some m"
    and log: "log' = log @ [upstream_request request (member_address m)]" for pos m
  proof -
    let ?es = "filter (eligible t1) (members (inner (agent_ring st)))"
    have r: "fst (ring c t1 (agent_ring st)) = Ring_new c (map health_member ?es)" by (rule ring_is_eligible [OF ok])
    from owner_member [OF own [unfolded r]] obtain h where h: "h \<in> set (members (inner (agent_ring st)))" "eligible t1 h" "m = health_member h"
      by auto
    have "member_id ` set (map health_member ?es) = routable c t1 (agent_ring st)"
      by (auto simp: routable_iff [OF ok])
    then have "clockwise_owner c (routable c t1 (agent_ring st)) pos = Some (health_id h)"
      using owner_clockwise [of c "map health_member ?es" pos] own r h(3) by simp
    with h pos log forward_ring_steps [OF assms(2)] show ?thesis
      by (auto simp: routed_position_def Let_def classify_method_free [of "req_method request" "req_path request"])
  qed
  from assms(2) show ?thesis
    by (cases rule: forward_request_cases) (use forward_ring_steps [OF assms(2)] sent in \<open>auto simp: recording_def\<close>)
qed

definition demo_request :: "Method \<Rightarrow> Request" where
  "demo_request meth =
     \<lparr>req_method = meth, req_path = ''/build-cache/http/k'', req_path_and_query = Some ''/build-cache/http/k'',
      req_headers = [], req_body = []\<rparr>"

definition demo_agent :: AgentState where
  "demo_agent =
     (Agent_new demo_crates (run_options \<lparr>arg_srv = ''srv'', arg_refresh_max = 30, arg_failure_limit = 1,
        arg_retry_timeout = 30, arg_connect_timeout = 5, arg_deadline = 60\<rparr>))\<lparr>agent_ring := demo_ring_state\<rparr>"

lemma demo_agent_ring [simp]: "agent_ring demo_agent = demo_ring_state"
  by (simp add: demo_agent_def)

lemma demo_agent_reachable: "(ring_step demo_crates)\<^sup>*\<^sup>* (RingState_new demo_crates 1 30) (agent_ring demo_agent)"
  using demo_reachable by simp

theorem forwards_once_to_the_owner_witness:
  "length (snd (snd (forward_request demo_crates (recording (\<lambda>_. Inr (status_response 200))) 101 102
      (demo_request GET) False (demo_agent, [])))) \<le> 1"
  using forwards_once_to_the_owner [OF demo_agent_reachable triple_parts,
      of "\<lambda>_. Inr (status_response 200)" 101 102 "demo_request GET" False "[]"]
  by auto

text \<open>
  C25. When no backend answers, because the ring is empty or the send fails, the route decides:
  a build-cache read is a miss, a build-cache write is accepted and dropped, and every other
  request is an upstream error. A build therefore never sees an error from its cache. Paths
  are shorter than 64 KiB, as the URI type guarantees.
\<close>

theorem failures_degrade_by_route:
  assumes "forward_request c send t1 t2 request p (st, w) = (resp, st', w')"
    and "\<forall>u. \<exists>e w2. send u w = (Inl e, w2)" and "length (req_path request) < 2 ^ 16"
  shows "case request_class request of
      BuildCacheRead \<Rightarrow> resp = status_response 404 \<and> req_method request \<in> {GET, HEAD}
    | BuildCacheWrite \<Rightarrow> resp = status_response 200 \<and> req_method request \<in> {PUT, POST}
    | Passthrough \<Rightarrow> resp_status resp \<in> {501, 414, 503, 502}"
proof -
  have meth: "request_class request = BuildCacheRead \<Longrightarrow> req_method request \<in> {GET, HEAD}"
    "request_class request = BuildCacheWrite \<Longrightarrow> req_method request \<in> {PUT, POST}"
    by (auto simp: classify_def Let_def split: option.splits if_splits prod.splits)
  have placed: "\<not> is_channel_path (req_path request) \<and> routed_position c request \<noteq> None" if "request_class request \<noteq> Passthrough"
    using class_not_channel class_has_position that assms(3) by blast
  from assms(1) show ?thesis
  proof (cases rule: forward_request_cases)
    case refused
    then have "request_class request = Passthrough" using placed by (cases "request_class request = Passthrough") auto
    with refused show ?thesis by (simp add: status_response_def)
  next
    case (answered pos m r)
    with assms(2) show ?thesis by (metis Inl_Inr_False prod.inject)
  qed (use meth in \<open>auto simp: degraded_def status_response_def split: RouteClass.splits\<close>)
qed

theorem failures_degrade_by_route_witness:
  "fst (forward_request demo_crates (\<lambda>u w. (Inl \<lparr>is_connect = True, is_timeout = False\<rparr>, w)) 101 102
      (demo_request GET) False (demo_agent, ())) = status_response 404"
  using failures_degrade_by_route [OF triple_parts, of "\<lambda>u w. (Inl \<lparr>is_connect = True, is_timeout = False\<rparr>, w)" "()" "demo_request GET" demo_crates 101 102 False demo_agent]
  by (simp add: demo_request_def classify_def trim_start_matches_def object_of_def Let_def)

text \<open>
  A send that fails for another reason than a refused connection or a timeout, such as a
  client that breaks off its own upload, never ejects a backend: from the routing decision on,
  requests are routed to exactly the members they would have been routed to without it.
\<close>

theorem client_abort_never_ejects:
  assumes "(ring_step c)\<^sup>*\<^sup>* (RingState_new c limit timeout) (agent_ring st)"
    and "forward_request c send t1 t2 request p (st, w) = (resp, st', w')"
    and "\<forall>u e w2. send u w = (Inl e, w2) \<longrightarrow> \<not> is_connect e \<and> \<not> is_timeout e" and "t1 \<le> t"
  shows "routable c t (agent_ring st') = routable c t (agent_ring st)"
proof -
  have ok: "discovery_ok c (agent_ring st)" by (rule reachable_ok [OF assms(1)])
  note same = routable_after_ring [OF ok assms(4)]
  from assms(2) show ?thesis
  proof (cases rule: forward_request_cases)
    case (answered pos m r)
    let ?r = "snd (ring c t1 (agent_ring st))"
    have "placement (members (inner (record_success (member_id m) ?r))) = placement (members (inner ?r))"
      using found_iff [OF ring_ok [OF ok]] placement_update
      by (auto simp: record_success_def split: option.splits)
    then show ?thesis
      using routable_placement [OF ring_ok [OF ok] success_ok [OF ring_ok [OF ok]]] same answered by simp
  qed (use same assms(3) in auto)
qed

theorem client_abort_never_ejects_witness:
  "routable demo_crates 110 (agent_ring (fst (snd (forward_request demo_crates
      (\<lambda>u w. (Inl \<lparr>is_connect = False, is_timeout = False\<rparr>, w)) 101 102 (demo_request PUT) False (demo_agent, ())))))
   = routable demo_crates 110 demo_ring_state"
  using client_abort_never_ejects [OF demo_agent_reachable triple_parts,
      of "\<lambda>u w. (Inl \<lparr>is_connect = False, is_timeout = False\<rparr>, w)" "()" 101 110 102 "demo_request PUT" False]
  by simp

text \<open>
  Marking a request as a prefetch changes nothing but counters: the response, the traffic
  to backends and the routing state are those of the unmarked request. Over the life of its
  body the request is counted once as started and once as completed or cancelled, completed
  exactly when the client read the body to its end, and the in-flight gauge is back where
  it was.
\<close>

theorem prefetch_is_only_counted:
  assumes "forward c send t1 t2 polls request (st, w) = (resp, st', w')" and "is_prefetch request"
  shows "case forward_request c send t1 t2 request False (st, w) of (plain, st2, w2) \<Rightarrow>
      resp = plain\<lparr>resp_body := take polls (resp_body plain)\<rparr> \<and> agent_ring st' = agent_ring st2 \<and> w' = w2
      \<and> agent_prefetch_requests (agent_metrics st') = agent_prefetch_requests (agent_metrics st) + 1
      \<and> agent_prefetch_in_flight (agent_metrics st') = agent_prefetch_in_flight (agent_metrics st)
      \<and> prefetch_completed (agent_metrics st') =
          prefetch_completed (agent_metrics st) + (if length (resp_body plain) < polls then 1 else 0)
      \<and> prefetch_cancelled (agent_metrics st') =
          prefetch_cancelled (agent_metrics st) + (if length (resp_body plain) < polls then 0 else 1)"
proof -
  let ?s0 = "on_metrics (\<lambda>m. m\<lparr>agent_requests := agent_requests m + 1\<rparr>) st"
  let ?session = "Option.bind (header_get (req_headers request) request_session_header) header_str"
  let ?conc = "Option.bind (Option.bind (header_get (req_headers request) request_prefetch_concurrency_header) header_str)
                  parse_unsigned"
  obtain obs m where om: "observation_start agent_prefetch_started ?session ?conc (agent_metrics ?s0) = (obs, m)"
    by (meson surj_pair)
  obtain r1 s1 w1 where f: "forward_request c send t1 t2 request True (?s0\<lparr>agent_metrics := m\<rparr>, w) = (r1, s1, w1)"
    by (rule prod_cases3)
  obtain r0 s2 w2 where plain: "forward_request c send t1 t2 request False (st, w) = (r0, s2, w2)"
    by (rule prod_cases3)
  let ?s1 = "on_metrics (\<lambda>m. m\<lparr>forward_durations := forward_durations m + 1\<rparr>) s1"
  obtain r2 m2 where o2: "observe_prefetch_body agent_prefetch_response agent_prefetch_finished polls r1
      (obs, agent_metrics ?s1) = (r2, m2)" by (meson surj_pair)
  have eqs: "resp = r2" "st' = ?s1\<lparr>agent_metrics := m2\<rparr>" "w' = w1"
    using assms om f o2 by (simp_all add: forward_def Let_def)
  have same: "r1 = r0" "agent_ring s1 = agent_ring s2" "w1 = w2" using forward_request_same [OF plain f] by simp_all
  have "life (agent_metrics ?s1) = life m"
    using life_forward [of c send t1 t2 request True "?s0\<lparr>agent_metrics := m\<rparr>" w] f
    by (simp add: on_metrics_def life_def)
  moreover have "life (agent_metrics ?s0) = life (agent_metrics st)" by (simp add: on_metrics_def life_def)
  ultimately show ?thesis
    using agent.observed_start [OF om] agent.observed_body [OF o2] plain eqs same by (simp add: life_def)
qed

definition demo_prefetch :: Request where
  "demo_prefetch = (demo_request GET)\<lparr>req_headers := [(request_purpose_header, str_bytes request_purpose_prefetch)]\<rparr>"

theorem prefetch_is_only_counted_witness:
  "agent_prefetch_in_flight (agent_metrics (fst (snd (forward demo_crates (recording (\<lambda>_. Inr (status_response 200)))
      101 102 1 demo_prefetch (demo_agent, []))))) = 0"
proof -
  have "is_prefetch demo_prefetch" by (simp add: is_prefetch_def demo_prefetch_def header_get_def)
  from prefetch_is_only_counted [OF triple_parts this, of demo_crates "recording (\<lambda>_. Inr (status_response 200))" 101 102 1 demo_agent "[]"]
  show ?thesis by (auto simp: demo_agent_def Agent_new_def AgentMetrics_new_def split: prod.splits)
qed

end
