(* ===== verification/Request_Identity.thy ===== *)
theory Request_Identity
  imports Agent Http_Packages
begin

text \<open>
  What the shard's request span calls a request (\<open>server_request_identity\<close> of
  \<open>src/transport/http/mod.rs\<close>), and that it names the object the agent routes by.
\<close>

text \<open>The route the framework matched, if any, names what has no object.\<close>

definition server_request_identity :: "Route \<Rightarrow> string \<Rightarrow> string \<times> string" where
  "server_request_identity route path =
     (let raw = split_on CHR ''/'' (trim_start_matches CHR ''/'' path);
          segments = (case raw of a # b # rest \<Rightarrow> if a = ''channels'' then rest else raw | _ \<Rightarrow> raw);
          fallback = (matched_path route, [])
      in case segments of
           [a, x] \<Rightarrow> if a = ''references'' then (''reference'', x) else fallback
         | [a, b, x] \<Rightarrow>
             if a = ''artifacts'' then (''artifact'', x)
             else if a = ''build-cache'' \<and> b = ''http'' then (''http-cache'', x)
             else if a = ''proxy'' then (b, join_with ''/'' [x])
             else fallback
         | a # b # d # x # rest \<Rightarrow>
             if rest = [] \<and> a = ''build-cache'' \<and> b = ''bazel'' \<and> d = ''cas'' then (''artifact'', x)
             else if rest = [] \<and> a = ''build-cache'' \<and> b = ''bazel'' \<and> d = ''ac'' then (''bazel-action'', x)
             else if a = ''proxy'' then (b, join_with ''/'' (d # x # rest))
             else fallback
         | _ \<Rightarrow> fallback)"

lemma identity_of_segments:
  assumes "segments = split_on CHR ''/'' (trim_start_matches CHR ''/'' path)" and "hd segments \<noteq> ''channels''"
  shows "server_request_identity route path =
    (case object_of segments of
       Some found \<Rightarrow> found
     | None \<Rightarrow> (case proxied_of segments of Some found \<Rightarrow> found | None \<Rightarrow> (matched_path route, [])))"
proof -
  consider "segments = []" | a where "segments = [a]" | a b where "segments = [a, b]" | a b d where "segments = [a, b, d]"
    | a b d x rest where "segments = a # b # d # x # rest"
    by (metis list.exhaust)
  then show ?thesis using assms(2)
    by cases (simp_all add: server_request_identity_def Let_def assms(1) [symmetric] object_of_def proxied_of_def split: list.split)
qed

lemma split_first: "a \<noteq> [] \<Longrightarrow> CHR ''/'' \<notin> set a \<Longrightarrow>
  split_on CHR ''/'' (trim_start_matches CHR ''/'' (CHR ''/'' # a @ CHR ''/'' # rest)) = a # split_on CHR ''/'' rest"
proof -
  have split: "split_on CHR ''/'' (b @ CHR ''/'' # rest) = b # split_on CHR ''/'' rest" if "CHR ''/'' \<notin> set b" for b
    using that by (induction b) auto
  assume "a \<noteq> []" "CHR ''/'' \<notin> set a"
  then show ?thesis using split [of a] by (cases a) (auto simp: trim_start_matches_def)
qed
lemma split_slash: "p = [] \<or> hd p \<noteq> CHR ''/'' \<Longrightarrow> trim_start_matches CHR ''/'' (CHR ''/'' # p) = p"
  by (cases p) (auto simp: trim_start_matches_def)

lemma split_nonempty: "split_on sep s \<noteq> []"
  by (induction s) (auto split: list.splits)

lemma identity_in_channel:
  assumes "CHR ''/'' \<notin> set ch" and "p = [] \<or> hd p \<noteq> CHR ''/''" and "hd (split_on CHR ''/'' p) \<noteq> ''channels''"
  shows "server_request_identity route (''/channels/'' @ ch @ ''/'' @ p) = server_request_identity route (''/'' @ p)"
proof -
  have inner: "split_on CHR ''/'' (ch @ CHR ''/'' # p) = ch # split_on CHR ''/'' p" using assms(1) by (induction ch) auto
  have raw: "split_on CHR ''/'' (trim_start_matches CHR ''/'' (''/channels/'' @ ch @ ''/'' @ p)) = ''channels'' # ch # split_on CHR ''/'' p"
    using split_first [of "''channels''" "ch @ CHR ''/'' # p"] inner by simp
  have bare: "split_on CHR ''/'' (trim_start_matches CHR ''/'' (''/'' @ p)) = split_on CHR ''/'' p"
    using split_slash [OF assms(2)] by simp
  have same: "(case split_on CHR ''/'' p of a # b # rest \<Rightarrow> if a = ''channels'' then rest else split_on CHR ''/'' p | _ \<Rightarrow> split_on CHR ''/'' p)
      = split_on CHR ''/'' p"
    using assms(3) by (auto split: list.split)
  show ?thesis unfolding server_request_identity_def Let_def raw bare same by simp
qed

text \<open>
  C34. Agent and shard name requests alike. For a path outside the channels the agent's
  classification, which the code says mirrors the routes of the shard, is the shard's own
  name of the request, kind and key, except for the paths that have no object: those the
  agent keys by the whole path and the shard by the matched route. Under a channel's prefix
  the shard names a request as without it.
\<close>

theorem agent_and_shard_name_alike:
  assumes "CHR ''/'' \<notin> set ch" and "p = [] \<or> hd p \<noteq> CHR ''/''" and "hd (split_on CHR ''/'' p) \<noteq> ''channels''"
  shows "server_request_identity route (''/channels/'' @ ch @ ''/'' @ p) = server_request_identity route (''/'' @ p)
    \<and> (server_request_identity route (''/'' @ p) = (routed_kind (classify meth (''/'' @ p)), routed_id (classify meth (''/'' @ p)))
      \<or> classify meth (''/'' @ p) = \<lparr>routed_kind = ''path'', routed_id = ''/'' @ p, routed_class = Passthrough\<rparr>
        \<and> server_request_identity route (''/'' @ p) = (matched_path route, []))"
proof -
  let ?segments = "split_on CHR ''/'' (trim_start_matches CHR ''/'' (''/'' @ p))"
  have "hd ?segments \<noteq> ''channels''" using assms(2,3) split_slash by simp
  note named = identity_of_segments [OF refl this]
  show ?thesis
  proof (intro conjI)
    show "server_request_identity route (''/channels/'' @ ch @ ''/'' @ p) = server_request_identity route (''/'' @ p)"
      by (rule identity_in_channel [OF assms])
    show "server_request_identity route (''/'' @ p) = (routed_kind (classify meth (''/'' @ p)), routed_id (classify meth (''/'' @ p)))
      \<or> classify meth (''/'' @ p) = \<lparr>routed_kind = ''path'', routed_id = ''/'' @ p, routed_class = Passthrough\<rparr>
        \<and> server_request_identity route (''/'' @ p) = (matched_path route, [])"
      unfolding named
      by (cases "object_of ?segments"; cases "proxied_of ?segments") (auto simp: classify_def Let_def)
  qed
qed

theorem agent_and_shard_name_alike_witness:
  "server_request_identity (Data (Some ''c'') (HttpCacheAt ''k'')) ''/channels/c/build-cache/http/k'' = (''http-cache'', ''k'')
   \<and> routed_kind (classify GET ''/build-cache/http/k'') = ''http-cache''"
  using agent_and_shard_name_alike [of "''c''" "''build-cache/http/k''" "Data (Some ''c'') (HttpCacheAt ''k'')" GET]
  by (auto simp: classify_def trim_start_matches_def object_of_def)

end
