(* ===== verification/Agent_Server.thy ===== *)
theory Agent_Server
  imports Agent Flywheel
begin

text \<open>
  The agent as a running process (\<open>src/agent/mod.rs\<close>): how it is opened, which requests it
  answers itself and which it forwards, and the runs in which requests and discovery passes
  interleave.
\<close>

section \<open>Opening\<close>

text \<open>\<open>AgentMetrics::new\<close> registers every collector under its name.\<close>

definition agent_collectors :: "string list" where
  "agent_collectors =
     [''flywheel_agent_requests_total'', ''flywheel_agent_forwarded_total'', ''flywheel_agent_forward_duration_seconds'',
      ''flywheel_agent_forward_failures_total'', ''flywheel_agent_synthesized_misses_total'',
      ''flywheel_agent_synthesized_write_bypasses_total'', ''flywheel_agent_unavailable_total'', ''flywheel_agent_ejections_total'',
      ''flywheel_agent_prefetch_requests_total'', ''flywheel_agent_prefetch_hits_total'', ''flywheel_agent_prefetch_misses_total'',
      ''flywheel_agent_prefetch_unavailable_total'', ''flywheel_agent_prefetch_response_bytes_total'',
      ''flywheel_agent_prefetch_in_flight'', ''flywheel_agent_prefetch_completed_total'', ''flywheel_agent_prefetch_cancelled_total'',
      ''flywheel_agent_prefetch_transfer_duration_seconds'', ''flywheel_agent_ring_members'', ''flywheel_agent_ring_ejected'']"

definition AgentMetrics_register :: "string + AgentMetrics" where
  "AgentMetrics_register = bind_sum (register_all [] agent_collectors) (\<lambda>_. Inr AgentMetrics_new)"

text \<open>\<open>client\<close> is the outcome of building the HTTP client.\<close>

definition Agent_open :: "crates \<Rightarrow> string + unit \<Rightarrow> AgentOptions \<Rightarrow> string + AgentState" where
  "Agent_open c client options =
     bind_sum client (\<lambda>_.
     bind_sum AgentMetrics_register (\<lambda>m. Inr ((Agent_new c options)\<lparr>agent_metrics := m\<rparr>)))"

section \<open>The router\<close>

datatype AgentRoute = AgentLive | AgentReady | AgentMetricsPage | AgentStatusPage

definition agent_route :: "string \<Rightarrow> AgentRoute option" where
  "agent_route path =
     (if path = ''/health/live'' then Some AgentLive
      else if path = ''/health/ready'' then Some AgentReady
      else if path = ''/metrics'' then Some AgentMetricsPage
      else if path = ''/status'' then Some AgentStatusPage
      else None)"

text \<open>What encodes the metrics and the status.\<close>

record agent_encoders =
  encode_metrics :: "AgentMetrics \<Rightarrow> string + bytes"
  encode_status :: "AgentStatus \<Rightarrow> string + bytes"

definition agent_status_handler :: "agent_encoders \<Rightarrow> u64 \<Rightarrow> AgentState \<Rightarrow> Response" where
  "agent_status_handler enc now st =
     (case encode_status enc (agent_status now st) of
        Inr body \<Rightarrow> \<lparr>resp_status = 200, resp_headers = [(''content-type'', str_bytes ''application/json'')], resp_body = [Inr body]\<rparr>
      | Inl _ \<Rightarrow> status_response 500)"

definition agent_control :: "agent_encoders \<Rightarrow> u64 \<Rightarrow> AgentRoute \<Rightarrow> AgentState \<Rightarrow> Response \<times> AgentState" where
  "agent_control enc now route st =
     (case route of
        AgentLive \<Rightarrow> (status_response 200, st)
      | AgentReady \<Rightarrow> (status_response 200, st)
      | AgentMetricsPage \<Rightarrow> agent_metrics_handler (encode_metrics enc) now st
      | AgentStatusPage \<Rightarrow> (agent_status_handler enc now st, st))"

text \<open>
  A path of the table answers \<open>GET\<close> and, with the body dropped by the framework, \<open>HEAD\<close>; every
  other path is forwarded, whatever the method. The clock is read when the request is answered
  or routed, and again when a send has failed.
\<close>

definition agent_router ::
  "crates \<Rightarrow> agent_encoders \<Rightarrow> 'w client \<Rightarrow> u64 \<Rightarrow> u64 \<Rightarrow> nat \<Rightarrow> Request \<Rightarrow> AgentState \<times> 'w \<Rightarrow> Response \<times> AgentState \<times> 'w" where
  "agent_router c enc send now failed_at polls request = (\<lambda>(st, w).
     case agent_route (req_path request) of
       Some route \<Rightarrow>
         if \<not> reads request then (status_response 405, st, w)
         else
           let (response, st) = agent_control enc now route st
           in (if req_method request = HEAD then response\<lparr>resp_body := []\<rparr> else response, st, w)
     | None \<Rightarrow> forward c send now failed_at polls request (st, w))"

section \<open>Runs\<close>

text \<open>
  Requests and iterations of the discovery loop of a running agent, with the backoff of the
  loop and the world of the HTTP client. \<open>resolver\<close> and \<open>jitter\<close> are what the resolver answers
  and the generator draws in that iteration.
\<close>

inductive agent_step ::
  "crates \<Rightarrow> agent_encoders \<Rightarrow> 'w client \<Rightarrow> AgentState \<times> Duration \<times> 'w \<Rightarrow> AgentState \<times> Duration \<times> 'w \<Rightarrow> bool" for c enc send where
  request: "agent_router c enc send now failed_at polls r (st, w) = (response, st', w') \<Longrightarrow>
    agent_step c enc send (st, backoff, w) (st', backoff, w')"
| discovery: "run_step c jitter resolver (opt_srv (agent_options st)) (opt_refresh_max (agent_options st)) now (backoff, agent_ring st)
      = Some (delay, backoff', r) \<Longrightarrow>
    agent_step c enc send (st, backoff, w) (st\<lparr>agent_ring := r\<rparr>, backoff', w)"

inductive_cases agent_stepE: "agent_step c enc send s s'"

section \<open>What a running agent keeps\<close>

lemma agent_collectors_register: "register_all [] agent_collectors = Inr agent_collectors"
  by (simp add: agent_collectors_def)

lemma Agent_open_ok: "Agent_open c (Inr ()) options = Inr (Agent_new c options)"
  by (simp add: Agent_open_def AgentMetrics_register_def agent_collectors_register bind_sum_def Agent_new_def)

lemma forward_parts:
  assumes "forward c send t1 t2 polls request (st, w) = (resp, st', w')"
  obtains plain st2 where "forward_request c send t1 t2 request False (st, w) = (plain, st2, w')"
    and "agent_ring st' = agent_ring st2" and "agent_options st' = agent_options st"
proof -
  obtain r0 s2 w2 where plain: "forward_request c send t1 t2 request False (st, w) = (r0, s2, w2)" by (rule prod_cases3)
  have same: "agent_ring s = agent_ring s2 \<and> v = w2"
    if "forward_request c send t1 t2 request p (st3, w) = (r, s, v)" "agent_ring st3 = agent_ring st" for p st3 r s v
    using forward_request_same [OF plain that] by simp
  have opts: "agent_options (fst (snd (forward_request c send t1 t2 request p (st3, w)))) = agent_options st3" for p st3
    by (auto simp: forward_request_def Let_def case_prod_beta record_send_failure_def degrade_def count_unavailable_def count_outcome_def
        on_metrics_def split: option.splits sum.splits RouteClass.splits)
  let ?s0 = "on_metrics (\<lambda>m. m\<lparr>agent_requests := agent_requests m + 1\<rparr>) st"
  have s0: "agent_ring (?s0\<lparr>agent_metrics := m\<rparr>) = agent_ring st" "agent_options (?s0\<lparr>agent_metrics := m\<rparr>) = agent_options st"
    "agent_ring ?s0 = agent_ring st" "agent_options ?s0 = agent_options st" for m by (simp_all add: on_metrics_def)
  have "agent_ring st' = agent_ring s2 \<and> w' = w2 \<and> agent_options st' = agent_options st"
  proof (cases "is_prefetch request")
    case True
    let ?session = "Option.bind (header_get (req_headers request) request_session_header) header_str"
    let ?conc = "Option.bind (Option.bind (header_get (req_headers request) request_prefetch_concurrency_header) header_str) parse_unsigned"
    obtain obs m where om: "observation_start agent_prefetch_started ?session ?conc (agent_metrics ?s0) = (obs, m)" by (meson surj_pair)
    obtain r1 s1 w1 where f: "forward_request c send t1 t2 request True (?s0\<lparr>agent_metrics := m\<rparr>, w) = (r1, s1, w1)" by (rule prod_cases3)
    let ?s1 = "on_metrics (\<lambda>m. m\<lparr>forward_durations := forward_durations m + 1\<rparr>) s1"
    obtain r2 m2 where o2: "observe_prefetch_body agent_prefetch_response agent_prefetch_finished polls r1 (obs, agent_metrics ?s1) = (r2, m2)"
      by (meson surj_pair)
    have "st' = ?s1\<lparr>agent_metrics := m2\<rparr>" "w' = w1" using assms True om f o2 by (simp_all add: forward_def Let_def)
    then have "w' = w1" "agent_ring st' = agent_ring s1" "agent_options st' = agent_options s1" by (simp_all add: on_metrics_def)
    then show ?thesis using same [OF f s0(1)] opts [of True "?s0\<lparr>agent_metrics := m\<rparr>"] f s0(2) [of m] by simp
  next
    case False
    obtain r1 s1 w1 where f: "forward_request c send t1 t2 request False (?s0, w) = (r1, s1, w1)" by (rule prod_cases3)
    then have "st' = on_metrics (\<lambda>m. m\<lparr>forward_durations := forward_durations m + 1\<rparr>) s1" "w' = w1"
      using assms False by (simp_all add: forward_def Let_def)
    then have "w' = w1" "agent_ring st' = agent_ring s1" "agent_options st' = agent_options s1" by (simp_all add: on_metrics_def)
    then show ?thesis using same [OF f s0(3)] opts [of False ?s0] f s0(4) by simp
  qed
  then show thesis using that [of r0 s2] plain by simp
qed

lemma control_kept:
  assumes "agent_control enc now route st = (resp, st')"
  shows "agent_ring st' = agent_ring st \<and> agent_options st' = agent_options st"
  using assms
  by (auto simp: agent_control_def agent_metrics_handler_def Let_def split: AgentRoute.splits sum.splits prod.splits)

text \<open>A request leaves routing alone, or is forwarded.\<close>

lemma agent_router_cases:
  assumes "agent_router c enc send now failed_at polls request (st, w) = (resp, st', w')"
  obtains (control) "agent_route (req_path request) \<noteq> None" "agent_ring st' = agent_ring st" "agent_options st' = agent_options st" "w' = w"
  | (forwards) plain st2 where "agent_route (req_path request) = None"
      "forward_request c send now failed_at request False (st, w) = (plain, st2, w')" "agent_ring st' = agent_ring st2"
      "agent_options st' = agent_options st"
proof (cases "agent_route (req_path request)")
  case None
  then have "forward c send now failed_at polls request (st, w) = (resp, st', w')" using assms by (simp add: agent_router_def)
  then show thesis by (rule forward_parts) (rule forwards [OF None])
next
  case (Some route)
  then show thesis using assms control_kept [of enc now route st]
    by (intro control) (auto simp: agent_router_def Let_def split: if_splits prod.splits)
qed

lemma run_step_ring:
  assumes "run_step c jitter resolver srv_name refresh_max now (backoff, r) = Some (delay, backoff', r')"
  shows "(ring_step c)\<^sup>*\<^sup>* r r'"
proof (cases "resolver_srv resolver srv_name")
  case (Inl e)
  then have "r' = record_refresh_error e r" using assms by (auto simp: run_step_def refresh_once_def split: option.splits)
  then show ?thesis using ring_step.refresh_error by blast
next
  case (Inr snapshot)
  then have "\<exists>ds. r' = apply_snapshot c now ds r" using assms by (auto simp: run_step_def refresh_once_def Let_def split: option.splits)
  then show ?thesis using ring_step.snapshot by blast
qed

lemma run_step_backoff:
  assumes "run_step c jitter resolver srv_name refresh_max now (backoff, r) = Some (delay, backoff', r')" and "minimum \<le> refresh_max"
  shows "backoff' \<le> refresh_max"
  using assms by (auto simp: run_step_def split: prod.splits sum.splits option.splits)

lemma agent_steps_kept:
  assumes "(agent_step c enc send)\<^sup>*\<^sup>* (st0, b0, w0) (st, b, w)" and "b0 \<le> opt_refresh_max (agent_options st0)"
    and "minimum \<le> opt_refresh_max (agent_options st0)"
  shows "(ring_step c)\<^sup>*\<^sup>* (agent_ring st0) (agent_ring st) \<and> agent_options st = agent_options st0
    \<and> b \<le> opt_refresh_max (agent_options st0)"
  using assms
proof (induction "(st, b, w)" arbitrary: st b w rule: rtranclp_induct)
  case base
  then show ?case using assms(2) by simp
next
  case (step y)
  obtain st1 b1 w1 where y: "y = (st1, b1, w1)" by (rule prod_cases3)
  have IH: "(ring_step c)\<^sup>*\<^sup>* (agent_ring st0) (agent_ring st1)" "agent_options st1 = agent_options st0"
    "b1 \<le> opt_refresh_max (agent_options st0)" using step(3) [OF y assms(2,3)] by auto
  have "(ring_step c)\<^sup>*\<^sup>* (agent_ring st1) (agent_ring st) \<and> agent_options st = agent_options st1
      \<and> b \<le> opt_refresh_max (agent_options st0)"
    using step(2) unfolding y
  proof (cases rule: agent_step.cases)
    case (request now failed_at polls r response)
    from request(2) show ?thesis using request(1) IH(3) by (cases rule: agent_router_cases) (auto dest: forward_ring_steps)
  next
    case (discovery jitter resolver now delay r)
    then show ?thesis using run_step_ring [OF discovery(3)] run_step_backoff [OF discovery(3)] IH(2) assms(3) by simp
  qed
  then show ?case using IH by auto
qed

lemma run_step_total:
  assumes "minimum \<le> refresh_max" and "backoff * 2 \<le> DURATION_MAX"
  shows "run_step c jitter resolver srv_name refresh_max now (backoff, r) \<noteq> None"
  using assms by (auto simp: run_step_def refresh_once_def clamp_def duration_mul_def Let_def split: sum.splits)

lemma run_options_refresh: "minimum \<le> opt_refresh_max (run_options args)"
proof -
  have "1 \<le> max (arg_refresh_max args) 1" by simp
  then have "1 \<le> unat (max (arg_refresh_max args) 1)" by (simp add: word_le_nat_alt)
  then show ?thesis by (simp add: run_options_def minimum_def from_secs_def)
qed

lemma run_options_doubled:
  assumes "unat (arg_refresh_max args) < 2 ^ 63" and "b \<le> opt_refresh_max (run_options args)"
  shows "b * 2 \<le> DURATION_MAX"
proof -
  have "unat (max (arg_refresh_max args) 1) < 2 ^ 63" using assms(1) by (simp add: max_def)
  with assms(2) show ?thesis by (simp add: run_options_def from_secs_def DURATION_MAX_def)
qed

lemma unsent_unplaced:
  assumes ok: "discovery_ok c (agent_ring st)"
    and run: "forward_request c (recording backend) now failed_at request p (st, sent) = (resp, st', sent)"
  shows "is_channel_path (req_path request) \<or> routed_position c request = None \<or> routable c now (agent_ring st) = {}"
  using run
proof (cases rule: forward_request_cases)
  case (unplaced pos)
  let ?ms = "map health_member (filter (eligible now) (members (inner (agent_ring st))))"
  have "clockwise_owner c (member_id ` set ?ms) pos = None"
    using unplaced(3) owner_clockwise [of c ?ms pos] by (simp add: ring_is_eligible [OF ok])
  then show ?thesis by (simp add: clockwise_owner_def Let_def routable_iff [OF ok] split: if_splits)
qed (auto simp: recording_def)

text \<open>
  C22. A running agent. In every state it reaches from its start by requests and iterations of
  its discovery loop, the routing state is sound and, with the refresh bound below \<open>2 ^ 63\<close>
  seconds, the next iteration does not panic. Its
  health, metrics and status pages, whatever the method, contact no shard and leave the routing
  state as it is; any other request is sent at most once, and only to the member that owns its
  object among those eligible at that moment; and it is sent, unless it is for the channel
  routes the agent refuses, its object's name is too long to be placed on the ring, or no
  member is eligible.
\<close>

theorem running_agent_routes:
  assumes "Agent_open c client (run_options args) = Inr st0" and "unat (arg_refresh_max args) < 2 ^ 63"
    and "(agent_step c enc send)\<^sup>*\<^sup>* (st0, minimum, w0) (st, backoff, w)"
    and "agent_router c enc (recording backend) now failed_at polls request (st, sent) = (resp, st', sent')"
  shows "discovery_ok c (agent_ring st)
    \<and> run_step c jitter resolver (opt_srv (agent_options st)) (opt_refresh_max (agent_options st)) now (backoff, agent_ring st) \<noteq> None
    \<and> (agent_route (req_path request) \<noteq> None \<longrightarrow> sent' = sent \<and> agent_ring st' = agent_ring st)
    \<and> (sent' = sent \<or> (\<exists>h \<in> set (members (inner (agent_ring st))). \<exists>pos.
        eligible now h
        \<and> key_position c (routed_kind (classify GET (req_path request))) (routed_id (classify GET (req_path request))) = Some pos
        \<and> clockwise_owner c (routable c now (agent_ring st)) pos = Some (health_id h)
        \<and> sent' = sent @ [upstream_request request (member_address (health_member h))]))
    \<and> (sent' = sent \<longrightarrow> agent_route (req_path request) \<noteq> None \<or> is_channel_path (req_path request)
        \<or> routed_position c request = None \<or> routable c now (agent_ring st) = {})"
proof -
  have st0: "st0 = Agent_new c (run_options args)"
    using assms(1) by (cases client) (auto simp: Agent_open_ok, simp add: Agent_open_def bind_sum_def)
  have rm: "minimum \<le> opt_refresh_max (agent_options st0)" using run_options_refresh by (simp add: st0 Agent_new_def)
  note kept = agent_steps_kept [OF assms(3) rm rm]
  have opts: "agent_options st = run_options args" using kept st0 by (simp add: Agent_new_def)
  have reach: "(ring_step c)\<^sup>*\<^sup>* (RingState_new c (opt_failure_limit (run_options args))
      (of_nat (as_secs (opt_retry_timeout (run_options args))))) (agent_ring st)"
    using kept st0 by (simp add: Agent_new_def)
  have sound: "discovery_ok c (agent_ring st)" by (rule reachable_ok [OF reach])
  have total: "run_step c jitter resolver (opt_srv (agent_options st)) (opt_refresh_max (agent_options st)) now (backoff, agent_ring st) \<noteq> None"
    using kept run_options_doubled [OF assms(2)] by (intro run_step_total) (simp_all add: opts run_options_refresh st0 Agent_new_def)
  from assms(4) show ?thesis
  proof (cases rule: agent_router_cases)
    case control
    then show ?thesis using sound total by simp
  next
    case (forwards plain st2)
    have "is_channel_path (req_path request) \<or> routed_position c request = None \<or> routable c now (agent_ring st) = {}"
      if "sent' = sent" using unsent_unplaced [OF sound] forwards(2) that by blast
    with forwards show ?thesis using sound total forwards_once_to_the_owner [OF reach forwards(2)] by blast
  qed
qed

definition demo_encoders :: agent_encoders where
  "demo_encoders = \<lparr>encode_metrics = (\<lambda>_. Inr []), encode_status = (\<lambda>_. Inr [])\<rparr>"

definition demo_agent_args :: AgentArgs where
  "demo_agent_args = \<lparr>arg_srv = ''srv'', arg_refresh_max = 0, arg_failure_limit = 1, arg_retry_timeout = 30,
     arg_connect_timeout = 5, arg_deadline = 60\<rparr>"

text \<open>The agent after one iteration of its discovery loop, which found one shard.\<close>

definition demo_found :: AgentState where
  "demo_found =
     (Agent_new demo_crates (run_options demo_agent_args))\<lparr>agent_ring :=
        snd (refresh_once demo_crates demo_resolver ''srv'' 100 (RingState_new demo_crates 1 30))\<rparr>"

lemma demo_discovers:
  "agent_step demo_crates demo_encoders (recording (\<lambda>_. Inr (status_response 200)))
     (Agent_new demo_crates (run_options demo_agent_args), minimum, w) (demo_found, minimum, w)"
proof -
  let ?st = "Agent_new demo_crates (run_options demo_agent_args)"
  have "run_step demo_crates demo_jitter demo_resolver (opt_srv (agent_options ?st)) (opt_refresh_max (agent_options ?st)) 100
      (minimum, agent_ring ?st) = Some (demo_jitter minimum 7 9, minimum, agent_ring demo_found)"
    by (simp add: run_step_def refresh_once_def clamp_def minimum_def from_secs_def Let_def demo_resolver_def demo_found_def
        Agent_new_def run_options_def demo_agent_args_def as_secs_def)
  from agent_step.discovery [OF this, of demo_encoders "recording (\<lambda>_. Inr (status_response 200))" w] show ?thesis
    by (simp add: demo_found_def)
qed

lemma demo_found_members:
  "members (inner (agent_ring demo_found)) =
     [\<lparr>health_member = \<lparr>member_id = ''s0'', member_address = \<lparr>socket_ip = V4 1, socket_port = 8080\<rparr>\<rparr>, failures = 0, next_retry = None\<rparr>]"
  by (simp add: demo_found_def refresh_once_def demo_resolver_def Let_def snapshot_members RingState_new_def carry_health_def
      member_mut_def binary_search_def readmitted_def eligible_def resolve_member_def List.map_filter_simps canonical_member_id_def
      trim_end_matches_def to_ascii_lowercase_def is_ascii_uppercase_def char_of_def bit_0)

theorem running_agent_routes_witness:
  "snd (snd (agent_router demo_crates demo_encoders (recording (\<lambda>_. Inr (status_response 200))) 101 102 1
      (demo_request GET) (demo_found, []))) = [upstream_request (demo_request GET) \<lparr>socket_ip = V4 1, socket_port = 8080\<rparr>]"
proof -
  let ?run = "agent_router demo_crates demo_encoders (recording (\<lambda>_. Inr (status_response 200))) 101 102 1
      (demo_request GET) (demo_found, [])"
  have "Agent_open demo_crates (Inr ()) (run_options demo_agent_args) = Inr (Agent_new demo_crates (run_options demo_agent_args))"
    by (rule Agent_open_ok)
  moreover have "unat (arg_refresh_max demo_agent_args) < 2 ^ 63" by (simp add: demo_agent_args_def)
  moreover have "(agent_step demo_crates demo_encoders (recording (\<lambda>_. Inr (status_response 200))))\<^sup>*\<^sup>*
      (Agent_new demo_crates (run_options demo_agent_args), minimum, []) (demo_found, minimum, [])"
    using demo_discovers by blast
  ultimately have law: "discovery_ok demo_crates (agent_ring demo_found)
      \<and> (snd (snd ?run) = [] \<or> (\<exists>h \<in> set (members (inner (agent_ring demo_found))).
          snd (snd ?run) = [upstream_request (demo_request GET) (member_address (health_member h))]))
      \<and> (snd (snd ?run) = [] \<longrightarrow> agent_route (req_path (demo_request GET)) \<noteq> None \<or> is_channel_path (req_path (demo_request GET))
        \<or> routed_position demo_crates (demo_request GET) = None \<or> routable demo_crates 101 (agent_ring demo_found) = {})"
    using running_agent_routes [OF _ _ _ triple_parts, where enc = demo_encoders and backend = "\<lambda>_. Inr (status_response 200)"
      and request = "demo_request GET" and sent = "[]" and now = 101 and failed_at = 102 and polls = 1 and st = demo_found]
    by fastforce
  moreover have "agent_route (req_path (demo_request GET)) = None" "\<not> is_channel_path (req_path (demo_request GET))"
    by (simp_all add: agent_route_def demo_request_def is_channel_path_def starts_with_def)
  moreover have "routed_position demo_crates (demo_request GET) \<noteq> None"
    by (simp add: routed_position_def demo_request_def classify_def trim_start_matches_def object_of_def Let_def key_position_def
        routing_key_def routing_version_def)
  moreover have "routable demo_crates 101 (agent_ring demo_found) \<noteq> {}"
    using law by (simp add: routable_iff demo_found_members eligible_def)
  ultimately have "snd (snd ?run) \<noteq> []" by blast
  with law show ?thesis by (simp add: demo_found_members)
qed

end
