(* ===== verification/Session_Manifest.thy ===== *)
theory Session_Manifest
  imports Local_Files Negotiation "HOL-Library.AList" "HOL-Library.Product_Lexorder" "HOL-Library.List_Lexorder"
begin

text \<open>
  The session manifest (\<open>src/manifest.rs\<close>) and the parts of \<open>src/cacheprog/session.rs\<close> that
  compute with it: the merge at the end of a build and the label that names the manifest. A
  \<open>HashMap\<close> is the association list of its entries in the order it iterates them.
\<close>

section \<open>The manifest\<close>

definition manifest_version :: u32 where
  "manifest_version = 1"

definition manifest_max_entries :: nat where
  "manifest_max_entries = 32 * 1024"

definition manifest_max_age_seconds :: u64 where
  "manifest_max_age_seconds = 14 * 24 * 60 * 60"

record ManifestEntry =
  entry_output :: string
  entry_size :: u64
  last_seen :: u64

record Manifest =
  version :: u32
  entries :: "(string \<times> ManifestEntry) list"

definition Manifest_empty :: Manifest where
  "Manifest_empty = \<lparr>version = manifest_version, entries = []\<rparr>"

definition manifest_key :: "crates \<Rightarrow> string \<Rightarrow> string" where
  "manifest_key c label = ''go-manifest-'' @ hex_encode c (sha256 c (str_bytes label))"

section \<open>The merge\<close>

record UsedEntry =
  used_output :: string
  used_size :: u64

type_synonym used_map = "(string \<times> UsedEntry) list"

definition recent_entry :: "u64 \<Rightarrow> ManifestEntry \<Rightarrow> bool" where
  "recent_entry now e \<longleftrightarrow> saturating_sub now (last_seen e) \<le> manifest_max_age_seconds"

definition seen_now :: "u64 \<Rightarrow> UsedEntry \<Rightarrow> ManifestEntry" where
  "seen_now now u = \<lparr>entry_output = used_output u, entry_size = used_size u, last_seen = now\<rparr>"

definition by_age :: "(string \<times> ManifestEntry) list \<Rightarrow> (u64 \<times> string) list" where
  "by_age es = sort (map (\<lambda>(action, e). (last_seen e, action)) es)"

definition cap_entries :: "nat \<Rightarrow> (string \<times> ManifestEntry) list \<Rightarrow> (string \<times> ManifestEntry) list" where
  "cap_entries cap es =
     (if cap < length es then fold (\<lambda>(_, action). AList.delete action) (take (length es - cap) (by_age es)) es
      else es)"

definition merge_entries ::
  "(string \<times> ManifestEntry) list \<Rightarrow> used_map \<Rightarrow> u64 \<Rightarrow> (string \<times> ManifestEntry) list" where
  "merge_entries stored used now =
     fold (\<lambda>(action, u). AList.update action (seen_now now u)) used (filter (\<lambda>(_, e). recent_entry now e) stored)"

definition merge_manifest :: "Manifest option \<Rightarrow> used_map \<Rightarrow> u64 \<Rightarrow> Manifest" where
  "merge_manifest stored used now =
     \<lparr>version = manifest_version,
      entries = cap_entries manifest_max_entries
        (merge_entries (case stored of None \<Rightarrow> [] | Some m \<Rightarrow> entries m) used now)\<rparr>"
section \<open>The label of a session\<close>

text \<open>What the process finds around it: environment variables, the host platform and readable files.\<close>

record host =
  env_var :: "string \<Rightarrow> string option"
  host_os :: string
  host_arch :: string
  read_to_string :: "Path \<Rightarrow> string option"
  path_lossy :: "Path \<Rightarrow> string"

definition newline :: char where
  "newline = CHR 0x0A"

text \<open>\<open>str::lines\<close>: a final line feed ends the last line, and a carriage return before a line feed is dropped.\<close>

definition str_lines :: "string \<Rightarrow> string list" where
  "str_lines s =
     (let parts = split_on newline s
      in map (\<lambda>l. if l \<noteq> [] \<and> last l = CHR 0x0D then butlast l else l) (butlast parts)
         @ (if last parts = [] then [] else [last parts]))"

fun before_comment :: "string \<Rightarrow> string" where
  "before_comment (x # y # rest) = (if x = CHR ''/'' \<and> y = CHR ''/'' then [] else x # before_comment (y # rest))"
| "before_comment s = s"

definition module_of_line :: "string \<Rightarrow> string option" where
  "module_of_line line =
     (let l = trim (before_comment line) in
      if starts_with ''module'' l
      then (let path = trim_matches CHR 0x22 (trim (drop (length ''module'') l)) in if path = [] then None else Some path)
      else None)"

fun first_some :: "('a \<Rightarrow> 'b option) \<Rightarrow> 'a list \<Rightarrow> 'b option" where
  "first_some f [] = None"
| "first_some f (x # xs) = (case f x of Some y \<Rightarrow> Some y | None \<Rightarrow> first_some f xs)"

definition parse_module_path :: "string \<Rightarrow> string option" where
  "parse_module_path go_mod = first_some module_of_line (str_lines go_mod)"

definition ancestors :: "Path \<Rightarrow> Path list" where
  "ancestors path = map (\<lambda>i. take i path) (rev [0..<Suc (length path)])"

text \<open>The first directory whose \<open>go.mod\<close> can be read decides, even when it names no module.\<close>

definition find_module_path :: "host \<Rightarrow> Path \<Rightarrow> string option" where
  "find_module_path h cwd =
     (case first_some (\<lambda>dir. read_to_string h (dir @ [''go.mod''])) (ancestors cwd) of
        None \<Rightarrow> None
      | Some text \<Rightarrow> parse_module_path text)"

definition go_env :: "host \<Rightarrow> string \<Rightarrow> string \<Rightarrow> string" where
  "go_env h name fallback = (case env_var h name of Some value \<Rightarrow> if value \<noteq> [] then value else fallback | None \<Rightarrow> fallback)"

definition host_goos :: "host \<Rightarrow> string" where
  "host_goos h = (if host_os h = ''macos'' then ''darwin'' else host_os h)"

definition host_goarch :: "host \<Rightarrow> string" where
  "host_goarch h =
     (if host_arch h = ''x86_64'' then ''amd64''
      else if host_arch h = ''aarch64'' then ''arm64''
      else if host_arch h = ''x86'' then ''386''
      else host_arch h)"

definition compose_label :: "host \<Rightarrow> string option \<Rightarrow> string \<Rightarrow> string \<Rightarrow> Path \<Rightarrow> string" where
  "compose_label h name goos goarch cwd =
     (case name of Some m \<Rightarrow> m @ '' '' @ goos @ ''/'' @ goarch | None \<Rightarrow> path_lossy h cwd)"

definition session_label :: "host \<Rightarrow> string option \<Rightarrow> Path \<Rightarrow> string" where
  "session_label h explicit cwd =
     (case explicit of
        Some label \<Rightarrow> label
      | None \<Rightarrow>
          compose_label h (find_module_path h cwd) (go_env h ''GOOS'' (host_goos h)) (go_env h ''GOARCH'' (host_goarch h)) cwd)"

section \<open>What the merge keeps\<close>

text \<open>The union before the cap: what this build used, and of the rest what is recent.\<close>

definition merged :: "(string \<times> ManifestEntry) list \<Rightarrow> used_map \<Rightarrow> u64 \<Rightarrow> string \<rightharpoonup> ManifestEntry" where
  "merged stored used now a =
     (case map_of used a of
        Some u \<Rightarrow> Some (seen_now now u)
      | None \<Rightarrow> (case map_of stored a of Some e \<Rightarrow> if recent_entry now e then Some e else None | None \<Rightarrow> None))"

lemma map_of_filter: "distinct (map fst xs) \<Longrightarrow>
  map_of (filter (\<lambda>(_, e). P e) xs) a = (case map_of xs a of Some e \<Rightarrow> if P e then Some e else None | None \<Rightarrow> None)"
  by (induction xs) (auto split: option.splits dest: map_of_SomeD intro: rev_image_eqI)

lemma fold_update_map:
  "distinct (map fst used) \<Longrightarrow>
    map_of (fold (\<lambda>(action, u). AList.update action (g u)) used es) a
      = (case map_of used a of Some u \<Rightarrow> Some (g u) | None \<Rightarrow> map_of es a)"
proof (induction used arbitrary: es)
  case (Cons x used)
  obtain b u where x: "x = (b, u)" by (cases x)
  show ?case
  proof (cases "a = b")
    case True
    then have "map_of used a = None" using Cons.prems x by (force dest: map_of_SomeD intro!: map_of_eq_None_iff [THEN iffD2])
    then show ?thesis using Cons x True by (simp add: update_conv')
  qed (use Cons x in \<open>simp add: update_conv' split: option.split\<close>)
qed simp

lemma fold_update_distinct:
  "distinct (map fst es) \<Longrightarrow> distinct (map fst (fold (\<lambda>(action, u). AList.update action (g u)) used es))"
  by (induction used arbitrary: es) (auto simp: distinct_update)

lemma distinct_filter_fst: "distinct (map fst xs) \<Longrightarrow> distinct (map fst (filter P xs))"
  by (induction xs) auto

lemma merge_entries_merged:
  assumes "distinct (map fst stored)" and "distinct (map fst used)"
  shows "map_of (merge_entries stored used now) = merged stored used now" and "distinct (map fst (merge_entries stored used now))"
  using assms
  by (auto simp: merge_entries_def merged_def fun_eq_iff fold_update_map map_of_filter fold_update_distinct distinct_filter_fst
      split: option.splits)

lemma fold_delete: "fold (\<lambda>(_, action). AList.delete action) xs es = filter (\<lambda>(a, _). a \<notin> snd ` set xs) es"
  by (induction xs arbitrary: es) (auto simp: AList.delete_eq filter_filter case_prod_beta rev_image_eqI intro!: filter_cong)

abbreviation age_of :: "string \<times> ManifestEntry \<Rightarrow> u64 \<times> string" where
  "age_of \<equiv> \<lambda>(action, e). (last_seen e, action)"

lemma by_age_facts:
  assumes "distinct (map fst es)"
  shows "sorted (by_age es)" "set (by_age es) = age_of ` set es" "length (by_age es) = length es" "distinct (by_age es)"
proof -
  have "map fst es = map snd (map age_of es)" by (induction es) auto
  then have "distinct (map age_of es)" using assms by (metis distinct_map)
  then show "sorted (by_age es)" "set (by_age es) = age_of ` set es" "length (by_age es) = length es" "distinct (by_age es)"
    by (simp_all add: by_age_def)
qed

lemma sorted_take_drop: "sorted xs \<Longrightarrow> x \<in> set (take k xs) \<Longrightarrow> y \<in> set (drop k xs) \<Longrightarrow> x \<le> y"
  by (metis append_take_drop_id sorted_append)

lemma cap_kept:
  assumes "distinct (map fst es)" and "cap < length es" and "(a, e) \<in> set es"
  shows "(a, e) \<in> set (cap_entries cap es) \<longleftrightarrow> age_of (a, e) \<in> set (drop (length es - cap) (by_age es))"
proof -
  let ?k = "length es - cap"
  note f = by_age_facts [OF assms(1)]
  have "a \<in> snd ` set (take ?k (by_age es)) \<longleftrightarrow> age_of (a, e) \<in> set (take ?k (by_age es))"
  proof
    assume "a \<in> snd ` set (take ?k (by_age es))"
    then obtain t where t: "(t, a) \<in> set (take ?k (by_age es))" by force
    then have "(t, a) \<in> age_of ` set es" using f(2) by (metis in_set_takeD)
    then obtain e' where "(a, e') \<in> set es" "t = last_seen e'" by auto
    then have "e' = e" using assms(1,3) by (metis eq_key_imp_eq_value)
    with t \<open>t = last_seen e'\<close> show "age_of (a, e) \<in> set (take ?k (by_age es))" by simp
  qed force
  moreover have "age_of (a, e) \<in> set (by_age es)" using f(2) assms(3) by force
  moreover have "set (take ?k (by_age es)) \<inter> set (drop ?k (by_age es)) = {}"
    using f(4) by (simp add: set_take_disj_set_drop_if_distinct)
  moreover have "set (by_age es) = set (take ?k (by_age es)) \<union> set (drop ?k (by_age es))" by (metis append_take_drop_id set_append)
  ultimately show ?thesis using assms(2,3) by (auto simp: cap_entries_def fold_delete)
qed

lemma cap_subset: "set (cap_entries cap es) \<subseteq> set es" "distinct (map fst es) \<Longrightarrow> distinct (map fst (cap_entries cap es))"
  by (auto simp: cap_entries_def fold_delete distinct_filter_fst)

lemma cap_length:
  assumes "distinct (map fst es)"
  shows "length (cap_entries cap es) = min cap (length es)"
proof (cases "cap < length es")
  case True
  let ?k = "length es - cap" and ?kept = "cap_entries cap es"
  note f = by_age_facts [OF assms]
  have "age_of ` set ?kept = set (drop ?k (by_age es))"
  proof (rule set_eqI)
    fix x
    have "x \<in> set (drop ?k (by_age es)) \<Longrightarrow> x \<in> age_of ` set es" using f(2) by (metis in_set_dropD)
    then show "x \<in> age_of ` set ?kept \<longleftrightarrow> x \<in> set (drop ?k (by_age es))"
      using cap_kept [OF assms True] cap_subset(1) [of cap es] by (auto 0 4)
  qed
  moreover have "card (age_of ` set ?kept) = length ?kept"
  proof -
    have keys: "distinct (map fst ?kept)" by (rule cap_subset(2) [OF assms])
    then have "inj_on age_of (set ?kept)" by (auto simp: inj_on_def dest: eq_key_imp_eq_value [of _ _ _ _])
    with keys show ?thesis by (simp add: card_image distinct_card distinct_map)
  qed
  moreover have "card (set (drop ?k (by_age es))) = cap" using f(3,4) True by (simp add: distinct_card)
  ultimately show ?thesis using True by simp
qed (simp add: cap_entries_def)

lemma cap_dropped_oldest:
  assumes "distinct (map fst es)" and "(a, e) \<in> set es" and "(a, e) \<notin> set (cap_entries cap es)" and "(b, e') \<in> set (cap_entries cap es)"
  shows "cap < length es" and "age_of (a, e) \<le> age_of (b, e')"
proof -
  show cap: "cap < length es" using assms(2,3) by (auto simp: cap_entries_def split: if_splits)
  let ?k = "length es - cap"
  have "age_of (a, e) \<in> set (by_age es)" using by_age_facts(2) [OF assms(1)] assms(2) by force
  moreover have "age_of (a, e) \<notin> set (drop ?k (by_age es))" using cap_kept [OF assms(1) cap assms(2)] assms(3) by simp
  ultimately have "age_of (a, e) \<in> set (take ?k (by_age es))" by (metis append_take_drop_id set_append UnE)
  moreover have "age_of (b, e') \<in> set (drop ?k (by_age es))"
    using cap_kept [OF assms(1) cap, of b e'] assms(4) cap_subset(1) by blast
  ultimately show "age_of (a, e) \<le> age_of (b, e')" using sorted_take_drop [OF by_age_facts(1) [OF assms(1)]] by blast
qed

lemma used_survive_cap:
  assumes "distinct (map fst es)" and "length used \<le> cap" and "\<And>a e. (a, e) \<in> set es \<Longrightarrow> last_seen e \<le> now"
    and "\<And>a e. (a, e) \<in> set es \<Longrightarrow> last_seen e = now \<Longrightarrow> a \<in> fst ` set used" and "(a, e) \<in> set es" and "last_seen e = now"
  shows "(a, e) \<in> set (cap_entries cap es)"
proof (rule ccontr)
  assume gone: "(a, e) \<notin> set (cap_entries cap es)"
  let ?kept = "cap_entries cap es"
  have sub: "set ?kept \<subseteq> set es" by (rule cap_subset)
  have "b \<in> fst ` set used - {a}" if "(b, e') \<in> set ?kept" for b e'
  proof -
    have "last_seen e \<le> last_seen e'" using cap_dropped_oldest(2) [OF assms(1,5) gone that] by auto
    then have "last_seen e' = now" using assms(3,6) sub that by (meson order_antisym subsetD)
    moreover have "b \<noteq> a" using gone that assms(1,5) sub by (metis eq_key_imp_eq_value subsetD)
    ultimately show ?thesis using assms(4) sub that by blast
  qed
  then have "fst ` set ?kept \<subseteq> fst ` set used - {a}" by (metis (no_types, lifting) image_subsetI prod.collapse)
  then have "card (fst ` set ?kept) \<le> card (fst ` set used - {a})" by (intro card_mono) auto
  also have "\<dots> < card (fst ` set used)" using assms(4) [OF assms(5,6)] by (intro psubset_card_mono) auto
  also have "\<dots> \<le> length used" using card_image_le card_length le_trans by (metis List.finite_set)
  finally have "length ?kept < cap"
    using assms(2) distinct_card [OF cap_subset(2) [OF assms(1), of cap]] by simp
  moreover have "cap < length es" using assms(5) gone by (auto simp: cap_entries_def split: if_splits)
  ultimately show False using cap_length [OF assms(1), of cap] by simp
qed

text \<open>
  C33. The merge of a manifest. The result has one entry per action and at most the limit;
  every entry is what this build used, seen now, or an entry of the stored manifest that this
  build did not use and that was seen within two weeks. An entry of that union is left out
  only when the limit is reached, and then it is at most as recent as every entry kept. If
  the stored entries were all seen before now and the build used no more than the limit,
  everything it used is kept.
\<close>

theorem merge_keeps_the_newest:
  assumes "distinct (map fst (entries m))" and "distinct (map fst used)"
    and "merge_manifest (Some m) used now = result"
  shows "version result = manifest_version \<and> distinct (map fst (entries result)) \<and> length (entries result) \<le> manifest_max_entries
    \<and> map_of (entries result) \<subseteq>\<^sub>m merged (entries m) used now
    \<and> (\<forall>a e. merged (entries m) used now a = Some e \<longrightarrow> map_of (entries result) a = None \<longrightarrow>
        length (entries result) = manifest_max_entries
        \<and> (\<forall>b e'. map_of (entries result) b = Some e' \<longrightarrow> (last_seen e, a) \<le> (last_seen e', b)))
    \<and> ((\<forall>e \<in> snd ` set (entries m). last_seen e < now) \<longrightarrow> length used \<le> manifest_max_entries \<longrightarrow>
        (\<forall>a u. map_of used a = Some u \<longrightarrow> map_of (entries result) a = Some (seen_now now u)))"
proof -
  let ?es = "merge_entries (entries m) used now" and ?cap = manifest_max_entries
  note es = merge_entries_merged [OF assms(1,2), of now]
  have r: "version result = manifest_version" "entries result = cap_entries ?cap ?es" using assms(3) by (auto simp: merge_manifest_def)
  have d: "distinct (map fst (entries result))" unfolding r(2) by (rule cap_subset(2) [OF es(2)])
  have len: "length (entries result) = min ?cap (length ?es)" unfolding r(2) by (rule cap_length [OF es(2)])
  have mem: "merged (entries m) used now a = Some e \<longleftrightarrow> (a, e) \<in> set ?es" for a e
    using es by (metis map_of_eq_Some_iff)
  have kept: "map_of (entries result) a = Some e \<longleftrightarrow> (a, e) \<in> set (cap_entries ?cap ?es)" for a e
    using d unfolding r(2) by simp
  have sub: "map_of (entries result) \<subseteq>\<^sub>m merged (entries m) used now"
  proof (unfold map_le_def, rule ballI)
    fix a assume "a \<in> dom (map_of (entries result))"
    then obtain e where e: "map_of (entries result) a = Some e" by blast
    then have "(a, e) \<in> set ?es" using kept cap_subset(1) by (meson subsetD)
    with e mem [of a e] show "map_of (entries result) a = merged (entries m) used now a" by simp
  qed
  have out: "length (entries result) = ?cap \<and> (\<forall>b e'. map_of (entries result) b = Some e' \<longrightarrow> (last_seen e, a) \<le> (last_seen e', b))"
    if "merged (entries m) used now a = Some e" "map_of (entries result) a = None" for a e
  proof -
    have in_es: "(a, e) \<in> set ?es" and gone: "(a, e) \<notin> set (cap_entries ?cap ?es)" using that mem kept by force+
    then have "?cap < length ?es" by (auto simp: cap_entries_def split: if_splits)
    then show ?thesis using len cap_dropped_oldest(2) [OF es(2) in_es gone] kept by auto
  qed
  have all: "map_of (entries result) a = Some (seen_now now u)"
    if "\<forall>e \<in> snd ` set (entries m). last_seen e < now" "length used \<le> ?cap" "map_of used a = Some u" for a u
  proof -
    have ages: "last_seen e \<le> now \<and> (last_seen e = now \<longrightarrow> b \<in> fst ` set used)" if be: "(b, e) \<in> set ?es" for b e
      using mem [of b e] be \<open>\<forall>e \<in> snd ` set (entries m). last_seen e < now\<close>
      by (auto simp: merged_def seen_now_def split: option.splits if_splits dest!: map_of_SomeD intro: rev_image_eqI order.strict_implies_order)
    have "(a, seen_now now u) \<in> set ?es" using mem [of a "seen_now now u"] that(3) by (simp add: merged_def)
    from used_survive_cap [OF es(2) that(2) _ _ this] ages show ?thesis using kept by (auto simp: seen_now_def)
  qed
  show ?thesis using r(1) d len sub out all by (intro conjI) auto
qed

theorem merge_keeps_the_newest_witness:
  "map_of (entries (merge_manifest (Some \<lparr>version = 1, entries = [(''a'', \<lparr>entry_output = ''x'', entry_size = 1, last_seen = 3\<rparr>)]\<rparr>)
     [(''b'', \<lparr>used_output = ''y'', used_size = 2\<rparr>)] 5)) ''b'' = Some \<lparr>entry_output = ''y'', entry_size = 2, last_seen = 5\<rparr>"
proof -
  let ?m = "\<lparr>version = 1, entries = [(''a'', \<lparr>entry_output = ''x'', entry_size = 1, last_seen = 3\<rparr>)]\<rparr>"
    and ?used = "[(''b'', \<lparr>used_output = ''y'', used_size = 2\<rparr>)]"
  have "distinct (map fst (entries ?m))" "distinct (map fst ?used)" by simp_all
  from merge_keeps_the_newest [OF this refl, of 5] show ?thesis by (simp add: manifest_max_entries_def seen_now_def)
qed

section \<open>Reading \<open>go.mod\<close>\<close>

definition plain_module :: "string \<Rightarrow> bool" where
  "plain_module p \<longleftrightarrow> p \<noteq> [] \<and> list_all (\<lambda>x. \<not> is_space x \<and> x \<noteq> CHR 0x22) p \<and> before_comment p = p"

lemma before_comment_word: "CHR ''/'' \<notin> set w \<Longrightarrow> before_comment (w @ s) = w @ before_comment s"
proof (induction w)
  case (Cons x w)
  then show ?case by (cases "w @ s") auto
qed simp

lemma dropWhile_both: "p \<noteq> [] \<Longrightarrow> \<not> P (hd p) \<Longrightarrow> \<not> P (last p) \<Longrightarrow> rev (dropWhile P (rev (dropWhile P p))) = p"
proof -
  have drop: "dropWhile P xs = xs" if "xs \<noteq> []" "\<not> P (hd xs)" for xs using that by (cases xs) auto
  assume "p \<noteq> []" "\<not> P (hd p)" "\<not> P (last p)"
  then show ?thesis using drop [of p] drop [of "rev p"] by (simp add: hd_rev)
qed

lemma trim_word: "p \<noteq> [] \<Longrightarrow> \<not> is_space (hd p) \<Longrightarrow> \<not> is_space (last p) \<Longrightarrow> trim p = p"
  unfolding trim_def by (rule dropWhile_both)

lemma module_line:
  assumes "plain_module p"
  shows "module_of_line (''module '' @ p) = Some p"
proof -
  from assms have p: "p \<noteq> []" "\<not> is_space (hd p)" "\<not> is_space (last p)" "hd p \<noteq> CHR 0x22" "last p \<noteq> CHR 0x22" "before_comment p = p"
    by (auto simp: plain_module_def list_all_iff)
  have "before_comment (''module '' @ p) = ''module '' @ p" using before_comment_word [of "''module ''" p] p(6) by simp
  moreover have "trim (''module '' @ p) = ''module '' @ p" using p by (intro trim_word) (auto simp: is_space_def)
  moreover have "trim ('' '' @ p) = p"
    using p(1-3) trim_word [of p] by (simp add: trim_def is_space_def)
  moreover have "trim_matches CHR 0x22 p = p"
    unfolding trim_matches_def using p(1,4,5) by (intro dropWhile_both) auto
  ultimately show ?thesis using p(1) by (simp add: module_of_line_def Let_def starts_with_def)
qed

lemma split_at_newline: "newline \<notin> set l \<Longrightarrow> split_on newline (l @ newline # rest) = l # split_on newline rest"
  by (induction l) auto

lemma first_line:
  assumes "newline \<notin> set l" and "l \<noteq> []" and "last l \<noteq> CHR 0x0D"
  shows "\<exists>more. str_lines (l @ newline # rest) = l # more"
  using assms by (simp add: str_lines_def Let_def split_at_newline)

lemma module_found:
  assumes "plain_module p"
  shows "parse_module_path (''module '' @ p @ newline # rest) = Some p"
proof -
  have space: "is_space newline" "is_space CHR 0x0D" by (simp_all add: is_space_def newline_def)
  have p: "p \<noteq> []" "\<And>x. x \<in> set p \<Longrightarrow> \<not> is_space x" using assms by (auto simp: plain_module_def list_all_iff)
  have "last p \<noteq> CHR 0x0D" "newline \<notin> set p" using p space last_in_set by metis+
  then have "newline \<notin> set (''module '' @ p)" "last (''module '' @ p) \<noteq> CHR 0x0D" using p(1) by (simp_all add: newline_def)
  from first_line [OF this(1) _ this(2), of rest]
  obtain more where "str_lines ((''module '' @ p) @ newline # rest) = (''module '' @ p) # more" by blast
  then show ?thesis using module_line [OF assms] by (simp add: parse_module_path_def)
qed

end
