(* ===== verification/Cacheprog_Protocol.thy ===== *)
theory Cacheprog_Protocol
  imports Session_Manifest Http_Server
begin

text \<open>
  The line protocol of the Go cache program (\<open>src/cacheprog/mod.rs\<close>): requests and responses,
  the reader that survives the cancellation of a read, and the lines a response becomes. The
  JSON and base64 libraries are parameters.
\<close>

section \<open>Messages\<close>

record ProgRequest =
  pr_id :: int
  pr_command :: string
  pr_action_id :: bytes
  pr_output_id :: bytes
  pr_body_size :: u64

record ProgResponse =
  rs_id :: int
  rs_err :: string
  rs_known_commands :: "string list"
  rs_miss :: bool
  rs_output_id :: bytes
  rs_size :: u64
  rs_disk_path :: string

definition ProgResponse_default :: ProgResponse where
  "ProgResponse_default =
     \<lparr>rs_id = 0, rs_err = [], rs_known_commands = [], rs_miss = False, rs_output_id = [], rs_size = 0, rs_disk_path = []\<rparr>"

text \<open>
  What the library extracts from the object of a request: fields that are absent are \<open>None\<close>,
  and fields of bytes are still base64.
\<close>

record RawRequest =
  raw_id :: int
  raw_command :: string
  raw_action_id :: "string option"
  raw_output_id :: "string option"
  raw_body_size :: "u64 option"

record prog_crates =
  raw_from_slice :: "bytes \<Rightarrow> string + RawRequest"
  string_from_slice :: "bytes \<Rightarrow> string + string"
  value_to_vec :: "Value \<Rightarrow> string + bytes"
  standard_decode :: "string \<Rightarrow> string + bytes"
  standard_encode :: "bytes \<Rightarrow> string"

definition deserialize_bytes :: "prog_crates \<Rightarrow> string option \<Rightarrow> string + bytes" where
  "deserialize_bytes J field = (case field of None \<Rightarrow> Inr [] | Some value \<Rightarrow> standard_decode J value)"

definition request_from_slice :: "prog_crates \<Rightarrow> bytes \<Rightarrow> string + ProgRequest" where
  "request_from_slice J line =
     bind_sum (raw_from_slice J line) (\<lambda>raw.
     bind_sum (deserialize_bytes J (raw_action_id raw)) (\<lambda>action.
     bind_sum (deserialize_bytes J (raw_output_id raw)) (\<lambda>output.
     Inr \<lparr>pr_id = raw_id raw, pr_command = raw_command raw, pr_action_id = action, pr_output_id = output,
          pr_body_size = (case raw_body_size raw of None \<Rightarrow> 0 | Some n \<Rightarrow> n)\<rparr>)))"

text \<open>Numbers are printed in decimal; every field but the identifier is left out at its default.\<close>

definition decimal_int :: "int \<Rightarrow> string" where
  "decimal_int i = (if i < 0 then CHR ''-'' # decimal (nat (- i)) else decimal (nat i))"

definition response_value :: "prog_crates \<Rightarrow> ProgResponse \<Rightarrow> Value" where
  "response_value J r =
     Object ([(''ID'', Number (decimal_int (rs_id r)))]
       @ (if rs_err r = [] then [] else [(''Err'', String (rs_err r))])
       @ (if rs_known_commands r = [] then [] else [(''KnownCommands'', Array (map String (rs_known_commands r)))])
       @ (if \<not> rs_miss r then [] else [(''Miss'', Bool True)])
       @ (if rs_output_id r = [] then [] else [(''OutputID'', String (standard_encode J (rs_output_id r)))])
       @ (if rs_size r = 0 then [] else [(''Size'', Number (decimal (unat (rs_size r))))])
       @ (if rs_disk_path r = [] then [] else [(''DiskPath'', String (rs_disk_path r))]))"

section \<open>Reading\<close>

text \<open>
  The bytes still to come and how they end, the bytes of the line read so far, and the put
  whose body is still to be read.
\<close>

record ProtocolReader =
  coming :: bytes
  input_fails :: "string option"
  line :: bytes
  pending_put :: "ProgRequest option"

datatype ProtocolMessage = RequestMessage ProgRequest bytes | InvalidMessage string

datatype ReadError = ReadFailed string | PutBodyMissing

definition line_feed :: u8 where
  "line_feed = 10"

definition is_ascii_whitespace :: "u8 \<Rightarrow> bool" where
  "is_ascii_whitespace b \<longleftrightarrow> b \<in> {9, 10, 12, 13, 32}"

text \<open>\<open>read_until\<close>: up to and with the first line feed, or all there is.\<close>

fun read_until :: "bytes \<Rightarrow> bytes \<times> bytes" where
  "read_until [] = ([], [])"
| "read_until (b # bs) = (if b = line_feed then ([b], bs) else (case read_until bs of (x, y) \<Rightarrow> (b # x, y)))"

lemma read_until_append: "fst (read_until bs) @ snd (read_until bs) = bs"
  by (induction bs) (auto split: prod.splits)

lemma read_until_length: "length (fst (read_until bs)) + length (snd (read_until bs)) = length bs"
  by (metis length_append read_until_append)

lemma read_until_nil: "fst (read_until bs) = [] \<longleftrightarrow> bs = []"
  by (cases bs) (auto split: prod.splits)

function read_protocol_line :: "ProtocolReader \<Rightarrow> (ReadError + bool) \<times> ProtocolReader" where
  "read_protocol_line rd =
     (let existing = length (line rd);
          (got, rest) = read_until (coming rd);
          rd' = rd\<lparr>coming := rest, line := line rd @ got\<rparr>
      in if rest = [] \<and> (got = [] \<or> last got \<noteq> line_feed) \<and> input_fails rd \<noteq> None
         then (Inl (ReadFailed (the (input_fails rd))), rd')
         else if got = [] \<and> existing = 0 then (Inr False, rd')
         else if \<not> list_all is_ascii_whitespace (line rd') then (Inr True, rd')
         else read_protocol_line (rd'\<lparr>line := []\<rparr>))"
  by auto
termination
proof (relation "measure (\<lambda>rd. length (coming rd) + length (line rd))")
  show "wf (measure (\<lambda>rd :: ProtocolReader. length (coming rd) + length (line rd)))" by simp
next
  fix rd :: ProtocolReader and existing x got rest rd'
  assume existing: "existing = length (line rd)" and x: "x = read_until (coming rd)" "(got, rest) = x"
    and rd': "rd' = rd\<lparr>coming := rest, line := line rd @ got\<rparr>" and more: "\<not> (got = [] \<and> existing = 0)"
  have "length got + length rest = length (coming rd)" using read_until_length [of "coming rd"] x by (metis fst_conv snd_conv)
  moreover have "0 < length got + length (line rd)" using existing more by auto
  ultimately show "(rd'\<lparr>line := []\<rparr>, rd) \<in> measure (\<lambda>rd. length (coming rd) + length (line rd))"
    unfolding in_measure rd' by (cases got) auto
qed

declare read_protocol_line.simps [simp del]

definition take_put_body :: "ProgRequest \<Rightarrow> ProtocolReader \<Rightarrow> (ReadError + ProtocolMessage option) \<times> ProtocolReader" where
  "take_put_body request rd =
     (case read_protocol_line rd of
        (Inl e, rd) \<Rightarrow> (Inl e, rd)
      | (Inr False, rd) \<Rightarrow> (Inl PutBodyMissing, rd)
      | (Inr True, rd) \<Rightarrow> (Inr (Some (RequestMessage request (line rd))), rd\<lparr>line := [], pending_put := None\<rparr>))"

definition next_message :: "prog_crates \<Rightarrow> ProtocolReader \<Rightarrow> (ReadError + ProtocolMessage option) \<times> ProtocolReader" where
  "next_message J rd =
     (case pending_put rd of
        Some request \<Rightarrow> take_put_body request rd
      | None \<Rightarrow>
          (case read_protocol_line rd of
             (Inl e, rd) \<Rightarrow> (Inl e, rd)
           | (Inr False, rd) \<Rightarrow> (Inr None, rd)
           | (Inr True, rd) \<Rightarrow>
               (case request_from_slice J (line rd) of
                  Inl error \<Rightarrow> (Inr (Some (InvalidMessage error)), rd\<lparr>line := []\<rparr>)
                | Inr request \<Rightarrow>
                    (let rd = rd\<lparr>line := []\<rparr> in
                     if pr_command request = ''put'' \<and> 0 < pr_body_size request
                     then take_put_body request (rd\<lparr>pending_put := Some request\<rparr>)
                     else (Inr (Some (RequestMessage request [])), rd)))))"

section \<open>Cancelled reads\<close>

text \<open>
  The loop may drop the future of a read at any moment; the bytes the reader has taken so far
  stay in the line. Here \<open>part\<close> arrived before the read was dropped, without a line feed.
\<close>

definition cancel_read :: "bytes \<Rightarrow> ProtocolReader \<Rightarrow> ProtocolReader" where
  "cancel_read part rd = rd\<lparr>coming := drop (length part) (coming rd), line := line rd @ part\<rparr>"

definition may_cancel :: "bytes \<Rightarrow> ProtocolReader \<Rightarrow> bool" where
  "may_cancel part rd \<longleftrightarrow> part = take (length part) (coming rd) \<and> line_feed \<notin> set part"

lemma read_until_part: "line_feed \<notin> set part \<Longrightarrow> read_until (part @ tail) = (part @ fst (read_until tail), snd (read_until tail))"
  by (induction part) (auto split: prod.splits)

text \<open>A read that was dropped and taken up again ends as one that was never dropped.\<close>

lemma cancel_line:
  assumes "may_cancel part rd"
  shows "read_protocol_line (cancel_read part rd) = read_protocol_line rd"
proof (cases "part = []")
  case False
  define tail where "tail = drop (length part) (coming rd)"
  have coming: "coming rd = part @ tail" using assms unfolding may_cancel_def tail_def by (metis append_take_drop_id)
  have no: "line_feed \<notin> set part" using assms by (simp add: may_cancel_def)
  obtain got rest where r: "read_until tail = (got, rest)" by fastforce
  have full: "read_until (coming rd) = (part @ got, rest)" unfolding coming using read_until_part [OF no, of tail] r by simp
  have last: "last (part @ got) \<noteq> line_feed \<longleftrightarrow> got = [] \<or> last got \<noteq> line_feed"
    using no last_in_set [OF False] by (cases "got = []") auto
  show ?thesis
    by (subst (1 2) read_protocol_line.simps)
      (use False full last in \<open>auto simp: Let_def cancel_read_def r tail_def [symmetric]\<close>)
qed (simp add: cancel_read_def)

text \<open>
  Where the future of \<open>next_message\<close> can be dropped: in the middle of a line, after some blank
  lines, or while it waits for the body of a put it has already parsed.
\<close>

inductive dropped_line :: "ProtocolReader \<Rightarrow> ProtocolReader \<Rightarrow> bool" where
  in_line: "may_cancel part rd \<Longrightarrow> dropped_line rd (cancel_read part rd)"
| after_blank: "read_until (coming rd) = (got, rest) \<Longrightarrow> got \<noteq> [] \<Longrightarrow> last got = line_feed \<Longrightarrow>
    list_all is_ascii_whitespace (line rd @ got) \<Longrightarrow> dropped_line (rd\<lparr>coming := rest, line := []\<rparr>) rd' \<Longrightarrow> dropped_line rd rd'"

inductive dropped_message :: "prog_crates \<Rightarrow> ProtocolReader \<Rightarrow> ProtocolReader \<Rightarrow> bool" where
  in_message: "dropped_line rd rd' \<Longrightarrow> dropped_message J rd rd'"
| in_body: "pending_put rd = None \<Longrightarrow> read_protocol_line rd = (Inr True, rd1) \<Longrightarrow> request_from_slice J (line rd1) = Inr request \<Longrightarrow>
    pr_command request = ''put'' \<Longrightarrow> 0 < pr_body_size request \<Longrightarrow>
    dropped_line (rd1\<lparr>line := [], pending_put := Some request\<rparr>) rd' \<Longrightarrow> dropped_message J rd rd'"

lemma dropped_line_same:
  assumes "dropped_line rd rd'"
  shows "read_protocol_line rd' = read_protocol_line rd \<and> pending_put rd' = pending_put rd"
  using assms
proof induction
  case (in_line part rd)
  then show ?case by (simp add: cancel_line) (simp add: cancel_read_def)
next
  case (after_blank rd got rest rd')
  have "read_protocol_line rd = read_protocol_line (rd\<lparr>coming := rest, line := []\<rparr>)"
    by (subst read_protocol_line.simps) (use after_blank in \<open>simp add: Let_def\<close>)
  with after_blank show ?case by simp
qed

text \<open>
  C32. No cancelled read loses or invents input. Wherever the loop drops the future that reads
  a message, in the middle of a line, between blank lines or between a put and its body,
  reading again from the state it left yields the same message, the same error and the same
  rest of the input as a read that was never dropped.
\<close>

theorem cancelled_reads_lose_nothing:
  assumes "dropped_message J rd rd'"
  shows "next_message J rd' = next_message J rd"
  using assms
proof cases
  case in_message
  from dropped_line_same [OF this] show ?thesis by (simp add: next_message_def take_put_body_def split: option.split)
next
  case (in_body rd1 request)
  from dropped_line_same [OF in_body(6)] in_body show ?thesis by (simp add: next_message_def take_put_body_def Let_def)
qed

definition demo_prog :: prog_crates where
  "demo_prog =
     \<lparr>raw_from_slice = (\<lambda>bs. case bs of
          [] \<Rightarrow> Inl ''empty''
        | b # _ \<Rightarrow> Inr \<lparr>raw_id = 1, raw_command = ''get'', raw_action_id = None, raw_output_id = None, raw_body_size = None\<rparr>),
      string_from_slice = (\<lambda>bs. Inr (map (\<lambda>b. char_of (unat b)) bs)), value_to_vec = (\<lambda>_. Inr []),
      standard_decode = (\<lambda>s. Inr (map (\<lambda>x. of_nat (of_char x)) s)), standard_encode = map (\<lambda>b. char_of (unat b))\<rparr>"

theorem cancelled_reads_lose_nothing_witness:
  "next_message demo_prog \<lparr>coming = [66, 10], input_fails = None, line = [65], pending_put = None\<rparr>
     = next_message demo_prog \<lparr>coming = [65, 66, 10], input_fails = None, line = [], pending_put = None\<rparr>"
proof -
  let ?rd = "\<lparr>coming = [65, 66, 10], input_fails = None, line = [], pending_put = None\<rparr>"
  have "may_cancel [65] ?rd" by (simp add: may_cancel_def line_feed_def)
  from cancelled_reads_lose_nothing [OF in_message [OF in_line [OF this]], of demo_prog] show ?thesis by (simp add: cancel_read_def)
qed

end
