(* ===== verification/Cacheprog.thy ===== *)
theory Cacheprog
  imports Cacheprog_Protocol Prefetch Discovery
begin

text \<open>
  The Go cache program (\<open>src/cacheprog/mod.rs\<close>, \<open>src/cacheprog/session.rs\<close>): it answers the
  gets and puts of a build from a local directory and a remote cache, and downloads ahead what
  the manifest of the last build predicts. The local file system, the HTTP client and the
  libraries are parameters. A request, a download and a merge are one action each; the loop
  and the download pool interleave them as a step relation.
\<close>

section \<open>The local directory\<close>

record FileStat =
  stat_is_file :: bool
  stat_len :: u64
  stat_modified :: "Duration option"

text \<open>
  \<open>local_files\<close> and \<open>taken\<close> say what the directory holds and which bytes an open file has
  accepted. The runtime writes accepted bytes in the background: \<open>file_flush_all\<close> waits for
  them and reports their errors, dropping the file (\<open>file_close\<close>) does neither.
\<close>

record 'f scratch =
  local_files :: "'f \<Rightarrow> Path \<Rightarrow> bytes option"
  taken :: "'f \<Rightarrow> Path \<Rightarrow> bytes"
  local_metadata :: "Path \<Rightarrow> ('f, IoError, FileStat) act"
  file_create :: "Path \<Rightarrow> ('f, IoError, unit) act"
  file_append :: "Path \<Rightarrow> bytes \<Rightarrow> ('f, IoError, unit) act"
  file_flush_all :: "Path \<Rightarrow> ('f, IoError, unit) act"
  file_close :: "Path \<Rightarrow> ('f, IoError, unit) act"
  local_rename :: "Path \<Rightarrow> Path \<Rightarrow> ('f, IoError, unit) act"
  local_remove :: "Path \<Rightarrow> ('f, IoError, unit) act"
  local_exists :: "Path \<Rightarrow> ('f, IoError, bool) act"
  canonicalize :: "Path \<Rightarrow> ('f, IoError, string) act"
  local_create_dir_all :: "Path \<Rightarrow> ('f, IoError, unit) act"
  local_remove_dir_all :: "Path \<Rightarrow> ('f, IoError, unit) act"
  local_read_dir :: "Path \<Rightarrow> ('f, IoError, (IoError + string) list) act"
  open_for_write :: "Path \<Rightarrow> ('f, IoError, unit) act"
  set_modified :: "Path \<Rightarrow> Duration \<Rightarrow> ('f, IoError, unit) act"
  local_ulid :: "'f \<Rightarrow> Ulid \<times> 'f"

section \<open>State\<close>

datatype ProgError =
    ProgIo IoError
  | ProgHttp string
  | ProgJson string
  | ProgBase64 string
  | ProgUrl string
  | ProgHex
  | ProgNoParent
  | ProgBodySize
  | ProgDigest
  | ProgPutStatus StatusCode
  | ProgGetStatus StatusCode
  | ProgPrefetchStatus StatusCode
  | ProgPrefetchSize
  | ProgPrefetchDigest
  | ProgUnsupported string
  | ProgUrlSlash
  | ProgRead ReadError

text \<open>The arguments a session is started with and the code around it.\<close>

record ('f, 'w) prog_env =
  prog_ids :: crates
  prog_json :: prog_crates
  prog_web :: web_crates
  scratch :: "'f scratch"
  http_send :: "Method \<Rightarrow> Url \<Rightarrow> headers \<Rightarrow> bytes \<Rightarrow> 'w \<Rightarrow> (string + Response) \<times> 'w"
  manifest_from_slice :: "bytes \<Rightarrow> string + Manifest"
  manifest_to_vec :: "Manifest \<Rightarrow> string + bytes"
  system_now :: "nat \<Rightarrow> Duration"
  process_id :: string
  error_display :: "ProgError \<Rightarrow> string"
  stdout_fails :: "nat \<Rightarrow> IoError option"
  base :: Url
  token :: "string option"
  directory :: Path
  session_key :: string
  concurrency :: nat

text \<open>
  \<open>SessionState\<close> with the directory, the world outside and standard output, each line with the
  response it encodes. \<open>pool\<close> holds the downloads that have not ended and \<open>permitted\<close> those of
  them that hold a permit of the semaphore that bounds the concurrency; \<open>prefetch_task\<close> tells
  whether the handle of the task is still there and \<open>prefetch_begun\<close> whether the task has
  built its work list.
\<close>

record ('f, 'w) helper =
  prog_disk :: 'f
  outside :: 'w
  session_manifest :: "Manifest option"
  used :: used_map
  inflight :: "string list"
  pool :: "(string \<times> ManifestEntry) list"
  permitted :: "(string \<times> ManifestEntry) list"
  prefetch_task :: bool
  prefetch_begun :: bool
  ticks :: nat
  stdout :: "(ProgResponse \<times> bytes) list"

type_synonym ('f, 'w, 'a) prog_act = "(('f, 'w) helper, ProgError, 'a) act"

definition on_scratch :: "('f, IoError, 'a) act \<Rightarrow> ('f, 'w, 'a) prog_act" where
  "on_scratch m = map_err ProgIo (\<lambda>w. case m (prog_disk w) of (x, f) \<Rightarrow> (x, w\<lparr>prog_disk := f\<rparr>))"

definition clock_read :: "('f, 'w) prog_env \<Rightarrow> ('f, 'w, Duration) prog_act" where
  "clock_read E = (\<lambda>w. (Inr (system_now E (ticks w)), w\<lparr>ticks := ticks w + 1\<rparr>))"

definition require :: "bool \<Rightarrow> ProgError \<Rightarrow> ('f, 'w, unit) prog_act" where
  "require b e = (if b then ok () else throw e)"

definition error_text :: "('f, 'w) prog_env \<Rightarrow> ProgError \<Rightarrow> string" where
  "error_text E e =
     (case e of
        ProgNoParent \<Rightarrow> ''cache path has no parent''
      | ProgBodySize \<Rightarrow> ''cacheprog body size mismatch''
      | ProgDigest \<Rightarrow> ''cacheprog output digest mismatch''
      | ProgPrefetchSize \<Rightarrow> ''prefetched object size mismatch''
      | ProgPrefetchDigest \<Rightarrow> ''prefetched object failed digest verification''
      | ProgUnsupported command \<Rightarrow> ''unsupported command '' @ command
      | ProgUrlSlash \<Rightarrow> ''cacheprog URL must end with '' @ [CHR 0x27] @ ''/'' @ [CHR 0x27]
      | ProgRead PutBodyMissing \<Rightarrow> ''cacheprog put body is missing''
      | _ \<Rightarrow> error_display E e)"

section \<open>Files\<close>

definition file_has_size :: "('f, 'w) prog_env \<Rightarrow> Path \<Rightarrow> u64 \<Rightarrow> ('f, 'w, bool) prog_act" where
  "file_has_size E path n =
     outcome (on_scratch (local_metadata (scratch E) path)) (\<lambda>r.
     ok (case r of Inr st \<Rightarrow> stat_is_file st \<and> stat_len st = n | Inl _ \<Rightarrow> False))"

definition touch :: "('f, 'w) prog_env \<Rightarrow> Path \<Rightarrow> ('f, 'w, unit) prog_act" where
  "touch E path =
     outcome (on_scratch (open_for_write (scratch E) path)) (\<lambda>r.
     case r of
       Inl _ \<Rightarrow> ok ()
     | Inr _ \<Rightarrow> and_then (clock_read E) (\<lambda>now. outcome (on_scratch (set_modified (scratch E) path now)) (\<lambda>_. ok ())))"

definition canonical_path :: "('f, 'w) prog_env \<Rightarrow> Path \<Rightarrow> ('f, 'w, string) prog_act" where
  "canonical_path E path = on_scratch (canonicalize (scratch E) path)"

definition temporary_name :: "('f, 'w) prog_env \<Rightarrow> Ulid \<Rightarrow> string" where
  "temporary_name E u = ''.'' @ ulid_to_str (prog_ids E) u @ ''.'' @ process_id E @ ''.tmp''"

definition prog_temporary_path :: "('f, 'w) prog_env \<Rightarrow> Path \<Rightarrow> ('f, 'w, Path) prog_act" where
  "prog_temporary_path E parent = (\<lambda>w.
     case local_ulid (scratch E) (prog_disk w) of (u, f) \<Rightarrow> (Inr (parent @ [temporary_name E u]), w\<lparr>prog_disk := f\<rparr>))"

definition publish_temporary :: "('f, 'w) prog_env \<Rightarrow> Path \<Rightarrow> Path \<Rightarrow> ('f, 'w, unit) prog_act" where
  "publish_temporary E temporary path =
     outcome (on_scratch (local_rename (scratch E) temporary path)) (\<lambda>renamed.
     case renamed of
       Inr _ \<Rightarrow> ok ()
     | Inl error \<Rightarrow>
         outcome (on_scratch (local_remove (scratch E) temporary)) (\<lambda>_.
         and_then (on_scratch (local_exists (scratch E) path)) (\<lambda>there.
         if \<not> there then throw error else ok ())))"

definition write_atomic :: "('f, 'w) prog_env \<Rightarrow> Path \<Rightarrow> bytes \<Rightarrow> ('f, 'w, unit) prog_act" where
  "write_atomic E path body =
     (if path = [] then throw ProgNoParent
      else
        and_then (prog_temporary_path E (butlast path)) (\<lambda>temporary.
        and_then (on_scratch (file_create (scratch E) temporary)) (\<lambda>_.
        outcome (on_scratch (file_append (scratch E) temporary body)) (\<lambda>written.
        case written of
          Inl error \<Rightarrow> outcome (on_scratch (local_remove (scratch E) temporary)) (\<lambda>_. throw error)
        | Inr _ \<Rightarrow>
            outcome (on_scratch (file_close (scratch E) temporary)) (\<lambda>_.
            publish_temporary E temporary path)))))"

definition write_disk_file :: "('f, 'w) prog_env \<Rightarrow> string \<Rightarrow> bytes \<Rightarrow> ('f, 'w, string) prog_act" where
  "write_disk_file E name body =
     (let path = directory E @ [name] in
      and_then (file_has_size E path (of_nat (length body))) (\<lambda>present.
      if present then and_then (touch E path) (\<lambda>_. canonical_path E path)
      else and_then (write_atomic E path body) (\<lambda>_. canonical_path E path)))"

section \<open>The remote cache\<close>

definition is_success :: "StatusCode \<Rightarrow> bool" where
  "is_success s \<longleftrightarrow> 200 \<le> s \<and> s < 300"

definition bearer :: "('f, 'w) prog_env \<Rightarrow> headers" where
  "bearer E = (case token E of None \<Rightarrow> [] | Some t \<Rightarrow> [(''authorization'', str_bytes (''Bearer '' @ t))])"

definition prog_send ::
  "('f, 'w) prog_env \<Rightarrow> Method \<Rightarrow> string \<Rightarrow> headers \<Rightarrow> bytes \<Rightarrow> ('f, 'w, Response) prog_act" where
  "prog_send E method key hs body =
     and_then (map_err ProgUrl (lift_result (url_join (prog_web E) (base E) key))) (\<lambda>url.
     map_err ProgHttp (\<lambda>w. case http_send E method url (hs @ bearer E) body (outside w) of (x, u) \<Rightarrow> (x, w\<lparr>outside := u\<rparr>)))"

fun body_bytes :: "body_stream \<Rightarrow> string + bytes" where
  "body_bytes [] = Inr []"
| "body_bytes (Inl e # rest) = Inl e"
| "body_bytes (Inr chunk # rest) = bind_sum (body_bytes rest) (\<lambda>more. Inr (chunk @ more))"

definition send_put :: "('f, 'w) prog_env \<Rightarrow> string \<Rightarrow> bytes \<Rightarrow> ('f, 'w, unit) prog_act" where
  "send_put E key body =
     and_then (prog_send E PUT key [] body) (\<lambda>response.
     require (is_success (resp_status response)) (ProgPutStatus (resp_status response)))"

definition send_get :: "('f, 'w) prog_env \<Rightarrow> string \<Rightarrow> ('f, 'w, Response option) prog_act" where
  "send_get E key =
     and_then (prog_send E GET key [] []) (\<lambda>response.
     if resp_status response = 404 then ok None
     else and_then (require (is_success (resp_status response)) (ProgGetStatus (resp_status response))) (\<lambda>_. ok (Some response)))"

definition read_body :: "Response \<Rightarrow> ('f, 'w, bytes) prog_act" where
  "read_body response = map_err ProgHttp (lift_result (body_bytes (resp_body response)))"

section \<open>The session\<close>

definition record_used :: "string \<Rightarrow> string \<Rightarrow> u64 \<Rightarrow> ('f, 'w, unit) prog_act" where
  "record_used action output n = modify (\<lambda>w. w\<lparr>used := AList.update action \<lparr>used_output = output, used_size = n\<rparr> (used w)\<rparr>)"

definition manifest_entry :: "string \<Rightarrow> ('f, 'w) helper \<Rightarrow> ManifestEntry option" where
  "manifest_entry action w = Option.bind (session_manifest w) (\<lambda>m. map_of (entries m) action)"

definition begin_download :: "string \<Rightarrow> ('f, 'w) helper \<Rightarrow> ('f, 'w) helper" where
  "begin_download output w = w\<lparr>inflight := output # removeAll output (inflight w)\<rparr>"

definition download_in_progress :: "string \<Rightarrow> ('f, 'w) helper \<Rightarrow> bool" where
  "download_in_progress output w \<longleftrightarrow> output \<in> set (inflight w)"

definition end_download :: "string \<Rightarrow> ('f, 'w) helper \<Rightarrow> ('f, 'w) helper" where
  "end_download output w = w\<lparr>inflight := removeAll output (inflight w)\<rparr>"

section \<open>Requests\<close>

definition put_key :: "('f, 'w) prog_env \<Rightarrow> bytes \<Rightarrow> string" where
  "put_key E action = ''go-'' @ hex_encode (prog_ids E) action"

definition prog_put :: "('f, 'w) prog_env \<Rightarrow> ProgRequest \<Rightarrow> bytes \<Rightarrow> ('f, 'w, ProgResponse) prog_act" where
  "prog_put E request encoded_body =
     and_then
       (if pr_body_size request = 0 then ok []
        else map_err ProgJson (lift_result (string_from_slice (prog_json E) encoded_body))) (\<lambda>text.
     and_then (map_err ProgBase64 (lift_result (standard_decode (prog_json E) text))) (\<lambda>body.
     and_then (require (of_nat (length body) = pr_body_size request) ProgBodySize) (\<lambda>_.
     and_then (require (sha256 (prog_ids E) body = pr_output_id request) ProgDigest) (\<lambda>_.
     and_then (write_disk_file E (hex_encode (prog_ids E) (pr_output_id request)) body) (\<lambda>disk_path.
     and_then (send_put E (put_key E (pr_action_id request)) body) (\<lambda>_.
     and_then (record_used (hex_encode (prog_ids E) (pr_action_id request))
         (hex_encode (prog_ids E) (pr_output_id request)) (pr_body_size request)) (\<lambda>_.
     ok (ProgResponse_default\<lparr>rs_id := pr_id request, rs_disk_path := disk_path\<rparr>))))))))"

text \<open>\<open>hex::decode\<close> reads any even number of digits.\<close>

definition hex_bytes :: "('f, 'w) prog_env \<Rightarrow> string \<Rightarrow> ('f, 'w, bytes) prog_act" where
  "hex_bytes E s = (case hex_decode (prog_ids E) s (length s div 2) of None \<Rightarrow> throw ProgHex | Some bs \<Rightarrow> ok bs)"

definition missed :: "ProgRequest \<Rightarrow> ProgResponse" where
  "missed request = ProgResponse_default\<lparr>rs_id := pr_id request, rs_miss := True\<rparr>"

text \<open>
  The local answer, if the manifest knows the action and its file is there, after the
  download in progress, if any, has ended; \<open>meanwhile\<close> is what the pool does until then.
\<close>

definition local_answer ::
  "('f, 'w) prog_env \<Rightarrow> (('f, 'w) helper \<Rightarrow> ('f, 'w) helper) \<Rightarrow> string \<Rightarrow> ProgRequest \<Rightarrow> ManifestEntry \<Rightarrow>
    ('f, 'w, ProgResponse option) prog_act" where
  "local_answer E meanwhile action request entry =
     (let path = directory E @ [entry_output entry] in
      and_then (file_has_size E path (entry_size entry)) (\<lambda>present.
      and_then
        (\<lambda>w. if \<not> present \<and> download_in_progress (entry_output entry) w
             then file_has_size E path (entry_size entry) (meanwhile w)
             else (Inr present, w)) (\<lambda>present.
      if \<not> present then ok None
      else
        and_then (touch E path) (\<lambda>_.
        and_then (record_used action (entry_output entry) (entry_size entry)) (\<lambda>_.
        and_then (hex_bytes E (entry_output entry)) (\<lambda>output.
        and_then (canonical_path E path) (\<lambda>disk_path.
        ok (Some (ProgResponse_default\<lparr>rs_id := pr_id request, rs_output_id := output, rs_size := entry_size entry,
          rs_disk_path := disk_path\<rparr>)))))))))"

definition expected_digest :: "Response \<Rightarrow> string option" where
  "expected_digest response =
     Option.bind (Option.bind (header_get (resp_headers response) ''etag'') header_str)
       (\<lambda>tag. strip_prefix ''sha256:'' (trim_matches CHR 0x22 tag))"

definition remote_answer :: "('f, 'w) prog_env \<Rightarrow> string \<Rightarrow> ProgRequest \<Rightarrow> ('f, 'w, ProgResponse) prog_act" where
  "remote_answer E action request =
     and_then (send_get E (''go-'' @ action)) (\<lambda>found.
     case found of
       None \<Rightarrow> ok (missed request)
     | Some response \<Rightarrow>
         and_then (read_body response) (\<lambda>body.
         let output = hex_encode (prog_ids E) (sha256 (prog_ids E) body) in
         if (case expected_digest response of None \<Rightarrow> False | Some expected \<Rightarrow> expected \<noteq> output) then ok (missed request)
         else
           and_then (write_disk_file E output body) (\<lambda>disk_path.
           and_then (record_used action output (of_nat (length body))) (\<lambda>_.
           and_then (hex_bytes E output) (\<lambda>output_id.
           ok (ProgResponse_default\<lparr>rs_id := pr_id request, rs_output_id := output_id, rs_size := of_nat (length body),
             rs_disk_path := disk_path\<rparr>))))))"

definition prog_get ::
  "('f, 'w) prog_env \<Rightarrow> (('f, 'w) helper \<Rightarrow> ('f, 'w) helper) \<Rightarrow> ProgRequest \<Rightarrow> ('f, 'w, ProgResponse) prog_act" where
  "prog_get E meanwhile request =
     (let action = hex_encode (prog_ids E) (pr_action_id request) in
      and_then
        (\<lambda>w. case manifest_entry action w of
           None \<Rightarrow> (Inr None, w)
         | Some entry \<Rightarrow> local_answer E meanwhile action request entry w) (\<lambda>answered.
      case answered of Some response \<Rightarrow> ok response | None \<Rightarrow> remote_answer E action request))"

definition execute_request ::
  "('f, 'w) prog_env \<Rightarrow> (('f, 'w) helper \<Rightarrow> ('f, 'w) helper) \<Rightarrow> ProgRequest \<Rightarrow> bytes \<Rightarrow> ('f, 'w, ProgResponse) prog_act" where
  "execute_request E meanwhile request encoded_body =
     outcome
       (if pr_command request = ''put'' then prog_put E request encoded_body
        else if pr_command request = ''get'' then prog_get E meanwhile request
        else throw (ProgUnsupported (pr_command request))) (\<lambda>r.
     ok (case r of Inr response \<Rightarrow> response | Inl e \<Rightarrow> ProgResponse_default\<lparr>rs_id := pr_id request, rs_err := error_text E e\<rparr>))"

section \<open>Downloads\<close>

definition empty_output :: string where
  "empty_output = ''e3b0c44298fc1c149afbf4c8996fb92427ae41e4649b934ca495991b7852b855''"

definition stored_manifest :: "('f, 'w) prog_env \<Rightarrow> ('f, 'w, Manifest option) prog_act" where
  "stored_manifest E =
     and_then (send_get E (session_key E)) (\<lambda>found.
     case found of
       None \<Rightarrow> ok None
     | Some response \<Rightarrow>
         and_then (read_body response) (\<lambda>bs.
         ok (case manifest_from_slice E bs of
               Inr m \<Rightarrow> if version m = manifest_version then Some m else None
             | Inl _ \<Rightarrow> None)))"

text \<open>\<open>OnceLock::get_or_init\<close>.\<close>

definition install_manifest :: "Manifest \<Rightarrow> ('f, 'w, Manifest) prog_act" where
  "install_manifest m = (\<lambda>w.
     case session_manifest w of Some m' \<Rightarrow> (Inr m', w) | None \<Rightarrow> (Inr m, w\<lparr>session_manifest := Some m\<rparr>))"

fun plan_downloads ::
  "('f, 'w) prog_env \<Rightarrow> string list \<Rightarrow> (string \<times> ManifestEntry) list \<Rightarrow> ('f, 'w, (string \<times> ManifestEntry) list) prog_act" where
  "plan_downloads E seen_outputs [] = ok []"
| "plan_downloads E seen_outputs ((action, entry) # rest) =
     (if entry_output entry \<in> set seen_outputs then plan_downloads E seen_outputs rest
      else if entry_size entry = 0 then
        and_then
          (if entry_output entry = empty_output
           then outcome (write_disk_file E (entry_output entry) []) (\<lambda>_. ok ()) else ok ()) (\<lambda>_.
        plan_downloads E (entry_output entry # seen_outputs) rest)
      else
        and_then (file_has_size E (directory E @ [entry_output entry]) (entry_size entry)) (\<lambda>present.
        if present then
          and_then (touch E (directory E @ [entry_output entry])) (\<lambda>_. plan_downloads E (entry_output entry # seen_outputs) rest)
        else
          and_then (plan_downloads E (entry_output entry # seen_outputs) rest) (\<lambda>wanted. ok ((action, entry) # wanted))))"

definition start_prefetch :: "('f, 'w) prog_env \<Rightarrow> ('f, 'w, unit) prog_act" where
  "start_prefetch E =
     and_then (stored_manifest E) (\<lambda>found.
     and_then (install_manifest (case found of Some m \<Rightarrow> m | None \<Rightarrow> Manifest_empty)) (\<lambda>m.
     and_then (plan_downloads E [] (entries m)) (\<lambda>wanted.
     if concurrency E = 0 then ok ()
     else modify (\<lambda>w. fold (\<lambda>(_, entry). begin_download (entry_output entry)) wanted
       (w\<lparr>pool := wanted, permitted := []\<rparr>)))))"

fun spool_chunks ::
  "('f, 'w) prog_env \<Rightarrow> Path \<Rightarrow> body_stream \<Rightarrow> bytes \<Rightarrow> u64 \<Rightarrow> ('f, 'w, bytes \<times> u64) prog_act" where
  "spool_chunks E temporary [] hashed n = ok (hashed, n)"
| "spool_chunks E temporary (Inl e # rest) hashed n = throw (ProgHttp e)"
| "spool_chunks E temporary (Inr chunk # rest) hashed n =
     and_then (on_scratch (file_append (scratch E) temporary chunk)) (\<lambda>_.
     spool_chunks E temporary rest (hashed @ chunk) (n + of_nat (length chunk)))"

definition spool_verified :: "('f, 'w) prog_env \<Rightarrow> Response \<Rightarrow> Path \<Rightarrow> ManifestEntry \<Rightarrow> ('f, 'w, unit) prog_act" where
  "spool_verified E response temporary entry =
     and_then (on_scratch (file_create (scratch E) temporary)) (\<lambda>_.
     and_then (spool_chunks E temporary (resp_body response) [] 0) (\<lambda>(hashed, n).
     and_then (on_scratch (file_flush_all (scratch E) temporary)) (\<lambda>_.
     and_then (require (n = entry_size entry) ProgPrefetchSize) (\<lambda>_.
     require (hex_encode (prog_ids E) (sha256 (prog_ids E) hashed) = entry_output entry) ProgPrefetchDigest))))"

definition prefetch_headers :: "('f, 'w) prog_env \<Rightarrow> headers" where
  "prefetch_headers E =
     [(request_purpose_header, str_bytes request_purpose_prefetch),
      (request_prefetch_concurrency_header, str_bytes (decimal (concurrency E))),
      (request_session_header, str_bytes (session_key E))]"

definition download_object :: "('f, 'w) prog_env \<Rightarrow> string \<Rightarrow> ManifestEntry \<Rightarrow> ('f, 'w, u64 option) prog_act" where
  "download_object E action entry =
     (let path = directory E @ [entry_output entry] in
      and_then (file_has_size E path (entry_size entry)) (\<lambda>present.
      if present then ok None
      else
        and_then (prog_send E GET (''go-'' @ action) (prefetch_headers E) []) (\<lambda>response.
        if resp_status response = 404 then ok None
        else
          and_then (require (is_success (resp_status response)) (ProgPrefetchStatus (resp_status response))) (\<lambda>_.
          and_then (prog_temporary_path E (directory E)) (\<lambda>temporary.
          outcome (spool_verified E response temporary entry) (\<lambda>spooled.
          case spooled of
            Inl error \<Rightarrow> outcome (on_scratch (local_remove (scratch E) temporary)) (\<lambda>_. throw error)
          | Inr _ \<Rightarrow> and_then (publish_temporary E temporary path) (\<lambda>_. ok (Some (entry_size entry)))))))))"

text \<open>
  Whether a download of the pool can take a permit of \<open>Semaphore::new(concurrency)\<close>, and what a
  download does once it holds one: however it ends, its permit and its marker are dropped.
\<close>

definition permit_free :: "('f, 'w) prog_env \<Rightarrow> ('f, 'w) helper \<Rightarrow> bool" where
  "permit_free E w \<longleftrightarrow> length (permitted w) < concurrency E"

definition take_permit :: "string \<times> ManifestEntry \<Rightarrow> ('f, 'w) helper \<Rightarrow> ('f, 'w) helper" where
  "take_permit d w = w\<lparr>permitted := d # permitted w\<rparr>"

definition pool_download :: "('f, 'w) prog_env \<Rightarrow> string \<times> ManifestEntry \<Rightarrow> ('f, 'w, unit) prog_act" where
  "pool_download E d =
     outcome (download_object E (fst d) (snd d)) (\<lambda>_.
     modify (\<lambda>w. end_download (entry_output (snd d))
       (w\<lparr>pool := remove1 d (pool w), permitted := remove1 d (permitted w)\<rparr>)))"

section \<open>The end of a session\<close>

definition unix_now :: "('f, 'w) prog_env \<Rightarrow> ('f, 'w, u64) prog_act" where
  "unix_now E = and_then (clock_read E) (\<lambda>t. ok (of_nat (t div 1000000000)))"

text \<open>\<open>expires\<close>: the timeout ends the update before the merged manifest is sent.\<close>

definition manifest_update :: "('f, 'w) prog_env \<Rightarrow> bool \<Rightarrow> used_map \<Rightarrow> ('f, 'w, unit) prog_act" where
  "manifest_update E expires taken_map =
     and_then (stored_manifest E) (\<lambda>stored.
     if expires then ok ()
     else
       and_then (unix_now E) (\<lambda>now.
       and_then (map_err ProgJson (lift_result (manifest_to_vec E (merge_manifest stored taken_map now)))) (\<lambda>bs.
       send_put E (session_key E) bs)))"

definition finalize :: "('f, 'w) prog_env \<Rightarrow> bool \<Rightarrow> ('f, 'w, unit) prog_act" where
  "finalize E expires =
     (\<lambda>w. let taken_map = used w; w = w\<lparr>used := []\<rparr> in
        if taken_map = [] then (Inr (), w)
        else outcome (manifest_update E expires taken_map) (\<lambda>_. ok ()) w)"

definition abort_prefetch :: "('f, 'w, unit) prog_act" where
  "abort_prefetch = modify (\<lambda>w. if prefetch_task w then w\<lparr>prefetch_task := False, pool := [], permitted := [], inflight := []\<rparr> else w)"

definition finish_session :: "('f, 'w) prog_env \<Rightarrow> bool \<Rightarrow> ('f, 'w, unit) prog_act" where
  "finish_session E expires = and_then abort_prefetch (\<lambda>_. finalize E expires)"

definition temporary_max_age :: Duration where
  "temporary_max_age = from_secs (60 * 60)"

definition ends_with :: "string \<Rightarrow> string \<Rightarrow> bool" where
  "ends_with sfx s \<longleftrightarrow> length sfx \<le> length s \<and> drop (length s - length sfx) s = sfx"

definition is_temporary_name :: "string \<Rightarrow> bool" where
  "is_temporary_name name \<longleftrightarrow> starts_with ''.'' name \<and> ends_with ''.tmp'' name"

definition is_stale :: "Duration \<Rightarrow> Duration \<Rightarrow> FileStat \<Rightarrow> bool" where
  "is_stale now max_age st \<longleftrightarrow>
     stat_is_file st \<and> (case stat_modified st of None \<Rightarrow> False | Some t \<Rightarrow> t \<le> now \<and> max_age < now - t)"

definition prune_entry :: "('f, 'w) prog_env \<Rightarrow> Duration \<Rightarrow> Duration option \<Rightarrow> string \<Rightarrow> ('f, 'w, unit) prog_act" where
  "prune_entry E now object_max_age name =
     (case (if is_temporary_name name then Some temporary_max_age else object_max_age) of
        None \<Rightarrow> ok ()
      | Some max_age \<Rightarrow>
          outcome (on_scratch (local_metadata (scratch E) (directory E @ [name]))) (\<lambda>r.
          if (case r of Inr st \<Rightarrow> is_stale now max_age st | Inl _ \<Rightarrow> False)
          then outcome (on_scratch (local_remove (scratch E) (directory E @ [name]))) (\<lambda>_. ok ())
          else ok ()))"

text \<open>The listing ends at its first error.\<close>

fun prune_entries :: "('f, 'w) prog_env \<Rightarrow> Duration \<Rightarrow> Duration option \<Rightarrow> (IoError + string) list \<Rightarrow> ('f, 'w, unit) prog_act" where
  "prune_entries E now object_max_age [] = ok ()"
| "prune_entries E now object_max_age (Inl e # rest) = ok ()"
| "prune_entries E now object_max_age (Inr name # rest) =
     and_then (prune_entry E now object_max_age name) (\<lambda>_. prune_entries E now object_max_age rest)"

definition prune_stale_files :: "('f, 'w) prog_env \<Rightarrow> Duration \<Rightarrow> Duration option \<Rightarrow> ('f, 'w, unit) prog_act" where
  "prune_stale_files E now object_max_age =
     outcome (on_scratch (local_read_dir (scratch E) (directory E))) (\<lambda>r.
     case r of Inl _ \<Rightarrow> ok () | Inr names \<Rightarrow> prune_entries E now object_max_age names)"

definition write_response :: "('f, 'w) prog_env \<Rightarrow> ProgResponse \<Rightarrow> ('f, 'w, unit) prog_act" where
  "write_response E response =
     and_then (map_err ProgJson (lift_result (value_to_vec (prog_json E) (response_value (prog_json E) response)))) (\<lambda>bs.
     \<lambda>w. case stdout_fails E (length (stdout w)) of
           Some e \<Rightarrow> (Inl (ProgIo e), w)
         | None \<Rightarrow> (Inr (), w\<lparr>stdout := stdout w @ [(response, bs @ [line_feed])]\<rparr>))"

end
