(* ===== verification/Cacheprog_Session.thy ===== *)
theory Cacheprog_Session
  imports Cacheprog
begin

text \<open>
  A session of the Go cache program from its start to its end (\<open>run_with_shutdown\<close> of
  \<open>src/cacheprog/mod.rs\<close>): the loop reads messages, runs requests side by side, answers them
  in the order they complete, and ends after a close, at the end of its input, at a shutdown
  or at an error of its input or output.
\<close>

section \<open>Start and end\<close>

record CacheprogArgs =
  arg_url :: string
  arg_token :: "string option"
  arg_cache_dir :: "Path option"
  arg_ephemeral_cache :: bool
  arg_session :: "string option"
  arg_prune_days :: u64
  arg_prefetch_concurrency :: nat

definition default_prune_days :: u64 where
  "default_prune_days = manifest_max_age_seconds div (24 * 60 * 60)"

definition cache_directory :: "('f, 'w) prog_env \<Rightarrow> Path \<Rightarrow> CacheprogArgs \<Rightarrow> ('f, 'w, Path) prog_act" where
  "cache_directory E temp_dir args =
     (let parent = (case arg_cache_dir args of Some dir \<Rightarrow> dir | None \<Rightarrow> temp_dir) in
      and_then
        (if arg_ephemeral_cache args
         then (\<lambda>w. case local_ulid (scratch E) (prog_disk w) of
                 (u, f) \<Rightarrow> (Inr (parent @ [''flywheel-cacheprog-'' @ ulid_to_str (prog_ids E) u]), w\<lparr>prog_disk := f\<rparr>))
         else ok (parent @ [''flywheel-cacheprog''])) (\<lambda>dir.
      and_then (on_scratch (local_create_dir_all (scratch E) dir)) (\<lambda>_. ok dir)))"

definition known_commands :: ProgResponse where
  "known_commands = ProgResponse_default\<lparr>rs_known_commands := [''get'', ''put'', ''close'']\<rparr>"

text \<open>The fields of \<open>E\<close> that a session sets are overwritten; \<open>client\<close> is the construction of the HTTP client.\<close>

definition start_session ::
  "('f, 'w) prog_env \<Rightarrow> host \<Rightarrow> Path \<Rightarrow> Path \<Rightarrow> string + unit \<Rightarrow> CacheprogArgs \<Rightarrow> ('f, 'w, ('f, 'w) prog_env) prog_act" where
  "start_session E h cwd temp_dir client args =
     and_then (map_err ProgUrl (lift_result (url_parse (prog_web E) (arg_url args)))) (\<lambda>url.
     and_then (require (ends_with ''/'' (url_path (prog_web E) url)) ProgUrlSlash) (\<lambda>_.
     and_then (cache_directory E temp_dir args) (\<lambda>dir.
     and_then (map_err ProgHttp (lift_result client)) (\<lambda>_.
     let E' = E\<lparr>base := url, token := arg_token args, directory := dir,
           session_key := manifest_key (prog_ids E) (session_label h (arg_session args) cwd),
           concurrency := arg_prefetch_concurrency args\<rparr> in
     and_then (modify (\<lambda>w. w\<lparr>session_manifest := None, used := [], inflight := [], pool := [], permitted := [], prefetch_task := True,
         prefetch_begun := False\<rparr>)) (\<lambda>_.
     and_then (write_response E' known_commands) (\<lambda>_. ok E'))))))"

definition end_session :: "('f, 'w) prog_env \<Rightarrow> CacheprogArgs \<Rightarrow> bool \<Rightarrow> ('f, 'w, unit) prog_act" where
  "end_session E args expires =
     and_then (finish_session E expires) (\<lambda>_.
     if arg_ephemeral_cache args
     then outcome (on_scratch (local_remove_dir_all (scratch E) (directory E))) (\<lambda>_. ok ())
     else
       and_then (clock_read E) (\<lambda>now.
       prune_stale_files E now
         (if 0 < arg_prune_days args then Some (from_secs (unat (arg_prune_days args * 24 * 60 * 60))) else None)))"

section \<open>The pool\<close>

text \<open>
  The task builds its work list; a download that has no permit takes one when one is free; a
  download that has one runs to its end, which includes the answers of the HTTP client.
\<close>

inductive pool_step :: "('f, 'w) prog_env \<Rightarrow> ('f, 'w) helper \<Rightarrow> ('f, 'w) helper \<Rightarrow> bool" for E where
  begins: "prefetch_task w \<Longrightarrow> \<not> prefetch_begun w \<Longrightarrow> start_prefetch E w = (r, w') \<Longrightarrow>
    pool_step E w (w'\<lparr>prefetch_begun := True\<rparr>)"
| acquires: "d \<in> set (pool w) \<Longrightarrow> d \<notin> set (permitted w) \<Longrightarrow> permit_free E w \<Longrightarrow> pool_step E w (take_permit d w)"
| download: "d \<in> set (pool w) \<Longrightarrow> d \<in> set (permitted w) \<Longrightarrow> pool_download E d w = (r, w') \<Longrightarrow> pool_step E w w'"

section \<open>The loop\<close>

datatype phase = Serving | Left_loop | Returned | Failed ProgError

text \<open>
  The local variables of the loop. \<open>admitted_ids\<close> is a history: the identifiers of the
  requests put in flight.
\<close>

record ('f, 'w) session =
  world :: "('f, 'w) helper"
  reader :: ProtocolReader
  in_flight_requests :: "(ProgRequest \<times> bytes) list"
  close_id :: "int option"
  phase :: phase
  admitted_ids :: "int list"

definition after_write :: "(ProgError + unit) \<times> ('f, 'w) helper \<Rightarrow> ('f, 'w) session \<Rightarrow> ('f, 'w) session" where
  "after_write run s =
     (case run of
        (Inr _, w) \<Rightarrow> s\<lparr>world := w\<rparr>
      | (Inl e, w) \<Rightarrow> s\<lparr>world := w, phase := Failed e\<rparr>)"

definition on_message :: "('f, 'w) prog_env \<Rightarrow> ProtocolMessage option \<Rightarrow> ('f, 'w) session \<Rightarrow> ('f, 'w) session" where
  "on_message E message s =
     (case message of
        None \<Rightarrow> s\<lparr>in_flight_requests := [], phase := Left_loop\<rparr>
      | Some (InvalidMessage error) \<Rightarrow> after_write (write_response E (ProgResponse_default\<lparr>rs_err := error\<rparr>) (world s)) s
      | Some (RequestMessage request body) \<Rightarrow>
          if pr_command request = ''close'' then s\<lparr>close_id := Some (pr_id request)\<rparr>
          else s\<lparr>in_flight_requests := in_flight_requests s @ [(request, body)], admitted_ids := admitted_ids s @ [pr_id request]\<rparr>)"

definition complete_request ::
  "('f, 'w) prog_env \<Rightarrow> (('f, 'w) helper \<Rightarrow> ('f, 'w) helper) \<Rightarrow> ProgRequest \<times> bytes \<Rightarrow> ('f, 'w) session \<Rightarrow> ('f, 'w) session" where
  "complete_request E meanwhile p s =
     (case execute_request E meanwhile (fst p) (snd p) (world s) of
        (Inl e, w) \<Rightarrow> s\<lparr>world := w, phase := Failed e\<rparr>
      | (Inr response, w) \<Rightarrow>
          after_write (write_response E response w)
            (s\<lparr>world := w, in_flight_requests := remove1 p (in_flight_requests s)\<rparr>))"

definition answer_close :: "('f, 'w) prog_env \<Rightarrow> bool \<Rightarrow> int \<Rightarrow> ('f, 'w) session \<Rightarrow> ('f, 'w) session" where
  "answer_close E expires ident s =
     (case finish_session E expires (world s) of
        (_, w) \<Rightarrow> after_write (write_response E (ProgResponse_default\<lparr>rs_id := ident\<rparr>) w) (s\<lparr>world := w, phase := Left_loop\<rparr>))"

inductive prog_step ::
  "('f, 'w) prog_env \<Rightarrow> CacheprogArgs \<Rightarrow> ('f, 'w) session \<Rightarrow> ('f, 'w) session \<Rightarrow> bool" for E args where
  pool_runs: "phase s = Serving \<Longrightarrow> pool_step E (world s) w' \<Longrightarrow> prog_step E args s (s\<lparr>world := w'\<rparr>)"
| read_dropped: "phase s = Serving \<Longrightarrow> close_id s = None \<Longrightarrow> dropped_message (prog_json E) (reader s) rd \<Longrightarrow>
    prog_step E args s (s\<lparr>reader := rd\<rparr>)"
| message: "phase s = Serving \<Longrightarrow> close_id s = None \<Longrightarrow> next_message (prog_json E) (reader s) = (Inr m, rd) \<Longrightarrow>
    prog_step E args s (on_message E m (s\<lparr>reader := rd\<rparr>))"
| read_fails: "phase s = Serving \<Longrightarrow> close_id s = None \<Longrightarrow> next_message (prog_json E) (reader s) = (Inl e, rd) \<Longrightarrow>
    prog_step E args s (s\<lparr>reader := rd, phase := Failed (ProgRead e)\<rparr>)"
| completes: "phase s = Serving \<Longrightarrow> p \<in> set (in_flight_requests s) \<Longrightarrow> (\<And>w. (pool_step E)\<^sup>*\<^sup>* w (meanwhile w)) \<Longrightarrow>
    prog_step E args s (complete_request E meanwhile p s)"
| shutdown: "phase s = Serving \<Longrightarrow> prog_step E args s (s\<lparr>in_flight_requests := [], phase := Left_loop\<rparr>)"
| closes: "phase s = Serving \<Longrightarrow> close_id s = Some ident \<Longrightarrow> in_flight_requests s = [] \<Longrightarrow>
    prog_step E args s (answer_close E expires ident s)"
| ends: "phase s = Left_loop \<Longrightarrow> end_session E args expires (world s) = (r, w) \<Longrightarrow>
    prog_step E args s (s\<lparr>world := w, phase := Returned\<rparr>)"

text \<open>A session that has just started: the commands are announced and nothing is read.\<close>

inductive started ::
  "('f, 'w) prog_env \<Rightarrow> host \<Rightarrow> Path \<Rightarrow> Path \<Rightarrow> string + unit \<Rightarrow> CacheprogArgs \<Rightarrow> 'f \<Rightarrow> ('f, 'w) prog_env \<Rightarrow> ('f, 'w) session \<Rightarrow> bool"
  for E h cwd temp_dir client args f where
  "prog_disk w = f \<Longrightarrow> stdout w = [] \<Longrightarrow> start_session E h cwd temp_dir client args w = (Inr E', w') \<Longrightarrow>
    started E h cwd temp_dir client args f E'
      \<lparr>world = w', reader = \<lparr>coming = bs, input_fails = fails, line = [], pending_put = None\<rparr>, in_flight_requests = [],
       close_id = None, phase = Serving, admitted_ids = []\<rparr>"

inductive_cases pool_stepE: "pool_step E w w'"
inductive_cases prog_stepE: "prog_step E args s s'"
end
