(* ===== verification/Reference_Scratch.thy ===== *)
theory Reference_Scratch
  imports Cacheprog_Session Proxy_Properties
begin

text \<open>
  A concrete local directory, server and set of libraries for the Go cache program, used only
  where a property is applied to a concrete input. The directory writes accepted bytes when a
  file is flushed or closed; with \<open>loses\<close> it loses them when a file is closed, as a runtime may
  whose background write fails.
\<close>

type_synonym demo_files = "(Path \<Rightarrow> bytes option) \<times> (Path \<Rightarrow> bytes)"

definition demo_scratch :: "bool \<Rightarrow> demo_files scratch" where
  "demo_scratch loses =
     \<lparr>local_files = fst, taken = snd,
      local_metadata = (\<lambda>p f. (case fst f p of
          None \<Rightarrow> Inl IoNotFound
        | Some bs \<Rightarrow> if length bs < 2 ^ 64 then Inr \<lparr>stat_is_file = True, stat_len = of_nat (length bs), stat_modified = None\<rparr>
            else Inl (IoOther ''too large''), f)),
      file_create = (\<lambda>p f. (Inr (), ((fst f)(p := Some []), (snd f)(p := [])))),
      file_append = (\<lambda>p bs f. (Inr (), (fst f, (snd f)(p := snd f p @ bs)))),
      file_flush_all = (\<lambda>p f. (Inr (), ((fst f)(p := Some (snd f p)), snd f))),
      file_close = (\<lambda>p f. (Inr (), ((fst f)(p := Some (if loses then [] else snd f p)), snd f))),
      local_rename = (\<lambda>p q f. case fst f p of
          None \<Rightarrow> (Inl IoNotFound, f)
        | Some bs \<Rightarrow> (Inr (), ((fst f)(q := Some bs, p := None), snd f))),
      local_remove = (\<lambda>p f. (Inr (), ((fst f)(p := None), snd f))),
      local_exists = (\<lambda>p f. (Inr (fst f p \<noteq> None), f)),
      canonicalize = (\<lambda>p f. (Inr (concat p), f)),
      local_create_dir_all = (\<lambda>p f. (Inr (), f)),
      local_remove_dir_all = (\<lambda>p f. (Inr (), (\<lambda>q. if take (length p) q = p then None else fst f q, snd f))),
      local_read_dir = (\<lambda>p f. (Inr [], f)),
      open_for_write = (\<lambda>p f. (Inr (), f)),
      set_modified = (\<lambda>p t f. (Inr (), f)),
      local_ulid = (\<lambda>f. (1, f))\<rparr>"

text \<open>The digest of the empty body is the one the code names.\<close>

definition demo_go :: crates where
  "demo_go = demo_crates\<lparr>sha256 := (\<lambda>bs.
     if bs = [] then
       [227, 176, 196, 66, 152, 252, 28, 20, 154, 251, 244, 200, 153, 111, 185, 36, 39, 174, 65, 228, 100, 155, 147, 76, 164, 149, 153,
        27, 120, 82, 184, 85]
     else sha256 demo_crates bs)\<rparr>"

text \<open>Every stored object is the byte 7, and so the manifest says.\<close>

definition demo_entry :: ManifestEntry where
  "demo_entry = \<lparr>entry_output = hex_encode demo_go (sha256 demo_go [7]), entry_size = 1, last_seen = 0\<rparr>"

definition demo_go_web :: web_crates where
  "demo_go_web = demo_web\<lparr>url_join := (\<lambda>base p. Inr (Url p))\<rparr>"

definition demo_go_env :: "bool \<Rightarrow> (demo_files, unit) prog_env" where
  "demo_go_env loses =
     \<lparr>prog_ids = demo_go, prog_json = demo_prog, prog_web = demo_go_web, scratch = demo_scratch loses,
      http_send = (\<lambda>method url hs body w. (Inr \<lparr>resp_status = 200, resp_headers = [], resp_body = [Inr [7]]\<rparr>, w)),
      manifest_from_slice = (\<lambda>_. Inr \<lparr>version = manifest_version, entries = [(''05'', demo_entry)]\<rparr>), manifest_to_vec = (\<lambda>_. Inr []), system_now = (\<lambda>_. 0), process_id = ''1'',
      error_display = (\<lambda>_. ''error''), stdout_fails = (\<lambda>_. None), base = Url ''/'', token = None, directory = [''tmp''],
      session_key = ''session'', concurrency = 4\<rparr>"

definition demo_helper :: "(demo_files, unit) helper" where
  "demo_helper =
     \<lparr>prog_disk = (\<lambda>_. None, \<lambda>_. []), outside = (), session_manifest = None, used = [], inflight = [], pool = [], permitted = [],
      prefetch_task = True, prefetch_begun = False, ticks = 0, stdout = []\<rparr>"

lemma demo_scratch_select [simp]:
  "local_files (demo_scratch loses) = fst" "taken (demo_scratch loses) = snd"
  "file_create (demo_scratch loses) p f = (Inr (), ((fst f)(p := Some []), (snd f)(p := [])))"
  "file_append (demo_scratch loses) p bs f = (Inr (), (fst f, (snd f)(p := snd f p @ bs)))"
  "file_close (demo_scratch loses) p f = (Inr (), ((fst f)(p := Some (if loses then [] else snd f p)), snd f))"
  "canonicalize (demo_scratch loses) p f = (Inr (concat p), f)"
  "local_ulid (demo_scratch loses) f = (1, f)"
  by (simp_all add: demo_scratch_def)

lemma demo_go_select [simp]:
  "prog_ids (demo_go_env loses) = demo_go" "prog_json (demo_go_env loses) = demo_prog" "prog_web (demo_go_env loses) = demo_go_web"
  "scratch (demo_go_env loses) = demo_scratch loses" "directory (demo_go_env loses) = [''tmp'']" "token (demo_go_env loses) = None"
  "base (demo_go_env loses) = Url ''/''" "stdout_fails (demo_go_env loses) n = None"
  "http_send (demo_go_env loses) method url hs body u = (Inr \<lparr>resp_status = 200, resp_headers = [], resp_body = [Inr [7]]\<rparr>, u)"
  "manifest_from_slice (demo_go_env loses) bs = Inr \<lparr>version = manifest_version, entries = [(''05'', demo_entry)]\<rparr>"
  "url_join demo_go_web b p = Inr (Url p)" "url_parse demo_go_web ''/'' = Inr (Url ''/'')" "url_path demo_go_web (Url ''/'') = ''/''"
  by (simp_all add: demo_go_env_def demo_go_web_def demo_web_def demo_url_def)

end
