(* ===== verification/Cacheprog_Objects.thy ===== *)
theory Cacheprog_Objects
  imports Reference_Scratch "HOL-Library.Sublist"
begin

text \<open>
  The local directory of the Go cache program holds only genuine objects: a file under the
  name of a digest holds bytes of a body with that digest. Every request, every download and
  every step of a session keeps that, whatever the server answers and the disk does.
\<close>

section \<open>What the code relies on\<close>

definition quiet :: "'f scratch \<Rightarrow> ('f, 'e, 'a) act \<Rightarrow> bool" where
  "quiet S m \<longleftrightarrow> (\<forall>f. local_files S (snd (m f)) = local_files S f)"

definition changes_only :: "'f scratch \<Rightarrow> Path \<Rightarrow> 'f \<Rightarrow> 'f \<Rightarrow> bool" where
  "changes_only S p f f' \<longleftrightarrow> (\<forall>q. q \<noteq> p \<longrightarrow> local_files S f' q = local_files S f q)"

text \<open>
  Looking changes nothing; a file's metadata has its length; writing changes one file;
  flushing writes what the file has accepted and closing some prefix of it; a rename moves a
  file or does nothing; removals remove.
\<close>

definition scratch_ok :: "'f scratch \<Rightarrow> bool" where
  "scratch_ok S \<longleftrightarrow>
     (\<forall>p. quiet S (local_metadata S p)) \<and> (\<forall>p. quiet S (local_exists S p)) \<and> (\<forall>p. quiet S (canonicalize S p))
   \<and> (\<forall>p. quiet S (open_for_write S p)) \<and> (\<forall>p t. quiet S (set_modified S p t)) \<and> (\<forall>p. quiet S (local_read_dir S p))
   \<and> (\<forall>p. quiet S (local_create_dir_all S p)) \<and> (\<forall>f. local_files S (snd (local_ulid S f)) = local_files S f)
   \<and> (\<forall>p f st f'. local_metadata S p f = (Inr st, f') \<longrightarrow> stat_is_file st \<longrightarrow>
        (\<exists>bs. local_files S f p = Some bs \<and> unat (stat_len st) = length bs))
   \<and> (\<forall>p f r f'. file_create S p f = (r, f') \<longrightarrow> changes_only S p f f' \<and> (\<not> isl r \<longrightarrow> taken S f' p = []))
   \<and> (\<forall>p bs f r f'. file_append S p bs f = (r, f') \<longrightarrow> changes_only S p f f' \<and> (\<not> isl r \<longrightarrow> taken S f' p = taken S f p @ bs))
   \<and> (\<forall>p f r f'. file_flush_all S p f = (r, f') \<longrightarrow> changes_only S p f f' \<and> (\<not> isl r \<longrightarrow> local_files S f' p = Some (taken S f p)))
   \<and> (\<forall>p f r f'. file_close S p f = (r, f') \<longrightarrow> changes_only S p f f'
        \<and> (\<exists>pre. local_files S f' p = Some pre \<and> prefix pre (taken S f p)))
   \<and> (\<forall>p q f r f'. local_rename S p q f = (r, f') \<longrightarrow>
        local_files S f' = (if isl r then local_files S f else (local_files S f)(q := local_files S f p, p := None)))
   \<and> (\<forall>p f r f'. local_remove S p f = (r, f') \<longrightarrow> changes_only S p f f' \<and> local_files S f' p \<in> {None, local_files S f p})
   \<and> (\<forall>p q f r f'. local_remove_dir_all S p f = (r, f') \<longrightarrow> local_files S f' q \<in> {None, local_files S f q})"

lemma scratchD:
  assumes "scratch_ok S"
  shows "quiet S (local_metadata S p)" "quiet S (local_exists S p)"
    "local_metadata S p f = (Inr st, f') \<Longrightarrow> stat_is_file st \<Longrightarrow> \<exists>bs. local_files S f p = Some bs \<and> unat (stat_len st) = length bs"
    "file_create S p f = (r, f') \<Longrightarrow> changes_only S p f f' \<and> (\<not> isl r \<longrightarrow> taken S f' p = [])"
    "file_append S p bs f = (r, f') \<Longrightarrow> changes_only S p f f' \<and> (\<not> isl r \<longrightarrow> taken S f' p = taken S f p @ bs)"
    "file_flush_all S p f = (r, f') \<Longrightarrow> changes_only S p f f' \<and> (\<not> isl r \<longrightarrow> local_files S f' p = Some (taken S f p))"
    "file_close S p f = (r, f') \<Longrightarrow> changes_only S p f f' \<and> (\<exists>pre. local_files S f' p = Some pre \<and> prefix pre (taken S f p))"
    "local_rename S p q f = (r, f') \<Longrightarrow>
      local_files S f' = (if isl r then local_files S f else (local_files S f)(q := local_files S f p, p := None))"
    "local_remove S p f = (r, f') \<Longrightarrow> changes_only S p f f' \<and> local_files S f' p \<in> {None, local_files S f p}"
    "local_remove_dir_all S p f = (r, f') \<Longrightarrow> local_files S f' q \<in> {None, local_files S f q}"
    "local_files S (snd (local_ulid S f)) = local_files S f"
  using assms by (simp_all add: scratch_ok_def)

text \<open>
  What the code also relies on but the runtime does not promise: that bytes accepted before a
  file is dropped reach it; and that nobody puts directories into the cache directory.
\<close>

definition closes_complete :: "'f scratch \<Rightarrow> bool" where
  "closes_complete S \<longleftrightarrow> (\<forall>p f r f'. file_close S p f = (r, f') \<longrightarrow> local_files S f' p = Some (taken S f p))"

definition no_subdirectories :: "'f scratch \<Rightarrow> bool" where
  "no_subdirectories S \<longleftrightarrow> (\<forall>p f f'. local_exists S p f = (Inr True, f') \<longrightarrow> local_files S f p \<noteq> None)"

definition genuine :: "('f, 'w) prog_env \<Rightarrow> string \<Rightarrow> bytes \<Rightarrow> bool" where
  "genuine E name bs \<longleftrightarrow>
     (\<exists>body. name = hex_encode (prog_ids E) (sha256 (prog_ids E) body) \<and> prefix bs body
        \<and> (closes_complete (scratch E) \<longrightarrow> bs = body))"

definition objects_ok :: "('f, 'w) prog_env \<Rightarrow> 'f \<Rightarrow> bool" where
  "objects_ok E f \<longleftrightarrow>
     (\<forall>name bs. local_files (scratch E) f (directory E @ [name]) = Some bs \<longrightarrow> \<not> is_temporary_name name \<longrightarrow> genuine E name bs)"

abbreviation stored :: "('f, 'w) prog_env \<Rightarrow> ('f, 'w) helper \<Rightarrow> bool" where
  "stored E w \<equiv> objects_ok E (prog_disk w)"

abbreviation content :: "('f, 'w) prog_env \<Rightarrow> ('f, 'w) helper \<Rightarrow> string \<Rightarrow> bytes option" where
  "content E w name \<equiv> local_files (scratch E) (prog_disk w) (directory E @ [name])"

lemma objects_same: "local_files (scratch E) f' = local_files (scratch E) f \<Longrightarrow> objects_ok E f' \<longleftrightarrow> objects_ok E f"
  by (simp add: objects_ok_def)

lemma objects_temporary:
  "changes_only (scratch E) (directory E @ [t]) f f' \<Longrightarrow> is_temporary_name t \<Longrightarrow> objects_ok E f \<Longrightarrow> objects_ok E f'"
  unfolding objects_ok_def changes_only_def by (metis append1_eq_conv)

lemma objects_shrink:
  "(\<And>q. local_files (scratch E) f' q \<in> {None, local_files (scratch E) f q}) \<Longrightarrow> objects_ok E f \<Longrightarrow> objects_ok E f'"
  unfolding objects_ok_def by (metis insertE option.distinct(1) singletonD)

lemma on_scratch_E:
  assumes "on_scratch m w = (x, w')"
  obtains y f where "m (prog_disk w) = (y, f)" and "w' = w\<lparr>prog_disk := f\<rparr>" and "x = (case y of Inl e \<Rightarrow> Inl (ProgIo e) | Inr v \<Rightarrow> Inr v)"
  using assms by (cases "m (prog_disk w)") (auto simp: on_scratch_def map_err_def split: sum.splits)

text \<open>A predicate that only looks at the files.\<close>

definition files_only :: "('f, 'w) prog_env \<Rightarrow> (('f, 'w) helper \<Rightarrow> bool) \<Rightarrow> bool" where
  "files_only E P \<longleftrightarrow>
     (\<forall>w w'. local_files (scratch E) (prog_disk w') = local_files (scratch E) (prog_disk w) \<longrightarrow> P w \<longrightarrow> P w')"

lemma files_onlyD:
  "files_only E P \<Longrightarrow> local_files (scratch E) (prog_disk w') = local_files (scratch E) (prog_disk w) \<Longrightarrow> P w \<Longrightarrow> P w'"
  unfolding files_only_def by blast

lemma files_only_stored: "files_only E (stored E)" "files_only E (\<lambda>w. stored E w \<and> (b \<longrightarrow> content E w name \<noteq> None))"
  by (auto simp: files_only_def objects_ok_def)

lemma keeps_quiet:
  assumes q: "quiet (scratch E) m" and P: "files_only E P"
  shows "keeps P (on_scratch m)"
proof (rule keepsI)
  fix w x w'
  assume w: "P w" and run: "on_scratch m w = (x, w')"
  from run obtain y f where "m (prog_disk w) = (y, f)" "w' = w\<lparr>prog_disk := f\<rparr>" by (rule on_scratch_E)
  then show "P w'" using q by (intro files_onlyD [OF P _ w]) (metis quiet_def helper.select_convs(1) helper.surjective helper.update_convs(1) snd_conv)
qed

lemma hex_not_temporary: "hex_ok c \<Longrightarrow> \<not> is_temporary_name (hex_encode c bs)"
proof
  assume h: "hex_ok c" and t: "is_temporary_name (hex_encode c bs)"
  then obtain rest where "hex_encode c bs = CHR ''.'' # rest"
    by (cases "hex_encode c bs") (auto simp: is_temporary_name_def starts_with_def)
  moreover from h have "list_all (\<lambda>x. is_ascii_digit x \<or> is_ascii_lowercase x) (hex_encode c bs)" by (simp add: hex_ok_def)
  ultimately show False by (simp add: is_ascii_digit_def is_ascii_lowercase_def less_eq_char_def)
qed

lemma temporary_is_temporary: "is_temporary_name (temporary_name E u)"
  by (simp add: is_temporary_name_def temporary_name_def starts_with_def ends_with_def)

section \<open>Files\<close>

lemma keeps_looks:
  assumes "scratch_ok (scratch E)" and "files_only E P"
  shows "keeps P (on_scratch (local_metadata (scratch E) p))" "keeps P (on_scratch (local_exists (scratch E) p))"
    "keeps P (canonical_path E p)" "keeps P (on_scratch (open_for_write (scratch E) p))"
    "keeps P (on_scratch (set_modified (scratch E) p t))" "keeps P (on_scratch (local_read_dir (scratch E) p))"
    "keeps P (on_scratch (local_create_dir_all (scratch E) p))"
  unfolding canonical_path_def using assms by (auto simp: scratch_ok_def intro!: keeps_quiet)

lemma keeps_plain:
  assumes "files_only E P"
  shows "keeps P (clock_read E')" "keeps P (require b e)" "keeps P (record_used a out n)"
  using files_onlyD [OF assms] by (auto simp: keeps_def clock_read_def require_def record_used_def ok_def throw_def modify_def)

lemma keeps_files:
  assumes "scratch_ok (scratch E)" and "files_only E P"
  shows "keeps P (file_has_size E p n)" "keeps P (touch E p)"
  unfolding file_has_size_def touch_def
  by (auto intro!: keeps_outcome keeps_ok keeps_and_then keeps_plain [OF assms(2)] keeps_looks [OF assms] split: sum.split)

lemma has_size_E:
  assumes "scratch_ok (scratch E)" and "file_has_size E p n w = (x, w')"
  obtains b where "x = Inr b" and "local_files (scratch E) (prog_disk w') = local_files (scratch E) (prog_disk w)"
    and "b \<Longrightarrow> \<exists>bs. local_files (scratch E) (prog_disk w) p = Some bs \<and> unat n = length bs"
proof -
  obtain r f where m: "local_metadata (scratch E) p (prog_disk w) = (r, f)" by fastforce
  have same: "local_files (scratch E) f = local_files (scratch E) (prog_disk w)" using scratchD(1) [OF assms(1)] m by (metis quiet_def snd_conv)
  have st: "\<exists>bs. local_files (scratch E) (prog_disk w) p = Some bs \<and> unat (stat_len st) = length bs" if "r = Inr st" "stat_is_file st" for st
    using scratchD(3) [OF assms(1)] m that by blast
  show thesis using assms(2) m same st
    by (intro that [of "case r of Inr st \<Rightarrow> stat_is_file st \<and> stat_len st = n | Inl _ \<Rightarrow> False"])
      (auto simp: file_has_size_def on_scratch_def map_err_def outcome_def ok_def split: sum.splits)
qed

text \<open>What the write of a temporary file leaves.\<close>

definition spooled :: "('f, 'w) prog_env \<Rightarrow> string \<Rightarrow> bytes \<Rightarrow> ('f, 'w) helper \<Rightarrow> bool" where
  "spooled E t body w \<longleftrightarrow>
     (\<exists>pre. content E w t = Some pre \<and> prefix pre body \<and> (closes_complete (scratch E) \<longrightarrow> pre = body))"

lemma publish_effect:
  assumes ok: "scratch_ok (scratch E)" and w: "stored E w" and t: "is_temporary_name t" and n: "\<not> is_temporary_name name"
    and name: "name = hex_encode (prog_ids E) (sha256 (prog_ids E) body)" and sp: "spooled E t body w"
    and run: "publish_temporary E (directory E @ [t]) (directory E @ [name]) w = (x, w')"
  shows "stored E w' \<and> (x = Inr () \<longrightarrow> no_subdirectories (scratch E) \<longrightarrow> content E w' name \<noteq> None)"
proof -
  let ?S = "scratch E" and ?t = "directory E @ [t]" and ?p = "directory E @ [name]"
  obtain r f where m: "local_rename ?S ?t ?p (prog_disk w) = (r, f)" by fastforce
  have ren: "local_files ?S f = (if isl r then local_files ?S (prog_disk w)
      else (local_files ?S (prog_disk w))(?p := local_files ?S (prog_disk w) ?t, ?t := None))"
    by (rule scratchD(8) [OF ok m])
  show ?thesis
  proof (cases r)
    case (Inr u)
    have "x = Inr ()" "w' = w\<lparr>prog_disk := f\<rparr>"
      using run m Inr by (auto simp: publish_temporary_def outcome_def on_scratch_def map_err_def ok_def)
    moreover from sp obtain pre where pre: "content E w t = Some pre" "genuine E name pre"
      unfolding spooled_def genuine_def name by blast
    moreover have "objects_ok E f"
      unfolding objects_ok_def using ren Inr w pre n t by (auto simp: objects_ok_def)
    moreover have "local_files ?S f ?p = Some pre" using ren Inr pre n t by auto
    ultimately show ?thesis by simp
  next
    case (Inl e)
    let ?w1 = "w\<lparr>prog_disk := f\<rparr>"
    have w1: "stored E ?w1" using ren Inl w objects_same [of E f "prog_disk w"] by simp
    obtain r2 f2 where m2: "local_remove ?S ?t f = (r2, f2)" by fastforce
    have "changes_only ?S ?t f f2" using scratchD(9) [OF ok m2] by simp
    then have f2: "objects_ok E f2" using objects_temporary [of E t f f2] w1 t by simp
    obtain r3 f3 where m3: "local_exists ?S ?p f2 = (r3, f3)" by fastforce
    have same: "local_files ?S f3 = local_files ?S f2" using scratchD(2) [OF ok] m3 by (metis quiet_def snd_conv)
    have "w' = w\<lparr>prog_disk := f3\<rparr>" "x = Inr () \<Longrightarrow> r3 = Inr True"
      using run m Inl m2 m3
      by (auto simp: publish_temporary_def outcome_def and_then_def on_scratch_def map_err_def ok_def throw_def split: sum.splits if_splits)
    then show ?thesis using f2 same objects_same [OF same] m3 by (auto simp: no_subdirectories_def)
  qed
qed
section \<open>Actions with a result\<close>

text \<open>
  \<open>runs P m Q R\<close>: from a state with \<open>P\<close> the action returns a value with \<open>Q\<close> or fails and leaves a
  state with \<open>R\<close>.
\<close>

definition runs :: "('s \<Rightarrow> bool) \<Rightarrow> ('s, 'e, 'a) act \<Rightarrow> ('a \<Rightarrow> 's \<Rightarrow> bool) \<Rightarrow> ('s \<Rightarrow> bool) \<Rightarrow> bool" where
  "runs P m Q R \<longleftrightarrow> (\<forall>s x t. P s \<longrightarrow> m s = (x, t) \<longrightarrow> (case x of Inr v \<Rightarrow> Q v t | Inl _ \<Rightarrow> R t))"

lemma runsI:
  "(\<And>s v t. P s \<Longrightarrow> m s = (Inr v, t) \<Longrightarrow> Q v t) \<Longrightarrow> (\<And>s e t. P s \<Longrightarrow> m s = (Inl e, t) \<Longrightarrow> R t) \<Longrightarrow> runs P m Q R"
  by (auto simp: runs_def split: sum.split)

lemma runs_value:
  assumes "runs P m Q R" and "P s" and "m s = (Inr v, t)"
  shows "Q v t"
  using assms(1) [unfolded runs_def, rule_format, OF assms(2,3)] by simp

lemma runs_error:
  assumes "runs P m Q R" and "P s" and "m s = (Inl e, t)"
  shows "R t"
  using assms(1) [unfolded runs_def, rule_format, OF assms(2,3)] by simp

lemma runs_keeps:
  assumes "runs P m Q P" and "\<And>v s. Q v s \<Longrightarrow> P s"
  shows "keeps P m"
proof (rule keepsI)
  fix s r t
  assume "P s" and "m s = (r, t)"
  then show "P t" using assms(2) runs_value [OF assms(1) \<open>P s\<close>] runs_error [OF assms(1) \<open>P s\<close>] by (cases r) blast+
qed

lemma keeps_runs: "keeps P m \<Longrightarrow> runs P m (\<lambda>_. P) P"
  by (auto intro!: runsI dest: keepsD)

lemma runs_and_then:
  assumes "runs P m Q R" and "\<And>x. runs (Q x) (f x) Q' R"
  shows "runs P (and_then m f) Q' R"
proof (rule runsI)
  fix s v t
  assume "P s" and "and_then m f s = (Inr v, t)"
  from this(2) show "Q' v t"
    by (rule and_then_E) (use runs_value [OF assms(1) \<open>P s\<close>] runs_value [OF assms(2)] in auto)
next
  fix s e t
  assume "P s" and "and_then m f s = (Inl e, t)"
  from this(2) show "R t"
    by (rule and_then_E) (use runs_value [OF assms(1) \<open>P s\<close>] runs_error [OF assms(1) \<open>P s\<close>] runs_error [OF assms(2)] in auto)
qed

lemma runs_outcome:
  assumes "runs P m Q R" and "\<And>x. runs (Q x) (f (Inr x)) Q' R'" and "\<And>e. runs R (f (Inl e)) Q' R'"
  shows "runs P (outcome m f) Q' R'"
proof (rule runsI)
  fix s v t
  assume "P s" and "outcome m f s = (Inr v, t)"
  then obtain r u where "m s = (r, u)" "f r u = (Inr v, t)" by (auto elim: outcome_E)
  then show "Q' v t"
    using runs_value [OF assms(1) \<open>P s\<close>] runs_error [OF assms(1) \<open>P s\<close>] runs_value [OF assms(2)] runs_value [OF assms(3)]
    by (cases r) blast+
next
  fix s e t
  assume "P s" and "outcome m f s = (Inl e, t)"
  then obtain r u where "m s = (r, u)" "f r u = (Inl e, t)" by (auto elim: outcome_E)
  then show "R' t"
    using runs_value [OF assms(1) \<open>P s\<close>] runs_error [OF assms(1) \<open>P s\<close>] runs_error [OF assms(2)] runs_error [OF assms(3)]
    by (cases r) blast+
qed

lemma runs_ok: "(\<And>s. P s \<Longrightarrow> Q x s) \<Longrightarrow> runs P (ok x) Q R"
  by (auto simp: runs_def ok_def)

lemma runs_throw: "(\<And>s. P s \<Longrightarrow> R s) \<Longrightarrow> runs P (throw e) Q R"
  by (auto simp: runs_def throw_def)

lemma runs_require: "(\<And>s. P s \<Longrightarrow> b \<Longrightarrow> Q s) \<Longrightarrow> (\<And>s. P s \<Longrightarrow> R s) \<Longrightarrow> runs P (require b e) (\<lambda>_. Q) R"
  by (auto simp: require_def intro: runs_ok runs_throw)

lemma runs_consequence:
  assumes "runs P m Q R" and "\<And>s. P' s \<Longrightarrow> P s" and "\<And>x s. Q x s \<Longrightarrow> Q' x s" and "\<And>s. R s \<Longrightarrow> R' s"
  shows "runs P' m Q' R'"
  by (rule runsI) (use assms runs_value [OF assms(1)] runs_error [OF assms(1)] in blast)+

lemma runs_scratch:
  assumes "\<And>w y f. P w \<Longrightarrow> m (prog_disk w) = (y, f) \<Longrightarrow>
    (case y of Inr v \<Rightarrow> Q v (w\<lparr>prog_disk := f\<rparr>) | Inl _ \<Rightarrow> R (w\<lparr>prog_disk := f\<rparr>))"
  shows "runs P (on_scratch m) Q R"
  unfolding runs_def
proof (intro allI impI)
  fix w x w'
  assume "P w" and "on_scratch m w = (x, w')"
  then obtain y f where "m (prog_disk w) = (y, f)" "w' = w\<lparr>prog_disk := f\<rparr>" "x = (case y of Inl e \<Rightarrow> Inl (ProgIo e) | Inr v \<Rightarrow> Inr v)"
    by (auto elim: on_scratch_E)
  then show "case x of Inr v \<Rightarrow> Q v w' | Inl _ \<Rightarrow> R w'" using assms [OF \<open>P w\<close>] by (auto split: sum.splits)
qed

section \<open>Published files\<close>

abbreviation at_hand :: "('f, 'w) prog_env \<Rightarrow> string \<Rightarrow> ('f, 'w) helper \<Rightarrow> bool" where
  "at_hand E name w \<equiv> stored E w \<and> (no_subdirectories (scratch E) \<longrightarrow> content E w name \<noteq> None)"

lemma stored_temporary:
  "changes_only (scratch E) (directory E @ [t]) (prog_disk w) f \<Longrightarrow> is_temporary_name t \<Longrightarrow> stored E w \<Longrightarrow> stored E (w\<lparr>prog_disk := f\<rparr>)"
  using objects_temporary [of E t "prog_disk w" f] by simp

lemma runs_temporary_path:
  assumes ok: "scratch_ok (scratch E)" and next_act: "\<And>t. is_temporary_name t \<Longrightarrow> runs (stored E) (m (directory E @ [t])) Q (stored E)"
  shows "runs (stored E) (and_then (prog_temporary_path E (directory E)) m) Q (stored E)"
proof -
  have "runs (stored E) (prog_temporary_path E (directory E))
      (\<lambda>p w. stored E w \<and> (\<exists>t. is_temporary_name t \<and> p = directory E @ [t])) (stored E)"
  proof (rule runsI)
    fix w v w'
    assume w: "stored E w" and run: "prog_temporary_path E (directory E) w = (Inr v, w')"
    obtain u f where m: "local_ulid (scratch E) (prog_disk w) = (u, f)" by fastforce
    have "local_files (scratch E) f = local_files (scratch E) (prog_disk w)" using scratchD(11) [OF ok, of "prog_disk w"] m by simp
    then show "stored E w' \<and> (\<exists>t. is_temporary_name t \<and> v = directory E @ [t])"
      using run m w objects_same [of E f "prog_disk w"] temporary_is_temporary [of E u] by (auto simp: prog_temporary_path_def)
  qed (auto simp: prog_temporary_path_def split: prod.splits)
  then show ?thesis
    by (rule runs_and_then) (auto intro!: runsI dest: runs_value [OF next_act] runs_error [OF next_act])
qed

lemma runs_create:
  assumes "scratch_ok (scratch E)" and "is_temporary_name t"
  shows "runs (stored E) (on_scratch (file_create (scratch E) (directory E @ [t])))
    (\<lambda>_ w. stored E w \<and> taken (scratch E) (prog_disk w) (directory E @ [t]) = []) (stored E)"
  by (rule runs_scratch) (use scratchD(4) [OF assms(1)] stored_temporary [OF _ assms(2)] in \<open>fastforce split: sum.split\<close>)

lemma runs_append:
  assumes "scratch_ok (scratch E)" and "is_temporary_name t"
  shows "runs (\<lambda>w. stored E w \<and> taken (scratch E) (prog_disk w) (directory E @ [t]) = got)
    (on_scratch (file_append (scratch E) (directory E @ [t]) bs))
    (\<lambda>_ w. stored E w \<and> taken (scratch E) (prog_disk w) (directory E @ [t]) = got @ bs) (stored E)"
  by (rule runs_scratch) (use scratchD(5) [OF assms(1)] stored_temporary [OF _ assms(2)] in \<open>fastforce split: sum.split\<close>)

lemma runs_flush:
  assumes "scratch_ok (scratch E)" and "is_temporary_name t"
  shows "runs (\<lambda>w. stored E w \<and> taken (scratch E) (prog_disk w) (directory E @ [t]) = got)
    (on_scratch (file_flush_all (scratch E) (directory E @ [t]))) (\<lambda>_ w. stored E w \<and> content E w t = Some got) (stored E)"
  by (rule runs_scratch) (use scratchD(6) [OF assms(1)] stored_temporary [OF _ assms(2)] in \<open>fastforce split: sum.split\<close>)

lemma runs_close:
  assumes ok: "scratch_ok (scratch E)" and t: "is_temporary_name t"
  shows "runs (\<lambda>w. stored E w \<and> taken (scratch E) (prog_disk w) (directory E @ [t]) = got)
    (on_scratch (file_close (scratch E) (directory E @ [t]))) (\<lambda>_ w. stored E w \<and> spooled E t got w)
    (\<lambda>w. stored E w \<and> spooled E t got w)"
proof (rule runs_scratch)
  fix w y f
  assume w: "stored E w \<and> taken (scratch E) (prog_disk w) (directory E @ [t]) = got"
    and m: "file_close (scratch E) (directory E @ [t]) (prog_disk w) = (y, f)"
  from w have "stored E (w\<lparr>prog_disk := f\<rparr>)" using scratchD(7) [OF ok m] stored_temporary [of E t w f] t by blast
  moreover have "spooled E t got (w\<lparr>prog_disk := f\<rparr>)"
    using scratchD(7) [OF ok m] w m unfolding spooled_def closes_complete_def by auto
  ultimately show "case y of Inr v \<Rightarrow> stored E (w\<lparr>prog_disk := f\<rparr>) \<and> spooled E t got (w\<lparr>prog_disk := f\<rparr>)
      | Inl _ \<Rightarrow> stored E (w\<lparr>prog_disk := f\<rparr>) \<and> spooled E t got (w\<lparr>prog_disk := f\<rparr>)" by (cases y) auto
qed

lemma keeps_remove_temporary:
  assumes "scratch_ok (scratch E)"
  shows "keeps (stored E) (on_scratch (local_remove (scratch E) p))"
proof (rule keepsI)
  fix w x w'
  assume w: "stored E w" and "on_scratch (local_remove (scratch E) p) w = (x, w')"
  then obtain y f where m: "local_remove (scratch E) p (prog_disk w) = (y, f)" and w': "w' = w\<lparr>prog_disk := f\<rparr>" by (auto elim: on_scratch_E)
  have "local_files (scratch E) f q \<in> {None, local_files (scratch E) (prog_disk w) q}" for q
    using scratchD(9) [OF assms m] by (cases "q = p") (auto simp: changes_only_def)
  then show "stored E w'" using objects_shrink [of E f "prog_disk w"] w w' by simp
qed

lemma runs_publish:
  assumes "scratch_ok (scratch E)" and "is_temporary_name t" and "\<not> is_temporary_name name"
    and "name = hex_encode (prog_ids E) (sha256 (prog_ids E) body)"
  shows "runs (\<lambda>w. stored E w \<and> spooled E t body w) (publish_temporary E (directory E @ [t]) (directory E @ [name]))
    (\<lambda>_. at_hand E name) (stored E)"
proof (rule runsI)
  fix w v w'
  assume "stored E w \<and> spooled E t body w" and "publish_temporary E (directory E @ [t]) (directory E @ [name]) w = (Inr v, w')"
  then show "at_hand E name w'" using publish_effect [OF assms(1) _ assms(2-4), of w "Inr v" w'] by simp
next
  fix w e w'
  assume "stored E w \<and> spooled E t body w" and "publish_temporary E (directory E @ [t]) (directory E @ [name]) w = (Inl e, w')"
  then show "stored E w'" using publish_effect [OF assms(1) _ assms(2-4), of w "Inl e" w'] by simp
qed

lemma runs_case_sum:
  "(\<And>x. runs P (f x) Q R) \<Longrightarrow> (\<And>x. runs P (g x) Q R) \<Longrightarrow> runs P (case y of Inl x \<Rightarrow> f x | Inr x \<Rightarrow> g x) Q R"
  by (cases y) auto

lemma runs_write_atomic:
  assumes ok: "scratch_ok (scratch E)" and h: "hex_ok (prog_ids E)"
    and name: "name = hex_encode (prog_ids E) (sha256 (prog_ids E) body)"
  shows "runs (stored E) (write_atomic E (directory E @ [name]) body) (\<lambda>_. at_hand E name) (stored E)"
proof -
  have n: "\<not> is_temporary_name name" using hex_not_temporary [OF h] name by simp
  have gone: "runs (stored E) (outcome (on_scratch (local_remove (scratch E) p)) (\<lambda>_. throw e)) (\<lambda>_. at_hand E name) (stored E)" for p e
    by (rule runs_outcome [OF keeps_runs [OF keeps_remove_temporary [OF ok]]]) (auto intro: runs_throw)
  have "runs (stored E)
      (and_then (on_scratch (file_create (scratch E) (directory E @ [t]))) (\<lambda>_.
       outcome (on_scratch (file_append (scratch E) (directory E @ [t]) body)) (\<lambda>written.
       case written of
         Inl error \<Rightarrow> outcome (on_scratch (local_remove (scratch E) (directory E @ [t]))) (\<lambda>_. throw error)
       | Inr _ \<Rightarrow>
           outcome (on_scratch (file_close (scratch E) (directory E @ [t]))) (\<lambda>_.
           publish_temporary E (directory E @ [t]) (directory E @ [name]))))) (\<lambda>_. at_hand E name) (stored E)"
    if t: "is_temporary_name t" for t
    apply (rule runs_and_then [OF runs_create [OF ok t]])
    apply (rule runs_outcome [OF runs_append [OF ok t]])
     apply (simp only: sum.case append_Nil)
     apply (rule runs_outcome [OF runs_close [OF ok t] runs_publish [OF ok t n name] runs_publish [OF ok t n name]])
    apply (simp only: sum.case gone)
    done
  then show ?thesis by (simp add: write_atomic_def runs_temporary_path [OF ok])
qed

definition answers_path :: "('f, 'w) prog_env \<Rightarrow> string \<Rightarrow> string \<Rightarrow> ('f, 'w) helper \<Rightarrow> bool" where
  "answers_path E name path w \<longleftrightarrow> at_hand E name w \<and> (\<exists>f. fst (canonicalize (scratch E) (directory E @ [name]) f) = Inr path)"

lemma runs_canonical:
  assumes ok: "scratch_ok (scratch E)"
  shows "runs (at_hand E name) (canonical_path E (directory E @ [name])) (\<lambda>path. answers_path E name path) (stored E)"
proof (rule runsI)
  fix w v w'
  assume w: "at_hand E name w" and run: "canonical_path E (directory E @ [name]) w = (Inr v, w')"
  then obtain y f where "canonicalize (scratch E) (directory E @ [name]) (prog_disk w) = (y, f)" "Inr v = (case y of Inl e \<Rightarrow> Inl (ProgIo e) | Inr v \<Rightarrow> Inr v)"
    unfolding canonical_path_def by (auto elim: on_scratch_E)
  then have "fst (canonicalize (scratch E) (directory E @ [name]) (prog_disk w)) = Inr v" by (cases y) auto
  moreover have "at_hand E name w'" by (rule keepsD [OF keeps_looks(3) [OF ok files_only_stored(2)] w run])
  ultimately show "answers_path E name v w'" unfolding answers_path_def by blast
next
  fix w e w'
  assume w: "at_hand E name w" and run: "canonical_path E (directory E @ [name]) w = (Inl e, w')"
  show "stored E w'" using keepsD [OF keeps_looks(3) [OF ok files_only_stored(2)] w run] by simp
qed

lemma runs_present:
  assumes ok: "scratch_ok (scratch E)"
  shows "runs (stored E) (file_has_size E (directory E @ [name]) n) (\<lambda>b. if b then at_hand E name else stored E) (stored E)"
proof (rule runsI)
  fix w v w'
  assume w: "stored E w" and run: "file_has_size E (directory E @ [name]) n w = (Inr v, w')"
  from ok run obtain b where "Inr v = Inr b" "local_files (scratch E) (prog_disk w') = local_files (scratch E) (prog_disk w)"
    "b \<Longrightarrow> \<exists>bs. local_files (scratch E) (prog_disk w) (directory E @ [name]) = Some bs \<and> unat n = length bs"
    by (rule has_size_E) blast
  then show "(if v then at_hand E name else stored E) w'" using w objects_same [of E "prog_disk w'" "prog_disk w"] by auto
qed (auto simp: file_has_size_def outcome_def ok_def split: prod.splits)

lemma runs_write_disk_file:
  assumes ok: "scratch_ok (scratch E)" and h: "hex_ok (prog_ids E)"
    and name: "name = hex_encode (prog_ids E) (sha256 (prog_ids E) body)"
  shows "runs (stored E) (write_disk_file E name body) (\<lambda>path. answers_path E name path) (stored E)"
proof -
  have touched: "runs (at_hand E name) (touch E (directory E @ [name])) (\<lambda>_. at_hand E name) (stored E)"
    by (rule runs_consequence [OF keeps_runs [OF keeps_files(2) [OF ok files_only_stored(2)]]]) auto
  have "runs (if b then at_hand E name else stored E)
      (if b then and_then (touch E (directory E @ [name])) (\<lambda>_. canonical_path E (directory E @ [name]))
       else and_then (write_atomic E (directory E @ [name]) body) (\<lambda>_. canonical_path E (directory E @ [name])))
      (\<lambda>path. answers_path E name path) (stored E)" for b
    using runs_and_then [OF touched runs_canonical [OF ok]] runs_and_then [OF runs_write_atomic [OF assms] runs_canonical [OF ok]]
    by (cases b) (simp_all only: if_True if_False)
  then show ?thesis unfolding write_disk_file_def Let_def by (rule runs_and_then [OF runs_present [OF ok]])
qed

section \<open>Downloads\<close>

text \<open>The code names the digest of the empty body as a constant.\<close>

definition sha256_of_nothing :: "crates \<Rightarrow> bool" where
  "sha256_of_nothing c \<longleftrightarrow> hex_encode c (sha256 c []) = empty_output"

lemma runs_ex: "(\<And>x. C x \<Longrightarrow> runs (P x) m Q R) \<Longrightarrow> runs (\<lambda>s. \<exists>x. C x \<and> P x s) m Q R"
  by (rule runsI) (auto dest: runs_value runs_error)

lemma keeps_remote:
  assumes P: "files_only E P"
  shows "keeps P (prog_send E' meth key hs body)" "keeps P (send_put E' key body)" "keeps P (send_get E' key)"
    "keeps P (read_body response)"
proof -
  show send: "keeps P (prog_send E' meth key hs body)" for meth key hs body
    unfolding prog_send_def
    by (auto intro!: keeps_and_then keeps_map_err keeps_lift_result) (auto simp: keeps_def split: prod.splits intro: files_onlyD [OF P])
  show "keeps P (send_put E' key body)" unfolding send_put_def by (auto intro!: keeps_and_then send keeps_plain [OF P])
  show "keeps P (send_get E' key)" unfolding send_get_def by (auto intro!: keeps_and_then send keeps_plain [OF P] keeps_ok)
  show "keeps P (read_body response)" unfolding read_body_def by (auto intro!: keeps_map_err keeps_lift_result)
qed

lemma runs_spool_chunks:
  assumes "scratch_ok (scratch E)" and "is_temporary_name t"
  shows "runs (\<lambda>w. stored E w \<and> taken (scratch E) (prog_disk w) (directory E @ [t]) = got)
    (spool_chunks E (directory E @ [t]) chunks got n)
    (\<lambda>v w. stored E w \<and> taken (scratch E) (prog_disk w) (directory E @ [t]) = fst v) (stored E)"
proof (induction chunks arbitrary: got n)
  case Nil
  show ?case by (auto intro: runs_ok)
next
  case (Cons c rest)
  show ?case
  proof (cases c)
    case (Inl e)
    then show ?thesis by (auto intro: runs_throw)
  next
    case (Inr chunk)
    show ?thesis unfolding Inr spool_chunks.simps by (rule runs_and_then [OF runs_append [OF assms] Cons.IH])
  qed
qed

lemma runs_spool_verified:
  assumes ok: "scratch_ok (scratch E)" and t: "is_temporary_name t"
  shows "runs (stored E) (spool_verified E response (directory E @ [t]) entry)
    (\<lambda>_ w. \<exists>body. entry_output entry = hex_encode (prog_ids E) (sha256 (prog_ids E) body) \<and> (stored E w \<and> spooled E t body w)) (stored E)"
proof -
  have checked: "runs (\<lambda>w. stored E w \<and> content E w t = Some hashed)
      (and_then (require (n = entry_size entry) ProgPrefetchSize) (\<lambda>_.
       require (hex_encode (prog_ids E) (sha256 (prog_ids E) hashed) = entry_output entry) ProgPrefetchDigest))
      (\<lambda>_ w. \<exists>body. entry_output entry = hex_encode (prog_ids E) (sha256 (prog_ids E) body) \<and> (stored E w \<and> spooled E t body w))
      (stored E)" for hashed n
  proof (rule runs_and_then)
    show "runs (\<lambda>w. stored E w \<and> content E w t = Some hashed) (require (n = entry_size entry) ProgPrefetchSize)
        (\<lambda>_ w. stored E w \<and> content E w t = Some hashed) (stored E)" by (rule runs_require) simp_all
    show "runs (\<lambda>w. stored E w \<and> content E w t = Some hashed)
        (require (hex_encode (prog_ids E) (sha256 (prog_ids E) hashed) = entry_output entry) ProgPrefetchDigest)
        (\<lambda>_ w. \<exists>body. entry_output entry = hex_encode (prog_ids E) (sha256 (prog_ids E) body) \<and> (stored E w \<and> spooled E t body w))
        (stored E)"
      by (rule runs_require, rule exI [of _ hashed]) (simp_all add: spooled_def)
  qed
  show ?thesis unfolding spool_verified_def
    by (rule runs_and_then [OF runs_create [OF ok t]], rule runs_and_then [OF runs_spool_chunks [OF ok t]], clarsimp)
      (rule runs_and_then [OF runs_flush [OF ok t] checked])
qed

lemma keeps_download_object:
  assumes ok: "scratch_ok (scratch E)" and h: "hex_ok (prog_ids E)"
  shows "keeps (stored E) (download_object E action entry)"
proof -
  let ?name = "entry_output entry"
  have publish: "runs (\<lambda>w. \<exists>body. ?name = hex_encode (prog_ids E) (sha256 (prog_ids E) body) \<and> (stored E w \<and> spooled E t body w))
      (publish_temporary E (directory E @ [t]) (directory E @ [?name])) (\<lambda>_. stored E) (stored E)" if t: "is_temporary_name t" for t
    by (rule runs_ex, rule runs_consequence [OF runs_publish [OF ok t]]) (auto simp: hex_not_temporary [OF h])
  have gone: "runs (stored E) (outcome (on_scratch (local_remove (scratch E) p)) (\<lambda>_. throw e)) (\<lambda>_. stored E) (stored E)" for p e
    by (rule runs_outcome [OF keeps_runs [OF keeps_remove_temporary [OF ok]]]) (auto intro: runs_throw)
  have body: "runs (stored E)
      (outcome (spool_verified E response (directory E @ [t]) entry) (\<lambda>spooled.
       case spooled of
         Inl error \<Rightarrow> outcome (on_scratch (local_remove (scratch E) (directory E @ [t]))) (\<lambda>_. throw error)
       | Inr _ \<Rightarrow> and_then (publish_temporary E (directory E @ [t]) (directory E @ [?name])) (\<lambda>_. ok (Some (entry_size entry)))))
      (\<lambda>_. stored E) (stored E)" if t: "is_temporary_name t" for t response
    by (rule runs_outcome [OF runs_spool_verified [OF ok t]])
      (simp_all only: sum.case gone, auto intro!: runs_and_then [OF publish [OF t]] runs_ok)
  have tail: "keeps (stored E) (and_then (prog_temporary_path E (directory E)) (\<lambda>temporary.
      outcome (spool_verified E response temporary entry) (\<lambda>spooled.
      case spooled of
        Inl error \<Rightarrow> outcome (on_scratch (local_remove (scratch E) temporary)) (\<lambda>_. throw error)
      | Inr _ \<Rightarrow> and_then (publish_temporary E temporary (directory E @ [?name])) (\<lambda>_. ok (Some (entry_size entry))))))" for response
    by (rule runs_keeps, rule runs_temporary_path [OF ok], erule body)
  show ?thesis unfolding download_object_def Let_def
    by (intro tail keeps_remote [OF files_only_stored(1) [of E]] keeps_plain [OF files_only_stored(1) [of E]]
        keeps_files [OF ok files_only_stored(1)] keeps_and_then keeps_if keeps_ok)
qed

lemma keeps_write_disk_file:
  assumes "scratch_ok (scratch E)" and "hex_ok (prog_ids E)" and "name = hex_encode (prog_ids E) (sha256 (prog_ids E) body)"
  shows "keeps (stored E) (write_disk_file E name body)"
  by (rule runs_keeps [OF runs_write_disk_file [OF assms]]) (simp add: answers_path_def)

lemma keeps_plan_downloads:
  assumes ok: "scratch_ok (scratch E)" and h: "hex_ok (prog_ids E)" and e: "sha256_of_nothing (prog_ids E)"
  shows "keeps (stored E) (plan_downloads E seen_outputs es)"
proof (induction es arbitrary: seen_outputs)
  case Nil
  show ?case by (simp add: keeps_ok)
next
  case (Cons d es)
  have "keeps (stored E) (outcome (write_disk_file E empty_output []) (\<lambda>_. ok ()))"
    using keeps_write_disk_file [OF ok h, of empty_output "[]"] e by (auto simp: sha256_of_nothing_def intro!: keeps_outcome keeps_ok)
  then show ?case
    by (cases d) (auto intro!: keeps_and_then keeps_ok Cons.IH keeps_files [OF ok files_only_stored(1)])
qed

lemma keeps_stored_manifest: "files_only E P \<Longrightarrow> keeps P (stored_manifest E')"
  unfolding stored_manifest_def
  by (intro keeps_and_then keeps_case_option keeps_ok) (auto intro: keeps_remote)

lemma fold_begin_disk: "prog_disk (fold (\<lambda>(_, entry). begin_download (entry_output entry)) ds w) = prog_disk w"
  by (induction ds arbitrary: w) (auto simp: begin_download_def)

lemma keeps_start_prefetch:
  assumes "scratch_ok (scratch E)" and "hex_ok (prog_ids E)" and "sha256_of_nothing (prog_ids E)"
  shows "keeps (stored E) (start_prefetch E)"
proof -
  have "keeps (stored E) (install_manifest m)" for m by (auto simp: keeps_def install_manifest_def split: option.split)
  then show ?thesis unfolding start_prefetch_def
    by (intro keeps_and_then keeps_stored_manifest [OF files_only_stored(1)] keeps_plan_downloads [OF assms] keeps_if keeps_ok keeps_modify)
      (simp_all add: fold_begin_disk)
qed

lemma keeps_pool_download:
  assumes "scratch_ok (scratch E)" and "hex_ok (prog_ids E)"
  shows "keeps (stored E) (pool_download E d)"
  unfolding pool_download_def
  by (intro keeps_outcome keeps_download_object [OF assms] keeps_modify) (simp add: end_download_def)

definition trusted :: "('f, 'w) prog_env \<Rightarrow> bool" where
  "trusted E \<longleftrightarrow> scratch_ok (scratch E) \<and> hex_ok (prog_ids E) \<and> sha256_of_nothing (prog_ids E)"

lemma pool_step_stored:
  assumes "trusted E" and "pool_step E w w'" and "stored E w"
  shows "stored E w'"
proof -
  have "keeps (stored E) (start_prefetch E)" "keeps (stored E) (pool_download E d)" for d
    using keeps_start_prefetch [of E] keeps_pool_download [of E d] assms(1) by (simp_all add: trusted_def)
  then show ?thesis using assms(2,3) by (auto simp: take_permit_def elim!: pool_stepE dest: keepsD)
qed

lemma pool_steps_stored: "(pool_step E)\<^sup>*\<^sup>* w w' \<Longrightarrow> trusted E \<Longrightarrow> stored E w \<Longrightarrow> stored E w'"
  by (induction rule: rtranclp_induct) (auto intro: pool_step_stored)

section \<open>Requests\<close>

text \<open>
  What a get that finds its object promises: the path it names is that of a file of the
  directory, named by the identifier it answers, and that is the digest of a body whose bytes
  the file holds.
\<close>

definition genuine_answer :: "('f, 'w) prog_env \<Rightarrow> ProgResponse \<Rightarrow> ('f, 'w) helper \<Rightarrow> bool" where
  "genuine_answer E response w \<longleftrightarrow>
     (\<exists>f bs body.
        fst (canonicalize (scratch E) (directory E @ [hex_encode (prog_ids E) (rs_output_id response)]) f) = Inr (rs_disk_path response)
      \<and> content E w (hex_encode (prog_ids E) (rs_output_id response)) = Some bs
      \<and> rs_output_id response = sha256 (prog_ids E) body \<and> prefix bs body \<and> (closes_complete (scratch E) \<longrightarrow> bs = body))"

lemma hex_bytes_value:
  assumes "hex_ok (prog_ids E)" and "hex_bytes E (hex_encode (prog_ids E) bs) w = (Inr out, w')"
  shows "out = bs \<and> w' = w"
proof -
  have "hex_decode (prog_ids E) (hex_encode (prog_ids E) bs) (length (hex_encode (prog_ids E) bs) div 2) = Some bs"
    using assms(1) by (simp add: hex_ok_def)
  then show ?thesis using assms(2) by (simp add: hex_bytes_def ok_def)
qed

lemma hex_bytes_plain:
  assumes "hex_ok (prog_ids E)" and "hex_bytes E name w = (Inr out, w')"
  shows "\<not> is_temporary_name name \<and> w' = w"
proof -
  from assms(2) have w: "w' = w" and d: "hex_decode (prog_ids E) name (length name div 2) = Some out"
    by (auto simp: hex_bytes_def ok_def throw_def split: option.splits)
  from d assms(1) have e: "hex_encode (prog_ids E) out = map to_ascii_lowercase name" unfolding hex_ok_def by blast
  have "\<not> is_temporary_name name"
  proof
    assume "is_temporary_name name"
    then have "is_temporary_name (map to_ascii_lowercase name)"
      by (auto simp: is_temporary_name_def starts_with_def ends_with_def drop_map to_ascii_lowercase_def is_ascii_uppercase_def
          less_eq_char_def take_map)
    then show False using hex_not_temporary [OF assms(1), of out] e by simp
  qed
  with w show ?thesis by simp
qed

lemma genuine_answerI:
  assumes h: "hex_ok (prog_ids E)" and n: "no_subdirectories (scratch E)" and a: "answers_path E name (rs_disk_path response) w"
    and out: "hex_bytes E name w0 = (Inr (rs_output_id response), w1)"
  shows "genuine_answer E response w"
proof -
  from a n obtain bs f where bs: "content E w name = Some bs" and st: "stored E w"
    and f: "fst (canonicalize (scratch E) (directory E @ [name]) f) = Inr (rs_disk_path response)"
    by (auto simp: answers_path_def)
  from hex_bytes_plain [OF h out] bs st have "genuine E name bs" by (simp add: objects_ok_def)
  then obtain body where body: "name = hex_encode (prog_ids E) (sha256 (prog_ids E) body)" "prefix bs body"
    "closes_complete (scratch E) \<longrightarrow> bs = body"
    by (auto simp: genuine_def)
  from out have "rs_output_id response = sha256 (prog_ids E) body" using hex_bytes_value [OF h] body(1) by simp
  then show ?thesis using bs f body unfolding genuine_answer_def by metis
qed

definition answered :: "('f, 'w) prog_env \<Rightarrow> ProgResponse \<Rightarrow> ('f, 'w) helper \<Rightarrow> bool" where
  "answered E response w \<longleftrightarrow> stored E w \<and> (no_subdirectories (scratch E) \<longrightarrow> rs_miss response \<or> genuine_answer E response w)"

lemma files_only_answers: "files_only E (answers_path E name path)"
  unfolding files_only_def answers_path_def objects_ok_def by metis

lemma runs_hex: "runs P (hex_bytes E name) (\<lambda>out w. P w \<and> (\<exists>w0 w1. hex_bytes E name w0 = (Inr out, w1 :: ('f, 'w) helper))) P"
  by (rule runsI) (auto simp: hex_bytes_def ok_def throw_def split: option.splits)

lemma runs_case_option:
  "runs P n Q R \<Longrightarrow> (\<And>x. runs P (f x) Q R) \<Longrightarrow> runs P (case y of None \<Rightarrow> n | Some x \<Rightarrow> f x) Q R"
  by (cases y) auto

lemma runs_if: "runs P m Q R \<Longrightarrow> runs P n Q R \<Longrightarrow> runs P (if b then m else n) Q R"
  by simp

lemma answeredI:
  assumes "hex_ok (prog_ids E)" and "answers_path E name path w" and "hex_bytes E name w0 = (Inr out, w1)"
  shows "answered E (ProgResponse_default\<lparr>rs_id := i, rs_output_id := out, rs_size := n, rs_disk_path := path\<rparr>) w"
  using genuine_answerI [OF assms(1), of name "ProgResponse_default\<lparr>rs_id := i, rs_output_id := out, rs_size := n, rs_disk_path := path\<rparr>"]
    assms(2,3) by (auto simp: answered_def answers_path_def)

lemma trustedD:
  assumes "trusted E"
  shows "scratch_ok (scratch E)" "hex_ok (prog_ids E)" "sha256_of_nothing (prog_ids E)"
  using assms by (simp_all add: trusted_def)

lemma runs_remote_answer:
  assumes E: "trusted E"
  shows "runs (stored E) (remote_answer E action request) (answered E) (stored E)"
proof -
  note ok = trustedD(1) [OF E] and h = trustedD(2) [OF E]
  have recorded: "runs (answers_path E name path) (record_used action name n) (\<lambda>_. answers_path E name path) (stored E)" for name path n
    by (rule runs_consequence [OF keeps_runs [OF keeps_plain(3) [OF files_only_answers]]]) (auto simp: answers_path_def)
  have hexed: "runs (answers_path E name path)
      (and_then (hex_bytes E name) (\<lambda>out.
       ok (ProgResponse_default\<lparr>rs_id := i, rs_output_id := out, rs_size := n, rs_disk_path := path\<rparr>))) (answered E) (stored E)" for name path i n
  proof (rule runs_and_then)
    show "runs (answers_path E name path) (hex_bytes E name)
        (\<lambda>out w. answers_path E name path w \<and> (\<exists>w0 w1. hex_bytes E name w0 = (Inr out, w1 :: ('a, 'b) helper))) (stored E)"
      by (rule runs_consequence [OF runs_hex [of "answers_path E name path"]]) (simp_all add: answers_path_def)
  qed (auto intro!: runs_ok answeredI [OF h])
  have miss: "runs (stored E) (ok (missed request)) (answered E) (stored E)"
    by (rule runs_ok) (simp add: answered_def missed_def)
  show ?thesis unfolding remote_answer_def Let_def
    by (intro runs_and_then [OF keeps_runs [OF keeps_remote(3) [OF files_only_stored(1)]]] runs_case_option miss
        runs_and_then [OF keeps_runs [OF keeps_remote(4) [OF files_only_stored(1) [of E]]]] runs_if
        runs_and_then [OF runs_write_disk_file [OF ok h refl]] runs_and_then [OF recorded] hexed)
qed

lemma runs_second_look:
  assumes ok: "scratch_ok (scratch E)" and later: "\<forall>w. stored E w \<longrightarrow> stored E (meanwhile w)"
  shows "runs (if b then at_hand E name else stored E)
    (\<lambda>w. if \<not> b \<and> download_in_progress name w then file_has_size E (directory E @ [name]) n (meanwhile w) else (Inr b, w))
    (\<lambda>b. if b then at_hand E name else stored E) (stored E)"
proof (cases b)
  case False
  show ?thesis
  proof (rule runsI)
    fix w v w'
    assume "(if b then at_hand E name else stored E) w"
      and "(if \<not> b \<and> download_in_progress name w then file_has_size E (directory E @ [name]) n (meanwhile w) else (Inr b, w)) = (Inr v, w')"
    then show "(if v then at_hand E name else stored E) w'"
      using runs_value [OF runs_present [OF ok] later [rule_format], of w name n v w'] False by (auto split: if_splits)
  next
    fix w e w'
    assume "(if b then at_hand E name else stored E) w"
      and "(if \<not> b \<and> download_in_progress name w then file_has_size E (directory E @ [name]) n (meanwhile w) else (Inr b, w)) = (Inl e, w')"
    then show "stored E w'"
      using runs_error [OF runs_present [OF ok] later [rule_format], of w name n e w'] False by (auto split: if_splits)
  qed
qed (auto simp: runs_def)

lemma runs_local_answer:
  assumes E: "trusted E" and later: "\<forall>w. stored E w \<longrightarrow> stored E (meanwhile w)"
  shows "runs (stored E) (local_answer E meanwhile action request entry)
    (\<lambda>r w. case r of Some response \<Rightarrow> answered E response w | None \<Rightarrow> stored E w) (stored E)"
proof -
  let ?name = "entry_output entry" and ?path = "directory E @ [entry_output entry]"
  let ?tail = "and_then (touch E ?path) (\<lambda>_. and_then (record_used action ?name (entry_size entry)) (\<lambda>_.
      and_then (hex_bytes E ?name) (\<lambda>out. and_then (canonical_path E ?path) (\<lambda>disk_path.
      ok (Some (ProgResponse_default\<lparr>rs_id := pr_id request, rs_output_id := out, rs_size := entry_size entry, rs_disk_path := disk_path\<rparr>))))))"
  let ?Q = "\<lambda>r w. case r of Some response \<Rightarrow> answered E response w | None \<Rightarrow> stored E w"
  note ok = trustedD(1) [OF E] and h = trustedD(2) [OF E]
  have step: "runs (at_hand E ?name) m (\<lambda>_. at_hand E ?name) (stored E)" if "keeps (at_hand E ?name) m" for m :: "('a, 'b, unit) prog_act"
    by (rule runs_consequence [OF keeps_runs [OF that]]) simp_all
  have hexed: "runs (at_hand E ?name) (hex_bytes E ?name)
      (\<lambda>out w. (\<exists>w0 w1. hex_bytes E ?name w0 = (Inr out, w1 :: ('a, 'b) helper)) \<and> at_hand E ?name w) (stored E)"
    by (rule runs_consequence [OF runs_hex [of "at_hand E ?name"]]) blast+
  have named: "runs (\<lambda>w. (\<exists>w0 w1. hex_bytes E ?name w0 = (Inr out, w1 :: ('a, 'b) helper)) \<and> at_hand E ?name w)
      (and_then (canonical_path E ?path) (\<lambda>disk_path.
      ok (Some (ProgResponse_default\<lparr>rs_id := pr_id request, rs_output_id := out, rs_size := entry_size entry, rs_disk_path := disk_path\<rparr>))))
      ?Q (stored E)" for out
  proof (rule runsI)
    fix w v w'
    assume "(\<exists>w0 w1. hex_bytes E ?name w0 = (Inr out, w1 :: ('a, 'b) helper)) \<and> at_hand E ?name w"
      and "and_then (canonical_path E ?path) (\<lambda>disk_path. ok (Some (ProgResponse_default\<lparr>rs_id := pr_id request, rs_output_id := out,
        rs_size := entry_size entry, rs_disk_path := disk_path\<rparr>))) w = (Inr v, w')"
    then show "?Q v w'" using runs_value [OF runs_canonical [OF ok]]
      by (fastforce elim!: and_then_E simp: ok_def intro: answeredI [OF h])
  next
    fix w e w'
    assume "(\<exists>w0 w1. hex_bytes E ?name w0 = (Inr out, w1 :: ('a, 'b) helper)) \<and> at_hand E ?name w"
      and "and_then (canonical_path E ?path) (\<lambda>disk_path. ok (Some (ProgResponse_default\<lparr>rs_id := pr_id request, rs_output_id := out,
        rs_size := entry_size entry, rs_disk_path := disk_path\<rparr>))) w = (Inl e, w')"
    then show "stored E w'" using runs_error [OF runs_canonical [OF ok], of w ?name e w'] by (auto elim!: and_then_E simp: ok_def)
  qed
  have tail: "runs (at_hand E ?name) ?tail ?Q (stored E)"
    by (intro runs_and_then [OF step [OF keeps_files(2) [OF ok files_only_stored(2)]]]
        runs_and_then [OF step [OF keeps_plain(3) [OF files_only_stored(2)]]] runs_and_then [OF hexed named])
  have "runs (if b then at_hand E ?name else stored E) (if \<not> b then ok None else ?tail) ?Q (stored E)" for b
    using tail runs_ok [of "stored E" ?Q None "stored E"] by (cases b) simp_all
  then show ?thesis unfolding local_answer_def Let_def
    by (intro runs_and_then [OF runs_present [OF ok]] runs_and_then [OF runs_second_look [OF ok later]])
qed

lemma runs_prog_get:
  assumes E: "trusted E" and later: "\<forall>w. stored E w \<longrightarrow> stored E (meanwhile w)"
  shows "runs (stored E) (prog_get E meanwhile request) (answered E) (stored E)"
proof -
  let ?action = "hex_encode (prog_ids E) (pr_action_id request)"
  let ?Q = "\<lambda>r w. case r of Some response \<Rightarrow> answered E response w | None \<Rightarrow> stored E w"
  have first: "runs (stored E) (\<lambda>w. case manifest_entry ?action w of None \<Rightarrow> (Inr None, w)
      | Some entry \<Rightarrow> local_answer E meanwhile ?action request entry w) ?Q (stored E)"
    using runs_local_answer [OF assms] by (auto simp: runs_def split: option.splits)
  have "runs (?Q r) (case r of Some response \<Rightarrow> ok response | None \<Rightarrow> remote_answer E ?action request) (answered E) (stored E)" for r
    using runs_remote_answer [OF E] by (cases r) (auto intro: runs_ok)
  then show ?thesis unfolding prog_get_def Let_def by (rule runs_and_then [OF first])
qed

text \<open>A put that is answered has put the body its request describes into the directory.\<close>

definition put_done :: "('f, 'w) prog_env \<Rightarrow> ProgRequest \<Rightarrow> ProgResponse \<Rightarrow> ('f, 'w) helper \<Rightarrow> bool" where
  "put_done E request response w \<longleftrightarrow>
     answers_path E (hex_encode (prog_ids E) (pr_output_id request)) (rs_disk_path response) w
   \<and> (\<exists>body. sha256 (prog_ids E) body = pr_output_id request \<and> of_nat (length body) = pr_body_size request)"

lemma runs_prog_put:
  assumes E: "trusted E"
  shows "runs (stored E) (prog_put E request encoded_body) (put_done E request) (stored E)"
proof -
  let ?name = "hex_encode (prog_ids E) (pr_output_id request)"
  note ok = trustedD(1) [OF E] and h = trustedD(2) [OF E]
  have kept: "runs (answers_path E ?name path) m (\<lambda>_. answers_path E ?name path) (stored E)"
    if "keeps (answers_path E ?name path) m" for path and m :: "('a, 'b, unit) prog_act"
    by (rule runs_consequence [OF keeps_runs [OF that]]) (simp_all add: answers_path_def)
  have tail: "runs (stored E)
      (and_then (require (of_nat (length body) = pr_body_size request) ProgBodySize) (\<lambda>_.
       and_then (require (sha256 (prog_ids E) body = pr_output_id request) ProgDigest) (\<lambda>_.
       and_then (write_disk_file E ?name body) (\<lambda>disk_path.
       and_then (send_put E (put_key E (pr_action_id request)) body) (\<lambda>_.
       and_then (record_used (hex_encode (prog_ids E) (pr_action_id request)) ?name (pr_body_size request)) (\<lambda>_.
       ok (ProgResponse_default\<lparr>rs_id := pr_id request, rs_disk_path := disk_path\<rparr>)))))))
      (put_done E request) (stored E)" for body
  proof (cases "of_nat (length body) = pr_body_size request \<and> sha256 (prog_ids E) body = pr_output_id request")
    case True
    then have name: "?name = hex_encode (prog_ids E) (sha256 (prog_ids E) body)" by simp
    have fin: "runs (answers_path E ?name path) (ok (ProgResponse_default\<lparr>rs_id := pr_id request, rs_disk_path := path\<rparr>)) (put_done E request) (stored E)" for path
      by (rule runs_ok) (use True in \<open>auto simp: put_done_def\<close>)
    from True show ?thesis
      by (simp only: require_def simp_thms if_True and_then_ok)
        (intro runs_and_then [OF runs_write_disk_file [OF ok h name]] runs_and_then [OF kept [OF keeps_remote(2) [OF files_only_answers]]]
          runs_and_then [OF kept [OF keeps_plain(3) [OF files_only_answers]]] fin)
  qed (auto simp: require_def intro: runs_throw)
  show ?thesis unfolding prog_put_def
    by (intro runs_and_then [OF keeps_runs] tail keeps_if keeps_map_err keeps_ok keeps_lift_result)
qed

lemma keeps_execute_request:
  assumes E: "trusted E" and later: "\<forall>w. stored E w \<longrightarrow> stored E (meanwhile w)"
  shows "keeps (stored E) (execute_request E meanwhile request encoded_body)"
  unfolding execute_request_def
  by (intro keeps_outcome keeps_if keeps_ok keeps_throw runs_keeps [OF runs_prog_put [OF E]] runs_keeps [OF runs_prog_get [OF assms]])
    (auto simp: put_done_def answers_path_def answered_def)

section \<open>Sessions\<close>

lemma keeps_removals:
  assumes ok: "scratch_ok (scratch E)"
  shows "keeps (stored E) (on_scratch (local_remove_dir_all (scratch E) p))" "keeps (stored E) (prune_stale_files E now age)"
proof -
  show "keeps (stored E) (on_scratch (local_remove_dir_all (scratch E) p))"
  proof (rule keepsI)
    fix w x w'
    assume w: "stored E w" and "on_scratch (local_remove_dir_all (scratch E) p) w = (x, w')"
    then obtain y f where m: "local_remove_dir_all (scratch E) p (prog_disk w) = (y, f)" and w': "w' = w\<lparr>prog_disk := f\<rparr>"
      by (auto elim: on_scratch_E)
    show "stored E w'" using objects_shrink [of E f "prog_disk w"] scratchD(10) [OF ok m] w w' by simp
  qed
  have one: "keeps (stored E) (prune_entry E now age name)" for name
    unfolding prune_entry_def
    by (intro keeps_case_option keeps_ok keeps_outcome keeps_if keeps_looks(1) [OF ok files_only_stored(1)] keeps_remove_temporary [OF ok])
  have "keeps (stored E) (prune_entries E now age names)" for names
  proof (induction names)
    case (Cons x names)
    then show ?case by (cases x) (auto intro!: keeps_and_then keeps_ok one)
  qed (simp add: keeps_ok)
  then show "keeps (stored E) (prune_stale_files E now age)"
    unfolding prune_stale_files_def by (intro keeps_outcome keeps_case_sum keeps_ok keeps_looks(6) [OF ok files_only_stored(1)])
qed

lemma keeps_finish_session: "keeps (stored E) (finish_session E' expires)"
proof -
  have update: "keeps (stored E) (outcome (manifest_update E' expires taken_map) (\<lambda>_. ok ()) :: ('a, 'b, unit) prog_act)" for taken_map
    unfolding manifest_update_def unix_now_def
    by (intro keeps_outcome keeps_and_then keeps_stored_manifest [OF files_only_stored(1) [of E]] keeps_if keeps_ok
        keeps_plain [OF files_only_stored(1) [of E]] keeps_map_err keeps_lift_result keeps_remote [OF files_only_stored(1) [of E]])
  have "keeps (stored E) (finalize E' expires)"
  proof (rule keepsI)
    fix w r w'
    assume w: "stored E w" and run: "finalize E' expires w = (r, w')"
    show "stored E w'"
    proof (cases "used w = []")
      case False
      then have "outcome (manifest_update E' expires (used w)) (\<lambda>_. ok ()) (w\<lparr>used := []\<rparr>) = (r, w')"
        using run by (simp add: finalize_def)
      then show ?thesis using keepsD [OF update, of "w\<lparr>used := []\<rparr>"] w by simp
    qed (use run w in \<open>auto simp: finalize_def\<close>)
  qed
  then show ?thesis unfolding finish_session_def abort_prefetch_def
    by (intro keeps_and_then keeps_modify) auto
qed

lemma keeps_write_response: "keeps (stored E) (write_response E' response)"
  unfolding write_response_def
  by (intro keeps_and_then keeps_map_err keeps_lift_result) (auto simp: keeps_def split: option.split)

lemma keeps_end_session:
  assumes "scratch_ok (scratch E)"
  shows "keeps (stored E) (end_session E args expires)"
  unfolding end_session_def
  by (intro keeps_and_then keeps_finish_session keeps_if keeps_outcome keeps_ok keeps_removals [OF assms]
      keeps_plain(1) [OF files_only_stored(1) [of E]])

lemma after_write_stored:
  "after_write (write_response E' response w) s = s' \<Longrightarrow> stored E w \<Longrightarrow> stored E (world s')"
  using keepsD [OF keeps_write_response, of E w]
  by (cases "write_response E' response w") (auto simp: after_write_def split: sum.splits)

lemma prog_step_stored:
  assumes step: "prog_step E args s s'" and E: "trusted E" and s: "stored E (world s)"
  shows "stored E (world s')"
  using step
proof (cases rule: prog_step.cases)
  case (pool_runs w')
  then show ?thesis using pool_step_stored [OF E _ s] by simp
next
  case (message m rd)
  then show ?thesis using s by (auto simp: on_message_def split: option.splits ProtocolMessage.splits intro: after_write_stored)
next
  case (completes p meanwhile)
  have later: "\<forall>w. stored E w \<longrightarrow> stored E (meanwhile w)" using pool_steps_stored [OF _ E] completes(4) by blast
  obtain r w where run: "execute_request E meanwhile (fst p) (snd p) (world s) = (r, w)" by fastforce
  then have "stored E w" using keepsD [OF keeps_execute_request [OF E later] s] by blast
  then show ?thesis using completes(1) run after_write_stored [OF refl]
    by (cases r) (auto simp: complete_request_def)
next
  case (closes ident expires)
  obtain r w where run: "finish_session E expires (world s) = (r, w)" by fastforce
  then have "stored E w" using keepsD [OF keeps_finish_session s] by blast
  then show ?thesis using closes(1) run after_write_stored [OF refl] by (auto simp: answer_close_def)
next
  case (ends expires r w)
  then show ?thesis using keepsD [OF keeps_end_session [OF trustedD(1) [OF E]] s] by simp
qed (use s in auto)

lemma started_files:
  assumes "started E h cwd temp_dir client args f E' s" and ok: "scratch_ok (scratch E)"
  shows "scratch E' = scratch E" and "prog_ids E' = prog_ids E"
    and "local_files (scratch E) (prog_disk (world s)) = local_files (scratch E) f"
proof -
  from assms(1) obtain w w' where run: "start_session E h cwd temp_dir client args w = (Inr E', w')"
    and w: "prog_disk w = f" and s: "world s = w'"
    by (cases rule: started.cases) auto
  let ?P = "\<lambda>w :: ('a, 'b) helper. local_files (scratch E) (prog_disk w) = local_files (scratch E) f"
  have P: "files_only E ?P" by (auto simp: files_only_def)
  have dir: "keeps ?P (cache_directory E temp_dir args)"
    unfolding cache_directory_def Let_def
    by (intro keeps_and_then keeps_if keeps_ok keeps_looks(7) [OF ok P])
      (use scratchD(11) [OF ok] in \<open>auto simp: keeps_def split: prod.split\<close>, metis snd_conv)
  have out: "keeps ?P (write_response E2 response)" for E2 :: "('a, 'b) prog_env" and response
    unfolding write_response_def
    by (intro keeps_and_then keeps_map_err keeps_lift_result) (auto simp: keeps_def split: option.split)
  have "keeps ?P (start_session E h cwd temp_dir client args)"
    unfolding start_session_def Let_def
    by (intro keeps_and_then keeps_map_err keeps_lift_result keeps_plain(2) [OF P] dir keeps_modify out keeps_ok) simp
  from keepsD [OF this _ run] w s show "?P (world s)" by simp
  show "scratch E' = scratch E" "prog_ids E' = prog_ids E"
    using run by (auto simp: start_session_def Let_def ok_def elim!: and_then_E)
qed

text \<open>
  C20. Every reachable state of a session, however reads, requests, downloads, completions and
  the shutdown interleave and whatever the server answers, keeps the promise of its directory:
  a file under the name of a digest holds bytes of a body with that digest.
\<close>

theorem session_objects_genuine:
  assumes "started E h cwd temp_dir client args f E' s" and "trusted E" and "objects_ok E' f"
    and "(prog_step E' args)\<^sup>*\<^sup>* s s'"
  shows "objects_ok E' (prog_disk (world s'))"
proof -
  note same = started_files [OF assms(1) trustedD(1) [OF assms(2)]]
  have E': "trusted E'" using assms(2) same by (simp add: trusted_def)
  have s: "stored E' (world s)" using objects_same [of E' "prog_disk (world s)" f] same assms(3) by simp
  from assms(4) show ?thesis by (induction rule: rtranclp_induct) (auto intro: s prog_step_stored E')
qed

text \<open>
  C19. In a directory that holds genuine objects and in which no path leads through a
  subdirectory, a get that does not miss answers with the path of a file of the directory,
  under the name of the identifier it answers; that identifier is the digest of a body, and
  the file holds a prefix of that body, all of it if no accepted byte is lost when a file is
  dropped (\<open>closes_complete\<close>).
\<close>

theorem get_answers_are_genuine:
  assumes "trusted E" and "no_subdirectories (scratch E)" and "objects_ok E (prog_disk w)"
    and "\<And>w. (pool_step E)\<^sup>*\<^sup>* w (meanwhile w)"
    and "prog_get E meanwhile request w = (Inr response, w')" and "\<not> rs_miss response"
  shows "genuine_answer E response w'"
proof -
  have "\<forall>w. stored E w \<longrightarrow> stored E (meanwhile w)" using pool_steps_stored [OF assms(4,1)] by blast
  from runs_value [OF runs_prog_get [OF assms(1) this] assms(3,5)] show ?thesis using assms(2,6) by (simp add: answered_def)
qed

section \<open>A concrete session\<close>

lemma demo_scratch_ok: "scratch_ok (demo_scratch loses)"
  unfolding scratch_ok_def
  by (intro conjI)
    (auto simp: demo_scratch_def quiet_def changes_only_def take_bit_nat_eq_self unat_of_nat prefix_def split: option.splits if_splits)

lemma demo_directories: "no_subdirectories (demo_scratch loses)"
  by (auto simp: no_subdirectories_def demo_scratch_def)

lemma demo_go_ok: "hex_ok demo_go" "sha256_of_nothing demo_go"
proof -
  show "hex_ok demo_go" using demo_hex_ok unfolding hex_ok_def demo_go_def by simp
  show "sha256_of_nothing demo_go"
    by (simp add: sha256_of_nothing_def demo_go_def demo_crates_def hex_digit_def empty_output_def)
qed

lemma demo_go_trusted: "trusted (demo_go_env loses)"
  by (simp add: trusted_def demo_scratch_ok demo_go_ok)

definition demo_written :: "bool \<Rightarrow> string \<Rightarrow> bytes \<Rightarrow> demo_files \<Rightarrow> demo_files" where
  "demo_written loses name body f =
     (let t = [''tmp'', temporary_name (demo_go_env loses) 1] in
      ((fst f)([''tmp'', name] := Some (if loses then [] else body), t := None), (snd f)(t := body)))"

lemma demo_write:
  assumes "\<not> is_temporary_name name" and "fst (prog_disk w) [''tmp'', name] = None"
  shows "write_disk_file (demo_go_env loses) name body w
    = (Inr (''tmp'' @ name), w\<lparr>prog_disk := demo_written loses name body (prog_disk w)\<rparr>)"
proof -
  have "name \<noteq> temporary_name (demo_go_env loses) 1" using assms(1) temporary_is_temporary by metis
  moreover have "file_has_size (demo_go_env loses) [''tmp'', name] n w = (Inr False, w)" for n
    using assms(2) by (simp add: file_has_size_def outcome_def on_scratch_def map_err_def demo_scratch_def ok_def)
  ultimately show ?thesis
    by (simp add: write_disk_file_def write_atomic_def prog_temporary_path_def and_then_def outcome_def on_scratch_def map_err_def
        publish_temporary_def canonical_path_def demo_written_def Let_def ok_def)
      (simp add: demo_scratch_def)
qed

definition demo_get :: ProgRequest where
  "demo_get = \<lparr>pr_id = 1, pr_command = ''get'', pr_action_id = [5], pr_output_id = [], pr_body_size = 0\<rparr>"

lemma demo_get_runs:
  "\<exists>w. prog_get (demo_go_env loses) (\<lambda>w. w) demo_get demo_helper
    = (Inr (ProgResponse_default\<lparr>rs_id := 1, rs_output_id := sha256 demo_go [7], rs_size := 1,
        rs_disk_path := ''tmp'' @ hex_encode demo_go (sha256 demo_go [7])\<rparr>), w)
    \<and> fst (prog_disk w) [''tmp'', hex_encode demo_go (sha256 demo_go [7])] = Some (if loses then [] else [7])"
proof -
  have name: "\<not> is_temporary_name (hex_encode demo_go (sha256 demo_go [7]))" by (rule hex_not_temporary [OF demo_go_ok(1)])
  have decode: "hex_bytes (demo_go_env loses) (hex_encode demo_go bs) w = (Inr bs, w)" for bs w
    using demo_go_ok(1) by (simp add: hex_bytes_def hex_ok_def ok_def)
  have remote: "send_get (demo_go_env loses) (''go-'' @ hex_encode demo_go [5]) demo_helper
      = (Inr (Some \<lparr>resp_status = 200, resp_headers = [], resp_body = [Inr [7]]\<rparr>), demo_helper)"
    by (simp add: send_get_def prog_send_def and_then_def map_err_def lift_result_def require_def is_success_def ok_def)
  have none: "manifest_entry a demo_helper = None" for a by (simp add: manifest_entry_def demo_helper_def)
  have free: "fst (prog_disk demo_helper) p = None" for p by (simp add: demo_helper_def)
  have "hex_encode demo_go (sha256 demo_go [7]) \<noteq> temporary_name (demo_go_env b) 1" for b
    using name temporary_is_temporary by metis
  then show ?thesis
    unfolding prog_get_def Let_def remote_answer_def demo_get_def
    by (simp add: none and_then_def remote [unfolded append.simps] read_body_def bind_sum_def map_err_def lift_result_def expected_digest_def header_get_def
        demo_write [OF name free] decode record_used_def modify_def ok_def demo_written_def Let_def)
qed

theorem get_answers_are_genuine_witness:
  "\<exists>response w. prog_get (demo_go_env False) (\<lambda>w. w) demo_get demo_helper = (Inr response, w)
    \<and> genuine_answer (demo_go_env False) response w"
proof -
  obtain w where run: "prog_get (demo_go_env False) (\<lambda>w. w) demo_get demo_helper
      = (Inr (ProgResponse_default\<lparr>rs_id := 1, rs_output_id := sha256 demo_go [7], rs_size := 1,
          rs_disk_path := ''tmp'' @ hex_encode demo_go (sha256 demo_go [7])\<rparr>), w)"
    using demo_get_runs by blast
  have "genuine_answer (demo_go_env False) (ProgResponse_default\<lparr>rs_id := 1, rs_output_id := sha256 demo_go [7], rs_size := 1,
          rs_disk_path := ''tmp'' @ hex_encode demo_go (sha256 demo_go [7])\<rparr>) w"
    by (rule get_answers_are_genuine [OF demo_go_trusted _ _ _ run])
      (simp_all add: demo_directories objects_ok_def demo_helper_def ProgResponse_default_def)
  with run show ?thesis by blast
qed

definition demo_host :: host where
  "demo_host = \<lparr>env_var = (\<lambda>_. None), host_os = ''linux'', host_arch = ''x86_64'', read_to_string = (\<lambda>_. None), path_lossy = concat\<rparr>"

definition demo_args :: CacheprogArgs where
  "demo_args = \<lparr>arg_url = ''/'', arg_token = None, arg_cache_dir = None, arg_ephemeral_cache = False, arg_session = Some ''x'',
     arg_prune_days = 30, arg_prefetch_concurrency = 4\<rparr>"

definition demo_started_env :: "(demo_files, unit) prog_env" where
  "demo_started_env = (demo_go_env False)\<lparr>base := Url ''/'', token := None, directory := [''flywheel-cacheprog''],
     session_key := manifest_key demo_go (session_label demo_host (Some ''x'') []), concurrency := 4\<rparr>"

definition demo_session :: "(demo_files, unit) session" where
  "demo_session =
     \<lparr>world = demo_helper\<lparr>stdout := [(known_commands, [line_feed])]\<rparr>,
      reader = \<lparr>coming = [], input_fails = None, line = [], pending_put = None\<rparr>, in_flight_requests = [], close_id = None,
      phase = Serving, admitted_ids = []\<rparr>"

lemma demo_started:
  "started (demo_go_env False) demo_host [] [] (Inr ()) demo_args (prog_disk demo_helper) demo_started_env demo_session"
proof -
  have "start_session (demo_go_env False) demo_host [] [] (Inr ()) demo_args demo_helper
      = (Inr demo_started_env, demo_helper\<lparr>stdout := [(known_commands, [line_feed])]\<rparr>)"
    by (simp add: start_session_def demo_args_def and_then_def map_err_def lift_result_def require_def ends_with_def cache_directory_def
        on_scratch_def Let_def modify_def write_response_def ok_def demo_prog_def demo_started_env_def)
      (simp add: demo_scratch_def demo_helper_def demo_go_env_def)
  then show ?thesis unfolding demo_session_def by (rule started.intros [OF refl, rotated]) (simp add: demo_helper_def)
qed

theorem session_objects_genuine_witness:
  "prog_step demo_started_env demo_args demo_session (demo_session\<lparr>in_flight_requests := [], phase := Left_loop\<rparr>)
    \<and> objects_ok demo_started_env (prog_disk (world (demo_session\<lparr>in_flight_requests := [], phase := Left_loop\<rparr>)))"
proof -
  have step: "prog_step demo_started_env demo_args demo_session (demo_session\<lparr>in_flight_requests := [], phase := Left_loop\<rparr>)"
    by (rule prog_step.shutdown) (simp add: demo_session_def)
  have empty: "objects_ok demo_started_env (prog_disk demo_helper)"
    by (simp add: objects_ok_def demo_helper_def demo_started_env_def)
  show ?thesis
    using step session_objects_genuine [OF demo_started demo_go_trusted empty, of "demo_session\<lparr>in_flight_requests := [], phase := Left_loop\<rparr>"]
    by blast
qed

text \<open>
  Without \<open>closes_complete\<close> the size of an answer need not be that of its file: the write of a
  temporary file is not flushed before the file is dropped and renamed, so a get may answer one
  byte and name an empty file.
\<close>

theorem lost_write_is_answered:
  "scratch_ok (demo_scratch True)
    \<and> (\<exists>response w. prog_get (demo_go_env True) (\<lambda>w. w) demo_get demo_helper = (Inr response, w) \<and> rs_size response = 1
        \<and> content (demo_go_env True) w (hex_encode demo_go (rs_output_id response)) = Some [])"
  using demo_get_runs [of True] demo_scratch_ok [of True] by (auto simp: ProgResponse_default_def)

end
