(* ===== verification/Cacheprog_Accounting.thy ===== *)
theory Cacheprog_Accounting
  imports Cacheprog_Objects
begin

text \<open>
  The books of a session of the Go cache program: the download pool, with the semaphore that
  bounds it, ends and gives its markers back, a put checks its body before it acts, the manifest is sent at most once, and every
  request is answered once.
\<close>

section \<open>Frames\<close>

text \<open>A predicate that files, the server, the clock and the record of used actions do not touch.\<close>

definition apart :: "(('f, 'w) helper \<Rightarrow> bool) \<Rightarrow> bool" where
  "apart P \<longleftrightarrow> (\<forall>w f u t us. P w \<longrightarrow> P (w\<lparr>prog_disk := f, outside := u, ticks := t, used := us\<rparr>))"

lemma apartD:
  assumes "apart P" and "P w"
  shows "P (w\<lparr>prog_disk := f\<rparr>)" "P (w\<lparr>outside := u\<rparr>)" "P (w\<lparr>ticks := t\<rparr>)" "P (w\<lparr>used := us\<rparr>)"
proof -
  have "P (w\<lparr>prog_disk := f, outside := u, ticks := t, used := us\<rparr>)" for f u t us using assms by (auto simp: apart_def)
  from this [of "used w" "ticks w" "outside w" f] this [of "used w" "ticks w" u "prog_disk w"]
    this [of "used w" t "outside w" "prog_disk w"] this [of us "ticks w" "outside w" "prog_disk w"]
  show "P (w\<lparr>prog_disk := f\<rparr>)" "P (w\<lparr>outside := u\<rparr>)" "P (w\<lparr>ticks := t\<rparr>)" "P (w\<lparr>used := us\<rparr>)" by simp_all
qed

lemma apart_base:
  assumes "apart P"
  shows "keeps P (on_scratch m)" "keeps P (clock_read E)" "keeps P (require b e)" "keeps P (record_used a out n)"
    "keeps P (prog_temporary_path E p)" "keeps P (prog_send E method key hs body)" "keeps P (hex_bytes E s)" "keeps P (read_body response)"
proof -
  show "keeps P (on_scratch m)" by (rule keepsI, erule on_scratch_E) (simp add: apartD [OF assms])
  show "keeps P (prog_send E method key hs body)" unfolding prog_send_def
    by (intro keeps_and_then keeps_map_err keeps_lift_result) (auto simp: keeps_def apartD [OF assms] split: prod.splits)
  show "keeps P (hex_bytes E s)" by (auto simp: hex_bytes_def keeps_def ok_def throw_def split: option.splits)
  show "keeps P (read_body response)" by (auto simp: read_body_def intro: keeps_map_err keeps_lift_result)
qed (auto simp: keeps_def clock_read_def require_def record_used_def prog_temporary_path_def ok_def throw_def modify_def apartD [OF assms]
    split: prod.splits)

lemmas frame_rules = keeps_and_then keeps_outcome keeps_if keeps_ok keeps_throw keeps_case_option keeps_case_sum keeps_map_err keeps_lift_result

lemma apart_files:
  assumes "apart P"
  shows "keeps P (file_has_size E p n)" "keeps P (touch E p)" "keeps P (canonical_path E p)" "keeps P (publish_temporary E t p)"
    "keeps P (write_atomic E p body)" "keeps P (write_disk_file E name body)"
proof -
  note base = apart_base [OF assms]
  show size: "keeps P (file_has_size E p n)" and touch: "keeps P (touch E p)" and canonical: "keeps P (canonical_path E p)"
    and publish: "keeps P (publish_temporary E t p)" for p n t
    unfolding file_has_size_def touch_def canonical_path_def publish_temporary_def by (intro frame_rules base)+
  show atomic: "keeps P (write_atomic E p body)" for p unfolding write_atomic_def by (intro frame_rules base publish)
  show "keeps P (write_disk_file E name body)"
    unfolding write_disk_file_def Let_def by (intro frame_rules size touch canonical atomic)
qed

lemma apart_remote:
  assumes "apart P"
  shows "keeps P (send_put E key body)" "keeps P (send_get E key)" "keeps P (stored_manifest E)" "keeps P (manifest_update E expires tm)"
    "keeps P (prog_put E request enc)" "keeps P (remote_answer E action request)"
proof -
  note base = apart_base [OF assms] and files = apart_files [OF assms]
  show put: "keeps P (send_put E key body)" and get: "keeps P (send_get E key)" for key body
    unfolding send_put_def send_get_def by (intro frame_rules base)+
  show stored: "keeps P (stored_manifest E)" unfolding stored_manifest_def by (intro frame_rules base get)
  show "keeps P (manifest_update E expires tm)" unfolding manifest_update_def unix_now_def by (intro frame_rules base put stored)
  show "keeps P (prog_put E request enc)" unfolding prog_put_def by (intro frame_rules base files put)
  show "keeps P (remote_answer E action request)" unfolding remote_answer_def Let_def by (intro frame_rules base files get)
qed

lemma apart_download:
  assumes "apart P"
  shows "keeps P (download_object E action entry)" "keeps P (plan_downloads E seen_outputs es)"
proof -
  note base = apart_base [OF assms] and files = apart_files [OF assms]
  have chunks: "keeps P (spool_chunks E p cs h n)" for p cs h n
  proof (induction cs arbitrary: h n)
    case (Cons c cs)
    then show ?case by (cases c) (auto intro!: frame_rules base)
  qed (simp add: keeps_ok)
  have spool: "keeps P (spool_verified E response p entry)" for response p
    unfolding spool_verified_def by (auto intro!: frame_rules base chunks split: prod.split)
  show "keeps P (download_object E action entry)"
    unfolding download_object_def Let_def by (intro frame_rules base files spool)
  show "keeps P (plan_downloads E seen_outputs es)"
  proof (induction es arbitrary: seen_outputs)
    case (Cons d es)
    then show ?case by (cases d) (auto intro!: frame_rules files)
  qed (simp add: keeps_ok)
qed
section \<open>The pool\<close>

abbreviation outputs :: "(string \<times> ManifestEntry) list \<Rightarrow> string list" where
  "outputs ds \<equiv> map (\<lambda>d. entry_output (snd d)) ds"

abbreviation books :: "('f, 'w) helper \<Rightarrow> (string \<times> ManifestEntry) list \<times> (string \<times> ManifestEntry) list \<times> string list
    \<times> bool \<times> bool \<times> (ProgResponse \<times> bytes) list" where
  "books w \<equiv> (pool w, permitted w, inflight w, prefetch_task w, prefetch_begun w, stdout w)"

lemma apart_books: "apart (\<lambda>w. books w = b)" "apart (\<lambda>w. stdout w = out)"
  by (simp_all add: apart_def)

lemma pool_download_books:
  assumes "pool_download E d w = (r, w')"
  shows "books w' = (remove1 d (pool w), remove1 d (permitted w), removeAll (entry_output (snd d)) (inflight w), prefetch_task w,
    prefetch_begun w, stdout w)"
proof -
  obtain x w1 where "download_object E (fst d) (snd d) w = (x, w1)"
    and w': "w' = end_download (entry_output (snd d)) (w1\<lparr>pool := remove1 d (pool w1), permitted := remove1 d (permitted w1)\<rparr>)"
    using assms by (auto simp: pool_download_def modify_def elim!: outcome_E)
  then have "books w1 = books w" using keepsD [OF apart_download(1) [OF apart_books(1) [of "books w"]]] by blast
  then show ?thesis by (simp add: w' end_download_def)
qed

lemma plan_downloads_distinct:
  "plan_downloads E seen_outputs es w = (Inr ds, w') \<Longrightarrow> distinct (outputs ds) \<and> (\<forall>d\<in>set ds. entry_output (snd d) \<notin> set seen_outputs)"
proof (induction es arbitrary: seen_outputs w ds w')
  case (Cons d es)
  obtain action entry where d: "d = (action, entry)" by fastforce
  from Cons.prems show ?case unfolding d
    by (auto split: if_splits elim!: and_then_E simp: ok_def dest!: Cons.IH) fastforce+
qed (simp add: ok_def)

lemma fold_begin_books:
  assumes "v = fold (\<lambda>(_, entry). begin_download (entry_output entry)) ds w"
  shows "pool v = pool w \<and> permitted v = permitted w \<and> prefetch_task v = prefetch_task w \<and> prefetch_begun v = prefetch_begun w \<and> stdout v = stdout w
    \<and> set (inflight v) = set (inflight w) \<union> set (outputs ds)"
  unfolding assms by (induction ds arbitrary: w) (auto simp: begin_download_def)

lemma start_prefetch_books:
  assumes "start_prefetch E w = (r, w')"
  shows "prefetch_task w' = prefetch_task w \<and> prefetch_begun w' = prefetch_begun w \<and> stdout w' = stdout w
    \<and> (pool w' = pool w \<and> permitted w' = permitted w \<and> inflight w' = inflight w
      \<or> distinct (outputs (pool w')) \<and> permitted w' = [] \<and> 0 < concurrency E
        \<and> set (inflight w') = set (inflight w) \<union> set (outputs (pool w')))"
proof -
  let ?same = "\<lambda>v. books v = books w"
  have install: "keeps ?same (install_manifest m)" for m by (auto simp: keeps_def install_manifest_def split: option.split)
  have early: ?thesis if "?same w'" using that by simp
  from assms [unfolded start_prefetch_def] show ?thesis
  proof (cases rule: and_then_E)
    case (err e)
    then show ?thesis using keepsD [OF apart_remote(3) [OF apart_books(1)] refl] early by blast
  next
    case (val found w1)
    then have w1: "?same w1" using keepsD [OF apart_remote(3) [OF apart_books(1)] refl] by blast
    obtain m w2 where m: "install_manifest (case found of Some m \<Rightarrow> m | None \<Rightarrow> Manifest_empty) w1 = (Inr m, w2)"
      by (cases "session_manifest w1") (auto simp: install_manifest_def)
    then have w2: "?same w2" using keepsD [OF install w1] by blast
    from val(2) m have "and_then (plan_downloads E [] (entries m)) (\<lambda>wanted. if concurrency E = 0 then ok ()
        else modify (\<lambda>w. fold (\<lambda>(_, entry). begin_download (entry_output entry)) wanted
          (w\<lparr>pool := wanted, permitted := []\<rparr>))) w2 = (r, w')"
      by (simp add: and_then_Inr)
    then show ?thesis
    proof (cases rule: and_then_E)
      case (err e)
      then show ?thesis using keepsD [OF apart_download(2) [OF apart_books(1)] w2] early by blast
    next
      case (val wanted w3)
      then have w3: "?same w3" using keepsD [OF apart_download(2) [OF apart_books(1)] w2] by blast
      then show ?thesis
        using val(2) early plan_downloads_distinct [OF val(1)] fold_begin_books [OF refl, of wanted "w3\<lparr>pool := wanted, permitted := []\<rparr>"]
        by (cases "concurrency E = 0") (auto simp: ok_def modify_def)
    qed
  qed
qed

text \<open>
  Each step of the pool builds the work list, once, or ends a download, or gives one a permit.
\<close>

lemma pool_step_wf: "wf {(w', w). pool_step E w w'}"
proof (rule wf_subset)
  let ?m = "\<lambda>w :: ('a, 'b) helper. (if prefetch_begun w then 0 else 1 :: nat, length (pool w), card (set (pool w) - set (permitted w)))"
  show "wf (inv_image (less_than <*lex*> less_than <*lex*> less_than) ?m)"
    by (intro wf_inv_image wf_lex_prod wf_less_than)
  have "card (set ds - insert d (set ps)) < card (set ds - set ps)" if "d \<in> set ds" "d \<notin> set ps" for ds ps and d :: "string \<times> ManifestEntry"
    using that by (intro psubset_card_mono) auto
  then show "{(w', w). pool_step E w w'} \<subseteq> inv_image (less_than <*lex*> less_than <*lex*> less_than) ?m"
    by (auto elim!: pool_stepE dest!: pool_download_books simp: take_permit_def length_remove1 intro!: diff_less length_pos_if_in_set)
qed

text \<open>
  Every marker of a download in progress belongs to one download of the pool; the permits are
  held by downloads of the pool, one each and no more than there are; and there is a pool only
  if there is a permit.
\<close>

definition marked :: "('f, 'w) prog_env \<Rightarrow> ('f, 'w) helper \<Rightarrow> bool" where
  "marked E w \<longleftrightarrow> distinct (outputs (pool w)) \<and> set (inflight w) = set (outputs (pool w)) \<and> (\<not> prefetch_begun w \<longrightarrow> pool w = [])
     \<and> set (permitted w) \<subseteq> set (pool w) \<and> distinct (permitted w) \<and> length (permitted w) \<le> concurrency E
     \<and> (pool w \<noteq> [] \<longrightarrow> 0 < concurrency E)"

lemma remove1_outputs:
  "distinct (outputs ds) \<Longrightarrow> d \<in> set ds \<Longrightarrow>
    distinct (outputs (remove1 d ds)) \<and> set (outputs (remove1 d ds)) = set (outputs ds) - {entry_output (snd d)}"
  by (induction ds) auto

lemma pool_step_marked:
  assumes "pool_step E w w'" and "marked E w"
  shows "marked E w'"
  using assms(1)
proof (cases rule: pool_step.cases)
  case (begins r w1)
  then show ?thesis using start_prefetch_books [OF begins(4)] assms(2) by (auto simp: marked_def)
next
  case (acquires d)
  then show ?thesis using assms(2) by (auto simp: marked_def take_permit_def permit_free_def)
next
  case (download d r)
  have "distinct (pool w)" using assms(2) by (auto simp: marked_def distinct_map)
  then show ?thesis using pool_download_books [OF download(3)] remove1_outputs [of "pool w" d] assms(2) download(1)
    by (auto simp: marked_def length_remove1 set_remove1_eq)
qed

lemma pool_step_stdout: "pool_step E w w' \<Longrightarrow> stdout w' = stdout w"
  by (auto simp: take_permit_def elim!: pool_stepE dest: start_prefetch_books pool_download_books)

lemma pool_steps_kept:
  assumes "(pool_step E)\<^sup>*\<^sup>* w w'"
  shows "stdout w' = stdout w" and "marked E w \<Longrightarrow> marked E w'"
  using assms by (induction rule: rtranclp_induct) (auto simp: pool_step_stdout intro: pool_step_marked)

lemma marked_step:
  assumes "marked E w" and "inflight w \<noteq> []"
  shows "\<exists>w'. pool_step E w w'"
proof (cases "permitted w")
  case Nil
  obtain d where "d \<in> set (pool w)" using assms by (cases "pool w") (auto simp: marked_def)
  moreover from this have "permit_free E w" using assms(1) Nil by (auto simp: marked_def permit_free_def)
  ultimately show ?thesis using pool_step.acquires [of d w E] Nil by auto
next
  case (Cons d ds)
  obtain r w' where "pool_download E d w = (r, w')" by fastforce
  then show ?thesis using pool_step.download [of d w E r w'] assms(1) Cons by (auto simp: marked_def)
qed

lemma pool_drains: "marked E w \<Longrightarrow> \<exists>w'. (pool_step E)\<^sup>*\<^sup>* w w' \<and> inflight w' = []"
proof (induction w rule: wf_induct_rule [OF pool_step_wf [of E]])
  case (1 w)
  show ?case
  proof (cases "inflight w = []")
    case False
    then obtain v where v: "pool_step E w v" using marked_step [OF 1(2)] by blast
    with 1(1) [of v] pool_step_marked [OF v 1(2)] show ?thesis by (auto intro: converse_rtranclp_into_rtranclp)
  qed auto
qed

section \<open>The end of a session\<close>

lemma keeps_used_empty:
  "keeps (\<lambda>w. used w = [] \<and> \<not> prefetch_task w) (manifest_update E expires tm)"
proof -
  let ?P = "\<lambda>w :: ('a, 'b) helper. used w = [] \<and> \<not> prefetch_task w"
  have send: "keeps ?P (prog_send E meth key hs body)" for meth key hs body
    unfolding prog_send_def by (intro frame_rules) (auto simp: keeps_def split: prod.splits)
  have plain: "keeps ?P (clock_read E)" "keeps ?P (require b e)" "keeps ?P (read_body response)" for b e response
    by (auto simp: keeps_def clock_read_def require_def read_body_def ok_def throw_def map_err_def lift_result_def split: sum.split)
  show ?thesis
    unfolding manifest_update_def stored_manifest_def send_get_def send_put_def unix_now_def by (intro frame_rules send plain)
qed

lemma finish_session_done:
  assumes "finish_session E expires w = (r, w')"
  shows "r = Inr () \<and> used w' = [] \<and> (prefetch_task w' \<longrightarrow> False) \<and> pool w' = (if prefetch_task w then [] else pool w)"
proof -
  let ?w0 = "if prefetch_task w then w\<lparr>prefetch_task := False, pool := [], permitted := [], inflight := []\<rparr> else w"
  have run: "finalize E expires ?w0 = (r, w')" using assms by (simp add: finish_session_def abort_prefetch_def and_then_def modify_def)
  have u: "used ?w0 = used w" "\<not> prefetch_task ?w0" "pool ?w0 = (if prefetch_task w then [] else pool w)" by auto
  show ?thesis
  proof (cases "used w = []")
    case False
    then obtain x where m: "manifest_update E expires (used w) (?w0\<lparr>used := []\<rparr>) = (x, w')" and r: "r = Inr ()"
      using run u(1) by (auto simp: finalize_def Let_def ok_def elim!: outcome_E)
    from keepsD [OF keeps_used_empty _ m] u(2) have "used w' = [] \<and> \<not> prefetch_task w'" by simp
    moreover have "books w' = books (?w0\<lparr>used := []\<rparr>)" using keepsD [OF apart_remote(4) [OF apart_books(1)] refl m] .
    ultimately show ?thesis using r u(3) by simp
  qed (use run u in \<open>auto simp: finalize_def Let_def split: if_splits\<close>)
qed

text \<open>
  Finishing a session a second time does nothing, so a session that answers its close and
  then ends sends its manifest at most once.
\<close>

theorem finish_session_once:
  assumes "finish_session E expires w = (r, w')"
  shows "finish_session E expires' w' = (Inr (), w')"
  using finish_session_done [OF assms]
  by (simp add: finish_session_def abort_prefetch_def finalize_def and_then_def modify_def Let_def)

lemma apart_prune: "apart P \<Longrightarrow> keeps P (prune_stale_files E now age)"
proof -
  assume P: "apart P"
  have one: "keeps P (prune_entry E now age name)" for name
    unfolding prune_entry_def by (intro frame_rules apart_base [OF P])
  have "keeps P (prune_entries E now age names)" for names
  proof (induction names)
    case (Cons x names)
    then show ?case by (cases x) (auto intro!: frame_rules one)
  qed (simp add: keeps_ok)
  then show ?thesis unfolding prune_stale_files_def by (intro frame_rules apart_base [OF P])
qed

lemma finish_kept:
  assumes "finish_session E expires w = (r, w')"
  shows "stdout w' = stdout w" and "marked E w \<Longrightarrow> marked E w'"
proof -
  let ?w0 = "if prefetch_task w then w\<lparr>prefetch_task := False, pool := [], permitted := [], inflight := []\<rparr> else w"
  have run: "finalize E expires ?w0 = (r, w')" using assms by (simp add: finish_session_def abort_prefetch_def and_then_def modify_def)
  have "books w' = books ?w0"
  proof (cases "used ?w0 = []")
    case False
    then obtain x where "manifest_update E expires (used ?w0) (?w0\<lparr>used := []\<rparr>) = (x, w')"
      using run by (auto simp: finalize_def Let_def ok_def elim!: outcome_E)
    then have "books w' = books (?w0\<lparr>used := []\<rparr>)" using keepsD [OF apart_remote(4) [OF apart_books(1)] refl] by blast
    then show ?thesis by simp
  qed (use run in \<open>auto simp: finalize_def Let_def split: if_splits\<close>)
  then show "stdout w' = stdout w" "marked E w \<Longrightarrow> marked E w'" by (auto simp: marked_def split: if_splits)
qed

lemma end_kept:
  assumes "end_session E args expires w = (r, w')"
  shows "stdout w' = stdout w" and "marked E w \<Longrightarrow> marked E w'"
proof -
  obtain w1 where fin: "finish_session E expires w = (Inr (), w1)"
    using finish_session_done [of E expires w] by (cases "finish_session E expires w") auto
  let ?rest = "if arg_ephemeral_cache args then outcome (on_scratch (local_remove_dir_all (scratch E) (directory E))) (\<lambda>_. ok ())
     else and_then (clock_read E) (\<lambda>now. prune_stale_files E now
         (if 0 < arg_prune_days args then Some (from_secs (unat (arg_prune_days args * 24 * 60 * 60))) else None))"
  have run: "?rest w1 = (r, w')" using assms fin by (simp add: end_session_def and_then_Inr)
  have kept: "keeps (\<lambda>w. books w = books w1) ?rest" by (intro frame_rules apart_base apart_prune apart_books)
  have "books w' = books w1" by (rule keepsD [OF kept refl run])
  then show "stdout w' = stdout w" "marked E w \<Longrightarrow> marked E w'" using finish_kept [OF fin] by (auto simp: marked_def)
qed

section \<open>Puts\<close>

definition put_body :: "('f, 'w) prog_env \<Rightarrow> ProgRequest \<Rightarrow> bytes \<Rightarrow> bytes option" where
  "put_body E request enc =
     (case (if pr_body_size request = 0 then Inr [] else string_from_slice (prog_json E) enc) of
        Inl _ \<Rightarrow> None
      | Inr text \<Rightarrow> (case standard_decode (prog_json E) text of Inl _ \<Rightarrow> None | Inr body \<Rightarrow> Some body))"

definition put_accepts :: "('f, 'w) prog_env \<Rightarrow> ProgRequest \<Rightarrow> bytes \<Rightarrow> bytes \<Rightarrow> bool" where
  "put_accepts E request enc body \<longleftrightarrow>
     put_body E request enc = Some body \<and> of_nat (length body) = pr_body_size request \<and> sha256 (prog_ids E) body = pr_output_id request"

lemma prog_put_refused:
  assumes "\<And>body. \<not> put_accepts E request enc body"
  shows "\<exists>e. prog_put E request enc w = (Inl e, w)"
proof (cases "put_body E request enc")
  case None
  then show ?thesis
    by (auto simp: put_body_def prog_put_def and_then_def map_err_def lift_result_def ok_def split: sum.splits if_splits)
next
  case (Some body)
  then have "\<not> (of_nat (length body) = pr_body_size request \<and> sha256 (prog_ids E) body = pr_output_id request)"
    using assms [of body] by (simp add: put_accepts_def)
  then show ?thesis using Some
    by (auto simp: put_body_def prog_put_def and_then_def map_err_def lift_result_def ok_def require_def throw_def split: sum.splits if_splits)
qed

lemma send_put_E:
  assumes "send_put E key body w = (Inr v, w')"
  obtains url reply where "url_join (prog_web E) (base E) key = Inr url" and "is_success (resp_status reply)"
    and "http_send E PUT url (bearer E) body (outside w) = (Inr reply, outside w')"
  using assms
  by (auto simp: send_put_def prog_send_def map_err_def lift_result_def require_def ok_def throw_def
      split: sum.splits prod.splits if_splits elim!: and_then_E)

text \<open>
  C30. A put whose body does not decode, or has another length or digest than the request says,
  fails and touches neither the directory nor the server nor the record of used actions; a put
  that is answered has sent exactly the decoded body to the server under its action, has got a
  success for it, and has recorded the action as used.
\<close>

theorem put_checks_before_it_acts:
  assumes "prog_put E request enc w = (r, w')"
  shows "((\<forall>body. \<not> put_accepts E request enc body) \<longrightarrow> isl r \<and> w' = w)
    \<and> (\<forall>response. r = Inr response \<longrightarrow> rs_id response = pr_id request \<and>
         (\<exists>body u url reply. put_accepts E request enc body
            \<and> url_join (prog_web E) (base E) (put_key E (pr_action_id request)) = Inr url
            \<and> http_send E PUT url (bearer E) body u = (Inr reply, outside w') \<and> is_success (resp_status reply))
         \<and> map_of (used w') (hex_encode (prog_ids E) (pr_action_id request))
             = Some \<lparr>used_output = hex_encode (prog_ids E) (pr_output_id request), used_size = pr_body_size request\<rparr>)"
proof (cases "\<exists>body. put_accepts E request enc body")
  case False
  then show ?thesis using prog_put_refused [of E request enc w] assms by auto
next
  case True
  then obtain body where acc: "put_accepts E request enc body" by blast
  show ?thesis
  proof (cases r)
    case (Inr response)
    with assms obtain body' path w1 w2 where run: "put_body E request enc = Some body'"
      "send_put E (put_key E (pr_action_id request)) body' w1 = (Inr (), w2)"
      "w' = w2\<lparr>used := AList.update (hex_encode (prog_ids E) (pr_action_id request))
          \<lparr>used_output = hex_encode (prog_ids E) (pr_output_id request), used_size = pr_body_size request\<rparr> (used w2)\<rparr>"
      "response = ProgResponse_default\<lparr>rs_id := pr_id request, rs_disk_path := path\<rparr>"
      by (auto simp: prog_put_def put_body_def map_err_def lift_result_def ok_def record_used_def modify_def
          split: if_splits sum.splits elim!: and_then_E)
    have body: "body' = body" using acc run(1) by (simp add: put_accepts_def)
    obtain url reply where "url_join (prog_web E) (base E) (put_key E (pr_action_id request)) = Inr url" "is_success (resp_status reply)"
      "http_send E PUT url (bearer E) body (outside w1) = (Inr reply, outside w2)"
      using run(2) [unfolded body] by (rule send_put_E)
    then have "\<exists>body u url reply. put_accepts E request enc body \<and> url_join (prog_web E) (base E) (put_key E (pr_action_id request)) = Inr url
        \<and> http_send E PUT url (bearer E) body u = (Inr reply, outside w') \<and> is_success (resp_status reply)"
      using run(3) acc by auto
    then show ?thesis using acc run(3,4) Inr by (auto simp: update_conv')
  qed (use acc in auto)
qed

section \<open>Requests\<close>

lemma execute_request_E:
  assumes "execute_request E meanwhile request enc w = (r, w')"
  obtains response where "r = Inr response" and "rs_id response = pr_id request"
proof -
  let ?m = "if pr_command request = ''put'' then prog_put E request enc
        else if pr_command request = ''get'' then prog_get E meanwhile request else throw (ProgUnsupported (pr_command request))"
  obtain x where m: "?m w = (x, w')"
    and r: "r = Inr (case x of Inr response \<Rightarrow> response | Inl e \<Rightarrow> ProgResponse_default\<lparr>rs_id := pr_id request, rs_err := error_text E e\<rparr>)"
    using assms by (auto simp: execute_request_def ok_def elim!: outcome_E)
  have put: "rs_id response = pr_id request" if "prog_put E request enc w = (Inr response, w')" for response
    using that by (auto simp: prog_put_def ok_def elim!: and_then_E)
  have remote: "rs_id response = pr_id request" if "remote_answer E a request v = (Inr response, v')" for a response v v'
    using that by (auto simp: remote_answer_def Let_def ok_def missed_def split: option.splits if_splits elim!: and_then_E)
  have "rs_id response = pr_id request" if "local_answer E meanwhile a request entry v = (Inr (Some response), v')" for a entry response v v'
    using that by (auto simp: local_answer_def Let_def ok_def split: if_splits elim!: and_then_E)
  then have get: "rs_id response = pr_id request" if "prog_get E meanwhile request w = (Inr response, w')" for response
    using that remote by (auto simp: prog_get_def Let_def ok_def split: option.splits elim!: and_then_E)
  show thesis using m put get r by (intro that [OF r]) (auto simp: throw_def split: sum.splits if_splits)
qed

lemma execute_kept:
  assumes run: "execute_request E meanwhile request enc w = (r, w')" and later: "\<And>w. (pool_step E)\<^sup>*\<^sup>* w (meanwhile w)"
  shows "stdout w' = stdout w" and "marked E w \<Longrightarrow> marked E w'"
proof -
  have kept: "keeps P (execute_request E meanwhile request enc)" if P: "apart P" and mid: "\<And>w. P w \<Longrightarrow> P (meanwhile w)" for P
  proof -
    have look: "keeps P (\<lambda>w. if \<not> b \<and> download_in_progress out w then file_has_size E p n (meanwhile w) else (Inr b, w))" for b out p n
    proof (rule keepsI)
      fix w r w'
      assume w: "P w" and "(if \<not> b \<and> download_in_progress out w then file_has_size E p n (meanwhile w) else (Inr b, w)) = (r, w')"
      then show "P w'" using keepsD [OF apart_files(1) [OF P, of E p n] mid [OF w]] by (auto split: if_splits)
    qed
    have "keeps P (local_answer E meanwhile a request entry)" for a entry
      unfolding local_answer_def Let_def by (intro frame_rules look apart_base [OF P] apart_files [OF P])
    then have "keeps P (\<lambda>w. case manifest_entry a w of None \<Rightarrow> (Inr None, w) | Some entry \<Rightarrow> local_answer E meanwhile a request entry w)" for a
      by (auto simp: keeps_def split: option.split)
    then show ?thesis unfolding execute_request_def prog_get_def Let_def by (intro frame_rules apart_remote [OF P])
  qed
  show "stdout w' = stdout w"
    by (rule keepsD [OF kept [OF apart_books(2)] refl run]) (simp add: pool_steps_kept(1) [OF later])
  show "marked E w'" if "marked E w"
    by (rule keepsD [OF kept [of "marked E"] that run]) (simp_all add: apart_def pool_steps_kept(2) [OF later], simp add: marked_def)
qed

section \<open>Answers\<close>

definition answered_ids :: "('f, 'w) session \<Rightarrow> int list" where
  "answered_ids s = map (\<lambda>p. rs_id (fst p)) (stdout (world s))"

definition flight_ids :: "('f, 'w) session \<Rightarrow> int list" where
  "flight_ids s = map (\<lambda>p. pr_id (fst p)) (in_flight_requests s)"

text \<open>
  For an identifier other than zero, which announcements and answers to unreadable lines carry:
  while the loop runs, what was admitted is answered or in flight; nothing is answered more often
  than it was admitted but the close, once; and when the close is answered, all requests were.
\<close>

definition fair :: "bool \<Rightarrow> int option \<Rightarrow> int list \<Rightarrow> int list \<Rightarrow> int list \<Rightarrow> bool" where
  "fair serving closing answers_so_far flying admissions \<longleftrightarrow> (\<forall>i. i \<noteq> 0 \<longrightarrow>
     (serving \<longrightarrow> count_list answers_so_far i + count_list flying i = count_list admissions i)
   \<and> count_list answers_so_far i \<le> count_list admissions i + (if \<not> serving \<and> closing = Some i then 1 else 0)
   \<and> (count_list admissions i < count_list answers_so_far i \<longrightarrow>
        (\<forall>j. j \<noteq> 0 \<longrightarrow> j \<noteq> i \<longrightarrow> count_list answers_so_far j = count_list admissions j)))"

lemma fair_serving:
  "fair True c as fs adm \<longleftrightarrow> (\<forall>i. i \<noteq> 0 \<longrightarrow> count_list as i + count_list fs i = count_list adm i)"
  unfolding fair_def by (metis le_add1 leD add_0_right)

lemma fair_left: "fair True c as fs adm \<Longrightarrow> fair False c' as fs' adm"
  unfolding fair_serving by (auto simp: fair_def)

lemma fair_zero:
  assumes "fair b c as fs adm"
  shows "fair b c (as @ [0]) fs adm"
proof -
  have "count_list (as @ [0]) i = count_list as i" if "i \<noteq> 0" for i :: int using that by simp
  then show ?thesis using assms unfolding fair_def by metis
qed

lemma fair_admit: "fair True c as fs adm \<Longrightarrow> fair True c as (fs @ [i]) (adm @ [i])"
  by (simp add: fair_serving)

lemma fair_answer:
  assumes "fair True c as fs adm" and "\<And>i. count_list fs' i + (if x = i then 1 else 0) = count_list fs i"
  shows "fair True c (as @ [x]) fs' adm"
  unfolding fair_serving
proof (intro allI impI)
  fix i :: int
  assume "i \<noteq> 0"
  with assms(1) have "count_list as i + count_list fs i = count_list adm i" by (simp add: fair_serving)
  then show "count_list (as @ [x]) i + count_list fs' i = count_list adm i" using assms(2) [of i] by (cases "x = i") simp_all
qed

lemma fair_close: "fair True c as [] adm \<Longrightarrow> fair False (Some x) (as @ [x]) [] adm"
  unfolding fair_serving by (auto simp: fair_def)

definition balanced :: "('f, 'w) session \<Rightarrow> bool" where
  "balanced s \<longleftrightarrow> fair (phase s = Serving) (close_id s) (answered_ids s) (flight_ids s) (admitted_ids s)"

lemma write_response_E:
  assumes "write_response E response w = (r, w')"
  obtains (written) bs where "r = Inr ()" and "w' = w\<lparr>stdout := stdout w @ [(response, bs)]\<rparr>"
    | (failed) e where "r = Inl e" and "w' = w"
  using assms by (auto simp: write_response_def map_err_def lift_result_def split: option.splits sum.splits prod.splits elim!: and_then_E)

lemma after_write_E:
  assumes "after_write (write_response E response w) s = s'"
  obtains (written) bs where "s' = s\<lparr>world := w\<lparr>stdout := stdout w @ [(response, bs)]\<rparr>\<rparr>"
    | (failed) e where "s' = s\<lparr>world := w, phase := Failed e\<rparr>"
proof (cases "write_response E response w")
  case (Pair r w')
  then show thesis using assms that by (auto simp: after_write_def elim!: write_response_E)
qed

lemma flight_remove: "p \<in> set ps \<Longrightarrow> count_list (map (\<lambda>p. pr_id (fst p)) (remove1 p ps)) i + (if pr_id (fst p) = i then 1 else 0)
    = count_list (map (\<lambda>p. pr_id (fst p)) ps) i"
  by (induction ps) auto

lemmas ids_defs = balanced_def answered_ids_def flight_ids_def

lemma balanced_left:
  assumes "balanced s" and "phase s = Serving" and "stdout (world s') = stdout (world s)" and "admitted_ids s' = admitted_ids s"
    and "phase s' \<noteq> Serving"
  shows "balanced s'"
  using assms fair_left [of "close_id s" "answered_ids s" "flight_ids s" "admitted_ids s"] by (simp add: ids_defs)

definition session_ok :: "('f, 'w) prog_env \<Rightarrow> ('f, 'w) session \<Rightarrow> bool" where
  "session_ok E s \<longleftrightarrow> balanced s \<and> marked E (world s)"

lemma session_okI:
  "balanced s \<Longrightarrow> marked E w \<Longrightarrow> pool (world s) = pool w \<Longrightarrow> permitted (world s) = permitted w \<Longrightarrow> inflight (world s) = inflight w \<Longrightarrow> prefetch_begun (world s) = prefetch_begun w
    \<Longrightarrow> session_ok E s"
  by (simp add: session_ok_def marked_def)

lemma after_write_ok:
  assumes "marked E w" and "\<And>bs. balanced (s\<lparr>world := w\<lparr>stdout := stdout w @ [(response, bs)]\<rparr>\<rparr>)"
    and "\<And>e. balanced (s\<lparr>world := w, phase := Failed e\<rparr>)"
  shows "session_ok E (after_write (write_response E response w) s)"
proof (rule after_write_E [OF refl])
  fix bs
  assume "after_write (write_response E response w) s = s\<lparr>world := w\<lparr>stdout := stdout w @ [(response, bs)]\<rparr>\<rparr>"
  then show ?thesis using session_okI [OF assms(2) assms(1), of bs] by simp
next
  fix e
  assume "after_write (write_response E response w) s = s\<lparr>world := w, phase := Failed e\<rparr>"
  then show ?thesis using session_okI [OF assms(3) assms(1), of e] by simp
qed

lemma on_message_ok:
  assumes s: "session_ok E s" and serving: "phase s = Serving"
  shows "session_ok E (on_message E m s)"
proof (cases m)
  case None
  then show ?thesis using s serving balanced_left [of s "s\<lparr>in_flight_requests := [], phase := Left_loop\<rparr>"]
    by (simp add: on_message_def session_ok_def)
next
  case (Some msg)
  show ?thesis
  proof (cases msg)
    case (InvalidMessage error)
    let ?r = "ProgResponse_default\<lparr>rs_err := error\<rparr>"
    have "on_message E m s = after_write (write_response E ?r (world s)) s" by (simp add: on_message_def Some InvalidMessage)
    moreover have "session_ok E (after_write (write_response E ?r (world s)) s)"
    proof (rule after_write_ok)
      show "marked E (world s)" "balanced (s\<lparr>world := (world s)\<lparr>stdout := stdout (world s) @ [(?r, bs)]\<rparr>\<rparr>)"
        "balanced (s\<lparr>world := world s, phase := Failed e\<rparr>)" for bs e
        using s serving fair_zero balanced_left [of s "s\<lparr>phase := Failed e\<rparr>"]
        by (simp_all add: session_ok_def ids_defs ProgResponse_default_def)
    qed
    ultimately show ?thesis by simp
  next
    case (RequestMessage request body)
    then show ?thesis using s serving Some fair_admit [of "close_id s" "answered_ids s" "flight_ids s" "admitted_ids s" "pr_id request"]
      by (simp add: on_message_def session_ok_def ids_defs) (simp add: fair_serving)
  qed
qed

lemma prog_step_ok:
  assumes step: "prog_step E args s s'" and s: "session_ok E s"
  shows "session_ok E s'"
  using step
proof (cases rule: prog_step.cases)
  case (pool_runs w')
  then show ?thesis using s pool_step_stdout [OF pool_runs(3)] pool_step_marked [OF pool_runs(3)] by (simp add: session_ok_def ids_defs)
next
  case (message m rd)
  have "session_ok E (s\<lparr>reader := rd\<rparr>)" using s by (simp add: session_ok_def ids_defs)
  then show ?thesis using on_message_ok [of E "s\<lparr>reader := rd\<rparr>"] message by simp
next
  case (read_fails e rd)
  then show ?thesis using s balanced_left [of s s'] by (simp add: session_ok_def)
next
  case (completes p meanwhile)
  obtain r w where run: "execute_request E meanwhile (fst p) (snd p) (world s) = (r, w)" by fastforce
  then obtain response where r: "r = Inr response" and ident: "rs_id response = pr_id (fst p)" by (rule execute_request_E)
  note kept = execute_kept [OF run completes(4)]
  let ?s = "s\<lparr>world := w, in_flight_requests := remove1 p (in_flight_requests s)\<rparr>"
  have "s' = after_write (write_response E response w) ?s" using completes(1) run r by (simp add: complete_request_def)
  moreover have "session_ok E (after_write (write_response E response w) ?s)"
  proof (rule after_write_ok)
    show "marked E w" using kept(2) s by (simp add: session_ok_def)
    show "balanced (?s\<lparr>world := w\<lparr>stdout := stdout w @ [(response, bs)]\<rparr>\<rparr>)" for bs
      using fair_answer [OF _ flight_remove [OF completes(3)], of "close_id s" "answered_ids s" "admitted_ids s"] s completes(2) ident kept(1)
      by (simp add: session_ok_def ids_defs)
    show "balanced (?s\<lparr>world := w, phase := Failed e\<rparr>)" for e
      using s completes(2) kept(1) balanced_left [of s "?s\<lparr>world := w, phase := Failed e\<rparr>"] by (simp add: session_ok_def)
  qed
  ultimately show ?thesis by simp
next
  case (closes ident expires)
  obtain r w where run: "finish_session E expires (world s) = (r, w)" by fastforce
  note kept = finish_kept [OF run]
  let ?s = "s\<lparr>world := w, phase := Left_loop\<rparr>" and ?r = "ProgResponse_default\<lparr>rs_id := ident\<rparr>"
  have "s' = after_write (write_response E ?r w) ?s" using closes(1) run by (simp add: answer_close_def)
  moreover have "session_ok E (after_write (write_response E ?r w) ?s)"
  proof (rule after_write_ok)
    show "marked E w" using kept(2) s by (simp add: session_ok_def)
    show "balanced (?s\<lparr>world := w\<lparr>stdout := stdout w @ [(?r, bs)]\<rparr>\<rparr>)" for bs
      using fair_close [of "close_id s" "answered_ids s" "admitted_ids s" ident] s closes(2-4) kept(1)
      by (simp add: session_ok_def ids_defs ProgResponse_default_def)
    show "balanced (?s\<lparr>world := w, phase := Failed e\<rparr>)" for e
      using s closes(2) kept(1) balanced_left [of s "?s\<lparr>world := w, phase := Failed e\<rparr>"] by (simp add: session_ok_def)
  qed
  ultimately show ?thesis by simp
next
  case (ends expires r w)
  then show ?thesis using s end_kept [OF ends(3)] by (auto simp: session_ok_def ids_defs)
next
  case shutdown
  then show ?thesis using s balanced_left [of s s'] by (simp add: session_ok_def)
qed (use s in \<open>auto simp: session_ok_def ids_defs\<close>)

lemma started_ok:
  assumes "started E h cwd temp_dir client args f E' s"
  shows "session_ok E' s"
proof -
  from assms obtain w w' where run: "start_session E h cwd temp_dir client args w = (Inr E', w')" and out: "stdout w = []"
    and s: "world s = w'" "in_flight_requests s = []" "phase s = Serving" "admitted_ids s = []"
    by (cases rule: started.cases) auto
  let ?clear = "\<lambda>w. w\<lparr>session_manifest := None, used := [], inflight := [], pool := [], permitted := [], prefetch_task := True, prefetch_begun := False\<rparr>"
  have dir: "keeps (\<lambda>w :: ('a, 'b) helper. stdout w = []) (cache_directory E temp_dir args)"
    unfolding cache_directory_def Let_def
    by (intro frame_rules apart_base(1) apart_books(2)) (auto simp: keeps_def split: prod.split)
  from run obtain d w1 E2 where w1: "cache_directory E temp_dir args w = (Inr d, w1)"
    and w2: "write_response E2 known_commands (?clear w1) = (Inr (), w')"
    by (auto simp: start_session_def Let_def ok_def require_def throw_def map_err_def lift_result_def modify_def
        split: sum.splits if_splits elim!: and_then_E)
  have "stdout w1 = []" by (rule keepsD [OF dir out w1])
  with w2 obtain bs where "w' = (?clear w1)\<lparr>stdout := [(known_commands, bs)]\<rparr>" by (auto elim!: write_response_E)
  then show ?thesis using s by (simp add: session_ok_def marked_def ids_defs fair_serving known_commands_def ProgResponse_default_def)
qed

lemma session_reachable_ok:
  assumes "started E h cwd temp_dir client args f E' s" and "(prog_step E' args)\<^sup>*\<^sup>* s s'"
  shows "session_ok E' s'"
  using assms(2) by (induction rule: rtranclp_induct) (auto intro: started_ok [OF assms(1)] prog_step_ok)

text \<open>
  C21. In every reachable state of a session and for every identifier other than zero, under which
  unreadable lines are answered: while the loop runs, the requests admitted under it are the answers written under it and the requests
  still in flight; never is more answered than was admitted but the close, once; and when the
  close has been answered, every request admitted under another identifier has been answered
  exactly as often as it was admitted. A shutdown and the end of the input drop the requests
  in flight, which stay unanswered.
\<close>

theorem requests_are_answered_once:
  assumes "started E h cwd temp_dir client args f E' s" and "(prog_step E' args)\<^sup>*\<^sup>* s s'" and "i \<noteq> 0"
  shows "(phase s' = Serving \<longrightarrow>
       count_list (answered_ids s') i + count_list (flight_ids s') i = count_list (admitted_ids s') i)
    \<and> count_list (answered_ids s') i \<le> count_list (admitted_ids s') i + (if phase s' \<noteq> Serving \<and> close_id s' = Some i then 1 else 0)
    \<and> (count_list (admitted_ids s') i < count_list (answered_ids s') i \<longrightarrow>
         (\<forall>j. j \<noteq> 0 \<longrightarrow> j \<noteq> i \<longrightarrow> count_list (answered_ids s') j = count_list (admitted_ids s') j))"
  using session_reachable_ok [OF assms(1,2)] assms(3) unfolding session_ok_def balanced_def fair_def by blast

text \<open>
  C31. A get that waits for a download waits for one that will end. In every reachable state and
  however far the pool has run from there: no more downloads hold a permit of the semaphore
  than it has; each marker belongs to a download of the pool, and then the pool can take a
  step, because a download holds a permit and runs, or a permit is free; no run of the pool
  goes on for ever; so that however the pool is scheduled, it comes to a state with no
  marker left, in which every waiting get has been released. That every request of the HTTP
  client returns is taken for granted.
\<close>

theorem waiting_gets_are_released:
  assumes "started E h cwd temp_dir client args f E' s" and "(prog_step E' args)\<^sup>*\<^sup>* s s'"
    and "(pool_step E')\<^sup>*\<^sup>* (world s') w"
  shows "length (permitted w) \<le> concurrency E'
    \<and> (\<forall>output. download_in_progress output w \<longrightarrow> (\<exists>d\<in>set (pool w). entry_output (snd d) = output) \<and> (\<exists>w'. pool_step E' w w'))
    \<and> wf {(v', v). pool_step E' v v'}
    \<and> (\<exists>v. (pool_step E')\<^sup>*\<^sup>* w v \<and> inflight v = [])"
proof -
  have ok: "marked E' w" using pool_steps_kept(2) [OF assms(3)] session_reachable_ok [OF assms(1,2)] by (simp add: session_ok_def)
  have "(\<exists>d\<in>set (pool w). entry_output (snd d) = out) \<and> (\<exists>w'. pool_step E' w w')" if "download_in_progress out w" for out
  proof -
    have "out \<in> set (inflight w)" using that by (simp add: download_in_progress_def)
    moreover from this have "\<exists>w'. pool_step E' w w'" by (intro marked_step [OF ok]) auto
    ultimately show ?thesis using ok by (auto simp: marked_def)
  qed
  then show ?thesis using ok pool_step_wf pool_drains [OF ok] by (auto simp: marked_def)
qed

section \<open>A concrete session\<close>

text \<open>A session that reads one line, a get, and answers it.\<close>

definition demo_reading :: "(demo_files, unit) session" where
  "demo_reading = demo_session\<lparr>reader := \<lparr>coming = [65, 10], input_fails = None, line = [], pending_put = None\<rparr>\<rparr>"

definition demo_get_request :: ProgRequest where
  "demo_get_request = \<lparr>pr_id = 1, pr_command = ''get'', pr_action_id = [], pr_output_id = [], pr_body_size = 0\<rparr>"

lemma demo_reading_started:
  "started (demo_go_env False) demo_host [] [] (Inr ()) demo_args (prog_disk demo_helper) demo_started_env demo_reading"
  using demo_started
proof (cases rule: started.cases)
  case (1 w w' bs fails)
  from started.intros [OF 1(2-4), of "[65, 10]" None] show ?thesis
    using 1(1) by (simp add: demo_reading_def demo_session_def)
qed

lemma demo_writes: "\<exists>bs. write_response demo_started_env response w = (Inr (), w\<lparr>stdout := stdout w @ [(response, bs)]\<rparr>)"
  by (intro exI [of _ "[line_feed]"]) (simp add: write_response_def and_then_def map_err_def lift_result_def demo_started_env_def demo_prog_def)

theorem requests_are_answered_once_witness:
  "\<exists>s. (prog_step demo_started_env demo_args)\<^sup>*\<^sup>* demo_reading s \<and> admitted_ids s = [1] \<and> flight_ids s = []
     \<and> count_list (answered_ids s) 1 = 1"
proof -
  let ?p = "(demo_get_request, [] :: bytes)"
  have "next_message (prog_json demo_started_env) (reader demo_reading)
      = (Inr (Some (RequestMessage demo_get_request [])), \<lparr>coming = [], input_fails = None, line = [], pending_put = None\<rparr>)"
    by (simp add: next_message_def read_protocol_line.simps demo_reading_def demo_started_env_def demo_prog_def demo_get_request_def
        request_from_slice_def line_feed_def Let_def is_ascii_whitespace_def bind_sum_def deserialize_bytes_def)
  then have "prog_step demo_started_env demo_args demo_reading (on_message demo_started_env (Some (RequestMessage demo_get_request []))
      (demo_reading\<lparr>reader := \<lparr>coming = [], input_fails = None, line = [], pending_put = None\<rparr>\<rparr>))"
    by (rule prog_step.message [rotated 2]) (simp_all add: demo_reading_def demo_session_def)
  then obtain s1 where s1: "prog_step demo_started_env demo_args demo_reading s1" "phase s1 = Serving"
    "in_flight_requests s1 = [?p]" "admitted_ids s1 = [1]"
    by (simp add: on_message_def demo_reading_def demo_session_def demo_get_request_def)
  obtain r w where run: "execute_request demo_started_env (\<lambda>w. w) demo_get_request [] (world s1) = (r, w)" by fastforce
  then obtain response where r: "r = Inr response" by (rule execute_request_E)
  obtain bs where wrote: "write_response demo_started_env response w = (Inr (), w\<lparr>stdout := stdout w @ [(response, bs)]\<rparr>)"
    using demo_writes by blast
  let ?s = "complete_request demo_started_env (\<lambda>w. w) ?p s1"
  have "prog_step demo_started_env demo_args s1 ?s" by (rule prog_step.completes) (simp_all add: s1)
  with s1(1) have steps: "(prog_step demo_started_env demo_args)\<^sup>*\<^sup>* demo_reading ?s" by simp
  have s: "phase ?s = Serving" "flight_ids ?s = []" "admitted_ids ?s = [1]"
    using s1 run r wrote by (simp_all add: complete_request_def after_write_def flight_ids_def)
  from requests_are_answered_once [OF demo_reading_started steps, of 1] s have "count_list (answered_ids ?s) 1 = 1" by simp
  with steps s show ?thesis by blast
qed

lemma demo_prefetch:
  "\<exists>w. start_prefetch demo_started_env (world demo_session) = (Inr (), w) \<and> inflight w = [entry_output demo_entry]"
proof -
  let ?m = "\<lparr>version = manifest_version, entries = [(''05'', demo_entry)]\<rparr>"
  have found: "stored_manifest demo_started_env w = (Inr (Some ?m), w)" for w
    by (simp add: stored_manifest_def send_get_def prog_send_def and_then_def map_err_def lift_result_def require_def is_success_def
        read_body_def bind_sum_def ok_def demo_started_env_def)
  have absent: "file_has_size demo_started_env p n w = (Inr False, w)" if "fst (prog_disk w) = (\<lambda>_. None)" for p n w
    using that by (simp add: file_has_size_def outcome_def on_scratch_def map_err_def demo_scratch_def ok_def demo_started_env_def)
  have free: "fst (prog_disk demo_helper) = (\<lambda>_. None)" by (simp add: demo_helper_def)
  have "session_manifest demo_helper = None" "inflight demo_helper = []" "concurrency demo_started_env = 4" "entry_size demo_entry = 1"
    by (simp_all add: demo_helper_def demo_started_env_def demo_entry_def)
  then show ?thesis
    by (simp add: start_prefetch_def and_then_def found install_manifest_def demo_session_def absent free ok_def modify_def begin_download_def)
qed

theorem waiting_gets_are_released_witness:
  "\<exists>w. (pool_step demo_started_env)\<^sup>*\<^sup>* (world demo_session) w \<and> download_in_progress (entry_output demo_entry) w
     \<and> (\<exists>v. (pool_step demo_started_env)\<^sup>*\<^sup>* w v \<and> inflight v = [])"
proof -
  obtain w where run: "start_prefetch demo_started_env (world demo_session) = (Inr (), w)" and mark: "inflight w = [entry_output demo_entry]"
    using demo_prefetch by blast
  have "prefetch_task (world demo_session)" "\<not> prefetch_begun (world demo_session)" by (simp_all add: demo_session_def demo_helper_def)
  then have step: "(pool_step demo_started_env)\<^sup>*\<^sup>* (world demo_session) (w\<lparr>prefetch_begun := True\<rparr>)"
    using pool_step.begins [OF _ _ run] by blast
  moreover have "download_in_progress (entry_output demo_entry) (w\<lparr>prefetch_begun := True\<rparr>)"
    using mark by (simp add: download_in_progress_def)
  ultimately show ?thesis
    using waiting_gets_are_released [OF demo_started rtranclp.rtrancl_refl step] by blast
qed

theorem finish_session_once_witness:
  "finish_session demo_started_env False (snd (finish_session demo_started_env False demo_helper))
    = (Inr (), snd (finish_session demo_started_env False demo_helper))"
  by (rule finish_session_once [OF prod.collapse [symmetric]])

definition demo_bad_put :: ProgRequest where
  "demo_bad_put = \<lparr>pr_id = 2, pr_command = ''put'', pr_action_id = [5], pr_output_id = [], pr_body_size = 1\<rparr>"

theorem put_checks_before_it_acts_witness:
  "isl (fst (prog_put (demo_go_env False) demo_bad_put [7] demo_helper)) \<and> snd (prog_put (demo_go_env False) demo_bad_put [7] demo_helper) = demo_helper"
proof -
  have "\<not> put_accepts (demo_go_env False) demo_bad_put [7] body" for body
    by (auto simp: put_accepts_def demo_bad_put_def demo_go_def demo_crates_def split: if_splits)
  then show ?thesis using put_checks_before_it_acts [OF prod.collapse [symmetric], of "demo_go_env False" demo_bad_put "[7]" demo_helper] by blast
qed

end
