(* ===== verification/Spec2Isabelle.thy ===== *)
theory Spec2Isabelle
  imports Http_Access Truthful Server_Properties Request_Identity Agent_Server Cacheprog_Accounting
begin

text \<open>
  \<^bold>\<open>Flywheel\<close> is a build-artifact cache. A shard (\<open>src/lib.rs\<close>, \<open>src/main.rs\<close>) stores immutable
  bodies as files named by their SHA-256 digest and describes them in a RocksDB store; a
  routing sidecar, the agent, places requests on shards by consistent hashing. A shard also
  caches what package managers download, through a proxy, and a helper lets the Go tool use
  it as its build cache. This development models the shard from its HTTP layer down, the proxy,
  the agent, the opening of a shard from its configuration and the Go cache program, and proves
  that what they store, serve, delete, fetch and route is what they should.

  \<^bold>\<open>Parts of the program and the theories that model them.\<close>

  \<^item> \<open>Flywheel_Prelude\<close>: machine arithmetic (saturating and checked words), big-endian keys and
    their order, and actions \<open>('s, 'e, 'a) act\<close>, functions from a state to an error or a value
    and a new state. \<open>and_then\<close> is the \<open>?\<close> operator, \<open>outcome\<close> a match on a result, \<open>keeps\<close> says
    that an action preserves a predicate on every outcome, errors included.
  \<^item> \<open>Space\<close> (\<open>src/cache/space.rs\<close>): the ledger of free, reserved and committed bytes.
  \<^item> \<open>Domain\<close> (\<open>src/artifact\<close>, \<open>src/channel\<close>, \<open>src/reference.rs\<close>, record types of
    \<open>src/storage\<close>): identities, tokens, records and the errors of every layer. The record
    \<open>crates\<close> holds the functions of the hex, ULID and SHA-256 crates.
  \<^item> \<open>Metadata\<close> (\<open>src/storage/metadata/rocksdb.rs\<close>, \<open>src/storage/records.rs\<close>): every method of
    the store as operations on column families of byte strings. \<open>Metadata_Refinement\<close> shows
    that on databases these methods maintain they act as operations on maps (an abstract store
    of artifacts, references, channels and an eviction queue), and \<open>Metadata_Contract\<close>
    packages that as the interface the services rely on. \<open>Reference_Store\<close> is an executable
    instance of the RocksDB parameter.
  \<^item> \<open>Local_Files\<close> (\<open>src/storage/local/artifact_files.rs\<close>): staging, publication, removal and
    scans over a file system given as a parameter; \<open>Staging\<close> holds the proofs about
    reservations and bodies, \<open>Reference_Disk\<close> an executable file system.
  \<^item> \<open>Recent_Use\<close> (\<open>src/cache/recent_use.rs\<close>): the two rotating Bloom filters.
  \<^item> \<open>Node\<close>, \<open>Channels\<close> (\<open>src/channel/service.rs\<close>), \<open>Cache_Service\<close> (\<open>src/cache/service.rs\<close>):
    the state of one shard (database, disk, ledger, filters, gates, counters) and every
    operation of the two services on it. \<open>Service_Invariant\<close> and \<open>Service_Steps\<close> carry the
    shard's invariant through every operation, \<open>Maintenance\<close>, \<open>Publication\<close> and
    \<open>Lifecycle_Effects\<close> state what the large operations change and what they leave alone;
    \<open>Truthful\<close> shows that the records of a node are true.
  \<^item> \<open>Ring\<close> (\<open>src/agent/ring.rs\<close>), \<open>Discovery\<close> (\<open>src/agent/discovery.rs\<close>), \<open>Http_Types\<close>,
    \<open>Prefetch\<close> (\<open>src/telemetry.rs\<close>), \<open>Agent\<close> (\<open>src/agent/mod.rs\<close>): key encoding and continuum,
    membership with ejection and retry, the values exchanged over HTTP, the observation of
    prefetches, and the forwarding of requests. \<open>Agent_Server\<close> opens the agent, dispatches its
    requests and interleaves them with discovery in the step relation \<open>agent_step\<close>.
  \<^item> \<open>Negotiation\<close> and \<open>Proxy\<close> (\<open>src/proxy/mod.rs\<close>): the choice of a representation from an
    \<open>Accept\<close> header, and the fetching, revalidation, caching and rewriting of package files
    and indexes; \<open>Proxy_Properties\<close> holds the proofs.
  \<^item> \<open>Http_Server\<close> (\<open>src/transport/http/mod.rs\<close>) and \<open>Http_Packages\<close> (\<open>packages.rs\<close>): every handler
    of the shard, admission, authorization, ranges, the router tables and the life of a request
    around its handler. A handler is an action whose error \<open>Exit\<close> is an early return or a panic;
    a permit lives in the scope of a handler or in the body of its answer. \<open>Watched\<close> (three
    locales, each extending the one before) and \<open>Http_Invariant\<close> carry the invariant of the shard and the well-formedness of its records
    through every route, \<open>Http_Calm\<close> shows that no handler panics, \<open>Http_Properties\<close> and
    \<open>Http_Access\<close> state what the answers are.
  \<^item> \<open>Request_Identity\<close> (\<open>src/transport/http/mod.rs\<close>): the name of a request in the logs of a shard,
    compared with the routing object of the agent.
  \<^item> \<open>Flywheel\<close> (\<open>src/lib.rs\<close>, \<open>src/main.rs\<close>, \<open>src/config.rs\<close>, \<open>src/cli.rs\<close>, \<open>src/telemetry.rs\<close>): the
    configuration, the opening of a shard step by step and the maintenance burst.
    \<open>Server_Runs\<close> is a step relation over starts, failed starts, requests, maintenance and
    crashes; \<open>Server_Properties\<close> holds what is true in every state it reaches.
  \<^item> \<open>Session_Manifest\<close> (\<open>src/manifest.rs\<close>, the pure half of \<open>src/cacheprog/session.rs\<close>): the manifest
    of a build, its merge and its label. \<open>Cacheprog_Protocol\<close> (\<open>src/cacheprog/mod.rs\<close>): the messages
    of the Go tool and how they are read, also when a read is dropped half-way. \<open>Cacheprog\<close>
    (\<open>mod.rs\<close>, \<open>session.rs\<close>): gets, puts, the local directory, downloads, the manifest update and
    pruning. \<open>Cacheprog_Session\<close> (\<open>run_with_shutdown\<close>, \<open>prefetch\<close>): the start and end of a session,
    and the loop and the download pool with its semaphore as the step relations \<open>prog_step\<close> and
    \<open>pool_step\<close>.
    \<open>Cacheprog_Objects\<close> shows that the directory only holds genuine objects,
    \<open>Cacheprog_Accounting\<close> that downloads end and requests are answered once;
    \<open>Reference_Scratch\<close> is an executable directory and server.

  \<^bold>\<open>How the model corresponds to the code.\<close> A struct is a record, an enum a datatype, a method
  a function of the same name; where a name is taken it carries its type (\<open>Ring_new\<close>,
  \<open>service_publish\<close>). Integers are words of their width wherever the code computes with them;
  unchecked sums wrap, as they do in a release build. Durations are natural numbers of
  nanoseconds; the product the discovery loop computes panics above the largest duration. An asynchronous method is one action:
  the order of its effects is kept, and interleavings are only considered where a property
  says so (\<open>Space\<close> treats the two halves of \<open>refresh\<close> apart; the sections of \<open>ring\<close> under the
  read and the write lock are separate functions; in a session of the Go cache program
  reads, requests, downloads, the close and the shutdown interleave freely, each request,
  download and answer being one action). Values drawn from outside (clock, fresh
  identifiers, tokens, free space) are streams in the service's record, read by position.
  Histograms are counted, log lines are left out.

  \<^bold>\<open>Code outside the repository\<close> is a parameter: the functions of \<open>crates\<close>, a RocksDB
  database (\<open>rocks\<close>), a file system (\<open>fs\<close>), the HTTP clients (\<open>send\<close>, \<open>getter\<close>), the DNS resolver,
  the URL, base64, JSON and HTML functions of \<open>web_crates\<close>, the JSON extraction, decoders and registry
  encoding behind the HTTP layer (\<open>http_crates\<close>), what a process finds when it starts
  (\<open>environment\<close>), and for the Go cache program the local file system (\<open>scratch\<close>), JSON and
  base64 (\<open>prog_crates\<close>), the host (\<open>host\<close>), the clock and the HTTP client (\<open>prog_env\<close>). What the code relies on is a named
  predicate (\<open>hex_ok\<close>, \<open>ulid_ok\<close>, \<open>sha256_ok\<close>, \<open>rocks_ok\<close>, \<open>fs_ok\<close>, \<open>sync_ok\<close>, \<open>jitter_ok\<close>, \<open>web_ok\<close>,
  \<open>get_fits\<close>, \<open>reader_ok\<close>, \<open>framework_ok\<close>, \<open>environment_ok\<close>, \<open>scratch_ok\<close>, \<open>closes_complete\<close>,
  \<open>no_subdirectories\<close>, \<open>sha256_of_nothing\<close>), and the reference instances show that each can hold; the witnesses
  evaluate the model on them.

  \<^bold>\<open>What the lemmas show.\<close>

  \<^item> Storage: queue rows and artifacts correspond one to one; commits are atomic; capacity is
    conserved on every path of staging and publication; bytes are returned only for files that
    are gone; durable publications are flushed.
  \<^item> Shard: in every state reached by any sequence of operations, a lookup returns a file that
    encodes a body with the artifact's digest, and a record with the lengths of such a body in
    the recorded encoding; a lookup after a publication does not miss; maintenance removes only what
    is due or, under pressure, oldest; recovery and channel deletion touch nothing they should
    not; interrupted deletions complete.
  \<^item> Agent: the binary search on the ring computes the clockwise owner; removing a member moves
    only its keys; in every state a running agent reaches, requests go once, to the owner among the
    members eligible at that moment, and discovery does not panic for refresh bounds below
    \<open>2 ^ 63\<close> seconds;
    failures eject at the limit and until the deadline; builds never see a cache error; a
    prefetch mark changes only counters, which balance.
  \<^item> Proxy: no request leaves for a host that is not allowed, redirects included, and their
    number is bounded; permits and coalescing entries are given back on every path; the shard's
    invariant survives every answer of upstream; what was downloaded is answered with the same
    artifact while fresh; rewritten links lead back to what they stand for; a refused representation is
    never served.
  \<^item> HTTP: what was uploaded to a free path is what is downloaded, and a file its record
    describes is delivered whole or by range; \<open>HEAD\<close> mirrors \<open>GET\<close>; a
    request without the token of its channel is refused and touches nothing; in every state a
    server reaches no request panics, every permit returns, and the store is well-typed; the
    agent and the shard name requests alike.
  \<^item> Server: opening recovers what an earlier process left; a maintenance burst ends when it is
    cancelled; the two sets of defaults agree.
  \<^item> Go cache program: in every state of a session a file named by a digest holds a prefix of a
    body with that digest, and a get that does not miss names such a file; a put checks size and
    digest before it acts; dropped reads lose nothing; the download pool never runs dry of
    permits, ends, and no get waits for a download that is not there; while a session serves,
    every request is answered once or in flight, and the close is answered last; the
    merged manifest keeps the newest entries; finishing a session twice is finishing it once.
  \<^item> Deviations from what comments or the purpose of the code say are proved as theorems of
    their own: a commit lost between the two halves of \<open>refresh\<close>, a durable republication
    that is not flushed, a publication over an orphan body that records a wrong encoding, a
    tarball link with credentials that is rewritten into one the proxy refuses, a raw file that
    is answered from the cache without its body, a client that
    refuses zstd with a zero quality and gets it, a byte limit of zero that validates and stops
    all reclamation, an object file renamed before its bytes are known to be written.

  \<^bold>\<open>Bounds and fuel.\<close> No definition uses fuel; the maintenance burst, which only a cancellation
  may end, is a partial function, and that it returns is a theorem. Loops over data are structural recursions over
  the list they iterate; the extent loop of staging recurses on the bytes still needed; the
  binary search recurses on the length of its range; redirects and attempts recurse on the
  hops and attempts left, which the code bounds itself; the
  reader of protocol lines recurses on the input still to come. The discovery loop is given by one
  iteration, with bounds on the delay between iterations.

  \<^bold>\<open>Not modelled.\<close> The lock stripes and gates
  (\<open>src/cache/stripes.rs\<close>) are not given an interleaving semantics. The text encoding of
  metrics, argument parsing, path matching and JSON extraction by the web framework, the
  process entry points, logging and signals are library glue.
\<close>

end
